(* ===== verification/Prelude.thy ===== *)
theory Prelude
  imports Main "HOL-Library.Char_ord" "HOL-Library.List_Lexorder"
begin

text \<open>
  What the components share: the theorem collections, byte-level helpers on Go strings, the
  result type of fallible code, and generic list facts.  A Go \<open>string\<close> is a list of bytes, so it is
  the HOL type \<open>string\<close> (a \<open>char list\<close>); the order Go's \<open><\<close> compares strings with is the
  lexicographic order of HOL-Library.List_Lexorder over the byte order of HOL-Library.Char_ord, and
  \<open>sort_key\<close> is a stable sort like \<open>sort.SliceStable\<close>.
\<close>

section \<open>Theorem collections\<close>

named_theorems go_defs "unfoldings of the small helper definitions"
named_theorems frame "what an operation leaves unchanged"
named_theorems calls "which outside calls an operation can make"

section \<open>Results\<close>

text \<open>A fallible function returns \<open>Inl\<close> its error or \<open>Inr\<close> its value.\<close>

abbreviation is_ok :: "'e + 'a \<Rightarrow> bool" where
  "is_ok r \<equiv> \<not> isl r"

lemma is_ok_iff: "is_ok r \<longleftrightarrow> (\<exists>v. r = Inr v)"
  by (cases r) auto

section \<open>Bytes\<close>

abbreviation byte :: "char \<Rightarrow> nat" where
  "byte c \<equiv> of_char c"

definition in_range :: "char \<Rightarrow> char \<Rightarrow> char \<Rightarrow> bool" where
  [go_defs]: "in_range lo hi c \<longleftrightarrow> byte lo \<le> byte c \<and> byte c \<le> byte hi"

lemma in_range_same: "in_range d d c \<longleftrightarrow> c = d"
  unfolding in_range_def using of_char_eq_iff [where 'a = nat, of c d] by (auto intro: order_antisym)

definition is_digit :: "char \<Rightarrow> bool" where
  [go_defs]: "is_digit c \<longleftrightarrow> in_range (CHR ''0'') (CHR ''9'') c"

text \<open>Value of an ASCII digit, and the digit of a value below ten.\<close>

definition digit_val :: "char \<Rightarrow> nat" where
  [go_defs]: "digit_val c = byte c - 48"

definition digit_char :: "nat \<Rightarrow> char" where
  "digit_char n = char_of (48 + n)"

lemma digit_char_digit [simp]: "n < 10 \<Longrightarrow> is_digit (digit_char n)"
  by (simp add: is_digit_def in_range_def digit_char_def)

lemma digit_val_char [simp]: "n < 10 \<Longrightarrow> digit_val (digit_char n) = n"
  by (simp add: digit_val_def digit_char_def)

lemma digit_val_less: "is_digit c \<Longrightarrow> digit_val c < 10"
  by (auto simp: is_digit_def in_range_def digit_val_def)

lemma digit_char_val: "is_digit c \<Longrightarrow> digit_char (digit_val c) = c"
  by (simp add: is_digit_def in_range_def digit_val_def digit_char_def)

lemma digit_char_neq [simp]:
  "n < 10 \<Longrightarrow> digit_char n \<noteq> CHR ''-''"
  "n < 10 \<Longrightarrow> digit_char n \<noteq> CHR ''Z''"
  "n < 10 \<Longrightarrow> digit_char n \<noteq> CHR ''.''"
  "n < 10 \<Longrightarrow> digit_char n \<noteq> CHR '',''"
  "n < 10 \<Longrightarrow> digit_char n \<noteq> CHR '':''"
  "n < 10 \<Longrightarrow> digit_char n \<noteq> CHR ''+''"
  by (auto dest!: digit_char_digit simp: is_digit_def in_range_def)

text \<open>Decimal value of a run of digits, most significant first.\<close>

definition digits_val :: "string \<Rightarrow> nat" where
  "digits_val s = foldl (\<lambda>acc c. acc * 10 + digit_val c) 0 s"

lemma digits_val_snoc: "digits_val (s @ [c]) = digits_val s * 10 + digit_val c"
  by (simp add: digits_val_def)

lemma digits_val_Nil [simp]: "digits_val [] = 0"
  by (simp add: digits_val_def)

text \<open>\<open>pad k n\<close> is the decimal numeral of \<open>n\<close> on \<open>k\<close> digits, leading zeros kept (\<open>n < 10 ^ k\<close>).\<close>

primrec pad :: "nat \<Rightarrow> nat \<Rightarrow> string" where
  "pad 0 n = []"
| "pad (Suc k) n = pad k (n div 10) @ [digit_char (n mod 10)]"

lemma length_pad [simp]: "length (pad k n) = k"
  by (induction k arbitrary: n) auto

lemma pad_digits [simp]: "list_all is_digit (pad k n)"
  by (induction k arbitrary: n) auto

lemma digits_val_pad: "n < 10 ^ k \<Longrightarrow> digits_val (pad k n) = n"
proof (induction k arbitrary: n)
  case 0
  then show ?case by simp
next
  case (Suc k)
  from Suc.prems have "n div 10 < 10 ^ k" by (simp add: less_mult_imp_div_less mult.commute)
  then have "digits_val (pad k (n div 10)) = n div 10" by (rule Suc.IH)
  then show ?case by (simp add: digits_val_snoc)
qed

text \<open>The decimal numeral of a natural number (\<open>strconv.Itoa\<close> of a non-negative \<open>int\<close>).\<close>

fun nat_str :: "nat \<Rightarrow> string" where
  "nat_str n = (if n < 10 then [digit_char n] else nat_str (n div 10) @ [digit_char (n mod 10)])"

declare nat_str.simps [simp del]

lemma nat_str_digits: "list_all is_digit (nat_str n)"
proof (induction n rule: nat_str.induct)
  case (1 n)
  then show ?case by (subst nat_str.simps) auto
qed

lemma nat_str_nonempty: "nat_str n \<noteq> []"
  by (subst nat_str.simps) simp

lemma digits_val_nat_str: "digits_val (nat_str n) = n"
proof (induction n rule: nat_str.induct)
  case (1 n)
  show ?case
  proof (cases "n < 10")
    case True
    then show ?thesis by (subst nat_str.simps) (simp add: digits_val_def)
  next
    case False
    with "1.IH" show ?thesis by (subst nat_str.simps) (simp add: digits_val_snoc)
  qed
qed

section \<open>Strings\<close>

fun has_prefix :: "string \<Rightarrow> string \<Rightarrow> bool" where
  "has_prefix s [] = True"
| "has_prefix [] (p # ps) = False"
| "has_prefix (c # s) (p # ps) = (c = p \<and> has_prefix s ps)"

definition trim_prefix :: "string \<Rightarrow> string \<Rightarrow> string" where
  [go_defs]: "trim_prefix s p = (if has_prefix s p then drop (length p) s else s)"

lemma has_prefix_append [simp]: "has_prefix (p @ s) p"
  by (induction p) auto

lemma has_prefix_iff: "has_prefix s p \<longleftrightarrow> (\<exists>t. s = p @ t)"
proof (induction s p rule: has_prefix.induct)
  case (3 c s p ps)
  then show ?case by auto
qed auto

lemma trim_prefix_append [simp]: "trim_prefix (p @ s) p = s"
  by (simp add: trim_prefix_def)

definition contains_any :: "string \<Rightarrow> string \<Rightarrow> bool" where
  [go_defs]: "contains_any s chars \<longleftrightarrow> (\<exists>c \<in> set s. c \<in> set chars)"

text \<open>A nil-able pointer is an \<open>option\<close>; \<open>aws.ToString\<close> reads nil as the empty string.\<close>

definition aws_to_string :: "string option \<Rightarrow> string" where
  [go_defs]: "aws_to_string p = (case p of None \<Rightarrow> [] | Some s \<Rightarrow> s)"

lemma aws_to_string_simps [simp]: "aws_to_string None = []" "aws_to_string (Some s) = s"
  by (simp_all add: aws_to_string_def)

section \<open>Lists\<close>

lemma distinct_filter_map:
  "(\<And>i j. i < length xs \<Longrightarrow> j < length xs \<Longrightarrow> f (xs ! i) = f (xs ! j) \<Longrightarrow> P (f (xs ! i)) \<Longrightarrow> i = j) \<Longrightarrow>
     distinct (filter P (map f xs))"
proof (induction xs)
  case (Cons x xs)
  have "f x \<notin> set (map f xs)" if "P (f x)"
  proof
    assume "f x \<in> set (map f xs)"
    then obtain k where "k < length xs" "f (xs ! k) = f x" by (auto simp: in_set_conv_nth)
    with that Cons.prems [of 0 "Suc k"] show False by simp
  qed
  moreover have "distinct (filter P (map f xs))"
    using Cons.prems [of "Suc _" "Suc _"] by (intro Cons.IH) auto
  ultimately show ?case by auto
qed simp

end
