(* ===== verification/GoTime.thy ===== *)
theory GoTime
  imports Prelude "HOL-Library.Monad_Syntax"
begin

text \<open>
  The part of Go's \<open>time\<close> package the program uses.  A \<open>time.Time\<close> is the number of nanoseconds
  since January 1, year 1, 00:00:00 UTC, an \<open>int\<close>, so the zero time is \<open>0\<close>; the program converts
  every time to UTC before it looks at its fields.  A \<open>time.Duration\<close> is an \<open>int\<close> in the range of
  \<open>int64\<close>, in nanoseconds.  \<open>format_rfc3339nano\<close> is \<open>Format(time.RFC3339Nano)\<close> of a UTC time,
  \<open>parse_rfc3339nano\<close> is \<open>time.Parse(time.RFC3339Nano, _)\<close>, and \<open>parse_duration\<close> is
  \<open>time.ParseDuration\<close>.  The main result, \<open>parse_format\<close>, is that formatting loses nothing.
\<close>

type_synonym gotime = int
type_synonym duration = int

definition nanosecond :: duration where [go_defs]: "nanosecond = 1"
definition second :: duration where [go_defs]: "second = 1000000000"
definition minute :: duration where [go_defs]: "minute = 60 * second"
definition hour :: duration where [go_defs]: "hour = 60 * minute"
definition day_ns :: int where [go_defs]: "day_ns = 24 * hour"

definition max_int64 :: int where [go_defs]: "max_int64 = 2 ^ 63 - 1"
definition min_int64 :: int where [go_defs]: "min_int64 = - (2 ^ 63)"

text \<open>\<open>t.Sub(u)\<close> saturates at the bounds of \<open>Duration\<close>.\<close>

definition time_sub :: "gotime \<Rightarrow> gotime \<Rightarrow> duration" where
  "time_sub t u = max min_int64 (min max_int64 (t - u))"

section \<open>The civil calendar\<close>

definition is_leap :: "nat \<Rightarrow> bool" where
  "is_leap y \<longleftrightarrow> 4 dvd y \<and> (\<not> 100 dvd y \<or> 400 dvd y)"

text \<open>Days from January 1, year 1 to January 1 of year \<open>y + 1\<close>, and the months of a year.\<close>

definition days_of_years :: "nat \<Rightarrow> nat" where
  "days_of_years n = 365 * n + n div 4 - n div 100 + n div 400"

definition month_lengths :: "nat \<Rightarrow> nat list" where
  "month_lengths y = [31, if is_leap y then 29 else 28, 31, 30, 31, 30, 31, 31, 30, 31, 30, 31]"

definition days_in :: "nat \<Rightarrow> nat \<Rightarrow> nat" where
  "days_in m y = (if 1 \<le> m \<and> m \<le> 12 then month_lengths y ! (m - 1) else 0)"

definition year_length :: "nat \<Rightarrow> nat" where
  "year_length y = (if is_leap y then 366 else 365)"

definition days_of_date :: "nat \<Rightarrow> nat \<Rightarrow> nat \<Rightarrow> int" where
  "days_of_date y m d =
     int (days_of_years y) - int (year_length y) + int (sum_list (take (m - 1) (month_lengths y))) + int d - 1"

text \<open>The inverse: the year is searched upwards from a lower bound, the month along the lengths.\<close>

function year_from :: "nat \<Rightarrow> nat \<Rightarrow> nat" where
  "year_from n y = (if days_of_years (Suc y) \<le> n then year_from n (Suc y) else y)"
  by pat_completeness auto
termination
proof (relation "measure (\<lambda>(n, y). n - y)", simp, clarsimp)
  fix n y :: nat
  assume "days_of_years (Suc y) \<le> n"
  moreover have "Suc y \<le> days_of_years (Suc y)" by (simp add: days_of_years_def)
  ultimately show "n - Suc y < n - y" by linarith
qed

declare year_from.simps [simp del]

fun month_scan :: "nat list \<Rightarrow> nat \<Rightarrow> nat \<times> nat" where
  "month_scan [] n = (0, n)"
| "month_scan (l # ls) n = (if n < l then (0, n) else (case month_scan ls (n - l) of (m, d) \<Rightarrow> (Suc m, d)))"

definition date_of_days :: "nat \<Rightarrow> nat \<times> nat \<times> nat" where
  "date_of_days n =
     (let y = year_from n (n div 366);
          (m, d) = month_scan (month_lengths (Suc y)) (n - days_of_years y)
      in (Suc y, Suc m, Suc d))"

lemma days_of_years_Suc: "days_of_years (Suc n) = days_of_years n + year_length (Suc n)"
proof -
  have q: "Suc n div k = n div k + (if k dvd Suc n then 1 else 0)" if "0 < k" for k
    using that by (auto simp: div_Suc dvd_eq_mod_eq_0)
  have m: "n div 400 \<le> n div 100" "n div 100 \<le> 365 * n + n div 4"
    by (simp_all add: div_le_mono2 trans_le_add2)
  have t: "100 dvd Suc n \<Longrightarrow> 4 dvd Suc n" "400 dvd Suc n \<Longrightarrow> 100 dvd Suc n"
    by (rule dvd_trans [of 4 100], simp_all) (rule dvd_trans [of 100 400], simp_all)
  obtain a b c where abc: "n div 4 = a" "n div 100 = b" "n div 400 = c" by simp
  show ?thesis
    using m [unfolded abc] t unfolding days_of_years_def year_length_def is_leap_def
    by (cases "4 dvd Suc n"; cases "100 dvd Suc n"; cases "400 dvd Suc n")
      (simp_all only: q abc, auto)
qed

lemma days_of_years_mono: "m \<le> n \<Longrightarrow> days_of_years m \<le> days_of_years n"
  by (induction n rule: dec_induct) (auto simp: days_of_years_Suc)

lemma days_of_years_bound: "days_of_years n \<le> 366 * n"
  by (induction n) (simp add: days_of_years_def, simp add: days_of_years_Suc year_length_def)

lemma year_from_spec:
  "days_of_years y \<le> n \<Longrightarrow>
     days_of_years (year_from n y) \<le> n \<and> n < days_of_years (Suc (year_from n y))"
proof (induction n y rule: year_from.induct)
  case (1 n y)
  then show ?case
    by (cases "days_of_years (Suc y) \<le> n") (simp_all add: year_from.simps [of n y])
qed

lemma month_scan_spec:
  "n < sum_list ls \<Longrightarrow> month_scan ls n = (m, d) \<Longrightarrow>
     m < length ls \<and> d < ls ! m \<and> n = sum_list (take m ls) + d"
proof (induction ls n arbitrary: m d rule: month_scan.induct)
  case (2 l ls n)
  show ?case
  proof (cases "n < l")
    case True
    with "2.prems" show ?thesis by simp
  next
    case False
    obtain m' d' where md: "month_scan ls (n - l) = (m', d')" by force
    from False "2.prems"(1) have "n - l < sum_list ls" by simp
    from "2.IH" [OF False this md] False "2.prems"(2) md show ?thesis by auto
  qed
qed simp

lemma sum_month_lengths: "sum_list (month_lengths y) = year_length y"
  by (simp add: month_lengths_def year_length_def)

lemma length_month_lengths [simp]: "length (month_lengths y) = 12"
  by (simp add: month_lengths_def)

text \<open>\<open>date_of_days\<close> yields a date of the calendar, and \<open>days_of_date\<close> undoes it.\<close>

lemma date_of_days_spec:
  assumes "date_of_days n = (y, m, d)"
  shows "1 \<le> y" "1 \<le> m" "m \<le> 12" "1 \<le> d" "d \<le> days_in m y" "days_of_date y m d = int n"
    "n < days_of_years y"
proof -
  let ?y = "year_from n (n div 366)"
  have "days_of_years (n div 366) \<le> n"
    using days_of_years_bound [of "n div 366"] by simp
  then have y: "days_of_years ?y \<le> n" "n < days_of_years (Suc ?y)"
    using year_from_spec by blast+
  obtain m' d' where md: "month_scan (month_lengths (Suc ?y)) (n - days_of_years ?y) = (m', d')"
    by force
  from assms md have e: "y = Suc ?y" "m = Suc m'" "d = Suc d'"
    by (simp_all add: date_of_days_def Let_def)
  have "n - days_of_years ?y < sum_list (month_lengths (Suc ?y))"
    using y by (simp add: sum_month_lengths days_of_years_Suc)
  from month_scan_spec [OF this md]
  have s: "m' < 12" "d' < month_lengths (Suc ?y) ! m'"
    "n - days_of_years ?y = sum_list (take m' (month_lengths (Suc ?y))) + d'"
    by simp_all
  show "1 \<le> y" "1 \<le> m" "m \<le> 12" "1 \<le> d" using e s(1) by simp_all
  show "d \<le> days_in m y" using e s by (simp add: days_in_def)
  show "n < days_of_years y" using e y(2) by simp
  show "days_of_date y m d = int n"
    using e s(3) y(1) by (simp add: days_of_date_def days_of_years_Suc)
qed

section \<open>Formatting\<close>

definition strip_zeros :: "string \<Rightarrow> string" where
  "strip_zeros s = rev (dropWhile (\<lambda>c. c = CHR ''0'') (rev s))"

text \<open>Layout \<open>.999999999\<close>: the fraction without trailing zeros, nothing when it is zero.\<close>

definition format_fraction :: "nat \<Rightarrow> string" where
  "format_fraction ns = (if ns = 0 then [] else CHR ''.'' # strip_zeros (pad 9 ns))"

definition format_rfc3339nano :: "gotime \<Rightarrow> string" where
  "format_rfc3339nano t =
     (let (y, mo, d) = date_of_days (nat (t div day_ns));
          r = nat (t mod day_ns);
          h = r div 3600000000000;
          mi = r div 60000000000 mod 60;
          s = r div 1000000000 mod 60;
          ns = r mod 1000000000
      in pad 4 y @ CHR ''-'' # pad 2 mo @ CHR ''-'' # pad 2 d @ CHR ''T'' # pad 2 h @
         CHR '':'' # pad 2 mi @ CHR '':'' # pad 2 s @ format_fraction ns @ ''Z'')"

text \<open>\<open>t.Year()\<close> of a time of the common era; earlier times are recognised by their sign.\<close>

definition year_of :: "gotime \<Rightarrow> nat" where
  "year_of t = fst (date_of_days (nat (t div day_ns)))"

section \<open>Parsing\<close>

definition comma_or_period :: "char \<Rightarrow> bool" where
  [go_defs]: "comma_or_period c \<longleftrightarrow> c = CHR ''.'' \<or> c = CHR '',''"

definition skip_char :: "char \<Rightarrow> string \<Rightarrow> string option" where
  "skip_char p s = (case s of c # rest \<Rightarrow> if c = p then Some rest else None | [] \<Rightarrow> None)"

text \<open>\<open>getnum\<close>: one or two digits, exactly two when \<open>fixed\<close>.\<close>

definition getnum :: "bool \<Rightarrow> string \<Rightarrow> (nat \<times> string) option" where
  "getnum fixed s =
     (case s of
        c # d # rest \<Rightarrow>
          if \<not> is_digit c then None
          else if is_digit d then Some (digit_val c * 10 + digit_val d, rest)
          else if fixed then None else Some (digit_val c, d # rest)
      | [c] \<Rightarrow> if is_digit c \<and> \<not> fixed then Some (digit_val c, []) else None
      | [] \<Rightarrow> None)"

definition get_ranged :: "bool \<Rightarrow> nat \<Rightarrow> string \<Rightarrow> (nat \<times> string) option" where
  "get_ranged fixed limit s =
     (case getnum fixed s of
        Some (n, rest) \<Rightarrow> if n < limit then Some (n, rest) else None
      | None \<Rightarrow> None)"

definition get_year :: "string \<Rightarrow> (nat \<times> string) option" where
  "get_year s =
     (if length s < 4 \<or> \<not> list_all is_digit (take 4 s) then None
      else Some (digits_val (take 4 s), drop 4 s))"

text \<open>Optional fraction: any number of digits, of which nine count.\<close>

definition get_fraction :: "string \<Rightarrow> nat \<times> string" where
  "get_fraction s =
     (case s of
        c # d # rest \<Rightarrow>
          if comma_or_period c \<and> is_digit d
          then (let ds = take 9 (takeWhile is_digit (d # rest))
                in (digits_val ds * 10 ^ (9 - length ds), dropWhile is_digit (d # rest)))
          else (0, s)
      | _ \<Rightarrow> (0, s))"

text \<open>Layout \<open>Z07:00\<close>: the zone offset in seconds.\<close>

definition get_zone :: "string \<Rightarrow> (int \<times> string) option" where
  "get_zone s =
     (case s of
        sg # a # b # colon # c # d # rest \<Rightarrow>
          if sg = CHR ''Z'' then Some (0, tl s)
          else if colon \<noteq> CHR '':'' then None
          else (case (getnum True [a, b], getnum True [c, d]) of
                  (Some (hr, _), Some (mm, _)) \<Rightarrow>
                    if hr > 24 \<or> mm > 60 then None
                    else if sg = CHR ''+'' then Some (int ((hr * 60 + mm) * 60), rest)
                    else if sg = CHR ''-'' then Some (- int ((hr * 60 + mm) * 60), rest)
                    else None
                | _ \<Rightarrow> None)
      | sg # rest \<Rightarrow> if sg = CHR ''Z'' then Some (0, rest) else None
      | [] \<Rightarrow> None)"

definition time_of_fields :: "nat \<Rightarrow> nat \<Rightarrow> nat \<Rightarrow> nat \<Rightarrow> nat \<Rightarrow> nat \<Rightarrow> nat \<Rightarrow> int \<Rightarrow> gotime" where
  "time_of_fields y mo d h mi s ns off =
     days_of_date y mo d * day_ns + int h * hour + int mi * minute + int s * second + int ns
     - off * second"

definition parse_rfc3339nano :: "string \<Rightarrow> gotime option" where
  "parse_rfc3339nano v = do {
     (y, v) \<leftarrow> get_year v;
     v \<leftarrow> skip_char (CHR ''-'') v;
     (mo, v) \<leftarrow> get_ranged True 13 v;
     v \<leftarrow> skip_char (CHR ''-'') v;
     (d, v) \<leftarrow> getnum True v;
     v \<leftarrow> skip_char (CHR ''T'') v;
     (h, v) \<leftarrow> get_ranged False 24 v;
     v \<leftarrow> skip_char (CHR '':'') v;
     (mi, v) \<leftarrow> get_ranged True 60 v;
     v \<leftarrow> skip_char (CHR '':'') v;
     (s, v) \<leftarrow> get_ranged True 60 v;
     let (ns, v) = get_fraction v;
     (off, v) \<leftarrow> get_zone v;
     if mo < 1 \<or> v \<noteq> [] \<or> d < 1 \<or> d > days_in mo y then None
     else Some (time_of_fields y mo d h mi s ns off)
   }"

section \<open>Formatting loses nothing\<close>

lemma getnum_pad [simp]: "n < 100 \<Longrightarrow> getnum f (pad 2 n @ s) = Some (n, s)"
  by (simp add: getnum_def numeral_2_eq_2)

lemma get_ranged_pad [simp]: "n < 100 \<Longrightarrow> n < l \<Longrightarrow> get_ranged f l (pad 2 n @ s) = Some (n, s)"
  by (simp add: get_ranged_def)

lemma get_year_pad [simp]: "n < 10000 \<Longrightarrow> get_year (pad 4 n @ s) = Some (n, s)"
  by (simp add: get_year_def digits_val_pad)

lemma skip_char_Cons [simp]: "skip_char c (c # s) = Some s"
  by (simp add: skip_char_def)

lemma digits_val_append: "digits_val (s @ t) = digits_val s * 10 ^ length t + digits_val t"
proof (induction t rule: rev_induct)
  case (snoc c t)
  then show ?case by (simp add: digits_val_snoc algebra_simps flip: append_assoc)
qed simp

lemma digits_val_zeros: "\<forall>c \<in> set s. c = CHR ''0'' \<Longrightarrow> digits_val s = 0"
  by (induction s rule: rev_induct) (auto simp: digits_val_snoc digit_val_def)

lemma strip_zeros_split: "\<exists>z. s = strip_zeros s @ z \<and> (\<forall>c \<in> set z. c = CHR ''0'')"
proof -
  have "s = rev (takeWhile (\<lambda>c. c = CHR ''0'') (rev s) @ dropWhile (\<lambda>c. c = CHR ''0'') (rev s))"
    by simp
  then have "s = strip_zeros s @ rev (takeWhile (\<lambda>c. c = CHR ''0'') (rev s))"
    unfolding strip_zeros_def rev_append .
  moreover have "\<forall>c \<in> set (rev (takeWhile (\<lambda>c. c = CHR ''0'') (rev s))). c = CHR ''0''"
    by (auto dest: set_takeWhileD)
  ultimately show ?thesis by blast
qed

lemma strip_zeros_val:
  "digits_val (strip_zeros s) * 10 ^ (length s - length (strip_zeros s)) = digits_val s"
  "length (strip_zeros s) \<le> length s"
  "list_all is_digit s \<Longrightarrow> list_all is_digit (strip_zeros s)"
proof -
  obtain z where z: "s = strip_zeros s @ z" "\<forall>c \<in> set z. c = CHR ''0''"
    using strip_zeros_split by blast
  have "length s = length (strip_zeros s) + length z" by (subst z(1)) simp
  moreover have "digits_val s = digits_val (strip_zeros s) * 10 ^ length z"
    by (subst z(1)) (simp add: digits_val_append digits_val_zeros [OF z(2)])
  ultimately show "digits_val (strip_zeros s) * 10 ^ (length s - length (strip_zeros s)) = digits_val s"
    "length (strip_zeros s) \<le> length s" by simp_all
  show "list_all is_digit s \<Longrightarrow> list_all is_digit (strip_zeros s)"
    by (subst (asm) z(1)) simp
qed

lemma takeWhile_digits: "list_all is_digit ds \<Longrightarrow> \<not> is_digit c \<Longrightarrow>
    takeWhile is_digit (ds @ c # s) = ds \<and> dropWhile is_digit (ds @ c # s) = c # s"
  by (induction ds) auto

lemma not_digit_Z [simp]: "\<not> is_digit (CHR ''Z'')"
  by (simp add: is_digit_def in_range_def)

lemma get_fraction_format: "ns < 1000000000 \<Longrightarrow> get_fraction (format_fraction ns @ ''Z'') = (ns, ''Z'')"
proof (cases "ns = 0")
  case False
  assume ns: "ns < 1000000000"
  let ?ds = "strip_zeros (pad 9 ns)"
  have len: "length ?ds \<le> 9" and dig: "list_all is_digit ?ds"
    using strip_zeros_val [of "pad 9 ns"] by simp_all
  have val: "digits_val ?ds * 10 ^ (9 - length ?ds) = ns"
    using strip_zeros_val(1) [of "pad 9 ns"] ns by (simp add: digits_val_pad)
  with False have "?ds \<noteq> []" by auto
  then obtain d rest where d: "?ds = d # rest" by (cases ?ds) auto
  with dig have "is_digit d" by simp
  then have "get_fraction (CHR ''.'' # ?ds @ ''Z'') = (digits_val ?ds * 10 ^ (9 - length ?ds), ''Z'')"
    using len dig takeWhile_digits [OF dig not_digit_Z, of "[]"]
    by (simp add: get_fraction_def comma_or_period_def Let_def d)
  with False val show ?thesis by (simp add: format_fraction_def)
qed (simp add: format_fraction_def get_fraction_def)

lemma days_in_bound: "days_in m y \<le> 31"
proof (cases "1 \<le> m \<and> m \<le> 12")
  case True
  then have "month_lengths y ! (m - 1) \<in> set (month_lengths y)" by (intro nth_mem) auto
  then have "month_lengths y ! (m - 1) \<le> 31" by (auto simp: month_lengths_def split: if_splits)
  with True show ?thesis by (simp add: days_in_def)
qed (auto simp: days_in_def)

lemma split_day:
  fixes r :: nat
  assumes "r < 86400000000000"
  shows "r div 3600000000000 < 24" "r div 60000000000 mod 60 < 60" "r div 1000000000 mod 60 < 60"
    "r mod 1000000000 < 1000000000"
    "int (r div 3600000000000) * hour + int (r div 60000000000 mod 60) * minute
         + int (r div 1000000000 mod 60) * second + int (r mod 1000000000) = int r"
proof -
  show "r div 3600000000000 < 24" using assms by (simp add: div_less_iff_less_mult)
  show "r div 60000000000 mod 60 < 60" "r div 1000000000 mod 60 < 60" "r mod 1000000000 < 1000000000"
    by simp_all
  define s where "s = r div 1000000000"
  define m where "m = s div 60"
  have m: "r div 60000000000 = m" and h: "r div 3600000000000 = m div 60"
    by (simp_all add: m_def s_def flip: div_mult2_eq)
  have "r = s * 1000000000 + r mod 1000000000" "s = m * 60 + s mod 60" "m = m div 60 * 60 + m mod 60"
    by (simp_all add: s_def m_def)
  then have "m div 60 * 3600000000000 + m mod 60 * 60000000000 + s mod 60 * 1000000000
      + r mod 1000000000 = r" by linarith
  from arg_cong [OF this, of int]
  show "int (r div 3600000000000) * hour + int (r div 60000000000 mod 60) * minute
         + int (r div 1000000000 mod 60) * second + int (r mod 1000000000) = int r"
    unfolding m h s_def [symmetric] by (simp add: go_defs)
qed

lemma get_zone_Z: "get_zone ''Z'' = Some (0, [])"
  by (simp add: get_zone_def)

lemma parse_format:
  assumes "0 \<le> t" "year_of t \<le> 9999"
  shows "parse_rfc3339nano (format_rfc3339nano t) = Some t"
proof -
  obtain y mo d where ymd: "date_of_days (nat (t div day_ns)) = (y, mo, d)" by (metis prod_cases3)
  note spec = date_of_days_spec [OF ymd]
  let ?r = "nat (t mod day_ns)"
  have day: "day_ns = 86400000000000" by (simp add: go_defs)
  have r: "?r < 86400000000000" by (simp add: day nat_less_iff)
  note sd = split_day [OF r]
  have y: "y < 10000" using assms(2) ymd by (simp add: year_of_def)
  have dm: "d < 100" using spec(5) days_in_bound [of mo y] by linarith
  have q: "int (nat (t div day_ns)) = t div day_ns" "int ?r = t mod day_ns"
    using assms(1) by (simp_all add: day pos_imp_zdiv_nonneg_iff)
  have "time_of_fields y mo d (?r div 3600000000000) (?r div 60000000000 mod 60)
      (?r div 1000000000 mod 60) (?r mod 1000000000) 0 = t div day_ns * day_ns + int ?r"
    unfolding time_of_fields_def spec(6) q(1) using sd(5) by simp
  also have "\<dots> = t" unfolding q(2) by simp
  finally have tof: "time_of_fields y mo d (?r div 3600000000000) (?r div 60000000000 mod 60)
      (?r div 1000000000 mod 60) (?r mod 1000000000) 0 = t" .
  show ?thesis
    using y dm sd(1-4) spec(2-5)
    by (simp add: parse_rfc3339nano_def format_rfc3339nano_def ymd Let_def get_fraction_format
        get_zone_Z tof)
qed

section \<open>Evaluation\<close>

text \<open>Rules by which the simplifier computes the calendar on numerals.\<close>

named_theorems time_eval "rules that evaluate times and their text on numerals"

lemma year_from_step: "days_of_years (Suc y) \<le> n \<Longrightarrow> year_from n y = year_from n (Suc y)"
  by (subst year_from.simps) simp

lemma year_from_stop: "n < days_of_years (Suc y) \<Longrightarrow> year_from n y = y"
  by (subst year_from.simps) simp

lemma pad_numeral:
  "pad (numeral k) n = pad (pred_numeral k) (n div 10) @ [digit_char (n mod 10)]"
  by (subst numeral_eq_Suc [of k]) (rule pad.simps(2))

lemma digit_chars:
  "digit_char 0 = CHR ''0''" "digit_char (Suc 0) = CHR ''1''" "digit_char 1 = CHR ''1''"
  "digit_char 2 = CHR ''2''" "digit_char 3 = CHR ''3''" "digit_char 4 = CHR ''4''"
  "digit_char 5 = CHR ''5''" "digit_char 6 = CHR ''6''" "digit_char 7 = CHR ''7''"
  "digit_char 8 = CHR ''8''" "digit_char 9 = CHR ''9''"
  by code_simp+

lemmas [time_eval] = format_rfc3339nano_def date_of_days_def year_of_def year_from_step
  year_from_stop days_of_years_def month_lengths_def is_leap_def pad_numeral digit_chars
  format_fraction_def strip_zeros_def day_ns_def hour_def minute_def second_def Let_def

section \<open>Durations as text\<close>

text \<open>\<open>leadingInt\<close>: the digits at the front, \<open>None\<close> when the value passes \<open>1 << 63\<close>.\<close>

fun leading_int_from :: "nat \<Rightarrow> string \<Rightarrow> (nat \<times> string) option" where
  "leading_int_from x [] = Some (x, [])"
| "leading_int_from x (c # s) =
     (if \<not> is_digit c then Some (x, c # s)
      else if x > 2 ^ 63 div 10 then None
      else (let x' = x * 10 + digit_val c in if x' > 2 ^ 63 then None else leading_int_from x' s))"

definition leading_int :: "string \<Rightarrow> (nat \<times> string) option" where
  "leading_int s = leading_int_from 0 s"

text \<open>\<open>leadingFraction\<close>: digits past the precision of \<open>int64\<close> are consumed and dropped.  The
  result is the numerator, the power of ten below it, and the rest.\<close>

fun leading_fraction_from :: "bool \<Rightarrow> nat \<Rightarrow> nat \<Rightarrow> string \<Rightarrow> nat \<times> nat \<times> string" where
  "leading_fraction_from ov x scale [] = (x, scale, [])"
| "leading_fraction_from ov x scale (c # s) =
     (if \<not> is_digit c then (x, scale, c # s)
      else if ov then leading_fraction_from True x scale s
      else if x > (2 ^ 63 - 1) div 10 then leading_fraction_from True x scale s
      else (let y = x * 10 + digit_val c
            in if y > 2 ^ 63 then leading_fraction_from True x scale s
               else leading_fraction_from False y (scale * 10) s))"

definition leading_fraction :: "string \<Rightarrow> nat \<times> nat \<times> string" where
  "leading_fraction s = leading_fraction_from False 0 1 s"

text \<open>The unit map; both spellings of the micro sign, in UTF-8.\<close>

definition unit_ns :: "string \<Rightarrow> nat option" where
  "unit_ns u =
     (if u = ''ns'' then Some 1
      else if u = ''us'' \<or> u = [CHR 0xC2, CHR 0xB5, CHR ''s''] \<or> u = [CHR 0xCE, CHR 0xBC, CHR ''s'']
        then Some 1000
      else if u = ''ms'' then Some 1000000
      else if u = ''s'' then Some 1000000000
      else if u = ''m'' then Some 60000000000
      else if u = ''h'' then Some 3600000000000
      else None)"

definition unit_char :: "char \<Rightarrow> bool" where
  "unit_char c \<longleftrightarrow> c \<noteq> CHR ''.'' \<and> \<not> is_digit c"

text \<open>
  One \<open>number unit\<close> group.  Fractions go through \<open>float64\<close> in the Go library; the parameter \<open>flt\<close>
  stands for that expression, \<open>uint64(float64(f) * (float64(unit) / scale))\<close>.
\<close>

type_synonym float_mul = "nat \<Rightarrow> nat \<Rightarrow> nat \<Rightarrow> nat"

definition fraction_part :: "string \<Rightarrow> nat \<times> nat \<times> string \<times> bool" where
  "fraction_part s =
     (case s of
        c # s' \<Rightarrow>
          if c = CHR ''.''
          then (case leading_fraction s' of (f, scale, r) \<Rightarrow> (f, scale, r, length r \<noteq> length s'))
          else (0, 1, s, False)
      | [] \<Rightarrow> (0, 1, s, False))"

definition duration_group :: "float_mul \<Rightarrow> string \<Rightarrow> (nat \<times> string) option" where
  "duration_group flt s =
     (case s of
        [] \<Rightarrow> None
      | c # _ \<Rightarrow>
          if \<not> (c = CHR ''.'' \<or> is_digit c) then None
          else (case leading_int s of
                  None \<Rightarrow> None
                | Some (v, s1) \<Rightarrow>
                    let pre = length s1 \<noteq> length s;
                        (f, scale, s2, post) = fraction_part s1;
                        u = takeWhile unit_char s2;
                        rest = dropWhile unit_char s2
                    in if \<not> pre \<and> \<not> post then None
                       else if u = [] then None
                       else (case unit_ns u of
                               None \<Rightarrow> None
                             | Some unit \<Rightarrow>
                                 if v > 2 ^ 63 div unit then None
                                 else (let v' = v * unit;
                                           v'' = (if f > 0 then v' + flt f unit scale else v')
                                       in if f > 0 \<and> v'' > 2 ^ 63 then None else Some (v'', rest)))))"

lemma leading_int_from_length:
  "leading_int_from x s = Some (v, r) \<Longrightarrow> length r \<le> length s"
  by (induction x s rule: leading_int_from.induct) (auto simp: Let_def split: if_splits)

lemma leading_fraction_from_length:
  "leading_fraction_from ov x sc s = (f, sc', r) \<Longrightarrow> length r \<le> length s"
  by (induction ov x sc s rule: leading_fraction_from.induct)
    (auto simp: Let_def le_SucI split: if_splits)

lemma dropWhile_shorter: "takeWhile P s \<noteq> [] \<Longrightarrow> length (dropWhile P s) < length s"
  by (cases s) (auto simp: length_dropWhile_le less_Suc_eq_le split: if_splits)

lemma duration_group_shorter:
  assumes "duration_group flt s = Some (v, rest)"
  shows "length rest < length s"
proof -
  obtain v0 s1 where li: "leading_int s = Some (v0, s1)"
    using assms by (auto simp: duration_group_def split: list.splits if_splits option.splits)
  have l1: "length s1 \<le> length s"
    using li by (auto simp: leading_int_def dest: leading_int_from_length)
  obtain f sc s2 post where fr: "fraction_part s1 = (f, sc, s2, post)" by (metis prod_cases4)
  have l2: "length s2 \<le> length s1"
    using fr by (auto simp: fraction_part_def leading_fraction_def le_SucI
        split: list.splits if_splits prod.splits dest!: leading_fraction_from_length)
  have "takeWhile unit_char s2 \<noteq> [] \<and> rest = dropWhile unit_char s2"
    using assms li unfolding duration_group_def
    by (auto simp: Let_def fr split: list.splits if_splits option.splits)
  then show ?thesis using l1 l2 dropWhile_shorter [of unit_char s2] by auto
qed

text \<open>The loop over the groups; the sum is a \<open>uint64\<close> that may not pass \<open>1 << 63\<close>.\<close>

function duration_groups :: "float_mul \<Rightarrow> nat \<Rightarrow> string \<Rightarrow> nat option" where
  "duration_groups flt d s =
     (if s = [] then Some d
      else (case duration_group flt s of
              None \<Rightarrow> None
            | Some (v, rest) \<Rightarrow> if d + v > 2 ^ 63 then None else duration_groups flt (d + v) rest))"
  by pat_completeness auto
termination
  by (relation "measure (\<lambda>(flt, d, s). length s)") (auto dest: duration_group_shorter)

declare duration_groups.simps [simp del]

definition parse_duration :: "float_mul \<Rightarrow> string \<Rightarrow> duration option" where
  "parse_duration flt s =
     (let neg = (case s of c # _ \<Rightarrow> c = CHR ''-'' | [] \<Rightarrow> False);
          s' = (case s of c # r \<Rightarrow> if c = CHR ''-'' \<or> c = CHR ''+'' then r else s | [] \<Rightarrow> [])
      in if s' = ''0'' then Some 0
         else if s' = [] then None
         else (case duration_groups flt 0 s' of
                 None \<Rightarrow> None
               | Some d \<Rightarrow> if neg then Some (- int d)
                           else if int d > max_int64 then None else Some (int d)))"

text \<open>\<open>Duration.String()\<close> of a non-negative duration.\<close>

definition fmt_frac :: "nat \<Rightarrow> nat \<Rightarrow> string" where
  "fmt_frac prec v = (let f = v mod 10 ^ prec in if f = 0 then [] else CHR ''.'' # strip_zeros (pad prec f))"

definition duration_string :: "duration \<Rightarrow> string" where
  "duration_string d =
     (let u = nat d in
      if u = 0 then ''0s''
      else if u < 1000 then nat_str u @ ''ns''
      else if u < 1000000 then nat_str (u div 1000) @ fmt_frac 3 u @ [CHR 0xC2, CHR 0xB5, CHR ''s'']
      else if u < 1000000000 then nat_str (u div 1000000) @ fmt_frac 6 u @ ''ms''
      else (let sec = u div 1000000000; mi = sec div 60; h = mi div 60;
                tail = nat_str (sec mod 60) @ fmt_frac 9 u @ ''s''
            in if mi = 0 then tail
               else if h = 0 then nat_str (mi mod 60) @ ''m'' @ tail
               else nat_str h @ ''h'' @ nat_str (mi mod 60) @ ''m'' @ tail))"

end
