(* ===== verification/ExpiryPolicy.thy ===== *)
theory ExpiryPolicy
  imports GoTime
begin

text \<open>
  \<^verbatim>\<open>internal/expiry/policy.go\<close>: the lifetime policy shared by launch and cleanup.  A rejection is
  \<open>Inl\<close> of its \<open>Reason\<close>.  A clock sample is a \<open>gotime\<close>; a nil clock is \<open>None\<close>.  The locale
  \<open>canonical_codec\<close> is what the rest of the program relies on when it keeps times as text: its
  interpretation \<open>ts\<close> shows that \<open>Timestamp\<close> and \<open>ParseTimestamp\<close> are inverse to each other.
\<close>

section \<open>Constants, reasons\<close>

definition DefaultTTL :: duration where [go_defs]: "DefaultTTL = 2 * hour"
definition MaxTTL :: duration where [go_defs]: "MaxTTL = 168 * hour"
definition TagKey :: string where "TagKey = ''ExpiresAt''"
definition LaunchPlanSchema :: int where [go_defs]: "LaunchPlanSchema = 2"
definition BatchReceiptSchema :: int where [go_defs]: "BatchReceiptSchema = 3"
definition ManifestSchema :: int where [go_defs]: "ManifestSchema = 6"

text \<open>\<open>NoReason\<close> is the empty string of the zero value.\<close>

datatype reason =
    NoReason | TTLInvalid | ClockInvalid | ExpiryInvalid | ExpiryMissing | ExpiryDuplicate
  | ExpiryFuture | ExpiryChanged | Expired | RequestExpired | LegacyRequest | ReplayOverride
  | ScopeInvalid | ScopeMismatch | TagsInvalid | TagsDuplicate | ResourceInvalid
  | ResourceChanged | StateUnknown | AlreadyTerminating | AlreadyTerminated

fun reason_string :: "reason \<Rightarrow> string" where
  "reason_string NoReason = []"
| "reason_string TTLInvalid = ''ttl_invalid''"
| "reason_string ClockInvalid = ''clock_invalid''"
| "reason_string ExpiryInvalid = ''expiry_invalid''"
| "reason_string ExpiryMissing = ''expiry_missing''"
| "reason_string ExpiryDuplicate = ''expiry_duplicate''"
| "reason_string ExpiryFuture = ''expiry_future''"
| "reason_string ExpiryChanged = ''expiry_changed''"
| "reason_string Expired = ''expired''"
| "reason_string RequestExpired = ''request_expired''"
| "reason_string LegacyRequest = ''legacy_request_no_expiry''"
| "reason_string ReplayOverride = ''replay_override''"
| "reason_string ScopeInvalid = ''scope_invalid''"
| "reason_string ScopeMismatch = ''scope_mismatch''"
| "reason_string TagsInvalid = ''tags_invalid''"
| "reason_string TagsDuplicate = ''tags_duplicate''"
| "reason_string ResourceInvalid = ''resource_invalid''"
| "reason_string ResourceChanged = ''resource_changed''"
| "reason_string StateUnknown = ''state_unknown''"
| "reason_string AlreadyTerminating = ''already_terminating''"
| "reason_string AlreadyTerminated = ''already_terminated''"

section \<open>Lifetimes\<close>

text \<open>\<open>strings.ContainsAny(value, "+- \t\r\n")\<close> before the library's parser.\<close>

definition ttl_forbidden :: string where
  "ttl_forbidden = [CHR ''+'', CHR ''-'', CHR '' '', CHR 0x09, CHR 0x0D, CHR 0x0A]"

definition ParseTTL :: "float_mul \<Rightarrow> string \<Rightarrow> reason + duration" where
  "ParseTTL flt value =
     (if value = [] \<or> contains_any value ttl_forbidden then Inl TTLInvalid
      else (case parse_duration flt value of
              None \<Rightarrow> Inl TTLInvalid
            | Some d \<Rightarrow> if d \<le> 0 \<or> d > MaxTTL then Inl TTLInvalid else Inr d))"

definition ResolveTTL :: "float_mul \<Rightarrow> string option \<Rightarrow> string option \<Rightarrow> reason + duration" where
  "ResolveTTL flt configured override =
     (case (case configured of None \<Rightarrow> Inr DefaultTTL | Some c \<Rightarrow> ParseTTL flt c) of
        Inl e \<Rightarrow> Inl e
      | Inr d \<Rightarrow> (case override of Some s \<Rightarrow> ParseTTL flt s | None \<Rightarrow> Inr d))"

section \<open>Canonical timestamps\<close>

text \<open>The zero time is \<open>0\<close> and \<open>t.Year() < 1\<close> is \<open>t < 0\<close>.\<close>

definition Timestamp :: "gotime \<Rightarrow> reason + string" where
  "Timestamp t =
     (if t = 0 \<or> t < 0 \<or> year_of t > 9999 then Inl ClockInvalid else Inr (format_rfc3339nano t))"

definition ParseTimestamp :: "string \<Rightarrow> reason + gotime" where
  "ParseTimestamp value =
     (case parse_rfc3339nano value of
        None \<Rightarrow> Inl ExpiryInvalid
      | Some t \<Rightarrow>
          (case Timestamp t of
             Inl _ \<Rightarrow> Inl ExpiryInvalid
           | Inr canonical \<Rightarrow> if canonical \<noteq> value then Inl ExpiryInvalid else Inr t))"

text \<open>What a client of a textual encoding relies on.\<close>

locale canonical_codec =
  fixes enc :: "'a \<Rightarrow> 'e + string" and dec :: "string \<Rightarrow> 'f + 'a"
  assumes dec_enc: "enc x = Inr s \<Longrightarrow> dec s = Inr x"
    and enc_dec: "dec s = Inr x \<Longrightarrow> enc x = Inr s"
begin

lemma iff: "dec s = Inr x \<longleftrightarrow> enc x = Inr s"
  using dec_enc enc_dec by blast

lemma enc_inj: "enc x = Inr s \<Longrightarrow> enc y = Inr s \<Longrightarrow> x = y"
  by (metis dec_enc sum.inject(2))

lemma dec_inj: "dec s = Inr x \<Longrightarrow> dec t = Inr x \<Longrightarrow> s = t"
  by (metis enc_dec sum.inject(2))

lemma enc_neq: "enc x = Inr s \<Longrightarrow> enc y = Inr t \<Longrightarrow> s = t \<longleftrightarrow> x = y"
  using enc_inj by auto

end

interpretation ts: canonical_codec Timestamp ParseTimestamp
proof
  fix t s
  assume "Timestamp t = Inr s"
  then have t: "0 < t" "year_of t \<le> 9999" "s = format_rfc3339nano t"
    by (auto simp: Timestamp_def split: if_splits)
  then have "parse_rfc3339nano s = Some t" by (simp add: parse_format)
  with t show "ParseTimestamp s = Inr t" by (simp add: ParseTimestamp_def Timestamp_def)
next
  fix t s
  assume "ParseTimestamp s = Inr t"
  then show "Timestamp t = Inr s"
    by (auto simp: ParseTimestamp_def split: option.splits sum.splits if_splits)
qed

section \<open>The window of a request\<close>

record window =
  w_CreatedAt :: string
  w_ExpiresAt :: string

definition NewWindow :: "gotime option \<Rightarrow> duration \<Rightarrow> reason + window" where
  "NewWindow clock ttl =
     (case clock of
        None \<Rightarrow> Inl ClockInvalid
      | Some now \<Rightarrow>
          if ttl \<le> 0 \<or> ttl > MaxTTL then Inl TTLInvalid
          else (case Timestamp now of
                  Inl e \<Rightarrow> Inl e
                | Inr created \<Rightarrow>
                    (case ParseTimestamp created of
                       Inl _ \<Rightarrow> Inl ExpiryInvalid
                     | Inr t \<Rightarrow>
                         (case Timestamp (t + ttl) of
                            Inl _ \<Rightarrow> Inl ExpiryInvalid
                          | Inr expires \<Rightarrow> Inr \<lparr>w_CreatedAt = created, w_ExpiresAt = expires\<rparr>))))"

definition Window_Validate :: "window \<Rightarrow> reason + unit" where
  "Window_Validate w =
     (case ParseTimestamp (w_CreatedAt w) of
        Inl e \<Rightarrow> Inl e
      | Inr created \<Rightarrow>
          (case ParseTimestamp (w_ExpiresAt w) of
             Inl e \<Rightarrow> Inl e
           | Inr expires \<Rightarrow>
               let ttl = time_sub expires created
               in if ttl \<le> 0 \<or> ttl > MaxTTL then Inl ExpiryInvalid else Inr ()))"

text \<open>A time parsed with the error ignored is the zero time when parsing fails.\<close>

definition parsed_or_zero :: "string \<Rightarrow> gotime" where
  "parsed_or_zero s = (case ParseTimestamp s of Inl _ \<Rightarrow> 0 | Inr t \<Rightarrow> t)"

definition Window_TTL :: "window \<Rightarrow> reason + duration" where
  "Window_TTL w =
     (case Window_Validate w of
        Inl e \<Rightarrow> Inl e
      | Inr _ \<Rightarrow> Inr (time_sub (parsed_or_zero (w_ExpiresAt w)) (parsed_or_zero (w_CreatedAt w))))"

definition Window_String :: "window \<Rightarrow> string" where
  "Window_String w =
     (case Window_TTL w of
        Inl _ \<Rightarrow> ''expiry_invalid''
      | Inr ttl \<Rightarrow> ''ttl='' @ duration_string ttl @ '' expires_at='' @ w_ExpiresAt w)"

definition CheckAllocation :: "int \<Rightarrow> window \<Rightarrow> gotime \<Rightarrow> bool \<Rightarrow> reason + unit" where
  "CheckAllocation planSchema w now hasOverrides =
     (if hasOverrides then Inl ReplayOverride
      else if planSchema = 1 \<and> w_ExpiresAt w = [] then Inl LegacyRequest
      else if planSchema \<noteq> LaunchPlanSchema then Inl ExpiryInvalid
      else (case Window_Validate w of
              Inl e \<Rightarrow> Inl e
            | Inr _ \<Rightarrow>
                (case Timestamp now of
                   Inl e \<Rightarrow> Inl e
                 | Inr _ \<Rightarrow>
                     if \<not> now < parsed_or_zero (w_ExpiresAt w) then Inl RequestExpired else Inr ())))"

text \<open>Reading an absent key of a Go map gives the empty string.\<close>

definition map_get :: "(string \<rightharpoonup> string) \<Rightarrow> string \<Rightarrow> string" where
  [go_defs]: "map_get m k = (case m k of None \<Rightarrow> [] | Some v \<Rightarrow> v)"

definition ValidatePlanFields :: "int \<Rightarrow> window \<Rightarrow> (string \<rightharpoonup> string) \<Rightarrow> reason + unit" where
  "ValidatePlanFields schema w creationTags =
     (let present = creationTags TagKey \<noteq> None; tagged = map_get creationTags TagKey
      in if schema = 1
         then (if w_ExpiresAt w \<noteq> [] \<or> present then Inl ExpiryInvalid else Inr ())
         else if schema \<noteq> LaunchPlanSchema then Inl ExpiryInvalid
         else (case Window_Validate w of
                 Inl e \<Rightarrow> Inl e
               | Inr _ \<Rightarrow>
                   if \<not> present \<or> tagged \<noteq> w_ExpiresAt w
                      \<or> map_get creationTags ''CreatedAt'' \<noteq> w_CreatedAt w
                   then Inl ExpiryInvalid else Inr ()))"

section \<open>Lemmas\<close>

lemma ParseTTL_range: "ParseTTL flt s = Inr d \<Longrightarrow> 0 < d \<and> d \<le> MaxTTL"
  by (auto simp: ParseTTL_def split: if_splits option.splits)

lemma Timestamp_pos: "Timestamp t = Inr s \<Longrightarrow> 0 < t \<and> year_of t \<le> 9999"
  by (auto simp: Timestamp_def split: if_splits)

lemma Timestamp_nonempty: "Timestamp t = Inr s \<Longrightarrow> s \<noteq> []"
  by (auto simp: Timestamp_def format_rfc3339nano_def Let_def split: if_splits prod.splits)

lemma parsed_or_zero_Timestamp [simp]: "Timestamp t = Inr s \<Longrightarrow> parsed_or_zero s = t"
  by (simp add: parsed_or_zero_def ts.dec_enc)

lemma MaxTTL_small: "MaxTTL < max_int64"
  by (simp add: go_defs)

lemma time_sub_exact: "min_int64 \<le> t - u \<Longrightarrow> t - u \<le> max_int64 \<Longrightarrow> time_sub t u = t - u"
  by (simp add: time_sub_def)

text \<open>A saturated difference is never a valid lifetime, so validity reads the exact difference.\<close>

lemma time_sub_in_ttl: "0 < time_sub t u \<and> time_sub t u \<le> MaxTTL \<longleftrightarrow> 0 < t - u \<and> t - u \<le> MaxTTL"
  using MaxTTL_small by (auto simp: time_sub_def go_defs)

lemma time_sub_ttl_eq: "0 < t - u \<Longrightarrow> t - u \<le> MaxTTL \<Longrightarrow> time_sub t u = t - u"
  using MaxTTL_small by (auto simp: time_sub_def go_defs)

text \<open>The abstract reading of a window: two instants, the second within \<open>MaxTTL\<close> after the first.\<close>

definition window_denotes :: "window \<Rightarrow> gotime \<Rightarrow> gotime \<Rightarrow> bool" where
  "window_denotes w c e \<longleftrightarrow>
     Timestamp c = Inr (w_CreatedAt w) \<and> Timestamp e = Inr (w_ExpiresAt w) \<and>
     c < e \<and> e - c \<le> MaxTTL"

lemma Window_Validate_iff: "Window_Validate w = Inr () \<longleftrightarrow> (\<exists>c e. window_denotes w c e)"
proof
  assume "Window_Validate w = Inr ()"
  then obtain c e where "ParseTimestamp (w_CreatedAt w) = Inr c" "ParseTimestamp (w_ExpiresAt w) = Inr e"
    "0 < time_sub e c \<and> time_sub e c \<le> MaxTTL"
    by (auto simp: Window_Validate_def Let_def split: sum.splits if_splits)
  then show "\<exists>c e. window_denotes w c e"
    unfolding window_denotes_def time_sub_in_ttl by (auto simp: ts.iff)
next
  assume "\<exists>c e. window_denotes w c e"
  then obtain c e where w: "ParseTimestamp (w_CreatedAt w) = Inr c" "ParseTimestamp (w_ExpiresAt w) = Inr e"
    "0 < e - c \<and> e - c \<le> MaxTTL"
    by (auto simp: window_denotes_def ts.iff)
  from w(3) have "0 < time_sub e c \<and> time_sub e c \<le> MaxTTL" unfolding time_sub_in_ttl .
  with w show "Window_Validate w = Inr ()" by (simp add: Window_Validate_def Let_def)
qed

lemma window_denotes_unique:
  "window_denotes w c e \<Longrightarrow> window_denotes w c' e' \<Longrightarrow> c = c' \<and> e = e'"
  unfolding window_denotes_def using ts.enc_inj by blast

lemma window_denotes_parsed:
  "window_denotes w c e \<Longrightarrow> parsed_or_zero (w_ExpiresAt w) = e \<and> parsed_or_zero (w_CreatedAt w) = c"
  by (simp add: window_denotes_def)

lemma Window_TTL_denotes: "window_denotes w c e \<Longrightarrow> Window_TTL w = Inr (e - c)"
proof -
  assume w: "window_denotes w c e"
  then have "Window_Validate w = Inr ()" using Window_Validate_iff by blast
  then have "Window_TTL w = Inr (time_sub e c)"
    by (simp add: Window_TTL_def window_denotes_parsed [OF w])
  with w show ?thesis by (simp add: window_denotes_def time_sub_ttl_eq)
qed

lemma Window_Validate_unit: "Window_Validate w = Inr u \<longleftrightarrow> (\<exists>c e. window_denotes w c e)"
  using Window_Validate_iff by (cases u) simp

lemma NewWindow_denotes:
  "NewWindow (Some now) ttl = Inr w \<Longrightarrow> window_denotes w now (now + ttl) \<and> 0 < ttl \<and> ttl \<le> MaxTTL"
  by (auto simp: NewWindow_def window_denotes_def ts.dec_enc split: if_splits sum.splits)

lemma CheckAllocation_iff:
  "CheckAllocation s w now ov = Inr () \<longleftrightarrow>
     \<not> ov \<and> s = LaunchPlanSchema \<and> is_ok (Timestamp now) \<and> (\<exists>c e. window_denotes w c e \<and> now < e)"
proof (cases "Window_Validate w")
  case (Inl e)
  then have "\<nexists>c e. window_denotes w c e" by (simp flip: Window_Validate_iff)
  with Inl show ?thesis by (auto simp: CheckAllocation_def)
next
  case (Inr u)
  then obtain c e where w: "window_denotes w c e" using Window_Validate_unit by blast
  have "CheckAllocation s w now ov = Inr () \<longleftrightarrow>
      \<not> ov \<and> s = LaunchPlanSchema \<and> is_ok (Timestamp now) \<and> now < e"
    by (cases "Timestamp now")
      (simp_all add: CheckAllocation_def Inr window_denotes_parsed [OF w] LaunchPlanSchema_def)
  then show ?thesis using w window_denotes_unique [OF w] by blast
qed

lemma ValidatePlanFields_2:
  "ValidatePlanFields LaunchPlanSchema w tags = Inr () \<longleftrightarrow>
     (\<exists>c e. window_denotes w c e) \<and> tags TagKey = Some (w_ExpiresAt w) \<and>
     map_get tags ''CreatedAt'' = w_CreatedAt w"
proof -
  have "ValidatePlanFields LaunchPlanSchema w tags = Inr () \<longleftrightarrow>
      Window_Validate w = Inr () \<and> tags TagKey = Some (w_ExpiresAt w) \<and>
      map_get tags ''CreatedAt'' = w_CreatedAt w"
    by (cases "tags TagKey"; cases "Window_Validate w")
      (auto simp: ValidatePlanFields_def LaunchPlanSchema_def map_get_def)
  then show ?thesis unfolding Window_Validate_iff .
qed

section \<open>Properties\<close>

text \<open>C1.  \<open>ParseTimestamp\<close> accepts a text exactly when it is what \<open>Timestamp\<close> writes for the time it
  returns: writing and reading are inverse, and no other spelling of an instant is accepted.\<close>

theorem timestamp_roundtrip: "ParseTimestamp s = Inr t \<longleftrightarrow> Timestamp t = Inr s"
  by (rule ts.iff)

text \<open>A new window validates, and its lifetime is exactly the requested one, counted from the
  sampled clock.\<close>

theorem new_window_valid:
  assumes "NewWindow (Some now) ttl = Inr w"
  shows "Window_Validate w = Inr () \<and> Window_TTL w = Inr ttl \<and>
         ParseTimestamp (w_CreatedAt w) = Inr now \<and> ParseTimestamp (w_ExpiresAt w) = Inr (now + ttl)"
proof -
  from NewWindow_denotes [OF assms] have w: "window_denotes w now (now + ttl)" by blast
  then have "Window_TTL w = Inr ttl" using Window_TTL_denotes by fastforce
  moreover have "Window_Validate w = Inr ()" using w Window_Validate_iff by blast
  ultimately show ?thesis using w by (simp add: window_denotes_def ts.iff)
qed

theorem new_window_valid_witness:
  "\<exists>w. NewWindow (Some 63869077333120000000) DefaultTTL = Inr w \<and> Window_TTL w = Inr DefaultTTL"
proof -
  have "Timestamp 63869077333120000000 = Inr ''2024-12-06T10:22:13.12Z''"
    and "Timestamp 63869084533120000000 = Inr ''2024-12-06T12:22:13.12Z''"
    by (simp_all add: Timestamp_def time_eval)
  then have "NewWindow (Some 63869077333120000000) DefaultTTL =
      Inr \<lparr>w_CreatedAt = ''2024-12-06T10:22:13.12Z'', w_ExpiresAt = ''2024-12-06T12:22:13.12Z''\<rparr>"
    by (simp add: NewWindow_def ts.dec_enc go_defs)
  with new_window_valid [OF this] show ?thesis by blast
qed

text \<open>The allocation gate opens exactly for a schema-2 plan whose window is valid and whose
  deadline is still ahead of a usable clock, and never for a replay with overrides.\<close>

theorem check_allocation_iff:
  "CheckAllocation schema w now ov = Inr () \<longleftrightarrow>
     \<not> ov \<and> schema = LaunchPlanSchema \<and> (\<exists>s. Timestamp now = Inr s) \<and>
     (\<exists>c e. ParseTimestamp (w_CreatedAt w) = Inr c \<and> ParseTimestamp (w_ExpiresAt w) = Inr e \<and>
        c < e \<and> e - c \<le> MaxTTL \<and> now < e)"
  unfolding CheckAllocation_iff window_denotes_def ts.iff is_ok_iff by blast

end
