(* ===== verification/GoRegex.thy ===== *)
theory GoRegex
  imports Prelude
begin

text \<open>
  The part of Go's \<open>regexp\<close> package the program uses: anchored patterns over byte classes,
  decided by Brzozowski derivatives.  Every \<open>regexp.MustCompile(`^...$`)\<close> of the source is written
  with the constructors below, one for each operator of the pattern, and \<open>re_match\<close> is
  \<open>MatchString\<close> on it (\<open>$\<close> without the \<open>m\<close> flag is the end of the text).  \<open>re_match_iff\<close> shows that
  the matcher decides the language of the pattern.
\<close>

section \<open>Patterns\<close>

datatype rexp =
    Zero
  | One
  | Cls "(char \<times> char) list"
  | Seq rexp rexp
  | Alt rexp rexp
  | Star rexp
  | Rep rexp nat nat

definition in_class :: "(char \<times> char) list \<Rightarrow> char \<Rightarrow> bool" where
  "in_class rs c \<longleftrightarrow> list_ex (\<lambda>(lo, hi). in_range lo hi c) rs"

text \<open>\<open>r+\<close>, \<open>r?\<close>, a literal, and a sequence of patterns.\<close>

definition Plus :: "rexp \<Rightarrow> rexp" where
  "Plus r = Seq r (Star r)"

definition Opt :: "rexp \<Rightarrow> rexp" where
  "Opt r = Alt One r"

definition Chr :: "char \<Rightarrow> rexp" where
  "Chr c = Cls [(c, c)]"

fun Lit :: "string \<Rightarrow> rexp" where
  "Lit [] = One"
| "Lit [c] = Chr c"
| "Lit (c # cs) = Seq (Chr c) (Lit cs)"

fun Cat :: "rexp list \<Rightarrow> rexp" where
  "Cat [] = One"
| "Cat [r] = r"
| "Cat (r # rs) = Seq r (Cat rs)"

definition Exactly :: "rexp \<Rightarrow> nat \<Rightarrow> rexp" where
  "Exactly r n = Rep r n n"

text \<open>The pattern \<open>.\<close>: one rune other than the newline.  A byte that is not part of a well-formed UTF-8
  sequence is a rune of its own.\<close>

definition any_rune :: rexp where
  "any_rune =
     (let tail = Cls [(CHR 0x80, CHR 0xBF)] in
      Alt (Cls [(CHR 0x00, CHR 0x09), (CHR 0x0B, CHR 0xFF)])
     (Alt (Seq (Cls [(CHR 0xC2, CHR 0xDF)]) tail)
     (Alt (Cat [Chr (CHR 0xE0), Cls [(CHR 0xA0, CHR 0xBF)], tail])
     (Alt (Cat [Cls [(CHR 0xE1, CHR 0xEC), (CHR 0xEE, CHR 0xEF)], tail, tail])
     (Alt (Cat [Chr (CHR 0xED), Cls [(CHR 0x80, CHR 0x9F)], tail])
     (Alt (Cat [Chr (CHR 0xF0), Cls [(CHR 0x90, CHR 0xBF)], tail, tail])
     (Alt (Cat [Cls [(CHR 0xF1, CHR 0xF3)], tail, tail, tail])
          (Cat [Chr (CHR 0xF4), Cls [(CHR 0x80, CHR 0x8F)], tail, tail]))))))))"

section \<open>Languages\<close>

fun lang :: "rexp \<Rightarrow> string set" where
  "lang Zero = {}"
| "lang One = {[]}"
| "lang (Cls rs) = {[c] | c. in_class rs c}"
| "lang (Seq r s) = {u @ v | u v. u \<in> lang r \<and> v \<in> lang s}"
| "lang (Alt r s) = lang r \<union> lang s"
| "lang (Star r) = {concat xs | xs. set xs \<subseteq> lang r}"
| "lang (Rep r lo hi) = {concat xs | xs. set xs \<subseteq> lang r \<and> lo \<le> length xs \<and> length xs \<le> hi}"

section \<open>The matcher\<close>

fun nullable :: "rexp \<Rightarrow> bool" where
  "nullable Zero = False"
| "nullable One = True"
| "nullable (Cls rs) = False"
| "nullable (Seq r s) = (nullable r \<and> nullable s)"
| "nullable (Alt r s) = (nullable r \<or> nullable s)"
| "nullable (Star r) = True"
| "nullable (Rep r lo hi) = (lo \<le> hi \<and> (lo = 0 \<or> nullable r))"

text \<open>Constructors that drop the units, so derivatives stay small.\<close>

fun mkSeq :: "rexp \<Rightarrow> rexp \<Rightarrow> rexp" where
  "mkSeq Zero s = Zero"
| "mkSeq One s = s"
| "mkSeq r s = (if s = Zero then Zero else Seq r s)"

fun mkAlt :: "rexp \<Rightarrow> rexp \<Rightarrow> rexp" where
  "mkAlt Zero s = s"
| "mkAlt r s = (if s = Zero then r else if r = s then r else Alt r s)"

fun der :: "char \<Rightarrow> rexp \<Rightarrow> rexp" where
  "der c Zero = Zero"
| "der c One = Zero"
| "der c (Cls rs) = (if in_class rs c then One else Zero)"
| "der c (Seq r s) =
     (if nullable r then mkAlt (mkSeq (der c r) s) (der c s) else mkSeq (der c r) s)"
| "der c (Alt r s) = mkAlt (der c r) (der c s)"
| "der c (Star r) = mkSeq (der c r) (Star r)"
| "der c (Rep r lo hi) = (if hi = 0 then Zero else mkSeq (der c r) (Rep r (lo - 1) (hi - 1)))"

fun ders :: "string \<Rightarrow> rexp \<Rightarrow> rexp" where
  "ders [] r = r"
| "ders (c # s) r = ders s (der c r)"

definition re_match :: "rexp \<Rightarrow> string \<Rightarrow> bool" where
  "re_match r s \<longleftrightarrow> nullable (ders s r)"

section \<open>Correctness of the matcher\<close>

lemma lang_mkSeq [simp]: "lang (mkSeq r s) = lang (Seq r s)"
  by (cases "(r, s)" rule: mkSeq.cases) auto

lemma lang_mkAlt [simp]: "lang (mkAlt r s) = lang (Alt r s)"
  by (cases "(r, s)" rule: mkAlt.cases) (auto, blast)

lemma concat_eq_Nil_set: "concat xs = [] \<longleftrightarrow> set xs \<subseteq> {[]}"
  by (induction xs) auto

lemma nullable_iff: "nullable r \<longleftrightarrow> [] \<in> lang r"
proof (induction r)
  case (Star r)
  show ?case by (auto intro: exI [of _ "[]"])
next
  case (Rep r lo hi)
  show ?case
  proof
    assume n: "nullable (Rep r lo hi)"
    define xs :: "string list" where "xs = replicate lo []"
    from n Rep.IH have "set xs \<subseteq> lang r" "lo \<le> length xs" "length xs \<le> hi" "concat xs = []"
      by (auto simp: xs_def set_replicate_conv_if)
    then show "[] \<in> lang (Rep r lo hi)" by (simp add: concat_eq_Nil_set) (metis concat_eq_Nil_set)
  next
    assume "[] \<in> lang (Rep r lo hi)"
    then obtain xs where xs: "concat xs = []" "set xs \<subseteq> lang r" "lo \<le> length xs" "length xs \<le> hi"
      by auto
    show "nullable (Rep r lo hi)"
    proof (cases xs)
      case Nil
      with xs show ?thesis by simp
    next
      case (Cons x ys)
      with xs have "[] \<in> lang r" by auto
      with xs Rep.IH show ?thesis by simp
    qed
  qed
qed auto

text \<open>A non-empty concatenation starts in its first non-empty part; the empty parts before it
  can be moved to the end.\<close>

lemma concat_Cons_split:
  assumes "concat xs = c # w"
  obtains x ys where "concat ((c # x) # ys) = c # w" "set ((c # x) # ys) = set xs"
    "length ys + 1 = length xs"
  using assms
proof (induction xs arbitrary: thesis)
  case Nil
  then show ?case by simp
next
  case (Cons z zs)
  show ?case
  proof (cases z)
    case Nil
    with Cons.prems(2) have "concat zs = c # w" by simp
    then obtain x ys where r: "concat ((c # x) # ys) = c # w" "set ((c # x) # ys) = set zs"
      "length ys + 1 = length zs"
      using Cons.IH by blast
    show ?thesis
      by (rule Cons.prems(1) [of x "ys @ [[]]"]) (use r Nil in auto)
  next
    case (Cons d z')
    show ?thesis
      by (rule Cons.prems(1) [of z' zs]) (use Cons Cons.prems(2) in auto)
  qed
qed

lemma lang_der: "w \<in> lang (der c r) \<longleftrightarrow> c # w \<in> lang r"
proof (induction r arbitrary: w)
  case (Cls rs)
  then show ?case by auto
next
  case (Seq r s)
  show ?case
    by (auto simp: Seq.IH nullable_iff Cons_eq_append_conv)
next
  case (Star r)
  show ?case
  proof
    assume "w \<in> lang (der c (Star r))"
    then obtain u xs where "w = u @ concat xs" "c # u \<in> lang r" "set xs \<subseteq> lang r"
      by (auto simp: Star.IH)
    then show "c # w \<in> lang (Star r)" by (auto intro!: exI [of _ "(c # u) # xs"])
  next
    assume "c # w \<in> lang (Star r)"
    then obtain xs where xs: "concat xs = c # w" "set xs \<subseteq> lang r" by auto
    then obtain x ys where "concat ((c # x) # ys) = c # w" "set ((c # x) # ys) = set xs"
      by (rule_tac concat_Cons_split) auto
    with xs have "w = x @ concat ys" "c # x \<in> lang r" "set ys \<subseteq> lang r" by auto
    then show "w \<in> lang (der c (Star r))" by (auto simp: Star.IH)
  qed
next
  case (Rep r lo hi)
  show ?case
  proof
    assume "w \<in> lang (der c (Rep r lo hi))"
    then obtain u xs where "w = u @ concat xs" "c # u \<in> lang r" "set xs \<subseteq> lang r" "hi \<noteq> 0"
      "lo - 1 \<le> length xs" "length xs \<le> hi - 1"
      by (auto simp: Rep.IH split: if_splits)
    then show "c # w \<in> lang (Rep r lo hi)" by (auto intro!: exI [of _ "(c # u) # xs"])
  next
    assume "c # w \<in> lang (Rep r lo hi)"
    then obtain xs where xs: "concat xs = c # w" "set xs \<subseteq> lang r" "lo \<le> length xs"
      "length xs \<le> hi" by auto
    then obtain x ys where "concat ((c # x) # ys) = c # w" "set ((c # x) # ys) = set xs"
      "length ys + 1 = length xs"
      by (rule_tac concat_Cons_split) auto
    with xs have "w = x @ concat ys" "c # x \<in> lang r" "set ys \<subseteq> lang r" "hi \<noteq> 0"
      "lo - 1 \<le> length ys" "length ys \<le> hi - 1" by auto
    then show "w \<in> lang (der c (Rep r lo hi))" by (auto simp: Rep.IH)
  qed
qed auto

lemma lang_ders: "w \<in> lang (ders s r) \<longleftrightarrow> s @ w \<in> lang r"
  by (induction s arbitrary: r) (auto simp: lang_der)

lemma re_match_iff: "re_match r s \<longleftrightarrow> s \<in> lang r"
  by (simp add: re_match_def nullable_iff lang_ders)

section \<open>Classes and lengths\<close>

definition digit_cls :: rexp where
  "digit_cls = Cls [(CHR ''0'', CHR ''9'')]"

definition hex_cls :: rexp where
  "hex_cls = Cls [(CHR ''0'', CHR ''9''), (CHR ''a'', CHR ''f'')]"

text \<open>Every part of a word of a repeated class has length one.\<close>

lemma length_concat_class: "set xs \<subseteq> lang (Cls rs) \<Longrightarrow> length (concat xs) = length xs"
  by (induction xs) auto

lemma length_Rep_class: "s \<in> lang (Rep (Cls rs) lo hi) \<Longrightarrow> lo \<le> length s \<and> length s \<le> hi"
  using length_concat_class by fastforce

lemma class_concat_all: "set xs \<subseteq> {[c] | c. in_class rs c} \<Longrightarrow> list_all (in_class rs) (concat xs)"
  by (induction xs) auto

lemma Rep_class_iff:
  "s \<in> lang (Rep (Cls rs) lo hi) \<longleftrightarrow> list_all (in_class rs) s \<and> lo \<le> length s \<and> length s \<le> hi"
proof
  assume "s \<in> lang (Rep (Cls rs) lo hi)"
  then show "list_all (in_class rs) s \<and> lo \<le> length s \<and> length s \<le> hi"
    using length_Rep_class [of s rs lo hi] by (auto intro: class_concat_all)
next
  assume a: "list_all (in_class rs) s \<and> lo \<le> length s \<and> length s \<le> hi"
  have "s = concat (map (\<lambda>c. [c]) s)" by (induction s) auto
  with a show "s \<in> lang (Rep (Cls rs) lo hi)"
    by (auto simp: list_all_iff intro!: exI [of _ "map (\<lambda>c. [c]) s"])
qed

lemma Rep_class_match:
  "re_match (Rep (Cls rs) lo hi) s \<longleftrightarrow> list_all (in_class rs) s \<and> lo \<le> length s \<and> length s \<le> hi"
  unfolding re_match_iff by (rule Rep_class_iff)

section \<open>The characters of a language\<close>

text \<open>\<open>chars_ok P r\<close>: every class of \<open>r\<close> only has characters that satisfy \<open>P\<close>.\<close>

fun chars_ok :: "(char \<Rightarrow> bool) \<Rightarrow> rexp \<Rightarrow> bool" where
  "chars_ok P Zero = True"
| "chars_ok P One = True"
| "chars_ok P (Cls rs) = (\<forall>c. in_class rs c \<longrightarrow> P c)"
| "chars_ok P (Seq r s) = (chars_ok P r \<and> chars_ok P s)"
| "chars_ok P (Alt r s) = (chars_ok P r \<and> chars_ok P s)"
| "chars_ok P (Star r) = chars_ok P r"
| "chars_ok P (Rep r lo hi) = chars_ok P r"

lemma chars_ok_simps [simp]:
  "chars_ok P (Chr c) = P c" "chars_ok P (Lit w) = list_all P w" "chars_ok P (Exactly r n) = chars_ok P r"
  "chars_ok P (Plus r) = chars_ok P r" "chars_ok P (Cat rs) = list_all (chars_ok P) rs"
proof -
  show c: "chars_ok P (Chr c) = P c" for c
    by (auto simp: Chr_def in_class_def in_range_def)
  show "chars_ok P (Lit w) = list_all P w" by (induction w rule: Lit.induct) (auto simp: c)
  show "chars_ok P (Cat rs) = list_all (chars_ok P) rs" by (induction rs rule: Cat.induct) auto
qed (auto simp: Exactly_def Plus_def)

lemma concat_all: "\<forall>x \<in> set xs. list_all P x \<Longrightarrow> list_all P (concat xs)"
  by (induction xs) auto

lemma lang_chars: "chars_ok P r \<Longrightarrow> w \<in> lang r \<Longrightarrow> list_all P w"
proof (induction r arbitrary: w)
  case (Cls rs)
  then show ?case by auto
next
  case (Star r)
  then show ?case using concat_all by fastforce
next
  case (Rep r lo hi)
  then show ?case using concat_all by fastforce
qed auto

lemma match_chars: "re_match r w \<Longrightarrow> chars_ok P r \<Longrightarrow> list_all P w"
  unfolding re_match_iff by (rule lang_chars)

text \<open>Evaluation of a match on a concrete string by simplification.\<close>

lemmas re_eval = re_match_def in_class_def in_range_def Chr_def Plus_def Opt_def Exactly_def digit_cls_def hex_cls_def

end
