(* ===== verification/ExpiryCleanup.thy ===== *)
theory ExpiryCleanup
  imports ExpiryPolicy GoRegex "HOL-Library.Multiset"
begin

text \<open>
  \<^verbatim>\<open>internal/expiry/cleanup.go\<close>: the cloud-independent decision whether an instance may be
  terminated because it expired.  \<open>Evaluate\<close> judges one observation against the trusted scope and a
  clock sample, \<open>Recheck\<close> binds a fresh observation to an earlier selection.  The lemmas give the
  exact condition of eligibility (\<open>Evaluate_eligible_iff\<close>) and what a recheck adds to it.
\<close>

section \<open>Scope\<close>

record scope =
  s_Account :: string
  s_Region :: string
  s_Deployment :: string
  s_Owner :: string

definition accountRE :: rexp where
  "accountRE = Exactly digit_cls 12"

definition lower_cls :: rexp where
  "lower_cls = Cls [(CHR ''a'', CHR ''z'')]"

definition regionRE :: rexp where
  "regionRE = Cat [Exactly lower_cls 2, Plus (Seq (Chr (CHR ''-'')) (Plus lower_cls)),
                   Chr (CHR ''-''), Plus digit_cls]"

definition alnum_cls :: rexp where
  "alnum_cls = Cls [(CHR ''A'', CHR ''Z''), (CHR ''a'', CHR ''z''), (CHR ''0'', CHR ''9'')]"

definition label_cls :: rexp where
  "label_cls = Cls [(CHR ''A'', CHR ''Z''), (CHR ''a'', CHR ''z''), (CHR ''0'', CHR ''9''),
                    (CHR ''_'', CHR ''_''), (CHR ''-'', CHR ''-'')]"

definition labelRE :: rexp where
  "labelRE = Seq alnum_cls (Rep label_cls 0 62)"

text \<open>The resource identifiers \<open>i-\<close>, \<open>vol-\<close>, \<dots> with 8 or 17 hexadecimal digits.\<close>

definition resource_idRE :: "string \<Rightarrow> rexp" where
  "resource_idRE prefix = Seq (Lit prefix) (Alt (Exactly hex_cls 8) (Exactly hex_cls 17))"

definition instanceRE :: rexp where
  "instanceRE = resource_idRE ''i-''"

lemma resource_idRE_Nil [simp]: "p \<noteq> [] \<Longrightarrow> \<not> re_match (resource_idRE p) []"
  by (cases p rule: Lit.cases) (simp_all add: re_match_def resource_idRE_def Chr_def)

lemma instanceRE_Nil [simp]: "\<not> re_match instanceRE []"
  by (simp add: instanceRE_def)

definition Scope_Validate :: "scope \<Rightarrow> reason + unit" where
  "Scope_Validate s =
     (if \<not> re_match accountRE (s_Account s) \<or> \<not> re_match regionRE (s_Region s)
         \<or> \<not> re_match labelRE (s_Deployment s) \<or> \<not> re_match labelRE (s_Owner s)
      then Inl ScopeInvalid else Inr ())"

section \<open>Resources and decisions\<close>

record tag =
  t_Key :: "string option"
  t_Value :: "string option"

record resource =
  r_ID :: string
  r_Account :: string
  r_Region :: string
  r_State :: string
  r_Tags :: "tag list"

record decision =
  d_InstanceID :: string
  d_State :: string
  d_ExpiresAt :: "string option"
  d_EvaluatedAt :: string
  d_Eligible :: bool
  d_Reason :: reason

definition is_expiry_tag :: "tag \<Rightarrow> bool" where
  "is_expiry_tag t \<longleftrightarrow> t_Key t = Some TagKey"

fun count_expiry :: "tag list \<Rightarrow> nat \<Rightarrow> string option \<Rightarrow> nat \<times> string option" where
  "count_expiry [] n value = (n, value)"
| "count_expiry (t # ts) n value =
     (if t_Key t = Some TagKey then count_expiry ts (n + 1) (t_Value t)
      else count_expiry ts n value)"

definition InspectTags :: "tag list \<Rightarrow> string option \<times> reason" where
  "InspectTags tags =
     (case count_expiry tags 0 None of
        (n, value) \<Rightarrow>
          if n > 1 then (None, ExpiryDuplicate)
          else if n = 0 then (None, ExpiryMissing)
          else (case value of
                  None \<Rightarrow> (None, ExpiryInvalid)
                | Some v \<Rightarrow> (case ParseTimestamp v of
                              Inl _ \<Rightarrow> (None, ExpiryInvalid)
                            | Inr _ \<Rightarrow> (Some v, NoReason))))"

text \<open>The loop that turns the other tags into a map, stopping at the first malformed or repeated one.\<close>

fun scope_tags :: "tag list \<Rightarrow> (string \<rightharpoonup> string) \<Rightarrow> reason + (string \<rightharpoonup> string)" where
  "scope_tags [] m = Inr m"
| "scope_tags (t # ts) m =
     (case t_Key t of
        None \<Rightarrow> Inl TagsInvalid
      | Some k \<Rightarrow>
          if k = [] then Inl TagsInvalid
          else if k = TagKey then scope_tags ts m
          else (case t_Value t of
                  None \<Rightarrow> Inl TagsInvalid
                | Some v \<Rightarrow> if m k \<noteq> None then Inl TagsDuplicate
                            else scope_tags ts (m(k \<mapsto> v))))"

definition live_states :: "string list" where
  "live_states = [''pending'', ''running'', ''stopping'', ''stopped'']"

definition Evaluate :: "scope \<Rightarrow> resource \<Rightarrow> gotime \<Rightarrow> decision" where
  "Evaluate scope resource now =
     (let d = \<lparr>d_InstanceID = r_ID resource, d_State = r_State resource, d_ExpiresAt = None,
               d_EvaluatedAt = [], d_Eligible = False, d_Reason = NoReason\<rparr>
      in case Timestamp now of
           Inl _ \<Rightarrow> d\<lparr>d_Reason := ClockInvalid\<rparr>
         | Inr evaluated \<Rightarrow>
             let d = d\<lparr>d_EvaluatedAt := evaluated\<rparr> in
             if \<not> is_ok (Scope_Validate scope) then d\<lparr>d_Reason := ScopeInvalid\<rparr>
             else if \<not> re_match instanceRE (r_ID resource) then d\<lparr>d_Reason := ResourceInvalid\<rparr>
             else if r_Account resource \<noteq> s_Account scope \<or> r_Region resource \<noteq> s_Region scope
               then d\<lparr>d_Reason := ScopeMismatch\<rparr>
             else (case scope_tags (r_Tags resource) Map.empty of
                     Inl reason \<Rightarrow> d\<lparr>d_Reason := reason\<rparr>
                   | Inr tags \<Rightarrow>
                       if map_get tags ''ManagedBy'' \<noteq> ''devbox''
                          \<or> map_get tags ''Deployment'' \<noteq> s_Deployment scope
                          \<or> map_get tags ''Owner'' \<noteq> s_Owner scope
                       then d\<lparr>d_Reason := ScopeMismatch\<rparr>
                       else (case InspectTags (r_Tags resource) of
                               (expires, reason) \<Rightarrow>
                                 let d = d\<lparr>d_ExpiresAt := expires, d_Reason := reason\<rparr> in
                                 if reason \<noteq> NoReason then d
                                 else if now < parsed_or_zero (aws_to_string expires)
                                   then d\<lparr>d_Reason := ExpiryFuture\<rparr>
                                 else if r_State resource \<in> set live_states
                                   then d\<lparr>d_Eligible := True, d_Reason := Expired\<rparr>
                                 else if r_State resource = ''shutting-down''
                                   then d\<lparr>d_Reason := AlreadyTerminating\<rparr>
                                 else if r_State resource = ''terminated''
                                   then d\<lparr>d_Reason := AlreadyTerminated\<rparr>
                                 else d\<lparr>d_Reason := StateUnknown\<rparr>)))"

definition Recheck :: "scope \<Rightarrow> decision \<Rightarrow> resource \<Rightarrow> gotime \<Rightarrow> decision" where
  "Recheck scope selected current now =
     (let d = Evaluate scope current now in
      if \<not> d_Eligible selected \<or> d_Reason selected \<noteq> Expired \<or> d_ExpiresAt selected = None
         \<or> d_InstanceID selected \<noteq> r_ID current
      then d\<lparr>d_Eligible := False, d_Reason := ResourceChanged\<rparr>
      else if d_ExpiresAt d \<noteq> None \<and> d_ExpiresAt selected \<noteq> d_ExpiresAt d
        then d\<lparr>d_Eligible := False, d_Reason := ExpiryChanged\<rparr>
      else d)"

section \<open>Reports\<close>

record problem =
  p_ResourceID :: string
  p_Code :: string
  p_Message :: string

record volume =
  v_ID :: string
  v_Device :: string
  v_Root :: bool
  v_DeleteOnTermination :: "bool option"
  v_Deletion :: string

text \<open>\<open>Outcome\<close> embeds its \<open>Decision\<close>.\<close>

record outcome =
  o_Decision :: decision
  o_Status :: string
  o_RootDeletion :: string
  o_Volumes :: "volume list"
  o_Errors :: "problem list"

record result =
  R_SchemaVersion :: int
  R_Command :: string
  R_OK :: bool
  R_ExitCode :: int
  R_Code :: string
  R_Message :: string
  R_Scope :: scope
  R_DryRun :: bool
  R_EvaluatedAt :: string
  R_CompletedAt :: string
  R_ScanComplete :: bool
  R_Complete :: bool
  R_ScannedCount :: nat
  R_CandidateCount :: nat
  R_TerminatedCount :: nat
  R_CleanedCount :: nat
  R_Instances :: "outcome list"
  R_Errors :: "problem list"

record event =
  e_SchemaVersion :: int
  e_RunID :: string
  e_Kind :: string
  e_Scope :: scope
  e_EmittedAt :: string
  e_Instance :: "outcome option"
  e_Summary :: "result option"

record scheduled_input =
  si_SchemaVersion :: int
  si_ScheduleARN :: string
  si_ScheduledTime :: string
  si_ExecutionID :: string
  si_AttemptNumber :: string

section \<open>Lemmas on tags\<close>

lemma count_expiry_eq:
  "count_expiry ts n v =
     (n + length (filter is_expiry_tag ts),
      if filter is_expiry_tag ts = [] then v else t_Value (last (filter is_expiry_tag ts)))"
  by (induction ts arbitrary: n v) (auto simp: is_expiry_tag_def)

lemma InspectTags_ok:
  "InspectTags ts = (e, NoReason) \<longleftrightarrow>
     (\<exists>t v. filter is_expiry_tag ts = [t] \<and> t_Value t = Some v \<and> e = Some v \<and> is_ok (ParseTimestamp v))"
proof (cases "filter is_expiry_tag ts")
  case Nil
  then show ?thesis by (simp add: InspectTags_def count_expiry_eq)
next
  case (Cons t us)
  then show ?thesis
    by (cases us) (auto simp: InspectTags_def count_expiry_eq split: option.splits sum.splits)
qed

lemma InspectTags_value: "InspectTags ts = (Some v, r) \<Longrightarrow> r = NoReason \<and> is_ok (ParseTimestamp v)"
  by (auto simp: InspectTags_def split: prod.splits if_splits option.splits sum.splits)

lemma InspectTags_reason:
  "InspectTags ts = (e, r) \<Longrightarrow>
     r \<in> {NoReason, ExpiryDuplicate, ExpiryMissing, ExpiryInvalid} \<and> (e = None \<longleftrightarrow> r \<noteq> NoReason)"
  by (auto simp: InspectTags_def split: prod.splits if_splits option.splits sum.splits)

text \<open>The tags the loop reads: all but the expiry tag.\<close>

definition scope_tag_ok :: "tag \<Rightarrow> bool" where
  "scope_tag_ok t \<longleftrightarrow> t_Key t \<noteq> None \<and> t_Key t \<noteq> Some [] \<and> (is_expiry_tag t \<or> t_Value t \<noteq> None)"

abbreviation scope_part :: "tag list \<Rightarrow> tag list" where
  "scope_part ts \<equiv> filter (\<lambda>t. \<not> is_expiry_tag t) ts"

definition tag_pairs :: "tag list \<Rightarrow> (string \<times> string) list" where
  "tag_pairs ts = map (\<lambda>t. (aws_to_string (t_Key t), aws_to_string (t_Value t))) (scope_part ts)"

lemma tag_pairs_simps [simp]:
  "tag_pairs [] = []"
  "is_expiry_tag t \<Longrightarrow> tag_pairs (t # ts) = tag_pairs ts"
  "\<not> is_expiry_tag t \<Longrightarrow>
     tag_pairs (t # ts) = (aws_to_string (t_Key t), aws_to_string (t_Value t)) # tag_pairs ts"
  by (simp_all add: tag_pairs_def)

lemma scope_tags_iff:
  "scope_tags ts m = Inr tags \<longleftrightarrow>
     (\<forall>t \<in> set ts. scope_tag_ok t) \<and> distinct (map fst (tag_pairs ts)) \<and>
     (\<forall>k \<in> fst ` set (tag_pairs ts). m k = None) \<and> tags = m ++ map_of (tag_pairs ts)"
proof (induction ts arbitrary: m)
  case Nil
  then show ?case by auto
next
  case (Cons t ts)
  show ?case
  proof (cases "scope_tag_ok t")
    case False
    then show ?thesis by (auto simp: scope_tag_ok_def is_expiry_tag_def split: option.splits)
  next
    case ok: True
    then obtain k where k: "t_Key t = Some k" "k \<noteq> []" by (auto simp: scope_tag_ok_def)
    show ?thesis
    proof (cases "is_expiry_tag t")
      case True
      then show ?thesis using ok k Cons.IH by (simp add: is_expiry_tag_def)
    next
      case False
      then obtain v where v: "t_Value t = Some v" "k \<noteq> TagKey"
        using ok k by (auto simp: scope_tag_ok_def is_expiry_tag_def)
      have upd: "m(k \<mapsto> v) ++ map_of (tag_pairs ts) = m ++ (map_of (tag_pairs ts))(k \<mapsto> v)"
        if "k \<notin> fst ` set (tag_pairs ts)"
      proof -
        from that have "map_of (tag_pairs ts) k = None" by (simp add: map_of_eq_None_iff)
        then show ?thesis by (intro ext) (simp add: map_add_def split: option.splits)
      qed
      have fresh: "(\<forall>j \<in> fst ` set (tag_pairs ts). (m(k \<mapsto> v)) j = None) \<longleftrightarrow>
          k \<notin> fst ` set (tag_pairs ts) \<and> (\<forall>j \<in> fst ` set (tag_pairs ts). m j = None)" by force
      have pairs: "tag_pairs (t # ts) = (k, v) # tag_pairs ts" using False k v by simp
      have "scope_tags (t # ts) m = Inr tags \<longleftrightarrow> m k = None \<and> scope_tags ts (m(k \<mapsto> v)) = Inr tags"
        by (simp add: k v)
      also have "\<dots> \<longleftrightarrow> (m k = None \<and> (\<forall>t \<in> set ts. scope_tag_ok t) \<and> distinct (map fst (tag_pairs ts)) \<and>
          k \<notin> fst ` set (tag_pairs ts) \<and> (\<forall>j \<in> fst ` set (tag_pairs ts). m j = None) \<and>
          tags = m ++ (map_of (tag_pairs ts))(k \<mapsto> v))"
        unfolding Cons.IH fresh by (metis upd)
      also have "\<dots> \<longleftrightarrow> (\<forall>t \<in> set (t # ts). scope_tag_ok t) \<and> distinct (map fst (tag_pairs (t # ts))) \<and>
          (\<forall>k \<in> fst ` set (tag_pairs (t # ts)). m k = None) \<and> tags = m ++ map_of (tag_pairs (t # ts))"
        unfolding pairs using ok by (simp, blast)
      finally show ?thesis .
    qed
  qed
qed

lemma tag_pairs_mset: "mset ts = mset us \<Longrightarrow> mset (tag_pairs ts) = mset (tag_pairs us)"
proof -
  assume "mset ts = mset us"
  then have "mset (scope_part ts) = mset (scope_part us)" by simp
  then show ?thesis unfolding tag_pairs_def mset_map by simp
qed

lemma scope_tags_Inl: "scope_tags ts m = Inl e \<Longrightarrow> e = TagsInvalid \<or> e = TagsDuplicate"
proof (induction ts arbitrary: m)
  case (Cons t ts)
  then show ?case by (auto split: option.splits if_splits)
qed simp

section \<open>Eligibility\<close>

text \<open>The scope part of an observation is in order: trusted scope, exact identity, unambiguous tags.\<close>

definition in_scope :: "scope \<Rightarrow> resource \<Rightarrow> bool" where
  "in_scope sc r \<longleftrightarrow>
     is_ok (Scope_Validate sc) \<and> re_match instanceRE (r_ID r) \<and>
     r_Account r = s_Account sc \<and> r_Region r = s_Region sc \<and>
     (\<forall>t \<in> set (r_Tags r). scope_tag_ok t) \<and> distinct (map fst (tag_pairs (r_Tags r))) \<and>
     map_get (map_of (tag_pairs (r_Tags r))) ''ManagedBy'' = ''devbox'' \<and>
     map_get (map_of (tag_pairs (r_Tags r))) ''Deployment'' = s_Deployment sc \<and>
     map_get (map_of (tag_pairs (r_Tags r))) ''Owner'' = s_Owner sc"

text \<open>The one expiry tag and its instant.\<close>

definition expires_at :: "resource \<Rightarrow> string \<Rightarrow> gotime \<Rightarrow> bool" where
  "expires_at r v e \<longleftrightarrow>
     (\<exists>t. filter is_expiry_tag (r_Tags r) = [t] \<and> t_Value t = Some v) \<and> ParseTimestamp v = Inr e"

lemma Evaluate_ID [simp]: "d_InstanceID (Evaluate sc r now) = r_ID r"
  by (auto simp: Evaluate_def Let_def split: sum.splits prod.splits)

lemma Evaluate_State [simp]: "d_State (Evaluate sc r now) = r_State r"
  by (auto simp: Evaluate_def Let_def split: sum.splits prod.splits)

lemma Evaluate_eligible_reason: "d_Eligible (Evaluate sc r now) \<longleftrightarrow> d_Reason (Evaluate sc r now) = Expired"
proof -
  have "scope_tags ts m \<noteq> Inl Expired" for ts m
    using scope_tags_Inl by fastforce
  moreover have "InspectTags ts \<noteq> (e, Expired)" for ts e
    using InspectTags_reason by fastforce
  ultimately show ?thesis
    by (auto simp: Evaluate_def Let_def split: sum.splits prod.splits)
qed

text \<open>Outside the scope checks, an evaluation reads the expiry tag, the clock and the state.\<close>

lemma Evaluate_in_scope:
  assumes "in_scope sc r" "Timestamp now = Inr ts"
  shows "Evaluate sc r now =
    (let d = \<lparr>d_InstanceID = r_ID r, d_State = r_State r, d_ExpiresAt = fst (InspectTags (r_Tags r)),
              d_EvaluatedAt = ts, d_Eligible = False, d_Reason = snd (InspectTags (r_Tags r))\<rparr>
     in if snd (InspectTags (r_Tags r)) \<noteq> NoReason then d
        else if now < parsed_or_zero (aws_to_string (fst (InspectTags (r_Tags r))))
          then d\<lparr>d_Reason := ExpiryFuture\<rparr>
        else if r_State r \<in> set live_states then d\<lparr>d_Eligible := True, d_Reason := Expired\<rparr>
        else if r_State r = ''shutting-down'' then d\<lparr>d_Reason := AlreadyTerminating\<rparr>
        else if r_State r = ''terminated'' then d\<lparr>d_Reason := AlreadyTerminated\<rparr>
        else d\<lparr>d_Reason := StateUnknown\<rparr>)"
proof -
  have "scope_tags (r_Tags r) Map.empty = Inr (map_of (tag_pairs (r_Tags r)))"
    using assms(1) unfolding scope_tags_iff in_scope_def by simp
  then show ?thesis
    using assms unfolding Evaluate_def in_scope_def
    by (cases "InspectTags (r_Tags r)") (simp add: Let_def)
qed

lemma Evaluate_out_of_scope:
  assumes "\<not> in_scope sc r \<or> \<not> is_ok (Timestamp now)"
  shows "d_ExpiresAt (Evaluate sc r now) = None"
    "d_Reason (Evaluate sc r now) \<in>
       {ClockInvalid, ScopeInvalid, ResourceInvalid, ScopeMismatch, TagsInvalid, TagsDuplicate}"
proof -
  have tags: "scope_tags (r_Tags r) Map.empty = Inr m \<Longrightarrow> m = map_of (tag_pairs (r_Tags r)) \<and>
      (\<forall>t \<in> set (r_Tags r). scope_tag_ok t) \<and> distinct (map fst (tag_pairs (r_Tags r)))" for m
    unfolding scope_tags_iff by simp
  show "d_ExpiresAt (Evaluate sc r now) = None"
    "d_Reason (Evaluate sc r now) \<in>
       {ClockInvalid, ScopeInvalid, ResourceInvalid, ScopeMismatch, TagsInvalid, TagsDuplicate}"
    using assms by (auto simp: Evaluate_def Let_def in_scope_def split: sum.splits prod.splits
        dest!: scope_tags_Inl tags)
qed

lemma Evaluate_expired_state:
  assumes "d_Reason (Evaluate sc r now) \<in> {Expired, AlreadyTerminating, AlreadyTerminated, StateUnknown}"
  shows "in_scope sc r" "is_ok (Timestamp now)"
    "\<exists>v e. expires_at r v e \<and> d_ExpiresAt (Evaluate sc r now) = Some v \<and> e \<le> now"
proof -
  have "\<not> (\<not> in_scope sc r \<or> \<not> is_ok (Timestamp now))"
    using assms Evaluate_out_of_scope(2) [of sc r now] by (intro notI) auto
  then show sc: "in_scope sc r" "is_ok (Timestamp now)" by simp_all
  obtain ts where ts: "Timestamp now = Inr ts" using sc(2) by (cases "Timestamp now") auto
  obtain e rs where i: "InspectTags (r_Tags r) = (e, rs)" by force
  have ev: "rs = NoReason" "\<not> now < parsed_or_zero (aws_to_string e)"
    "d_ExpiresAt (Evaluate sc r now) = e"
    using assms InspectTags_reason [OF i] Evaluate_in_scope [OF sc(1) ts]
    by (auto simp: i Let_def split: if_splits)
  then show "\<exists>v e. expires_at r v e \<and> d_ExpiresAt (Evaluate sc r now) = Some v \<and> e \<le> now"
    using i by (auto simp: InspectTags_ok expires_at_def is_ok_iff parsed_or_zero_def)
qed

lemma Evaluate_eligible_iff:
  "d_Eligible (Evaluate sc r now) \<longleftrightarrow>
     is_ok (Timestamp now) \<and> in_scope sc r \<and> (\<exists>v e. expires_at r v e \<and> e \<le> now) \<and>
     r_State r \<in> set live_states"
  (is "?l \<longleftrightarrow> ?r")
proof
  assume l: ?l
  then have "d_Reason (Evaluate sc r now) = Expired" by (simp add: Evaluate_eligible_reason)
  then have "d_Reason (Evaluate sc r now) \<in> {Expired, AlreadyTerminating, AlreadyTerminated, StateUnknown}"
    by simp
  note * = Evaluate_expired_state [OF this]
  obtain ts where "Timestamp now = Inr ts" using *(2) by (cases "Timestamp now") auto
  then have "r_State r \<in> set live_states"
    using l Evaluate_in_scope [OF *(1), of now] by (auto simp: Let_def split: if_splits)
  with * show ?r by blast
next
  assume ?r
  then obtain ts v e where r: "Timestamp now = Inr ts" "in_scope sc r" "expires_at r v e" "e \<le> now"
    "r_State r \<in> set live_states"
    by (cases "Timestamp now") auto
  then have "InspectTags (r_Tags r) = (Some v, NoReason)"
    by (auto simp: InspectTags_ok expires_at_def)
  with r show ?l using Evaluate_in_scope [OF r(2,1)]
    by (simp add: Let_def parsed_or_zero_def expires_at_def)
qed

lemma Evaluate_eligible_mono:
  "d_Eligible (Evaluate sc r now) \<Longrightarrow> now \<le> later \<Longrightarrow> is_ok (Timestamp later) \<Longrightarrow>
     d_Eligible (Evaluate sc r later)"
  unfolding Evaluate_eligible_iff by (auto intro: order_trans)

lemma filter_single_mset: "mset ts = mset us \<Longrightarrow> filter P ts = [t] \<longleftrightarrow> filter P us = [t]"
  by (metis mset_filter mset_single_iff_right)

lemma Recheck_eligible:
  "d_Eligible (Recheck sc sel r now) \<longleftrightarrow>
     d_Eligible sel \<and> d_Reason sel = Expired \<and> d_InstanceID sel = r_ID r \<and>
     d_Eligible (Evaluate sc r now) \<and> d_ExpiresAt sel = d_ExpiresAt (Evaluate sc r now)"
proof -
  have "d_Eligible (Evaluate sc r now) \<Longrightarrow> d_ExpiresAt (Evaluate sc r now) \<noteq> None"
    using Evaluate_expired_state(3) [of sc r now] by (auto simp: Evaluate_eligible_reason)
  then show ?thesis by (auto simp: Recheck_def Let_def)
qed

section \<open>Properties\<close>

text \<open>C2.  Eligibility for termination is exactly: a usable clock, a valid trusted scope, an exact
  instance identity in that account and region, unambiguous scope tags that name devbox, the
  deployment and the owner, one canonical expiry tag whose instant is not after the clock sample,
  and a live state.  Nothing else makes an instance eligible, and nothing else prevents it.\<close>

theorem evaluate_eligible_iff:
  "d_Eligible (Evaluate sc r now) \<longleftrightarrow>
     (\<exists>s. Timestamp now = Inr s) \<and> in_scope sc r \<and> (\<exists>v e. expires_at r v e \<and> e \<le> now) \<and>
     r_State r \<in> {''pending'', ''running'', ''stopping'', ''stopped''}"
  unfolding Evaluate_eligible_iff is_ok_iff live_states_def by auto

text \<open>The order in which EC2 returns the tags never changes whether an instance is eligible.\<close>

theorem evaluate_tag_order:
  assumes "mset (r_Tags r) = mset ts"
  shows "d_Eligible (Evaluate sc (r\<lparr>r_Tags := ts\<rparr>) now) = d_Eligible (Evaluate sc r now)"
proof -
  have pairs: "mset (tag_pairs (r_Tags r)) = mset (tag_pairs ts)" using assms by (rule tag_pairs_mset)
  have d: "distinct (map fst (tag_pairs (r_Tags r))) = distinct (map fst (tag_pairs ts))"
    using pairs by (intro mset_eq_imp_distinct_iff) simp
  have m: "distinct (map fst (tag_pairs ts)) \<Longrightarrow> map_of (tag_pairs (r_Tags r)) = map_of (tag_pairs ts)"
    using d mset_eq_setD [OF pairs] by (simp add: map_of_inject_set)
  have s: "set (r_Tags r) = set ts" using assms by (rule mset_eq_setD)
  have sc: "in_scope sc (r\<lparr>r_Tags := ts\<rparr>) = in_scope sc r"
    unfolding in_scope_def using d m s by auto
  have e: "expires_at (r\<lparr>r_Tags := ts\<rparr>) v e = expires_at r v e" for v e
    unfolding expires_at_def using filter_single_mset [OF assms, of is_expiry_tag] by simp
  show ?thesis unfolding Evaluate_eligible_iff sc e by simp
qed

text \<open>C3.  A recheck confirms a candidate only when the earlier selection was eligible, the fresh
  observation is the same instance, is itself eligible at the new clock sample, and still carries
  the very expiry text that was selected.\<close>

theorem recheck_eligible_iff:
  "d_Eligible (Recheck sc selected current now) \<longleftrightarrow>
     d_Eligible selected \<and> d_Reason selected = Expired \<and> d_InstanceID selected = r_ID current \<and>
     d_Eligible (Evaluate sc current now) \<and>
     (\<exists>v e. d_ExpiresAt selected = Some v \<and> expires_at current v e \<and> e \<le> now)"
proof -
  have "d_Eligible (Evaluate sc current now) \<Longrightarrow>
     d_ExpiresAt selected = d_ExpiresAt (Evaluate sc current now) \<longleftrightarrow>
     (\<exists>v e. d_ExpiresAt selected = Some v \<and> expires_at current v e \<and> e \<le> now)"
  proof -
    assume "d_Eligible (Evaluate sc current now)"
    then have "d_Reason (Evaluate sc current now) = Expired" by (simp add: Evaluate_eligible_reason)
    then obtain v e where v: "expires_at current v e" "d_ExpiresAt (Evaluate sc current now) = Some v" "e \<le> now"
      using Evaluate_expired_state(3) [of sc current now] by auto
    have u: "v' = v" if "expires_at current v' e'" for v' e'
      using v(1) that unfolding expires_at_def by auto
    show ?thesis unfolding v(2) using v(1,3) u by blast
  qed
  then show ?thesis unfolding Recheck_eligible by blast
qed

end
