(* ===== verification/AwsTypes.thy ===== *)
theory AwsTypes
  imports ExpiryCleanup
begin

text \<open>
  The values of the AWS SDK the program reads and writes, with the fields the source uses; a nil-able
  pointer is an \<open>option\<close>.  The SDK itself is not part of the repository: its calls are functions of
  an environment, and this theory only names the data that crosses that boundary.
\<close>

text \<open>An error of a call: an API error with its code, or any other (transport, context, decoding).\<close>

datatype aws_error = APIError string | OtherError

definition has_code :: "aws_error option \<Rightarrow> string list \<Rightarrow> bool" where
  "has_code err codes \<longleftrightarrow> (\<exists>c \<in> set codes. err = Some (APIError c))"

text \<open>A reply: the output pointer, the error, and whether the request's own context had ended.\<close>

record 'a reply =
  rp_out :: "'a option"
  rp_err :: "aws_error option"
  rp_ctx :: bool

record ebs_device =
  eb_VolumeId :: "string option"
  eb_VolumeOwnerId :: "string option"
  eb_Status :: string
  eb_DeleteOnTermination :: "bool option"

record block_device =
  bd_DeviceName :: "string option"
  bd_Ebs :: "ebs_device option"

record instance_state =
  is_Name :: string
  is_Code :: "int option"

text \<open>\<open>ai_Placement\<close> is nil or a placement with a nil-able zone.\<close>

record aws_instance =
  ai_InstanceId :: "string option"
  ai_State :: "instance_state option"
  ai_Placement :: "string option option"
  ai_Tags :: "tag list"
  ai_RootDeviceName :: "string option"
  ai_RootDeviceType :: string
  ai_BlockDeviceMappings :: "block_device list"
  ai_ImageId :: "string option"
  ai_InstanceType :: string
  ai_SubnetId :: "string option"
  ai_InstanceLifecycle :: string
  ai_ClientToken :: "string option"

record reservation =
  rs_OwnerId :: "string option"
  rs_Instances :: "aws_instance list"

record describe_instances =
  di_Reservations :: "reservation list"
  di_NextToken :: "string option"

record attachment =
  at_VolumeId :: "string option"
  at_State :: string

record aws_volume =
  av_VolumeId :: "string option"
  av_OwnerId :: "string option"
  av_AvailabilityZone :: "string option"
  av_VolumeArn :: "string option"
  av_State :: string
  av_Attachments :: "attachment list"

record describe_volumes =
  dv_Volumes :: "aws_volume list"
  dv_NextToken :: "string option"

record state_change =
  sc_InstanceId :: "string option"
  sc_CurrentState :: "instance_state option"
  sc_PreviousState :: "instance_state option"

record arn =
  arn_Partition :: string
  arn_Service :: string
  arn_Region :: string
  arn_AccountID :: string
  arn_Resource :: string

record caller_identity =
  ci_Account :: "string option"
  ci_Arn :: "string option"

end
