(* ===== verification/CleanupDiscovery.thy ===== *)
theory CleanupDiscovery
  imports AwsTypes "HOL-Library.Product_Lexorder" "HOL-Library.Word"
begin

unbundle bit_operations_syntax

text \<open>
  \<^verbatim>\<open>internal/expirycleanup/discovery.go\<close> and \<^verbatim>\<open>aws.go\<close>: how the cleanup service reads EC2.

  The outside world is an environment record \<open>env\<close>.  Each of its functions answers one kind of call
  from the history of the calls made before, newest first, so a reply may depend on everything that
  happened and the same call may be answered differently later.  An operation takes the history and
  returns it with its own calls added; \<open>calls\<close> lemmas state which calls an operation can make.
\<close>

section \<open>Limits\<close>

record limits =
  RequestTimeout :: duration
  InvocationTimeout :: duration
  MaxPages :: int
  ObservationAttempts :: int
  Concurrency :: int
  ReadAttempts :: int
  PollInterval :: duration

text \<open>One field: zero selects the default, and only a tightening is accepted.\<close>

definition norm_duration :: "duration \<Rightarrow> duration \<Rightarrow> duration option" where
  "norm_duration dflt p =
     (let p = (if p = 0 then dflt else p) in if p < 0 \<or> p > dflt then None else Some p)"

definition norm_count :: "int \<Rightarrow> int \<Rightarrow> int option" where
  "norm_count maximum p =
     (let p = (if p = 0 then maximum else p) in if p < 1 \<or> p > maximum then None else Some p)"

definition normalized :: "limits \<Rightarrow> limits option" where
  "normalized l =
     (case norm_duration (15 * second) (RequestTimeout l) of None \<Rightarrow> None | Some rt \<Rightarrow>
     (case norm_duration (165 * second) (InvocationTimeout l) of None \<Rightarrow> None | Some it \<Rightarrow>
     (case norm_duration (2 * second) (PollInterval l) of None \<Rightarrow> None | Some pi \<Rightarrow>
     (case norm_count 128 (MaxPages l) of None \<Rightarrow> None | Some mp \<Rightarrow>
     (case norm_count 30 (ObservationAttempts l) of None \<Rightarrow> None | Some oa \<Rightarrow>
     (case norm_count 4 (Concurrency l) of None \<Rightarrow> None | Some co \<Rightarrow>
     (case norm_count 3 (ReadAttempts l) of None \<Rightarrow> None | Some ra \<Rightarrow>
       Some \<lparr>RequestTimeout = rt, InvocationTimeout = it, MaxPages = mp, ObservationAttempts = oa,
             Concurrency = co, ReadAttempts = ra, PollInterval = pi\<rparr>)))))))"

text \<open>The frozen authority of a service: its scope and its limits.\<close>

record service =
  sv_scope :: scope
  sv_limits :: limits

section \<open>Calls and the environment\<close>

datatype call =
    CtxErr
  | Now
  | RandRead
  | GetCallerIdentity
  | DescribeInstances "string" "string"
  | TerminateInstances "string"
  | DescribeVolumes "string"
  | Emit event
  | PollWait
  | Offer

type_synonym hist = "call list"

record env =
  env_ctx :: "hist \<Rightarrow> bool"
  env_now :: "hist \<Rightarrow> gotime"
  env_rand :: "hist \<Rightarrow> string option"
  env_sts :: "hist \<Rightarrow> caller_identity reply"
  env_instances :: "hist \<Rightarrow> string \<Rightarrow> string \<Rightarrow> describe_instances reply"
  env_terminate :: "hist \<Rightarrow> string \<Rightarrow> state_change list reply"
  env_volumes :: "hist \<Rightarrow> string \<Rightarrow> describe_volumes reply"
  env_emit :: "hist \<Rightarrow> event \<Rightarrow> bool"
  env_wait :: "hist \<Rightarrow> bool"
  env_offer :: "hist \<Rightarrow> bool"
  env_arn :: "string \<Rightarrow> arn option"

definition ctx_err :: "env \<Rightarrow> hist \<Rightarrow> bool \<times> hist" where
  [go_defs]: "ctx_err E h = (env_ctx E h, CtxErr # h)"

definition now :: "env \<Rightarrow> hist \<Rightarrow> gotime \<times> hist" where
  [go_defs]: "now E h = (env_now E h, Now # h)"

text \<open>Calls that only read: they change nothing outside.\<close>

fun read_call :: "call \<Rightarrow> bool" where
  "read_call CtxErr = True"
| "read_call Now = True"
| "read_call (DescribeInstances _ _) = True"
| "read_call (DescribeVolumes _) = True"
| "read_call GetCallerIdentity = True"
| "read_call _ = False"

definition reads_only :: "hist \<Rightarrow> hist \<Rightarrow> bool" where
  "reads_only h h' \<longleftrightarrow> (\<exists>d. h' = d @ h \<and> (\<forall>c \<in> set d. read_call c))"

lemma reads_only_refl [calls]: "reads_only h h"
  by (simp add: reads_only_def)

lemma reads_only_trans: "reads_only h h' \<Longrightarrow> reads_only h' h'' \<Longrightarrow> reads_only h h''"
  unfolding reads_only_def by (metis append.assoc set_append Un_iff)

lemma reads_only_Cons: "read_call c \<Longrightarrow> reads_only h h' \<Longrightarrow> reads_only h (c # h')"
  unfolding reads_only_def by (metis append_Cons set_ConsD)

section \<open>Identity of the caller\<close>

definition partition :: "string \<Rightarrow> string" where
  "partition region =
     (if has_prefix region ''cn-'' then ''aws-cn''
      else if has_prefix region ''us-gov-'' then ''aws-us-gov''
      else if has_prefix region ''us-isob-'' then ''aws-iso-b''
      else if has_prefix region ''us-iso-'' then ''aws-iso''
      else if has_prefix region ''eu-isoe-'' then ''aws-iso-e''
      else if has_prefix region ''us-isof-'' then ''aws-iso-f''
      else if has_prefix region ''eusc-'' then ''aws-eusc''
      else ''aws'')"

definition verify :: "env \<Rightarrow> service \<Rightarrow> hist \<Rightarrow> bool \<times> hist" where
  "verify E s h =
     (let r = env_sts E h; h = GetCallerIdentity # h
      in (case rp_out r of
            None \<Rightarrow> False
          | Some out \<Rightarrow>
              if rp_err r \<noteq> None \<or> rp_ctx r \<or> aws_to_string (ci_Account out) \<noteq> s_Account (sv_scope s)
              then False
              else (case ci_Arn out of
                      None \<Rightarrow> True
                    | Some text \<Rightarrow>
                        (case env_arn E text of
                           None \<Rightarrow> False
                         | Some a \<Rightarrow>
                             arn_AccountID a = s_Account (sv_scope s) \<and>
                             arn_Partition a = partition (s_Region (sv_scope s)) \<and>
                             (arn_Service a = ''sts'' \<or> arn_Service a = ''iam''))), h))"

section \<open>Records\<close>

definition volumeID :: rexp where
  "volumeID = resource_idRE ''vol-''"

definition lower_digit_cls :: rexp where
  "lower_digit_cls = Cls [(CHR ''a'', CHR ''z''), (CHR ''0'', CHR ''9'')]"

definition zoneSuffix :: rexp where
  "zoneSuffix =
     Alt lower_cls
       (Cat [Chr (CHR ''-''), Plus lower_digit_cls,
             Star (Seq (Chr (CHR ''-'')) (Plus lower_digit_cls)),
             Chr (CHR ''-''), Plus digit_cls, lower_cls])"

definition validZone :: "service \<Rightarrow> string \<Rightarrow> bool" where
  "validZone s zone =
     (if \<not> has_prefix zone (s_Region (sv_scope s)) then False
      else re_match zoneSuffix (trim_prefix zone (s_Region (sv_scope s))))"

text \<open>Only the low byte of the 16-bit state code names the state.\<close>

definition state_code :: "string \<Rightarrow> int option" where
  "state_code name =
     map_of [(''pending'', 0), (''running'', 16), (''shutting-down'', 32), (''terminated'', 48),
             (''stopping'', 64), (''stopped'', 80)] name"

definition validInstanceState :: "instance_state option \<Rightarrow> bool" where
  "validInstanceState state =
     (case state of
        None \<Rightarrow> False
      | Some st \<Rightarrow>
          (case state_code (is_Name st) of
             None \<Rightarrow> False
           | Some code \<Rightarrow>
               (case is_Code st of
                  None \<Rightarrow> True
                | Some c \<Rightarrow> c \<ge> 0 \<and> c \<le> 65535 \<and> (c AND 255) = code)))"

definition validAttachment :: "service \<Rightarrow> ebs_device \<Rightarrow> string \<Rightarrow> bool" where
  "validAttachment s b state =
     (if (case eb_VolumeOwnerId b of None \<Rightarrow> False | Some owner \<Rightarrow> owner \<noteq> s_Account (sv_scope s)) then False
      else if eb_Status b = [] \<or> eb_Status b = ''attached'' then True
      else if eb_Status b \<in> {''attaching'', ''detaching'', ''detached''}
        then state = ''shutting-down'' \<or> state = ''terminated''
      else False)"

record record_t =
  rec_resource :: resource
  rec_rootDevice :: string
  rec_rootType :: string
  rec_volumes :: "volume list"
  rec_badMapping :: bool
  rec_conflict :: bool

definition block_volume :: "string \<Rightarrow> string \<Rightarrow> ebs_device \<Rightarrow> volume" where
  "block_volume rootDevice device ebs =
     \<lparr>v_ID = aws_to_string (eb_VolumeId ebs), v_Device = device,
      v_Root = (device \<noteq> [] \<and> device = rootDevice), v_DeleteOnTermination = eb_DeleteOnTermination ebs,
      v_Deletion = (case eb_DeleteOnTermination ebs of
                      Some flag \<Rightarrow> if flag then ''not_observed'' else ''retained''
                    | None \<Rightarrow> ''unavailable'')\<rparr>"

text \<open>The loop over the block device mappings; \<open>devices\<close> and \<open>ids\<close> are the sets of seen names.\<close>

fun map_blocks :: "service \<Rightarrow> string \<Rightarrow> string \<Rightarrow> block_device list \<Rightarrow> string set \<Rightarrow> string set \<Rightarrow>
    volume list \<Rightarrow> bool \<Rightarrow> volume list \<times> bool" where
  "map_blocks s state rootDevice [] devices ids vs bad = (vs, bad)"
| "map_blocks s state rootDevice (b # bs) devices ids vs bad =
     (let device = aws_to_string (bd_DeviceName b) in
      case bd_Ebs b of
        None \<Rightarrow> map_blocks s state rootDevice bs devices ids vs True
      | Some ebs \<Rightarrow>
          let bad = (bad \<or> \<not> validAttachment s ebs state);
              vid = aws_to_string (eb_VolumeId ebs) in
          if \<not> re_match volumeID vid then map_blocks s state rootDevice bs devices ids vs True
          else
            let bad = (bad \<or> device = [] \<or> device \<in> devices \<or> vid \<in> ids)
            in map_blocks s state rootDevice bs (insert device devices) (insert vid ids)
                 (vs @ [block_volume rootDevice device ebs]) bad)"

definition record_of :: "service \<Rightarrow> string option \<Rightarrow> aws_instance \<Rightarrow> record_t" where
  "record_of s owner i =
     (let iid = aws_to_string (ai_InstanceId i);
          iid = (if re_match instanceRE iid then iid else []);
          state = (case ai_State i of
                     Some st \<Rightarrow> if validInstanceState (Some st) then is_Name st else ''unknown''
                   | None \<Rightarrow> ''unknown'');
          region = (case ai_Placement i of
                      Some (Some zone) \<Rightarrow> if validZone s zone then s_Region (sv_scope s) else []
                    | _ \<Rightarrow> s_Region (sv_scope s));
          tags = sort_key (\<lambda>t. (aws_to_string (t_Key t), aws_to_string (t_Value t))) (ai_Tags i);
          rootDevice = aws_to_string (ai_RootDeviceName i);
          (vs, bad) = map_blocks s state rootDevice (ai_BlockDeviceMappings i) {} {} [] False
      in \<lparr>rec_resource = \<lparr>r_ID = iid, r_Account = aws_to_string owner, r_Region = region,
                          r_State = state, r_Tags = tags\<rparr>,
          rec_rootDevice = rootDevice, rec_rootType = ai_RootDeviceType i,
          rec_volumes = sort_key (\<lambda>v. (v_ID v, v_Device v)) vs,
          rec_badMapping = bad, rec_conflict = False\<rparr>)"

text \<open>Each mapping of \<open>b\<close> that is not in \<open>a\<close> is added, once.\<close>

fun mergeMappings :: "volume list \<Rightarrow> volume list \<Rightarrow> volume list" where
  "mergeMappings a [] = a"
| "mergeMappings a (v # b) = (if v \<in> set a then mergeMappings a b else mergeMappings (a @ [v]) b)"

section \<open>Scanning\<close>

text \<open>The state of a scan: the records so far and the index of each identity seen.\<close>

type_synonym scan_state = "record_t list \<times> (string \<rightharpoonup> nat)"

definition add_record :: "string \<Rightarrow> scan_state \<Rightarrow> record_t \<Rightarrow> scan_state" where
  "add_record iid st rec =
     (case st of (records, seen) \<Rightarrow>
        if iid = [] \<and> r_ID (rec_resource rec) \<noteq> []
        then (case seen (r_ID (rec_resource rec)) of
                Some index \<Rightarrow>
                  let old = records ! index in
                  if old \<noteq> rec
                  then (records[index := old\<lparr>rec_conflict := True,
                          rec_volumes := mergeMappings (rec_volumes old) (rec_volumes rec)\<rparr>], seen)
                  else (records, seen)
              | None \<Rightarrow> (records @ [rec], seen(r_ID (rec_resource rec) \<mapsto> length records)))
        else (records @ [rec], seen))"

fun add_reservations :: "service \<Rightarrow> string \<Rightarrow> reservation list \<Rightarrow> bool \<Rightarrow> scan_state \<Rightarrow> bool \<times> scan_state" where
  "add_reservations s iid [] complete st = (complete, st)"
| "add_reservations s iid (rv # rvs) complete st =
     add_reservations s iid rvs (complete \<and> rs_Instances rv \<noteq> [])
       (foldl (add_record iid) st (map (record_of s (rs_OwnerId rv)) (rs_Instances rv)))"

text \<open>What one reply adds, and whether the page is complete: no error, no ended request, an output,
  and no reservation without instances.  Observations of a failed page are kept.\<close>

definition scan_reply :: "service \<Rightarrow> string \<Rightarrow> describe_instances reply \<Rightarrow> scan_state \<Rightarrow> bool \<times> scan_state" where
  "scan_reply s iid r st =
     (case rp_out r of
        Some out \<Rightarrow> add_reservations s iid (di_Reservations out) (rp_err r = None \<and> \<not> rp_ctx r) st
      | None \<Rightarrow> (False, st))"

text \<open>The page loop.  \<open>fuel\<close> is the number of pages left of \<open>MaxPages\<close>; running out of pages is
  an incomplete scan, as in the source.\<close>

fun scan_pages :: "env \<Rightarrow> service \<Rightarrow> string \<Rightarrow> nat \<Rightarrow> string \<Rightarrow> string set \<Rightarrow> scan_state \<Rightarrow> hist \<Rightarrow>
    record_t list \<times> bool \<times> hist" where
  "scan_pages E s iid 0 token tokens st h = (fst st, False, h)"
| "scan_pages E s iid (Suc pages) token tokens st h =
     (let (ended, h) = ctx_err E h in
      if ended then (fst st, False, h)
      else
        let r = env_instances E h iid token;
            h = DescribeInstances iid token # h;
            (complete, st) = scan_reply s iid r st
        in if \<not> complete then (fst st, False, h)
           else let token = aws_to_string (case rp_out r of Some out \<Rightarrow> di_NextToken out | None \<Rightarrow> None) in
             if token = [] then (fst st, True, h)
             else if token \<in> tokens then (fst st, False, h)
             else scan_pages E s iid pages token (insert token tokens) st h)"

definition scan :: "env \<Rightarrow> service \<Rightarrow> string \<Rightarrow> hist \<Rightarrow> record_t list \<times> bool \<times> hist" where
  "scan E s iid h = scan_pages E s iid (nat (MaxPages (sv_limits s))) [] {} ([], Map.empty) h"

definition exact :: "env \<Rightarrow> service \<Rightarrow> string \<Rightarrow> hist \<Rightarrow> record_t option \<times> hist" where
  "exact E s iid h =
     (case scan E s iid h of (rs, complete, h) \<Rightarrow>
        if \<not> complete \<or> length rs \<noteq> 1 \<or> r_ID (rec_resource (hd rs)) \<noteq> iid then (None, h)
        else (Some (hd rs), h))"

section \<open>Volume mappings\<close>

definition historicalMappingsAbsent :: "record_t \<Rightarrow> reason \<Rightarrow> bool" where
  "historicalMappingsAbsent r reason \<longleftrightarrow>
     reason = AlreadyTerminated \<and> \<not> rec_conflict r \<and> \<not> rec_badMapping r \<and>
     length (rec_volumes r) = 0 \<and> (rec_rootType r = [] \<or> rec_rootType r = ''ebs'')"

fun count_roots :: "volume list \<Rightarrow> nat \<Rightarrow> bool option \<Rightarrow> nat \<times> bool option" where
  "count_roots [] roots flag = (roots, flag)"
| "count_roots (v # vs) roots flag =
     (if v_Root v then count_roots vs (roots + 1) (v_DeleteOnTermination v)
      else count_roots vs roots flag)"

definition rootProblem :: "record_t \<Rightarrow> string" where
  "rootProblem r =
     (if rec_badMapping r \<or> rec_rootType r \<noteq> ''ebs'' \<or> rec_rootDevice r = []
      then ''root_volume_unverified''
      else (case count_roots (rec_volumes r) 0 None of
              (roots, flag) \<Rightarrow>
                if roots \<noteq> 1 \<or> flag = None then ''root_volume_unverified''
                else if flag = Some False then ''root_volume_retained''
                else []))"

definition sameMappings :: "record_t \<Rightarrow> record_t \<Rightarrow> bool" where
  "sameMappings a b \<longleftrightarrow>
     rec_rootDevice a = rec_rootDevice b \<and> rec_rootType a = rec_rootType b \<and>
     rec_badMapping a = rec_badMapping b \<and> rec_volumes a = rec_volumes b"

definition consistentMappings :: "record_t \<Rightarrow> record_t \<Rightarrow> bool" where
  "consistentMappings captured current =
     (if rec_badMapping current then False
      else if sameMappings captured current then True
      else r_State (rec_resource current) = ''terminated'' \<and>
           historicalMappingsAbsent current AlreadyTerminated \<and>
           (rec_rootType current = [] \<or> rec_rootType captured = [] \<or>
              rec_rootType current = rec_rootType captured) \<and>
           (rec_rootDevice current = [] \<or> rec_rootDevice captured = [] \<or>
              rec_rootDevice current = rec_rootDevice captured))"

definition describeVolumes :: "env \<Rightarrow> string \<Rightarrow> hist \<Rightarrow> describe_volumes option \<times> aws_error option \<times> hist" where
  "describeVolumes E iid h =
     (let r = env_volumes E h iid
      in (rp_out r, if rp_ctx r then Some OtherError else rp_err r, DescribeVolumes iid # h))"

definition attachment_ok :: "string \<Rightarrow> string \<Rightarrow> attachment \<Rightarrow> bool" where
  "attachment_ok state iid a \<longleftrightarrow>
     \<not> (at_VolumeId a \<noteq> None \<and> at_VolumeId a \<noteq> Some iid) \<and>
     \<not> (state = ''deleted'' \<and> at_State a \<noteq> ''detached'')"

definition exactVolume :: "env \<Rightarrow> service \<Rightarrow> describe_volumes option \<Rightarrow> string \<Rightarrow> bool" where
  "exactVolume E s out iid =
     (case out of
        None \<Rightarrow> False
      | Some reply \<Rightarrow>
          if aws_to_string (dv_NextToken reply) \<noteq> [] \<or> length (dv_Volumes reply) \<noteq> 1
             \<or> aws_to_string (av_VolumeId (hd (dv_Volumes reply))) \<noteq> iid then False
          else let v = hd (dv_Volumes reply) in
            if av_OwnerId v \<noteq> None \<and> aws_to_string (av_OwnerId v) \<noteq> s_Account (sv_scope s) then False
            else if (case av_AvailabilityZone v of None \<Rightarrow> False | Some z \<Rightarrow> \<not> validZone s z) then False
            else if (case av_VolumeArn v of
                       None \<Rightarrow> False
                     | Some text \<Rightarrow>
                         (case env_arn E text of
                            None \<Rightarrow> True
                          | Some a \<Rightarrow>
                              arn_Partition a \<noteq> partition (s_Region (sv_scope s)) \<or>
                              arn_Service a \<noteq> ''ec2'' \<or> arn_Region a \<noteq> s_Region (sv_scope s) \<or>
                              arn_AccountID a \<noteq> s_Account (sv_scope s) \<or>
                              arn_Resource a \<noteq> ''volume/'' @ iid)) then False
            else list_all (attachment_ok (av_State v) iid) (av_Attachments v))"

section \<open>Lemmas\<close>

lemma verify_reads [calls]: "verify E s h = (ok, h') \<Longrightarrow> reads_only h h'"
  by (auto simp: verify_def Let_def intro: reads_only_Cons reads_only_refl)

lemma scan_pages_reads:
  "scan_pages E s iid n token tokens st h = (rs, ok, h') \<Longrightarrow> reads_only h h'"
proof (induction n arbitrary: token tokens st h)
  case 0
  then show ?case by (simp add: reads_only_refl)
next
  case (Suc n)
  let ?h = "DescribeInstances iid token # CtxErr # h"
  have two: "reads_only h (CtxErr # h)" "reads_only h ?h"
    by (intro reads_only_Cons reads_only_refl; simp)+
  have "h' = CtxErr # h \<or> h' = ?h \<or>
      (\<exists>token tokens st. scan_pages E s iid n token tokens st ?h = (rs, ok, h'))"
    using Suc.prems by (auto simp: go_defs Let_def split: if_splits option.splits prod.splits)
  then show ?case using two Suc.IH reads_only_trans by blast
qed

lemma scan_reads [calls]: "scan E s iid h = (rs, ok, h') \<Longrightarrow> reads_only h h'"
  unfolding scan_def by (rule scan_pages_reads)

lemma exact_reads [calls]: "exact E s iid h = (r, h') \<Longrightarrow> reads_only h h'"
  by (auto simp: exact_def split: prod.splits if_splits intro: scan_reads)

lemma exact_ID: "exact E s iid h = (Some r, h') \<Longrightarrow> r_ID (rec_resource r) = iid"
  by (auto simp: exact_def split: prod.splits if_splits)

lemma exact_singular:
  "exact E s iid h = (Some r, h') \<Longrightarrow> scan E s iid h = ([r], True, h')"
  by (auto simp: exact_def length_Suc_conv split: prod.splits if_splits)

subsection \<open>Records\<close>

lemma map_blocks_spec:
  assumes "map_blocks s state rd bs ds is vs bad = (ws, bad')"
    "v_ID ` set vs \<subseteq> is" "\<forall>v \<in> set vs. re_match volumeID (v_ID v)" "\<not> bad \<Longrightarrow> distinct (map v_ID vs)"
  shows "(\<forall>v \<in> set ws. re_match volumeID (v_ID v)) \<and> (\<not> bad' \<longrightarrow> \<not> bad \<and> distinct (map v_ID ws))"
  using assms
proof (induction bs arbitrary: ds "is" vs bad)
  case Nil
  then show ?case by simp
next
  case (Cons b bs)
  let ?dev = "aws_to_string (bd_DeviceName b)"
  show ?case
  proof (cases "bd_Ebs b")
    case None
    then have "map_blocks s state rd bs ds is vs True = (ws, bad')"
      using Cons.prems(1) by (simp add: Let_def)
    from Cons.IH [OF this Cons.prems(2,3)] show ?thesis by simp
  next
    case (Some ebs)
    let ?id = "aws_to_string (eb_VolumeId ebs)"
    let ?v = "block_volume rd ?dev ebs"
    let ?bad = "(bad \<or> \<not> validAttachment s ebs state) \<or> ?dev = [] \<or> ?dev \<in> ds \<or> ?id \<in> is"
    show ?thesis
    proof (cases "re_match volumeID ?id")
      case False
      then have "map_blocks s state rd bs ds is vs True = (ws, bad')"
        using Cons.prems(1) Some by (simp add: Let_def)
      from Cons.IH [OF this Cons.prems(2,3)] show ?thesis by simp
    next
      case True
      have id: "v_ID ?v = ?id" by (simp add: block_volume_def)
      have "map_blocks s state rd bs (insert ?dev ds) (insert ?id is) (vs @ [?v]) ?bad = (ws, bad')"
        using Cons.prems(1) Some True by (simp add: Let_def)
      from Cons.IH [OF this] have "(\<forall>v \<in> set ws. re_match volumeID (v_ID v)) \<and>
          (\<not> bad' \<longrightarrow> \<not> ?bad \<and> distinct (map v_ID ws))"
        using Cons.prems(2-4) True id by fastforce
      then show ?thesis by blast
    qed
  qed
qed

lemma record_of_ID: "r_ID (rec_resource (record_of s ow i)) = [] \<or>
    re_match instanceRE (r_ID (rec_resource (record_of s ow i))) \<and>
    ai_InstanceId i = Some (r_ID (rec_resource (record_of s ow i)))"
  by (cases "ai_InstanceId i") (simp_all add: record_of_def Let_def split: prod.splits)

lemma record_of_tags: "mset (r_Tags (rec_resource (record_of s ow i))) = mset (ai_Tags i)"
  by (simp add: record_of_def Let_def split: prod.splits)

lemma record_of_volumes:
  "(\<forall>v \<in> set (rec_volumes (record_of s ow i)). re_match volumeID (v_ID v)) \<and>
   (\<not> rec_badMapping (record_of s ow i) \<longrightarrow> distinct (map v_ID (rec_volumes (record_of s ow i))))"
proof -
  define state where "state = r_State (rec_resource (record_of s ow i))"
  define rd where "rd = rec_rootDevice (record_of s ow i)"
  obtain vs bad where m: "map_blocks s state rd (ai_BlockDeviceMappings i) {} {} [] False = (vs, bad)"
    by force
  have r: "rec_volumes (record_of s ow i) = sort_key (\<lambda>v. (v_ID v, v_Device v)) vs"
    "rec_badMapping (record_of s ow i) = bad"
    using m by (simp_all add: state_def rd_def record_of_def Let_def split: prod.splits)
  have d: "distinct (map v_ID (sort_key (\<lambda>v. (v_ID v, v_Device v)) vs)) = distinct (map v_ID vs)"
    by (intro mset_eq_imp_distinct_iff) simp
  show ?thesis unfolding r d using map_blocks_spec [OF m] by simp
qed

subsection \<open>Mappings\<close>

lemma set_mergeMappings [simp]: "set (mergeMappings a b) = set a \<union> set b"
  by (induction a b rule: mergeMappings.induct) auto

lemma mergeMappings_prefix: "\<exists>c. mergeMappings a b = a @ c"
  by (induction a b rule: mergeMappings.induct) auto

lemma count_roots_eq:
  "count_roots vs n flag =
     (n + length (filter v_Root vs),
      if filter v_Root vs = [] then flag else v_DeleteOnTermination (last (filter v_Root vs)))"
  by (induction vs arbitrary: n flag) auto

lemma rootProblem_values: "rootProblem r \<in> {[], ''root_volume_unverified'', ''root_volume_retained''}"
  by (auto simp: rootProblem_def split: prod.splits)

lemma rootProblem_Nil_iff:
  "rootProblem r = [] \<longleftrightarrow>
     \<not> rec_badMapping r \<and> rec_rootType r = ''ebs'' \<and> rec_rootDevice r \<noteq> [] \<and>
     (\<exists>v. filter v_Root (rec_volumes r) = [v] \<and> v_DeleteOnTermination v = Some True)"
proof (cases "filter v_Root (rec_volumes r)")
  case Nil
  then show ?thesis by (simp add: rootProblem_def count_roots_eq)
next
  case (Cons v vs)
  then show ?thesis
    by (cases vs; cases "v_DeleteOnTermination v") (auto simp: rootProblem_def count_roots_eq)
qed

lemma consistentMappings_good: "consistentMappings a b \<Longrightarrow> \<not> rec_badMapping b"
  by (simp add: consistentMappings_def split: if_splits)

lemma consistentMappings_live:
  "consistentMappings a b \<Longrightarrow> r_State (rec_resource b) \<noteq> ''terminated'' \<Longrightarrow> sameMappings a b"
  by (simp add: consistentMappings_def split: if_splits)

subsection \<open>Limits\<close>

lemma norm_count_Some: "norm_count m p = Some q \<longleftrightarrow> 1 \<le> q \<and> q \<le> m \<and> q = (if p = 0 then m else p)"
  by (auto simp: norm_count_def Let_def)

lemma norm_duration_Some:
  "norm_duration m p = Some q \<longleftrightarrow> 0 \<le> q \<and> q \<le> m \<and> q = (if p = 0 then m else p)"
  by (auto simp: norm_duration_def Let_def)

lemma normalized_Some:
  "normalized l = Some l' \<longleftrightarrow>
     norm_duration (15 * second) (RequestTimeout l) = Some (RequestTimeout l') \<and>
     norm_duration (165 * second) (InvocationTimeout l) = Some (InvocationTimeout l') \<and>
     norm_duration (2 * second) (PollInterval l) = Some (PollInterval l') \<and>
     norm_count 128 (MaxPages l) = Some (MaxPages l') \<and>
     norm_count 30 (ObservationAttempts l) = Some (ObservationAttempts l') \<and>
     norm_count 4 (Concurrency l) = Some (Concurrency l') \<and>
     norm_count 3 (ReadAttempts l) = Some (ReadAttempts l')"
  by (cases l') (auto simp: normalized_def split: option.splits)

subsection \<open>Distinct identities\<close>

text \<open>The index map and the records of a full scan agree, so no identity is recorded twice.\<close>

definition scan_inv :: "scan_state \<Rightarrow> bool" where
  "scan_inv st \<longleftrightarrow>
     (\<forall>k n. snd st k = Some n \<longleftrightarrow> k \<noteq> [] \<and> n < length (fst st) \<and> r_ID (rec_resource (fst st ! n)) = k)"

lemma scan_inv_empty: "scan_inv ([], Map.empty)"
  by (simp add: scan_inv_def)

lemma scan_inv_distinct:
  assumes "scan_inv st" "i < length (fst st)" "j < length (fst st)"
    "r_ID (rec_resource (fst st ! i)) = r_ID (rec_resource (fst st ! j))"
    "r_ID (rec_resource (fst st ! i)) \<noteq> []"
  shows "i = j"
  using assms unfolding scan_inv_def by (metis option.inject)

lemma add_record_inv: "scan_inv st \<Longrightarrow> scan_inv (add_record [] st rec)"
proof -
  assume inv: "scan_inv st"
  obtain rs seen where st: "st = (rs, seen)" by force
  let ?k = "r_ID (rec_resource rec)"
  show ?thesis
  proof (cases "?k = []")
    case True
    then show ?thesis using inv
      by (auto simp: st add_record_def scan_inv_def nth_append less_Suc_eq)
  next
    case False
    show ?thesis
    proof (cases "seen ?k")
      case None
      then have "\<forall>n < length rs. r_ID (rec_resource (rs ! n)) \<noteq> ?k"
        using inv False unfolding scan_inv_def st fst_conv snd_conv by (metis option.distinct(1))
      then show ?thesis using inv False None
        by (auto simp: st add_record_def scan_inv_def nth_append less_Suc_eq)
    next
      case (Some n)
      define rec' where "rec' = (if rs ! n \<noteq> rec then (rs ! n)\<lparr>rec_conflict := True,
          rec_volumes := mergeMappings (rec_volumes (rs ! n)) (rec_volumes rec)\<rparr> else rs ! n)"
      have n: "n < length rs" using inv Some unfolding scan_inv_def st by auto
      then have "add_record [] st rec = (rs[n := rec'], seen)"
        by (auto simp: add_record_def st False Some Let_def rec'_def)
      moreover have "r_ID (rec_resource (rs[n := rec'] ! k)) = r_ID (rec_resource (rs ! k))" for k
        using n by (cases "n = k") (auto simp: rec'_def)
      ultimately show ?thesis using inv unfolding scan_inv_def st by simp
    qed
  qed
qed

lemma foldl_add_record_inv: "scan_inv st \<Longrightarrow> scan_inv (foldl (add_record []) st recs)"
proof (induction recs arbitrary: st)
  case (Cons r recs)
  then show ?case using add_record_inv by simp
qed simp

lemma add_reservations_inv:
  "scan_inv st \<Longrightarrow> add_reservations s [] rvs c st = (c', st') \<Longrightarrow> scan_inv st'"
proof (induction rvs arbitrary: c st)
  case (Cons rv rvs)
  show ?case
    by (rule Cons.IH [OF foldl_add_record_inv [OF Cons.prems(1)]]) (use Cons.prems(2) in simp)
qed simp

lemma scan_pages_inv:
  "scan_inv st \<Longrightarrow> scan_pages E s [] n token tokens st h = (rs, ok, h') \<Longrightarrow> \<exists>seen. scan_inv (rs, seen)"
proof (induction n arbitrary: token tokens st h)
  case 0
  then show ?case by (cases st) auto
next
  case (Suc n)
  let ?h = "DescribeInstances [] token # CtxErr # h"
  obtain c st' where st': "scan_reply s [] (env_instances E (CtxErr # h) [] token) st = (c, st')"
    by (cases "scan_reply s [] (env_instances E (CtxErr # h) [] token) st")
  then have inv': "scan_inv st'"
    using Suc.prems(1) by (auto simp: scan_reply_def split: option.splits intro: add_reservations_inv)
  have "rs = fst st \<or> rs = fst st' \<or>
      (\<exists>token tokens. scan_pages E s [] n token tokens st' ?h = (rs, ok, h'))"
    using Suc.prems(2) by (auto simp: go_defs Let_def st' split: if_splits)
  then show ?case
    using Suc.prems(1) inv' Suc.IH by (metis prod.collapse)
qed

lemma scan_distinct:
  assumes "scan E s [] h = (rs, ok, h')" "i < length rs" "j < length rs"
    "r_ID (rec_resource (rs ! i)) = r_ID (rec_resource (rs ! j))" "r_ID (rec_resource (rs ! i)) \<noteq> []"
  shows "i = j"
proof -
  obtain seen where "scan_inv (rs, seen)"
    using scan_pages_inv [OF scan_inv_empty] assms(1) unfolding scan_def by blast
  then show ?thesis using scan_inv_distinct [of "(rs, seen)" i j] assms(2-5) by simp
qed

subsection \<open>What holds of every scanned record\<close>

definition merge_conflict :: "record_t \<Rightarrow> record_t \<Rightarrow> record_t" where
  "merge_conflict old rec = old\<lparr>rec_conflict := True,
     rec_volumes := mergeMappings (rec_volumes old) (rec_volumes rec)\<rparr>"

lemma set_list_update: "x \<in> set (xs[i := y]) \<Longrightarrow> x \<in> set xs \<or> (x = y \<and> i < length xs)"
  by (metis list_update_beyond not_le insert_iff set_update_subset_insert subsetD)

lemma add_record_all:
  assumes merge: "\<And>old r. P old \<Longrightarrow> P r \<Longrightarrow> P (merge_conflict old r)"
    and "\<forall>r \<in> set (fst st). P r" "P rec" "scan_inv st \<or> iid \<noteq> []"
  shows "\<forall>r \<in> set (fst (add_record iid st rec)). P r"
proof (cases "iid = [] \<and> r_ID (rec_resource rec) \<noteq> []")
  case False
  then show ?thesis using assms by (cases st) (auto simp: add_record_def)
next
  case True
  then have inv: "scan_inv st" using assms(4) by simp
  show ?thesis
  proof (cases "snd st (r_ID (rec_resource rec))")
    case None
    then show ?thesis using assms True by (cases st) (auto simp: add_record_def)
  next
    case (Some n)
    have n: "n < length (fst st)" using inv Some unfolding scan_inv_def by auto
    have "P (merge_conflict (fst st ! n) rec)" using assms n by simp
    then show ?thesis using assms(2) True Some
      by (cases st) (auto simp: add_record_def Let_def merge_conflict_def dest!: set_list_update)
  qed
qed

lemma add_record_ok: "scan_inv st \<or> iid \<noteq> [] \<Longrightarrow> scan_inv (add_record iid st rec) \<or> iid \<noteq> []"
  by (metis add_record_inv)

lemma foldl_add_record_all:
  assumes merge: "\<And>old r. P old \<Longrightarrow> P r \<Longrightarrow> P (merge_conflict old r)"
  shows "\<lbrakk>\<forall>r \<in> set (fst st). P r; \<forall>r \<in> set recs. P r; scan_inv st \<or> iid \<noteq> []\<rbrakk> \<Longrightarrow>
    (\<forall>r \<in> set (fst (foldl (add_record iid) st recs)). P r) \<and>
    (scan_inv (foldl (add_record iid) st recs) \<or> iid \<noteq> [])"
proof (induction recs arbitrary: st)
  case (Cons rec recs)
  have "\<forall>r \<in> set (fst (add_record iid st rec)). P r"
    by (rule add_record_all [where P = P, OF merge]) (use Cons.prems in auto)
  with Cons.IH [of "add_record iid st rec"] Cons.prems add_record_ok show ?case by simp
qed simp

lemma add_reservations_all:
  assumes merge: "\<And>old r. P old \<Longrightarrow> P r \<Longrightarrow> P (merge_conflict old r)" and new: "\<And>ow i. P (record_of s ow i)"
  shows "\<lbrakk>\<forall>r \<in> set (fst st). P r; scan_inv st \<or> iid \<noteq> []\<rbrakk> \<Longrightarrow>
    add_reservations s iid rvs c st = (c', st') \<Longrightarrow>
    (\<forall>r \<in> set (fst st'). P r) \<and> (scan_inv st' \<or> iid \<noteq> [])"
proof (induction rvs arbitrary: c st)
  case (Cons rv rvs)
  let ?st = "foldl (add_record iid) st (map (record_of s (rs_OwnerId rv)) (rs_Instances rv))"
  have "(\<forall>r \<in> set (fst ?st). P r) \<and> (scan_inv ?st \<or> iid \<noteq> [])"
    by (rule foldl_add_record_all [OF merge Cons.prems(1)]) (use new Cons.prems(2) in auto)
  with Cons.IH [of ?st] Cons.prems(3) show ?case by simp
qed simp

lemma scan_pages_all:
  assumes merge: "\<And>old r. P old \<Longrightarrow> P r \<Longrightarrow> P (merge_conflict old r)" and new: "\<And>ow i. P (record_of s ow i)"
  shows "\<lbrakk>\<forall>r \<in> set (fst st). P r; scan_inv st \<or> iid \<noteq> []\<rbrakk> \<Longrightarrow>
    scan_pages E s iid n token tokens st h = (rs, ok, h') \<Longrightarrow> \<forall>r \<in> set rs. P r"
proof (induction n arbitrary: token tokens st h)
  case (Suc n)
  let ?h = "DescribeInstances iid token # CtxErr # h"
  obtain c st' where st': "scan_reply s iid (env_instances E (CtxErr # h) iid token) st = (c, st')"
    by (cases "scan_reply s iid (env_instances E (CtxErr # h) iid token) st")
  have inv': "(\<forall>r \<in> set (fst st'). P r) \<and> (scan_inv st' \<or> iid \<noteq> [])"
  proof (cases "rp_out (env_instances E (CtxErr # h) iid token)")
    case None
    then show ?thesis using st' Suc.prems(1,2) by (simp add: scan_reply_def)
  next
    case (Some out)
    then show ?thesis
      using st' add_reservations_all [where P = P, OF merge new Suc.prems(1,2)]
      by (simp add: scan_reply_def)
  qed
  have "rs = fst st \<or> rs = fst st' \<or>
      (\<exists>token tokens. scan_pages E s iid n token tokens st' ?h = (rs, ok, h'))"
    using Suc.prems(3) by (auto simp: go_defs Let_def st' split: if_splits)
  then show ?case
    using Suc.prems(1) inv' Suc.IH by metis
qed auto

text \<open>No observation claims a deletion: only a volume lookup of a worker does.\<close>

definition fresh_volume :: "volume \<Rightarrow> bool" where
  "fresh_volume v \<longleftrightarrow> v_Deletion v \<noteq> ''deleted'' \<and>
     (v_DeleteOnTermination v = Some True \<longrightarrow> v_Deletion v \<noteq> ''retained'')"

lemma map_blocks_fresh:
  "map_blocks s state rd bs ds is vs bad = (ws, bad') \<Longrightarrow> \<forall>v \<in> set vs. fresh_volume v \<Longrightarrow>
     \<forall>v \<in> set ws. fresh_volume v"
proof (induction bs arbitrary: ds "is" vs bad)
  case (Cons b bs)
  have "fresh_volume (block_volume rd d ebs)" for d ebs
    by (auto simp: block_volume_def fresh_volume_def split: option.splits)
  then have "\<forall>v \<in> set (vs @ [block_volume rd d ebs]). fresh_volume v" for d ebs
    using Cons.prems(2) by auto
  then show ?case using Cons.IH Cons.prems
    by (auto simp: Let_def simp del: set_append split: option.splits if_splits)
qed simp

definition undeleted :: "record_t \<Rightarrow> bool" where
  "undeleted r \<longleftrightarrow> (\<forall>v \<in> set (rec_volumes r). fresh_volume v)"

lemma undeletedD: "undeleted r \<Longrightarrow> v \<in> set (rec_volumes r) \<Longrightarrow> v_Deletion v \<noteq> ''deleted''"
  by (simp add: undeleted_def fresh_volume_def)

lemma record_of_undeleted: "undeleted (record_of s ow i)"
proof -
  define state where "state = r_State (rec_resource (record_of s ow i))"
  define rd where "rd = rec_rootDevice (record_of s ow i)"
  obtain vs bad where m: "map_blocks s state rd (ai_BlockDeviceMappings i) {} {} [] False = (vs, bad)"
    by force
  have "rec_volumes (record_of s ow i) = sort_key (\<lambda>v. (v_ID v, v_Device v)) vs"
    using m by (simp add: state_def rd_def record_of_def Let_def split: prod.splits)
  then show ?thesis using map_blocks_fresh [OF m] by (simp add: undeleted_def)
qed

lemma merge_conflict_undeleted: "undeleted old \<Longrightarrow> undeleted r \<Longrightarrow> undeleted (merge_conflict old r)"
  by (auto simp: undeleted_def merge_conflict_def)

lemma scan_undeleted: "scan E s iid h = (rs, ok, h') \<Longrightarrow> r \<in> set rs \<Longrightarrow> undeleted r"
proof -
  assume sc: "scan E s iid h = (rs, ok, h')" and r: "r \<in> set rs"
  have "\<forall>r \<in> set rs. undeleted r"
    by (rule scan_pages_all [where P = undeleted, OF _ _ _ _ sc [unfolded scan_def]])
      (auto simp: record_of_undeleted scan_inv_empty undeleted_def [symmetric] merge_conflict_undeleted)
  with r show "undeleted r" by blast
qed

lemma exact_undeleted: "exact E s iid h = (Some r, h') \<Longrightarrow> undeleted r"
  using exact_singular scan_undeleted by (metis list.set_intros(1))

end
