(* ===== verification/CleanupWorker.thy ===== *)
theory CleanupWorker
  imports CleanupDiscovery "HOL-Library.Sublist"
begin

text \<open>
  \<^verbatim>\<open>internal/expirycleanup/worker.go\<close> and the worker parts of \<^verbatim>\<open>service.go\<close>: what the service does with
  one selected instance.  \<open>prepare\<close> records the intent, rechecks the instance and may send the one
  termination request; \<open>observe\<close> follows the termination and the deletion of the captured volumes.
  The main lemma, \<open>prepare_terminates\<close>, says when a termination can be sent; \<open>worker_inv\<close> is the
  invariant behind the reported deletion states.
\<close>

section \<open>State\<close>

record worker =
  wk_selected :: decision
  wk_record :: record_t
  wk_outcome :: outcome
  wk_active :: bool
  wk_terminal :: bool
  wk_nextVolume :: nat

definition mk_problem :: "string \<Rightarrow> string \<Rightarrow> problem" where
  "mk_problem iid code = \<lparr>p_ResourceID = iid, p_Code = code, p_Message = code\<rparr>"

definition addProblem :: "outcome \<Rightarrow> string \<Rightarrow> outcome" where
  "addProblem o1 code = o1\<lparr>o_Errors := o_Errors o1 @ [mk_problem (d_InstanceID (o_Decision o1)) code]\<rparr>"

definition benign :: "reason \<Rightarrow> bool" where
  "benign r \<longleftrightarrow> r \<in> {Expired, ExpiryFuture, ExpiryMissing, ExpiryChanged, AlreadyTerminated, AlreadyTerminating}"

definition setRootDiagnostic :: "outcome \<Rightarrow> string \<Rightarrow> outcome" where
  "setRootDiagnostic o1 code =
     o1\<lparr>o_RootDeletion := (if code = ''root_volume_retained'' then ''retained'' else ''unavailable'')\<rparr>"

definition hasProblem :: "outcome \<Rightarrow> string \<Rightarrow> bool" where
  "hasProblem o1 code \<longleftrightarrow> list_ex (\<lambda>p. p_Code p = code) (o_Errors o1)"

definition hasResourceProblem :: "problem list \<Rightarrow> string \<Rightarrow> string \<Rightarrow> bool" where
  "hasResourceProblem errs iid code \<longleftrightarrow> list_ex (\<lambda>p. p_ResourceID p = iid \<and> p_Code p = code) errs"

definition volume_problem :: "problem list \<Rightarrow> string \<Rightarrow> problem list" where
  "volume_problem errs vid =
     (if hasResourceProblem errs vid ''volume_unresolved'' then errs
      else errs @ [mk_problem vid ''volume_unresolved''])"

abbreviation with_outcome :: "worker \<Rightarrow> (outcome \<Rightarrow> outcome) \<Rightarrow> worker" where
  "with_outcome w f \<equiv> w\<lparr>wk_outcome := f (wk_outcome w)\<rparr>"

section \<open>Evidence\<close>

text \<open>\<open>emit\<close>: the sink sees nothing once the context has ended or the clock is unusable.\<close>

definition emit :: "env \<Rightarrow> service \<Rightarrow> string \<Rightarrow> string \<Rightarrow> outcome option \<Rightarrow> result option \<Rightarrow> hist \<Rightarrow> bool \<times> hist" where
  "emit E s runID kind oo rr h =
     (let (ended, h) = ctx_err E h in
      if ended then (False, h)
      else let (t, h) = now E h in
        case Timestamp t of
          Inl _ \<Rightarrow> (False, h)
        | Inr timestamp \<Rightarrow>
            let e = \<lparr>e_SchemaVersion = 1, e_RunID = runID, e_Kind = kind, e_Scope = sv_scope s,
                     e_EmittedAt = timestamp, e_Instance = oo, e_Summary = rr\<rparr>
            in (env_emit E h e, Emit e # h))"

section \<open>Preparation and dispatch\<close>

definition exactAcknowledgement :: "state_change list option \<Rightarrow> string \<Rightarrow> bool" where
  "exactAcknowledgement out iid =
     (case out of
        Some [change] \<Rightarrow>
          if aws_to_string (sc_InstanceId change) \<noteq> iid
             \<or> \<not> validInstanceState (sc_CurrentState change)
             \<or> \<not> validInstanceState (sc_PreviousState change) then False
          else (case sc_CurrentState change of
                  None \<Rightarrow> False
                | Some st \<Rightarrow> is_Name st = ''shutting-down'' \<or> is_Name st = ''terminated'')
      | _ \<Rightarrow> False)"

text \<open>The single termination request, and what its answer leaves in the outcome.\<close>

definition dispatch_termination :: "env \<Rightarrow> worker \<Rightarrow> hist \<Rightarrow> worker \<times> hist" where
  "dispatch_termination E w h =
     (let (ended, h) = ctx_err E h in
      if ended then (with_outcome w (\<lambda>o1. addProblem o1 ''interrupted''), h)
      else
        let iid = d_InstanceID (wk_selected w);
            r = env_terminate E h iid;
            h = TerminateInstances iid # h
        in if has_code (rp_err r) [''UnauthorizedOperation'', ''AuthFailure'', ''AccessDenied'', ''AccessDeniedException'']
           then (with_outcome w (\<lambda>o1. addProblem (o1\<lparr>o_Status := ''termination_denied''\<rparr>) ''termination_denied''), h)
           else if has_code (rp_err r) [''OperationNotPermitted'', ''Client.OperationNotPermitted'']
           then (with_outcome w (\<lambda>o1. addProblem (o1\<lparr>o_Status := ''termination_denied''\<rparr>) ''termination_protected''), h)
           else
             let status = (if rp_err r = None \<and> \<not> rp_ctx r \<and> exactAcknowledgement (rp_out r) iid
                           then ''termination_requested'' else ''termination_unknown'')
             in (with_outcome w (\<lambda>o1. o1\<lparr>o_Status := status\<rparr>)\<lparr>wk_active := True\<rparr>, h))"

text \<open>The decision on the fresh read.\<close>

definition recheck_worker :: "service \<Rightarrow> worker \<Rightarrow> record_t \<Rightarrow> gotime \<Rightarrow> decision" where
  "recheck_worker s w current t =
     (if d_Eligible (wk_selected w) then Recheck (sv_scope s) (wk_selected w) (rec_resource current) t
      else let d = Evaluate (sv_scope s) (rec_resource current) t in
        if d_ExpiresAt d \<noteq> None \<and> d_ExpiresAt (wk_selected w) \<noteq> None
           \<and> d_ExpiresAt d \<noteq> d_ExpiresAt (wk_selected w)
        then d\<lparr>d_Eligible := False, d_Reason := ExpiryChanged\<rparr> else d)"

definition set_decision_state :: "outcome \<Rightarrow> string \<Rightarrow> outcome" where
  "set_decision_state o1 st = o1\<lparr>o_Decision := (o_Decision o1)\<lparr>d_State := st\<rparr>\<rparr>"

definition set_skipped :: "outcome \<Rightarrow> reason \<Rightarrow> outcome" where
  "set_skipped o1 r = o1\<lparr>o_Status := ''skipped'',
     o_Decision := (o_Decision o1)\<lparr>d_Eligible := False, d_Reason := r\<rparr>\<rparr>"

text \<open>From the fresh decision to a skip, an observation, or the dispatch.\<close>

definition act_on_decision :: "env \<Rightarrow> worker \<Rightarrow> record_t \<Rightarrow> decision \<Rightarrow> hist \<Rightarrow> worker \<times> hist" where
  "act_on_decision E w current d h =
     (let w = with_outcome w (\<lambda>o1. set_decision_state o1 (d_State d)) in
      if \<not> d_Eligible d \<and> d_Reason d \<noteq> AlreadyTerminated \<and> d_Reason d \<noteq> AlreadyTerminating
      then (with_outcome w (\<lambda>o1.
              let o2 = set_skipped o1 (d_Reason d)
              in if \<not> benign (d_Reason d) then addProblem o2 (reason_string (d_Reason d)) else o2), h)
      else
        let w = (if d_Reason d = AlreadyTerminated
                 then with_outcome w (\<lambda>o1. o1\<lparr>o_Status := ''already_terminated''\<rparr>)\<lparr>wk_terminal := True\<rparr>
                 else w)
        in if \<not> consistentMappings (wk_record w) current
           then (with_outcome w (\<lambda>o1.
                   (addProblem (o1\<lparr>o_Volumes := mergeMappings (o_Volumes o1) (rec_volumes current)\<rparr>)
                     ''root_volume_unverified'')\<lparr>o_RootDeletion := ''unavailable''\<rparr>), h)
           else if d_Reason d = AlreadyTerminated
           then (if historicalMappingsAbsent (wk_record w) (d_Reason (wk_selected w))
                 then (if \<not> historicalMappingsAbsent current (d_Reason d)
                       then with_outcome w (\<lambda>o1. addProblem o1 ''root_volume_unverified'') else w, h)
                 else (w\<lparr>wk_active := True\<rparr>, h))
           else if d_Reason d = AlreadyTerminating
           then (with_outcome w (\<lambda>o1. o1\<lparr>o_Status := ''already_terminating''\<rparr>)\<lparr>wk_active := True\<rparr>, h)
           else if \<not> d_Eligible (wk_selected w)
           then (with_outcome w (\<lambda>o1. addProblem o1 ''resource_unverified''), h)
           else dispatch_termination E w h)"

definition prepare :: "env \<Rightarrow> service \<Rightarrow> string \<Rightarrow> worker \<Rightarrow> hist \<Rightarrow> worker \<times> hist" where
  "prepare E s runID w h =
     (let historical = historicalMappingsAbsent (wk_record w) (d_Reason (wk_selected w));
          code = rootProblem (wk_record w);
          blocked = (code \<noteq> [] \<and> \<not> historical);
          w = (if blocked then with_outcome w (\<lambda>o1. setRootDiagnostic (addProblem o1 code) code) else w)
      in if blocked \<and> d_Eligible (wk_selected w) then (w, h)
         else
           let (ok, h) = (if d_Eligible (wk_selected w)
                          then emit E s runID ''termination_prepared'' (Some (wk_outcome w)) None h
                          else (True, h))
           in if \<not> ok then (with_outcome w (\<lambda>o1. addProblem o1 ''evidence_unavailable''), h)
              else (case exact E s (d_InstanceID (wk_selected w)) h of
                      (None, h) \<Rightarrow> (with_outcome w (\<lambda>o1. addProblem o1 ''resource_unverified''), h)
                    | (Some current, h) \<Rightarrow>
                        let (t, h) = now E h
                        in act_on_decision E w current (recheck_worker s w current t) h))"

section \<open>Observation\<close>

fun resolve_volumes :: "volume list \<Rightarrow> problem list \<Rightarrow> string \<Rightarrow> volume list \<times> problem list \<times> string" where
  "resolve_volumes [] errs root = ([], errs, root)"
| "resolve_volumes (v # vs) errs root =
     (if v_Deletion v \<noteq> ''deleted'' \<and> v_Deletion v \<noteq> ''retained''
      then (case resolve_volumes vs (volume_problem errs (v_ID v))
                   (if v_Root v then ''unavailable'' else root) of
              (vs', errs', root') \<Rightarrow> (v\<lparr>v_Deletion := ''unavailable''\<rparr> # vs', errs', root'))
      else (case resolve_volumes vs errs root of (vs', errs', root') \<Rightarrow> (v # vs', errs', root')))"

definition unresolvedVolumes :: "outcome \<Rightarrow> outcome" where
  "unresolvedVolumes o1 =
     (case resolve_volumes (o_Volumes o1) (o_Errors o1) (o_RootDeletion o1) of
        (vs, errs, root) \<Rightarrow> o1\<lparr>o_Volumes := vs, o_Errors := errs, o_RootDeletion := root\<rparr>)"

text \<open>What the lookup of one volume establishes.\<close>

definition volume_deleted :: "env \<Rightarrow> service \<Rightarrow> string \<Rightarrow> hist \<Rightarrow> bool" where
  "volume_deleted E s vid h =
     (case describeVolumes E vid h of (out, err, _) \<Rightarrow>
        (has_code err [''InvalidVolume.NotFound''] \<and> out = None) \<or>
        (err = None \<and> exactVolume E s out vid \<and>
           (case out of Some reply \<Rightarrow> av_State (hd (dv_Volumes reply)) = ''deleted'' | None \<Rightarrow> False)))"

text \<open>The rotation: the first volume from \<open>next\<close> that needs a lookup gets it and ends the turn.\<close>

fun volume_turn :: "env \<Rightarrow> service \<Rightarrow> bool \<Rightarrow> nat \<Rightarrow> nat \<Rightarrow> nat \<Rightarrow> outcome \<Rightarrow> hist \<Rightarrow> outcome \<times> nat \<times> hist" where
  "volume_turn E s bad next step 0 o1 h = (o1, next, h)"
| "volume_turn E s bad next step (Suc left) o1 h =
     (let n = length (o_Volumes o1); i = (next + step) mod n; v = o_Volumes o1 ! i in
      if v_Deletion v = ''deleted'' \<or> v_Deletion v = ''retained''
      then volume_turn E s bad next (Suc step) left o1 h
      else if v_DeleteOnTermination v = None
      then volume_turn E s bad next (Suc step) left
             (o1\<lparr>o_Volumes := (o_Volumes o1)[i := v\<lparr>v_Deletion := ''unavailable''\<rparr>],
                o_Errors := volume_problem (o_Errors o1) (v_ID v)\<rparr>) h
      else if v_DeleteOnTermination v = Some False
      then volume_turn E s bad next (Suc step) left
             (o1\<lparr>o_Volumes := (o_Volumes o1)[i := v\<lparr>v_Deletion := ''retained''\<rparr>]\<rparr>) h
      else if bad
      then volume_turn E s bad next (Suc step) left
             (o1\<lparr>o_Volumes := (o_Volumes o1)[i := v\<lparr>v_Deletion := ''unavailable''\<rparr>]\<rparr>) h
      else (if volume_deleted E s (v_ID v) h
            then o1\<lparr>o_Volumes := (o_Volumes o1)[i := v\<lparr>v_Deletion := ''deleted''\<rparr>]\<rparr> else o1,
            (i + 1) mod n, DescribeVolumes (v_ID v) # h))"

definition volume_pending :: "bool \<Rightarrow> volume \<Rightarrow> bool" where
  "volume_pending bad v \<longleftrightarrow> v_DeleteOnTermination v = Some True \<and> \<not> bad \<and> v_Deletion v \<noteq> ''deleted''"

text \<open>The last root volume of the list names the reported root deletion.\<close>

definition root_deletion :: "volume list \<Rightarrow> string \<Rightarrow> string" where
  "root_deletion vs dflt = foldl (\<lambda>acc v. if v_Root v then v_Deletion v else acc) dflt vs"

definition observe_volumes :: "env \<Rightarrow> service \<Rightarrow> worker \<Rightarrow> hist \<Rightarrow> worker \<times> hist" where
  "observe_volumes E s w h =
     (let code = rootProblem (wk_record w);
          bad = rec_badMapping (wk_record w);
          o1 = (if code \<noteq> []
                then (let o1 = setRootDiagnostic (wk_outcome w) code
                      in if hasProblem o1 code then o1 else addProblem o1 code)
                else wk_outcome w);
          (o1, next, h) = volume_turn E s bad (wk_nextVolume w) 0 (length (o_Volumes o1)) o1 h;
          pending = list_ex (volume_pending bad) (o_Volumes o1);
          o1 = (if code = [] then o1\<lparr>o_RootDeletion := root_deletion (o_Volumes o1) (o_RootDeletion o1)\<rparr> else o1);
          o1 = (if pending then o1 else unresolvedVolumes o1)
      in (w\<lparr>wk_outcome := o1, wk_nextVolume := next, wk_active := pending\<rparr>, h))"

definition observe :: "env \<Rightarrow> service \<Rightarrow> worker \<Rightarrow> hist \<Rightarrow> worker \<times> hist" where
  "observe E s w h =
     (let (ended, h) = ctx_err E h in
      if ended then (w, h)
      else if wk_terminal w then observe_volumes E s w h
      else (case exact E s (d_InstanceID (wk_selected w)) h of
              (None, h) \<Rightarrow> (w, h)
            | (Some current, h) \<Rightarrow>
                let (t, h) = now E h; d = Evaluate (sv_scope s) (rec_resource current) t in
                if d_Reason d \<noteq> AlreadyTerminated then (w, h)
                else if d_ExpiresAt d = None \<or> d_ExpiresAt (wk_selected w) = None
                        \<or> d_ExpiresAt d \<noteq> d_ExpiresAt (wk_selected w) then (w, h)
                else if \<not> consistentMappings (wk_record w) current
                then (with_outcome w (\<lambda>o1.
                        (set_decision_state
                          (addProblem (o1\<lparr>o_Volumes := mergeMappings (o_Volumes o1) (rec_volumes current)\<rparr>)
                            ''root_volume_unverified'') ''terminated'')
                        \<lparr>o_RootDeletion := ''unavailable'', o_Status := ''termination_observed''\<rparr>)
                      \<lparr>wk_terminal := True, wk_active := False\<rparr>, h)
                else observe_volumes E s
                       (with_outcome w (\<lambda>o1. (set_decision_state o1 ''terminated'')
                          \<lparr>o_Status := ''termination_observed''\<rparr>)\<lparr>wk_terminal := True\<rparr>) h))"

section \<open>Which calls are made\<close>

fun terminations :: "hist \<Rightarrow> string list" where
  "terminations [] = []"
| "terminations (TerminateInstances iid # h) = iid # terminations h"
| "terminations (c # h) = terminations h"

lemma terminations_append: "terminations (d @ h) = terminations d @ terminations h"
  by (induction d rule: terminations.induct) auto

lemma terminations_reads: "\<forall>c \<in> set d. read_call c \<Longrightarrow> terminations d = []"
  by (induction d rule: terminations.induct) auto

lemma reads_only_terminations: "reads_only h h' \<Longrightarrow> terminations h' = terminations h"
  by (auto simp: reads_only_def terminations_append terminations_reads)

lemma reads_only_suffix: "reads_only h h' \<Longrightarrow> suffix h h'"
  by (auto simp: reads_only_def suffix_def)

lemma emit_cases:
  assumes "emit E s runID kind oo rr h = (ok, h')"
  obtains (ended) "env_ctx E h" "\<not> ok" "h' = CtxErr # h"
  | (clock) "\<not> env_ctx E h" "\<not> ok" "h' = Now # CtxErr # h"
  | (sent) e where "\<not> env_ctx E h" "e_Kind e = kind" "e_Instance e = oo" "e_Summary e = rr"
      "e_RunID e = runID" "e_Scope e = sv_scope s" "ok = env_emit E (Now # CtxErr # h) e"
      "h' = Emit e # Now # CtxErr # h"
proof (cases "env_ctx E h")
  case True
  with assms ended show ?thesis by (simp add: emit_def ctx_err_def)
next
  case live: False
  show ?thesis
  proof (cases "Timestamp (env_now E (CtxErr # h))")
    case (Inl r)
    with assms live clock show ?thesis by (simp add: emit_def ctx_err_def now_def)
  next
    case (Inr ts)
    with assms live show ?thesis by (auto simp: emit_def ctx_err_def now_def Let_def intro!: sent)
  qed
qed

lemma emit_terminations [calls]: "emit E s runID kind oo rr h = (ok, h') \<Longrightarrow> terminations h' = terminations h"
  by (erule emit_cases) auto

lemma emit_suffix: "emit E s runID kind oo rr h = (ok, h') \<Longrightarrow> suffix h h'"
  by (erule emit_cases) (auto simp: suffix_def)

lemma dispatch_cases:
  assumes "dispatch_termination E w h = (w', h')"
  obtains (ended) "env_ctx E h" "h' = CtxErr # h"
  | (sent) "\<not> env_ctx E h" "h' = TerminateInstances (d_InstanceID (wk_selected w)) # CtxErr # h"
proof (cases "env_ctx E h")
  case True
  with assms ended show ?thesis by (simp add: dispatch_termination_def ctx_err_def)
next
  case False
  with assms sent show ?thesis
    by (simp add: dispatch_termination_def ctx_err_def Let_def split: if_splits)
qed

lemma act_on_decision_cases:
  assumes "act_on_decision E w current d h = (w', h')"
  obtains (quiet) "h' = h"
  | (dispatch) w1 where "d_Eligible d" "d_Eligible (wk_selected w)" "consistentMappings (wk_record w) current"
      "dispatch_termination E w1 h = (w', h')" "wk_selected w1 = wk_selected w" "wk_record w1 = wk_record w"
proof -
  let ?w1 = "with_outcome w (\<lambda>o1. set_decision_state o1 (d_State d))"
  let ?w2 = "if d_Reason d = AlreadyTerminated
      then with_outcome ?w1 (\<lambda>o1. o1\<lparr>o_Status := ''already_terminated''\<rparr>)\<lparr>wk_terminal := True\<rparr> else ?w1"
  have "h' = h \<or> (d_Eligible d \<and> d_Eligible (wk_selected w) \<and> consistentMappings (wk_record w) current \<and>
      dispatch_termination E ?w2 h = (w', h'))"
    using assms unfolding act_on_decision_def Let_def by (auto split: if_splits)
  then show ?thesis using quiet dispatch [of ?w2] by auto
qed

lemma recheck_worker_ID: "d_Eligible (wk_selected w) \<Longrightarrow>
    recheck_worker s w current t = Recheck (sv_scope s) (wk_selected w) (rec_resource current) t"
  by (simp add: recheck_worker_def)

text \<open>When \<open>prepare\<close> sends a termination: after an acknowledged intent, on a fresh exact read that
  the recheck confirms at a clock sample taken after it, with the mappings captured by the scan.\<close>

definition termination_authorized :: "env \<Rightarrow> service \<Rightarrow> worker \<Rightarrow> hist \<Rightarrow> hist \<Rightarrow> bool" where
  "termination_authorized E s w h h' \<longleftrightarrow>
     (\<exists>e current g. let iid = d_InstanceID (wk_selected w) in
        e_Kind e = ''termination_prepared'' \<and> e_Scope e = sv_scope s \<and>
        (\<exists>o1. e_Instance e = Some o1) \<and> env_emit E (Now # CtxErr # h) e \<and>
        exact E s iid (Emit e # Now # CtxErr # h) = (Some current, g) \<and>
        d_Eligible (Recheck (sv_scope s) (wk_selected w) (rec_resource current) (env_now E g)) \<and>
        rootProblem (wk_record w) = [] \<and> sameMappings (wk_record w) current \<and>
        \<not> env_ctx E (Now # g) \<and> h' = TerminateInstances iid # CtxErr # Now # g)"

lemma recheck_live: "d_Eligible (Recheck sc sel r t) \<Longrightarrow> r_State r \<noteq> ''terminated'' \<and> d_Reason sel = Expired"
  by (auto simp: Recheck_eligible Evaluate_eligible_iff live_states_def)

lemma prepare_terminates:
  assumes "prepare E s runID w h = (w', h')"
  shows "terminations h' = terminations h \<or>
    (terminations h' = d_InstanceID (wk_selected w) # terminations h \<and> termination_authorized E s w h h')"
proof -
  let ?iid = "d_InstanceID (wk_selected w)"
  let ?historical = "historicalMappingsAbsent (wk_record w) (d_Reason (wk_selected w))"
  let ?code = "rootProblem (wk_record w)"
  let ?blocked = "?code \<noteq> [] \<and> \<not> ?historical"
  define w1 where "w1 = (if ?blocked then with_outcome w (\<lambda>o1. setRootDiagnostic (addProblem o1 ?code) ?code) else w)"
  have w1: "wk_selected w1 = wk_selected w" "wk_record w1 = wk_record w" by (simp_all add: w1_def)
  show ?thesis
  proof (cases "?blocked \<and> d_Eligible (wk_selected w)")
    case True
    with assms show ?thesis by (auto simp: prepare_def Let_def)
  next
    case nb: False
    obtain ok h1 where em: "(if d_Eligible (wk_selected w)
        then emit E s runID ''termination_prepared'' (Some (wk_outcome w1)) None h else (True, h)) = (ok, h1)"
      by force
    have t1: "terminations h1 = terminations h"
      using em by (auto split: if_splits dest: emit_terminations)
    show ?thesis
    proof (cases ok)
      case False
      then have "h' = h1" using assms nb em
        unfolding prepare_def Let_def w1_def [symmetric] w1 by (auto split: if_splits)
      with t1 show ?thesis by simp
    next
      case ok: True
      obtain r g where ex: "exact E s ?iid h1 = (r, g)" by force
      have t2: "terminations g = terminations h1" using exact_reads [OF ex] by (rule reads_only_terminations)
      show ?thesis
      proof (cases r)
        case None
        then have "h' = g" using assms nb em ok ex
          unfolding prepare_def Let_def w1_def [symmetric] w1 by (auto split: if_splits)
        with t1 t2 show ?thesis by simp
      next
        case (Some current)
        let ?d = "recheck_worker s w1 current (env_now E g)"
        have act: "act_on_decision E w1 current ?d (Now # g) = (w', h')"
          using assms nb em ok ex Some
          unfolding prepare_def Let_def w1_def [symmetric] w1 by (auto simp: now_def split: if_splits)
        then show ?thesis
        proof (cases rule: act_on_decision_cases)
          case quiet
          with t1 t2 show ?thesis by simp
        next
          case (dispatch w2)
          have sel: "d_Eligible (wk_selected w)" using dispatch(2) w1 by simp
          have d: "?d = Recheck (sv_scope s) (wk_selected w) (rec_resource current) (env_now E g)"
            using recheck_worker_ID [of w1] sel w1 by simp
          have rp: "?code = []"
            using nb sel recheck_live [OF dispatch(1) [unfolded d]]
            by (auto simp: historicalMappingsAbsent_def)
          have same: "sameMappings (wk_record w) current"
            using consistentMappings_live [OF dispatch(3)] recheck_live [OF dispatch(1) [unfolded d]] w1 by simp
          have "emit E s runID ''termination_prepared'' (Some (wk_outcome w1)) None h = (ok, h1)"
            using em sel by simp
          then obtain e where e: "e_Kind e = ''termination_prepared''" "e_Scope e = sv_scope s"
              "e_Instance e = Some (wk_outcome w1)" "ok = env_emit E (Now # CtxErr # h) e"
              "h1 = Emit e # Now # CtxErr # h"
            by (rule emit_cases) (use ok in auto)
          from dispatch(4) show ?thesis
          proof (cases rule: dispatch_cases)
            case ended
            with t1 t2 show ?thesis by simp
          next
            case sent
            then have "terminations h' = ?iid # terminations h" using t1 t2 dispatch(5) w1 by simp
            moreover have "termination_authorized E s w h h'"
              unfolding termination_authorized_def Let_def
              using e ok ex Some d dispatch(1,5) rp same sent w1 by auto
            ultimately show ?thesis by blast
          qed
        qed
      qed
    qed
  qed
qed

lemma volume_turn_reads: "volume_turn E s bad nx st left o1 h = (o2, nx', h') \<Longrightarrow> reads_only h h'"
proof (induction left arbitrary: st o1)
  case (Suc left)
  then show ?case
    by (auto simp: Let_def split: if_splits intro: reads_only_Cons reads_only_refl)
qed (simp add: reads_only_refl)

lemma observe_volumes_reads: "observe_volumes E s w h = (w', h') \<Longrightarrow> reads_only h h'"
  by (auto simp: observe_volumes_def Let_def split: prod.splits dest!: volume_turn_reads)

lemma observe_reads [calls]:
  assumes "observe E s w h = (w', h')"
  shows "reads_only h h'"
proof -
  have c: "reads_only h (CtxErr # h)" by (simp add: reads_only_Cons reads_only_refl)
  have n: "reads_only h (Now # g)" if "exact E s i (CtxErr # h) = (r, g)" for i r g
    using c exact_reads [OF that] by (metis read_call.simps(2) reads_only_Cons reads_only_trans)
  show ?thesis
    using assms c n unfolding observe_def go_defs Let_def
    by (auto split: if_splits prod.splits option.splits dest!: observe_volumes_reads
        intro: reads_only_trans exact_reads)
qed

section \<open>The evidence behind a reported deletion\<close>

text \<open>\<open>terminal_seen\<close>: some exact read of the instance was evaluated as already terminated.
  \<open>volume_gone\<close>: some lookup of the volume, made in the history, established its deletion.\<close>

definition terminal_seen :: "env \<Rightarrow> service \<Rightarrow> string \<Rightarrow> hist \<Rightarrow> bool" where
  "terminal_seen E s iid h \<longleftrightarrow>
     (\<exists>g current g'. exact E s iid g = (Some current, g') \<and> suffix (Now # g') h \<and>
        d_Reason (Evaluate (sv_scope s) (rec_resource current) (env_now E g')) = AlreadyTerminated)"

definition volume_gone :: "env \<Rightarrow> service \<Rightarrow> string \<Rightarrow> hist \<Rightarrow> bool" where
  "volume_gone E s vid h \<longleftrightarrow> (\<exists>g. suffix (DescribeVolumes vid # g) h \<and> volume_deleted E s vid g)"

definition volumes_inv :: "env \<Rightarrow> service \<Rightarrow> bool \<Rightarrow> bool \<Rightarrow> volume list \<Rightarrow> hist \<Rightarrow> bool" where
  "volumes_inv E s terminal bad vs h \<longleftrightarrow>
     (\<forall>v \<in> set vs. v_Deletion v = ''deleted'' \<longrightarrow>
        terminal \<and> \<not> bad \<and> v_DeleteOnTermination v = Some True \<and> volume_gone E s (v_ID v) h)"

definition root_inv :: "record_t \<Rightarrow> outcome \<Rightarrow> bool" where
  "root_inv r o1 \<longleftrightarrow> (o_RootDeletion o1 = ''deleted'' \<longrightarrow>
     rootProblem r = [] \<and> (\<exists>v \<in> set (o_Volumes o1). v_Root v \<and> v_Deletion v = ''deleted''))"

definition worker_inv :: "env \<Rightarrow> service \<Rightarrow> hist \<Rightarrow> worker \<Rightarrow> bool" where
  "worker_inv E s h w \<longleftrightarrow>
     (wk_terminal w \<longrightarrow> terminal_seen E s (d_InstanceID (wk_selected w)) h) \<and>
     volumes_inv E s (wk_terminal w) (rec_badMapping (wk_record w)) (o_Volumes (wk_outcome w)) h \<and>
     root_inv (wk_record w) (wk_outcome w) \<and>
     d_InstanceID (o_Decision (wk_outcome w)) = d_InstanceID (wk_selected w)"

lemma suffix_step: "suffix h h' \<Longrightarrow> suffix a h \<Longrightarrow> suffix a h'"
  by (rule suffix_order.trans)

lemma terminal_seen_mono: "terminal_seen E s i h \<Longrightarrow> suffix h h' \<Longrightarrow> terminal_seen E s i h'"
  unfolding terminal_seen_def by (blast intro: suffix_step)

lemma volume_gone_mono: "volume_gone E s i h \<Longrightarrow> suffix h h' \<Longrightarrow> volume_gone E s i h'"
  unfolding volume_gone_def by (blast intro: suffix_step)

lemma volumes_inv_mono: "volumes_inv E s t b vs h \<Longrightarrow> suffix h h' \<Longrightarrow> volumes_inv E s t b vs h'"
  unfolding volumes_inv_def by (blast intro: volume_gone_mono)

lemma worker_inv_mono: "worker_inv E s h w \<Longrightarrow> suffix h h' \<Longrightarrow> worker_inv E s h' w"
  unfolding worker_inv_def by (blast intro: terminal_seen_mono volumes_inv_mono)

lemma addProblem_fields [simp]:
  "o_Volumes (addProblem o1 c) = o_Volumes o1" "o_RootDeletion (addProblem o1 c) = o_RootDeletion o1"
  "o_Decision (addProblem o1 c) = o_Decision o1" "o_Status (addProblem o1 c) = o_Status o1"
  by (simp_all add: addProblem_def)

lemma setRootDiagnostic_fields [simp]:
  "o_Volumes (setRootDiagnostic o1 c) = o_Volumes o1" "o_RootDeletion (setRootDiagnostic o1 c) \<noteq> ''deleted''"
  "o_Decision (setRootDiagnostic o1 c) = o_Decision o1"
  by (simp_all add: setRootDiagnostic_def)

lemma set_decision_state_fields [simp]:
  "o_Volumes (set_decision_state o1 c) = o_Volumes o1"
  "o_RootDeletion (set_decision_state o1 c) = o_RootDeletion o1"
  "d_InstanceID (o_Decision (set_decision_state o1 c)) = d_InstanceID (o_Decision o1)"
  by (simp_all add: set_decision_state_def)

lemma set_skipped_fields [simp]:
  "o_Volumes (set_skipped o1 c) = o_Volumes o1" "o_RootDeletion (set_skipped o1 c) = o_RootDeletion o1"
  "d_InstanceID (o_Decision (set_skipped o1 c)) = d_InstanceID (o_Decision o1)"
  by (simp_all add: set_skipped_def)

subsection \<open>Preparation keeps it\<close>

lemma dispatch_inv:
  assumes "worker_inv E s h w" "dispatch_termination E w h = (w', h')"
  shows "worker_inv E s h' w'"
proof -
  have "suffix h h'" using assms(2) by (cases rule: dispatch_cases) (auto simp: suffix_def)
  then have "worker_inv E s h' w" using assms(1) worker_inv_mono by blast
  moreover have "wk_terminal w' = wk_terminal w" "wk_selected w' = wk_selected w" "wk_record w' = wk_record w"
    "o_Volumes (wk_outcome w') = o_Volumes (wk_outcome w)"
    "o_RootDeletion (wk_outcome w') = o_RootDeletion (wk_outcome w)"
    "o_Decision (wk_outcome w') = o_Decision (wk_outcome w)"
    using assms(2) unfolding dispatch_termination_def ctx_err_def Let_def
    by (auto split: if_splits)
  ultimately show ?thesis by (simp add: worker_inv_def root_inv_def)
qed

lemma recheck_worker_terminated:
  "d_Reason (recheck_worker s w current t) = AlreadyTerminated \<Longrightarrow>
     d_Reason (Evaluate (sv_scope s) (rec_resource current) t) = AlreadyTerminated"
  by (auto simp: recheck_worker_def Recheck_def Let_def split: if_splits)

lemma act_on_decision_inv:
  assumes inv: "worker_inv E s h w" and act: "act_on_decision E w current d h = (w', h')"
    and seen: "d_Reason d = AlreadyTerminated \<Longrightarrow> terminal_seen E s (d_InstanceID (wk_selected w)) h"
    and fresh: "undeleted current"
  shows "worker_inv E s h' w'"
proof -
  define w1 where "w1 = with_outcome w (\<lambda>o1. set_decision_state o1 (d_State d))"
  define w2 where "w2 = (if d_Reason d = AlreadyTerminated
      then with_outcome w1 (\<lambda>o1. o1\<lparr>o_Status := ''already_terminated''\<rparr>)\<lparr>wk_terminal := True\<rparr> else w1)"
  have i1: "worker_inv E s h w1" using inv by (simp add: w1_def worker_inv_def root_inv_def)
  have i2: "worker_inv E s h w2" using i1 seen
    by (auto simp: w2_def w1_def worker_inv_def root_inv_def volumes_inv_def)
  have merged: "worker_inv E s h (with_outcome w2 (\<lambda>o1.
      (addProblem (o1\<lparr>o_Volumes := mergeMappings (o_Volumes o1) (rec_volumes current)\<rparr>) c)
        \<lparr>o_RootDeletion := ''unavailable''\<rparr>))" for c
    using i2 by (auto simp: worker_inv_def root_inv_def volumes_inv_def dest: undeletedD [OF fresh])
  note act = act [unfolded act_on_decision_def Let_def, folded w1_def, folded w2_def]
  consider (skip) "\<not> d_Eligible d" "d_Reason d \<noteq> AlreadyTerminated" "d_Reason d \<noteq> AlreadyTerminating"
    | (bad) "d_Eligible d \<or> d_Reason d = AlreadyTerminated \<or> d_Reason d = AlreadyTerminating"
        "\<not> consistentMappings (wk_record w2) current"
    | (good) "d_Eligible d \<or> d_Reason d = AlreadyTerminated \<or> d_Reason d = AlreadyTerminating"
        "consistentMappings (wk_record w2) current" by blast
  then show ?thesis
  proof cases
    case skip
    then have "h' = h" "w' = with_outcome w1 (\<lambda>o1. let o2 = set_skipped o1 (d_Reason d)
        in if \<not> benign (d_Reason d) then addProblem o2 (reason_string (d_Reason d)) else o2)"
      using act by (simp_all add: Let_def)
    then show ?thesis using i1 by (simp add: Let_def worker_inv_def root_inv_def)
  next
    case bad
    then have "h' = h" "w' = with_outcome w2 (\<lambda>o1. (addProblem (o1\<lparr>o_Volumes :=
        mergeMappings (o_Volumes o1) (rec_volumes current)\<rparr>) ''root_volume_unverified'')
        \<lparr>o_RootDeletion := ''unavailable''\<rparr>)"
      using act by auto
    then show ?thesis using merged by simp
  next
    case good
    then have "(w', h') = (w2, h) \<or>
        (w', h') = (with_outcome w2 (\<lambda>o1. addProblem o1 ''root_volume_unverified''), h) \<or>
        (w', h') = (w2\<lparr>wk_active := True\<rparr>, h) \<or>
        (w', h') = (with_outcome w2 (\<lambda>o1. o1\<lparr>o_Status := ''already_terminating''\<rparr>)\<lparr>wk_active := True\<rparr>, h) \<or>
        (w', h') = (with_outcome w2 (\<lambda>o1. addProblem o1 ''resource_unverified''), h) \<or>
        dispatch_termination E w2 h = (w', h')"
      using act by (simp split: if_splits)
    then show ?thesis
      using i2 dispatch_inv [OF i2]
      by (elim disjE) (simp_all add: worker_inv_def root_inv_def)
  qed
qed

lemma prepare_inv:
  assumes inv: "worker_inv E s h w" and pr: "prepare E s runID w h = (w', h')"
  shows "worker_inv E s h' w'"
proof -
  let ?iid = "d_InstanceID (wk_selected w)"
  let ?code = "rootProblem (wk_record w)"
  let ?blocked = "?code \<noteq> [] \<and> \<not> historicalMappingsAbsent (wk_record w) (d_Reason (wk_selected w))"
  define w1 where "w1 = (if ?blocked then with_outcome w (\<lambda>o1. setRootDiagnostic (addProblem o1 ?code) ?code) else w)"
  have w1: "wk_selected w1 = wk_selected w" "wk_record w1 = wk_record w" by (simp_all add: w1_def)
  have i1: "worker_inv E s h w1" using inv by (simp add: w1_def worker_inv_def root_inv_def)
  have note_problem: "worker_inv E s g (with_outcome w1 (\<lambda>o1. addProblem o1 c))" if "suffix h g" for g c
    using worker_inv_mono [OF i1 that] by (simp add: worker_inv_def root_inv_def)
  obtain ok h1 where em: "(if d_Eligible (wk_selected w)
      then emit E s runID ''termination_prepared'' (Some (wk_outcome w1)) None h else (True, h)) = (ok, h1)"
    by force
  have s1: "suffix h h1" using em by (auto split: if_splits dest: emit_suffix)
  obtain r g where ex: "exact E s ?iid h1 = (r, g)" by force
  have s2: "suffix h g" using s1 reads_only_suffix [OF exact_reads [OF ex]] by (rule suffix_order.trans)
  show ?thesis
  proof (cases r)
    case None
    then show ?thesis using pr em ex i1 note_problem [OF s1] note_problem [OF s2]
      unfolding prepare_def Let_def w1_def [symmetric] w1 by (auto split: if_splits)
  next
    case (Some current)
    let ?d = "recheck_worker s w1 current (env_now E g)"
    have s3: "suffix h (Now # g)" using s2 by (simp add: suffix_Cons)
    have act: "worker_inv E s h' w'" if "act_on_decision E w1 current ?d (Now # g) = (w', h')"
    proof (rule act_on_decision_inv [OF worker_inv_mono [OF i1 s3] that])
      show "terminal_seen E s (d_InstanceID (wk_selected w1)) (Now # g)" if "d_Reason ?d = AlreadyTerminated"
        unfolding terminal_seen_def w1 using ex Some recheck_worker_terminated [OF that] by auto
      show "undeleted current" using exact_undeleted ex Some by simp
    qed
    then show ?thesis using pr em ex Some i1 note_problem [OF s1]
      unfolding prepare_def Let_def w1_def [symmetric] w1 by (auto simp: now_def split: if_splits)
  qed
qed

subsection \<open>Observation keeps it\<close>

lemma volumes_inv_update:
  assumes "volumes_inv E s t bad vs h" "v_Deletion v \<noteq> ''deleted''"
  shows "volumes_inv E s t bad (vs[i := v]) h"
  using assms unfolding volumes_inv_def by (blast dest: set_list_update)

lemma volumes_inv_found:
  assumes "volumes_inv E s True False vs h" "v_DeleteOnTermination v = Some True"
    "volume_deleted E s (v_ID v) h"
  shows "volumes_inv E s True False (vs[i := v\<lparr>v_Deletion := ''deleted''\<rparr>]) (DescribeVolumes (v_ID v) # h)"
proof -
  have g: "volume_gone E s (v_ID v) (DescribeVolumes (v_ID v) # h)"
    unfolding volume_gone_def using assms(3) by blast
  have m: "volumes_inv E s True False vs (DescribeVolumes (v_ID v) # h)"
    by (rule volumes_inv_mono [OF assms(1)]) (simp add: suffix_Cons)
  show ?thesis using assms(2) g m unfolding volumes_inv_def by (auto dest!: set_list_update)
qed

text \<open>A turn never takes a deletion back.\<close>

definition deleted_roots_kept :: "volume list \<Rightarrow> volume list \<Rightarrow> bool" where
  "deleted_roots_kept vs ws \<longleftrightarrow> ((\<exists>v \<in> set vs. v_Root v \<and> v_Deletion v = ''deleted'') \<longrightarrow>
     (\<exists>v \<in> set ws. v_Root v \<and> v_Deletion v = ''deleted''))"

lemma deleted_roots_refl [simp]: "deleted_roots_kept vs vs"
  by (simp add: deleted_roots_kept_def)

lemma deleted_roots_update:
  assumes "v_Deletion (vs ! i) \<noteq> ''deleted''"
  shows "deleted_roots_kept vs (vs[i := v])"
  unfolding deleted_roots_kept_def
proof
  assume "\<exists>v \<in> set vs. v_Root v \<and> v_Deletion v = ''deleted''"
  then obtain j where j: "j < length vs" "v_Root (vs ! j)" "v_Deletion (vs ! j) = ''deleted''"
    by (auto simp: in_set_conv_nth)
  then have "vs[i := v] ! j = vs ! j" using assms by (metis nth_list_update_neq)
  with j show "\<exists>v \<in> set (vs[i := v]). v_Root v \<and> v_Deletion v = ''deleted''"
    by (metis length_list_update nth_mem)
qed

lemma deleted_roots_trans:
  "deleted_roots_kept a b \<Longrightarrow> deleted_roots_kept b c \<Longrightarrow> deleted_roots_kept a c"
  by (simp add: deleted_roots_kept_def)

lemma volume_turn_inv:
  assumes "volume_turn E s bad nx st left o1 h = (o2, nx', h')"
    "volumes_inv E s True bad (o_Volumes o1) h"
  shows "volumes_inv E s True bad (o_Volumes o2) h' \<and> o_RootDeletion o2 = o_RootDeletion o1 \<and>
    o_Decision o2 = o_Decision o1 \<and> deleted_roots_kept (o_Volumes o1) (o_Volumes o2)"
  using assms
proof (induction left arbitrary: st o1)
  case 0
  then show ?case by (simp add: deleted_roots_kept_def)
next
  case (Suc left)
  define i where "i = (nx + st) mod length (o_Volumes o1)"
  define v where "v = o_Volumes o1 ! i"
  note turn = Suc.prems(1) [simplified, unfolded Let_def, folded i_def, folded v_def]
  show ?case
  proof (cases "v_Deletion v = ''deleted'' \<or> v_Deletion v = ''retained''")
    case True
    then have "volume_turn E s bad nx (Suc st) left o1 h = (o2, nx', h')" using turn by simp
    from Suc.IH [OF this Suc.prems(2)] show ?thesis .
  next
    case live: False
    then have kept: "deleted_roots_kept (o_Volumes o1) ((o_Volumes o1)[i := x])" for x
      using deleted_roots_update v_def by simp
    have step: ?thesis if "volume_turn E s bad nx (Suc st) left oz h = (o2, nx', h')"
        "o_Volumes oz = (o_Volumes o1)[i := x]" "v_Deletion x \<noteq> ''deleted''"
        "o_RootDeletion oz = o_RootDeletion o1" "o_Decision oz = o_Decision o1" for oz x
    proof -
      have "volumes_inv E s True bad (o_Volumes oz) h"
        unfolding that(2) by (rule volumes_inv_update [OF Suc.prems(2) that(3)])
      from Suc.IH [OF that(1) this] show ?thesis
        using that kept [of x] deleted_roots_trans by auto
    qed
    show ?thesis
    proof (cases "v_DeleteOnTermination v = Some True \<and> \<not> bad")
      case False
      then consider "v_DeleteOnTermination v = None" | "v_DeleteOnTermination v = Some False"
        | "v_DeleteOnTermination v = Some True" bad
        by (cases "v_DeleteOnTermination v") auto
      then show ?thesis
      proof cases
        case 1
        then show ?thesis using turn live
          by (intro step [where x = "v\<lparr>v_Deletion := ''unavailable''\<rparr>" and
                oz = "o1\<lparr>o_Volumes := (o_Volumes o1)[i := v\<lparr>v_Deletion := ''unavailable''\<rparr>], o_Errors := volume_problem (o_Errors o1) (v_ID v)\<rparr>"]) simp_all
      next
        case 2
        then show ?thesis using turn live
          by (intro step [where x = "v\<lparr>v_Deletion := ''retained''\<rparr>" and
                oz = "o1\<lparr>o_Volumes := (o_Volumes o1)[i := v\<lparr>v_Deletion := ''retained''\<rparr>]\<rparr>"]) simp_all
      next
        case 3
        then show ?thesis using turn live
          by (intro step [where x = "v\<lparr>v_Deletion := ''unavailable''\<rparr>" and
                oz = "o1\<lparr>o_Volumes := (o_Volumes o1)[i := v\<lparr>v_Deletion := ''unavailable''\<rparr>]\<rparr>"]) simp_all
      qed
    next
      case True
      have u: "suffix h (DescribeVolumes (v_ID v) # h)" by (simp add: suffix_Cons)
      have "volumes_inv E s True bad ((o_Volumes o1)[i := v\<lparr>v_Deletion := ''deleted''\<rparr>])
          (DescribeVolumes (v_ID v) # h)" if "volume_deleted E s (v_ID v) h"
        using volumes_inv_found that True Suc.prems(2) by simp
      then show ?thesis using turn live True volumes_inv_mono [OF Suc.prems(2) u] kept
        by (auto split: if_splits)
    qed
  qed
qed

lemma root_deletion_eq:
  "root_deletion vs dflt = (if filter v_Root vs = [] then dflt else v_Deletion (last (filter v_Root vs)))"
  unfolding root_deletion_def by (induction vs arbitrary: dflt) auto

lemma root_deletion_deleted:
  "root_deletion vs dflt = ''deleted'' \<Longrightarrow>
     dflt = ''deleted'' \<or> (\<exists>v \<in> set vs. v_Root v \<and> v_Deletion v = ''deleted'')"
  unfolding root_deletion_eq using last_in_set [of "filter v_Root vs"] by (auto split: if_splits)

definition settled :: "volume \<Rightarrow> volume" where
  "settled v = (if v_Deletion v \<noteq> ''deleted'' \<and> v_Deletion v \<noteq> ''retained''
    then v\<lparr>v_Deletion := ''unavailable''\<rparr> else v)"

lemma settled_fields [simp]:
  "v_Deletion (settled v) = ''deleted'' \<longleftrightarrow> v_Deletion v = ''deleted''" "v_ID (settled v) = v_ID v"
  "v_Root (settled v) = v_Root v" "v_DeleteOnTermination (settled v) = v_DeleteOnTermination v"
  by (simp_all add: settled_def)

lemma resolve_volumes_eq:
  "fst (resolve_volumes vs errs root) = map settled vs \<and>
   (snd (snd (resolve_volumes vs errs root)) = root \<or> snd (snd (resolve_volumes vs errs root)) = ''unavailable'')"
proof (induction vs errs root rule: resolve_volumes.induct)
  case (2 v vs errs root)
  show ?case
  proof (cases "v_Deletion v \<noteq> ''deleted'' \<and> v_Deletion v \<noteq> ''retained''")
    case True
    then have u: "settled v = v\<lparr>v_Deletion := ''unavailable''\<rparr>" by (simp add: settled_def)
    show ?thesis
      using "2.IH"(1) [OF True] True u by (cases "v_Root v") (auto simp: case_prod_beta)
  next
    case False
    then have u: "settled v = v" by (auto simp: settled_def)
    show ?thesis using "2.IH"(2) [OF False] False u by (auto simp: case_prod_beta)
  qed
qed simp

lemma resolve_volumes_inv:
  assumes "resolve_volumes vs errs root = (ws, errs', root')"
  shows "root' = root \<or> root' = ''unavailable''"
    "volumes_inv E s t bad vs h \<Longrightarrow> volumes_inv E s t bad ws h" "deleted_roots_kept vs ws"
  using resolve_volumes_eq [of vs errs root] unfolding assms
  by (auto simp: volumes_inv_def deleted_roots_kept_def)

lemma unresolvedVolumes_inv:
  assumes "volumes_inv E s t bad (o_Volumes o1) h" "root_inv r o1"
  shows "volumes_inv E s t bad (o_Volumes (unresolvedVolumes o1)) h \<and> root_inv r (unresolvedVolumes o1) \<and>
    o_Decision (unresolvedVolumes o1) = o_Decision o1 \<and> o_Status (unresolvedVolumes o1) = o_Status o1"
proof -
  obtain ws errs root where e: "resolve_volumes (o_Volumes o1) (o_Errors o1) (o_RootDeletion o1) = (ws, errs, root)"
    by (cases "resolve_volumes (o_Volumes o1) (o_Errors o1) (o_RootDeletion o1)")
  note r = resolve_volumes_inv [OF e]
  have "o_RootDeletion o1 = ''deleted''" if "root = ''deleted''" using r that by auto
  then show ?thesis using assms r
    by (simp add: unresolvedVolumes_def e root_inv_def deleted_roots_kept_def)
qed

lemma observe_volumes_inv:
  assumes inv: "worker_inv E s h w" and t: "wk_terminal w" and ob: "observe_volumes E s w h = (w', h')"
  shows "worker_inv E s h' w'"
proof -
  let ?code = "rootProblem (wk_record w)"
  let ?bad = "rec_badMapping (wk_record w)"
  define o1 where "o1 = (if ?code \<noteq> []
    then (let o1 = setRootDiagnostic (wk_outcome w) ?code in if hasProblem o1 ?code then o1 else addProblem o1 ?code)
    else wk_outcome w)"
  have o1: "o_Volumes o1 = o_Volumes (wk_outcome w)" "d_InstanceID (o_Decision o1) = d_InstanceID (wk_selected w)"
    "root_inv (wk_record w) o1"
    using inv by (auto simp: o1_def Let_def worker_inv_def root_inv_def)
  obtain o2 nx g where turn: "volume_turn E s ?bad (wk_nextVolume w) 0 (length (o_Volumes o1)) o1 h = (o2, nx, g)"
    by (cases "volume_turn E s ?bad (wk_nextVolume w) 0 (length (o_Volumes o1)) o1 h")
  have v1: "volumes_inv E s True ?bad (o_Volumes o1) h" using inv t o1 by (simp add: worker_inv_def)
  note ti = volume_turn_inv [OF turn v1]
  define pending where "pending = list_ex (volume_pending ?bad) (o_Volumes o2)"
  define o3 where "o3 = (if ?code = [] then o2\<lparr>o_RootDeletion := root_deletion (o_Volumes o2) (o_RootDeletion o2)\<rparr> else o2)"
  have r3: "root_inv (wk_record w) o3" "o_Volumes o3 = o_Volumes o2" "o_Decision o3 = o_Decision o2"
    using ti o1(3) root_deletion_deleted [of "o_Volumes o2" "o_RootDeletion o2"]
    by (auto simp: o3_def root_inv_def deleted_roots_kept_def)
  define o4 where "o4 = (if pending then o3 else unresolvedVolumes o3)"
  have r4: "root_inv (wk_record w) o4" "volumes_inv E s True ?bad (o_Volumes o4) g" "o_Decision o4 = o_Decision o2"
    using r3 ti unresolvedVolumes_inv [of E s True ?bad o3 g] by (auto simp: o4_def)
  have w': "w' = w\<lparr>wk_outcome := o4, wk_nextVolume := nx, wk_active := pending\<rparr>" "h' = g"
    using ob unfolding observe_volumes_def Let_def o1_def [unfolded Let_def, symmetric] turn
    by (auto simp: pending_def o3_def o4_def Let_def)
  have "suffix h g" by (rule reads_only_suffix [OF volume_turn_reads [OF turn]])
  then show ?thesis using inv t r4 ti o1 terminal_seen_mono by (auto simp: worker_inv_def w')
qed

lemma observe_inv:
  assumes inv: "worker_inv E s h w" and ob: "observe E s w h = (w', h')"
  shows "worker_inv E s h' w'"
proof -
  let ?iid = "d_InstanceID (wk_selected w)"
  have s1: "suffix h (CtxErr # h)" by (simp add: suffix_Cons)
  obtain r g where ex: "exact E s ?iid (CtxErr # h) = (r, g)" by force
  have s2: "suffix h g" using s1 reads_only_suffix [OF exact_reads [OF ex]] by (rule suffix_order.trans)
  have s3: "suffix h (Now # g)" using s2 by (simp add: suffix_Cons)
  note i = worker_inv_mono [OF inv s1] worker_inv_mono [OF inv s2] worker_inv_mono [OF inv s3]
  show ?thesis
  proof (cases "env_ctx E h \<or> wk_terminal w")
    case True
    then have "(w', h') = (w, CtxErr # h) \<or> wk_terminal w \<and> observe_volumes E s w (CtxErr # h) = (w', h')"
      using ob unfolding observe_def ctx_err_def Let_def by (simp split: if_splits)
    then show ?thesis using i(1) observe_volumes_inv [OF i(1)] by auto
  next
    case live: False
    show ?thesis
    proof (cases r)
      case None
      then show ?thesis using ob live ex i by (simp add: observe_def ctx_err_def)
    next
      case (Some current)
      let ?d = "Evaluate (sv_scope s) (rec_resource current) (env_now E g)"
      have und: "undeleted current" using exact_undeleted ex Some by simp
      have seen: "terminal_seen E s ?iid (Now # g)" if "d_Reason ?d = AlreadyTerminated"
        unfolding terminal_seen_def using ex Some that by auto
      have bad: "worker_inv E s (Now # g) (with_outcome w (\<lambda>o1.
          (set_decision_state (addProblem (o1\<lparr>o_Volumes := mergeMappings (o_Volumes o1) (rec_volumes current)\<rparr>) c) st)
            \<lparr>o_RootDeletion := ''unavailable'', o_Status := st'\<rparr>)\<lparr>wk_terminal := True, wk_active := False\<rparr>)"
        if "d_Reason ?d = AlreadyTerminated" for c st st'
        using i(3) seen [OF that] by (auto simp: worker_inv_def root_inv_def volumes_inv_def dest: undeletedD [OF und])
      have good: "worker_inv E s (Now # g) (with_outcome w (\<lambda>o1. (set_decision_state o1 st)
          \<lparr>o_Status := st'\<rparr>)\<lparr>wk_terminal := True\<rparr>)" if "d_Reason ?d = AlreadyTerminated" for st st'
        using i(3) seen [OF that] by (auto simp: worker_inv_def root_inv_def volumes_inv_def)
      show ?thesis using ob live ex Some i(3) bad observe_volumes_inv [OF good]
        unfolding observe_def Let_def by (auto simp: go_defs split: if_splits)
    qed
  qed
qed

text \<open>What the invariant gives for a finished worker.\<close>

lemma worker_inv_deleted:
  assumes "worker_inv E s h w" "o_RootDeletion (wk_outcome w) = ''deleted''"
  obtains v where "wk_terminal w" "terminal_seen E s (d_InstanceID (wk_selected w)) h"
    "v \<in> set (o_Volumes (wk_outcome w))" "v_Root v" "v_DeleteOnTermination v = Some True"
    "volume_gone E s (v_ID v) h" "rootProblem (wk_record w) = []"
  using assms unfolding worker_inv_def root_inv_def volumes_inv_def by blast

section \<open>What a worker keeps\<close>

definition same_worker :: "worker \<Rightarrow> worker \<Rightarrow> bool" where
  "same_worker w w' \<longleftrightarrow> wk_selected w' = wk_selected w \<and> wk_record w' = wk_record w"

lemma same_worker_refl [frame]: "same_worker w w"
  by (simp add: same_worker_def)

lemma same_worker_trans: "same_worker a b \<Longrightarrow> same_worker b c \<Longrightarrow> same_worker a c"
  by (simp add: same_worker_def)

lemma same_worker_update [simp]:
  "same_worker w (wx\<lparr>wk_outcome := o1\<rparr>) = same_worker w wx"
  "same_worker w (wx\<lparr>wk_active := b\<rparr>) = same_worker w wx"
  "same_worker w (wx\<lparr>wk_terminal := b\<rparr>) = same_worker w wx"
  "same_worker w (wx\<lparr>wk_nextVolume := n\<rparr>) = same_worker w wx"
  by (simp_all add: same_worker_def)

lemma dispatch_frame [frame]: "dispatch_termination E w h = (w', h') \<Longrightarrow> same_worker w w'"
  unfolding dispatch_termination_def ctx_err_def Let_def
  by (auto simp: same_worker_refl split: if_splits)

lemma act_on_decision_frame [frame]: "act_on_decision E w current d h = (w', h') \<Longrightarrow> same_worker w w'"
  unfolding act_on_decision_def Let_def
  by (simp add: same_worker_refl split: if_splits)
    (auto simp: same_worker_refl same_worker_def dest!: dispatch_frame)

lemma prepare_frame [frame]: "prepare E s runID w h = (w', h') \<Longrightarrow> same_worker w w'"
proof -
  assume pr: "prepare E s runID w h = (w', h')"
  let ?code = "rootProblem (wk_record w)"
  let ?blocked = "?code \<noteq> [] \<and> \<not> historicalMappingsAbsent (wk_record w) (d_Reason (wk_selected w))"
  define w1 where "w1 = (if ?blocked then with_outcome w (\<lambda>o1. setRootDiagnostic (addProblem o1 ?code) ?code) else w)"
  have w1: "wk_selected w1 = wk_selected w" "wk_record w1 = wk_record w" "same_worker w w1"
    by (simp_all add: w1_def same_worker_def)
  show ?thesis
    using pr w1(3) unfolding prepare_def Let_def w1_def [symmetric] w1
    by (auto simp: now_def split: if_splits prod.splits option.splits dest!: act_on_decision_frame
        intro: same_worker_trans)
qed

lemma observe_volumes_frame [frame]: "observe_volumes E s w h = (w', h') \<Longrightarrow> same_worker w w'"
  by (auto simp: observe_volumes_def Let_def same_worker_refl split: prod.splits)

lemma observe_frame [frame]: "observe E s w h = (w', h') \<Longrightarrow> same_worker w w'"
proof -
  assume ob: "observe E s w h = (w', h')"
  have "same_worker w w'" if "observe_volumes E s (w\<lparr>wk_outcome := oz, wk_terminal := True\<rparr>) g = (w', h')" for oz g
    using observe_volumes_frame [OF that] by (simp add: same_worker_def)
  then show ?thesis
    using ob unfolding observe_def Let_def
    by (auto simp: go_defs same_worker_refl split: if_splits prod.splits option.splits dest: observe_volumes_frame)
qed

end
