(* ===== verification/CleanupService.thy ===== *)
theory CleanupService
  imports CleanupWorker
begin

text \<open>
  \<^verbatim>\<open>internal/expirycleanup/service.go\<close>: one cleanup run.  \<open>Run\<close> scans, freezes one worker per record,
  lets the workers prepare and observe in rounds, and reports.

  The goroutines of \<open>parallel\<close> share nothing but the context and the injected clients, so each worker
  has an environment and a call history of its own, and the main goroutine has another pair.  The
  environments are arbitrary, which covers every interleaving: whatever order the calls of two workers
  take, what each of them is answered is some function of its own calls.  The dispatch loop decides
  which jobs are handed to a goroutine at all.
\<close>

section \<open>Construction\<close>

text \<open>The dependencies as \<open>New\<close> sees them: which interfaces are nil, and the region of the EC2 client.\<close>

record dependencies =
  dp_EC2_nil :: bool
  dp_STS_nil :: bool
  dp_Clock_nil :: bool
  dp_Sink_nil :: bool
  dp_Region :: string

definition New :: "scope \<Rightarrow> dependencies \<Rightarrow> limits \<Rightarrow> string + service" where
  "New sc deps limits =
     (if \<not> is_ok (Scope_Validate sc) \<or> dp_EC2_nil deps \<or> dp_STS_nil deps \<or> dp_Clock_nil deps \<or> dp_Sink_nil deps
      then Inl ''cleanup_invalid''
      else if dp_Region deps \<noteq> s_Region sc then Inl ''cleanup_invalid''
      else (case normalized limits of
              None \<Rightarrow> Inl ''cleanup_invalid''
            | Some l \<Rightarrow> Inr \<lparr>sv_scope = sc, sv_limits = l\<rparr>))"

text \<open>\<open>NewAWS\<close> binds clients built from one configuration, so their region is the configuration's.\<close>

definition NewAWS :: "scope \<Rightarrow> string \<Rightarrow> bool \<Rightarrow> bool \<Rightarrow> bool \<Rightarrow> limits \<Rightarrow> string + service" where
  "NewAWS sc cfg_region credentials_nil clock_nil sink_nil limits =
     (if cfg_region \<noteq> s_Region sc \<or> cfg_region = [] \<or> credentials_nil then Inl ''cleanup_invalid''
      else New sc \<lparr>dp_EC2_nil = False, dp_STS_nil = False, dp_Clock_nil = clock_nil,
                   dp_Sink_nil = sink_nil, dp_Region = cfg_region\<rparr> limits)"

section \<open>The goroutines\<close>

record genv =
  g_main :: env
  g_worker :: "nat \<Rightarrow> env"

type_synonym pool = "(worker \<times> hist) list"

text \<open>The dispatch loop: stop when the context has ended, else offer the job to the goroutines; an
  offer that loses to the end of the context is skipped.\<close>

fun dispatch_jobs :: "env \<Rightarrow> nat list \<Rightarrow> hist \<Rightarrow> nat list \<times> hist" where
  "dispatch_jobs E [] h = ([], h)"
| "dispatch_jobs E (i # is) h =
     (let (ended, h) = ctx_err E h in
      if ended then ([], h)
      else let taken = env_offer E h; (jobs, h) = dispatch_jobs E is (Offer # h)
           in (if taken then i # jobs else jobs, h))"

definition parallel :: "genv \<Rightarrow> (env \<Rightarrow> worker \<times> hist \<Rightarrow> worker \<times> hist) \<Rightarrow> pool \<Rightarrow> hist \<Rightarrow> pool \<times> hist" where
  "parallel G fn ws h =
     (let (jobs, h) = dispatch_jobs (g_main G) [0..<length ws] h
      in (map (\<lambda>i. if i \<in> set jobs then fn (g_worker G i) (ws ! i) else ws ! i) [0..<length ws], h))"

section \<open>The report\<close>

definition aggregate :: "bool \<Rightarrow> result \<Rightarrow> nat \<Rightarrow> result" where
  "aggregate ended r useful =
     (let bad = (\<not> R_ScanComplete r \<or> R_Errors r \<noteq> [] \<or> list_ex (\<lambda>o1. o_Errors o1 \<noteq> []) (R_Instances r));
          interrupted = (ended \<or> list_ex (\<lambda>p. p_Code p = ''interrupted'') (R_Errors r));
          complete = (\<not> bad \<and> \<not> interrupted);
          code = (if R_CandidateCount r = 0 \<and> useful = 0 then ''cleanup_no_candidates'' else ''cleanup_complete'');
          (exit, code) = (if bad then (if useful > 0 then (3, ''cleanup_partial'') else (1, ''cleanup_failed''))
                          else (0, code));
          (exit, code) = (if interrupted then (4, ''cleanup_interrupted'') else (exit, code))
      in r\<lparr>R_Complete := complete, R_OK := complete, R_ExitCode := exit, R_Code := code, R_Message := code\<rparr>)"

definition add_error :: "result \<Rightarrow> string \<Rightarrow> result" where
  "add_error r code = r\<lparr>R_Errors := R_Errors r @ [mk_problem [] code]\<rparr>"

definition cleaned :: "worker \<Rightarrow> bool" where
  "cleaned w \<longleftrightarrow> wk_terminal w \<and> o_RootDeletion (wk_outcome w) = ''deleted''"

definition tally :: "result \<Rightarrow> worker list \<Rightarrow> result \<times> nat" where
  "tally r ws =
     (let terminated = (if R_DryRun r then 0 else length (filter wk_terminal ws));
          clean = (if R_DryRun r then 0 else length (filter cleaned ws));
          would = (if R_DryRun r then length (filter (\<lambda>w. o_Status (wk_outcome w) = ''would_terminate'') ws) else 0)
      in (r\<lparr>R_Instances := sort_key (\<lambda>o1. d_InstanceID (o_Decision o1)) (R_Instances r @ map wk_outcome ws),
            R_TerminatedCount := R_TerminatedCount r + terminated,
            R_CleanedCount := R_CleanedCount r + clean\<rparr>, clean + would))"

definition finish :: "env \<Rightarrow> service \<Rightarrow> string \<Rightarrow> result \<Rightarrow> worker list \<Rightarrow> hist \<Rightarrow> (result \<times> string option) \<times> hist" where
  "finish E s runID r ws h =
     (let (r, useful) = tally r ws;
          (t, h) = now E h;
          completed = (case Timestamp t of Inr ts \<Rightarrow> ts | Inl _ \<Rightarrow> []);
          r = r\<lparr>R_CompletedAt := completed\<rparr>;
          r = (if completed = [] then add_error r ''clock_invalid'' else r);
          (ended, h) = ctx_err E h;
          r = aggregate ended r useful;
          (r, h) = (if runID \<noteq> [] \<and> \<not> R_DryRun r
                    then (let (ok, h) = emit E s runID ''summary'' None (Some r) h
                          in if ok then (r, h)
                             else let r = add_error r ''evidence_unavailable''; (ended, h) = ctx_err E h
                                  in (aggregate ended r useful, h))
                    else (r, h))
      in ((r, if R_OK r then None else Some (R_Code r)), h))"

section \<open>The run\<close>

text \<open>The worker frozen for one record of the scan.\<close>

definition select_worker :: "service \<Rightarrow> gotime \<Rightarrow> bool \<Rightarrow> record_t \<Rightarrow> worker" where
  "select_worker s t complete rec =
     (let d = Evaluate (sv_scope s) (rec_resource rec) t;
          d = (if rec_conflict rec then d\<lparr>d_Eligible := False, d_Reason := ResourceInvalid\<rparr> else d);
          o1 = \<lparr>o_Decision = d, o_Status = ''skipped'', o_RootDeletion = ''not_observed'',
                o_Volumes = rec_volumes rec, o_Errors = []\<rparr>;
          o1 = (if d_Reason d = AlreadyTerminated
                then (if historicalMappingsAbsent rec (d_Reason d)
                      then o1\<lparr>o_Status := ''already_terminated'', o_RootDeletion := ''unavailable''\<rparr>
                      else o1\<lparr>o_Status := ''already_terminated''\<rparr>)
                else o1);
          o1 = (if d_Reason d = AlreadyTerminating then o1\<lparr>o_Status := ''already_terminating''\<rparr> else o1);
          o1 = (if \<not> benign (d_Reason d) then addProblem o1 (reason_string (d_Reason d)) else o1);
          o1 = (if complete \<and> d_Eligible d then o1\<lparr>o_Status := ''termination_not_requested''\<rparr> else o1)
      in \<lparr>wk_selected = d, wk_record = rec, wk_outcome = o1, wk_active = False, wk_terminal = False,
          wk_nextVolume = 0\<rparr>)"

definition actionable :: "worker \<Rightarrow> bool" where
  "actionable w \<longleftrightarrow> d_Eligible (wk_selected w) \<or> d_Reason (wk_selected w) = AlreadyTerminated
     \<or> d_Reason (wk_selected w) = AlreadyTerminating"

text \<open>The advisory decision of a dry run.\<close>

definition dry_worker :: "worker \<Rightarrow> worker" where
  "dry_worker w =
     (if historicalMappingsAbsent (wk_record w) (d_Reason (wk_selected w)) then w
      else if actionable w
      then (let code = rootProblem (wk_record w) in
            if code \<noteq> [] then with_outcome w (\<lambda>o1. setRootDiagnostic (addProblem o1 code) code)
            else if d_Eligible (wk_selected w) then with_outcome w (\<lambda>o1. o1\<lparr>o_Status := ''would_terminate''\<rparr>)
            else w)
      else w)"

definition decide_worker :: "service \<Rightarrow> string \<Rightarrow> bool \<Rightarrow> bool \<Rightarrow> env \<Rightarrow> worker \<times> hist \<Rightarrow> worker \<times> hist" where
  "decide_worker s runID dryRun complete E wh =
     (case wh of (w, h) \<Rightarrow>
        let (ok, h) = (if dryRun then (True, h)
                       else emit E s runID ''decision'' (Some (wk_outcome w)) None h)
        in if \<not> ok then (with_outcome w (\<lambda>o1. addProblem o1 ''evidence_unavailable''), h)
           else if \<not> complete then (w, h)
           else if dryRun then (dry_worker w, h)
           else if actionable w then prepare E s runID w h
           else (w, h))"

definition observe_worker :: "service \<Rightarrow> env \<Rightarrow> worker \<times> hist \<Rightarrow> worker \<times> hist" where
  "observe_worker s E wh = (case wh of (w, h) \<Rightarrow> if wk_active w then observe E s w h else (w, h))"

definition any_active :: "pool \<Rightarrow> bool" where
  "any_active ws \<longleftrightarrow> list_ex (\<lambda>wh. wk_active (fst wh)) ws"

text \<open>The observation rounds; the first argument counts the attempts left.  The flag says that a wait
  was interrupted.\<close>

fun rounds :: "genv \<Rightarrow> service \<Rightarrow> nat \<Rightarrow> pool \<Rightarrow> hist \<Rightarrow> pool \<times> bool \<times> hist" where
  "rounds G s 0 ws h = (ws, False, h)"
| "rounds G s (Suc left) ws h =
     (let (ended, h) = ctx_err (g_main G) h in
      if ended \<or> \<not> any_active ws then (ws, False, h)
      else let (ws, h) = parallel G (observe_worker s) ws h in
        if \<not> any_active ws then (ws, False, h)
        else if left > 0
        then (if env_wait (g_main G) h then rounds G s left ws (PollWait # h) else (ws, True, PollWait # h))
        else rounds G s left ws h)"

text \<open>What the run still holds against a worker after the rounds.\<close>

definition settle_outcome :: "bool \<Rightarrow> worker \<Rightarrow> worker" where
  "settle_outcome ended w =
     (let w = (if wk_active w
               then (if \<not> wk_terminal w then with_outcome w (\<lambda>o1. addProblem o1 ''termination_unresolved'')
                     else with_outcome w unresolvedVolumes)
               else w)
      in if ended \<and> o_Status (wk_outcome w) = ''termination_not_requested''
         then with_outcome w (\<lambda>o1. addProblem o1 ''interrupted'') else w)"

fun settle_all :: "env \<Rightarrow> pool \<Rightarrow> hist \<Rightarrow> pool \<times> hist" where
  "settle_all E [] h = ([], h)"
| "settle_all E ((w, g) # ws) h =
     (let (ended, h) = ctx_err E h; (ws, h) = settle_all E ws h in ((settle_outcome ended w, g) # ws, h))"

definition outcome_worker :: "service \<Rightarrow> string \<Rightarrow> env \<Rightarrow> worker \<times> hist \<Rightarrow> worker \<times> hist" where
  "outcome_worker s runID E wh =
     (case wh of (w, h) \<Rightarrow>
        let (ok, h) = emit E s runID ''outcome'' (Some (wk_outcome w)) None h
        in (if ok then w else with_outcome w (\<lambda>o1. addProblem o1 ''evidence_unavailable''), h))"

definition nibble :: "nat \<Rightarrow> char" where
  "nibble n = (if n < 10 then char_of (48 + n) else char_of (87 + n))"

definition hex_encode :: "string \<Rightarrow> string" where
  "hex_encode s = concat (map (\<lambda>c. [nibble (byte c div 16), nibble (byte c mod 16)]) s)"

definition empty_result :: "service \<Rightarrow> bool \<Rightarrow> result" where
  "empty_result s dryRun =
     \<lparr>R_SchemaVersion = 1, R_Command = ''cleanup'', R_OK = False, R_ExitCode = 0, R_Code = [], R_Message = [],
      R_Scope = sv_scope s, R_DryRun = dryRun, R_EvaluatedAt = [], R_CompletedAt = [], R_ScanComplete = False,
      R_Complete = False, R_ScannedCount = 0, R_CandidateCount = 0, R_TerminatedCount = 0, R_CleanedCount = 0,
      R_Instances = [], R_Errors = []\<rparr>"

text \<open>From the frozen workers to the settled ones.\<close>

definition work :: "genv \<Rightarrow> service \<Rightarrow> string \<Rightarrow> bool \<Rightarrow> bool \<Rightarrow> worker list \<Rightarrow> hist \<Rightarrow> pool \<times> bool \<times> hist" where
  "work G s runID dryRun complete ws h =
     (let (ps, h) = parallel G (decide_worker s runID dryRun complete) (map (\<lambda>w. (w, [])) ws) h;
          (ps, interrupted, h) = (if dryRun then (ps, False, h)
                                  else rounds G s (nat (ObservationAttempts (sv_limits s))) ps h);
          (ps, h) = settle_all (g_main G) ps h;
          (ps, h) = (if dryRun then (ps, h) else parallel G (outcome_worker s runID) ps h)
      in (ps, interrupted, h))"

definition scanned :: "service \<Rightarrow> gotime \<Rightarrow> bool \<Rightarrow> record_t list \<Rightarrow> result \<Rightarrow> result \<times> worker list" where
  "scanned s t complete records r =
     (let ws = map (select_worker s t complete) records;
          r = r\<lparr>R_ScanComplete := complete\<rparr>;
          r = (if \<not> complete then add_error r ''scan_incomplete'' else r)
      in (r\<lparr>R_ScannedCount := length (filter (\<lambda>w. re_match instanceRE (d_InstanceID (wk_selected w))) ws),
            R_CandidateCount := (if complete then length (filter (\<lambda>w. d_Eligible (wk_selected w)) ws) else 0)\<rparr>, ws))"

text \<open>The result with its error, the final workers with their call histories, and the main history.\<close>

definition Run :: "genv \<Rightarrow> service \<Rightarrow> bool \<Rightarrow> hist \<Rightarrow> (result \<times> string option) \<times> pool \<times> hist" where
  "Run G s dryRun h =
     (let E = g_main G; r = empty_result s dryRun; bytes = env_rand E h; h = RandRead # h in
      case bytes of
        None \<Rightarrow> (let (res, h) = finish E s [] (add_error r ''evidence_unavailable'') [] h in (res, [], h))
      | Some runBytes \<Rightarrow>
          let runID = hex_encode runBytes; (t, h) = now E h in
          (case Timestamp t of
             Inl _ \<Rightarrow> (let (res, h) = finish E s runID (add_error r ''clock_invalid'') [] h in (res, [], h))
           | Inr evaluated \<Rightarrow>
               let r = r\<lparr>R_EvaluatedAt := evaluated\<rparr>; (ok, h) = verify E s h in
               if \<not> ok then (let (res, h) = finish E s runID (add_error r ''identity_unverified'') [] h in (res, [], h))
               else let (records, complete, h) = scan E s [] h;
                        (r, ws) = scanned s t complete records r;
                        (ps, interrupted, h) = work G s runID dryRun complete ws h;
                        r = (if interrupted then add_error r ''interrupted'' else r);
                        (res, h) = finish E s runID r (map fst ps) h
                    in (res, ps, h)))"

section \<open>Invariants of the pool\<close>

text \<open>\<open>pool_all P ps\<close>: every worker of the pool satisfies \<open>P\<close> at its index.\<close>

definition pool_all :: "(nat \<Rightarrow> worker \<times> hist \<Rightarrow> bool) \<Rightarrow> pool \<Rightarrow> bool" where
  "pool_all P ps \<longleftrightarrow> (\<forall>i < length ps. P i (ps ! i))"

lemma parallel_all:
  assumes "parallel G fn ps h = (ps', h')" "pool_all P ps"
    "\<And>i wh. i < length ps \<Longrightarrow> P i wh \<Longrightarrow> P i (fn (g_worker G i) wh)"
  shows "length ps' = length ps" "pool_all P ps'"
proof -
  obtain jobs where ps': "ps' = map (\<lambda>i. if i \<in> set jobs then fn (g_worker G i) (ps ! i) else ps ! i) [0..<length ps]"
    using assms(1) by (auto simp: parallel_def split: prod.splits)
  show "length ps' = length ps" by (simp add: ps')
  show "pool_all P ps'" using assms(2,3) by (simp add: ps' pool_all_def)
qed

text \<open>A job that is not handed out leaves its worker as it was.\<close>

lemma parallel_taken:
  assumes "parallel G fn ps h = (ps', h')" "fst (dispatch_jobs (g_main G) [0..<length ps] h) = [0..<length ps]"
    "i < length ps"
  shows "ps' ! i = fn (g_worker G i) (ps ! i)"
  using assms by (auto simp: parallel_def split: prod.splits)

lemma parallel_step:
  assumes "parallel G fn ps h = (ps', h')" "i < length ps"
  shows "ps' ! i = ps ! i \<or> ps' ! i = fn (g_worker G i) (ps ! i)"
  using assms by (auto simp: parallel_def split: prod.splits)

lemma rounds_all:
  assumes step: "\<And>i wh. i < n \<Longrightarrow> P i wh \<Longrightarrow> P i (observe_worker s (g_worker G i) wh)"
  shows "rounds G s left ps h = (ps', b, h') \<Longrightarrow> length ps = n \<Longrightarrow> pool_all P ps \<Longrightarrow>
    length ps' = n \<and> pool_all P ps'"
proof (induction left arbitrary: ps h)
  case (Suc left)
  obtain ps1 h1 where par: "parallel G (observe_worker s) ps (CtxErr # h) = (ps1, h1)"
    by (cases "parallel G (observe_worker s) ps (CtxErr # h)")
  have p1: "length ps1 = n" "pool_all P ps1"
    using parallel_all [OF par Suc.prems(3)] step Suc.prems(2) by auto
  have "ps' = ps \<or> ps' = ps1 \<or> (\<exists>h2. rounds G s left ps1 h2 = (ps', b, h'))"
    using Suc.prems(1) par by (auto simp: ctx_err_def Let_def split: if_splits)
  then show ?case using Suc.IH p1 Suc.prems by blast
qed simp

lemma settle_all_eq:
  "settle_all E ps h = (ps', h') \<Longrightarrow> length ps' = length ps \<and>
     (\<forall>i < length ps. \<exists>ended. ps' ! i = (settle_outcome ended (fst (ps ! i)), snd (ps ! i)))"
proof (induction ps arbitrary: h ps' h')
  case (Cons p ps)
  obtain w g where p: "p = (w, g)" by force
  obtain ws h2 where rec: "settle_all E ps (CtxErr # h) = (ws, h2)" by force
  then have "ps' = (settle_outcome (env_ctx E h) w, g) # ws"
    using Cons.prems by (simp add: p ctx_err_def Let_def)
  with Cons.IH [OF rec] p show ?case by (auto simp: nth_Cons split: nat.splits)
qed simp

lemma settle_all_all:
  assumes "settle_all E ps h = (ps', h')" "pool_all P ps"
    "\<And>i w g e. i < length ps \<Longrightarrow> P i (w, g) \<Longrightarrow> Q i (settle_outcome e w, g)"
  shows "length ps' = length ps" "pool_all Q ps'"
  using settle_all_eq [OF assms(1)] assms(2,3) unfolding pool_all_def
  by (metis, metis prod.collapse)

text \<open>One induction for the whole of a mutating run.\<close>

lemma work_all:
  assumes wk: "work G s runID False complete ws h = (ps, b, h')"
    and init: "\<And>i. i < length ws \<Longrightarrow>
      fst (dispatch_jobs (g_main G) [0..<length ws] h) \<noteq> [0..<length ws] \<Longrightarrow> P i (ws ! i, [])"
    and dec: "\<And>i. i < length ws \<Longrightarrow> P i (decide_worker s runID False complete (g_worker G i) (ws ! i, []))"
    and obs: "\<And>i wh. i < length ws \<Longrightarrow> P i wh \<Longrightarrow> P i (observe_worker s (g_worker G i) wh)"
    and settle: "\<And>i w g e. i < length ws \<Longrightarrow> P i (w, g) \<Longrightarrow> Q i (settle_outcome e w, g)"
    and out: "\<And>i wh. i < length ws \<Longrightarrow> Q i wh \<Longrightarrow> Q i (outcome_worker s runID (g_worker G i) wh)"
  shows "length ps = length ws \<and> pool_all Q ps"
proof -
  let ?init = "map (\<lambda>w. (w, [])) ws"
  obtain p1 h1 where a: "parallel G (decide_worker s runID False complete) ?init h = (p1, h1)" by force
  obtain p2 b2 h2 where r: "rounds G s (nat (ObservationAttempts (sv_limits s))) p1 h1 = (p2, b2, h2)"
    by (cases "rounds G s (nat (ObservationAttempts (sv_limits s))) p1 h1")
  obtain p3 h3 where st: "settle_all (g_main G) p2 h2 = (p3, h3)" by force
  obtain p4 h4 where e: "parallel G (outcome_worker s runID) p3 h3 = (p4, h4)" by force
  have ps: "ps = p4" using wk by (simp add: work_def a r st e)
  have l1: "length p1 = length ws"
    using parallel_all(1) [OF a, of "\<lambda>_ _. True"] by (simp add: pool_all_def)
  have "pool_all P p1" unfolding pool_all_def
  proof (intro allI impI)
    fix i assume "i < length p1"
    then have i: "i < length ws" using l1 by simp
    show "P i (p1 ! i)"
      using parallel_step [OF a, of i] parallel_taken [OF a, of i] i init [OF i] dec [OF i]
      by (cases "fst (dispatch_jobs (g_main G) [0..<length ws] h) = [0..<length ws]") auto
  qed
  then have p2: "length p2 = length ws" "pool_all P p2"
    using rounds_all [of "length ws" P, OF obs r l1] by auto
  then have p3: "length p3 = length ws" "pool_all Q p3"
    using settle_all_all [OF st, of P Q] settle by auto
  show ?thesis using parallel_all [OF e p3(2)] out p3(1) by (simp add: ps)
qed

lemma settle_outcome_frame [frame]: "same_worker w (settle_outcome e w)"
  by (simp add: settle_outcome_def Let_def same_worker_refl)

lemma outcome_worker_frame:
  assumes "outcome_worker s runID E (w, g) = (w', g')"
  shows "same_worker w w'" "terminations g' = terminations g" "suffix g g'"
    "wk_active w' = wk_active w" "wk_terminal w' = wk_terminal w"
    "o_Volumes (wk_outcome w') = o_Volumes (wk_outcome w)"
    "o_RootDeletion (wk_outcome w') = o_RootDeletion (wk_outcome w)"
    "o_Decision (wk_outcome w') = o_Decision (wk_outcome w)"
    "o_Status (wk_outcome w') = o_Status (wk_outcome w)"
    "o_Errors (wk_outcome w') = [] \<Longrightarrow> o_Errors (wk_outcome w) = []"
  using assms
  by (auto simp: outcome_worker_def same_worker_refl addProblem_def split: prod.splits if_splits
      dest: emit_terminations emit_suffix)

lemma observe_worker_cases:
  assumes "observe_worker s E (w, g) = (w', g')"
  obtains (idle) "\<not> wk_active w" "w' = w" "g' = g" | (seen) "wk_active w" "observe E s w g = (w', g')"
  using assms by (auto simp: observe_worker_def split: if_splits)

lemma decide_worker_cases:
  assumes "decide_worker s runID False complete E (w, g) = (w', g')"
  obtains (silent) "w' = with_outcome w (\<lambda>o1. addProblem o1 ''evidence_unavailable'')"
      "terminations g' = terminations g" "suffix g g'"
  | (keep) "\<not> complete \<or> \<not> actionable w" "w' = w" "terminations g' = terminations g" "suffix g g'"
  | (act) g1 where "complete" "actionable w" "prepare E s runID w g1 = (w', g')"
      "terminations g1 = terminations g" "suffix g g1"
proof -
  obtain ok g1 where em: "emit E s runID ''decision'' (Some (wk_outcome w)) None g = (ok, g1)" by force
  note f = emit_terminations [OF em] emit_suffix [OF em]
  show ?thesis
  proof (cases ok)
    case False
    then show ?thesis using assms em f silent by (simp add: decide_worker_def)
  next
    case ok: True
    show ?thesis
    proof (cases "complete \<and> actionable w")
      case True
      then show ?thesis using assms em f act [of g1] ok by (simp add: decide_worker_def)
    next
      case False
      then show ?thesis using assms em f keep ok by (auto simp: decide_worker_def split: if_splits)
    qed
  qed
qed

section \<open>The terminations of a run\<close>

text \<open>What a worker's history says about terminations: none, or one, authorised for the selection.\<close>

definition once_authorized :: "env \<Rightarrow> service \<Rightarrow> bool \<Rightarrow> worker \<Rightarrow> hist \<Rightarrow> bool" where
  "once_authorized E s complete w g \<longleftrightarrow>
     terminations g = [] \<or>
     (terminations g = [d_InstanceID (wk_selected w)] \<and> complete \<and> d_Eligible (wk_selected w) \<and>
      (\<exists>g1 g2. termination_authorized E s w g1 g2 \<and> suffix g2 g))"

lemma once_authorized_step:
  "once_authorized E s c w g \<Longrightarrow> terminations g' = terminations g \<Longrightarrow> suffix g g' \<Longrightarrow> once_authorized E s c w g'"
  unfolding once_authorized_def using suffix_order.trans by metis

lemma termination_authorized_eligible: "termination_authorized E s w g h \<Longrightarrow> d_Eligible (wk_selected w)"
  by (auto simp: termination_authorized_def Let_def Recheck_eligible)

lemma decide_once:
  assumes "decide_worker s runID False complete E (w, []) = (w', g')"
  shows "same_worker w w' \<and> once_authorized E s complete w g'"
  using assms
proof (cases rule: decide_worker_cases)
  case silent
  then show ?thesis by (simp add: once_authorized_def same_worker_refl)
next
  case keep
  then show ?thesis by (simp add: once_authorized_def same_worker_refl)
next
  case (act g1)
  have "once_authorized E s complete w g'"
    using prepare_terminates [OF act(3)] act(1,4) termination_authorized_eligible suffix_order.refl
    unfolding once_authorized_def by fastforce
  then show ?thesis using prepare_frame [OF act(3)] by simp
qed

lemma work_once:
  assumes wk: "work G s runID False complete ws h = (ps, b, h')"
  shows "length ps = length ws \<and> pool_all (\<lambda>i (w, g). same_worker (ws ! i) w \<and>
    once_authorized (g_worker G i) s complete (ws ! i) g) ps"
proof (rule work_all [OF wk, where P = "\<lambda>i (w, g). same_worker (ws ! i) w \<and>
    once_authorized (g_worker G i) s complete (ws ! i) g"], goal_cases init dec obs settle out)
  case (init i)
  then show ?case by (simp add: same_worker_refl once_authorized_def)
next
  case (dec i)
  show ?case
    using decide_once [of s runID complete "g_worker G i" "ws ! i"]
    by (cases "decide_worker s runID False complete (g_worker G i) (ws ! i, [])") simp
next
  case (obs i wh)
  obtain w g w' g' where e: "wh = (w, g)" "observe_worker s (g_worker G i) (w, g) = (w', g')" by fastforce
  from e(2) show ?case
  proof (cases rule: observe_worker_cases)
    case idle
    with obs e show ?thesis by simp
  next
    case seen
    note r = observe_reads [OF seen(2)]
    show ?thesis using obs e same_worker_trans observe_frame [OF seen(2)]
        once_authorized_step [OF _ reads_only_terminations [OF r] reads_only_suffix [OF r]] by auto
  qed
next
  case (settle i w g e)
  then show ?case using same_worker_trans settle_outcome_frame by auto
next
  case (out i wh)
  obtain w g w' g' where e: "wh = (w, g)" "outcome_worker s runID (g_worker G i) (w, g) = (w', g')" by fastforce
  show ?case using out e same_worker_trans outcome_worker_frame(1-3) [OF e(2)] once_authorized_step by auto
qed

text \<open>A dry run leaves the histories of its workers empty.\<close>

lemma work_dry:
  assumes wk: "work G s runID True complete ws h = (ps, b, h')"
  shows "length ps = length ws" "\<And>i. i < length ws \<Longrightarrow> snd (ps ! i) = []"
proof -
  let ?init = "map (\<lambda>w. (w, [])) ws"
  obtain p1 h1 where a: "parallel G (decide_worker s runID True complete) ?init h = (p1, h1)" by force
  obtain p3 h3 where st: "settle_all (g_main G) p1 h1 = (p3, h3)" by force
  have ps: "ps = p3" using wk by (simp add: work_def a st)
  have l: "length p1 = length ws" using parallel_all(1) [OF a, of "\<lambda>_ _. True"] by (simp add: pool_all_def)
  have "snd (decide_worker s runID True complete E (w, [])) = []" for E w
    by (simp add: decide_worker_def)
  then have "snd (p1 ! i) = []" if "i < length ws" for i
    using parallel_step [OF a, of i] that by auto
  then show "length ps = length ws" "\<And>i. i < length ws \<Longrightarrow> snd (ps ! i) = []"
    using settle_all_eq [OF st] l by (auto simp: ps)
qed

lemma select_worker_fields [simp]:
  "wk_record (select_worker s t c rec) = rec" "wk_active (select_worker s t c rec) = False"
  "wk_terminal (select_worker s t c rec) = False" "o_Volumes (wk_outcome (select_worker s t c rec)) = rec_volumes rec"
  "o_Decision (wk_outcome (select_worker s t c rec)) = wk_selected (select_worker s t c rec)"
  "d_InstanceID (wk_selected (select_worker s t c rec)) = r_ID (rec_resource rec)"
  by (simp_all add: select_worker_def Let_def)

lemma select_worker_eligible:
  "d_Eligible (wk_selected (select_worker s t c rec)) \<longleftrightarrow>
     \<not> rec_conflict rec \<and> d_Eligible (Evaluate (sv_scope s) (rec_resource rec) t)"
  by (simp add: select_worker_def Let_def)

text \<open>The shape of a run: it stops before the scan, or it works on the workers of one scan.\<close>

lemma Run_cases:
  assumes "Run G s dryRun h = ((r, err), ps, h')"
  obtains (early) runID r0 h1 where "ps = []" "finish (g_main G) s runID r0 [] h1 = ((r, err), h')"
      "R_DryRun r0 = dryRun" "R_ScanComplete r0 = False"
  | (late) runID t ts records complete h1 h2 r1 ws b h3 r2 where
      "scan (g_main G) s [] h1 = (records, complete, h2)"
      "scanned s t complete records ((empty_result s dryRun)\<lparr>R_EvaluatedAt := ts\<rparr>) = (r1, ws)"
      "work G s runID dryRun complete ws h2 = (ps, b, h3)"
      "r2 = (if b then add_error r1 ''interrupted'' else r1)"
      "finish (g_main G) s runID r2 (map fst ps) h3 = ((r, err), h')"
proof -
  show ?thesis
  proof (cases "env_rand (g_main G) h")
    case None
    with assms early show ?thesis
      by (auto simp: Run_def Let_def add_error_def empty_result_def split: prod.splits)
  next
    case (Some bytes)
    show ?thesis
    proof (cases "Timestamp (env_now (g_main G) (RandRead # h))")
      case (Inl e)
      with assms early Some show ?thesis
        by (auto simp: Run_def Let_def now_def add_error_def empty_result_def split: prod.splits)
    next
      case (Inr ts')
      obtain ok g where v: "verify (g_main G) s (Now # RandRead # h) = (ok, g)" by force
      show ?thesis
      proof (cases ok)
        case False
        with assms early Some Inr v show ?thesis
          by (auto simp: Run_def Let_def now_def add_error_def empty_result_def split: prod.splits)
      next
        case True
        obtain records complete h2 where sc: "scan (g_main G) s [] g = (records, complete, h2)"
          by (cases "scan (g_main G) s [] g")
        obtain r1 ws where sd: "scanned s (env_now (g_main G) (RandRead # h)) complete records
            ((empty_result s dryRun)\<lparr>R_EvaluatedAt := ts'\<rparr>) = (r1, ws)" by force
        obtain ps1 b h3 where w: "work G s (hex_encode bytes) dryRun complete ws h2 = (ps1, b, h3)"
          by (cases "work G s (hex_encode bytes) dryRun complete ws h2")
        show ?thesis
          using assms late [of g records complete h2] sc sd w Some Inr v True
          by (auto simp: Run_def Let_def now_def split: prod.splits)
      qed
    qed
  qed
qed

section \<open>The evidence of a run\<close>

lemma settle_outcome_inv: "worker_inv E s g w \<Longrightarrow> worker_inv E s g (settle_outcome e w)"
  using unresolvedVolumes_inv [of E s "wk_terminal w" "rec_badMapping (wk_record w)" "wk_outcome w" g "wk_record w"]
  by (auto simp: worker_inv_def root_inv_def settle_outcome_def Let_def)

lemma select_worker_root: "o_RootDeletion (wk_outcome (select_worker s t c rec)) \<noteq> ''deleted''"
  unfolding select_worker_def Let_def by simp

lemma select_worker_inv: "undeleted rec \<Longrightarrow> worker_inv E s [] (select_worker s t c rec)"
  by (auto simp: worker_inv_def volumes_inv_def root_inv_def select_worker_root dest: undeletedD)

lemma outcome_worker_inv:
  assumes "worker_inv E s g w" "outcome_worker s runID E (w, g) = (w', g')"
  shows "worker_inv E s g' w'"
  using worker_inv_mono [OF assms(1) outcome_worker_frame(3) [OF assms(2)]] outcome_worker_frame [OF assms(2)]
  by (simp add: worker_inv_def root_inv_def same_worker_def)

lemma decide_worker_inv:
  assumes "worker_inv E s g w" "decide_worker s runID False complete E (w, g) = (w', g')"
  shows "worker_inv E s g' w'"
  using assms(2)
proof (cases rule: decide_worker_cases)
  case silent
  then show ?thesis using worker_inv_mono [OF assms(1)] by (simp add: worker_inv_def root_inv_def)
next
  case keep
  then show ?thesis using worker_inv_mono [OF assms(1)] by simp
next
  case (act g1)
  then show ?thesis using worker_inv_mono [OF assms(1)] prepare_inv by blast
qed

lemma observe_worker_inv:
  assumes "worker_inv E s g w" "observe_worker s E (w, g) = (w', g')"
  shows "worker_inv E s g' w'"
  using assms(2) by (cases rule: observe_worker_cases) (use assms(1) observe_inv in auto)

lemma work_evidence:
  assumes wk: "work G s runID False complete ws h = (ps, b, h')"
    and init: "\<And>i. i < length ws \<Longrightarrow> worker_inv (g_worker G i) s [] (ws ! i)"
  shows "length ps = length ws \<and> pool_all (\<lambda>i (w, g). worker_inv (g_worker G i) s g w) ps"
proof (rule work_all [OF wk, where P = "\<lambda>i (w, g). worker_inv (g_worker G i) s g w"], goal_cases init dec obs settle out)
  case (init i)
  then show ?case using assms(2) by simp
next
  case (dec i)
  then show ?case using decide_worker_inv [OF init [OF dec]]
    by (cases "decide_worker s runID False complete (g_worker G i) (ws ! i, [])") simp
next
  case (obs i wh)
  then show ?case using observe_worker_inv
    by (cases wh; cases "observe_worker s (g_worker G i) wh") auto
next
  case (settle i w g e)
  then show ?case using settle_outcome_inv by simp
next
  case (out i wh)
  then show ?case using outcome_worker_inv
    by (cases wh; cases "outcome_worker s runID (g_worker G i) wh") auto
qed

lemma aggregate_fields [simp]:
  "R_ScanComplete (aggregate e r u) = R_ScanComplete r" "R_Errors (aggregate e r u) = R_Errors r"
  "R_Instances (aggregate e r u) = R_Instances r" "R_CandidateCount (aggregate e r u) = R_CandidateCount r"
  "R_DryRun (aggregate e r u) = R_DryRun r" "R_CleanedCount (aggregate e r u) = R_CleanedCount r"
  "R_TerminatedCount (aggregate e r u) = R_TerminatedCount r"
  by (simp_all add: aggregate_def Let_def case_prod_beta)

lemma add_error_fields [simp]:
  "R_ScanComplete (add_error r c) = R_ScanComplete r" "R_Instances (add_error r c) = R_Instances r"
  "R_CandidateCount (add_error r c) = R_CandidateCount r" "R_DryRun (add_error r c) = R_DryRun r"
  "R_CleanedCount (add_error r c) = R_CleanedCount r" "R_TerminatedCount (add_error r c) = R_TerminatedCount r"
  "R_Errors (add_error r c) = R_Errors r @ [mk_problem [] c]"
  by (simp_all add: add_error_def)

text \<open>A finished result is the last aggregation of the tallied one, with possibly more errors.\<close>

lemma finish_aggregate:
  assumes "finish E s runID r ws h = ((r', err), h')"
  obtains r0 ended errs where "r' = aggregate ended r0 (snd (tally r ws))"
    "err = (if R_OK r' then None else Some (R_Code r'))"
    "R_Errors r0 = R_Errors r @ errs" "R_Instances r0 = R_Instances (fst (tally r ws))"
    "R_ScanComplete r0 = R_ScanComplete r" "R_CandidateCount r0 = R_CandidateCount r" "R_DryRun r0 = R_DryRun r"
    "R_CleanedCount r0 = R_CleanedCount (fst (tally r ws))"
    "R_TerminatedCount r0 = R_TerminatedCount (fst (tally r ws))"
proof -
  obtain r1 u where t: "tally r ws = (r1, u)" by force
  have r1: "R_Errors r1 = R_Errors r" "R_ScanComplete r1 = R_ScanComplete r"
    "R_CandidateCount r1 = R_CandidateCount r" "R_DryRun r1 = R_DryRun r"
    using t by (auto simp: tally_def Let_def)
  define dn where "dn = (case Timestamp (env_now E h) of Inr ts \<Rightarrow> ts | Inl _ \<Rightarrow> [])"
  define r2 where "r2 = (let r = r1\<lparr>R_CompletedAt := dn\<rparr> in if dn = [] then add_error r ''clock_invalid'' else r)"
  have r2: "\<exists>errs. R_Errors r2 = R_Errors r @ errs" "R_ScanComplete r2 = R_ScanComplete r"
    "R_CandidateCount r2 = R_CandidateCount r" "R_DryRun r2 = R_DryRun r" "R_Instances r2 = R_Instances r1"
    "R_CleanedCount r2 = R_CleanedCount r1" "R_TerminatedCount r2 = R_TerminatedCount r1"
    using r1 by (auto simp: r2_def Let_def)
  define r3 where "r3 = aggregate (env_ctx E (Now # h)) r2 u"
  have "(r' = r3 \<or> (\<exists>e. r' = aggregate e (add_error r3 ''evidence_unavailable'') u)) \<and>
      err = (if R_OK r' then None else Some (R_Code r'))"
    using assms unfolding finish_def t Let_def
    by (auto simp: go_defs r3_def r2_def Let_def dn_def split: prod.splits if_splits)
  then show ?thesis using r2 that [of _ r2] that [of _ "add_error r3 ''evidence_unavailable''"]
    by (auto simp: t r3_def)
qed

lemma finish_fields:
  assumes "finish E s runID r ws h = ((r', err), h')"
  shows "R_CleanedCount r' = R_CleanedCount r + (if R_DryRun r then 0 else length (filter cleaned ws))"
    "R_TerminatedCount r' = R_TerminatedCount r + (if R_DryRun r then 0 else length (filter wk_terminal ws))"
    "mset (R_Instances r') = mset (R_Instances r) + image_mset wk_outcome (mset ws)"
    "R_CandidateCount r' = R_CandidateCount r" "R_ScanComplete r' = R_ScanComplete r" "R_DryRun r' = R_DryRun r"
  by (rule finish_aggregate [OF assms]; simp add: tally_def Let_def)+

lemma aggregate_OK:
  "R_OK (aggregate e r u) \<longleftrightarrow> R_ScanComplete r \<and> R_Errors r = [] \<and> list_all (\<lambda>o1. o_Errors o1 = []) (R_Instances r) \<and> \<not> e"
  by (auto simp: aggregate_def Let_def list_ex_iff list_all_iff case_prod_beta)

end
