(* ===== verification/CleanupReport.thy ===== *)
theory CleanupReport
  imports CleanupService
begin

text \<open>
  What a cleanup report means.  \<open>fate\<close> is the invariant of a selected candidate: as long as no problem
  was recorded against it, it is untouched, skipped for a benign reason, still observed, or cleaned.
  A report without problems then accounts for every candidate (\<open>run_complete_accounts\<close>).
\<close>

section \<open>The fate of a candidate\<close>

abbreviation quiet :: "worker \<Rightarrow> bool" where
  "quiet w \<equiv> o_Errors (wk_outcome w) = []"

text \<open>The volumes of an outcome are those captured by the scan, up to their deletion field.\<close>

definition bare :: "volume \<Rightarrow> volume" where
  "bare v = v\<lparr>v_Deletion := []\<rparr>"

definition volumes_kept :: "record_t \<Rightarrow> volume list \<Rightarrow> bool" where
  "volumes_kept r vs \<longleftrightarrow> map bare vs = map bare (rec_volumes r) \<and>
     (\<forall>v \<in> set vs. v_DeleteOnTermination v = Some True \<longrightarrow> v_Deletion v \<noteq> ''retained'')"

definition benign_skip :: "outcome \<Rightarrow> bool" where
  "benign_skip o1 \<longleftrightarrow> o_Status o1 = ''skipped'' \<and>
     d_Reason (o_Decision o1) \<in> {ExpiryFuture, ExpiryMissing, ExpiryChanged}"

definition waiting :: "worker \<Rightarrow> bool" where
  "waiting w \<longleftrightarrow> o_Status (wk_outcome w) = ''termination_not_requested'' \<and> \<not> wk_active w \<and> \<not> wk_terminal w"

definition watched :: "worker \<Rightarrow> bool" where
  "watched w \<longleftrightarrow> wk_active w \<and> rootProblem (wk_record w) = [] \<and>
     list_ex (volume_pending False) (o_Volumes (wk_outcome w))"

definition finished :: "worker \<Rightarrow> bool" where
  "finished w \<longleftrightarrow> \<not> wk_active w \<and> (benign_skip (wk_outcome w) \<or> cleaned w)"

definition fate :: "worker \<Rightarrow> bool" where
  "fate w \<longleftrightarrow> (quiet w \<longrightarrow> volumes_kept (wk_record w) (o_Volumes (wk_outcome w)) \<and> (watched w \<or> finished w))"

lemma addProblem_noisy [simp]: "o_Errors (addProblem o1 c) \<noteq> []"
  by (simp add: addProblem_def)

lemma volume_problem_noisy [simp]: "volume_problem errs vid \<noteq> []"
  by (auto simp: volume_problem_def hasResourceProblem_def)

lemma keep_errors [simp]:
  "o_Errors (set_decision_state o1 c) = o_Errors o1" "o_Errors (set_skipped o1 r) = o_Errors o1"
  "o_Errors (setRootDiagnostic o1 c) = o_Errors o1"
  by (simp_all add: set_decision_state_def set_skipped_def setRootDiagnostic_def)

lemma fate_noisy: "\<not> quiet w \<Longrightarrow> fate w"
  by (simp add: fate_def)

text \<open>A candidate whose root mapping is in order has a pending root until it is deleted.\<close>

lemma bare_fields [simp]:
  "v_Root (bare v) = v_Root v" "v_DeleteOnTermination (bare v) = v_DeleteOnTermination v" "v_ID (bare v) = v_ID v"
  by (simp_all add: bare_def)

lemma filter_root_bare: "map bare (filter v_Root vs) = filter v_Root (map bare vs)"
  by (simp add: filter_map o_def)

lemma kept_root:
  assumes "rootProblem r = []" "volumes_kept r vs"
  obtains v where "filter v_Root vs = [v]" "v_DeleteOnTermination v = Some True" "v_Root v" "v \<in> set vs"
proof -
  obtain u where u: "filter v_Root (rec_volumes r) = [u]" "v_DeleteOnTermination u = Some True"
    using assms(1) by (auto simp: rootProblem_Nil_iff)
  have "map bare (filter v_Root vs) = [bare u]"
    using assms(2) u(1) by (metis filter_root_bare list.simps(8,9) volumes_kept_def)
  then obtain v where v: "filter v_Root vs = [v]" "bare v = bare u" by auto
  moreover have "v_DeleteOnTermination v = Some True" using v(2) u(2) by (metis bare_fields(2))
  moreover have "v_Root v" "v \<in> set vs" using v(1) by (metis filter_set list.set_intros(1) mem_Collect_eq set_filter)+
  ultimately show ?thesis using that by blast
qed

lemma rootProblem_good: "rootProblem r = [] \<Longrightarrow> \<not> rec_badMapping r"
  by (simp add: rootProblem_Nil_iff)

lemma watched_start:
  assumes "rootProblem r = []" "undeleted r"
  shows "list_ex (volume_pending False) (rec_volumes r) \<and> volumes_kept r (rec_volumes r)"
proof -
  have k: "volumes_kept r (rec_volumes r)" using assms(2) by (auto simp: volumes_kept_def undeleted_def fresh_volume_def)
  obtain v where "v_DeleteOnTermination v = Some True" "v \<in> set (rec_volumes r)"
    using kept_root [OF assms(1) k] by metis
  then show ?thesis using k undeletedD [OF assms(2)] by (auto simp: list_ex_iff volume_pending_def)
qed

subsection \<open>Preparation\<close>

text \<open>A candidate as it is frozen.\<close>

definition candidate :: "worker \<Rightarrow> bool" where
  "candidate w \<longleftrightarrow> d_Eligible (wk_selected w) \<and> d_Reason (wk_selected w) = Expired \<and> waiting w \<and> quiet w \<and>
     o_Volumes (wk_outcome w) = rec_volumes (wk_record w) \<and> undeleted (wk_record w)"

lemma candidate_not_historical: "candidate w \<Longrightarrow> \<not> historicalMappingsAbsent (wk_record w) (d_Reason (wk_selected w))"
  by (simp add: candidate_def historicalMappingsAbsent_def)

lemma dispatch_fate:
  assumes "dispatch_termination E w h = (w', h')" "rootProblem (wk_record w) = []" "undeleted (wk_record w)"
    "o_Volumes (wk_outcome w) = rec_volumes (wk_record w)"
  shows "fate w'"
  using assms(1) watched_start [OF assms(2,3)] assms(2,4)
  unfolding dispatch_termination_def ctx_err_def Let_def
  by (auto simp: fate_def watched_def split: if_splits)

lemma Recheck_skip_reason:
  "\<not> d_Eligible (Recheck sc sel r t) \<Longrightarrow> benign (d_Reason (Recheck sc sel r t)) \<Longrightarrow>
     d_Reason (Recheck sc sel r t) \<noteq> AlreadyTerminated \<Longrightarrow> d_Reason (Recheck sc sel r t) \<noteq> AlreadyTerminating \<Longrightarrow>
     d_Reason (Recheck sc sel r t) \<in> {ExpiryFuture, ExpiryMissing, ExpiryChanged}"
  using Evaluate_eligible_reason [of sc r t]
  by (cases "d_ExpiresAt (Evaluate sc r t)") (auto simp: Recheck_def Let_def benign_def split: if_splits)

lemma act_on_decision_fate:
  assumes act: "act_on_decision E w current d h = (w', h')"
    and c: "candidate w" "rootProblem (wk_record w) = []" and d: "d = Recheck sc sel r t"
  shows "fate w'"
proof -
  let ?w1 = "with_outcome w (\<lambda>o1. set_decision_state o1 (d_State d))"
  note start = watched_start [OF c(2)]
  have k: "undeleted (wk_record w)" "o_Volumes (wk_outcome w) = rec_volumes (wk_record w)"
    "\<not> historicalMappingsAbsent (wk_record w) (d_Reason (wk_selected w))" "d_Eligible (wk_selected w)"
    "\<not> wk_active w" "\<not> wk_terminal w"
    using c candidate_not_historical by (auto simp: candidate_def waiting_def)
  show ?thesis
  proof (cases "\<not> d_Eligible d \<and> d_Reason d \<noteq> AlreadyTerminated \<and> d_Reason d \<noteq> AlreadyTerminating")
    case True
    then have w': "w' = with_outcome ?w1 (\<lambda>o1. let o2 = set_skipped o1 (d_Reason d)
        in if \<not> benign (d_Reason d) then addProblem o2 (reason_string (d_Reason d)) else o2)"
      using act True by (auto simp: act_on_decision_def Let_def)
    show ?thesis
    proof (cases "benign (d_Reason d)")
      case False
      then show ?thesis by (simp add: w' fate_noisy)
    next
      case b: True
      then have "d_Reason d \<in> {ExpiryFuture, ExpiryMissing, ExpiryChanged}"
        using Recheck_skip_reason True d by blast
      then have "benign_skip (wk_outcome w')" using b by (simp add: w' Let_def benign_skip_def set_skipped_def)
      then show ?thesis using k start b by (simp add: fate_def finished_def w' Let_def)
    qed
  next
    case live: False
    define w2 where "w2 = (if d_Reason d = AlreadyTerminated
      then with_outcome ?w1 (\<lambda>o1. o1\<lparr>o_Status := ''already_terminated''\<rparr>)\<lparr>wk_terminal := True\<rparr> else ?w1)"
    have w2: "wk_record w2 = wk_record w" "wk_selected w2 = wk_selected w"
      "o_Volumes (wk_outcome w2) = rec_volumes (wk_record w)"
      by (simp_all add: w2_def k)
    have act2: "fate (w2\<lparr>wk_active := True\<rparr>)"
      "fate (with_outcome w2 (\<lambda>o1. o1\<lparr>o_Status := st\<rparr>)\<lparr>wk_active := True\<rparr>)" for st
      using start k c(2) by (simp_all add: fate_def watched_def w2)
    have "\<not> quiet w' \<or> w' = w2\<lparr>wk_active := True\<rparr> \<or>
        w' = with_outcome w2 (\<lambda>o1. o1\<lparr>o_Status := ''already_terminating''\<rparr>)\<lparr>wk_active := True\<rparr> \<or>
        dispatch_termination E w2 h = (w', h')"
      using act live k w2 unfolding act_on_decision_def Let_def w2_def [symmetric]
      by (auto split: if_splits)
    then show ?thesis
      using fate_noisy act2 dispatch_fate [of E w2 h w' h'] c(2) k(1) w2 by metis
  qed
qed

lemma prepare_fate:
  assumes pr: "prepare E s runID w h = (w', h')" and c: "candidate w"
  shows "fate w'"
proof (cases "rootProblem (wk_record w) = []")
  case False
  then have "\<not> quiet w'" using pr c candidate_not_historical [OF c]
    by (auto simp: prepare_def Let_def candidate_def)
  then show ?thesis by (rule fate_noisy)
next
  case ok: True
  obtain em h1 where em: "emit E s runID ''termination_prepared'' (Some (wk_outcome w)) None h = (em, h1)" by force
  obtain r g where ex: "exact E s (d_InstanceID (wk_selected w)) h1 = (r, g)" by force
  have sel: "d_Eligible (wk_selected w)" using c by (simp add: candidate_def)
  show ?thesis
  proof (cases "em \<and> r \<noteq> None")
    case False
    then have "\<not> quiet w'" using pr ok em ex sel
      by (auto simp: prepare_def Let_def split: if_splits option.splits)
    then show ?thesis by (rule fate_noisy)
  next
    case True
    then obtain current where r: "r = Some current" by auto
    have "act_on_decision E w current (recheck_worker s w current (env_now E g)) (Now # g) = (w', h')"
      using pr ok em ex sel True r by (simp add: prepare_def Let_def now_def)
    then show ?thesis using act_on_decision_fate [OF _ c ok] recheck_worker_ID [OF sel] by metis
  qed
qed

subsection \<open>Observation\<close>

lemma volumes_kept_update:
  assumes "volumes_kept r vs" "bare x = bare (vs ! i)" "v_DeleteOnTermination x = Some True \<longrightarrow> v_Deletion x \<noteq> ''retained''"
  shows "volumes_kept r (vs[i := x])"
proof -
  have "map bare (vs[i := x]) = map bare vs"
    using assms(2) by (metis list_update_id map_update)
  then show ?thesis using assms(1,3) unfolding volumes_kept_def by (auto dest!: set_list_update)
qed

lemma volume_turn_kept:
  "volume_turn E s False nx st left o1 h = (o2, nx', h') \<Longrightarrow> volumes_kept r (o_Volumes o1) \<Longrightarrow>
     volumes_kept r (o_Volumes o2) \<and> (o_Errors o2 = [] \<longrightarrow> o_Errors o1 = []) \<and> o_Status o2 = o_Status o1 \<and>
     o_Decision o2 = o_Decision o1"
proof (induction left arbitrary: st o1)
  case 0
  then show ?case by simp
next
  case (Suc left)
  define i where "i = (nx + st) mod length (o_Volumes o1)"
  define v where "v = o_Volumes o1 ! i"
  note turn = Suc.prems(1) [simplified, unfolded Let_def, folded i_def, folded v_def]
  have kept: "volumes_kept r ((o_Volumes o1)[i := v\<lparr>v_Deletion := d\<rparr>])"
    if "v_DeleteOnTermination v = Some True \<longrightarrow> d \<noteq> ''retained''" for d
    using Suc.prems(2) that by (intro volumes_kept_update) (auto simp: bare_def v_def)
  show ?case
  proof (cases "v_Deletion v = ''deleted'' \<or> v_Deletion v = ''retained''")
    case True
    then show ?thesis using turn Suc by simp
  next
    case live: False
    consider "v_DeleteOnTermination v = None" | "v_DeleteOnTermination v = Some False"
      | "v_DeleteOnTermination v = Some True" by (cases "v_DeleteOnTermination v") auto
    then show ?thesis
    proof cases
      case 1
      then show ?thesis using turn live Suc.IH kept [of "''unavailable''"] by fastforce
    next
      case 2
      then show ?thesis using turn live Suc.IH kept [of "''retained''"] by fastforce
    next
      case 3
      then show ?thesis using turn live kept [of "''deleted''"] Suc.prems(2) by (auto split: if_splits)
    qed
  qed
qed

lemma volume_turn_noisy:
  "volume_turn E s bad nx st left o1 h = (o2, nx', h') \<Longrightarrow> o_Errors o1 \<noteq> [] \<Longrightarrow> o_Errors o2 \<noteq> []"
proof (induction left arbitrary: st o1)
  case (Suc left)
  then show ?case by (auto simp: Let_def split: if_splits)
qed simp

lemma resolve_volumes_quiet:
  "snd (snd (resolve_volumes vs errs root)) = root' \<Longrightarrow> fst (snd (resolve_volumes vs errs root)) = [] \<Longrightarrow>
     errs = [] \<and> root' = root \<and> (\<forall>v \<in> set vs. v_Deletion v = ''deleted'' \<or> v_Deletion v = ''retained'')"
proof (induction vs errs root rule: resolve_volumes.induct)
  case (2 v vs errs root)
  show ?case
  proof (cases "v_Deletion v \<noteq> ''deleted'' \<and> v_Deletion v \<noteq> ''retained''")
    case True
    then show ?thesis using "2.IH"(1) [OF True] "2.prems" by (auto simp: case_prod_beta)
  next
    case False
    then show ?thesis using "2.IH"(2) [OF False] "2.prems" by (auto simp: case_prod_beta)
  qed
qed simp

text \<open>When nothing is recorded for unresolved volumes, all were resolved and the outcome is unchanged.\<close>

lemma unresolved_quiet:
  assumes "o_Errors (unresolvedVolumes o1) = []"
  shows "unresolvedVolumes o1 = o1" "\<forall>v \<in> set (o_Volumes o1). v_Deletion v = ''deleted'' \<or> v_Deletion v = ''retained''"
    "o_Errors o1 = []"
proof -
  obtain ws errs root where e: "resolve_volumes (o_Volumes o1) (o_Errors o1) (o_RootDeletion o1) = (ws, errs, root)"
    by (cases "resolve_volumes (o_Volumes o1) (o_Errors o1) (o_RootDeletion o1)")
  have errs: "errs = []" using assms by (simp add: unresolvedVolumes_def e)
  note q = resolve_volumes_quiet [of "o_Volumes o1" "o_Errors o1" "o_RootDeletion o1", unfolded e fst_conv snd_conv, OF refl errs]
  show all: "\<forall>v \<in> set (o_Volumes o1). v_Deletion v = ''deleted'' \<or> v_Deletion v = ''retained''" and "o_Errors o1 = []"
    using q by auto
  have "ws = map settled (o_Volumes o1)" using resolve_volumes_eq [of "o_Volumes o1" "o_Errors o1" "o_RootDeletion o1"] e by simp
  also have "\<dots> = o_Volumes o1" using all by (intro map_idI) (auto simp: settled_def)
  finally show "unresolvedVolumes o1 = o1" using q errs unfolding unresolvedVolumes_def e by simp
qed

definition diagnosed :: "worker \<Rightarrow> outcome" where
  "diagnosed w = (let code = rootProblem (wk_record w) in
     if code \<noteq> [] then (let o1 = setRootDiagnostic (wk_outcome w) code
                      in if hasProblem o1 code then o1 else addProblem o1 code)
     else wk_outcome w)"

lemma observe_volumes_parts:
  assumes ob: "observe_volumes E s w h = (w', h')"
  obtains o2 nx where
    "volume_turn E s (rec_badMapping (wk_record w)) (wk_nextVolume w) 0 (length (o_Volumes (diagnosed w))) (diagnosed w) h
       = (o2, nx, h')"
    "wk_active w' = list_ex (volume_pending (rec_badMapping (wk_record w))) (o_Volumes o2)"
    "wk_outcome w' = (let oz = (if rootProblem (wk_record w) = []
         then o2\<lparr>o_RootDeletion := root_deletion (o_Volumes o2) (o_RootDeletion o2)\<rparr> else o2)
       in if wk_active w' then oz else unresolvedVolumes oz)"
    "wk_terminal w' = wk_terminal w" "wk_record w' = wk_record w"
proof -
  obtain o2 nx g where turn: "volume_turn E s (rec_badMapping (wk_record w)) (wk_nextVolume w) 0
      (length (o_Volumes (diagnosed w))) (diagnosed w) h = (o2, nx, g)"
    by (cases "volume_turn E s (rec_badMapping (wk_record w)) (wk_nextVolume w) 0 (length (o_Volumes (diagnosed w))) (diagnosed w) h")
  define p where "p = list_ex (volume_pending (rec_badMapping (wk_record w))) (o_Volumes o2)"
  define oz where "oz = (if rootProblem (wk_record w) = []
         then o2\<lparr>o_RootDeletion := root_deletion (o_Volumes o2) (o_RootDeletion o2)\<rparr> else o2)"
  have "observe_volumes E s w h = (w\<lparr>wk_outcome := (if p then oz else unresolvedVolumes oz),
      wk_nextVolume := nx, wk_active := p\<rparr>, g)"
    unfolding observe_volumes_def Let_def diagnosed_def [unfolded Let_def, symmetric] turn prod.case
      p_def [symmetric] oz_def [symmetric] by (rule refl)
  with ob turn show ?thesis by (intro that [of o2 nx]) (auto simp: p_def oz_def Let_def)
qed
lemma observe_volumes_fate:
  assumes ob: "observe_volumes E s w h = (w', h')" and t: "wk_terminal w"
    and q: "quiet w \<Longrightarrow> volumes_kept (wk_record w) (o_Volumes (wk_outcome w)) \<and> rootProblem (wk_record w) = []"
  shows "fate w'"
proof -
  obtain o2 nx where turn: "volume_turn E s (rec_badMapping (wk_record w)) (wk_nextVolume w) 0
      (length (o_Volumes (diagnosed w))) (diagnosed w) h = (o2, nx, h')"
    and act: "wk_active w' = list_ex (volume_pending (rec_badMapping (wk_record w))) (o_Volumes o2)"
    and out: "wk_outcome w' = (let oz = (if rootProblem (wk_record w) = []
         then o2\<lparr>o_RootDeletion := root_deletion (o_Volumes o2) (o_RootDeletion o2)\<rparr> else o2)
       in if wk_active w' then oz else unresolvedVolumes oz)"
    and same: "wk_terminal w' = wk_terminal w" "wk_record w' = wk_record w"
    by (rule observe_volumes_parts [OF ob])
  show ?thesis unfolding fate_def
  proof
    assume quiet: "quiet w'"
    define oz where "oz = (if rootProblem (wk_record w) = []
         then o2\<lparr>o_RootDeletion := root_deletion (o_Volumes o2) (o_RootDeletion o2)\<rparr> else o2)"
    have ez: "o_Errors oz = o_Errors o2" by (simp add: oz_def)
    have oz: "wk_outcome w' = oz \<or> wk_outcome w' = unresolvedVolumes oz"
      unfolding out Let_def oz_def [symmetric] by simp
    then have e2: "o_Errors o2 = []" using quiet unresolved_quiet(3) [of oz] ez by auto
    then have "o_Errors (diagnosed w) = []" using volume_turn_noisy [OF turn] by blast
    then have qw: "quiet w" "rootProblem (wk_record w) = []"
      using q by (auto simp: diagnosed_def Let_def hasProblem_def split: if_splits)
    have d: "diagnosed w = wk_outcome w" "rec_badMapping (wk_record w) = False"
      using qw rootProblem_good by (simp_all add: diagnosed_def)
    have kept: "volumes_kept (wk_record w) (o_Volumes o2)"
      using volume_turn_kept [OF turn [unfolded d]] q [OF qw(1)] by blast
    have o3: "wk_outcome w' = oz" using oz quiet unresolved_quiet(1) [of oz] by auto
    have oz2: "oz = o2\<lparr>o_RootDeletion := root_deletion (o_Volumes o2) (o_RootDeletion o2)\<rparr>"
      by (simp add: oz_def qw(2))
    have vols: "o_Volumes (wk_outcome w') = o_Volumes o2" by (simp add: o3 oz2)
    show "volumes_kept (wk_record w') (o_Volumes (wk_outcome w')) \<and> (watched w' \<or> finished w')"
    proof (cases "wk_active w'")
      case True
      then show ?thesis using kept qw(2) act unfolding vols same(2) d(2) watched_def by simp
    next
      case False
      obtain v where v: "filter v_Root (o_Volumes o2) = [v]" "v_DeleteOnTermination v = Some True" "v \<in> set (o_Volumes o2)"
        using kept_root [OF qw(2) kept] by metis
      then have "v_Deletion v = ''deleted''"
        using False unfolding act d(2) by (auto simp: list_ex_iff volume_pending_def)
      then have "cleaned w'" using v t same(1) by (simp add: cleaned_def o3 oz2 root_deletion_eq)
      then show ?thesis using False kept unfolding vols same(2) finished_def by simp
    qed
  qed
qed

lemma observe_fate:
  assumes ob: "observe E s w h = (w', h')" and f: "fate w" "wk_active w"
  shows "fate w'"
proof -
  have q: "quiet w \<Longrightarrow> volumes_kept (wk_record w) (o_Volumes (wk_outcome w)) \<and> rootProblem (wk_record w) = []"
    using f by (auto simp: fate_def watched_def finished_def)
  obtain r g where ex: "exact E s (d_InstanceID (wk_selected w)) (CtxErr # h) = (r, g)" by force
  have seen: "fate w'" if "observe_volumes E s (with_outcome w (\<lambda>o1. (set_decision_state o1 ''terminated'')
      \<lparr>o_Status := ''termination_observed''\<rparr>)\<lparr>wk_terminal := True\<rparr>) k = (w', h')" for k
    by (rule observe_volumes_fate [OF that]) (use q in auto)
  have vols: "fate w'" if "wk_terminal w" "observe_volumes E s w k = (w', h')" for k
    by (rule observe_volumes_fate [OF that(2,1)]) (use q in auto)
  consider "w' = w" | k where "wk_terminal w" "observe_volumes E s w k = (w', h')"
    | "\<not> quiet w'" | k where "observe_volumes E s (with_outcome w (\<lambda>o1. (set_decision_state o1 ''terminated'')
      \<lparr>o_Status := ''termination_observed''\<rparr>)\<lparr>wk_terminal := True\<rparr>) k = (w', h')"
    using ob ex unfolding observe_def Let_def
    by (cases r) (auto simp: go_defs split: if_splits)
  then show ?thesis using f(1) seen vols fate_noisy by cases auto
qed

subsection \<open>Settling\<close>

text \<open>After the rounds nothing is left unobserved without a problem.\<close>

lemma settle_fate:
  assumes "fate w" "settle_outcome e w = w'"
  shows "quiet w' \<longrightarrow> benign_skip (wk_outcome w') \<or> cleaned w'"
proof
  assume quiet: "quiet w'"
  define w1 where "w1 = (if wk_active w
    then (if \<not> wk_terminal w then with_outcome w (\<lambda>o1. addProblem o1 ''termination_unresolved'')
          else with_outcome w unresolvedVolumes) else w)"
  have w': "w' = w1" using quiet assms(2) unfolding settle_outcome_def Let_def w1_def [symmetric]
    by (auto split: if_splits)
  have inactive: "\<not> wk_active w"
  proof
    assume a: "wk_active w"
    then have t: "wk_terminal w" and u: "o_Errors (unresolvedVolumes (wk_outcome w)) = []"
      using quiet unfolding w' w1_def by (auto split: if_splits)
    note u = unresolved_quiet [OF u]
    then have "watched w" "volumes_kept (wk_record w) (o_Volumes (wk_outcome w))"
      using assms(1) a by (auto simp: fate_def finished_def)
    then show False using u(2) by (auto simp: watched_def list_ex_iff volume_pending_def volumes_kept_def)
  qed
  then have "w' = w" by (simp add: w' w1_def)
  then show "benign_skip (wk_outcome w') \<or> cleaned w'"
    using assms(1) quiet inactive by (auto simp: fate_def watched_def finished_def)
qed

section \<open>The main history\<close>

lemma dispatch_jobs_suffix: "dispatch_jobs E js h = (jobs, h') \<Longrightarrow> suffix h h'"
proof (induction js arbitrary: h jobs h')
  case (Cons j js)
  obtain t h2 where rec: "dispatch_jobs E js (Offer # CtxErr # h) = (t, h2)" by force
  have "h' = CtxErr # h \<or> h' = h2"
    using Cons.prems rec by (auto simp: ctx_err_def Let_def split: if_splits)
  moreover have "suffix h h2" using Cons.IH [OF rec] by (blast dest: suffix_ConsD)
  ultimately show ?case by (auto simp: suffix_Cons)
qed simp

lemma parallel_suffix: "parallel G fn ps h = (ps', h') \<Longrightarrow> suffix h h'"
  by (auto simp: parallel_def split: prod.splits dest: dispatch_jobs_suffix)

lemma rounds_suffix: "rounds G s left ps h = (ps', b, h') \<Longrightarrow> suffix h h'"
proof (induction left arbitrary: ps h)
  case (Suc left)
  obtain ps1 h1 where par: "parallel G (observe_worker s) ps (CtxErr # h) = (ps1, h1)" by force
  have s1: "suffix h h1" using parallel_suffix [OF par] by (simp add: suffix_ConsD)
  have "h' = CtxErr # h \<or> h' = h1 \<or> h' = PollWait # h1 \<or>
      rounds G s left ps1 (PollWait # h1) = (ps', b, h') \<or> rounds G s left ps1 h1 = (ps', b, h')"
    using Suc.prems par by (auto simp: ctx_err_def Let_def split: if_splits)
  then show ?case using s1 Suc.IH [of ps1] by (auto simp: suffix_Cons intro: suffix_order.trans dest: suffix_ConsD)
qed simp

lemma settle_all_suffix: "settle_all E ps h = (ps', h') \<Longrightarrow> suffix h h'"
proof (induction ps arbitrary: h ps')
  case (Cons p ps)
  then show ?case
    by (cases p) (auto simp: ctx_err_def Let_def split: prod.splits dest!: Cons.IH dest: suffix_ConsD)
qed simp

text \<open>A context that has ended stays ended, and an offer is only lost to its end.\<close>

definition ctx_sticky :: "env \<Rightarrow> bool" where
  "ctx_sticky E \<longleftrightarrow> (\<forall>h c. env_ctx E h \<longrightarrow> env_ctx E (c # h)) \<and> (\<forall>h. \<not> env_offer E h \<longrightarrow> env_ctx E (Offer # h))"

lemma ctx_sticky_suffix: "ctx_sticky E \<Longrightarrow> suffix h h' \<Longrightarrow> env_ctx E h \<Longrightarrow> env_ctx E h'"
  unfolding suffix_def
proof (elim exE)
  fix d assume st: "ctx_sticky E" and c: "env_ctx E h" and e: "h' = d @ h"
  have "env_ctx E (d @ h)" using st c by (induction d) (auto simp: ctx_sticky_def)
  with e show "env_ctx E h'" by simp
qed

lemma dispatch_jobs_all:
  "ctx_sticky E \<Longrightarrow> \<not> env_ctx E h'' \<Longrightarrow> suffix h' h'' \<Longrightarrow> dispatch_jobs E js h = (jobs, h') \<Longrightarrow> jobs = js"
proof (induction js arbitrary: h jobs)
  case (Cons j js)
  obtain t h2 where rec: "dispatch_jobs E js (Offer # CtxErr # h) = (t, h2)" by force
  have alive: "\<not> env_ctx E g" if "suffix g h'" for g
    using ctx_sticky_suffix [OF Cons.prems(1)] that Cons.prems(2,3) suffix_order.trans by blast
  have "\<not> env_ctx E h" using alive [OF dispatch_jobs_suffix [OF Cons.prems(4)]] .
  then have e: "h' = h2" "jobs = (if env_offer E (CtxErr # h) then j # t else t)"
    using Cons.prems(4) rec by (auto simp: ctx_err_def Let_def)
  have "suffix (Offer # CtxErr # h) h'" using dispatch_jobs_suffix [OF rec] e by simp
  then have "env_offer E (CtxErr # h)" using alive Cons.prems(1) by (auto simp: ctx_sticky_def)
  moreover have "t = js" using Cons.IH [OF Cons.prems(1,2), of "Offer # CtxErr # h" t] rec Cons.prems(3) e by simp
  ultimately show ?case using e by simp
qed simp

section \<open>A report without problems\<close>

lemma select_worker_candidate:
  assumes "d_Eligible (wk_selected (select_worker s t True rec))" "undeleted rec"
  shows "candidate (select_worker s t True rec)"
proof -
  have e: "\<not> rec_conflict rec" "d_Eligible (Evaluate (sv_scope s) (rec_resource rec) t)"
    using assms(1) by (simp_all add: select_worker_eligible)
  then have "d_Reason (Evaluate (sv_scope s) (rec_resource rec) t) = Expired" by (simp add: Evaluate_eligible_reason)
  then show ?thesis using e assms(2)
    by (simp add: candidate_def waiting_def select_worker_def Let_def benign_def)
qed

lemma decide_fate:
  assumes "decide_worker s runID False True E (w, g) = (w', g')" "candidate w"
  shows "fate w'"
  using assms(1)
proof (cases rule: decide_worker_cases)
  case silent
  then show ?thesis by (simp add: fate_noisy)
next
  case keep
  then show ?thesis using assms(2) by (simp add: candidate_def actionable_def)
next
  case (act g1)
  then show ?thesis using prepare_fate assms(2) by blast
qed

lemma work_accounts:
  assumes wk: "work G s runID False True ws h = (ps, b, h')"
    and sticky: "ctx_sticky (g_main G)" and alive: "\<not> env_ctx (g_main G) h''" "suffix h' h''"
    and cand: "\<And>i. i < length ws \<Longrightarrow> d_Eligible (wk_selected (ws ! i)) \<Longrightarrow> candidate (ws ! i)"
  shows "length ps = length ws \<and> pool_all (\<lambda>i (w, g). d_Eligible (wk_selected (ws ! i)) \<longrightarrow> quiet w \<longrightarrow>
    benign_skip (wk_outcome w) \<or> cleaned w) ps"
proof -
  let ?init = "map (\<lambda>w. (w, [])) ws"
  obtain p1 h1 where a: "parallel G (decide_worker s runID False True) ?init h = (p1, h1)" by force
  obtain p2 b2 h2 where r: "rounds G s (nat (ObservationAttempts (sv_limits s))) p1 h1 = (p2, b2, h2)"
    by (cases "rounds G s (nat (ObservationAttempts (sv_limits s))) p1 h1")
  obtain p3 h3 where st: "settle_all (g_main G) p2 h2 = (p3, h3)" by force
  obtain p4 h4 where e: "parallel G (outcome_worker s runID) p3 h3 = (p4, h4)" by force
  have "h' = h4" using wk by (simp add: work_def a r st e)
  then have s1: "suffix h1 h''"
    using rounds_suffix [OF r] settle_all_suffix [OF st] parallel_suffix [OF e] alive(2)
    by (blast intro: suffix_order.trans)
  obtain jobs where j: "dispatch_jobs (g_main G) [0..<length ws] h = (jobs, h1)"
    using a by (auto simp: parallel_def split: prod.splits)
  have taken: "fst (dispatch_jobs (g_main G) [0..<length ws] h) = [0..<length ws]"
    using dispatch_jobs_all [OF sticky alive(1) s1 j] j by simp
  show ?thesis
  proof (rule work_all [OF wk, where P = "\<lambda>i (w, g). d_Eligible (wk_selected (ws ! i)) \<longrightarrow> fate w"],
      goal_cases init dec obs settle out)
    case (init i)
    then show ?case using taken by simp
  next
    case (dec i)
    then show ?case using cand decide_fate
      by (cases "decide_worker s runID False True (g_worker G i) (ws ! i, [])") auto
  next
    case (obs i wh)
    obtain w g w' g' where e: "wh = (w, g)" "observe_worker s (g_worker G i) (w, g) = (w', g')" by fastforce
    from e(2) show ?case
      by (cases rule: observe_worker_cases) (use obs e observe_fate in auto)
  next
    case (settle i w g e)
    then show ?case using settle_fate by blast
  next
    case (out i wh)
    obtain w g w' g' where e: "wh = (w, g)" "outcome_worker s runID (g_worker G i) (w, g) = (w', g')" by fastforce
    show ?case using out e outcome_worker_frame(5,7-10) [OF e(2)] by (auto simp: benign_skip_def cleaned_def)
  qed
qed

lemma finish_OK_alive:
  assumes "finish E s runID r ws h = ((r', err), h')" "R_OK r'"
  shows "\<not> env_ctx E (Now # h)"
proof -
  define r1 where "r1 = fst (tally r ws)"
  define dn where "dn = (case Timestamp (env_now E h) of Inr ts \<Rightarrow> ts | Inl _ \<Rightarrow> [])"
  define r2 where "r2 = (let r = r1\<lparr>R_CompletedAt := dn\<rparr> in if dn = [] then add_error r ''clock_invalid'' else r)"
  define r3 where "r3 = aggregate (env_ctx E (Now # h)) r2 (snd (tally r ws))"
  have "r' = r3 \<or> (\<exists>e. r' = aggregate e (add_error r3 ''evidence_unavailable'') (snd (tally r ws)))"
    using assms(1) unfolding finish_def Let_def
    by (auto simp: go_defs r3_def r2_def r1_def Let_def dn_def split: prod.splits if_splits)
  moreover have "\<not> R_OK (aggregate e (add_error r3 ''evidence_unavailable'') u)" for e u
    by (simp add: aggregate_OK)
  ultimately have "R_OK r3" using assms(2) by auto
  then show ?thesis by (simp add: r3_def aggregate_OK)
qed

lemma finish_OK_instances:
  assumes "finish E s runID r ws h = ((r', err), h')" "R_OK r'" "w \<in> set ws"
  shows "quiet w \<and> wk_outcome w \<in> set (R_Instances r')"
proof -
  have "wk_outcome w \<in># mset (R_Instances r')"
    using assms(3) unfolding finish_fields(3) [OF assms(1)] by auto
  then have m: "wk_outcome w \<in> set (R_Instances r')" by simp
  obtain r0 ended u where "r' = aggregate ended r0 u" using finish_aggregate [OF assms(1)] by metis
  then show ?thesis using m assms(2) by (auto simp: aggregate_OK list_all_iff)
qed

lemma distinct_concat_map_upt:
  assumes "\<And>i. i < n \<Longrightarrow> distinct (f i)" "\<And>i j. i < n \<Longrightarrow> j < n \<Longrightarrow> i \<noteq> j \<Longrightarrow> set (f i) \<inter> set (f j) = {}"
  shows "distinct (concat (map f [0..<n]))"
  using assms
proof (induction n)
  case (Suc n)
  have "distinct (concat (map f [0..<n]))" by (rule Suc.IH) (use Suc.prems in auto)
  moreover have "set (f i) \<inter> set (f n) = {}" if "i < n" for i using Suc.prems(2) [of i n] that by simp
  ultimately show ?case using Suc.prems(1) [of n] by fastforce
qed simp

lemma Run_late_workers:
  assumes "scan E s [] h1 = (records, complete, h2)" "scanned s t complete records r0 = (r1, ws)"
  shows "ws = map (select_worker s t complete) records" "R_ScanComplete r1 = complete" "R_DryRun r1 = R_DryRun r0"
    "\<And>rec. rec \<in> set records \<Longrightarrow> undeleted rec"
  using assms scan_undeleted [OF assms(1)] by (auto simp: scanned_def Let_def add_error_def split: if_splits)

lemma Run_OK_accounts:
  assumes run: "Run G s False h = ((r, err), ps, h')" and ok: "R_OK r" and sticky: "ctx_sticky (g_main G)"
    and w: "(w, g) \<in> set ps" and el: "d_Eligible (wk_selected w)"
  shows "wk_outcome w \<in> set (R_Instances r) \<and> (benign_skip (wk_outcome w) \<or> cleaned w)"
  using run
proof (cases rule: Run_cases)
  case early
  then show ?thesis using w by simp
next
  case (late runID t ts records complete h1 h2 r1 ws b h3 r2)
  note ws = Run_late_workers [OF late(1,2)]
  have inst: "quiet w" "wk_outcome w \<in> set (R_Instances r)"
    using finish_OK_instances [OF late(5) ok] w by force+
  have "R_ScanComplete r" using finish_aggregate [OF late(5)] ok by (metis aggregate_OK aggregate_fields(1))
  then have complete: "complete = True" using finish_fields(5) [OF late(5)] late(4) ws(2) by (auto split: if_splits)
  note wk = late(3) [unfolded complete]
  have cand: "candidate (ws ! i)" if "i < length ws" "d_Eligible (wk_selected (ws ! i))" for i
    using that ws(1,4) select_worker_candidate complete by auto
  note acc = work_accounts [OF wk sticky finish_OK_alive [OF late(5) ok] _ cand]
  have acc: "length ps = length ws" "pool_all (\<lambda>i (w, g). d_Eligible (wk_selected (ws ! i)) \<longrightarrow> quiet w \<longrightarrow>
      benign_skip (wk_outcome w) \<or> cleaned w) ps"
    using acc by (auto simp: suffix_Cons)
  have same: "pool_all (\<lambda>i (w, g). same_worker (ws ! i) w) ps"
    using work_once [OF wk] by (auto simp: pool_all_def case_prod_beta)
  obtain i where i: "i < length ps" "ps ! i = (w, g)" using w by (auto simp: in_set_conv_nth)
  have "same_worker (ws ! i) w" using same i by (auto simp: pool_all_def)
  then show ?thesis using acc(2) i el inst by (auto simp: pool_all_def same_worker_def)
qed

section \<open>Properties\<close>

lemma termination_authorized_same:
  "same_worker w w' \<Longrightarrow> termination_authorized E s w g h = termination_authorized E s w' g h"
  unfolding termination_authorized_def same_worker_def by (elim conjE) (simp only:)

lemma once_authorized_same:
  assumes "same_worker w w'" "once_authorized E s c w g"
  shows "once_authorized E s True w' g"
  using assms(2) termination_authorized_same [OF assms(1)] assms(1)
  unfolding once_authorized_def by (simp add: same_worker_def) metis

lemma Run_terminations:
  assumes run: "Run G s dryRun h = (res, ps, h')"
  shows "\<forall>i < length ps. once_authorized (g_worker G i) s (\<not> dryRun) (fst (ps ! i)) (snd (ps ! i))"
    "distinct (concat (map (\<lambda>(w, g). terminations g) ps))"
proof -
  obtain r err where res: "res = (r, err)" by force
  have "(\<forall>i < length ps. once_authorized (g_worker G i) s (\<not> dryRun) (fst (ps ! i)) (snd (ps ! i))) \<and>
      distinct (concat (map (\<lambda>(w, g). terminations g) ps))"
    using run [unfolded res]
  proof (cases rule: Run_cases)
    case early
    then show ?thesis by simp
  next
    case (late runID t ts records complete h1 h2 r1 ws b h3 r2)
    note ws = Run_late_workers [OF late(1,2)]
    show ?thesis
    proof (cases dryRun)
      case True
      then have "dryRun = True" by simp
      note d = work_dry [OF late(3) [unfolded this]]
      then have none: "terminations (snd (ps ! i)) = []" if "i < length ps" for i using that by simp
      then have "\<forall>ts \<in> set (map (\<lambda>(w, g). terminations g) ps). ts = []"
        by (auto simp: in_set_conv_nth) (metis snd_conv)
      then have "concat (map (\<lambda>(w, g). terminations g) ps) = []" by (simp only: concat_eq_Nil_conv)
      then have "distinct (concat (map (\<lambda>(w, g). terminations g) ps))" by (simp only: distinct.simps(1))
      then show ?thesis using none by (simp add: once_authorized_def)
    next
      case False
      then have o1: "length ps = length ws" "pool_all (\<lambda>i (w, g). same_worker (ws ! i) w \<and>
          once_authorized (g_worker G i) s complete (ws ! i) g) ps"
        using work_once late(3) by auto
      have each: "same_worker (ws ! i) (fst (ps ! i))"
        "once_authorized (g_worker G i) s complete (ws ! i) (snd (ps ! i))" if "i < length ps" for i
        using o1(2) that by (auto simp: pool_all_def case_prod_beta)
      have auth: "once_authorized (g_worker G i) s True (fst (ps ! i)) (snd (ps ! i))" if "i < length ps" for i
        using once_authorized_same [OF each [OF that]] .
      let ?t = "\<lambda>i. terminations (snd (ps ! i))"
      have id: "?t i = [] \<or> (?t i = [r_ID (rec_resource (records ! i))] \<and> r_ID (rec_resource (records ! i)) \<noteq> [])"
        if "i < length ps" for i
      proof -
        have i: "ws ! i = select_worker s t complete (records ! i)" "i < length records"
          using that o1(1) ws(1) by simp_all
        have "re_match instanceRE (r_ID (rec_resource (records ! i)))" if "d_Eligible (wk_selected (ws ! i))"
          using that unfolding i select_worker_eligible Evaluate_eligible_iff in_scope_def by blast
        then show ?thesis using each(2) [OF that] i by (auto simp: once_authorized_def)
      qed
      have "distinct (concat (map ?t [0..<length ps]))"
      proof (rule distinct_concat_map_upt)
        show "distinct (?t i)" if "i < length ps" for i using id [OF that] by auto
        show "set (?t i) \<inter> set (?t j) = {}" if "i < length ps" "j < length ps" "i \<noteq> j" for i j
          using id [OF that(1)] id [OF that(2)] scan_distinct [OF late(1), of i j] that o1(1) ws(1) by auto
      qed
      moreover have "map (\<lambda>(w, g). terminations g) ps = map ?t [0..<length ps]"
        by (intro nth_equalityI) (auto simp: case_prod_beta)
      ultimately show ?thesis using auth False by simp
    qed
  qed
  then show "\<forall>i < length ps. once_authorized (g_worker G i) s (\<not> dryRun) (fst (ps ! i)) (snd (ps ! i))"
    "distinct (concat (map (\<lambda>(w, g). terminations g) ps))" by simp_all
qed

end
