(* ===== verification/CleanupProperties.thy ===== *)
theory CleanupProperties
  imports CleanupReport
begin

text \<open>
  The properties of the cleanup service, on top of the lemmas of the component theories, and one
  concrete run in which their hypotheses hold: an expired instance with one root volume is found,
  terminated, seen terminated, and its volume seen deleted.
\<close>

section \<open>A concrete run\<close>

definition ex_scope :: scope where
  "ex_scope = \<lparr>s_Account = ''123456789012'', s_Region = ''us-east-1'', s_Deployment = ''dev'', s_Owner = ''alice''\<rparr>"

definition ex_limits :: limits where
  "ex_limits = \<lparr>RequestTimeout = 0, InvocationTimeout = 0, MaxPages = 2, ObservationAttempts = 3, Concurrency = 1,
     ReadAttempts = 1, PollInterval = 0\<rparr>"

definition ex_service :: service where
  "ex_service = \<lparr>sv_scope = ex_scope, sv_limits = ex_limits\<rparr>"

definition ex_tag :: "string \<Rightarrow> string \<Rightarrow> tag" where
  "ex_tag k v = \<lparr>t_Key = Some k, t_Value = Some v\<rparr>"

definition ex_instance :: "string \<Rightarrow> aws_instance" where
  "ex_instance st = \<lparr>ai_InstanceId = Some ''i-0000000a'', ai_State = Some \<lparr>is_Name = st, is_Code = None\<rparr>,
     ai_Placement = None,
     ai_Tags = [ex_tag ''Deployment'' ''dev'', ex_tag ''ExpiresAt'' ''0001-01-01T00:00:01Z'',
                ex_tag ''ManagedBy'' ''devbox'', ex_tag ''Owner'' ''alice''],
     ai_RootDeviceName = Some ''/dev/xvda'', ai_RootDeviceType = ''ebs'',
     ai_BlockDeviceMappings = [\<lparr>bd_DeviceName = Some ''/dev/xvda'',
       bd_Ebs = Some \<lparr>eb_VolumeId = Some ''vol-0000000a'', eb_VolumeOwnerId = None, eb_Status = ''attached'',
                      eb_DeleteOnTermination = Some True\<rparr>\<rparr>],
     ai_ImageId = None, ai_InstanceType = [], ai_SubnetId = None, ai_InstanceLifecycle = [], ai_ClientToken = None\<rparr>"

definition ok_reply :: "'a \<Rightarrow> 'a reply" where
  "ok_reply a = \<lparr>rp_out = Some a, rp_err = None, rp_ctx = False\<rparr>"

definition ex_now :: gotime where "ex_now = 5 * second"

definition ex_then :: gotime where "ex_then = second"

definition ex_env :: env where
  "ex_env = \<lparr>env_ctx = \<lambda>h. False, env_now = \<lambda>h. ex_now, env_rand = \<lambda>h. Some ''r'',
     env_sts = \<lambda>h. ok_reply \<lparr>ci_Account = Some ''123456789012'', ci_Arn = None\<rparr>,
     env_instances = \<lambda>h iid token. ok_reply \<lparr>di_Reservations = [\<lparr>rs_OwnerId = Some ''123456789012'',
       rs_Instances = [ex_instance (if terminations h = [] then ''running'' else ''terminated'')]\<rparr>], di_NextToken = None\<rparr>,
     env_terminate = \<lambda>h iid. ok_reply [\<lparr>sc_InstanceId = Some iid,
       sc_CurrentState = Some \<lparr>is_Name = ''shutting-down'', is_Code = Some 32\<rparr>,
       sc_PreviousState = Some \<lparr>is_Name = ''running'', is_Code = Some 16\<rparr>\<rparr>],
     env_volumes = \<lambda>h vid. \<lparr>rp_out = None, rp_err = Some (APIError ''InvalidVolume.NotFound''), rp_ctx = False\<rparr>,
     env_emit = \<lambda>h e. True, env_wait = \<lambda>h. True, env_offer = \<lambda>h. True, env_arn = \<lambda>t. None\<rparr>"

definition ex_genv :: genv where
  "ex_genv = \<lparr>g_main = ex_env, g_worker = \<lambda>i. ex_env\<rparr>"


lemma ex_ts: "Timestamp ex_now = Inr ''0001-01-01T00:00:05Z''"
  by (simp add: Timestamp_def time_eval second_def ex_now_def)

lemma ex_pt: "ParseTimestamp ''0001-01-01T00:00:01Z'' = Inr ex_then"
  by (rule ts.iff [THEN iffD2]) (simp add: Timestamp_def time_eval second_def ex_then_def)

lemma ex_order: "\<not> ex_now < ex_then"
  by (simp add: ex_now_def ex_then_def second_def)

definition ex_tags :: "tag list" where
  "ex_tags = [ex_tag ''Deployment'' ''dev'', ex_tag ''ExpiresAt'' ''0001-01-01T00:00:01Z'',
     ex_tag ''ManagedBy'' ''devbox'', ex_tag ''Owner'' ''alice'']"

definition ex_volume :: "string \<Rightarrow> volume" where
  "ex_volume d = \<lparr>v_ID = ''vol-0000000a'', v_Device = ''/dev/xvda'', v_Root = True,
     v_DeleteOnTermination = Some True, v_Deletion = d\<rparr>"

definition ex_record :: "string \<Rightarrow> record_t" where
  "ex_record st = \<lparr>rec_resource = \<lparr>r_ID = ''i-0000000a'', r_Account = ''123456789012'', r_Region = ''us-east-1'',
       r_State = st, r_Tags = ex_tags\<rparr>,
     rec_rootDevice = ''/dev/xvda'', rec_rootType = ''ebs'', rec_volumes = [ex_volume ''not_observed''],
     rec_badMapping = False, rec_conflict = False\<rparr>"

lemma ex_record_of: "record_of ex_service (Some ''123456789012'') (ex_instance ''running'') = ex_record ''running''"
  "record_of ex_service (Some ''123456789012'') (ex_instance ''terminated'') = ex_record ''terminated''"
  by code_simp+

lemma ex_in_scope: "Scope_Validate ex_scope = Inr ()" "re_match instanceRE ''i-0000000a''"
  by code_simp+

definition ex_decision :: "string \<Rightarrow> bool \<Rightarrow> reason \<Rightarrow> decision" where
  "ex_decision st el rs = \<lparr>d_InstanceID = ''i-0000000a'', d_State = st, d_ExpiresAt = Some ''0001-01-01T00:00:01Z'',
     d_EvaluatedAt = ''0001-01-01T00:00:05Z'', d_Eligible = el, d_Reason = rs\<rparr>"

lemma ex_tags_read: "scope_tags ex_tags Map.empty = Inr [''Deployment'' \<mapsto> ''dev'', ''ManagedBy'' \<mapsto> ''devbox'', ''Owner'' \<mapsto> ''alice'']"
  "InspectTags ex_tags = (Some ''0001-01-01T00:00:01Z'', NoReason)"
  by (simp_all add: ex_tags_def ex_tag_def TagKey_def InspectTags_def ex_pt)

lemma ex_scope_fields [simp]: "s_Account ex_scope = ''123456789012''" "s_Region ex_scope = ''us-east-1''"
  "s_Deployment ex_scope = ''dev''" "s_Owner ex_scope = ''alice''"
  by (simp_all add: ex_scope_def)

lemma ex_evaluate:
  "Evaluate ex_scope (rec_resource (ex_record ''running'')) ex_now = ex_decision ''running'' True Expired"
  "Evaluate ex_scope (rec_resource (ex_record ''terminated'')) ex_now = ex_decision ''terminated'' False AlreadyTerminated"
  by (simp_all add: Evaluate_def ex_record_def ex_tags_read ex_in_scope ex_ts ex_pt ex_order ex_decision_def
      parsed_or_zero_def live_states_def map_get_def Let_def)

lemma ex_recheck:
  "Recheck ex_scope (ex_decision ''running'' True Expired) (rec_resource (ex_record ''running'')) ex_now =
     ex_decision ''running'' True Expired"
  by (simp add: Recheck_def ex_evaluate Let_def) (simp add: ex_decision_def ex_record_def)

lemma ex_env_simps [simp]:
  "env_ctx ex_env h = False" "env_now ex_env h = ex_now" "env_rand ex_env h = Some ''r''"
  "env_emit ex_env h e = True" "env_wait ex_env h = True" "env_offer ex_env h = True"
  by (simp_all add: ex_env_def)

lemma ex_service_fields [simp]: "sv_scope ex_service = ex_scope" "MaxPages (sv_limits ex_service) = 2"
  "ObservationAttempts (sv_limits ex_service) = 3"
  by (simp_all add: ex_service_def ex_limits_def)

lemma ex_reply: "env_instances ex_env h iid token =
    ok_reply \<lparr>di_Reservations = [\<lparr>rs_OwnerId = Some ''123456789012'',
       rs_Instances = [ex_instance (if terminations h = [] then ''running'' else ''terminated'')]\<rparr>], di_NextToken = None\<rparr>"
  by (simp add: ex_env_def)

lemma ex_scan: "scan ex_env ex_service iid h =
   ([ex_record (if terminations h = [] then ''running'' else ''terminated'')], True, DescribeInstances iid [] # CtxErr # h)"
  by (simp add: scan_def numeral_2_eq_2 ctx_err_def Let_def scan_reply_def ex_reply ok_reply_def add_record_def ex_record_of)

lemma ex_record_fields [simp]: "r_ID (rec_resource (ex_record st)) = ''i-0000000a''"
  "r_State (rec_resource (ex_record st)) = st" "rec_volumes (ex_record st) = [ex_volume ''not_observed'']"
  "rec_badMapping (ex_record st) = False" "rec_conflict (ex_record st) = False"
  by (simp_all add: ex_record_def)

lemma ex_exact: "exact ex_env ex_service ''i-0000000a'' h =
   (Some (ex_record (if terminations h = [] then ''running'' else ''terminated'')),
    DescribeInstances ''i-0000000a'' [] # CtxErr # h)"
  by (simp add: exact_def ex_scan)

lemma ex_mappings: "rootProblem (ex_record st) = []" "consistentMappings (ex_record st) (ex_record st')"
  "historicalMappingsAbsent (ex_record st) rs = False"
  by (simp_all add: rootProblem_def ex_record_def ex_volume_def consistentMappings_def sameMappings_def historicalMappingsAbsent_def)

definition ex_worker :: "string \<Rightarrow> string \<Rightarrow> string \<Rightarrow> string \<Rightarrow> bool \<Rightarrow> bool \<Rightarrow> worker" where
  "ex_worker st status root del active terminal =
     \<lparr>wk_selected = ex_decision ''running'' True Expired, wk_record = ex_record ''running'',
      wk_outcome = \<lparr>o_Decision = ex_decision st True Expired, o_Status = status, o_RootDeletion = root,
        o_Volumes = [ex_volume del], o_Errors = []\<rparr>,
      wk_active = active, wk_terminal = terminal, wk_nextVolume = 0\<rparr>"

lemma ex_decision_fields [simp]: "d_Eligible (ex_decision st el rs) = el" "d_Reason (ex_decision st el rs) = rs"
  "d_InstanceID (ex_decision st el rs) = ''i-0000000a''" "d_State (ex_decision st el rs) = st"
  "d_ExpiresAt (ex_decision st el rs) = Some ''0001-01-01T00:00:01Z''"
  "(ex_decision st el rs)\<lparr>d_State := st'\<rparr> = ex_decision st' el rs"
  by (simp_all add: ex_decision_def)

lemma ex_select: "select_worker ex_service ex_now True (ex_record ''running'') =
    ex_worker ''running'' ''termination_not_requested'' ''not_observed'' ''not_observed'' False False"
  by (simp add: select_worker_def Let_def ex_evaluate ex_worker_def benign_def)

lemma ex_emit: "fst (emit ex_env ex_service runID kind oo rr h) = True"
  "terminations (snd (emit ex_env ex_service runID kind oo rr h)) = terminations h"
  by (simp_all add: emit_def go_defs Let_def ex_ts)

lemma ex_ack: "exactAcknowledgement (Some [\<lparr>sc_InstanceId = Some ''i-0000000a'',
       sc_CurrentState = Some \<lparr>is_Name = ''shutting-down'', is_Code = Some 32\<rparr>,
       sc_PreviousState = Some \<lparr>is_Name = ''running'', is_Code = Some 16\<rparr>\<rparr>]) ''i-0000000a'' = True"
  by code_simp

lemma ex_terminate: "env_terminate ex_env h ''i-0000000a'' = \<lparr>rp_out = Some [\<lparr>sc_InstanceId = Some ''i-0000000a'',
       sc_CurrentState = Some \<lparr>is_Name = ''shutting-down'', is_Code = Some 32\<rparr>,
       sc_PreviousState = Some \<lparr>is_Name = ''running'', is_Code = Some 16\<rparr>\<rparr>], rp_err = None, rp_ctx = False\<rparr>"
  by (simp add: ex_env_def ok_reply_def)

lemma ex_worker_fields [simp]:
  "wk_record (ex_worker st status root del a t) = ex_record ''running''"
  "wk_selected (ex_worker st status root del a t) = ex_decision ''running'' True Expired"
  "wk_active (ex_worker st status root del a t) = a" "wk_terminal (ex_worker st status root del a t) = t"
  "wk_nextVolume (ex_worker st status root del a t) = 0"
  "wk_outcome (ex_worker st status root del a t) = \<lparr>o_Decision = ex_decision st True Expired, o_Status = status,
     o_RootDeletion = root, o_Volumes = [ex_volume del], o_Errors = []\<rparr>"
  by (simp_all add: ex_worker_def)

lemma ex_worker_eq: "w = ex_worker st status root del a t \<longleftrightarrow>
    wk_selected w = ex_decision ''running'' True Expired \<and> wk_record w = ex_record ''running'' \<and>
    wk_outcome w = \<lparr>o_Decision = ex_decision st True Expired, o_Status = status,
     o_RootDeletion = root, o_Volumes = [ex_volume del], o_Errors = []\<rparr> \<and> wk_active w = a \<and> wk_terminal w = t \<and>
    wk_nextVolume w = 0"
  by (cases w) (auto simp: ex_worker_def)

lemma ex_dispatch:
  "dispatch_termination ex_env (ex_worker st status root del a t) h =
     (ex_worker st ''termination_requested'' root del True t, TerminateInstances ''i-0000000a'' # CtxErr # h)"
  by (simp add: dispatch_termination_def ctx_err_def Let_def ex_terminate has_code_def ex_ack ex_worker_eq)

lemma ex_set_state: "with_outcome (ex_worker st status root del a t) (\<lambda>o1. set_decision_state o1 st') =
    ex_worker st' status root del a t"
  by (simp add: ex_worker_eq set_decision_state_def)

lemma ex_act: "act_on_decision ex_env (ex_worker st status root del a t) (ex_record ''running'')
    (ex_decision ''running'' True Expired) h =
    (ex_worker ''running'' ''termination_requested'' root del True t, TerminateInstances ''i-0000000a'' # CtxErr # h)"
  unfolding act_on_decision_def Let_def ex_decision_fields ex_set_state by (simp add: ex_mappings ex_dispatch)

lemma ex_prepare:
  assumes "terminations h = []"
  obtains h' where "prepare ex_env ex_service runID
    (ex_worker ''running'' ''termination_not_requested'' ''not_observed'' ''not_observed'' False False) h =
      (ex_worker ''running'' ''termination_requested'' ''not_observed'' ''not_observed'' True False, h')"
    "terminations h' = [''i-0000000a'']"
proof -
  let ?w = "ex_worker ''running'' ''termination_not_requested'' ''not_observed'' ''not_observed'' False False"
  obtain h1 where e: "emit ex_env ex_service runID ''termination_prepared'' (Some (wk_outcome ?w)) None h = (True, h1)"
    "terminations h1 = []"
    using ex_emit [of runID "''termination_prepared''" "Some (wk_outcome ?w)" None h] assms
    by (cases "emit ex_env ex_service runID ''termination_prepared'' (Some (wk_outcome ?w)) None h") simp
  let ?h' = "TerminateInstances ''i-0000000a'' # CtxErr # Now # DescribeInstances ''i-0000000a'' [] # CtxErr # h1"
  have "prepare ex_env ex_service runID ?w h =
      (ex_worker ''running'' ''termination_requested'' ''not_observed'' ''not_observed'' True False, ?h')"
    unfolding prepare_def Let_def ex_worker_fields(1,2) ex_decision_fields ex_mappings
    using e by (simp add: ex_exact now_def recheck_worker_def ex_recheck ex_act)
  with e(2) show ?thesis by (intro that [of ?h']) simp_all
qed

lemma ex_volume_gone: "volume_deleted ex_env ex_service vid h"
  by (simp add: volume_deleted_def describeVolumes_def ex_env_def has_code_def)

lemma ex_observe:
  assumes "terminations h = [''i-0000000a'']"
  obtains h' where "observe ex_env ex_service
    (ex_worker ''running'' ''termination_requested'' ''not_observed'' ''not_observed'' True False) h =
      (ex_worker ''terminated'' ''termination_observed'' ''deleted'' ''deleted'' False True, h')"
    "terminations h' = [''i-0000000a'']"
proof -
  let ?g = "DescribeInstances ''i-0000000a'' [] # CtxErr # CtxErr # h"
  let ?h' = "DescribeVolumes ''vol-0000000a'' # Now # ?g"
  have s: "with_outcome (ex_worker st status root del a t) (\<lambda>o1. (set_decision_state o1 st')\<lparr>o_Status := status'\<rparr>)
      \<lparr>wk_terminal := t'\<rparr> = ex_worker st' status' root del a t'" for st status root del a t st' status' t'
    by (simp add: ex_worker_eq set_decision_state_def)
  have v: "observe_volumes ex_env ex_service (ex_worker st status root ''not_observed'' True True) k =
      (ex_worker st status ''deleted'' ''deleted'' False True, DescribeVolumes ''vol-0000000a'' # k)" for st status root k
    by (simp add: observe_volumes_def ex_mappings ex_volume_gone ex_worker_eq)
      (simp add: ex_volume_def ex_volume_gone volume_pending_def root_deletion_def unresolvedVolumes_def ex_worker_eq)
  have "observe ex_env ex_service (ex_worker ''running'' ''termination_requested'' ''not_observed'' ''not_observed'' True False) h =
      (ex_worker ''terminated'' ''termination_observed'' ''deleted'' ''deleted'' False True, ?h')"
    unfolding observe_def s using assms
    by (simp add: go_defs ex_exact ex_evaluate ex_mappings v)
  with assms show ?thesis by (intro that [of ?h']) simp_all
qed


lemma ex_genv_simps [simp]: "g_main ex_genv = ex_env" "g_worker ex_genv i = ex_env"
  by (simp_all add: ex_genv_def)

lemma ex_parallel: "parallel ex_genv fn [p] h = ([fn ex_env p], Offer # CtxErr # h)"
  by (simp add: parallel_def ctx_err_def Let_def)

lemma ex_verify: "verify ex_env ex_service h = (True, GetCallerIdentity # h)"
  by (simp add: verify_def ex_env_def ok_reply_def Let_def)

abbreviation ex_done :: worker where
  "ex_done \<equiv> ex_worker ''terminated'' ''termination_observed'' ''deleted'' ''deleted'' False True"

lemma ex_work:
  obtains g h' where "work ex_genv ex_service runID False True
      [ex_worker ''running'' ''termination_not_requested'' ''not_observed'' ''not_observed'' False False] h =
    ([(ex_done, g)], False, h')" "terminations g = [''i-0000000a'']"
proof -
  let ?w = "ex_worker ''running'' ''termination_not_requested'' ''not_observed'' ''not_observed'' False False"
  let ?w1 = "ex_worker ''running'' ''termination_requested'' ''not_observed'' ''not_observed'' True False"
  obtain g1 where e: "emit ex_env ex_service runID ''decision'' (Some (wk_outcome ?w)) None [] = (True, g1)" "terminations g1 = []"
    using ex_emit [of runID "''decision''" "Some (wk_outcome ?w)" None "[]"]
    by (cases "emit ex_env ex_service runID ''decision'' (Some (wk_outcome ?w)) None []") simp
  obtain g2 where p: "prepare ex_env ex_service runID ?w g1 = (?w1, g2)" "terminations g2 = [''i-0000000a'']"
    using ex_prepare [OF e(2)] by metis
  obtain g3 where o1: "observe ex_env ex_service ?w1 g2 = (ex_done, g3)" "terminations g3 = [''i-0000000a'']"
    using ex_observe [OF p(2)] by metis
  obtain g4 where e4: "emit ex_env ex_service runID ''outcome'' (Some (wk_outcome ex_done)) None g3 = (True, g4)"
    "terminations g4 = [''i-0000000a'']"
    using ex_emit [of runID "''outcome''" "Some (wk_outcome ex_done)" None g3] o1(2)
    by (cases "emit ex_env ex_service runID ''outcome'' (Some (wk_outcome ex_done)) None g3") simp
  have d: "decide_worker ex_service runID False True ex_env (?w, []) = (?w1, g2)"
    using e(1) p(1) by (simp add: decide_worker_def actionable_def)
  have r: "rounds ex_genv ex_service 3 [(?w1, g2)] k = ([(ex_done, g3)], False, Offer # CtxErr # CtxErr # k)" for k
    by (simp add: numeral_3_eq_3 ctx_err_def Let_def any_active_def ex_parallel observe_worker_def o1(1))
  have st: "settle_all ex_env [(ex_done, g3)] k = ([(ex_done, g3)], CtxErr # k)" for k
    by (simp add: ctx_err_def Let_def settle_outcome_def)
  have ow: "outcome_worker ex_service runID ex_env (ex_done, g3) = (ex_done, g4)"
    using e4(1) by (simp add: outcome_worker_def)
  have "\<exists>h'. work ex_genv ex_service runID False True [?w] h = ([(ex_done, g4)], False, h')"
    by (simp add: work_def ex_parallel d r st ow del: settle_all.simps)
  then show ?thesis using that e4(2) by metis
qed

lemma ex_emit_eq: "emit ex_env ex_service runID kind oo rr h =
    (True, Emit \<lparr>e_SchemaVersion = 1, e_RunID = runID, e_Kind = kind, e_Scope = ex_scope,
      e_EmittedAt = ''0001-01-01T00:00:05Z'', e_Instance = oo, e_Summary = rr\<rparr> # Now # CtxErr # h)"
  by (simp add: emit_def go_defs Let_def ex_ts)

lemma ex_finish:
  assumes "R_ScanComplete r" "R_Errors r = []" "R_Instances r = []" "\<not> R_DryRun r"
  obtains r' h' where "finish ex_env ex_service runID r [ex_done] h = ((r', None), h')" "R_OK r'"
proof -
  define r0 where "r0 = fst (tally r [ex_done])"
  have t: "tally r [ex_done] = (r0, 1)"
    using assms by (simp add: tally_def Let_def cleaned_def r0_def)
  define r1 where "r1 = r0\<lparr>R_CompletedAt := ''0001-01-01T00:00:05Z''\<rparr>"
  have r1: "R_ScanComplete r1" "R_Errors r1 = []" "list_all (\<lambda>o1. o_Errors o1 = []) (R_Instances r1)" "\<not> R_DryRun r1"
    using assms by (simp_all add: r1_def r0_def tally_def Let_def)
  have ok: "R_OK (aggregate False r1 1)" using r1 by (simp add: aggregate_OK)
  have "\<exists>k. finish ex_env ex_service runID r [ex_done] h = ((aggregate False r1 1, None), k)"
    unfolding finish_def t by (simp add: go_defs ex_ts ex_emit_eq Let_def r1_def [symmetric] ok [simplified] r1(4))
  with ok show ?thesis using that by metis
qed

lemma ex_run:
  obtains r h' g where "Run ex_genv ex_service False [] = ((r, None), [(ex_done, g)], h')" "R_OK r"
    "terminations g = [''i-0000000a'']"
proof -
  let ?h = "DescribeInstances [] [] # CtxErr # GetCallerIdentity # Now # RandRead # []"
  let ?r = "(empty_result ex_service False)\<lparr>R_EvaluatedAt := ''0001-01-01T00:00:05Z''\<rparr>"
  let ?w = "ex_worker ''running'' ''termination_not_requested'' ''not_observed'' ''not_observed'' False False"
  obtain r1 where sc: "scanned ex_service ex_now True [ex_record ''running''] ?r = (r1, [?w])"
    and r1: "R_ScanComplete r1" "R_Errors r1 = []" "R_Instances r1 = []" "\<not> R_DryRun r1"
    by (simp add: scanned_def Let_def ex_select empty_result_def)
  obtain g k where wk: "work ex_genv ex_service (hex_encode ''r'') False True [?w] ?h = ([(ex_done, g)], False, k)"
    and g: "terminations g = [''i-0000000a'']" by (rule ex_work)
  obtain r' h' where f: "finish ex_env ex_service (hex_encode ''r'') r1 [ex_done] k = ((r', None), h')" and ok: "R_OK r'"
    by (rule ex_finish [OF r1])
  have "Run ex_genv ex_service False [] = ((r', None), [(ex_done, g)], h')"
    unfolding Run_def ex_genv_simps ex_env_simps Let_def now_def
    by (simp add: ex_ts ex_verify ex_scan sc wk f)
  with ok g show ?thesis by (intro that)
qed

text \<open>The order of the tags, on this eligible instance.\<close>

theorem evaluate_tag_order_witness:
  "d_Eligible (Evaluate ex_scope ((rec_resource (ex_record ''running''))\<lparr>r_Tags := rev ex_tags\<rparr>) ex_now)"
proof -
  have "r_Tags (rec_resource (ex_record ''running'')) = ex_tags" by (simp add: ex_record_def)
  then show ?thesis
    using evaluate_tag_order [of "rec_resource (ex_record ''running'')" "rev ex_tags" ex_scope ex_now]
    by (simp add: ex_evaluate)
qed

section \<open>A dry run\<close>

fun passive_call :: "call \<Rightarrow> bool" where
  "passive_call (TerminateInstances _) = False"
| "passive_call (Emit _) = False"
| "passive_call _ = True"

definition passive_only :: "hist \<Rightarrow> hist \<Rightarrow> bool" where
  "passive_only h h' \<longleftrightarrow> (\<exists>d. h' = d @ h \<and> list_all passive_call d)"

lemma passive_refl [simp]: "passive_only h h"
  by (simp add: passive_only_def)

lemma passive_Cons: "passive_only h h' \<Longrightarrow> passive_call c \<Longrightarrow> passive_only h (c # h')"
  unfolding passive_only_def by (metis append_Cons list.pred_inject(2))

lemma passive_trans: "passive_only h h' \<Longrightarrow> passive_only h' h'' \<Longrightarrow> passive_only h h''"
  unfolding passive_only_def by (metis append.assoc list_all_append)

lemma passive_Cons_left: "passive_only (c # h) h' \<Longrightarrow> passive_call c \<Longrightarrow> passive_only h h'"
  using passive_trans passive_Cons passive_refl by blast

lemma read_passive: "read_call c \<Longrightarrow> passive_call c"
  by (cases c) auto

lemma reads_passive: "reads_only h h' \<Longrightarrow> passive_only h h'"
  unfolding reads_only_def passive_only_def list_all_iff using read_passive by blast

lemma dispatch_jobs_passive: "dispatch_jobs E js h = (jobs, h') \<Longrightarrow> passive_only h h'"
proof (induction js arbitrary: h jobs h')
  case (Cons j js)
  obtain t h2 where rec: "dispatch_jobs E js (Offer # CtxErr # h) = (t, h2)" by force
  have "h' = CtxErr # h \<or> h' = h2"
    using Cons.prems rec by (auto simp: ctx_err_def Let_def split: if_splits)
  moreover have "passive_only h h2"
    using passive_Cons_left [OF passive_Cons_left [OF Cons.IH [OF rec]]] by simp
  ultimately show ?case by (auto intro: passive_Cons)
qed simp

lemma settle_all_passive: "settle_all E ps h = (ps', h') \<Longrightarrow> passive_only h h'"
proof (induction ps arbitrary: h ps' h')
  case (Cons p ps)
  obtain ws h2 where rec: "settle_all E ps (CtxErr # h) = (ws, h2)" by force
  then have "h' = h2" using Cons.prems by (cases p) (simp add: ctx_err_def Let_def)
  then show ?case using passive_Cons_left [OF Cons.IH [OF rec]] by simp
qed simp

lemma finish_dry: "finish E s runID r ws h = (res, h') \<Longrightarrow> R_DryRun r \<Longrightarrow> h' = CtxErr # Now # h"
  by (auto simp: finish_def tally_def go_defs Let_def split: if_splits)

lemma work_dry_passive: "work G s runID True complete ws h = (ps, b, h') \<Longrightarrow> passive_only h h'"
  unfolding work_def parallel_def
  by (auto simp: Let_def split: prod.splits dest!: dispatch_jobs_passive settle_all_passive intro: passive_trans)

lemma Run_dry:
  assumes "Run G s True h = (res, ps, h')"
  shows "passive_only h h' \<and> list_all (\<lambda>wh. snd wh = []) ps"
proof -
  let ?E = "g_main G"
  have 0: "passive_only h (RandRead # h)" "passive_only h (Now # RandRead # h)" by (simp_all add: passive_Cons)
  have fin: "passive_only h h'" if "finish ?E s runID r ws k = (res, h')" "R_DryRun r" "passive_only h k" for runID r ws k
    using finish_dry [OF that(1,2)] that(3) by (simp add: passive_Cons)
  have dr: "R_DryRun (empty_result s True)" by (simp add: empty_result_def)
  show ?thesis
  proof (cases "env_rand ?E h")
    case None
    then show ?thesis using assms 0 dr fin [of _ _ _ "RandRead # h"]
      by (auto simp: Run_def Let_def split: prod.splits)
  next
    case (Some bytes)
    show ?thesis
    proof (cases "Timestamp (env_now ?E (RandRead # h))")
      case (Inl e)
      then show ?thesis using assms 0 dr fin [of _ _ _ "Now # RandRead # h"] Some
        by (auto simp: Run_def Let_def now_def split: prod.splits)
    next
      case (Inr ts')
      obtain ok g where v: "verify ?E s (Now # RandRead # h) = (ok, g)" by force
      have g: "passive_only h g" using passive_trans [OF 0(2) reads_passive [OF verify_reads [OF v]]] .
      show ?thesis
      proof (cases ok)
        case False
        then show ?thesis using assms g dr fin [of _ _ _ g] Some Inr v
          by (auto simp: Run_def Let_def now_def split: prod.splits)
      next
        case True
        obtain records complete h2 where sc: "scan ?E s [] g = (records, complete, h2)"
          by (cases "scan ?E s [] g")
        obtain r1 ws where sd: "scanned s (env_now ?E (RandRead # h)) complete records
            ((empty_result s True)\<lparr>R_EvaluatedAt := ts'\<rparr>) = (r1, ws)" by force
        obtain ps1 b h3 where w: "work G s (hex_encode bytes) True complete ws h2 = (ps1, b, h3)"
          by (cases "work G s (hex_encode bytes) True complete ws h2")
        have h3: "passive_only h h3"
          using g reads_passive [OF scan_reads [OF sc]] work_dry_passive [OF w] by (blast intro: passive_trans)
        have r1: "R_DryRun r1" using Run_late_workers(3) [OF sc sd] dr by simp
        have ps: "ps = ps1" "finish ?E s (hex_encode bytes) (if b then add_error r1 ''interrupted'' else r1) (map fst ps1) h3 = (res, h')"
          using assms sc sd w Some Inr v True by (auto simp: Run_def Let_def now_def split: prod.splits)
        have "snd (ps1 ! i) = []" if "i < length ps1" for i
          using work_dry [OF w] that by simp
        then show ?thesis using fin [OF ps(2) _ h3] r1 ps(1) by (auto simp: list_all_length)
      qed
    qed
  qed
qed

section \<open>Properties\<close>



text \<open>C5.  Preparing a worker sends at most one termination request, and only under the full guard: the
  \<open>termination_prepared\<close> event was acknowledged first, a fresh exact read after it returned the
  selected instance, the recheck confirmed it at a clock sample taken after that read, the root
  mapping is the verified one captured by the scan, and the context was still live.\<close>

theorem prepare_termination_guarded:
  assumes "prepare E s runID w h = (w', h')"
  shows "terminations h' = terminations h \<or>
    (terminations h' = d_InstanceID (wk_selected w) # terminations h \<and>
     (\<exists>e current g.
        e_Kind e = ''termination_prepared'' \<and> env_emit E (Now # CtxErr # h) e \<and>
        exact E s (d_InstanceID (wk_selected w)) (Emit e # Now # CtxErr # h) = (Some current, g) \<and>
        d_Eligible (Recheck (sv_scope s) (wk_selected w) (rec_resource current) (env_now E g)) \<and>
        rootProblem (wk_record w) = [] \<and> sameMappings (wk_record w) current \<and> \<not> env_ctx E (Now # g) \<and>
        h' = TerminateInstances (d_InstanceID (wk_selected w)) # CtxErr # Now # g))"
  using prepare_terminates [OF assms] unfolding termination_authorized_def Let_def by blast

theorem prepare_termination_guarded_witness:
  "\<exists>w' h' e current g. prepare ex_env ex_service []
      (ex_worker ''running'' ''termination_not_requested'' ''not_observed'' ''not_observed'' False False) [] = (w', h') \<and>
     terminations h' = [''i-0000000a''] \<and> e_Kind e = ''termination_prepared'' \<and>
     exact ex_env ex_service ''i-0000000a'' (Emit e # Now # CtxErr # []) = (Some current, g)"
proof -
  obtain h' where p: "prepare ex_env ex_service []
      (ex_worker ''running'' ''termination_not_requested'' ''not_observed'' ''not_observed'' False False) [] =
      (ex_worker ''running'' ''termination_requested'' ''not_observed'' ''not_observed'' True False, h')"
    "terminations h' = [''i-0000000a'']"
    by (rule ex_prepare [of "[]" "[]"]) simp_all
  show ?thesis using prepare_termination_guarded [OF p(1)] p by auto
qed

text \<open>C6.  Over a whole run, no instance is sent more than one termination request, over all workers
  together; a dry run sends none, and every request sent was authorised by its own worker for an
  eligible selection.\<close>

theorem run_terminates_at_most_once:
  assumes "Run G s dryRun h = (res, ps, h')"
  shows "distinct (concat (map (\<lambda>(w, g). terminations g) ps)) \<and>
    (\<forall>i < length ps. once_authorized (g_worker G i) s (\<not> dryRun) (fst (ps ! i)) (snd (ps ! i)))"
  using Run_terminations [OF assms] by blast

theorem run_terminates_at_most_once_witness:
  "\<exists>res w g h'. Run ex_genv ex_service False [] = (res, [(w, g)], h') \<and> terminations g = [''i-0000000a''] \<and>
     once_authorized ex_env ex_service True w g"
proof -
  obtain r h' g where r: "Run ex_genv ex_service False [] = ((r, None), [(ex_done, g)], h')"
    "terminations g = [''i-0000000a'']" by (rule ex_run)
  show ?thesis using run_terminates_at_most_once [OF r(1)] r by auto
qed

text \<open>C7.  A deletion is reported only on evidence: a volume is reported deleted only when its worker
  saw the exact instance terminated and looked the volume up and found it gone, and the volume was
  mapped for deletion; the root is reported deleted only when a root volume is.\<close>

theorem run_deletion_evidence:
  assumes "Run G s False h = ((r, err), ps, h')" "i < length ps" "ps ! i = (w, g)"
  shows "(\<forall>v \<in> set (o_Volumes (wk_outcome w)). v_Deletion v = ''deleted'' \<longrightarrow>
      wk_terminal w \<and> terminal_seen (g_worker G i) s (d_InstanceID (wk_selected w)) g \<and>
      v_DeleteOnTermination v = Some True \<and> volume_gone (g_worker G i) s (v_ID v) g) \<and>
    (o_RootDeletion (wk_outcome w) = ''deleted'' \<longrightarrow> rootProblem (wk_record w) = [] \<and>
      (\<exists>v \<in> set (o_Volumes (wk_outcome w)). v_Root v \<and> v_Deletion v = ''deleted''))"
proof -
  have "worker_inv (g_worker G i) s g w"
    using assms(1)
  proof (cases rule: Run_cases)
    case early
    then show ?thesis using assms(2) by simp
  next
    case (late runID t ts records complete h1 h2 r1 ws b h3 r2)
    have "worker_inv (g_worker G j) s [] (ws ! j)" if "j < length ws" for j
      using Run_late_workers(1,4) [OF late(1,2)] that by (simp add: select_worker_inv)
    then show ?thesis using work_evidence [OF late(3)] assms(2,3) by (auto simp: pool_all_def)
  qed
  then show ?thesis unfolding worker_inv_def volumes_inv_def root_inv_def by blast
qed

theorem run_deletion_evidence_witness:
  "\<exists>r g h'. Run ex_genv ex_service False [] = ((r, None), [(ex_done, g)], h') \<and>
     terminal_seen ex_env ex_service ''i-0000000a'' g \<and> volume_gone ex_env ex_service ''vol-0000000a'' g"
proof -
  obtain r h' g where r: "Run ex_genv ex_service False [] = ((r, None), [(ex_done, g)], h')" by (rule ex_run)
  show ?thesis using run_deletion_evidence [OF r, of 0 ex_done g] r by (auto simp: ex_volume_def)
qed



text \<open>A dry run changes nothing outside: it sends no termination and emits no event, and its
  workers make no call at all.\<close>

theorem dry_run_passive:
  "passive_only h (snd (snd (Run G s True h))) \<and> list_all (\<lambda>wh. snd wh = []) (fst (snd (Run G s True h)))"
  using Run_dry [of G s h "fst (Run G s True h)" "fst (snd (Run G s True h))" "snd (snd (Run G s True h))"] by simp

text \<open>The exit status is a function of what the report contains: success exactly for a complete
  scan without problems in a live context, interruption before everything else, and a failure is
  partial when some useful work was done.\<close>

theorem aggregate_status:
  "R_OK (aggregate ended r useful) = R_Complete (aggregate ended r useful) \<and>
   R_OK (aggregate ended r useful) = (R_ScanComplete r \<and> R_Errors r = [] \<and>
     list_all (\<lambda>o1. o_Errors o1 = []) (R_Instances r) \<and> \<not> ended) \<and>
   R_ExitCode (aggregate ended r useful) =
     (if ended \<or> list_ex (\<lambda>p. p_Code p = ''interrupted'') (R_Errors r) then 4
      else if R_OK (aggregate ended r useful) then 0 else if useful > 0 then 3 else 1)"
  by (auto simp: aggregate_def Let_def list_ex_iff list_all_iff case_prod_beta)

end
