(* ===== verification/GoJson.thy ===== *)
theory GoJson
  imports Prelude
begin

text \<open>
  What the program uses of \<^verbatim>\<open>encoding/json\<close> and \<^verbatim>\<open>unicode/utf8\<close>: reading one JSON text.  A value keeps
  its object members in order and with repetitions, as the token stream shows them, and a number its
  literal.  Strings are decoded as Go does: escapes are resolved, and an invalid UTF-8 byte or a lone
  surrogate becomes U+FFFD.  \<open>fuel\<close> bounds the nesting; the length of the text is always enough
  because every step consumes a byte.
\<close>

section \<open>UTF-8\<close>

definition rune_error :: nat where [go_defs]: "rune_error = 65533"

definition cont :: "nat \<Rightarrow> nat \<Rightarrow> char \<Rightarrow> bool" where
  [go_defs]: "cont lo hi c \<longleftrightarrow> lo \<le> byte c \<and> byte c \<le> hi"

text \<open>The accepted range of the second byte, and the number of continuation bytes, of a first byte.\<close>

definition lead :: "char \<Rightarrow> (nat \<times> nat \<times> nat) option" where
  "lead c =
     (let b = byte c in
      if 194 \<le> b \<and> b \<le> 223 then Some (1, 128, 191)
      else if b = 224 then Some (2, 160, 191)
      else if b = 237 then Some (2, 128, 159)
      else if 225 \<le> b \<and> b \<le> 239 then Some (2, 128, 191)
      else if b = 240 then Some (3, 144, 191)
      else if b = 244 then Some (3, 128, 143)
      else if 241 \<le> b \<and> b \<le> 243 then Some (3, 128, 191)
      else None)"

definition decode_rune :: "string \<Rightarrow> nat \<times> nat" where
  "decode_rune s =
     (case s of [] \<Rightarrow> (rune_error, 0)
      | c # t \<Rightarrow>
          if byte c < 128 then (byte c, 1)
          else (case lead c of None \<Rightarrow> (rune_error, 1)
                | Some (n, lo, hi) \<Rightarrow>
                    if length t < n \<or> \<not> cont lo hi (t ! 0) \<or> (n > 1 \<and> \<not> cont 128 191 (t ! 1))
                       \<or> (n > 2 \<and> \<not> cont 128 191 (t ! 2))
                    then (rune_error, 1)
                    else if n = 1 then ((byte c mod 32) * 64 + byte (t ! 0) mod 64, 2)
                    else if n = 2
                    then ((byte c mod 16) * 4096 + (byte (t ! 0) mod 64) * 64 + byte (t ! 1) mod 64, 3)
                    else ((byte c mod 8) * 262144 + (byte (t ! 0) mod 64) * 4096
                            + (byte (t ! 1) mod 64) * 64 + byte (t ! 2) mod 64, 4)))"

definition encode_rune :: "nat \<Rightarrow> string" where
  "encode_rune r =
     (let r = (if (55296 \<le> r \<and> r \<le> 57343) \<or> r > 1114111 then rune_error else r) in
      if r < 128 then [char_of r]
      else if r < 2048 then [char_of (192 + r div 64), char_of (128 + r mod 64)]
      else if r < 65536
      then [char_of (224 + r div 4096), char_of (128 + r div 64 mod 64), char_of (128 + r mod 64)]
      else [char_of (240 + r div 262144), char_of (128 + r div 4096 mod 64),
            char_of (128 + r div 64 mod 64), char_of (128 + r mod 64)])"

section \<open>Strings\<close>

definition hex_val :: "char \<Rightarrow> nat option" where
  "hex_val c =
     (if is_digit c then Some (digit_val c)
      else if in_range (CHR ''a'') (CHR ''f'') c then Some (byte c - 87)
      else if in_range (CHR ''A'') (CHR ''F'') c then Some (byte c - 55)
      else None)"

definition hex4 :: "string \<Rightarrow> (nat \<times> string) option" where
  "hex4 s =
     (case map hex_val (take 4 s) of
        [Some a, Some b, Some c, Some d] \<Rightarrow> Some (a * 4096 + b * 256 + c * 16 + d, drop 4 s)
      | _ \<Rightarrow> None)"

text \<open>A second \<open>\u\<close> escape that completes a surrogate pair.\<close>

definition low_surrogate :: "nat \<Rightarrow> string \<Rightarrow> (nat \<times> string) option" where
  "low_surrogate hi s =
     (if hi < 55296 \<or> hi > 56319 \<or> take 2 s \<noteq> [CHR 0x5C, CHR ''u''] then None
      else (case hex4 (drop 2 s) of
              Some (lo, rest) \<Rightarrow>
                if 56320 \<le> lo \<and> lo \<le> 57343 then Some (65536 + (hi - 55296) * 1024 + (lo - 56320), rest)
                else None
            | None \<Rightarrow> None))"

definition simple_escape :: "char \<Rightarrow> char option" where
  "simple_escape c =
     (if c = CHR 0x22 \<or> c = CHR 0x5C \<or> c = CHR ''/'' then Some c
      else if c = CHR ''b'' then Some (CHR 0x08)
      else if c = CHR ''f'' then Some (CHR 0x0C)
      else if c = CHR ''n'' then Some (CHR 0x0A)
      else if c = CHR ''r'' then Some (CHR 0x0D)
      else if c = CHR ''t'' then Some (CHR 0x09)
      else None)"

text \<open>The characters of a string after its opening quote: the decoded text and what follows the
  closing quote.\<close>

fun string_body :: "nat \<Rightarrow> string \<Rightarrow> (string \<times> string) option" where
  "string_body 0 s = None"
| "string_body (Suc fuel) [] = None"
| "string_body (Suc fuel) (c # s) =
     (if c = CHR 0x22 then Some ([], s)
      else if c = CHR 0x5C then
        (case s of [] \<Rightarrow> None
         | e # t \<Rightarrow>
             if e = CHR ''u'' then
               (case hex4 t of None \<Rightarrow> None
                | Some (r, t) \<Rightarrow>
                    (case low_surrogate r t of
                       Some (r2, t2) \<Rightarrow> map_option (\<lambda>(x, y). (encode_rune r2 @ x, y)) (string_body fuel t2)
                     | None \<Rightarrow> map_option (\<lambda>(x, y). (encode_rune r @ x, y)) (string_body fuel t)))
             else (case simple_escape e of None \<Rightarrow> None
                   | Some d \<Rightarrow> map_option (\<lambda>(x, y). (d # x, y)) (string_body fuel t)))
      else if byte c < 32 then None
      else if byte c < 128 then map_option (\<lambda>(x, y). (c # x, y)) (string_body fuel s)
      else (case decode_rune (c # s) of
              (r, n) \<Rightarrow> map_option (\<lambda>(x, y). (encode_rune r @ x, y)) (string_body fuel (drop (n - 1) s))))"

section \<open>Numbers and literals\<close>

definition json_space :: "char \<Rightarrow> bool" where
  "json_space c \<longleftrightarrow> c = CHR '' '' \<or> c = CHR 0x09 \<or> c = CHR 0x0A \<or> c = CHR 0x0D"

definition skip_space :: "string \<Rightarrow> string" where
  "skip_space s = dropWhile json_space s"

definition digits_part :: "string \<Rightarrow> (string \<times> string) option" where
  "digits_part s = (if takeWhile is_digit s = [] then None else Some (takeWhile is_digit s, dropWhile is_digit s))"

definition frac_part :: "string \<Rightarrow> (string \<times> string) option" where
  "frac_part s =
     (case s of [] \<Rightarrow> Some ([], [])
      | c # t \<Rightarrow> if c = CHR ''.'' then map_option (\<lambda>(d, r). (c # d, r)) (digits_part t) else Some ([], s))"

definition exp_part :: "string \<Rightarrow> (string \<times> string) option" where
  "exp_part s =
     (case s of [] \<Rightarrow> Some ([], [])
      | c # t \<Rightarrow>
          if c = CHR ''e'' \<or> c = CHR ''E''
          then (case t of [] \<Rightarrow> None
                | g # u \<Rightarrow> if g = CHR ''+'' \<or> g = CHR ''-''
                          then map_option (\<lambda>(d, r). (c # g # d, r)) (digits_part u)
                          else map_option (\<lambda>(d, r). (c # d, r)) (digits_part t))
          else Some ([], s))"

definition int_part :: "string \<Rightarrow> (string \<times> string) option" where
  "int_part s =
     (case s of [] \<Rightarrow> None
      | c # t \<Rightarrow> if c = CHR ''0'' then Some ([c], t) else digits_part s)"

definition number_lit :: "string \<Rightarrow> (string \<times> string) option" where
  "number_lit s =
     (let (sign, s) = (case s of c # t \<Rightarrow> if c = CHR ''-'' then ([c], t) else ([], s) | [] \<Rightarrow> ([], [])) in
      case int_part s of None \<Rightarrow> None | Some (a, s) \<Rightarrow>
      (case frac_part s of None \<Rightarrow> None | Some (b, s) \<Rightarrow>
      (case exp_part s of None \<Rightarrow> None | Some (c, s) \<Rightarrow> Some (sign @ a @ b @ c, s))))"

section \<open>Values\<close>

datatype json =
    JNull
  | JBool bool
  | JNum string
  | JStr string
  | JArr "json list"
  | JObj "(string \<times> json) list"

text \<open>\<open>members\<close> and \<open>elements\<close> read what follows a member's comma or the opening bracket of a
  non-empty collection.\<close>

fun json_value :: "nat \<Rightarrow> string \<Rightarrow> (json \<times> string) option"
  and json_members :: "nat \<Rightarrow> string \<Rightarrow> ((string \<times> json) list \<times> string) option"
  and json_elements :: "nat \<Rightarrow> string \<Rightarrow> (json list \<times> string) option" where
  "json_value 0 s = None"
| "json_value (Suc fuel) s =
     (case skip_space s of [] \<Rightarrow> None
      | c # t \<Rightarrow>
          if c = CHR 0x22 then map_option (\<lambda>(x, r). (JStr x, r)) (string_body (Suc (length t)) t)
          else if c = CHR ''{'' then
            (case skip_space t of [] \<Rightarrow> None
             | d # u \<Rightarrow> if d = CHR ''}'' then Some (JObj [], u)
                       else map_option (\<lambda>(x, r). (JObj x, r)) (json_members fuel (d # u)))
          else if c = CHR ''['' then
            (case skip_space t of [] \<Rightarrow> None
             | d # u \<Rightarrow> if d = CHR '']'' then Some (JArr [], u)
                       else map_option (\<lambda>(x, r). (JArr x, r)) (json_elements fuel (d # u)))
          else if has_prefix (c # t) ''true'' then Some (JBool True, drop 3 t)
          else if has_prefix (c # t) ''false'' then Some (JBool False, drop 4 t)
          else if has_prefix (c # t) ''null'' then Some (JNull, drop 3 t)
          else map_option (\<lambda>(x, r). (JNum x, r)) (number_lit (c # t)))"
| "json_members 0 s = None"
| "json_members (Suc fuel) s =
     (case skip_space s of [] \<Rightarrow> None
      | q # t \<Rightarrow>
          if q \<noteq> CHR 0x22 then None
          else (case string_body (Suc (length t)) t of None \<Rightarrow> None
                | Some (key, t) \<Rightarrow>
                    (case skip_space t of [] \<Rightarrow> None
                     | c # t \<Rightarrow>
                         if c \<noteq> CHR '':'' then None
                         else (case json_value fuel t of None \<Rightarrow> None
                               | Some (v, t) \<Rightarrow>
                                   (case skip_space t of [] \<Rightarrow> None
                                    | d # t \<Rightarrow>
                                        if d = CHR ''}'' then Some ([(key, v)], t)
                                        else if d = CHR '',''
                                        then map_option (\<lambda>(x, r). ((key, v) # x, r)) (json_members fuel t)
                                        else None)))))"
| "json_elements 0 s = None"
| "json_elements (Suc fuel) s =
     (case json_value fuel s of None \<Rightarrow> None
      | Some (v, t) \<Rightarrow>
          (case skip_space t of [] \<Rightarrow> None
           | d # t \<Rightarrow>
               if d = CHR '']'' then Some ([v], t)
               else if d = CHR '','' then map_option (\<lambda>(x, r). (v # x, r)) (json_elements fuel t)
               else None))"

text \<open>One whole text: a value and nothing but white space around it.\<close>

definition json_text :: "string \<Rightarrow> json option" where
  "json_text s =
     (case json_value (2 * length s + 1) s of
        Some (v, rest) \<Rightarrow> if skip_space rest = [] then Some v else None
      | None \<Rightarrow> None)"

text \<open>\<open>json.Unmarshal\<close> into an \<open>int\<close>: an integer literal of 64 bits (\<open>strconv.ParseInt\<close>).\<close>

definition int_of_literal :: "string \<Rightarrow> int option" where
  "int_of_literal s =
     (let neg = (case s of c # t \<Rightarrow> c = CHR ''-'' | [] \<Rightarrow> False); t = (if neg then tl s else s) in
      if t = [] \<or> \<not> list_all is_digit t then None
      else let n = int (digits_val t) in
        if neg then (if n > 2 ^ 63 then None else Some (- n))
        else (if n \<ge> 2 ^ 63 then None else Some n))"

section \<open>Lemmas\<close>

text \<open>Printable ASCII without quote and backslash stands for itself.\<close>

definition plain :: "char \<Rightarrow> bool" where
  "plain c \<longleftrightarrow> 32 \<le> byte c \<and> byte c < 128 \<and> c \<noteq> CHR 0x22 \<and> c \<noteq> CHR 0x5C"

lemma string_body_plain:
  "list_all plain s \<Longrightarrow> length s < fuel \<Longrightarrow> string_body fuel (s @ CHR 0x22 # t) = Some (s, t)"
proof (induction s arbitrary: fuel)
  case Nil
  then show ?case by (cases fuel) simp_all
next
  case (Cons c s)
  then obtain n where "fuel = Suc n" by (cases fuel) simp_all
  with Cons show ?case by (simp add: plain_def)
qed

lemma skip_space_Cons [simp]: "\<not> json_space c \<Longrightarrow> skip_space (c # s) = c # s"
  by (simp add: skip_space_def)

lemma skip_space_Nil [simp]: "skip_space [] = []"
  by (simp add: skip_space_def)

end
