(* ===== verification/CleanupLambda.thy ===== *)
theory CleanupLambda
  imports CleanupService GoJson
begin

text \<open>
  \<^verbatim>\<open>internal/cleanuplambda/handler.go\<close> and \<^verbatim>\<open>aws.go\<close>: the scheduled adapter of the cleanup service.
  \<open>Environment\<close> reads the trusted configuration, \<open>Decode\<close> the correlation input, \<open>Handle\<close> runs one
  invocation and records its start and its end.  The runner, the journal and the clock are functions
  of the history of the calls made so far, newest first.
\<close>

section \<open>Configuration\<close>

record settings =
  st_Scope :: scope
  st_LogGroup :: string

definition Environment :: "(string \<Rightarrow> string) option \<Rightarrow> string + settings" where
  "Environment getter =
     (case getter of
        None \<Rightarrow> Inl ''cleanup_configuration_invalid''
      | Some get \<Rightarrow>
          let s = \<lparr>st_Scope = \<lparr>s_Account = get ''DEVBOX_ACCOUNT'', s_Region = get ''DEVBOX_REGION'',
                               s_Deployment = get ''DEVBOX_DEPLOYMENT'', s_Owner = get ''DEVBOX_OWNER''\<rparr>,
                   st_LogGroup = get ''DEVBOX_LOG_GROUP''\<rparr> in
          if \<not> is_ok (Scope_Validate (st_Scope s)) \<or> s_Region (st_Scope s) \<noteq> get ''AWS_REGION''
             \<or> st_LogGroup s \<noteq> ''/aws/lambda/devbox-'' @ s_Deployment (st_Scope s) @ ''-''
                                @ s_Owner (st_Scope s) @ ''-cleanup''
          then Inl ''cleanup_configuration_invalid'' else Inr s)"

section \<open>Input\<close>

definition name_cls :: rexp where
  "name_cls = Cls [(CHR ''A'', CHR ''Z''), (CHR ''a'', CHR ''z''), (CHR ''0'', CHR ''9''),
                   (CHR ''_'', CHR ''_''), (CHR ''.'', CHR ''.''), (CHR ''-'', CHR ''-'')]"

definition arn_region_cls :: rexp where
  "arn_region_cls = Cls [(CHR ''a'', CHR ''z''), (CHR ''0'', CHR ''9''), (CHR ''-'', CHR ''-'')]"

definition scheduleRE :: rexp where
  "scheduleRE = Cat [Lit ''arn:aws:scheduler:'', Plus arn_region_cls, Chr (CHR '':''), Exactly digit_cls 12,
                     Lit '':schedule/'', Plus name_cls, Chr (CHR ''/''), Plus name_cls]"

definition executionRE :: rexp where
  "executionRE = Rep label_cls 1 128"

definition attemptRE :: rexp where
  "attemptRE = Rep digit_cls 1 4"

definition zero_input :: scheduled_input where
  "zero_input = \<lparr>si_SchemaVersion = 0, si_ScheduleARN = [], si_ScheduledTime = [], si_ExecutionID = [],
                 si_AttemptNumber = []\<rparr>"

text \<open>One member of the input object.\<close>

definition decode_field :: "string \<Rightarrow> json \<Rightarrow> scheduled_input \<Rightarrow> scheduled_input option" where
  "decode_field key v input =
     (if v = JNull then None
      else if key = ''schema_version''
      then (case v of
              JNum lit \<Rightarrow> map_option (\<lambda>n. input\<lparr>si_SchemaVersion := n\<rparr>) (int_of_literal lit)
            | _ \<Rightarrow> None)
      else (case v of
              JStr s \<Rightarrow>
                if length s > 256 then None
                else if key = ''schedule_arn''
                then (if re_match scheduleRE s then Some (input\<lparr>si_ScheduleARN := s\<rparr>) else None)
                else if key = ''scheduled_time''
                then (if is_ok (ParseTimestamp s) then Some (input\<lparr>si_ScheduledTime := s\<rparr>) else None)
                else if key = ''execution_id''
                then (if re_match executionRE s then Some (input\<lparr>si_ExecutionID := s\<rparr>) else None)
                else if key = ''attempt_number''
                then (if re_match attemptRE s then Some (input\<lparr>si_AttemptNumber := s\<rparr>) else None)
                else None
            | _ \<Rightarrow> None))"

fun decode_members :: "(string \<times> json) list \<Rightarrow> string list \<Rightarrow> scheduled_input \<Rightarrow> scheduled_input option" where
  "decode_members [] seen input = Some input"
| "decode_members ((key, v) # ms) seen input =
     (if key \<in> set seen then None
      else (case decode_field key v input of
              None \<Rightarrow> None
            | Some input \<Rightarrow> decode_members ms (key # seen) input))"

definition Decode :: "string \<Rightarrow> string + scheduled_input" where
  "Decode raw =
     (if length raw > 4096 then Inl ''cleanup_input_invalid''
      else (case json_text raw of
              Some (JObj ms) \<Rightarrow>
                (case decode_members ms [] zero_input of
                   Some input \<Rightarrow> if si_SchemaVersion input \<noteq> 1 then Inl ''cleanup_input_invalid'' else Inr input
                 | None \<Rightarrow> Inl ''cleanup_input_invalid'')
            | _ \<Rightarrow> Inl ''cleanup_input_invalid''))"

section \<open>Records\<close>

record lambda_record =
  l_SchemaVersion :: int
  l_Kind :: string
  l_RunID :: string
  l_RequestID :: string
  l_Scope :: scope
  l_Correlation :: scheduled_input
  l_EmittedAt :: string
  l_Code :: string
  l_OK :: bool
  l_Complete :: bool
  l_Partial :: bool
  l_Deadline :: bool
  l_Result :: "result option"
  l_Event :: "event option"

definition zero_scope :: scope where
  "zero_scope = \<lparr>s_Account = [], s_Region = [], s_Deployment = [], s_Owner = []\<rparr>"

definition zero_record :: lambda_record where
  "zero_record = \<lparr>l_SchemaVersion = 0, l_Kind = [], l_RunID = [], l_RequestID = [], l_Scope = zero_scope,
     l_Correlation = zero_input, l_EmittedAt = [], l_Code = [], l_OK = False, l_Complete = False,
     l_Partial = False, l_Deadline = False, l_Result = None, l_Event = None\<rparr>"

definition zero_result :: result where
  "zero_result = \<lparr>R_SchemaVersion = 0, R_Command = [], R_OK = False, R_ExitCode = 0, R_Code = [], R_Message = [],
     R_Scope = zero_scope, R_DryRun = False, R_EvaluatedAt = [], R_CompletedAt = [], R_ScanComplete = False,
     R_Complete = False, R_ScannedCount = 0, R_CandidateCount = 0, R_TerminatedCount = 0, R_CleanedCount = 0,
     R_Instances = [], R_Errors = []\<rparr>"

text \<open>The journal's record of a service event.\<close>

record journal =
  j_RequestID :: string
  j_Scope :: scope
  j_Input :: scheduled_input

definition journal_event :: "journal \<Rightarrow> event \<Rightarrow> lambda_record" where
  "journal_event j e =
     (let r = zero_record\<lparr>l_SchemaVersion := 1, l_Kind := e_Kind e, l_RunID := j_RequestID j,
            l_RequestID := j_RequestID j, l_Scope := j_Scope j, l_Correlation := j_Input j,
            l_EmittedAt := e_EmittedAt e, l_Event := Some e\<rparr>
      in case e_Summary e of
           None \<Rightarrow> r
         | Some su \<Rightarrow> r\<lparr>l_Code := R_Code su, l_OK := (R_OK su \<and> R_Complete su \<and> R_ScanComplete su \<and> R_ExitCode su = 0),
                        l_Complete := R_Complete su, l_Partial := \<not> R_Complete su, l_Deadline := R_ExitCode su = 4\<rparr>)"

text \<open>Whether a record reached CloudWatch: a slot, an encoding of acceptable size, and a clean reply.\<close>

record put_reply =
  pr_out :: bool
  pr_rejected_events :: bool
  pr_rejected_entity :: bool
  pr_err :: bool
  pr_ctx :: bool

definition journal_accepts :: "bool \<Rightarrow> bool \<Rightarrow> bool \<Rightarrow> nat option \<Rightarrow> put_reply \<Rightarrow> string + unit" where
  "journal_accepts client_nil clock_nil slot encoded reply =
     (if client_nil \<or> clock_nil then Inl ''cleanup_evidence_unavailable''
      else if \<not> slot then Inl ''cleanup_evidence_unavailable''
      else (case encoded of
              None \<Rightarrow> Inl ''cleanup_evidence_unavailable''
            | Some bytes \<Rightarrow>
                if bytes > 1000000 then Inl ''cleanup_evidence_too_large''
                else if pr_err reply \<or> pr_ctx reply \<or> \<not> pr_out reply \<or> pr_rejected_events reply \<or> pr_rejected_entity reply
                then Inl ''cleanup_evidence_unavailable'' else Inr ()))"

section \<open>Invocations\<close>

datatype lcall =
    LNow
  | LCtx
  | LFactory settings string scheduled_input
  | LRecord lambda_record
  | LBootstrap lambda_record
  | LRun

type_synonym lhist = "lcall list"

text \<open>\<open>le_factory\<close> says whether the factory returned an error, a runner and a journal.\<close>

record lenv =
  le_request :: "string option"
  le_getenv :: "(string \<Rightarrow> string) option"
  le_factory_nil :: bool
  le_now :: "lhist \<Rightarrow> gotime"
  le_ctx :: "lhist \<Rightarrow> bool"
  le_factory :: "lhist \<Rightarrow> bool \<times> bool \<times> bool"
  le_record :: "lhist \<Rightarrow> lambda_record \<Rightarrow> bool"
  le_run :: "lhist \<Rightarrow> result \<times> string option"

definition requestRE :: rexp where
  "requestRE = Rep (Cls [(CHR ''A'', CHR ''Z''), (CHR ''a'', CHR ''z''), (CHR ''0'', CHR ''9''), (CHR ''-'', CHR ''-'')]) 1 128"

definition stamp :: "gotime \<Rightarrow> string" where
  "stamp t = (case Timestamp t of Inr s \<Rightarrow> s | Inl _ \<Rightarrow> [])"

definition full_success :: "result \<Rightarrow> bool" where
  "full_success r \<longleftrightarrow> R_OK r \<and> R_Complete r \<and> R_ScanComplete r \<and> R_ExitCode r = 0"

definition lemit :: "lenv \<Rightarrow> bool \<Rightarrow> lambda_record \<Rightarrow> lhist \<Rightarrow> bool \<times> lhist" where
  "lemit E journal r h =
     (if journal then (le_record E h r, LRecord r # h) else (True, LBootstrap r # h))"

text \<open>What the body of an invocation leaves: the result and the error it returns, the record so far,
  whether there is a journal, and whether the start was recorded.\<close>

record progress =
  pg_result :: result
  pg_err :: "string option"
  pg_record :: lambda_record
  pg_journal :: bool
  pg_started :: bool

definition stopped :: "lambda_record \<Rightarrow> bool \<Rightarrow> string \<Rightarrow> progress" where
  "stopped record journal code =
     \<lparr>pg_result = zero_result, pg_err = Some code, pg_record = record, pg_journal = journal, pg_started = False\<rparr>"

definition handle_body :: "lenv \<Rightarrow> string \<Rightarrow> lambda_record \<Rightarrow> lhist \<Rightarrow> progress \<times> lhist" where
  "handle_body E raw record h =
     (case Environment (le_getenv E) of
        Inl err \<Rightarrow> (stopped record False err, h)
      | Inr s \<Rightarrow>
          let record = record\<lparr>l_Scope := st_Scope s\<rparr> in
          (case Decode raw of
             Inl err \<Rightarrow> (stopped record False err, h)
           | Inr input \<Rightarrow>
               let record = record\<lparr>l_Correlation := input\<rparr> in
               if l_RequestID record = [] then (stopped record False ''cleanup_invocation_invalid'', h)
               else if l_EmittedAt record = [] then (stopped record False ''cleanup_clock_invalid'', h)
               else if le_factory_nil E then (stopped record False ''cleanup_setup_failed'', h)
               else let (failed, runner, journal) = le_factory E h; h = LFactory s (l_RequestID record) input # h in
                 if failed \<or> \<not> runner \<or> \<not> journal then (stopped record journal ''cleanup_setup_failed'', h)
                 else let ok = le_record E h record; h = LRecord record # h in
                   if \<not> ok then (stopped record True ''cleanup_evidence_unavailable'', h)
                   else let (result, err) = le_run E h in
                     (\<lparr>pg_result = result,
                       pg_err = (if err \<noteq> None \<or> \<not> full_success result then Some ''cleanup_incomplete'' else None),
                       pg_record = record, pg_journal = True, pg_started = True\<rparr>, LRun # h)))"

text \<open>The deferred part: the end record, and before it the start and a summary when the run did not
  produce them.\<close>

definition end_record :: "progress \<Rightarrow> string \<Rightarrow> bool \<Rightarrow> lambda_record" where
  "end_record p at ended =
     (let result = pg_result p; ok = (pg_err p = None \<and> full_success result) in
      (pg_record p)\<lparr>l_Kind := ''invocation_end'', l_EmittedAt := at,
        l_Code := (case pg_err p of Some err \<Rightarrow> if R_Code result = [] then err else R_Code result | None \<Rightarrow> R_Code result),
        l_OK := ok, l_Complete := ok,
        l_Partial := (R_ExitCode result = 3 \<or> \<not> R_Complete result),
        l_Deadline := (R_ExitCode result = 4 \<or> ended),
        l_Result := (if R_SchemaVersion result \<noteq> 0 then Some result else l_Result (pg_record p))\<rparr>)"

definition handle_end :: "lenv \<Rightarrow> progress \<Rightarrow> lhist \<Rightarrow> (result \<times> string option) \<times> lhist" where
  "handle_end E p h =
     (let h = (if \<not> pg_started p then snd (lemit E (pg_journal p) (pg_record p) h) else h);
          at = stamp (le_now E h); h = LNow # h;
          ended = (R_ExitCode (pg_result p) = 4 \<or> le_ctx E h); h = (if R_ExitCode (pg_result p) = 4 then h else LCtx # h);
          record = end_record p at ended;
          h = (if R_SchemaVersion (pg_result p) = 0
               then snd (lemit E (pg_journal p) (record\<lparr>l_Kind := ''summary''\<rparr>) h) else h);
          (ok, h) = lemit E (pg_journal p) record h
      in ((pg_result p, if ok then pg_err p else Some ''cleanup_evidence_unavailable''), h))"

definition Handle :: "lenv \<Rightarrow> string \<Rightarrow> (result \<times> string option) \<times> lhist" where
  "Handle E raw =
     (let rid = (case le_request E of Some r \<Rightarrow> if re_match requestRE r then r else [] | None \<Rightarrow> []);
          record = zero_record\<lparr>l_SchemaVersion := 1, l_Kind := ''invocation_start'', l_RequestID := rid, l_RunID := rid,
                     l_EmittedAt := stamp (le_now E [])\<rparr>;
          (p, h) = handle_body E raw record [LNow]
      in handle_end E p h)"

section \<open>The input round trip\<close>

text \<open>The text the scheduler sends: \<open>json.Marshal\<close> of the input, empty fields omitted.\<close>

fun members_text :: "(string \<times> string) list \<Rightarrow> string" where
  "members_text [] = ''}''"
| "members_text ((k, v) # ms) = '','' @ CHR 0x22 # k @ CHR 0x22 # CHR '':'' # CHR 0x22 # v @ CHR 0x22 # members_text ms"

definition input_members :: "scheduled_input \<Rightarrow> (string \<times> string) list" where
  "input_members i = filter (\<lambda>(k, v). v \<noteq> [])
     [(''schedule_arn'', si_ScheduleARN i), (''scheduled_time'', si_ScheduledTime i),
      (''execution_id'', si_ExecutionID i), (''attempt_number'', si_AttemptNumber i)]"

definition input_text :: "scheduled_input \<Rightarrow> string" where
  "input_text i = CHR ''{'' # CHR 0x22 # ''schema_version'' @ CHR 0x22 # '':1'' @ members_text (input_members i)"

definition input_ok :: "scheduled_input \<Rightarrow> bool" where
  "input_ok i \<longleftrightarrow> si_SchemaVersion i = 1 \<and>
     (si_ScheduleARN i = [] \<or> re_match scheduleRE (si_ScheduleARN i) \<and> length (si_ScheduleARN i) \<le> 256) \<and>
     (si_ScheduledTime i = [] \<or> is_ok (ParseTimestamp (si_ScheduledTime i)) \<and> length (si_ScheduledTime i) \<le> 256) \<and>
     (si_ExecutionID i = [] \<or> re_match executionRE (si_ExecutionID i)) \<and>
     (si_AttemptNumber i = [] \<or> re_match attemptRE (si_AttemptNumber i))"

lemma plain_digit: "is_digit c \<Longrightarrow> plain c"
  by (auto simp: is_digit_def in_range_def plain_def)

lemma plain_pad [simp]: "list_all plain (pad k n)"
  using pad_digits [of k n] plain_digit by (auto simp: list_all_iff)

lemma plain_strip: "list_all plain s \<Longrightarrow> list_all plain (strip_zeros s)"
  unfolding strip_zeros_def list_all_iff set_rev by (auto dest: set_dropWhileD)

lemma timestamp_plain: "Timestamp t = Inr s \<Longrightarrow> list_all plain s"
proof -
  assume "Timestamp t = Inr s"
  then have "s = format_rfc3339nano t" by (simp add: Timestamp_def split: if_splits)
  moreover have "plain (CHR ''-'')" "plain (CHR ''T'')" "plain (CHR '':'')" "plain (CHR ''Z'')" "plain (CHR ''.'')"
    by (simp_all add: plain_def)
  moreover have "list_all plain (format_fraction n)" for n
    using plain_strip \<open>plain (CHR ''.'')\<close> by (simp add: format_fraction_def)
  ultimately show ?thesis by (simp add: format_rfc3339nano_def Let_def split: prod.splits)
qed

lemma plain_char: "plain (CHR ''-'')" "plain (CHR '':'')" "plain (CHR ''/'')" "list_all plain ''arn:aws:scheduler:''"
  "list_all plain '':schedule/''"
  by (simp_all add: plain_def)

lemma plain_classes: "chars_ok plain name_cls" "chars_ok plain arn_region_cls" "chars_ok plain digit_cls"
  "chars_ok plain label_cls"
  by (auto simp: name_cls_def arn_region_cls_def digit_cls_def label_cls_def in_class_def in_range_def plain_def)

lemma regex_plain:
  "re_match scheduleRE s \<Longrightarrow> list_all plain s" "re_match executionRE s \<Longrightarrow> list_all plain s"
  "re_match attemptRE s \<Longrightarrow> list_all plain s"
  by (erule match_chars; simp add: scheduleRE_def executionRE_def attemptRE_def plain_classes plain_char plain_def)+

lemma input_members_plain: "input_ok i \<Longrightarrow> list_all (\<lambda>(k, v). list_all plain k \<and> list_all plain v) (input_members i)"
proof -
  assume ok: "input_ok i"
  have time: "list_all plain (si_ScheduledTime i)" if "is_ok (ParseTimestamp (si_ScheduledTime i))"
    using that timestamp_plain unfolding is_ok_iff ts.iff by blast
  have v: "list_all plain (si_ScheduleARN i)" "list_all plain (si_ScheduledTime i)"
    "list_all plain (si_ExecutionID i)" "list_all plain (si_AttemptNumber i)"
    using ok regex_plain(1) [of "si_ScheduleARN i"] time regex_plain(2) [of "si_ExecutionID i"]
      regex_plain(3) [of "si_AttemptNumber i"] unfolding input_ok_def by (metis list.pred_inject(1))+
  have "list_all plain ''schedule_arn''" "list_all plain ''scheduled_time''" "list_all plain ''execution_id''"
    "list_all plain ''attempt_number''" by (simp_all add: plain_def)
  with v show ?thesis by (simp add: input_members_def)
qed

lemma json_string_value:
  assumes "list_all plain v"
  shows "json_value (Suc f) (CHR 0x22 # v @ CHR 0x22 # r) = Some (JStr v, r)"
  using string_body_plain [OF assms, of "Suc (length (v @ CHR 0x22 # r))" r]
  by (simp add: json_space_def)

lemma json_members_text:
  "list_all (\<lambda>(k, v). list_all plain k \<and> list_all plain v) ms \<Longrightarrow> length ms < f \<Longrightarrow> ms \<noteq> [] \<Longrightarrow>
     json_members f (tl (members_text ms) @ r) = Some (map (\<lambda>(k, v). (k, JStr v)) ms, r)"
proof (induction ms arbitrary: f)
  case (Cons m ms)
  obtain k v where m: "m = (k, v)" by force
  obtain n where f: "f = Suc n" "length ms < n" using Cons.prems(2) by (cases f) auto
  have p: "list_all plain k" "list_all plain v" using Cons.prems(1) by (simp_all add: m)
  note key = string_body_plain [OF p(1)]
  have val: "json_value n (CHR 0x22 # v @ CHR 0x22 # t) = Some (JStr v, t)" for t
    using json_string_value [OF p(2)] f(2) by (cases n) auto
  show ?case
  proof (cases ms)
    case Nil
    then show ?thesis by (simp add: key val m f json_space_def)
  next
    case (Cons m2 ms2)
    then have hd: "members_text ms @ r = CHR '','' # (tl (members_text ms) @ r)" by (cases m2) simp
    have rec: "json_members n (tl (members_text ms) @ r) = Some (map (\<lambda>(k, v). (k, JStr v)) ms, r)"
      by (rule Cons.IH) (use Cons.prems Cons f in auto)
    show ?thesis by (simp add: key val rec m f json_space_def hd)
  qed
qed simp

lemma number_one: "number_lit (CHR ''1'' # members_text ms) = Some (''1'', members_text ms)"
proof -
  obtain c t where m: "members_text ms = c # t" "c = CHR ''}'' \<or> c = CHR '',''"
    by (cases ms rule: members_text.cases) auto
  have "\<not> is_digit c" "is_digit (CHR ''1'')" "c \<noteq> CHR ''.''" "c \<noteq> CHR ''e''" "c \<noteq> CHR ''E''"
    using m(2) by (auto simp: is_digit_def in_range_def)
  then show ?thesis by (simp add: number_lit_def int_part_def digits_part_def frac_part_def exp_part_def m(1))
qed

lemma length_members: "length ms < length (members_text ms)"
  by (induction ms rule: members_text.induct) auto

lemma json_input_text:
  assumes "list_all (\<lambda>(k, v). list_all plain k \<and> list_all plain v) (input_members i)"
  shows "json_text (input_text i) =
    Some (JObj ((''schema_version'', JNum ''1'') # map (\<lambda>(k, v). (k, JStr v)) (input_members i)))"
proof -
  let ?ms = "input_members i"
  let ?body = "CHR 0x22 # ''schema_version'' @ CHR 0x22 # '':1'' @ members_text ?ms"
  define n where "n = 2 * length (input_text i) - 1"
  have "length ?ms < length (members_text ?ms)" by (rule length_members)
  then have n: "length ?ms < n" "2 * length (input_text i) + 1 = Suc (Suc n)"
    by (simp_all add: n_def input_text_def)
  then obtain k where k: "n = Suc k" by (cases n) auto
  have key: "string_body f (''schema_version'' @ CHR 0x22 # t) = Some (''schema_version'', t)" if "20 < f" for f t
    using string_body_plain [of "''schema_version''" f t] that by (simp add: plain_def)
  have num: "json_value n (CHR ''1'' # members_text ?ms) = Some (JNum ''1'', members_text ?ms)"
    using number_one by (simp add: k json_space_def)
  have mem: "json_members (Suc n) ?body = Some ((''schema_version'', JNum ''1'') # map (\<lambda>(k, v). (k, JStr v)) ?ms, [])"
  proof (cases ?ms)
    case Nil
    then show ?thesis using key num by (simp add: json_space_def)
  next
    case (Cons m ms)
    then obtain t where hd: "members_text ?ms = CHR '','' # t" by (cases m) simp
    have "json_members n (tl (members_text ?ms) @ []) = Some (map (\<lambda>(k, v). (k, JStr v)) ?ms, [])"
      by (rule json_members_text) (use assms n Cons in auto)
    then have "json_members n t = Some (map (\<lambda>(k, v). (k, JStr v)) ?ms, [])" by (simp add: hd)
    then show ?thesis using key num by (simp add: json_space_def hd)
  qed
  have "json_value (Suc (Suc n)) (input_text i) =
      Some (JObj ((''schema_version'', JNum ''1'') # map (\<lambda>(k, v). (k, JStr v)) ?ms), [])"
    using mem by (simp add: input_text_def json_space_def del: json_members.simps)
  then show ?thesis unfolding json_text_def n(2) by simp
qed

lemma input_length: "input_ok i \<Longrightarrow> length (input_text i) \<le> 4096"
proof -
  assume ok: "input_ok i"
  have e: "length (si_ExecutionID i) \<le> 128" "length (si_AttemptNumber i) \<le> 4"
    using ok by (auto simp: input_ok_def executionRE_def attemptRE_def label_cls_def digit_cls_def Rep_class_match)
  have a: "length (si_ScheduleARN i) \<le> 256" "length (si_ScheduledTime i) \<le> 256"
    using ok by (auto simp: input_ok_def)
  have "length (members_text ms) = 1 + sum_list (map (\<lambda>(k, v). length k + length v + 6) ms)" for ms
    by (induction ms rule: members_text.induct) auto
  then show ?thesis using e a by (simp add: input_text_def input_members_def)
qed

text \<open>What \<open>Decode\<close> accepts.\<close>

lemma decode_field_ok:
  assumes "decode_field key v input = Some input'"
  shows "input_ok (input\<lparr>si_SchemaVersion := 1\<rparr>) \<Longrightarrow> input_ok (input'\<lparr>si_SchemaVersion := 1\<rparr>)"
  using assms by (auto simp: decode_field_def input_ok_def split: if_splits json.splits)

lemma decode_members_ok:
  "decode_members ms seen input = Some input' \<Longrightarrow> input_ok (input\<lparr>si_SchemaVersion := 1\<rparr>) \<Longrightarrow>
     input_ok (input'\<lparr>si_SchemaVersion := 1\<rparr>)"
proof (induction ms seen input rule: decode_members.induct)
  case (2 key v ms seen input)
  from "2.prems" obtain i2 where d: "key \<notin> set seen" "decode_field key v input = Some i2"
    "decode_members ms (key # seen) i2 = Some input'" by (auto split: if_splits option.splits)
  show ?case by (rule "2.IH" [OF d]) (use decode_field_ok [OF d(2)] "2.prems"(2) in simp)
qed simp

lemma zero_input_ok: "input_ok (zero_input\<lparr>si_SchemaVersion := 1\<rparr>)"
  by (simp add: input_ok_def zero_input_def)

lemma Decode_sound: "Decode raw = Inr i \<Longrightarrow> input_ok i"
proof -
  assume "Decode raw = Inr i"
  then obtain ms where ms: "decode_members ms [] zero_input = Some i" "si_SchemaVersion i = 1"
    by (auto simp: Decode_def split: if_splits option.splits json.splits)
  have "i\<lparr>si_SchemaVersion := 1\<rparr> = i" using ms(2) by (cases i) simp
  then show ?thesis using decode_members_ok [OF ms(1) zero_input_ok] by simp
qed

lemma Decode_input_text:
  assumes ok: "input_ok i"
  shows "Decode (input_text i) = Inr i"
proof -
  let ?ms = "(''schema_version'', JNum ''1'') # map (\<lambda>(k, v). (k, JStr v)) (input_members i)"
  have lens: "length (si_ExecutionID i) \<le> 256" "length (si_AttemptNumber i) \<le> 256"
    using ok by (auto simp: input_ok_def executionRE_def attemptRE_def label_cls_def digit_cls_def Rep_class_match)
  have one: "int_of_literal ''1'' = Some 1"
    by (simp add: int_of_literal_def is_digit_def in_range_def digits_val_def digit_val_def)
  have "decode_members ?ms [] zero_input = Some i"
    using ok lens one unfolding input_ok_def
    by (cases i) (auto simp: input_members_def decode_field_def zero_input_def)
  then show ?thesis
    using json_input_text [OF input_members_plain [OF ok]] input_length [OF ok] ok
    by (simp add: Decode_def input_ok_def)
qed

section \<open>Invocations\<close>

definition runs :: "lhist \<Rightarrow> nat" where
  "runs h = length (filter (\<lambda>c. c = LRun) h)"

lemma runs_simps [simp]: "runs [] = 0" "runs (LNow # h) = runs h" "runs (LCtx # h) = runs h"
  "runs (LFactory a b c # h) = runs h" "runs (LRecord r # h) = runs h" "runs (LBootstrap r # h) = runs h"
  "runs (LRun # h) = Suc (runs h)"
  by (simp_all add: runs_def)

text \<open>The body stops without running, or runs after everything was checked and the start recorded.\<close>

definition started_by :: "lenv \<Rightarrow> string \<Rightarrow> lambda_record \<Rightarrow> lhist \<Rightarrow> lhist \<Rightarrow> bool" where
  "started_by E raw record h h' \<longleftrightarrow>
     (\<exists>s input f r. Environment (le_getenv E) = Inr s \<and> Decode raw = Inr input \<and>
        r = record\<lparr>l_Scope := st_Scope s, l_Correlation := input\<rparr> \<and> l_RequestID record \<noteq> [] \<and>
        l_EmittedAt record \<noteq> [] \<and> f = LFactory s (l_RequestID record) input # h \<and>
        le_record E f r \<and> h' = LRun # LRecord r # f)"

lemma handle_body_cases:
  assumes "handle_body E raw record h = (p, h')"
  obtains (stopped) "\<not> pg_started p" "runs h' = runs h" "pg_err p \<noteq> None" "pg_result p = zero_result"
  | (ran) "pg_started p" "pg_journal p" "started_by E raw record h h'"
      "pg_result p = fst (le_run E (tl h'))"
      "pg_err p = (if snd (le_run E (tl h')) \<noteq> None \<or> \<not> full_success (pg_result p) then Some ''cleanup_incomplete'' else None)"
proof (cases "Environment (le_getenv E)")
  case (Inl e)
  then show ?thesis using assms stopped by (auto simp: handle_body_def stopped_def)
next
  case env: (Inr s)
  show ?thesis
  proof (cases "Decode raw")
    case (Inl e)
    then show ?thesis using assms stopped env by (auto simp: handle_body_def stopped_def)
  next
    case dec: (Inr input)
    let ?r = "record\<lparr>l_Scope := st_Scope s, l_Correlation := input\<rparr>"
    let ?f = "LFactory s (l_RequestID record) input # h"
    obtain failed runner journal where f: "le_factory E h = (failed, runner, journal)"
      by (cases "le_factory E h")
    show ?thesis
    proof (cases "l_RequestID record = [] \<or> l_EmittedAt record = [] \<or> le_factory_nil E \<or> failed \<or> \<not> runner \<or>
        \<not> journal \<or> \<not> le_record E ?f ?r")
      case True
      then show ?thesis using assms stopped env dec f
        by (auto simp: handle_body_def stopped_def Let_def split: if_splits)
    next
      case False
      then have "started_by E raw record h h'" "pg_started p" "pg_journal p"
        "pg_result p = fst (le_run E (tl h'))"
        "pg_err p = (if snd (le_run E (tl h')) \<noteq> None \<or> \<not> full_success (pg_result p) then Some ''cleanup_incomplete'' else None)"
        using assms env dec f by (auto simp: handle_body_def Let_def started_by_def split: prod.splits)
      then show ?thesis using ran by blast
    qed
  qed
qed

lemma lemit_cases:
  "lemit E j r h = (ok, h') \<Longrightarrow> (j \<and> h' = LRecord r # h \<and> ok = le_record E h r) \<or> (\<not> j \<and> h' = LBootstrap r # h \<and> ok)"
  by (auto simp: lemit_def split: if_splits)

lemma lemit_runs: "lemit E j r h = (ok, h') \<Longrightarrow> runs h' = runs h \<and> suffix h h'"
  by (auto simp: lemit_def suffix_Cons split: if_splits)

lemma end_record_fields [simp]: "l_Kind (end_record p at ended) = ''invocation_end''"
  "l_OK (end_record p at ended) = (pg_err p = None \<and> full_success (pg_result p))"
  by (simp_all add: end_record_def Let_def)

text \<open>The end record is the last thing sent, and its acceptance decides about the error returned.\<close>

text \<open>The two records before the end record, when there are any.\<close>

definition before_end :: "lenv \<Rightarrow> progress \<Rightarrow> lhist \<Rightarrow> lhist" where
  "before_end E p h = (if \<not> pg_started p then snd (lemit E (pg_journal p) (pg_record p) h) else h)"

definition end_of :: "lenv \<Rightarrow> progress \<Rightarrow> lhist \<Rightarrow> lambda_record \<times> lhist" where
  "end_of E p h =
     (end_record p (stamp (le_now E h)) (R_ExitCode (pg_result p) = 4 \<or> le_ctx E (LNow # h)),
      if R_ExitCode (pg_result p) = 4 then LNow # h else LCtx # LNow # h)"

definition after_summary :: "lenv \<Rightarrow> progress \<Rightarrow> lambda_record \<Rightarrow> lhist \<Rightarrow> lhist" where
  "after_summary E p r h = (if R_SchemaVersion (pg_result p) = 0
     then snd (lemit E (pg_journal p) (r\<lparr>l_Kind := ''summary''\<rparr>) h) else h)"

lemma handle_end_eq:
  "handle_end E p h =
     (case end_of E p (before_end E p h) of (r, g) \<Rightarrow>
      case lemit E (pg_journal p) r (after_summary E p r g) of (ok, k) \<Rightarrow>
        ((pg_result p, if ok then pg_err p else Some ''cleanup_evidence_unavailable''), k))"
  by (simp only: handle_end_def before_end_def end_of_def after_summary_def Let_def prod.case)

lemma lemit_snd: "runs (snd (lemit E j r h)) = runs h" "suffix h (snd (lemit E j r h))"
  by (auto simp: lemit_def suffix_Cons)

lemma before_end_frame: "runs (before_end E p h) = runs h" "suffix h (before_end E p h)"
  by (simp_all add: before_end_def lemit_snd)

lemma after_summary_frame: "runs (after_summary E p r h) = runs h" "suffix h (after_summary E p r h)"
  by (simp_all add: after_summary_def lemit_snd)

lemma handle_end_cases:
  assumes "handle_end E p h = ((result, err), h')"
  obtains r g where "result = pg_result p" "l_Kind r = ''invocation_end''"
    "l_OK r = (pg_err p = None \<and> full_success (pg_result p))" "runs h' = runs h" "suffix h h'"
    "h' = (if pg_journal p then LRecord r else LBootstrap r) # g"
    "err = (if pg_journal p \<and> \<not> le_record E g r then Some ''cleanup_evidence_unavailable'' else pg_err p)"
proof -
  obtain r g where eo: "end_of E p (before_end E p h) = (r, g)" by force
  have r: "l_Kind r = ''invocation_end''" "l_OK r = (pg_err p = None \<and> full_success (pg_result p))"
    "runs g = runs h" "suffix (before_end E p h) g"
    using eo by (auto simp: end_of_def before_end_frame suffix_Cons split: if_splits)
  define k where "k = after_summary E p r g"
  have "suffix h g" by (rule suffix_order.trans [OF before_end_frame(2) r(4)])
  then have k: "suffix h k"
    unfolding k_def by (rule suffix_order.trans [OF _ after_summary_frame(2)])
  have rk: "runs k = runs h" using r(3) by (simp add: k_def after_summary_frame)
  obtain ok h2 where em: "lemit E (pg_journal p) r k = (ok, h2)" by force
  have "result = pg_result p" "err = (if ok then pg_err p else Some ''cleanup_evidence_unavailable'')" "h' = h2"
    using assms unfolding handle_end_eq eo prod.case k_def [symmetric] em by simp_all
  note res = this
  have h2: "h2 = (if pg_journal p then LRecord r else LBootstrap r) # k" "ok = (pg_journal p \<longrightarrow> le_record E k r)"
    using lemit_cases [OF em] by auto
  show ?thesis
    by (rule that [of r k]) (use res r(1,2) k rk h2 in \<open>auto simp: suffix_Cons\<close>)
qed

text \<open>A concrete invocation that succeeds.\<close>

definition ok_result :: result where
  "ok_result = zero_result\<lparr>R_SchemaVersion := 1, R_OK := True, R_Complete := True, R_ScanComplete := True\<rparr>"

definition ex_getenv :: "string \<Rightarrow> string" where
  "ex_getenv k = (if k = ''DEVBOX_ACCOUNT'' then ''123456789012''
     else if k = ''DEVBOX_REGION'' \<or> k = ''AWS_REGION'' then ''us-east-1''
     else if k = ''DEVBOX_DEPLOYMENT'' then ''dev'' else if k = ''DEVBOX_OWNER'' then ''alice''
     else ''/aws/lambda/devbox-dev-alice-cleanup'')"

definition ex_lenv :: lenv where
  "ex_lenv = \<lparr>le_request = Some ''r-1'', le_getenv = Some ex_getenv, le_factory_nil = False,
     le_now = \<lambda>h. 5 * second, le_ctx = \<lambda>h. False, le_factory = \<lambda>h. (False, True, True),
     le_record = \<lambda>h r. True, le_run = \<lambda>h. (ok_result, None)\<rparr>"

definition ex_input :: scheduled_input where
  "ex_input = zero_input\<lparr>si_SchemaVersion := 1\<rparr>"

lemma ex_environment: "is_ok (Environment (Some ex_getenv))"
  by code_simp

lemma ex_decode: "Decode (input_text ex_input) = Inr ex_input"
  by (rule Decode_input_text) (simp add: input_ok_def ex_input_def zero_input_def)

lemma ex_stamp: "stamp (5 * second) = ''0001-01-01T00:00:05Z''"
  by (simp add: stamp_def Timestamp_def time_eval second_def)

lemma ex_handle: "\<exists>h. Handle ex_lenv (input_text ex_input) = ((ok_result, None), h) \<and> runs h = 1"
proof -
  obtain s where s: "Environment (Some ex_getenv) = Inr s"
    using ex_environment by (cases "Environment (Some ex_getenv)") auto
  have rid: "re_match requestRE ''r-1''" by code_simp
  have ok: "full_success ok_result" "R_SchemaVersion ok_result = 1" "R_ExitCode ok_result = 0"
    by (simp_all add: full_success_def ok_result_def zero_result_def)
  show ?thesis
    by (simp add: Handle_def ex_lenv_def s rid ex_stamp [simplified] handle_body_def ex_decode handle_end_def
        Let_def lemit_def ok)
qed

section \<open>Properties\<close>

text \<open>The decoder accepts exactly the inputs in order, and the text the scheduler writes for one
  decodes to that very input: whatever \<open>Decode\<close> returns has schema 1 and every present field in its
  grammar, and no such input is refused.\<close>

theorem decode_roundtrip:
  "(Decode (input_text i) = Inr i) = input_ok i \<and> (\<exists>raw. Decode raw = Inr i) = input_ok i"
  using Decode_sound Decode_input_text by blast



text \<open>C10.  The last thing an invocation sends is its end record.  The invocation returns no error
  exactly when its run succeeded in full and the journal accepted that record, and then the record
  says so.\<close>

theorem handle_end_reported:
  assumes "Handle E raw = ((result, err), h)"
  shows "\<exists>r g. l_Kind r = ''invocation_end'' \<and> (h = LRecord r # g \<or> h = LBootstrap r # g) \<and>
    (l_OK r \<longrightarrow> full_success result) \<and>
    (err = None \<longleftrightarrow> h = LRecord r # g \<and> le_record E g r \<and> l_OK r)"
proof -
  let ?rid = "case le_request E of Some r \<Rightarrow> if re_match requestRE r then r else [] | None \<Rightarrow> []"
  let ?rec = "zero_record\<lparr>l_SchemaVersion := 1, l_Kind := ''invocation_start'', l_RequestID := ?rid, l_RunID := ?rid,
      l_EmittedAt := stamp (le_now E [])\<rparr>"
  obtain p k where b: "handle_body E raw ?rec [LNow] = (p, k)" by force
  have e: "handle_end E p k = ((result, err), h)" using assms b by (simp add: Handle_def Let_def)
  have body: "pg_err p = None \<Longrightarrow> pg_journal p \<and> full_success (pg_result p)"
    using b by (cases rule: handle_body_cases) (auto split: if_splits)
  obtain r g where r: "result = pg_result p" "l_Kind r = ''invocation_end''"
    "l_OK r = (pg_err p = None \<and> full_success (pg_result p))"
    "h = (if pg_journal p then LRecord r else LBootstrap r) # g"
    "err = (if pg_journal p \<and> \<not> le_record E g r then Some ''cleanup_evidence_unavailable'' else pg_err p)"
    by (rule handle_end_cases [OF e])
  show ?thesis using r body by (intro exI [of _ r] exI [of _ g]) auto
qed

theorem handle_end_reported_witness:
  "\<exists>h r g. Handle ex_lenv (input_text ex_input) = ((ok_result, None), h) \<and> h = LRecord r # g \<and> l_OK r"
proof -
  obtain h where h: "Handle ex_lenv (input_text ex_input) = ((ok_result, None), h)" using ex_handle by blast
  show ?thesis using handle_end_reported [OF h] h by auto
qed

end
