(* ===== verification/GoJsonCodec.thy ===== *)
theory GoJsonCodec
  imports GoJson
begin

text \<open>
  The writing half of \<^verbatim>\<open>encoding/json\<close>, and what it does with structs.  \<open>json_print\<close> is
  \<open>json.Marshal\<close> on a value tree: compact, HTML-escaped strings, integers in decimal.  A struct is
  described by a table of its field names, each with the function that stores a value in the record;
  \<open>decode_struct\<close> is \<open>Decoder.Decode\<close> with \<open>DisallowUnknownFields\<close> on such a table.  The round
  trip \<open>json_text_print\<close> covers the texts the program writes: printable ASCII strings and
  integers.
\<close>

section \<open>Writing\<close>

definition u_escape :: "nat \<Rightarrow> string" where
  "u_escape n =
     (let h = (\<lambda>k. let d = n div 16 ^ k mod 16 in if d < 10 then char_of (48 + d) else char_of (87 + d))
      in [CHR 0x5C, CHR ''u'', h 3, h 2, h 1, h 0])"

definition escape_char :: "char \<Rightarrow> string" where
  "escape_char c =
     (if c = CHR 0x22 \<or> c = CHR 0x5C then [CHR 0x5C, c]
      else if c = CHR 0x08 then [CHR 0x5C, CHR ''b'']
      else if c = CHR 0x0C then [CHR 0x5C, CHR ''f'']
      else if c = CHR 0x0A then [CHR 0x5C, CHR ''n'']
      else if c = CHR 0x0D then [CHR 0x5C, CHR ''r'']
      else if c = CHR 0x09 then [CHR 0x5C, CHR ''t'']
      else if byte c < 32 \<or> c = CHR ''<'' \<or> c = CHR ''>'' \<or> c = CHR ''&'' then u_escape (byte c)
      else [c])"

text \<open>\<open>skip\<close> counts the bytes of a rune that has been copied already.\<close>

fun escape_body :: "nat \<Rightarrow> string \<Rightarrow> string" where
  "escape_body skip [] = []"
| "escape_body (Suc skip) (c # s) = c # escape_body skip s"
| "escape_body 0 (c # s) =
     (if byte c < 128 then escape_char c @ escape_body 0 s
      else (case decode_rune (c # s) of
              (r, n) \<Rightarrow>
                if r = rune_error \<and> n = 1 then u_escape rune_error @ escape_body 0 s
                else if r = 8232 \<or> r = 8233 then u_escape r @ escape_body 0 (drop (n - 1) s)
                else c # escape_body (n - 1) s))"

definition json_string :: "string \<Rightarrow> string" where
  "json_string s = CHR 0x22 # escape_body 0 s @ [CHR 0x22]"

definition int_lit :: "int \<Rightarrow> string" where
  "int_lit i = (if i < 0 then CHR ''-'' # nat_str (nat (- i)) else nat_str (nat i))"

abbreviation JInt :: "int \<Rightarrow> json" where
  "JInt i \<equiv> JNum (int_lit i)"

text \<open>\<open>print_members\<close> and \<open>print_elements\<close> write what follows the opening bracket.\<close>

fun json_print :: "json \<Rightarrow> string"
  and print_members :: "(string \<times> json) list \<Rightarrow> string"
  and print_elements :: "json list \<Rightarrow> string" where
  "json_print JNull = ''null''"
| "json_print (JBool b) = (if b then ''true'' else ''false'')"
| "json_print (JNum s) = s"
| "json_print (JStr s) = json_string s"
| "json_print (JArr xs) = CHR ''['' # print_elements xs"
| "json_print (JObj ms) = CHR ''{'' # print_members ms"
| "print_members [] = ''}''"
| "print_members ((k, v) # ms) =
     json_string k @ CHR '':'' # json_print v @ (if ms = [] then ''}'' else CHR '','' # print_members ms)"
| "print_elements [] = '']''"
| "print_elements (v # vs) = json_print v @ (if vs = [] then '']'' else CHR '','' # print_elements vs)"

section \<open>Structs\<close>

text \<open>The name folding of field matching: ASCII case, and the two other runes whose fold is an ASCII
  letter (the Kelvin sign and the long s).\<close>

fun fold_name :: "string \<Rightarrow> string" where
  "fold_name [] = []"
| "fold_name (c # s) =
     (if in_range (CHR ''a'') (CHR ''z'') c then char_of (byte c - 32) # fold_name s
      else if c = CHR 0xE2 \<and> take 2 s = [CHR 0x84, CHR 0xAA] then CHR ''K'' # fold_name (drop 2 s)
      else if c = CHR 0xC5 \<and> take 1 s = [CHR 0xBF] then CHR ''S'' # fold_name (drop 1 s)
      else c # fold_name s)"

text \<open>A field is stored by a partial update of the record: \<open>None\<close> when the value has the wrong type.\<close>

type_synonym 'r fields = "(string \<times> (json \<Rightarrow> 'r \<Rightarrow> 'r option)) list"

definition find_field :: "'r fields \<Rightarrow> string \<Rightarrow> (json \<Rightarrow> 'r \<Rightarrow> 'r option) option" where
  "find_field fs k =
     (case map_of fs k of Some d \<Rightarrow> Some d
      | None \<Rightarrow> map_option snd (find (\<lambda>f. fold_name (fst f) = fold_name k) fs))"

fun decode_object :: "'r fields \<Rightarrow> (string \<times> json) list \<Rightarrow> 'r \<Rightarrow> 'r option" where
  "decode_object fs [] r = Some r"
| "decode_object fs ((k, v) # ms) r =
     (case find_field fs k of None \<Rightarrow> None
      | Some d \<Rightarrow> (case d v r of None \<Rightarrow> None | Some r \<Rightarrow> decode_object fs ms r))"

definition decode_struct :: "'r fields \<Rightarrow> json \<Rightarrow> 'r \<Rightarrow> 'r option" where
  "decode_struct fs j r = (case j of JObj ms \<Rightarrow> decode_object fs ms r | JNull \<Rightarrow> Some r | _ \<Rightarrow> None)"

text \<open>Decoders of the field types; \<open>null\<close> keeps a scalar or a struct and clears a slice, map or
  pointer.\<close>

type_synonym 'a decoder = "json \<Rightarrow> 'a \<Rightarrow> 'a option"

definition d_string :: "string decoder" where
  "d_string j x = (case j of JStr s \<Rightarrow> Some s | JNull \<Rightarrow> Some x | _ \<Rightarrow> None)"

definition d_int :: "int decoder" where
  "d_int j x = (case j of JNum s \<Rightarrow> int_of_literal s | JNull \<Rightarrow> Some x | _ \<Rightarrow> None)"

definition d_bool :: "bool decoder" where
  "d_bool j x = (case j of JBool b \<Rightarrow> Some b | JNull \<Rightarrow> Some x | _ \<Rightarrow> None)"

primrec d_all :: "(json \<Rightarrow> 'a option) \<Rightarrow> json list \<Rightarrow> 'a list option" where
  "d_all d [] = Some []"
| "d_all d (j # js) = (case d j of None \<Rightarrow> None | Some x \<Rightarrow> map_option ((#) x) (d_all d js))"

definition d_slice :: "'a decoder \<Rightarrow> 'a \<Rightarrow> 'a list option decoder" where
  "d_slice d zero j x =
     (case j of JArr js \<Rightarrow> map_option Some (d_all (\<lambda>j. d j zero) js) | JNull \<Rightarrow> Some None | _ \<Rightarrow> None)"

definition d_pointer :: "'a decoder \<Rightarrow> 'a \<Rightarrow> 'a option decoder" where
  "d_pointer d zero j x =
     (case j of JNull \<Rightarrow> Some None
      | _ \<Rightarrow> map_option Some (d j (case x of Some v \<Rightarrow> v | None \<Rightarrow> zero)))"

text \<open>A Go map with string keys is the association list of its entries in the order of the keys, so equal
  maps are equal lists; every map is built by \<open>map_put\<close>.  This is also the order \<open>json.Marshal\<close>
  writes.\<close>

type_synonym 'a gomap = "(string \<times> 'a) list"

fun map_put :: "string \<Rightarrow> 'a \<Rightarrow> 'a gomap \<Rightarrow> 'a gomap" where
  "map_put k v [] = [(k, v)]"
| "map_put k v ((k', v') # m) =
     (if k = k' then (k, v) # m else if k < k' then (k, v) # (k', v') # m else (k', v') # map_put k v m)"

definition map_ok :: "'a gomap \<Rightarrow> bool" where
  "map_ok m \<longleftrightarrow> sorted_wrt (<) (map fst m)"

fun d_entries :: "'a decoder \<Rightarrow> 'a \<Rightarrow> (string \<times> json) list \<Rightarrow> 'a gomap \<Rightarrow> 'a gomap option" where
  "d_entries d zero [] m = Some m"
| "d_entries d zero ((k, v) # ms) m =
     (case d v zero of None \<Rightarrow> None | Some x \<Rightarrow> d_entries d zero ms (map_put k x m))"

definition d_map :: "'a decoder \<Rightarrow> 'a \<Rightarrow> 'a gomap option decoder" where
  "d_map d zero j x =
     (case j of JObj ms \<Rightarrow> map_option Some (d_entries d zero ms (case x of None \<Rightarrow> [] | Some m \<Rightarrow> m))
      | JNull \<Rightarrow> Some None | _ \<Rightarrow> None)"

definition e_map :: "('a \<Rightarrow> json) \<Rightarrow> 'a gomap option \<Rightarrow> json" where
  "e_map e x = (case x of None \<Rightarrow> JNull | Some m \<Rightarrow> JObj (map (\<lambda>(k, v). (k, e v)) m))"

lemma map_of_put [simp]: "map_of (map_put k v m) = (map_of m)(k \<mapsto> v)"
  by (induction k v m rule: map_put.induct) auto

lemma set_fst_put: "set (map fst (map_put k v m)) = insert k (set (map fst m))"
  by (induction k v m rule: map_put.induct) auto

lemma map_ok_Nil [simp]: "map_ok []"
  by (simp add: map_ok_def)

lemma map_ok_put [simp]: "map_ok m \<Longrightarrow> map_ok (map_put k v m)"
proof (induction k v m rule: map_put.induct)
  case (2 k v k' v' m)
  then show ?case using set_fst_put [of k v m] by (fastforce simp: map_ok_def)
qed (simp add: map_ok_def)

text \<open>Equal maps are equal lists.\<close>

lemma map_ok_unique: "map_ok m \<Longrightarrow> map_ok n \<Longrightarrow> map_of m = map_of n \<Longrightarrow> m = n"
proof -
  assume m: "map_ok m" "map_ok n" "map_of m = map_of n"
  then have s: "sorted (map fst m)" "distinct (map fst m)" "sorted (map fst n)" "distinct (map fst n)"
    by (simp_all add: map_ok_def strict_sorted_iff)
  then have "set m = set n" using m(3) by (metis map_of_inject_set)
  then show ?thesis using s by (intro map_sorted_distinct_set_unique [of fst m n])
      (auto simp: distinct_map)
qed

lemma map_put_append:
  "map_ok (m @ [(k, v)]) \<Longrightarrow> map_put k v m = m @ [(k, v)]"
  by (induction k v m rule: map_put.induct) (auto simp: map_ok_def)

lemma d_entries_map:
  assumes "\<And>v. v \<in> snd ` set ms \<Longrightarrow> d (e v) zero = Some v"
  shows "map_ok (m @ ms) \<Longrightarrow> d_entries d zero (map (\<lambda>(k, v). (k, e v)) ms) m = Some (m @ ms)"
  using assms
proof (induction ms arbitrary: m)
  case (Cons x ms)
  obtain k v where x: "x = (k, v)" by force
  have "map_ok (m @ [(k, v)])" using Cons.prems(1) by (simp add: map_ok_def x sorted_wrt_append)
  then have "map_put k v m = m @ [(k, v)]" by (rule map_put_append)
  with Cons.IH [of "m @ [(k, v)]"] Cons.prems show ?case by (simp add: x)
qed simp

definition field :: "string \<Rightarrow> 'a decoder \<Rightarrow> ('r \<Rightarrow> 'a) \<Rightarrow> (('a \<Rightarrow> 'a) \<Rightarrow> 'r \<Rightarrow> 'r)
    \<Rightarrow> string \<times> (json \<Rightarrow> 'r \<Rightarrow> 'r option)" where
  "field name d get upd = (name, \<lambda>j r. map_option (\<lambda>x. upd (\<lambda>_. x) r) (d j (get r)))"

text \<open>\<open>omitempty\<close> leaves a member out when its value is empty.\<close>

definition omit_empty :: "bool \<Rightarrow> string \<Rightarrow> json \<Rightarrow> (string \<times> json) list" where
  "omit_empty skip name j = (if skip then [] else [(name, j)])"

definition e_slice :: "('a \<Rightarrow> json) \<Rightarrow> 'a list option \<Rightarrow> json" where
  "e_slice e x = (case x of None \<Rightarrow> JNull | Some xs \<Rightarrow> JArr (map e xs))"

section \<open>Printed texts read back\<close>

text \<open>Where a value may stop: the end, a delimiter, or the end of an indented line.\<close>

definition ends :: "string \<Rightarrow> bool" where
  "ends t \<longleftrightarrow> t = [] \<or> hd t = CHR '','' \<or> hd t = CHR '']'' \<or> hd t = CHR ''}'' \<or> hd t = CHR 0x0A"

definition soft :: "char \<Rightarrow> bool" where
  "soft c \<longleftrightarrow> plain c \<and> c \<noteq> CHR ''<'' \<and> c \<noteq> CHR ''>'' \<and> c \<noteq> CHR ''&''"

fun json_soft :: "json \<Rightarrow> bool"
  and soft_members :: "(string \<times> json) list \<Rightarrow> bool"
  and soft_elements :: "json list \<Rightarrow> bool" where
  "json_soft JNull = True"
| "json_soft (JBool b) = True"
| "json_soft (JNum s) = (\<exists>i. s = int_lit i)"
| "json_soft (JStr s) = list_all soft s"
| "json_soft (JArr xs) = soft_elements xs"
| "json_soft (JObj ms) = soft_members ms"
| "soft_members [] = True"
| "soft_members ((k, v) # ms) = (list_all soft k \<and> json_soft v \<and> soft_members ms)"
| "soft_elements [] = True"
| "soft_elements (v # vs) = (json_soft v \<and> soft_elements vs)"

text \<open>\<open>readable\<close>: the text written for a string reads back as that string; \<open>json_all\<close>: every string of a value has a
  property, and every number is an integer literal.\<close>

definition readable :: "string \<Rightarrow> bool" where
  "readable s \<longleftrightarrow> (\<forall>t. string_body (Suc (length (escape_body 0 s @ CHR 0x22 # t))) (escape_body 0 s @ CHR 0x22 # t) = Some (s, t))"

fun json_all :: "(string \<Rightarrow> bool) \<Rightarrow> json \<Rightarrow> bool"
  and members_all :: "(string \<Rightarrow> bool) \<Rightarrow> (string \<times> json) list \<Rightarrow> bool"
  and elements_all :: "(string \<Rightarrow> bool) \<Rightarrow> json list \<Rightarrow> bool" where
  "json_all P JNull = True"
| "json_all P (JBool b) = True"
| "json_all P (JNum s) = (\<exists>i. s = int_lit i)"
| "json_all P (JStr s) = P s"
| "json_all P (JArr xs) = elements_all P xs"
| "json_all P (JObj ms) = members_all P ms"
| "members_all P [] = True"
| "members_all P ((k, v) # ms) = (P k \<and> json_all P v \<and> members_all P ms)"
| "elements_all P [] = True"
| "elements_all P (v # vs) = (json_all P v \<and> elements_all P vs)"

lemma json_all_mono:
  "json_all P j \<Longrightarrow> (\<And>s. P s \<Longrightarrow> Q s) \<Longrightarrow> json_all Q j"
  "members_all P ms \<Longrightarrow> (\<And>s. P s \<Longrightarrow> Q s) \<Longrightarrow> members_all Q ms"
  "elements_all P xs \<Longrightarrow> (\<And>s. P s \<Longrightarrow> Q s) \<Longrightarrow> elements_all Q xs"
  by (induction P j and P ms and P xs rule: json_all_members_all_elements_all.induct) auto

lemma soft_all:
  "json_soft j = json_all (list_all soft) j" "soft_members ms = members_all (list_all soft) ms"
  "soft_elements xs = elements_all (list_all soft) xs"
  by (induction j and ms and xs rule: json_soft_soft_members_soft_elements.induct) auto

lemma soft_plain: "list_all soft s \<Longrightarrow> list_all plain s"
  by (simp add: list_all_iff soft_def)

lemma escape_char_soft: "soft c \<Longrightarrow> escape_char c = [c]"
proof -
  assume c: "soft c"
  then have "32 \<le> byte c" unfolding soft_def plain_def by blast
  then have "c \<noteq> CHR 0x08" "c \<noteq> CHR 0x0C" "c \<noteq> CHR 0x0A" "c \<noteq> CHR 0x0D" "c \<noteq> CHR 0x09" "\<not> byte c < 32"
    by force+
  with c show ?thesis unfolding soft_def plain_def escape_char_def by (simp only: if_False simp_thms)
qed

lemma escape_soft: "list_all soft s \<Longrightarrow> escape_body 0 s = s"
proof (induction s)
  case (Cons c s)
  then have c: "soft c" by simp
  then have "byte c < 128" unfolding soft_def plain_def by blast
  with escape_char_soft [OF c] Cons show ?case by simp
qed simp

lemma json_string_soft: "list_all soft s \<Longrightarrow> json_string s = CHR 0x22 # s @ [CHR 0x22]"
  by (simp add: json_string_def escape_soft)

lemma json_string_Cons: "\<exists>t. json_string s = CHR 0x22 # t"
  by (simp add: json_string_def)

lemma nat_str_head: "hd (nat_str n) = CHR ''0'' \<Longrightarrow> nat_str n = ''0''"
proof (induction n rule: nat_str.induct)
  case (1 n)
  show ?case
  proof (cases "n < 10")
    case True
    then have "nat_str n = [digit_char n]" by (subst nat_str.simps) simp
    with "1.prems" show ?thesis by simp
  next
    case False
    then have e: "nat_str n = nat_str (n div 10) @ [digit_char (n mod 10)]" by (subst nat_str.simps) simp
    with "1.prems" have "hd (nat_str (n div 10)) = CHR ''0''" by (simp add: nat_str_nonempty)
    with "1.IH" False have "nat_str (n div 10) = ''0''" by simp
    then have "digits_val (nat_str (n div 10)) = 0" by (simp add: digits_val_def digit_val_def)
    with False show ?thesis by (simp add: digits_val_nat_str)
  qed
qed

lemma ends_no_digit: "ends t \<Longrightarrow> takeWhile is_digit t = [] \<and> dropWhile is_digit t = t"
  by (cases t) (auto simp: ends_def is_digit_def in_range_def)

lemma int_part_nat: "ends t \<Longrightarrow> int_part (nat_str n @ t) = Some (nat_str n, t)"
proof -
  assume t: "ends t"
  obtain c s where s: "nat_str n = c # s" using nat_str_nonempty by (cases "nat_str n") auto
  have d: "is_digit c" "list_all is_digit s" using nat_str_digits [of n] by (simp_all add: s)
  show ?thesis
  proof (cases "c = CHR ''0''")
    case True
    then have "nat_str n = ''0''" using nat_str_head [of n] by (simp add: s)
    then show ?thesis by (simp add: int_part_def)
  next
    case False
    have "takeWhile is_digit (c # s @ t) = c # s" "dropWhile is_digit (c # s @ t) = t"
      using d ends_no_digit [OF t] by (simp_all add: list_all_iff takeWhile_append dropWhile_append)
    with False show ?thesis by (simp add: int_part_def s digits_part_def)
  qed
qed

lemma tail_parts: "ends t \<Longrightarrow> frac_part t = Some ([], t) \<and> exp_part t = Some ([], t)"
  by (cases t) (auto simp: ends_def frac_part_def exp_part_def)

lemma nat_str_Cons: "\<exists>c s. nat_str n = c # s \<and> is_digit c"
  using nat_str_nonempty [of n] nat_str_digits [of n] by (cases "nat_str n") auto

lemma number_lit_int: "ends t \<Longrightarrow> number_lit (int_lit i @ t) = Some (int_lit i, t)"
proof -
  assume t: "ends t"
  obtain c s where s: "nat_str (nat i) = c # s" "is_digit c" using nat_str_Cons by blast
  have "c \<noteq> CHR ''-''" using s(2) by (auto simp: is_digit_def in_range_def)
  then show ?thesis
    using int_part_nat [OF t, of "nat (- i)"] int_part_nat [OF t, of "nat i"] tail_parts [OF t] s(1)
    by (simp add: number_lit_def int_lit_def)
qed

lemma int_lit_Cons: "\<exists>c s. int_lit i = c # s \<and> (c = CHR ''-'' \<or> is_digit c)"
  using nat_str_Cons by (simp add: int_lit_def) blast

lemma int_of_literal_lit: "- (2 ^ 63) \<le> i \<Longrightarrow> i < 2 ^ 63 \<Longrightarrow> int_of_literal (int_lit i) = Some i"
proof -
  assume i: "- (2 ^ 63) \<le> i" "i < 2 ^ 63"
  obtain c s where s: "nat_str (nat i) = c # s" "is_digit c" using nat_str_Cons by blast
  have "c \<noteq> CHR ''-''" using s(2) by (auto simp: is_digit_def in_range_def)
  then show ?thesis using i s nat_str_digits [of "nat i"] nat_str_digits [of "nat (- i)"]
      nat_str_nonempty [of "nat (- i)"] digits_val_nat_str [of "nat i"]
    by (auto simp: int_of_literal_def int_lit_def Let_def digits_val_nat_str)
qed

lemma string_body_soft:
  "list_all soft s \<Longrightarrow> string_body (Suc (length (s @ CHR 0x22 # t))) (s @ CHR 0x22 # t) = Some (s, t)"
  by (rule string_body_plain) (simp_all add: soft_plain)

lemma soft_readable: "list_all soft s \<Longrightarrow> readable s"
  unfolding readable_def using string_body_soft by (auto simp: escape_soft)

lemma print_nonempty: "json_all P j \<Longrightarrow> \<exists>c s. json_print j = c # s \<and> \<not> json_space c \<and> c \<noteq> CHR ''}'' \<and> c \<noteq> CHR '']''"
proof (cases j)
  case (JNum l)
  assume "json_all P j"
  then obtain i where "l = int_lit i" using JNum by auto
  moreover obtain c s where "int_lit i = c # s" "c = CHR ''-'' \<or> is_digit c" using int_lit_Cons by blast
  ultimately show ?thesis using JNum by (auto simp: json_space_def is_digit_def in_range_def)
qed (auto simp: json_space_def json_string_def)

lemma value_number:
  assumes "ends t"
  shows "json_value (Suc n) (int_lit i @ t) = Some (JNum (int_lit i), t)"
proof -
  obtain c s where s: "int_lit i = c # s" "c = CHR ''-'' \<or> is_digit c" using int_lit_Cons by blast
  have c: "\<not> json_space c" "c \<noteq> CHR 0x22" "c \<noteq> CHR ''{''" "c \<noteq> CHR ''[''" "c \<noteq> CHR ''t''" "c \<noteq> CHR ''f''" "c \<noteq> CHR ''n''"
    using s(2) by (auto simp: json_space_def is_digit_def in_range_def)
  show ?thesis using number_lit_int [OF assms, of i] c by (simp add: s(1))
qed

lemma value_string:
  "readable s \<Longrightarrow> json_value (Suc n) (json_string s @ t) = Some (JStr s, t)"
  by (simp add: json_string_def json_space_def readable_def)

lemma members_step:
  assumes "readable k" "json_value n (p @ r) = Some (v, r)"
  shows "json_members (Suc n) (json_string k @ CHR '':'' # p @ r) =
    (case skip_space r of [] \<Rightarrow> None
     | d # t \<Rightarrow> if d = CHR ''}'' then Some ([(k, v)], t)
               else if d = CHR '','' then map_option (\<lambda>(x, r). ((k, v) # x, r)) (json_members n t) else None)"
  using assms(1) [unfolded readable_def, THEN spec, of "CHR '':'' # p @ r"] assms(2)
  by (simp add: json_string_def json_space_def)

lemma print_members_Cons: "ms \<noteq> [] \<Longrightarrow> \<exists>t. print_members ms = CHR 0x22 # t"
proof -
  assume "ms \<noteq> []"
  then obtain k v ms' where "ms = (k, v) # ms'" by (cases ms) auto
  then show ?thesis using json_string_Cons [of k] by auto
qed

lemma print_elements_Cons:
  "xs \<noteq> [] \<Longrightarrow> elements_all P xs \<Longrightarrow> \<exists>c t. print_elements xs = c # t \<and> \<not> json_space c \<and> c \<noteq> CHR '']''"
proof -
  assume "xs \<noteq> []" "elements_all P xs"
  then obtain v vs where "xs = v # vs" "json_all P v" by (cases xs) auto
  then show ?thesis using print_nonempty [of P v] by auto
qed

lemma print_reads:
  "json_all readable j \<Longrightarrow> ends t \<Longrightarrow> length (json_print j) \<le> fuel \<Longrightarrow> json_value fuel (json_print j @ t) = Some (j, t)"
  "members_all readable ms \<Longrightarrow> ms \<noteq> [] \<Longrightarrow> length (print_members ms) \<le> fuel \<Longrightarrow>
     json_members fuel (print_members ms @ t) = Some (ms, t)"
  "elements_all readable xs \<Longrightarrow> xs \<noteq> [] \<Longrightarrow> length (print_elements xs) \<le> fuel \<Longrightarrow>
     json_elements fuel (print_elements xs @ t) = Some (xs, t)"
proof (induction readable j and readable ms and readable xs arbitrary: t fuel and t fuel and t fuel
    rule: json_all_members_all_elements_all.induct)
  case 1
  then obtain n where "fuel = Suc n" by (cases fuel) auto
  then show ?case by (simp add: json_space_def)
next
  case (2 b)
  then obtain n where "fuel = Suc n" by (cases fuel) (auto split: if_splits)
  then show ?case by (simp add: json_space_def)
next
  case (3 s)
  then obtain i where i: "s = int_lit i" by auto
  with 3 obtain n where "fuel = Suc n" using int_lit_Cons [of i] by (cases fuel) auto
  then show ?case using value_number [OF 3(2)] i by simp
next
  case (4 s)
  then obtain n where "fuel = Suc n" using json_string_Cons [of s] by (cases fuel) auto
  then show ?case using 4 value_string by simp
next
  case (5 xs)
  then obtain n where n: "fuel = Suc n" by (cases fuel) auto
  show ?case
  proof (cases "xs = []")
    case True
    then show ?thesis by (simp add: n json_space_def)
  next
    case False
    with 5 n have "json_elements n (print_elements xs @ t) = Some (xs, t)" by simp
    with print_elements_Cons [OF False, of readable] 5(2) show ?thesis by (auto simp: n json_space_def)
  qed
next
  case (6 ms)
  then obtain n where n: "fuel = Suc n" by (cases fuel) auto
  show ?case
  proof (cases "ms = []")
    case True
    then show ?thesis by (simp add: n json_space_def)
  next
    case False
    with 6 n have "json_members n (print_members ms @ t) = Some (ms, t)" by simp
    with print_members_Cons [OF False] show ?thesis by (auto simp: n json_space_def)
  qed
next
  case (8 k v ms)
  then obtain n where n: "fuel = Suc n" by (cases fuel) auto
  let ?r = "(if ms = [] then ''}'' else CHR '','' # print_members ms) @ t"
  have len: "length (json_print v) \<le> n" "ms \<noteq> [] \<Longrightarrow> length (print_members ms) \<le> n" using 8(5) n by auto
  have "json_value n (json_print v @ ?r) = Some (v, ?r)"
    by (rule 8(1)) (use 8(3) len in \<open>auto simp: ends_def\<close>)
  with members_step [of k n "json_print v" ?r v] 8(3)
  have "json_members (Suc n) (print_members ((k, v) # ms) @ t) =
    (case skip_space ?r of [] \<Rightarrow> None
     | d # t \<Rightarrow> if d = CHR ''}'' then Some ([(k, v)], t)
               else if d = CHR '','' then map_option (\<lambda>(x, r). ((k, v) # x, r)) (json_members n t) else None)"
    by simp
  then show ?case using 8(2) [of n t] 8(3) len by (cases "ms = []") (simp_all add: n json_space_def)
next
  case (10 v vs)
  then obtain n where n: "fuel = Suc n" using print_nonempty [of readable v] by (cases fuel) auto
  let ?r = "(if vs = [] then '']'' else CHR '','' # print_elements vs) @ t"
  have len: "length (json_print v) \<le> n" "vs \<noteq> [] \<Longrightarrow> length (print_elements vs) \<le> n" using 10(5) n by (cases "vs = []"; simp)+
  have "json_value n (json_print v @ ?r) = Some (v, ?r)"
    by (rule 10(1)) (use 10(3) len in \<open>auto simp: ends_def\<close>)
  then show ?case using 10(2) [of n t] 10(3) len by (cases "vs = []") (simp_all add: n json_space_def)
qed simp_all

lemma json_text_readable: "json_all readable j \<Longrightarrow> json_text (json_print j) = Some j"
  using print_reads(1) [of j "[]" "2 * length (json_print j) + 1"] by (simp add: json_text_def ends_def)

lemma json_text_print: "json_soft j \<Longrightarrow> json_text (json_print j) = Some j"
  by (rule json_text_readable) (auto simp: soft_all intro: json_all_mono soft_readable)

section \<open>Structs read back\<close>

text \<open>\<open>present\<close> is the member list that a field table writes, one optional value per field, and
  \<open>store\<close> what reading those members does to the record.\<close>

fun present :: "'r fields \<Rightarrow> json option list \<Rightarrow> (string \<times> json) list" where
  "present ((n, d) # fs) (v # vs) = (case v of None \<Rightarrow> [] | Some j \<Rightarrow> [(n, j)]) @ present fs vs"
| "present _ _ = []"

fun store :: "'r fields \<Rightarrow> json option list \<Rightarrow> 'r \<Rightarrow> 'r option" where
  "store ((n, d) # fs) (v # vs) r =
     (case v of None \<Rightarrow> store fs vs r
      | Some j \<Rightarrow> (case d j r of None \<Rightarrow> None | Some r \<Rightarrow> store fs vs r))"
| "store _ _ r = Some r"

lemma decode_present:
  "distinct (map fst fs) \<Longrightarrow> set part \<subseteq> set fs \<Longrightarrow> decode_object fs (present part vs) r = store part vs r"
proof (induction part vs arbitrary: r rule: present.induct)
  case (1 n d part v vs)
  then have "map_of fs n = Some d" by (simp add: map_of_eq_Some_iff)
  then have "find_field fs n = Some d" by (simp add: find_field_def)
  with 1 show ?case by (cases v) (auto split: option.split)
qed simp_all

lemma decode_table:
  "distinct (map fst fs) \<Longrightarrow> decode_struct fs (JObj (present fs vs)) r = store fs vs r"
  by (simp add: decode_struct_def decode_present)

lemma d_int_lit [simp]: "- (2 ^ 63) \<le> i \<Longrightarrow> i < 2 ^ 63 \<Longrightarrow> d_int (JInt i) x = Some i"
  by (simp add: d_int_def int_of_literal_lit)

lemma d_scalar [simp]: "d_string (JStr s) x = Some s" "d_bool (JBool b) y = Some b"
  by (simp_all add: d_string_def d_bool_def)

lemma d_all_map: "(\<And>x. x \<in> set xs \<Longrightarrow> d (e x) = Some x) \<Longrightarrow> d_all d (map e xs) = Some xs"
  by (induction xs) auto

lemma slice_wire:
  "(\<And>x. xs = Some ys \<Longrightarrow> x \<in> set ys \<Longrightarrow> d (e x) z = Some x) \<Longrightarrow> (xs \<noteq> None \<Longrightarrow> xs = Some ys) \<Longrightarrow>
     d_slice d z (e_slice e xs) y = Some xs"
  by (cases xs) (simp_all add: d_slice_def e_slice_def d_all_map)

lemma map_wire:
  "(\<And>v. d (e v) z = Some v) \<Longrightarrow> (\<And>ms. m = Some ms \<Longrightarrow> map_ok ms) \<Longrightarrow> d_map d z (e_map e m) None = Some m"
  using d_entries_map [of _ d e z "[]"] by (cases m) (simp_all add: d_map_def e_map_def)

end
