(* ===== verification/GoStrconv.thy ===== *)
theory GoStrconv
  imports GoJsonCodec
begin

text \<open>
  \<^verbatim>\<open>strconv\<close> in base ten and 64 bits, the standard base64 alphabet of \<^verbatim>\<open>encoding/base64\<close>, and the
  loop that most validators of the program share: a list whose elements are all well formed and
  pairwise different.
\<close>

section \<open>Numbers\<close>

definition ParseUint :: "string \<Rightarrow> nat option" where
  "ParseUint s = (if s = [] \<or> \<not> list_all is_digit s \<or> digits_val s \<ge> 2 ^ 64 then None else Some (digits_val s))"

text \<open>An optional sign, then digits; \<open>Atoi\<close> is the same on the 64-bit platforms of the program.\<close>

definition ParseInt :: "string \<Rightarrow> int option" where
  "ParseInt s =
     (let signed = (case s of c # _ \<Rightarrow> c = CHR ''+'' \<or> c = CHR ''-'' | [] \<Rightarrow> False);
          neg = (case s of c # _ \<Rightarrow> c = CHR ''-'' | [] \<Rightarrow> False);
          t = (if signed then tl s else s) in
      if t = [] \<or> \<not> list_all is_digit t then None
      else let n = int (digits_val t) in
        if neg then (if n > 2 ^ 63 then None else Some (- n))
        else (if n \<ge> 2 ^ 63 then None else Some n))"

lemma ParseInt_digits:
  "list_all is_digit s \<Longrightarrow> s \<noteq> [] \<Longrightarrow>
     ParseInt s = (if digits_val s < 2 ^ 63 then Some (int (digits_val s)) else None)"
proof -
  assume s: "list_all is_digit s" "s \<noteq> []"
  then obtain c t where c: "s = c # t" "is_digit c" by (cases s) auto
  then have "c \<noteq> CHR ''+''" "c \<noteq> CHR ''-''" by (auto simp: is_digit_def in_range_def)
  then show ?thesis using s c by (simp add: ParseInt_def not_less)
qed

lemma ParseUint_nat_str: "n < 2 ^ 64 \<Longrightarrow> ParseUint (nat_str n) = Some n"
  by (simp add: ParseUint_def nat_str_nonempty nat_str_digits digits_val_nat_str)

section \<open>Lists without repetition\<close>

text \<open>The loop \<open>for _, x := range xs { if !ok(x) || seen[x] \<dots>; seen[x] = true }\<close>.\<close>

fun valid_distinct :: "('a \<Rightarrow> bool) \<Rightarrow> 'a list \<Rightarrow> 'a list \<Rightarrow> bool" where
  "valid_distinct good seen [] = True"
| "valid_distinct good seen (x # xs) =
     (if \<not> good x \<or> x \<in> set seen then False else valid_distinct good (x # seen) xs)"

lemma valid_distinct_iff:
  "valid_distinct good seen xs \<longleftrightarrow> list_all good xs \<and> distinct xs \<and> set xs \<inter> set seen = {}"
  by (induction xs arbitrary: seen) auto

lemma valid_distinct_Nil [simp]: "valid_distinct good [] xs \<longleftrightarrow> list_all good xs \<and> distinct xs"
  by (simp add: valid_distinct_iff)

section \<open>Base64\<close>

definition b64_char :: "nat \<Rightarrow> char" where
  "b64_char n =
     (if n < 26 then char_of (65 + n) else if n < 52 then char_of (71 + n)
      else if n < 62 then char_of (n - 4) else if n = 62 then CHR ''+'' else CHR ''/'')"

definition b64_val :: "char \<Rightarrow> nat option" where
  "b64_val c =
     (if in_range (CHR ''A'') (CHR ''Z'') c then Some (byte c - 65)
      else if in_range (CHR ''a'') (CHR ''z'') c then Some (byte c - 71)
      else if is_digit c then Some (byte c + 4)
      else if c = CHR ''+'' then Some 62 else if c = CHR ''/'' then Some 63 else None)"

text \<open>\<open>padded\<close> chooses between \<open>StdEncoding\<close> and \<open>RawStdEncoding\<close>.\<close>

fun b64_encode :: "bool \<Rightarrow> nat list \<Rightarrow> string" where
  "b64_encode padded [] = []"
| "b64_encode padded [a] =
     [b64_char (a div 4), b64_char (a mod 4 * 16)] @ (if padded then ''=='' else [])"
| "b64_encode padded [a, b] =
     [b64_char (a div 4), b64_char (a mod 4 * 16 + b div 16), b64_char (b mod 16 * 4)]
     @ (if padded then ''='' else [])"
| "b64_encode padded (a # b # c # s) =
     b64_char (a div 4) # b64_char (a mod 4 * 16 + b div 16) # b64_char (b mod 16 * 4 + c div 64)
     # b64_char (c mod 64) # b64_encode padded s"

text \<open>\<open>StdEncoding.Strict()\<close>: groups of four, padding only in the last one, and no stray bits before
  it.  Line breaks are skipped before the groups are formed.\<close>

definition b64_last :: "char \<Rightarrow> char \<Rightarrow> char \<Rightarrow> char \<Rightarrow> nat list option" where
  "b64_last p q r t =
     (if t \<noteq> CHR ''='' then None
      else if r = CHR ''='' then
        (case (b64_val p, b64_val q) of
           (Some x, Some y) \<Rightarrow> if y mod 16 = 0 then Some [x * 4 + y div 16] else None
         | _ \<Rightarrow> None)
      else (case (b64_val p, b64_val q, b64_val r) of
              (Some x, Some y, Some z) \<Rightarrow>
                if z mod 4 = 0 then Some [x * 4 + y div 16, y mod 16 * 16 + z div 4] else None
            | _ \<Rightarrow> None))"

fun b64_groups :: "string \<Rightarrow> nat list option" where
  "b64_groups [] = Some []"
| "b64_groups (p # q # r # t # s) =
     (case (b64_val p, b64_val q, b64_val r, b64_val t) of
        (Some x, Some y, Some z, Some w) \<Rightarrow>
          map_option (\<lambda>bs. (x * 4 + y div 16) # (y mod 16 * 16 + z div 4) # (z mod 4 * 64 + w) # bs)
            (b64_groups s)
      | _ \<Rightarrow> if s = [] then b64_last p q r t else None)"
| "b64_groups _ = None"

definition b64_decode :: "string \<Rightarrow> nat list option" where
  "b64_decode s = b64_groups (filter (\<lambda>c. c \<noteq> CHR 0x0A \<and> c \<noteq> CHR 0x0D) s)"

lemma b64_val_char [simp]: "n < 64 \<Longrightarrow> b64_val (b64_char n) = Some n"
  by (auto simp: b64_val_def b64_char_def in_range_def is_digit_def)

lemma b64_char_neq [simp]:
  "n < 64 \<Longrightarrow> b64_char n \<noteq> CHR ''=''" "n < 64 \<Longrightarrow> b64_char n \<noteq> CHR '' ''"
  "n < 64 \<Longrightarrow> b64_char n \<noteq> CHR 0x0A" "n < 64 \<Longrightarrow> b64_char n \<noteq> CHR 0x0D"
  using b64_val_char [of n] by (auto simp: b64_val_def in_range_def is_digit_def simp del: b64_val_char)

lemma b64_val_pad [simp]: "b64_val (CHR ''='') = None"
  by (simp add: b64_val_def in_range_def is_digit_def)

lemma b64_groups_encode: "list_all (\<lambda>b. b < 256) bs \<Longrightarrow> b64_groups (b64_encode True bs) = Some bs"
proof (induction True bs rule: b64_encode.induct)
  case (2 a)
  then show ?case by (simp add: b64_last_def less_mult_imp_div_less)
next
  case (3 a b)
  have "a mod 4 * 16 + b div 16 < 64" using 3 by auto
  moreover have "b mod 16 * 4 < 64" by auto
  ultimately show ?case using 3 by (auto simp: b64_last_def less_mult_imp_div_less)
next
  case (4 a b c s)
  have "a mod 4 * 16 + b div 16 < 64" "b mod 16 * 4 + c div 64 < 64" using 4(2) by auto
  then show ?case using 4 by auto
qed simp

lemma b64_encode_chars:
  "list_all (\<lambda>b. b < 256) bs \<Longrightarrow> c \<in> set (b64_encode p bs) \<Longrightarrow>
     c \<noteq> CHR 0x0A \<and> c \<noteq> CHR 0x0D \<and> c \<noteq> CHR '' ''"
proof (induction p bs rule: b64_encode.induct)
  case (2 p a)
  then show ?case by (auto simp: less_mult_imp_div_less split: if_splits)
next
  case (3 p a b)
  have "a mod 4 * 16 + b div 16 < 64" "b mod 16 * 4 < 64" using 3 by auto
  then show ?case using 3 by (auto simp: less_mult_imp_div_less split: if_splits)
next
  case (4 p a b c s)
  have "a mod 4 * 16 + b div 16 < 64" "b mod 16 * 4 + c div 64 < 64" using 4(2) by auto
  then show ?case using 4 by (auto simp: less_mult_imp_div_less)
qed simp

lemma b64_decode_encode: "list_all (\<lambda>b. b < 256) bs \<Longrightarrow> b64_decode (b64_encode True bs) = Some bs"
proof -
  assume b: "list_all (\<lambda>b. b < 256) bs"
  have "filter (\<lambda>c. c \<noteq> CHR 0x0A \<and> c \<noteq> CHR 0x0D) (b64_encode True bs) = b64_encode True bs"
    using b64_encode_chars [OF b] by (simp add: filter_id_conv)
  with b64_groups_encode [OF b] show ?thesis by (simp add: b64_decode_def)
qed

end
