(* ===== verification/GoHash.thy ===== *)
theory GoHash
  imports Prelude "HOL-Library.Word"
begin

text \<open>
  \<^verbatim>\<open>crypto/sha256\<close> and \<^verbatim>\<open>encoding/hex\<close>, the parts of the standard library that give the launch
  records their identities: SHA-256 on byte strings (FIPS 180-4) over 32-bit words, and lower-case
  hexadecimal text.  The lemmas say what the program relies on: the length and the alphabet of a
  digest.  Nothing in the development assumes that different inputs have different digests.
\<close>

unbundle bit_operations_syntax

section \<open>Hexadecimal text\<close>

definition hex_digit :: "nat \<Rightarrow> char" where
  "hex_digit n = (if n < 10 then char_of (48 + n) else char_of (87 + n))"

definition hex_byte :: "nat \<Rightarrow> string" where
  "hex_byte b = [hex_digit (b div 16 mod 16), hex_digit (b mod 16)]"

definition EncodeToString :: "nat list \<Rightarrow> string" where
  "EncodeToString bs = concat (map hex_byte bs)"

definition lower_hex :: "char \<Rightarrow> bool" where
  [go_defs]: "lower_hex c \<longleftrightarrow> is_digit c \<or> in_range (CHR ''a'') (CHR ''f'') c"

lemma hex_digit_lower: "n < 16 \<Longrightarrow> lower_hex (hex_digit n)"
  by (auto simp: lower_hex_def is_digit_def in_range_def hex_digit_def)

lemma EncodeToString_lower [simp]: "list_all lower_hex (EncodeToString bs)"
  by (induction bs) (simp_all add: EncodeToString_def hex_byte_def hex_digit_lower)

lemma length_EncodeToString [simp]: "length (EncodeToString bs) = 2 * length bs"
  by (induction bs) (simp_all add: EncodeToString_def hex_byte_def)

section \<open>SHA-256\<close>

type_synonym w32 = "32 word"

definition sha_constants :: "w32 list" where
  "sha_constants =
    [1116352408, 1899447441, 3049323471, 3921009573, 961987163, 1508970993, 2453635748, 2870763221,
     3624381080, 310598401, 607225278, 1426881987, 1925078388, 2162078206, 2614888103, 3248222580,
     3835390401, 4022224774, 264347078, 604807628, 770255983, 1249150122, 1555081692, 1996064986,
     2554220882, 2821834349, 2952996808, 3210313671, 3336571891, 3584528711, 113926993, 338241895,
     666307205, 773529912, 1294757372, 1396182291, 1695183700, 1986661051, 2177026350, 2456956037,
     2730485921, 2820302411, 3259730800, 3345764771, 3516065817, 3600352804, 4094571909, 275423344,
     430227734, 506948616, 659060556, 883997877, 958139571, 1322822218, 1537002063, 1747873779,
     1955562222, 2024104815, 2227730452, 2361852424, 2428436474, 2756734187, 3204031479, 3329325298]"

definition sha_initial :: "w32 list" where
  "sha_initial =
    [1779033703, 3144134277, 1013904242, 2773480762, 1359893119, 2600822924, 528734635, 1541459225]"

definition be_word :: "nat list \<Rightarrow> w32" where
  "be_word bs = foldl (\<lambda>a b. push_bit 8 a OR of_nat b) 0 bs"

definition be_bytes :: "w32 \<Rightarrow> nat list" where
  "be_bytes w = map (\<lambda>k. unat (drop_bit k w AND 255)) [24, 16, 8, 0]"

fun chunks :: "nat \<Rightarrow> nat list \<Rightarrow> nat list list" where
  "chunks k [] = []"
| "chunks 0 (b # bs) = []"
| "chunks (Suc k) (b # bs) = (b # take k bs) # chunks (Suc k) (drop k bs)"

text \<open>The message, a one bit, zeros to 56 bytes modulo 64, and the bit length on eight bytes.\<close>

definition sha_pad :: "nat list \<Rightarrow> nat list" where
  "sha_pad bs =
     bs @ 128 # replicate ((119 - length bs mod 64) mod 64) 0
        @ map (\<lambda>k. (8 * length bs) div 256 ^ k mod 256) [7, 6, 5, 4, 3, 2, 1, 0]"

definition sha_next_word :: "w32 list \<Rightarrow> w32" where
  "sha_next_word w =
     (let n = length w; x = w ! (n - 15); y = w ! (n - 2);
          s0 = word_rotr 7 x XOR word_rotr 18 x XOR drop_bit 3 x;
          s1 = word_rotr 17 y XOR word_rotr 19 y XOR drop_bit 10 y
      in w ! (n - 16) + s0 + w ! (n - 7) + s1)"

primrec sha_schedule :: "nat \<Rightarrow> w32 list \<Rightarrow> w32 list" where
  "sha_schedule 0 w = w"
| "sha_schedule (Suc k) w = sha_schedule k (w @ [sha_next_word w])"

definition sha_round :: "w32 \<times> w32 \<Rightarrow> w32 list \<Rightarrow> w32 list" where
  "sha_round kw v =
     (let a = v ! 0; b = v ! 1; c = v ! 2; d = v ! 3; e = v ! 4; f = v ! 5; g = v ! 6; h = v ! 7;
          s1 = word_rotr 6 e XOR word_rotr 11 e XOR word_rotr 25 e;
          ch = (e AND f) XOR (NOT e AND g);
          t1 = h + s1 + ch + fst kw + snd kw;
          s0 = word_rotr 2 a XOR word_rotr 13 a XOR word_rotr 22 a;
          maj = (a AND b) XOR (a AND c) XOR (b AND c)
      in [t1 + (s0 + maj), a, b, c, d + t1, e, f, g])"

definition sha_block :: "nat list \<Rightarrow> w32 list \<Rightarrow> w32 list" where
  "sha_block blk v =
     map2 (+) v (fold sha_round (zip sha_constants (sha_schedule 48 (map be_word (chunks 4 blk)))) v)"

definition Sum256 :: "string \<Rightarrow> nat list" where
  "Sum256 s = concat (map be_bytes (fold sha_block (chunks 64 (sha_pad (map byte s))) sha_initial))"

definition sha256_hex :: "string \<Rightarrow> string" where
  "sha256_hex s = EncodeToString (Sum256 s)"

section \<open>What a digest looks like\<close>

lemma length_sha_round [simp]: "length (sha_round kw v) = 8"
  by (simp add: sha_round_def Let_def)

lemma length_fold_round: "length v = 8 \<Longrightarrow> length (fold sha_round ks v) = 8"
  by (induction ks arbitrary: v) simp_all

lemma length_fold_block: "length v = 8 \<Longrightarrow> length (fold sha_block bs v) = 8"
  by (induction bs arbitrary: v) (simp_all add: sha_block_def length_fold_round)

lemma length_Sum256 [simp]: "length (Sum256 s) = 32"
proof -
  have "length (concat (map be_bytes ws)) = 4 * length ws" for ws
    by (induction ws) (simp_all add: be_bytes_def)
  then show ?thesis by (simp add: Sum256_def length_fold_block sha_initial_def)
qed

lemma length_sha256_hex [simp]: "length (sha256_hex s) = 64"
  by (simp add: sha256_hex_def)

lemma sha256_hex_lower [simp]: "list_all lower_hex (sha256_hex s)"
  by (simp add: sha256_hex_def)

end
