(* ===== verification/SshKey.thy ===== *)
theory SshKey
  imports GoStrconv GoHash
begin

text \<open>
  \<^verbatim>\<open>internal/sshkey/key.go\<close>: the one form of public key the deployment accepts, an Ed25519 key
  without a comment, and its fingerprint.  \<open>Parse_encoded\<close> is the round trip with the text form.
\<close>

definition key_type :: string where "key_type = ''ssh-ed25519''"

fun Split :: "char \<Rightarrow> string \<Rightarrow> string list" where
  "Split sep [] = [[]]"
| "Split sep (c # s) =
     (if c = sep then [] # Split sep s
      else (case Split sep s of [] \<Rightarrow> [[c]] | p # ps \<Rightarrow> (c # p) # ps))"

definition be_uint32 :: "nat list \<Rightarrow> nat" where
  "be_uint32 bs = foldl (\<lambda>a b. a * 256 + b) 0 bs"

definition key_blob_ok :: "nat list \<Rightarrow> bool" where
  "key_blob_ok b \<longleftrightarrow> length b = 51 \<and> be_uint32 (take 4 b) = 11 \<and> take 11 (drop 4 b) = map byte key_type
     \<and> be_uint32 (take 4 (drop 15 b)) = 32"

definition Parse :: "string \<Rightarrow> nat list option" where
  "Parse s =
     (let parts = Split (CHR '' '') s in
      if length parts \<noteq> 2 \<or> parts ! 0 \<noteq> key_type then None
      else (case b64_decode (parts ! 1) of
              None \<Rightarrow> None
            | Some b \<Rightarrow> if key_blob_ok b then Some b else None))"

definition Fingerprint :: "string \<Rightarrow> string" where
  "Fingerprint s =
     (case Parse s of None \<Rightarrow> []
      | Some b \<Rightarrow> ''SHA256:'' @ b64_encode False (Sum256 (map char_of b)))"

lemma Split_join: "sep \<notin> set p \<Longrightarrow> Split sep (p @ sep # s) = p # Split sep s"
  by (induction p) auto

lemma Split_none: "sep \<notin> set p \<Longrightarrow> Split sep p = [p]"
  by (induction p) auto

lemma Parse_encoded:
  assumes "list_all (\<lambda>b. b < 256) b"
  shows "Parse (key_type @ CHR '' '' # b64_encode True b) = (if key_blob_ok b then Some b else None)"
proof -
  have "CHR '' '' \<notin> set (b64_encode True b)" using b64_encode_chars [OF assms] by blast
  then have "Split (CHR '' '') (key_type @ CHR '' '' # b64_encode True b) = [key_type, b64_encode True b]"
    by (subst Split_join) (simp_all add: key_type_def Split_none)
  then show ?thesis by (simp add: Parse_def b64_decode_encode [OF assms])
qed

text \<open>The lines of a key file hold a key only if they name its type.\<close>

lemma Parse_Some: "Parse s = Some b \<Longrightarrow> key_blob_ok b \<and> length b = 51"
  by (auto simp: Parse_def Let_def key_blob_ok_def split: if_splits option.splits)

end
