(* ===== verification/ConfigModel.thy ===== *)
theory ConfigModel
  imports SshKey ExpiryCleanup
begin

text \<open>
  \<^verbatim>\<open>internal/config\<close>: the configuration, profile and foundation manifest, and their validators
  (\<^verbatim>\<open>config.go\<close>, \<^verbatim>\<open>batch.go\<close>, \<^verbatim>\<open>command.go\<close>).  A map with string keys is an association list with
  distinct keys; a slice whose nil value the code tests is an \<open>option\<close>.  Each distinct error message of
  the code is a constructor of \<open>config_error\<close>.
\<close>

section \<open>Data\<close>

record config =
  cf_SchemaVersion :: int
  cf_ExpectedAccount :: string
  cf_Region :: string
  cf_Deployment :: string
  cf_Owner :: string
  cf_AWSProfile :: string
  cf_Manifest :: string
  cf_ProfileFile :: string
  cf_SSHIdentityFile :: string
  cf_MaxCount :: int
  cf_DefaultTTL :: "string option"

record profile =
  pf_SchemaVersion :: int
  pf_Name :: string
  pf_Market :: string
  pf_InstanceTypes :: "string list"
  pf_Image :: string
  pf_DiskGB :: int
  pf_Architecture :: string
  pf_DiskType :: string
  pf_Encrypted :: bool
  pf_DeleteOnTermination :: bool
  pf_SubnetIDs :: "string list"
  pf_AvailabilityZones :: "string list"

record subnet =
  sn_ID :: string
  sn_AvailabilityZone :: string

record compatible_pool =
  cp_InstanceType :: string
  cp_Architecture :: string
  cp_SubnetIDs :: "string list"

record root_disk =
  rd_SizeGB :: int
  rd_Type :: string
  rd_Encrypted :: bool
  rd_DeleteOnTermination :: bool

record launch_choice =
  ch_InstanceType :: string
  ch_SubnetID :: string
  ch_AvailabilityZone :: string

record launch_ledger =
  ll_SchemaVersion :: int
  ll_Bucket :: string
  ll_ExpectedBucketOwner :: string
  ll_Region :: string
  ll_Prefix :: string
  ll_PolicySHA256 :: string

record document =
  do_Name :: string
  do_Version :: string
  do_ContentSHA256 :: string

record execution =
  ex_Name :: string
  ex_Version :: string
  ex_ContentSHA256 :: string
  ex_Step :: string
  ex_RunnerSHA256 :: string
  ex_MinimumAgentVersion :: string

record results =
  rs_SchemaVersion :: int
  rs_Bucket :: string
  rs_ExpectedBucketOwner :: string
  rs_Region :: string
  rs_Prefix :: string
  rs_RetentionDays :: int
  rs_PolicySHA256 :: string

record role =
  ro_ARN :: string
  ro_TrustSHA256 :: string
  ro_PolicyName :: string
  ro_PolicySHA256 :: string

record image =
  im_UbuntuRelease :: string
  im_OwnerAccount :: string
  im_Name :: string
  im_RootDeviceName :: string
  im_AMIID :: string
  im_Architecture :: string
  im_LaunchTemplateID :: string
  im_LaunchTemplateVersion :: string
  im_RootDisk :: "root_disk option"
  im_MinimumRootDiskGB :: int

record manifest =
  mf_SchemaVersion :: int
  mf_Account :: string
  mf_Region :: string
  mf_Deployment :: string
  mf_Owner :: string
  mf_VPCID :: string
  mf_SubnetIDs :: "string list"
  mf_Subnets :: "subnet list option"
  mf_CompatiblePools :: "compatible_pool list option"
  mf_SecurityGroupID :: string
  mf_InstanceProfileARN :: string
  mf_RouteTableID :: string
  mf_InternetGatewayID :: string
  mf_DevelopmentUser :: string
  mf_BootstrapSHA256 :: string
  mf_SSHPublicKey :: string
  mf_Readiness :: document
  mf_Execution :: execution
  mf_Results :: results
  mf_LaunchLedger :: "launch_ledger option"
  mf_Roles :: "(string \<times> role) list"
  mf_Images :: "(string \<times> image) list"
  mf_Cleanup :: string

datatype config_error =
    MaxCountRange
  | ProfileVersion | ProfileV1Placement | ProfileName | ProfileMarket | ProfileTypesEmpty
  | ProfileTypes | ProfileArchitecture | RootDiskShape | ProfileSubnets | ProfileZones
  | ManifestVersion | CleanupVersion | ManifestV4Options | ManifestV4Disk | ManifestScope
  | ManifestRegion | ManifestLabels | PlacementNeedsV5 | ManifestKey | ManifestShape
  | ManifestNetwork | ManifestReadiness | ExecutionShape | ExecutionSeparate
  | ResultsScope | ResultsShape | RolesCount | RoleShape | RolesSame | ManifestIds
  | ManifestSubnetIds | ManifestProfileARN | ImageMissing | ImageProvenance | ImagePins
  | LedgerScope | SubnetMapping | SubnetIdsShape | SubnetZones | SubnetDuplicate | ZoneDuplicate
  | PoolsMissing | PoolShape | PoolSubnets | ImageDisk | DiskBelowMinimum
  | BatchManifestVersion | ProfileConflict | SubnetOutside | ZoneOutside | TypeIncompatible
  | TypeWithoutOffering

section \<open>Grammars\<close>

text \<open>\<open>accountRE\<close>, \<open>regionRE\<close> and \<open>labelRE\<close> are spelled as in the expiry package.\<close>

definition type_cls :: rexp where
  "type_cls = Cls [(CHR ''a'', CHR ''z''), (CHR ''0'', CHR ''9''), (CHR ''-'', CHR ''-'')]"

definition typeRE :: rexp where
  "typeRE = Cat [Plus type_cls, Chr (CHR ''.''), Plus type_cls]"

definition versionRE :: rexp where
  "versionRE = Seq (Cls [(CHR ''1'', CHR ''9'')]) (Star digit_cls)"

definition digestRE :: rexp where
  "digestRE = Exactly hex_cls 64"

definition ubuntuNameRE :: rexp where
  "ubuntuNameRE = Cat [Lit ''ubuntu/images/hvm-ssd-gp3/ubuntu-noble-24'', any_rune, Lit ''04-amd64-server-'',
     Plus (Cls [(CHR ''0'', CHR ''9''), (CHR ''.'', CHR ''.'')])]"

definition availabilityZoneRE :: rexp where
  "availabilityZoneRE = Seq (Lit ''us-east-2'') lower_cls"

definition document_nameRE :: rexp where
  "document_nameRE = Seq alnum_cls (Rep label_cls 0 127)"

definition arn_cls :: rexp where
  "arn_cls = Cls [(CHR ''A'', CHR ''Z''), (CHR ''a'', CHR ''z''), (CHR ''0'', CHR ''9''), (CHR ''+'', CHR ''+''),
                  (CHR ''='', CHR ''=''), (CHR '','', CHR '',''), (CHR ''.'', CHR ''.''), (CHR ''@'', CHR ''@''),
                  (CHR ''_'', CHR ''_''), (CHR ''/'', CHR ''/''), (CHR ''-'', CHR ''-'')]"

definition roleRE :: "string \<Rightarrow> rexp" where
  "roleRE account = Seq (Lit (''arn:aws:iam::'' @ account @ '':role/'')) (Plus arn_cls)"

definition instance_profileRE :: "string \<Rightarrow> rexp" where
  "instance_profileRE account = Seq (Lit (''arn:aws:iam::'' @ account @ '':instance-profile/'')) (Plus arn_cls)"

definition bucketRE :: rexp where
  "bucketRE = Cat [Cls [(CHR ''a'', CHR ''z''), (CHR ''0'', CHR ''9'')], Rep type_cls 1 61,
                   Cls [(CHR ''a'', CHR ''z''), (CHR ''0'', CHR ''9'')]]"

definition resourceID :: "string \<Rightarrow> string \<Rightarrow> bool" where
  "resourceID val prefix = re_match (resource_idRE (prefix @ ''-'')) val"

definition numericVersion :: "string \<Rightarrow> bool" where
  "numericVersion s \<longleftrightarrow> (case ParseInt s of Some n \<Rightarrow> n > 0 | None \<Rightarrow> False) \<and> re_match versionRE s"

lemmas grammar_eval = re_eval any_rune_def accountRE_def regionRE_def labelRE_def lower_cls_def alnum_cls_def label_cls_def
  resource_idRE_def instanceRE_def type_cls_def typeRE_def versionRE_def ubuntuNameRE_def availabilityZoneRE_def
  document_nameRE_def arn_cls_def roleRE_def instance_profileRE_def bucketRE_def resourceID_def numericVersion_def

lemma digestRE_iff: "re_match digestRE s \<longleftrightarrow> length s = 64 \<and> list_all lower_hex s"
proof -
  have "in_class [(CHR ''0'', CHR ''9''), (CHR ''a'', CHR ''f'')] = lower_hex"
    by (rule ext) (simp add: in_class_def lower_hex_def is_digit_def)
  then show ?thesis by (auto simp: digestRE_def Exactly_def hex_cls_def Rep_class_match)
qed

section \<open>Prefixes and small validators\<close>

definition elems :: "'a list option \<Rightarrow> 'a list" where
  [go_defs]: "elems x = (case x of None \<Rightarrow> [] | Some xs \<Rightarrow> xs)"

lemma elems_simps [simp]: "elems None = []" "elems (Some xs) = xs"
  by (simp_all add: elems_def)

definition scope_path :: "config \<Rightarrow> string" where
  "scope_path c = cf_ExpectedAccount c @ ''/'' @ cf_Region c @ ''/'' @ cf_Deployment c @ ''/'' @ cf_Owner c @ ''/''"

definition LaunchLedgerPrefix :: "config \<Rightarrow> string" where
  "LaunchLedgerPrefix c = ''launches/v2/'' @ scope_path c"

definition ResultsPrefix :: "config \<Rightarrow> string" where
  "ResultsPrefix c = ''results/v1/'' @ scope_path c"

definition DefaultMaxCount :: int where [go_defs]: "DefaultMaxCount = 10"
definition HardMaxCount :: int where [go_defs]: "HardMaxCount = 100"

definition ValidateMaxCount :: "int \<Rightarrow> config_error + unit" where
  "ValidateMaxCount maximum = (if maximum < 1 \<or> maximum > HardMaxCount then Inl MaxCountRange else Inr ())"

definition validateRootDisk :: "root_disk \<Rightarrow> config_error + unit" where
  "validateRootDisk d =
     (if rd_SizeGB d < 8 \<or> rd_SizeGB d > 16384 \<or> rd_Type d \<noteq> ''gp3'' \<or> \<not> rd_Encrypted d
         \<or> \<not> rd_DeleteOnTermination d
      then Inl RootDiskShape else Inr ())"

definition ValidateExecution :: "execution \<Rightarrow> config_error + unit" where
  "ValidateExecution e =
     (if \<not> re_match document_nameRE (ex_Name e) \<or> \<not> numericVersion (ex_Version e)
         \<or> \<not> re_match digestRE (ex_ContentSHA256 e) \<or> ex_Step e \<noteq> ''execute''
         \<or> \<not> re_match digestRE (ex_RunnerSHA256 e) \<or> ex_MinimumAgentVersion e \<noteq> ''3.3.2746.0''
      then Inl ExecutionShape else Inr ())"

definition ValidateResults :: "results \<Rightarrow> config \<Rightarrow> config_error + unit" where
  "ValidateResults r c =
     (if rs_SchemaVersion r \<noteq> 1 \<or> rs_ExpectedBucketOwner r \<noteq> cf_ExpectedAccount c \<or> rs_Region r \<noteq> cf_Region c
         \<or> rs_Region r \<noteq> ''us-east-2'' \<or> rs_Prefix r \<noteq> ResultsPrefix c
      then Inl ResultsScope
      else if \<not> re_match bucketRE (rs_Bucket r) \<or> rs_RetentionDays r < 2 \<or> rs_RetentionDays r > 365
         \<or> \<not> re_match digestRE (rs_PolicySHA256 r)
      then Inl ResultsShape else Inr ())"

section \<open>Profiles\<close>

definition profile_defaults :: "profile \<Rightarrow> profile" where
  "profile_defaults p =
     p\<lparr>pf_Architecture := (if pf_Architecture p = [] then ''x86_64'' else pf_Architecture p),
       pf_DiskType := (if pf_DiskType p = [] then ''gp3'' else pf_DiskType p),
       pf_Encrypted := True, pf_DeleteOnTermination := True\<rparr>"

definition profile_disk :: "profile \<Rightarrow> root_disk" where
  "profile_disk p = \<lparr>rd_SizeGB = pf_DiskGB p, rd_Type = pf_DiskType p, rd_Encrypted = pf_Encrypted p,
     rd_DeleteOnTermination = pf_DeleteOnTermination p\<rparr>"

text \<open>The checks of a profile whose defaults are in place.\<close>

definition check_profile :: "profile \<Rightarrow> config_error + unit" where
  "check_profile p =
     (if pf_Name p \<noteq> ''agent'' \<or> pf_Image p \<noteq> ''agent'' then Inl ProfileName
      else if pf_Market p \<noteq> ''spot'' \<and> pf_Market p \<noteq> ''on-demand'' then Inl ProfileMarket
      else if pf_InstanceTypes p = [] then Inl ProfileTypesEmpty
      else if \<not> valid_distinct (re_match typeRE) [] (pf_InstanceTypes p) then Inl ProfileTypes
      else if pf_Architecture p \<noteq> ''x86_64'' then Inl ProfileArchitecture
      else (case validateRootDisk (profile_disk p) of
              Inl e \<Rightarrow> Inl e
            | Inr _ \<Rightarrow>
                if \<not> valid_distinct (\<lambda>x. resourceID x ''subnet'') [] (pf_SubnetIDs p) then Inl ProfileSubnets
                else if \<not> valid_distinct (re_match availabilityZoneRE) [] (pf_AvailabilityZones p)
                then Inl ProfileZones else Inr ()))"

definition NormalizeProfile :: "profile \<Rightarrow> config_error + profile" where
  "NormalizeProfile p =
     (if pf_SchemaVersion p \<noteq> 1 \<and> pf_SchemaVersion p \<noteq> 2 then Inl ProfileVersion
      else if pf_SchemaVersion p = 1 \<and> (pf_SubnetIDs p \<noteq> [] \<or> pf_AvailabilityZones p \<noteq> [])
      then Inl ProfileV1Placement
      else let q = (if pf_SchemaVersion p = 1 then profile_defaults p else p) in
        (case check_profile q of Inl e \<Rightarrow> Inl e | Inr _ \<Rightarrow> Inr q))"

definition ValidateProfile :: "profile \<Rightarrow> config_error + unit" where
  "ValidateProfile p = (case NormalizeProfile p of Inl e \<Rightarrow> Inl e | Inr _ \<Rightarrow> Inr ())"

section \<open>The manifest\<close>

definition validateManifestScope :: "manifest \<Rightarrow> config \<Rightarrow> config_error + unit" where
  "validateManifestScope m c =
     (if mf_SchemaVersion m \<noteq> 4 \<and> mf_SchemaVersion m \<noteq> 5 \<and> mf_SchemaVersion m \<noteq> 6 then Inl ManifestVersion
      else if mf_SchemaVersion m \<noteq> 6 \<and> mf_Cleanup m \<noteq> [] then Inl CleanupVersion
      else if mf_SchemaVersion m = 4 \<and> (mf_LaunchLedger m \<noteq> None \<or> mf_Subnets m \<noteq> None \<or> mf_CompatiblePools m \<noteq> None)
      then Inl ManifestV4Options
      else if mf_SchemaVersion m = 4
         \<and> list_ex (\<lambda>(k, i). im_RootDisk i \<noteq> None \<or> im_MinimumRootDiskGB i \<noteq> 0) (mf_Images m)
      then Inl ManifestV4Disk
      else if mf_Account m \<noteq> cf_ExpectedAccount c \<or> mf_Region m \<noteq> cf_Region c
         \<or> mf_Deployment m \<noteq> cf_Deployment c \<or> mf_Owner m \<noteq> cf_Owner c
      then Inl ManifestScope
      else if mf_Region m \<noteq> ''us-east-2'' then Inl ManifestRegion
      else if \<not> re_match accountRE (mf_Account m) \<or> \<not> re_match labelRE (mf_Deployment m)
         \<or> \<not> re_match labelRE (mf_Owner m) \<or> length (mf_Deployment m) > 23 \<or> length (mf_Owner m) > 23
      then Inl ManifestLabels else Inr ())"

definition manifest_config :: "manifest \<Rightarrow> config" where
  "manifest_config m =
     \<lparr>cf_SchemaVersion = 0, cf_ExpectedAccount = mf_Account m, cf_Region = mf_Region m,
      cf_Deployment = mf_Deployment m, cf_Owner = mf_Owner m, cf_AWSProfile = [], cf_Manifest = [],
      cf_ProfileFile = [], cf_SSHIdentityFile = [], cf_MaxCount = 0, cf_DefaultTTL = None\<rparr>"

text \<open>The loop over the subnets, with the identities and zones seen so far.\<close>

fun check_subnets :: "string list \<Rightarrow> string list \<Rightarrow> string list \<Rightarrow> subnet list \<Rightarrow> config_error + unit" where
  "check_subnets ids seen zones [] = Inr ()"
| "check_subnets ids seen zones (s # ss) =
     (if sn_ID s \<notin> set ids \<or> \<not> re_match availabilityZoneRE (sn_AvailabilityZone s) then Inl SubnetZones
      else if sn_ID s \<in> set seen then Inl SubnetDuplicate
      else if sn_AvailabilityZone s \<in> set zones then Inl ZoneDuplicate
      else check_subnets ids (sn_ID s # seen) (sn_AvailabilityZone s # zones) ss)"

fun check_pools :: "string list \<Rightarrow> string list \<Rightarrow> compatible_pool list \<Rightarrow> config_error + unit" where
  "check_pools ids seen [] = Inr ()"
| "check_pools ids seen (p # ps) =
     (if \<not> re_match typeRE (cp_InstanceType p) \<or> cp_InstanceType p \<in> set seen \<or> cp_Architecture p \<noteq> ''x86_64''
         \<or> cp_SubnetIDs p = []
      then Inl PoolShape
      else if \<not> valid_distinct (\<lambda>x. x \<in> set ids) [] (cp_SubnetIDs p) then Inl PoolSubnets
      else check_pools ids (cp_InstanceType p # seen) ps)"

fun check_images :: "image list \<Rightarrow> config_error + unit" where
  "check_images [] = Inr ()"
| "check_images (i # is) =
     (case im_RootDisk i of
        None \<Rightarrow> Inl ImageDisk
      | Some d \<Rightarrow>
          if im_MinimumRootDiskGB i < 1 \<or> im_MinimumRootDiskGB i > 16384 then Inl ImageDisk
          else (case validateRootDisk d of
                  Inl e \<Rightarrow> Inl e
                | Inr _ \<Rightarrow>
                    if rd_SizeGB d < im_MinimumRootDiskGB i then Inl DiskBelowMinimum else check_images is))"

definition ledger_scoped :: "manifest \<Rightarrow> bool" where
  "ledger_scoped m =
     (case mf_LaunchLedger m of
        None \<Rightarrow> False
      | Some l \<Rightarrow>
          ll_SchemaVersion l = 1 \<and> ll_Bucket l = rs_Bucket (mf_Results m) \<and> ll_ExpectedBucketOwner l = mf_Account m
          \<and> ll_Region l = mf_Region m \<and> ll_Prefix l = LaunchLedgerPrefix (manifest_config m)
          \<and> ll_PolicySHA256 l = rs_PolicySHA256 (mf_Results m))"

definition validateManifestV5 :: "manifest \<Rightarrow> config_error + unit" where
  "validateManifestV5 m =
     (if \<not> ledger_scoped m then Inl LedgerScope
      else if elems (mf_Subnets m) = [] \<or> length (elems (mf_Subnets m)) \<noteq> length (mf_SubnetIDs m)
      then Inl SubnetMapping
      else if \<not> valid_distinct (\<lambda>x. resourceID x ''subnet'') [] (mf_SubnetIDs m) then Inl SubnetIdsShape
      else (case check_subnets (mf_SubnetIDs m) [] [] (elems (mf_Subnets m)) of
              Inl e \<Rightarrow> Inl e
            | Inr _ \<Rightarrow>
                if elems (mf_CompatiblePools m) = [] then Inl PoolsMissing
                else (case check_pools (mf_SubnetIDs m) [] (elems (mf_CompatiblePools m)) of
                        Inl e \<Rightarrow> Inl e
                      | Inr _ \<Rightarrow> check_images (map snd (mf_Images m)))))"

definition zero_role :: role where
  "zero_role = \<lparr>ro_ARN = [], ro_TrustSHA256 = [], ro_PolicyName = [], ro_PolicySHA256 = []\<rparr>"

definition zero_image :: image where
  "zero_image = \<lparr>im_UbuntuRelease = [], im_OwnerAccount = [], im_Name = [], im_RootDeviceName = [], im_AMIID = [],
     im_Architecture = [], im_LaunchTemplateID = [], im_LaunchTemplateVersion = [], im_RootDisk = None,
     im_MinimumRootDiskGB = 0\<rparr>"

text \<open>Reading an absent key of a Go map gives the zero value.\<close>

definition lookup :: "'v \<Rightarrow> (string \<times> 'v) list \<Rightarrow> string \<Rightarrow> 'v" where
  [go_defs]: "lookup zero m k = (case map_of m k of None \<Rightarrow> zero | Some v \<Rightarrow> v)"

definition role_ok :: "string \<Rightarrow> role \<Rightarrow> bool" where
  "role_ok account r \<longleftrightarrow> re_match (roleRE account) (ro_ARN r) \<and> re_match labelRE (ro_PolicyName r)
     \<and> re_match digestRE (ro_TrustSHA256 r) \<and> re_match digestRE (ro_PolicySHA256 r)"

definition image_provenance :: "image \<Rightarrow> bool" where
  "image_provenance i \<longleftrightarrow> im_UbuntuRelease i = ''24.04'' \<and> im_OwnerAccount i = ''099720109477''
     \<and> re_match ubuntuNameRE (im_Name i) \<and> im_RootDeviceName i = ''/dev/sda1''"

definition image_pinned :: "string \<Rightarrow> image \<Rightarrow> bool" where
  "image_pinned key i \<longleftrightarrow> re_match labelRE key \<and> resourceID (im_AMIID i) ''ami'' \<and> resourceID (im_LaunchTemplateID i) ''lt''
     \<and> numericVersion (im_LaunchTemplateVersion i) \<and> im_Architecture i = ''x86_64''"

fun check_provenance :: "(string \<times> image) list \<Rightarrow> config_error + unit" where
  "check_provenance [] = Inr ()"
| "check_provenance ((key, i) # is) =
     (if \<not> image_provenance i then Inl ImageProvenance
      else if \<not> image_pinned key i then Inl ImagePins
      else check_provenance is)"

text \<open>The checks of \<open>validateManifest\<close> between the scope and the version-5 data, in their order.\<close>

definition check_foundation :: "manifest \<Rightarrow> config \<Rightarrow> profile \<Rightarrow> config_error + unit" where
  "check_foundation m c p =
     (if mf_SchemaVersion m = 4 \<and> (pf_SubnetIDs p \<noteq> [] \<or> pf_AvailabilityZones p \<noteq> []) then Inl PlacementNeedsV5
      else if Parse (mf_SSHPublicKey m) = None then Inl ManifestKey
      else if mf_SubnetIDs m = [] \<or> (mf_SchemaVersion m = 4 \<and> length (mf_SubnetIDs m) \<noteq> 1)
         \<or> length (mf_Images m) \<noteq> 1 \<or> pf_Image p \<noteq> ''agent''
      then Inl ManifestShape
      else if \<not> resourceID (mf_RouteTableID m) ''rtb'' \<or> \<not> resourceID (mf_InternetGatewayID m) ''igw''
         \<or> mf_DevelopmentUser m \<noteq> ''devbox'' \<or> \<not> re_match digestRE (mf_BootstrapSHA256 m)
      then Inl ManifestNetwork
      else if \<not> re_match document_nameRE (do_Name (mf_Readiness m)) \<or> \<not> numericVersion (do_Version (mf_Readiness m))
         \<or> \<not> re_match digestRE (do_ContentSHA256 (mf_Readiness m))
      then Inl ManifestReadiness
      else (case ValidateExecution (mf_Execution m) of
              Inl e \<Rightarrow> Inl e
            | Inr _ \<Rightarrow>
                if ex_Name (mf_Execution m) = do_Name (mf_Readiness m) then Inl ExecutionSeparate
                else ValidateResults (mf_Results m) c))"

definition check_authority :: "manifest \<Rightarrow> config \<Rightarrow> profile \<Rightarrow> config_error + unit" where
  "check_authority m c p =
     (let instance = lookup zero_role (mf_Roles m) ''instance''; operator = lookup zero_role (mf_Roles m) ''operator'' in
      if length (mf_Roles m) \<noteq> 2 then Inl RolesCount
      else if \<not> role_ok (cf_ExpectedAccount c) instance \<or> \<not> role_ok (cf_ExpectedAccount c) operator then Inl RoleShape
      else if ro_ARN instance = ro_ARN operator then Inl RolesSame
      else if \<not> resourceID (mf_VPCID m) ''vpc'' \<or> \<not> resourceID (mf_SecurityGroupID m) ''sg'' \<or> mf_SubnetIDs m = []
      then Inl ManifestIds
      else if \<not> valid_distinct (\<lambda>x. resourceID x ''subnet'') [] (mf_SubnetIDs m) then Inl ManifestSubnetIds
      else if \<not> re_match (instance_profileRE (cf_ExpectedAccount c)) (mf_InstanceProfileARN m) then Inl ManifestProfileARN
      else if map_of (mf_Images m) (pf_Image p) = None then Inl ImageMissing
      else check_provenance (mf_Images m))"

definition validate_pins :: "manifest \<Rightarrow> config \<Rightarrow> profile \<Rightarrow> config_error + unit" where
  "validate_pins m c p =
     (case validateManifestScope m c of
        Inl e \<Rightarrow> Inl e
      | Inr _ \<Rightarrow>
          (case check_foundation m c p of
             Inl e \<Rightarrow> Inl e
           | Inr _ \<Rightarrow>
               (case check_authority m c p of
                  Inl e \<Rightarrow> Inl e
                | Inr _ \<Rightarrow>
                    if mf_SchemaVersion m = 5 \<or> mf_SchemaVersion m = 6 then validateManifestV5 m else Inr ())))"

section \<open>Launch choices\<close>

definition agent_profile :: profile where
  "agent_profile =
     \<lparr>pf_SchemaVersion = 0, pf_Name = [], pf_Market = [], pf_InstanceTypes = [], pf_Image = ''agent'', pf_DiskGB = 0,
      pf_Architecture = [], pf_DiskType = [], pf_Encrypted = False, pf_DeleteOnTermination = False,
      pf_SubnetIDs = [], pf_AvailabilityZones = []\<rparr>"

text \<open>Maps built in a loop: the last entry of a key wins.\<close>

definition zone_of :: "subnet list \<Rightarrow> string \<Rightarrow> string option" where
  "zone_of ss k = map_of (rev (map (\<lambda>s. (sn_ID s, sn_AvailabilityZone s)) ss)) k"

definition pool_of :: "compatible_pool list \<Rightarrow> string \<Rightarrow> compatible_pool option" where
  "pool_of ps k = map_of (rev (map (\<lambda>p. (cp_InstanceType p, p)) ps)) k"

definition selected :: "profile \<Rightarrow> subnet list \<Rightarrow> string \<Rightarrow> bool" where
  "selected p ss x \<longleftrightarrow>
     \<not> (pf_SubnetIDs p \<noteq> [] \<and> x \<notin> set (pf_SubnetIDs p)
        \<or> pf_AvailabilityZones p \<noteq> [] \<and> (case zone_of ss x of None \<Rightarrow> [] | Some z \<Rightarrow> z) \<notin> set (pf_AvailabilityZones p))"

definition type_choices :: "profile \<Rightarrow> subnet list \<Rightarrow> string \<Rightarrow> string list \<Rightarrow> launch_choice list" where
  "type_choices p ss t ids =
     map (\<lambda>x. \<lparr>ch_InstanceType = t, ch_SubnetID = x,
               ch_AvailabilityZone = (case zone_of ss x of None \<Rightarrow> [] | Some z \<Rightarrow> z)\<rparr>)
       (filter (selected p ss) ids)"

fun collect_choices :: "profile \<Rightarrow> manifest \<Rightarrow> string list \<Rightarrow> launch_choice list \<Rightarrow> config_error + launch_choice list" where
  "collect_choices p m [] choices = Inr choices"
| "collect_choices p m (t # ts) choices =
     (case pool_of (elems (mf_CompatiblePools m)) t of
        None \<Rightarrow> Inl TypeIncompatible
      | Some pool \<Rightarrow>
          if cp_Architecture pool \<noteq> pf_Architecture p then Inl TypeIncompatible
          else let new = type_choices p (elems (mf_Subnets m)) t (cp_SubnetIDs pool) in
            if length (choices @ new) = length choices then Inl TypeWithoutOffering
            else collect_choices p m ts (choices @ new))"

definition placement_choices :: "profile \<Rightarrow> manifest \<Rightarrow> config_error + launch_choice list" where
  "placement_choices p m =
     (let img = lookup zero_image (mf_Images m) (pf_Image p); ss = elems (mf_Subnets m) in
      if pf_Architecture p \<noteq> im_Architecture img \<or> pf_DiskGB p < im_MinimumRootDiskGB img then Inl ProfileConflict
      else if \<not> list_all (\<lambda>x. zone_of ss x \<noteq> None) (pf_SubnetIDs p) then Inl SubnetOutside
      else if \<not> list_all (\<lambda>z. z \<in> set (map sn_AvailabilityZone ss)) (pf_AvailabilityZones p) then Inl ZoneOutside
      else collect_choices p m (pf_InstanceTypes p) [])"

definition ValidateProfileManifest :: "profile \<Rightarrow> manifest \<Rightarrow> config_error + launch_choice list" where
  "ValidateProfileManifest p m =
     (case NormalizeProfile p of
        Inl e \<Rightarrow> Inl e
      | Inr p \<Rightarrow>
          if mf_SchemaVersion m \<noteq> 5 \<and> mf_SchemaVersion m \<noteq> 6 then Inl BatchManifestVersion
          else (case validate_pins m (manifest_config m) agent_profile of
                  Inl e \<Rightarrow> Inl e
                | Inr _ \<Rightarrow> placement_choices p m))"

text \<open>A profile of schema version 0 is the execution caller, which names no profile.\<close>

definition validateManifest :: "manifest \<Rightarrow> config \<Rightarrow> profile \<Rightarrow> config_error + unit" where
  "validateManifest m c p =
     (case validate_pins m c p of
        Inl e \<Rightarrow> Inl e
      | Inr _ \<Rightarrow>
          if (mf_SchemaVersion m = 5 \<or> mf_SchemaVersion m = 6) \<and> pf_SchemaVersion p \<noteq> 0
          then (case ValidateProfileManifest p m of Inl e \<Rightarrow> Inl e | Inr _ \<Rightarrow> Inr ())
          else Inr ())"

section \<open>Recovery commands\<close>

definition shell_quote :: "string \<Rightarrow> string" where
  "shell_quote s =
     CHR 0x27 # concat (map (\<lambda>c. if c = CHR 0x27 then [CHR 0x27, CHR 0x22, CHR 0x27, CHR 0x22, CHR 0x27] else [c]) s)
     @ [CHR 0x27]"

text \<open>\<open>absolute\<close> is the result of \<open>filepath.Abs\<close>, which asks the system for the working directory.\<close>

definition CommandPrefix :: "string option \<Rightarrow> config \<Rightarrow> string" where
  "CommandPrefix absolute c =
     (case absolute of
        None \<Rightarrow> ''devbox''
      | Some path \<Rightarrow>
          if contains_any (path @ cf_Region c @ cf_AWSProfile c) [CHR 0x0D, CHR 0x0A, CHR 0x00] then ''devbox''
          else ''devbox --config '' @ shell_quote path @ '' --region '' @ shell_quote (cf_Region c)
            @ (if cf_AWSProfile c \<noteq> [] then '' --aws-profile '' @ shell_quote (cf_AWSProfile c) else []))"

end
