(* ===== verification/LaunchSelection.thy ===== *)
theory LaunchSelection
  imports ConfigModel
begin

text \<open>
  \<^verbatim>\<open>internal/lifecycle/selection.go\<close> and the names of \<^verbatim>\<open>service.go\<close> and \<^verbatim>\<open>receipt.go\<close>: what a
  command line may ask for.  Friendly labels, instance and request identities, the count of instances,
  the choice between a new launch and the two kinds of recovery, and the selectors of \<open>down\<close>.

  Errors of the lifecycle package carry a stable code (\<open>Failure\<close>) or are plain usage texts (\<open>Usage\<close>,
  one constructor argument per text); the wording of the messages is not modelled.  \<open>Cancelled\<close> is the
  error of an ended context, and \<open>Panic\<close> a nil dereference of the code.
\<close>

section \<open>Errors\<close>

datatype usage =
    CountMaximum | CountText | ResumeUsage | RetryUsage | AfterUsage | UpUsage | GroupUsage | NameUsage
  | DownUsage | YesUsage | DownGroup | DownTargets

datatype failure =
    Failure string
  | Usage usage
  | Cancelled
  | Panic

definition expiryFailure :: "reason \<Rightarrow> failure" where
  "expiryFailure r = Failure (reason_string r)"

section \<open>Names\<close>

text \<open>\<open>nameRE\<close> of the lifecycle package is the label grammar of the expiry package.\<close>

definition requestRE_hex :: rexp where
  "requestRE_hex = Exactly hex_cls 32"

definition ValidName :: "string \<Rightarrow> bool" where
  "ValidName s \<longleftrightarrow> re_match labelRE s \<and> \<not> re_match instanceRE s"

definition ValidTarget :: "string \<Rightarrow> bool" where
  "ValidTarget s \<longleftrightarrow> re_match instanceRE s \<or> ValidName s"

definition ValidGroup :: "string \<Rightarrow> bool" where
  "ValidGroup g = ValidName g"

definition ValidRequest :: "string \<Rightarrow> bool" where
  "ValidRequest s = re_match requestRE_hex s"

lemma in_class_hex: "in_class [(CHR ''0'', CHR ''9''), (CHR ''a'', CHR ''f'')] = lower_hex"
  by (rule ext) (simp add: in_class_def lower_hex_def is_digit_def)

lemma ValidRequest_iff: "ValidRequest s \<longleftrightarrow> length s = 32 \<and> list_all lower_hex s"
  by (auto simp: ValidRequest_def requestRE_hex_def Exactly_def hex_cls_def Rep_class_match in_class_hex)

lemma ValidRequest_Nil [simp]: "\<not> ValidRequest []"
  by (simp add: ValidRequest_iff)

lemma ValidName_label: "ValidName s \<Longrightarrow> re_match labelRE s"
  by (simp add: ValidName_def)

section \<open>Counts\<close>

text \<open>A Go \<open>range\<close> over a string decodes runes; on a string of digits these are its bytes, and any other
  rune is refused, so the loop is a test of the bytes.\<close>

definition ParseCount :: "string \<Rightarrow> int \<Rightarrow> failure + int" where
  "ParseCount raw maximum =
     (let maximum = (if maximum = 0 then DefaultMaxCount else maximum) in
      if maximum < 1 \<or> maximum > HardMaxCount then Inl (Usage CountMaximum)
      else if raw = [] then Inr 1
      else if \<not> list_all is_digit raw then Inl (Usage CountText)
      else (case ParseInt raw of
              None \<Rightarrow> Inl (Usage CountText)
            | Some n \<Rightarrow> if n < 1 \<or> n > maximum then Inl (Usage CountText) else Inr n))"

section \<open>Launching\<close>

record launch_flags =
  lf_Count :: string
  lf_Name :: string
  lf_Group :: string
  lf_Resume :: string
  lf_RetryMissing :: string
  lf_After :: string
  lf_OnDemand :: bool
  lf_TTL :: "string option"

record launch_selection =
  sl_Profile :: string
  sl_Name :: string
  sl_Group :: string
  sl_Count :: int
  sl_OnDemand :: bool
  sl_TTL :: "string option"
  sl_Resume :: string
  sl_RetryMissing :: string
  sl_After :: string

definition zero_selection :: launch_selection where
  "zero_selection = \<lparr>sl_Profile = [], sl_Name = [], sl_Group = [], sl_Count = 0, sl_OnDemand = False,
     sl_TTL = None, sl_Resume = [], sl_RetryMissing = [], sl_After = []\<rparr>"

definition recovery_selection :: "string list \<Rightarrow> launch_flags \<Rightarrow> failure + launch_selection" where
  "recovery_selection positional flags =
     (if positional \<noteq> [] \<or> lf_Count flags \<noteq> [] \<or> lf_Name flags \<noteq> [] \<or> lf_Group flags \<noteq> [] \<or> lf_OnDemand flags
         \<or> lf_TTL flags \<noteq> None \<or> lf_Resume flags \<noteq> [] \<and> lf_RetryMissing flags \<noteq> []
      then Inl (Failure ''replay_override'')
      else if lf_Resume flags \<noteq> []
      then (if \<not> ValidRequest (lf_Resume flags) \<or> lf_After flags \<noteq> [] then Inl (Usage ResumeUsage)
            else Inr (zero_selection\<lparr>sl_Resume := lf_Resume flags\<rparr>))
      else if \<not> ValidRequest (lf_RetryMissing flags) \<or> \<not> ValidRequest (lf_After flags) then Inl (Usage RetryUsage)
      else Inr (zero_selection\<lparr>sl_RetryMissing := lf_RetryMissing flags, sl_After := lf_After flags\<rparr>))"

definition chosen_name :: "string list \<Rightarrow> launch_flags \<Rightarrow> string" where
  "chosen_name positional flags =
     (if lf_Name flags \<noteq> [] then lf_Name flags
      else if lf_Group flags \<noteq> [] then lf_Group flags else positional ! 0)"

definition ResolveLaunchSelection ::
    "float_mul \<Rightarrow> string list \<Rightarrow> launch_flags \<Rightarrow> int \<Rightarrow> failure + launch_selection" where
  "ResolveLaunchSelection flt positional flags maximum =
     (if lf_Resume flags \<noteq> [] \<or> lf_RetryMissing flags \<noteq> [] then recovery_selection positional flags
      else (case (case lf_TTL flags of None \<Rightarrow> Inr 0 | Some t \<Rightarrow> ParseTTL flt t) of
              Inl e \<Rightarrow> Inl (expiryFailure e)
            | Inr _ \<Rightarrow>
                if lf_After flags \<noteq> [] then Inl (Usage AfterUsage)
                else if length positional \<noteq> 1 \<or> positional ! 0 \<noteq> ''agent'' then Inl (Usage UpUsage)
                else if lf_Group flags \<noteq> [] \<and> \<not> ValidGroup (lf_Group flags) then Inl (Usage GroupUsage)
                else if \<not> ValidName (chosen_name positional flags) then Inl (Usage NameUsage)
                else (case ParseCount (lf_Count flags) maximum of
                        Inl e \<Rightarrow> Inl e
                      | Inr n \<Rightarrow>
                          Inr (zero_selection\<lparr>sl_Profile := positional ! 0, sl_Name := chosen_name positional flags,
                                 sl_Group := lf_Group flags, sl_Count := n, sl_OnDemand := lf_OnDemand flags,
                                 sl_TTL := lf_TTL flags\<rparr>))))"

section \<open>Down\<close>

record down_selection =
  ds_Targets :: "string list"
  ds_Group :: string
  ds_All :: bool
  ds_Yes :: bool

definition selectors :: "down_selection \<Rightarrow> nat" where
  "selectors s = of_bool (ds_Targets s \<noteq> []) + of_bool (ds_Group s \<noteq> []) + of_bool (ds_All s)"

definition ValidateDownSelection :: "down_selection \<Rightarrow> failure + unit" where
  "ValidateDownSelection s =
     (if selectors s \<noteq> 1 then Inl (Usage DownUsage)
      else if ds_Yes s \<and> \<not> ds_All s then Inl (Usage YesUsage)
      else if ds_Group s \<noteq> [] \<and> \<not> ValidGroup (ds_Group s) then Inl (Usage DownGroup)
      else if \<not> list_all ValidTarget (ds_Targets s) then Inl (Usage DownTargets) else Inr ())"

section \<open>Lemmas\<close>

lemma ParseCount_ok:
  assumes "ParseCount raw maximum = Inr n"
  shows "1 \<le> n \<and> n \<le> (if maximum = 0 then DefaultMaxCount else maximum) \<and> n \<le> HardMaxCount
    \<and> (raw = [] \<longrightarrow> n = 1) \<and> (raw \<noteq> [] \<longrightarrow> list_all is_digit raw \<and> n = int (digits_val raw))"
  using assms
  by (auto simp: ParseCount_def Let_def ParseInt_digits HardMaxCount_def DefaultMaxCount_def split: if_splits option.splits)

text \<open>A count is accepted exactly when it is a decimal numeral between one and the effective
  maximum, whatever its length: no numeral wraps around.  An omitted count is one instance.\<close>

theorem ParseCount_bounds:
  "ParseCount raw maximum = Inr n \<longleftrightarrow>
     (let limit = (if maximum = 0 then 10 else maximum) in
      1 \<le> limit \<and> limit \<le> 100 \<and>
      (if raw = [] then n = 1
       else list_all is_digit raw \<and> n = int (digits_val raw) \<and> 1 \<le> digits_val raw \<and> int (digits_val raw) \<le> limit))"
  by (auto simp: ParseCount_def Let_def ParseInt_digits HardMaxCount_def DefaultMaxCount_def split: if_splits)

lemma recovery_selection_cases:
  assumes "recovery_selection positional flags = Inr s"
  shows "positional = [] \<and> lf_TTL flags = None \<and>
    (s = zero_selection\<lparr>sl_Resume := lf_Resume flags\<rparr> \<and> ValidRequest (lf_Resume flags)
     \<or> s = zero_selection\<lparr>sl_RetryMissing := lf_RetryMissing flags, sl_After := lf_After flags\<rparr>
       \<and> ValidRequest (lf_RetryMissing flags) \<and> ValidRequest (lf_After flags) \<and> lf_Resume flags = [])"
  using assms by (auto simp: recovery_selection_def split: if_splits)

text \<open>C12.  A resolved selection is exactly one of three things: a new launch with a valid name, an empty or
  valid group and a count within the limit, and no recovery identity; a resume, which carries nothing but
  one valid request; or a retry, which carries nothing but a valid request and a valid attempt.\<close>

theorem selection_modes:
  assumes "ResolveLaunchSelection flt positional flags maximum = Inr s"
  shows "(sl_Profile s = ''agent'' \<and> ValidName (sl_Name s) \<and> (sl_Group s = [] \<or> ValidGroup (sl_Group s))
       \<and> 1 \<le> sl_Count s \<and> sl_Count s \<le> (if maximum = 0 then 10 else maximum) \<and> sl_Count s \<le> 100
       \<and> sl_Resume s = [] \<and> sl_RetryMissing s = [] \<and> sl_After s = []
       \<and> (\<forall>t. sl_TTL s = Some t \<longrightarrow> (\<exists>d. ParseTTL flt t = Inr d \<and> 0 < d)))
    \<or> (ValidRequest (sl_Resume s) \<and> s = zero_selection\<lparr>sl_Resume := sl_Resume s\<rparr>)
    \<or> (ValidRequest (sl_RetryMissing s) \<and> ValidRequest (sl_After s)
       \<and> s = zero_selection\<lparr>sl_RetryMissing := sl_RetryMissing s, sl_After := sl_After s\<rparr>)"
proof (cases "lf_Resume flags \<noteq> [] \<or> lf_RetryMissing flags \<noteq> []")
  case True
  then have "recovery_selection positional flags = Inr s" using assms by (simp add: ResolveLaunchSelection_def)
  from recovery_selection_cases [OF this] show ?thesis by (auto simp: zero_selection_def)
next
  case False
  then obtain n where n: "ParseCount (lf_Count flags) maximum = Inr n" "positional ! 0 = ''agent''"
      "ValidName (chosen_name positional flags)" "lf_Group flags = [] \<or> ValidGroup (lf_Group flags)"
      "\<And>t. lf_TTL flags = Some t \<Longrightarrow> \<exists>d. ParseTTL flt t = Inr d"
      "s = zero_selection\<lparr>sl_Profile := positional ! 0, sl_Name := chosen_name positional flags,
             sl_Group := lf_Group flags, sl_Count := n, sl_OnDemand := lf_OnDemand flags, sl_TTL := lf_TTL flags\<rparr>"
    using assms by (auto simp: ResolveLaunchSelection_def split: if_splits sum.splits option.splits)
  have "1 \<le> n \<and> n \<le> (if maximum = 0 then 10 else maximum) \<and> n \<le> 100"
    using ParseCount_ok [OF n(1)] by (auto simp: DefaultMaxCount_def HardMaxCount_def)
  with n(2-) ParseTTL_range show ?thesis by (fastforce simp: zero_selection_def)
qed

definition ex_flags :: launch_flags where
  "ex_flags = \<lparr>lf_Count = ''3'', lf_Name = [], lf_Group = ''team'', lf_Resume = [], lf_RetryMissing = [], lf_After = [],
     lf_OnDemand = False, lf_TTL = None\<rparr>"

definition ex_selection :: launch_selection where
  "ex_selection = zero_selection\<lparr>sl_Profile := ''agent'', sl_Name := ''team'', sl_Group := ''team'', sl_Count := 3\<rparr>"

lemma ex_selection_resolved: "ResolveLaunchSelection flt [''agent''] ex_flags 5 = Inr ex_selection"
proof -
  have "ValidName ''team''" by (simp add: ValidName_def grammar_eval)
  moreover have "ParseCount ''3'' 5 = Inr 3"
    by (simp add: ParseCount_def HardMaxCount_def DefaultMaxCount_def ParseInt_def Let_def digits_val_def digit_val_def
        is_digit_def in_range_def)
  ultimately show ?thesis
    by (simp add: ResolveLaunchSelection_def ex_flags_def ex_selection_def chosen_name_def ValidGroup_def zero_selection_def)
qed

theorem selection_modes_witness:
  "ResolveLaunchSelection (\<lambda>_ _ _. 0) [''agent''] ex_flags 5 = Inr ex_selection \<and> ValidName (sl_Name ex_selection)"
  using selection_modes [OF ex_selection_resolved [of "\<lambda>_ _ _. 0"]] ex_selection_resolved [of "\<lambda>_ _ _. 0"]
  by (simp add: ex_selection_def zero_selection_def)

end
