(* ===== verification/ConfigProperties.thy ===== *)
theory ConfigProperties
  imports ConfigModel
begin

text \<open>
  What the validators of \<open>ConfigModel\<close> establish: which launch choices a profile leaves of the
  foundation's pools, that normalising a profile is idempotent, that the storage prefixes of two scopes
  never overlap, and that a copied recovery command reads back as the arguments it was built from.
\<close>

section \<open>Choices\<close>

text \<open>The declarative meaning of a launch choice: a type of the profile, a subnet the foundation offers
  it in, that subnet's zone, and both placement restrictions.\<close>

definition approved :: "profile \<Rightarrow> manifest \<Rightarrow> launch_choice \<Rightarrow> bool" where
  "approved p m ch \<longleftrightarrow>
     ch_InstanceType ch \<in> set (pf_InstanceTypes p)
     \<and> (\<exists>pool \<in> set (elems (mf_CompatiblePools m)). cp_InstanceType pool = ch_InstanceType ch
          \<and> cp_Architecture pool = ''x86_64'' \<and> ch_SubnetID ch \<in> set (cp_SubnetIDs pool))
     \<and> \<lparr>sn_ID = ch_SubnetID ch, sn_AvailabilityZone = ch_AvailabilityZone ch\<rparr> \<in> set (elems (mf_Subnets m))
     \<and> (pf_SubnetIDs p = [] \<or> ch_SubnetID ch \<in> set (pf_SubnetIDs p))
     \<and> (pf_AvailabilityZones p = [] \<or> ch_AvailabilityZone ch \<in> set (pf_AvailabilityZones p))"

lemma check_subnets_ok:
  "check_subnets ids seen zones ss = Inr () \<Longrightarrow>
     distinct (map sn_ID ss) \<and> set (map sn_ID ss) \<subseteq> set ids \<and> set (map sn_ID ss) \<inter> set seen = {}
     \<and> distinct (map sn_AvailabilityZone ss) \<and> set (map sn_AvailabilityZone ss) \<inter> set zones = {}
     \<and> (\<forall>s \<in> set ss. re_match availabilityZoneRE (sn_AvailabilityZone s))"
  by (induction ids seen zones ss rule: check_subnets.induct) (auto split: if_splits)

lemma check_pools_ok:
  "check_pools ids seen ps = Inr () \<Longrightarrow>
     distinct (map cp_InstanceType ps) \<and> set (map cp_InstanceType ps) \<inter> set seen = {}
     \<and> (\<forall>p \<in> set ps. cp_Architecture p = ''x86_64'' \<and> set (cp_SubnetIDs p) \<subseteq> set ids \<and> distinct (cp_SubnetIDs p))"
  by (induction ids seen ps rule: check_pools.induct) (auto split: if_splits simp: list_all_iff)

lemma validateManifestV5_ok:
  assumes "validateManifestV5 m = Inr ()"
  shows "check_subnets (mf_SubnetIDs m) [] [] (elems (mf_Subnets m)) = Inr ()"
    "check_pools (mf_SubnetIDs m) [] (elems (mf_CompatiblePools m)) = Inr ()"
    "length (elems (mf_Subnets m)) = length (mf_SubnetIDs m)" "distinct (mf_SubnetIDs m)" "ledger_scoped m"
    "check_images (map snd (mf_Images m)) = Inr ()"
  using assms by (auto simp: validateManifestV5_def split: if_splits sum.splits)

lemma map_of_rev_keyed:
  assumes "distinct (map f xs)"
  shows "map_of (rev (map (\<lambda>x. (f x, g x)) xs)) k = Some v \<longleftrightarrow> (\<exists>x \<in> set xs. f x = k \<and> g x = v)"
proof -
  have "distinct (map fst (rev (map (\<lambda>x. (f x, g x)) xs)))"
    using assms by (simp add: rev_map [symmetric] comp_def)
  then show ?thesis by (subst map_of_eq_Some_iff) auto
qed

lemma zone_of_iff:
  assumes "distinct (map sn_ID ss)"
  shows "zone_of ss k = Some z \<longleftrightarrow> \<lparr>sn_ID = k, sn_AvailabilityZone = z\<rparr> \<in> set ss"
proof -
  have "(\<exists>s \<in> set ss. sn_ID s = k \<and> sn_AvailabilityZone s = z) \<longleftrightarrow> \<lparr>sn_ID = k, sn_AvailabilityZone = z\<rparr> \<in> set ss"
    by (metis (full_types) subnet.select_convs subnet.surjective unit.exhaust)
  then show ?thesis by (simp add: zone_of_def map_of_rev_keyed [OF assms])
qed

lemma pool_of_iff:
  assumes "distinct (map cp_InstanceType ps)"
  shows "pool_of ps k = Some p \<longleftrightarrow> p \<in> set ps \<and> cp_InstanceType p = k"
  by (auto simp: pool_of_def map_of_rev_keyed [OF assms, of "\<lambda>p. p"])

text \<open>All subnets of the foundation are mapped to a zone.\<close>

lemma subnets_mapped:
  assumes "validateManifestV5 m = Inr ()" "x \<in> set (mf_SubnetIDs m)"
  shows "\<exists>z. zone_of (elems (mf_Subnets m)) x = Some z"
proof -
  let ?ss = "elems (mf_Subnets m)"
  note v = validateManifestV5_ok [OF assms(1)]
  have s: "distinct (map sn_ID ?ss)" "set (map sn_ID ?ss) \<subseteq> set (mf_SubnetIDs m)"
    using check_subnets_ok [OF v(1)] by simp_all
  have "card (set (map sn_ID ?ss)) = card (set (mf_SubnetIDs m))"
    using v(3,4) distinct_card [OF s(1)] distinct_card [OF v(4)] by simp
  with s(2) have eq: "set (map sn_ID ?ss) = set (mf_SubnetIDs m)" by (rule card_subset_eq [OF finite_set])
  have "x \<in> sn_ID ` set ?ss" using assms(2) unfolding eq [symmetric] set_map .
  then obtain s where "s \<in> set ?ss" "sn_ID s = x" by blast
  then have "zone_of ?ss x = Some (sn_AvailabilityZone s)"
    unfolding zone_of_def map_of_rev_keyed [OF s(1)] by blast
  then show ?thesis by blast
qed

lemma type_choices_set:
  "set (type_choices p ss t ids) =
     {ch. ch_InstanceType ch = t \<and> ch_SubnetID ch \<in> set ids \<and> selected p ss (ch_SubnetID ch)
        \<and> ch_AvailabilityZone ch = (case zone_of ss (ch_SubnetID ch) of None \<Rightarrow> [] | Some z \<Rightarrow> z)}"
proof (rule set_eqI)
  fix ch :: launch_choice
  obtain a x z where ch: "ch = \<lparr>ch_InstanceType = a, ch_SubnetID = x, ch_AvailabilityZone = z\<rparr>" by (cases ch) simp
  show "ch \<in> set (type_choices p ss t ids) \<longleftrightarrow> ch \<in> {ch. ch_InstanceType ch = t \<and> ch_SubnetID ch \<in> set ids
      \<and> selected p ss (ch_SubnetID ch)
      \<and> ch_AvailabilityZone ch = (case zone_of ss (ch_SubnetID ch) of None \<Rightarrow> [] | Some z \<Rightarrow> z)}"
    unfolding type_choices_def ch by auto
qed

lemma collect_choices_set:
  "collect_choices p m ts acc = Inr cs \<Longrightarrow>
     (\<exists>new. cs = acc @ new) \<and>
     set cs = set acc \<union> {ch. \<exists>t \<in> set ts. \<exists>pool. pool_of (elems (mf_CompatiblePools m)) t = Some pool
       \<and> cp_Architecture pool = pf_Architecture p
       \<and> ch \<in> set (type_choices p (elems (mf_Subnets m)) t (cp_SubnetIDs pool))}
     \<and> (\<forall>t \<in> set ts. \<exists>ch \<in> set cs. ch_InstanceType ch = t)"
proof (induction ts arbitrary: acc)
  case (Cons t ts)
  then obtain pool where pool: "pool_of (elems (mf_CompatiblePools m)) t = Some pool"
      "cp_Architecture pool = pf_Architecture p"
      "type_choices p (elems (mf_Subnets m)) t (cp_SubnetIDs pool) \<noteq> []"
      "collect_choices p m ts (acc @ type_choices p (elems (mf_Subnets m)) t (cp_SubnetIDs pool)) = Inr cs"
    by (auto simp: Let_def split: option.splits if_splits)
  let ?new = "type_choices p (elems (mf_Subnets m)) t (cp_SubnetIDs pool)"
  obtain ch where ch: "ch \<in> set ?new" using pool(3) by (cases ?new) auto
  then have "ch_InstanceType ch = t" by (simp add: type_choices_set)
  with Cons.IH [OF pool(4)] pool(1,2) ch show ?case by (auto simp: Un_assoc)
qed auto

lemma collect_choices_distinct:
  "collect_choices p m ts acc = Inr cs \<Longrightarrow> distinct acc \<Longrightarrow> distinct ts \<Longrightarrow>
     ch_InstanceType ` set acc \<inter> set ts = {} \<Longrightarrow>
     (\<And>t pool. pool_of (elems (mf_CompatiblePools m)) t = Some pool \<Longrightarrow> distinct (cp_SubnetIDs pool)) \<Longrightarrow> distinct cs"
proof (induction ts arbitrary: acc)
  case (Cons t ts)
  then obtain pool where pool: "pool_of (elems (mf_CompatiblePools m)) t = Some pool"
      "collect_choices p m ts (acc @ type_choices p (elems (mf_Subnets m)) t (cp_SubnetIDs pool)) = Inr cs"
    by (auto simp: Let_def split: option.splits if_splits)
  let ?new = "type_choices p (elems (mf_Subnets m)) t (cp_SubnetIDs pool)"
  have "distinct ?new" using Cons.prems(5) [OF pool(1)]
    by (auto simp: type_choices_def distinct_map inj_on_def)
  moreover have new: "ch \<in> set ?new \<Longrightarrow> ch_InstanceType ch = t" for ch by (simp add: type_choices_set)
  ultimately have "distinct (acc @ ?new)" using Cons.prems(2,4) by fastforce
  moreover have "ch_InstanceType ` set (acc @ ?new) \<inter> set ts = {}" using Cons.prems(3,4) new by fastforce
  ultimately show ?case using Cons.IH [OF pool(2)] Cons.prems(3,5) by simp
qed simp

lemma NormalizeProfile_ok:
  assumes "NormalizeProfile p = Inr q"
  shows "q = (if pf_SchemaVersion p = 1 then profile_defaults p else p)" "check_profile q = Inr ()"
    "pf_SchemaVersion p = 1 \<or> pf_SchemaVersion p = 2"
    "pf_SchemaVersion p = 1 \<Longrightarrow> pf_SubnetIDs p = [] \<and> pf_AvailabilityZones p = []"
  using assms by (auto simp: NormalizeProfile_def Let_def split: if_splits sum.splits)

lemma normal_placement:
  assumes "NormalizeProfile p = Inr q"
  shows "pf_InstanceTypes q = pf_InstanceTypes p" "pf_SubnetIDs q = pf_SubnetIDs p"
    "pf_AvailabilityZones q = pf_AvailabilityZones p"
  using NormalizeProfile_ok(1) [OF assms] by (simp_all add: profile_defaults_def)

lemma check_profile_ok:
  assumes "check_profile q = Inr ()"
  shows "pf_Architecture q = ''x86_64''" "distinct (pf_InstanceTypes q)" "list_all (re_match typeRE) (pf_InstanceTypes q)"
    "pf_Name q = ''agent''" "pf_Image q = ''agent''" "pf_InstanceTypes q \<noteq> []"
    "pf_Market q = ''spot'' \<or> pf_Market q = ''on-demand''" "validateRootDisk (profile_disk q) = Inr ()"
  using assms by (auto simp: check_profile_def split: if_splits sum.splits)

lemma ValidateProfileManifest_ok:
  assumes "ValidateProfileManifest p m = Inr cs"
  obtains q where "NormalizeProfile p = Inr q" "mf_SchemaVersion m = 5 \<or> mf_SchemaVersion m = 6"
    "validate_pins m (manifest_config m) agent_profile = Inr ()" "validateManifestV5 m = Inr ()"
    "collect_choices q m (pf_InstanceTypes q) [] = Inr cs"
proof -
  obtain q where q: "NormalizeProfile p = Inr q" "mf_SchemaVersion m = 5 \<or> mf_SchemaVersion m = 6"
      "validate_pins m (manifest_config m) agent_profile = Inr ()" "placement_choices q m = Inr cs"
    using assms by (auto simp: ValidateProfileManifest_def split: sum.splits if_splits)
  moreover have "validateManifestV5 m = Inr ()" using q(2,3) by (auto simp: validate_pins_def split: sum.splits if_splits)
  moreover have "collect_choices q m (pf_InstanceTypes q) [] = Inr cs"
    using q(4) by (simp add: placement_choices_def Let_def split: if_splits)
  ultimately show ?thesis using that by blast
qed

lemma type_choices_iff:
  assumes "validateManifestV5 m = Inr ()" "set ids \<subseteq> set (mf_SubnetIDs m)"
  shows "ch \<in> set (type_choices q (elems (mf_Subnets m)) t ids) \<longleftrightarrow>
    ch_InstanceType ch = t \<and> ch_SubnetID ch \<in> set ids
    \<and> \<lparr>sn_ID = ch_SubnetID ch, sn_AvailabilityZone = ch_AvailabilityZone ch\<rparr> \<in> set (elems (mf_Subnets m))
    \<and> (pf_SubnetIDs q = [] \<or> ch_SubnetID ch \<in> set (pf_SubnetIDs q))
    \<and> (pf_AvailabilityZones q = [] \<or> ch_AvailabilityZone ch \<in> set (pf_AvailabilityZones q))"
proof (cases "ch_SubnetID ch \<in> set ids")
  case True
  let ?ss = "elems (mf_Subnets m)"
  have d: "distinct (map sn_ID ?ss)" using check_subnets_ok [OF validateManifestV5_ok(1) [OF assms(1)]] by simp
  have "ch_SubnetID ch \<in> set (mf_SubnetIDs m)" using True assms(2) by blast
  then obtain z where z: "zone_of ?ss (ch_SubnetID ch) = Some z" using subnets_mapped [OF assms(1)] by blast
  have "\<lparr>sn_ID = ch_SubnetID ch, sn_AvailabilityZone = ch_AvailabilityZone ch\<rparr> \<in> set ?ss \<longleftrightarrow> ch_AvailabilityZone ch = z"
    unfolding zone_of_iff [OF d, symmetric] z by auto
  with True z show ?thesis unfolding type_choices_set selected_def by auto
next
  case False
  then show ?thesis by (simp add: type_choices_set)
qed

lemma offered_iff:
  assumes "validateManifestV5 m = Inr ()" "pf_Architecture q = ''x86_64''"
  shows "(\<exists>t \<in> set (pf_InstanceTypes q). \<exists>pool. pool_of (elems (mf_CompatiblePools m)) t = Some pool
      \<and> cp_Architecture pool = pf_Architecture q
      \<and> ch \<in> set (type_choices q (elems (mf_Subnets m)) t (cp_SubnetIDs pool))) \<longleftrightarrow> approved q m ch"
proof -
  let ?ps = "elems (mf_CompatiblePools m)"
  have p: "distinct (map cp_InstanceType ?ps)" "\<And>pool. pool \<in> set ?ps \<Longrightarrow> set (cp_SubnetIDs pool) \<subseteq> set (mf_SubnetIDs m)"
    using check_pools_ok [OF validateManifestV5_ok(2) [OF assms(1)]] by blast+
  note iff = type_choices_iff [OF assms(1) p(2), where q = q]
  show ?thesis (is "?offered \<longleftrightarrow> _")
  proof
    assume ?offered
    then obtain t pool where t: "t \<in> set (pf_InstanceTypes q)" "pool \<in> set ?ps" "cp_InstanceType pool = t"
        "cp_Architecture pool = ''x86_64''"
        "ch \<in> set (type_choices q (elems (mf_Subnets m)) t (cp_SubnetIDs pool))"
      unfolding pool_of_iff [OF p(1)] assms(2) by blast
    with t(5) [unfolded iff [OF t(2)]] show "approved q m ch" unfolding approved_def by blast
  next
    assume "approved q m ch"
    then obtain pool where pool: "pool \<in> set ?ps" "cp_InstanceType pool = ch_InstanceType ch"
        "cp_Architecture pool = ''x86_64''" "ch_SubnetID ch \<in> set (cp_SubnetIDs pool)"
        "ch_InstanceType ch \<in> set (pf_InstanceTypes q)"
        "\<lparr>sn_ID = ch_SubnetID ch, sn_AvailabilityZone = ch_AvailabilityZone ch\<rparr> \<in> set (elems (mf_Subnets m))"
        "pf_SubnetIDs q = [] \<or> ch_SubnetID ch \<in> set (pf_SubnetIDs q)"
        "pf_AvailabilityZones q = [] \<or> ch_AvailabilityZone ch \<in> set (pf_AvailabilityZones q)"
      unfolding approved_def by blast
    have "ch \<in> set (type_choices q (elems (mf_Subnets m)) (ch_InstanceType ch) (cp_SubnetIDs pool))"
      unfolding iff [OF pool(1)] using pool(4,6,7,8) by blast
    moreover have "pool_of ?ps (ch_InstanceType ch) = Some pool" unfolding pool_of_iff [OF p(1)] using pool(1,2) by blast
    ultimately show ?offered using pool(3,5) unfolding assms(2) by blast
  qed
qed

lemma choices_of:
  assumes "ValidateProfileManifest p m = Inr cs"
  shows "set cs = {ch. approved p m ch} \<and> distinct cs \<and> (\<forall>t \<in> set (pf_InstanceTypes p). \<exists>ch \<in> set cs. ch_InstanceType ch = t)"
proof -
  obtain q where q: "NormalizeProfile p = Inr q" "validateManifestV5 m = Inr ()"
      "collect_choices q m (pf_InstanceTypes q) [] = Inr cs"
    using ValidateProfileManifest_ok [OF assms] by metis
  note n = normal_placement [OF q(1)]
  have c: "pf_Architecture q = ''x86_64''" "distinct (pf_InstanceTypes q)"
    using check_profile_ok [OF NormalizeProfile_ok(2) [OF q(1)]] by blast+
  have same: "approved q m ch = approved p m ch" for ch unfolding approved_def n ..
  have pools: "distinct (map cp_InstanceType (elems (mf_CompatiblePools m)))"
    "\<And>pool. pool \<in> set (elems (mf_CompatiblePools m)) \<Longrightarrow> distinct (cp_SubnetIDs pool)"
    using check_pools_ok [OF validateManifestV5_ok(2) [OF q(2)]] by blast+
  have "set cs = {ch. approved q m ch} \<and> (\<forall>t \<in> set (pf_InstanceTypes q). \<exists>ch \<in> set cs. ch_InstanceType ch = t)"
    using collect_choices_set [OF q(3)] unfolding offered_iff [OF q(2) c(1)] list.set(1) Un_empty_left by blast
  moreover have "distinct cs"
    by (rule collect_choices_distinct [OF q(3)]) (use c(2) pools(2) pool_of_iff [OF pools(1)] in auto)
  ultimately show ?thesis unfolding same n by blast
qed

text \<open>C11.  The launch choices of a profile are exactly the approved ones, without repetition, and every
  instance type of the profile is represented.\<close>

theorem profile_choices_exact:
  assumes "ValidateProfileManifest p m = Inr cs"
  shows "set cs = {ch. approved p m ch} \<and> distinct cs \<and> (\<forall>t \<in> set (pf_InstanceTypes p). \<exists>ch \<in> set cs. ch_InstanceType ch = t)"
  using assms by (rule choices_of)

text \<open>Normalising a profile is idempotent, and a normalised profile has the one supported
  architecture, a valid root disk and well-formed, distinct instance types.\<close>

theorem normalize_idempotent:
  assumes "NormalizeProfile p = Inr q"
  shows "NormalizeProfile q = Inr q \<and> pf_Architecture q = ''x86_64'' \<and> validateRootDisk (profile_disk q) = Inr ()
    \<and> distinct (pf_InstanceTypes q) \<and> list_all (re_match typeRE) (pf_InstanceTypes q)"
proof -
  note n = NormalizeProfile_ok [OF assms]
  have arch: "pf_Architecture q = ''x86_64''" and c: "validateRootDisk (profile_disk q) = Inr ()"
      "distinct (pf_InstanceTypes q)" "list_all (re_match typeRE) (pf_InstanceTypes q)"
    using check_profile_ok [OF n(2)] by blast+
  have disk: "pf_DiskType q \<noteq> []"
    using c(1) by (auto simp: validateRootDisk_def profile_disk_def split: if_splits)
  have "profile_defaults q = q" if "pf_SchemaVersion p = 1"
    using n(1) that arch disk by (auto simp: profile_defaults_def)
  moreover have "pf_SchemaVersion q = pf_SchemaVersion p" using n(1) by (simp add: profile_defaults_def)
  ultimately have "NormalizeProfile q = Inr q"
    using n(2,3,4) normal_placement [OF assms] by (auto simp: NormalizeProfile_def Let_def)
  with arch c show ?thesis by blast
qed

section \<open>Storage prefixes\<close>

text \<open>A scope whose parts hold no slash: what every validated configuration has.\<close>

definition scope_labels :: "config \<Rightarrow> bool" where
  "scope_labels c \<longleftrightarrow> re_match accountRE (cf_ExpectedAccount c) \<and> re_match regionRE (cf_Region c)
     \<and> re_match labelRE (cf_Deployment c) \<and> re_match labelRE (cf_Owner c)"

definition same_scope :: "config \<Rightarrow> config \<Rightarrow> bool" where
  "same_scope c d \<longleftrightarrow> cf_ExpectedAccount c = cf_ExpectedAccount d \<and> cf_Region c = cf_Region d
     \<and> cf_Deployment c = cf_Deployment d \<and> cf_Owner c = cf_Owner d"

lemma no_slash_match:
  "re_match r s \<Longrightarrow> chars_ok (\<lambda>c. c \<noteq> CHR ''/'') r \<Longrightarrow> CHR ''/'' \<notin> set s"
  using match_chars [of r s "\<lambda>c. c \<noteq> CHR ''/''"] by (auto simp: list_all_iff)

lemma label_no_slash: "re_match labelRE s \<Longrightarrow> CHR ''/'' \<notin> set s"
  by (rule no_slash_match) (auto simp: labelRE_def label_cls_def alnum_cls_def in_class_def in_range_def)

lemma account_no_slash: "re_match accountRE s \<Longrightarrow> CHR ''/'' \<notin> set s"
  by (rule no_slash_match) (auto simp: accountRE_def digit_cls_def in_class_def in_range_def)

lemma region_no_slash: "re_match regionRE s \<Longrightarrow> CHR ''/'' \<notin> set s"
  by (rule no_slash_match)
    (auto simp: regionRE_def lower_cls_def digit_cls_def in_class_def in_range_def)

lemma slash_split:
  "a @ CHR ''/'' # s = b @ CHR ''/'' # t \<Longrightarrow> CHR ''/'' \<notin> set a \<Longrightarrow> CHR ''/'' \<notin> set b \<Longrightarrow> a = b \<and> s = t"
  by (induction a arbitrary: b) (auto simp: Cons_eq_append_conv append_eq_Cons_conv)

lemma scope_path_split:
  assumes "scope_labels c" "scope_labels d" "scope_path c @ s = scope_path d @ t"
  shows "same_scope c d \<and> s = t"
proof -
  have ns: "CHR ''/'' \<notin> set (cf_ExpectedAccount x)" "CHR ''/'' \<notin> set (cf_Region x)"
      "CHR ''/'' \<notin> set (cf_Deployment x)" "CHR ''/'' \<notin> set (cf_Owner x)" if "scope_labels x" for x
    using that account_no_slash region_no_slash label_no_slash by (auto simp: scope_labels_def)
  have "cf_ExpectedAccount c @ CHR ''/'' # cf_Region c @ CHR ''/'' # cf_Deployment c @ CHR ''/'' # cf_Owner c @ CHR ''/'' # s
      = cf_ExpectedAccount d @ CHR ''/'' # cf_Region d @ CHR ''/'' # cf_Deployment d @ CHR ''/'' # cf_Owner d @ CHR ''/'' # t"
    using assms(3) by (simp add: scope_path_def)
  from slash_split [OF this ns(1) [OF assms(1)] ns(1) [OF assms(2)]]
  have "cf_ExpectedAccount c = cf_ExpectedAccount d" and r: "cf_Region c @ CHR ''/'' # cf_Deployment c @ CHR ''/'' # cf_Owner c @ CHR ''/'' # s
      = cf_Region d @ CHR ''/'' # cf_Deployment d @ CHR ''/'' # cf_Owner d @ CHR ''/'' # t" by blast+
  moreover from slash_split [OF r ns(2) [OF assms(1)] ns(2) [OF assms(2)]]
  have "cf_Region c = cf_Region d" and l: "cf_Deployment c @ CHR ''/'' # cf_Owner c @ CHR ''/'' # s
      = cf_Deployment d @ CHR ''/'' # cf_Owner d @ CHR ''/'' # t" by blast+
  moreover from slash_split [OF l ns(3) [OF assms(1)] ns(3) [OF assms(2)]]
  have "cf_Deployment c = cf_Deployment d" and k: "cf_Owner c @ CHR ''/'' # s = cf_Owner d @ CHR ''/'' # t" by blast+
  moreover from slash_split [OF k ns(4) [OF assms(1)] ns(4) [OF assms(2)]]
  have "cf_Owner c = cf_Owner d" "s = t" by blast+
  ultimately show ?thesis by (simp add: same_scope_def)
qed

text \<open>Two validated scopes never share a storage key: an object under the launch prefix of both, or
  under the result prefix of both, means the scopes are the same, and no object is under a launch prefix
  and a result prefix at once.\<close>

theorem prefixes_isolate_scopes:
  assumes "scope_labels c" "scope_labels d"
  shows "(has_prefix key (LaunchLedgerPrefix c) \<and> has_prefix key (LaunchLedgerPrefix d) \<longrightarrow> same_scope c d)
    \<and> (has_prefix key (ResultsPrefix c) \<and> has_prefix key (ResultsPrefix d) \<longrightarrow> same_scope c d)
    \<and> \<not> (has_prefix key (LaunchLedgerPrefix c) \<and> has_prefix key (ResultsPrefix d))"
  using scope_path_split [OF assms]
  by (auto simp: has_prefix_iff LaunchLedgerPrefix_def ResultsPrefix_def)

section \<open>Recovery commands\<close>

text \<open>How a POSIX shell splits a line made of unquoted words, single-quoted and double-quoted text without
  expansions: the word read so far, whether one is open, and the words before it.\<close>

datatype quoting = Bare | Single | Double

fun shell_words :: "quoting \<Rightarrow> string option \<Rightarrow> string \<Rightarrow> string list option" where
  "shell_words Bare w [] = Some (case w of None \<Rightarrow> [] | Some x \<Rightarrow> [x])"
| "shell_words Single w [] = None"
| "shell_words Double w [] = None"
| "shell_words q w (c # s) =
     (let more = (\<lambda>d. Some ((case w of None \<Rightarrow> [] | Some x \<Rightarrow> x) @ d)) in
      case q of
        Bare \<Rightarrow>
          if c = CHR 0x27 then shell_words Single (more []) s
          else if c = CHR 0x22 then shell_words Double (more []) s
          else if c = CHR '' '' then
            (case w of None \<Rightarrow> shell_words Bare None s
             | Some x \<Rightarrow> map_option ((#) x) (shell_words Bare None s))
          else shell_words Bare (more [c]) s
      | Single \<Rightarrow> if c = CHR 0x27 then shell_words Bare w s else shell_words Single (more [c]) s
      | Double \<Rightarrow> if c = CHR 0x22 then shell_words Bare w s else shell_words Double (more [c]) s)"

lemma shell_words_quoted:
  "shell_words Single (Some w) (concat (map (\<lambda>c. if c = CHR 0x27 then [CHR 0x27, CHR 0x22, CHR 0x27, CHR 0x22, CHR 0x27] else [c]) s)
     @ CHR 0x27 # t) = shell_words Bare (Some (w @ s)) t"
  by (induction s arbitrary: w) simp_all

lemma shell_words_quote: "shell_words Bare None (shell_quote s @ t) = shell_words Bare (Some s) t"
  using shell_words_quoted [of "[]" s t] by (simp add: shell_quote_def)

lemma shell_words_quote_end: "shell_words Bare None (shell_quote s) = Some [s]"
  using shell_words_quote [of s "[]"] by simp

text \<open>Whatever characters the path, region and profile hold, a shell reads the recovery command back
  as exactly those arguments; a value that could break the line is never printed.\<close>

theorem command_prefix_reads_back:
  "shell_words Bare None (CommandPrefix absolute c) =
     (case absolute of
        None \<Rightarrow> Some [''devbox'']
      | Some path \<Rightarrow>
          if contains_any (path @ cf_Region c @ cf_AWSProfile c) [CHR 0x0D, CHR 0x0A, CHR 0x00] then Some [''devbox'']
          else Some ([''devbox'', ''--config'', path, ''--region'', cf_Region c]
                     @ (if cf_AWSProfile c = [] then [] else [''--aws-profile'', cf_AWSProfile c])))"
  by (simp add: CommandPrefix_def shell_words_quote shell_words_quote_end split: option.split)

section \<open>An example deployment\<close>

definition ex_hash :: string where "ex_hash = replicate 64 (CHR ''a'')"

definition ex_blob :: "nat list" where
  "ex_blob = [0, 0, 0, 11] @ map byte key_type @ [0, 0, 0, 32] @ replicate 32 7"

definition ex_key :: string where "ex_key = key_type @ '' '' @ b64_encode True ex_blob"

definition ex_config :: config where
  "ex_config = \<lparr>cf_SchemaVersion = 1, cf_ExpectedAccount = ''123456789012'', cf_Region = ''us-east-2'',
     cf_Deployment = ''dev'', cf_Owner = ''jo'', cf_AWSProfile = [], cf_Manifest = ''deployment.json'',
     cf_ProfileFile = [], cf_SSHIdentityFile = [], cf_MaxCount = 10, cf_DefaultTTL = None\<rparr>"

definition ex_profile :: profile where
  "ex_profile = \<lparr>pf_SchemaVersion = 2, pf_Name = ''agent'', pf_Market = ''spot'', pf_InstanceTypes = [''c5.large'', ''m5.large''],
     pf_Image = ''agent'', pf_DiskGB = 20, pf_Architecture = ''x86_64'', pf_DiskType = ''gp3'', pf_Encrypted = True,
     pf_DeleteOnTermination = True, pf_SubnetIDs = [], pf_AvailabilityZones = [''us-east-2a'']\<rparr>"

definition ex_disk :: root_disk where
  "ex_disk = \<lparr>rd_SizeGB = 8, rd_Type = ''gp3'', rd_Encrypted = True, rd_DeleteOnTermination = True\<rparr>"

definition ex_image :: image where
  "ex_image = \<lparr>im_UbuntuRelease = ''24.04'', im_OwnerAccount = ''099720109477'',
     im_Name = ''ubuntu/images/hvm-ssd-gp3/ubuntu-noble-24.04-amd64-server-2025.1'', im_RootDeviceName = ''/dev/sda1'',
     im_AMIID = ''ami-01234567'', im_Architecture = ''x86_64'', im_LaunchTemplateID = ''lt-01234567'',
     im_LaunchTemplateVersion = ''3'', im_RootDisk = Some ex_disk, im_MinimumRootDiskGB = 8\<rparr>"

definition ex_execution :: execution where
  "ex_execution = \<lparr>ex_Name = ''run'', ex_Version = ''1'', ex_ContentSHA256 = ex_hash, ex_Step = ''execute'',
     ex_RunnerSHA256 = ex_hash, ex_MinimumAgentVersion = ''3.3.2746.0''\<rparr>"

definition ex_results :: results where
  "ex_results = \<lparr>rs_SchemaVersion = 1, rs_Bucket = ''devbox-results'', rs_ExpectedBucketOwner = ''123456789012'',
     rs_Region = ''us-east-2'', rs_Prefix = ''results/v1/123456789012/us-east-2/dev/jo/'', rs_RetentionDays = 30,
     rs_PolicySHA256 = ex_hash\<rparr>"

definition ex_ledger :: launch_ledger where
  "ex_ledger = \<lparr>ll_SchemaVersion = 1, ll_Bucket = ''devbox-results'', ll_ExpectedBucketOwner = ''123456789012'',
     ll_Region = ''us-east-2'', ll_Prefix = ''launches/v2/123456789012/us-east-2/dev/jo/'', ll_PolicySHA256 = ex_hash\<rparr>"

definition ex_role :: "string \<Rightarrow> role" where
  "ex_role name = \<lparr>ro_ARN = ''arn:aws:iam::123456789012:role/'' @ name, ro_TrustSHA256 = ex_hash, ro_PolicyName = name,
     ro_PolicySHA256 = ex_hash\<rparr>"

definition ex_manifest :: manifest where
  "ex_manifest = \<lparr>mf_SchemaVersion = 6, mf_Account = ''123456789012'', mf_Region = ''us-east-2'', mf_Deployment = ''dev'',
     mf_Owner = ''jo'', mf_VPCID = ''vpc-01234567'', mf_SubnetIDs = [''subnet-01234567'', ''subnet-89abcdef''],
     mf_Subnets = Some [\<lparr>sn_ID = ''subnet-01234567'', sn_AvailabilityZone = ''us-east-2a''\<rparr>,
                        \<lparr>sn_ID = ''subnet-89abcdef'', sn_AvailabilityZone = ''us-east-2b''\<rparr>],
     mf_CompatiblePools = Some
       [\<lparr>cp_InstanceType = ''c5.large'', cp_Architecture = ''x86_64'', cp_SubnetIDs = [''subnet-01234567'', ''subnet-89abcdef'']\<rparr>,
        \<lparr>cp_InstanceType = ''m5.large'', cp_Architecture = ''x86_64'', cp_SubnetIDs = [''subnet-01234567'']\<rparr>],
     mf_SecurityGroupID = ''sg-01234567'', mf_InstanceProfileARN = ''arn:aws:iam::123456789012:instance-profile/devbox'',
     mf_RouteTableID = ''rtb-01234567'', mf_InternetGatewayID = ''igw-01234567'', mf_DevelopmentUser = ''devbox'',
     mf_BootstrapSHA256 = ex_hash, mf_SSHPublicKey = ex_key,
     mf_Readiness = \<lparr>do_Name = ''ready'', do_Version = ''2'', do_ContentSHA256 = ex_hash\<rparr>, mf_Execution = ex_execution,
     mf_Results = ex_results, mf_LaunchLedger = Some ex_ledger,
     mf_Roles = [(''instance'', ex_role ''instance''), (''operator'', ex_role ''operator'')],
     mf_Images = [(''agent'', ex_image)], mf_Cleanup = []\<rparr>"

lemma ex_hash_digest [simp]: "re_match digestRE ex_hash"
  by (simp add: digestRE_iff ex_hash_def lower_hex_def is_digit_def in_range_def list_all_iff)

lemma ex_hash_ders [simp]: "nullable (ders ex_hash digestRE)"
  using ex_hash_digest unfolding re_match_def .

lemmas number_eval = ParseInt_def Let_def digits_val_def digit_val_def is_digit_def

lemma ex_key_ok: "Parse ex_key = Some ex_blob"
proof -
  have "list_all (\<lambda>b. b < 256) ex_blob" "key_blob_ok ex_blob"
    by (simp_all add: ex_blob_def key_blob_ok_def key_type_def be_uint32_def numeral_eq_Suc)
  then show ?thesis by (simp add: ex_key_def Parse_encoded)
qed

lemma ex_scope_ok: "validateManifestScope ex_manifest (manifest_config ex_manifest) = Inr ()"
  by (simp add: validateManifestScope_def manifest_config_def ex_manifest_def grammar_eval)

lemma ex_execution_ok: "ValidateExecution ex_execution = Inr ()"
  by (simp add: ValidateExecution_def ex_execution_def grammar_eval number_eval)

lemma ex_results_ok: "ValidateResults ex_results (manifest_config ex_manifest) = Inr ()"
  by (simp add: ValidateResults_def ResultsPrefix_def scope_path_def manifest_config_def ex_manifest_def
      ex_results_def grammar_eval)

lemma ex_foundation_ok: "check_foundation ex_manifest (manifest_config ex_manifest) agent_profile = Inr ()"
proof -
  have "resourceID ''rtb-01234567'' ''rtb''" "resourceID ''igw-01234567'' ''igw''" "re_match document_nameRE ''ready''"
    "numericVersion ''2''" by (simp_all add: grammar_eval number_eval)
  then show ?thesis using ex_execution_ok ex_results_ok ex_key_ok
    by (simp add: check_foundation_def ex_manifest_def agent_profile_def ex_execution_def)
qed

lemma ex_image_ok: "check_provenance [(''agent'', ex_image)] = Inr ()"
  by (simp add: image_provenance_def image_pinned_def ex_image_def grammar_eval number_eval)

lemma ex_role_ok: "role_ok ''123456789012'' (ex_role ''instance'')" "role_ok ''123456789012'' (ex_role ''operator'')"
  by (simp_all add: role_ok_def ex_role_def grammar_eval)

lemma ex_authority_ok: "check_authority ex_manifest (manifest_config ex_manifest) agent_profile = Inr ()"
proof -
  have "resourceID ''vpc-01234567'' ''vpc''" "resourceID ''sg-01234567'' ''sg''" "resourceID ''subnet-01234567'' ''subnet''"
    "resourceID ''subnet-89abcdef'' ''subnet''"
    "re_match (instance_profileRE ''123456789012'') ''arn:aws:iam::123456789012:instance-profile/devbox''"
    by (simp_all add: grammar_eval)
  then show ?thesis using ex_role_ok ex_image_ok
    by (simp add: check_authority_def ex_manifest_def manifest_config_def agent_profile_def lookup_def ex_role_def)
qed

lemma ex_v5_ok: "validateManifestV5 ex_manifest = Inr ()"
  by (simp add: validateManifestV5_def ledger_scoped_def LaunchLedgerPrefix_def scope_path_def manifest_config_def
      ex_manifest_def ex_ledger_def ex_results_def ex_image_def ex_disk_def validateRootDisk_def grammar_eval)

lemma ex_pins_ok: "validate_pins ex_manifest (manifest_config ex_manifest) agent_profile = Inr ()"
  by (simp add: validate_pins_def ex_scope_ok ex_foundation_ok ex_authority_ok ex_v5_ok)

lemma ex_profile_normal: "NormalizeProfile ex_profile = Inr ex_profile"
  by (simp add: NormalizeProfile_def check_profile_def profile_disk_def validateRootDisk_def ex_profile_def grammar_eval)

definition ex_choices :: "launch_choice list" where
  "ex_choices =
     [\<lparr>ch_InstanceType = ''c5.large'', ch_SubnetID = ''subnet-01234567'', ch_AvailabilityZone = ''us-east-2a''\<rparr>,
      \<lparr>ch_InstanceType = ''m5.large'', ch_SubnetID = ''subnet-01234567'', ch_AvailabilityZone = ''us-east-2a''\<rparr>]"

lemma ex_choices_ok: "ValidateProfileManifest ex_profile ex_manifest = Inr ex_choices"
proof -
  have "placement_choices ex_profile ex_manifest = Inr ex_choices"
    by (simp add: placement_choices_def ex_profile_def ex_manifest_def ex_image_def lookup_def zone_of_def pool_of_def
        type_choices_def selected_def ex_choices_def)
  moreover have "mf_SchemaVersion ex_manifest = 6" by (simp add: ex_manifest_def)
  ultimately show ?thesis by (simp add: ValidateProfileManifest_def ex_profile_normal ex_pins_ok)
qed

theorem profile_choices_exact_witness:
  "ValidateProfileManifest ex_profile ex_manifest = Inr ex_choices \<and> set ex_choices = {ch. approved ex_profile ex_manifest ch}"
  using profile_choices_exact [OF ex_choices_ok] ex_choices_ok by blast

theorem normalize_idempotent_witness:
  "NormalizeProfile ex_profile = Inr ex_profile \<and> validateRootDisk (profile_disk ex_profile) = Inr ()"
  using normalize_idempotent [OF ex_profile_normal] by blast

lemma ex_config_labels: "scope_labels ex_config"
  by (simp add: scope_labels_def ex_config_def grammar_eval)

theorem prefixes_isolate_scopes_witness:
  "\<not> has_prefix ''results/v1/123456789012/us-east-2/dev/jo/x'' (LaunchLedgerPrefix ex_config)"
  using prefixes_isolate_scopes [OF ex_config_labels ex_config_labels, of "''results/v1/123456789012/us-east-2/dev/jo/x''"]
  by (simp add: ResultsPrefix_def scope_path_def ex_config_def)

end
