(* ===== verification/LaunchPlan.thy ===== *)
theory LaunchPlan
  imports LaunchSelection ConfigProperties "HOL-Library.Product_Lexorder"
begin

text \<open>
  \<^verbatim>\<open>internal/lifecycle/batch_contract.go\<close> and the plan half of \<^verbatim>\<open>internal/lifecycle/expiry.go\<close>: the
  immutable plan of a batch of workers, how it is built from the trusted configuration, manifest and
  profile, its canonical JSON text and SHA-256 digest, the identities of its attempts and the names of
  its workers.
\<close>

section \<open>The plan\<close>

record launch_plan =
  lp_SchemaVersion :: int
  lp_Account :: string
  lp_Region :: string
  lp_Deployment :: string
  lp_Owner :: string
  lp_RequestID :: string
  lp_CreatedAt :: string
  lp_Profile :: string
  lp_BaseName :: string
  lp_Group :: string
  lp_Market :: string
  lp_RequestedCount :: int
  lp_Choices :: "launch_choice list option"
  lp_Image :: image
  lp_RootDisk :: root_disk
  lp_SecurityGroupID :: string
  lp_InstanceProfileARN :: string
  lp_BootstrapSHA256 :: string
  lp_Readiness :: document
  lp_Execution :: execution
  lp_LaunchLedger :: launch_ledger
  lp_CreationTags :: "string gomap option"
  lp_ExpiresAt :: string

section \<open>Expiry of a plan\<close>

definition supportedPlan :: "int \<Rightarrow> bool" where
  "supportedPlan schema \<longleftrightarrow> schema = 1 \<or> schema = LaunchPlanSchema"

definition batchVersion :: "int \<Rightarrow> int" where
  "batchVersion planSchema =
     (if planSchema = 1 then 2 else if planSchema = LaunchPlanSchema then BatchReceiptSchema else 0)"

definition validBatchVersion :: "int \<Rightarrow> int \<Rightarrow> bool" where
  "validBatchVersion receipt plan \<longleftrightarrow> supportedPlan plan \<and> receipt = batchVersion plan"

definition plan_window :: "launch_plan \<Rightarrow> window" where
  "plan_window p = \<lparr>w_CreatedAt = lp_CreatedAt p, w_ExpiresAt = lp_ExpiresAt p\<rparr>"

definition plan_tags :: "launch_plan \<Rightarrow> string \<rightharpoonup> string" where
  "plan_tags p = map_of (elems (lp_CreationTags p))"

definition validatePlanExpiry :: "launch_plan \<Rightarrow> reason + unit" where
  "validatePlanExpiry p = ValidatePlanFields (lp_SchemaVersion p) (plan_window p) (plan_tags p)"

definition checkAllocation :: "launch_plan \<Rightarrow> gotime \<Rightarrow> failure + unit" where
  "checkAllocation p now =
     (case CheckAllocation (lp_SchemaVersion p) (plan_window p) now False of
        Inl e \<Rightarrow> Inl (expiryFailure e) | Inr _ \<Rightarrow> Inr ())"

definition ExpiryPreview :: "launch_plan \<Rightarrow> string" where
  "ExpiryPreview p =
     (if lp_SchemaVersion p = 1 \<or> lp_SchemaVersion p = 0 then ''ttl=null expires_at=null''
      else Window_String (plan_window p))"

definition requireExpiryManifest :: "manifest \<Rightarrow> failure + unit" where
  "requireExpiryManifest m =
     (if mf_SchemaVersion m \<noteq> ManifestSchema then Inl (Failure ''manifest_upgrade_required'') else Inr ())"

section \<open>Building a plan\<close>

definition effective_limit :: "config \<Rightarrow> int" where
  "effective_limit c = (if cf_MaxCount c = 0 then DefaultMaxCount else cf_MaxCount c)"

definition choice_key :: "launch_choice \<Rightarrow> string \<times> string" where
  "choice_key c = (ch_InstanceType c, ch_SubnetID c)"

text \<open>On-Demand keeps only the first type of the profile.\<close>

definition market_choices :: "string \<Rightarrow> profile \<Rightarrow> launch_choice list \<Rightarrow> launch_choice list" where
  "market_choices market p choices =
     (if market = ''on-demand'' then filter (\<lambda>c. ch_InstanceType c = hd (pf_InstanceTypes p)) choices else choices)"

definition creation_tags :: "config \<Rightarrow> profile \<Rightarrow> launch_selection \<Rightarrow> string \<Rightarrow> string \<Rightarrow> string gomap" where
  "creation_tags c p s requestID createdAt =
     fold (\<lambda>(k, v). map_put k v)
       [(''ManagedBy'', ''devbox''), (''Deployment'', cf_Deployment c), (''Owner'', cf_Owner c),
        (''Profile'', pf_Name p), (''Name'', sl_Name s), (''BaseName'', sl_Name s), (''RequestId'', requestID),
        (''BatchId'', requestID), (''CreatedAt'', createdAt), (''NamingVersion'', ''1'')] []"

definition plan_record ::
    "config \<Rightarrow> manifest \<Rightarrow> profile \<Rightarrow> launch_selection \<Rightarrow> string \<Rightarrow> string \<Rightarrow> string \<Rightarrow> int
     \<Rightarrow> string \<Rightarrow> launch_choice list \<Rightarrow> launch_ledger \<Rightarrow> launch_plan" where
  "plan_record c m p s requestID createdAt expiresAt schema market choices ledger =
     \<lparr>lp_SchemaVersion = schema, lp_Account = cf_ExpectedAccount c, lp_Region = cf_Region c,
      lp_Deployment = cf_Deployment c, lp_Owner = cf_Owner c, lp_RequestID = requestID, lp_CreatedAt = createdAt,
      lp_Profile = pf_Name p, lp_BaseName = sl_Name s, lp_Group = sl_Group s, lp_Market = market,
      lp_RequestedCount = sl_Count s, lp_Choices = Some choices, lp_Image = lookup zero_image (mf_Images m) (pf_Image p),
      lp_RootDisk = profile_disk p, lp_SecurityGroupID = mf_SecurityGroupID m,
      lp_InstanceProfileARN = mf_InstanceProfileARN m, lp_BootstrapSHA256 = mf_BootstrapSHA256 m,
      lp_Readiness = mf_Readiness m, lp_Execution = mf_Execution m, lp_LaunchLedger = ledger,
      lp_CreationTags = Some (let t = creation_tags c p s requestID createdAt in
        if schema = LaunchPlanSchema then map_put TagKey expiresAt t else t),
      lp_ExpiresAt = expiresAt\<rparr>"

definition with_group :: "string \<Rightarrow> launch_plan \<Rightarrow> launch_plan" where
  "with_group grp plan =
     (if grp = [] then plan
      else plan\<lparr>lp_CreationTags := Some (map_put ''Group'' grp (elems (lp_CreationTags plan)))\<rparr>)"

definition bad_selection :: "profile \<Rightarrow> launch_selection \<Rightarrow> bool" where
  "bad_selection p s \<longleftrightarrow> sl_Profile s \<noteq> ''agent'' \<or> sl_Profile s \<noteq> pf_Name p \<or> \<not> ValidName (sl_Name s)
     \<or> (sl_Group s \<noteq> [] \<and> \<not> ValidGroup (sl_Group s)) \<or> sl_Resume s \<noteq> [] \<or> sl_RetryMissing s \<noteq> [] \<or> sl_After s \<noteq> []"

text \<open>The part after the profile, manifest and market are known to be usable.\<close>

definition finish_plan ::
    "config \<Rightarrow> manifest \<Rightarrow> profile \<Rightarrow> launch_selection \<Rightarrow> string \<Rightarrow> string \<Rightarrow> string \<Rightarrow> int
     \<Rightarrow> string \<Rightarrow> launch_choice list \<Rightarrow> failure + launch_plan" where
  "finish_plan c m p s requestID createdAt expiresAt schema market choices =
     (let choices = market_choices market p choices in
      if choices = [] then Inl (Failure ''launch_invalid'')
      else (case mf_LaunchLedger m of
              None \<Rightarrow> Inl Panic
            | Some ledger \<Rightarrow>
                let plan = plan_record c m p s requestID createdAt expiresAt schema market (sort_key choice_key choices) ledger in
                (case validatePlanExpiry plan of
                   Inl e \<Rightarrow> Inl (expiryFailure e)
                 | Inr _ \<Rightarrow> Inr (with_group (sl_Group s) plan))))"

definition buildLaunchPlan ::
    "config \<Rightarrow> manifest \<Rightarrow> profile \<Rightarrow> launch_selection \<Rightarrow> string \<Rightarrow> string \<Rightarrow> string \<Rightarrow> int
     \<Rightarrow> failure + launch_plan" where
  "buildLaunchPlan c m p s requestID createdAt expiresAt schema =
     (case NormalizeProfile p of
        Inl _ \<Rightarrow> Inl (Failure ''profile_invalid'')
      | Inr p \<Rightarrow>
          if \<not> ValidRequest requestID then Inl (Failure ''request_invalid'')
          else if parse_rfc3339nano createdAt = None then Inl (Failure ''request_invalid'')
          else if effective_limit c < 1 \<or> effective_limit c > HardMaxCount \<or> sl_Count s < 1 \<or> sl_Count s > effective_limit c
          then Inl (Failure ''count_invalid'')
          else if bad_selection p s then Inl (Failure ''launch_invalid'')
          else if cf_ExpectedAccount c \<noteq> mf_Account m \<or> cf_Region c \<noteq> mf_Region m \<or> cf_Deployment c \<noteq> mf_Deployment m
             \<or> cf_Owner c \<noteq> mf_Owner m
          then Inl (Failure ''scope_mismatch'')
          else (case ValidateProfileManifest p m of
                  Inl _ \<Rightarrow> Inl (Failure ''launch_invalid'')
                | Inr choices \<Rightarrow>
                    if sl_OnDemand s
                    then finish_plan c m p s requestID createdAt expiresAt schema ''on-demand'' choices
                    else if pf_Market p = ''on-demand'' then Inl (Failure ''market_opt_in_required'')
                    else finish_plan c m p s requestID createdAt expiresAt schema (pf_Market p) choices))"

definition BuildLaunchPlan ::
    "float_mul \<Rightarrow> config \<Rightarrow> manifest \<Rightarrow> profile \<Rightarrow> launch_selection \<Rightarrow> string \<Rightarrow> string \<Rightarrow> failure + launch_plan" where
  "BuildLaunchPlan flt c m p s requestID createdAt =
     (case ResolveTTL flt (cf_DefaultTTL c) (sl_TTL s) of
        Inl e \<Rightarrow> Inl (expiryFailure e)
      | Inr ttl \<Rightarrow>
          (case ParseTimestamp createdAt of
             Inl e \<Rightarrow> Inl (expiryFailure e)
           | Inr created \<Rightarrow>
               (case NewWindow (Some created) ttl of
                  Inl e \<Rightarrow> Inl (expiryFailure e)
                | Inr w \<Rightarrow> buildLaunchPlan c m p s requestID (w_CreatedAt w) (w_ExpiresAt w) LaunchPlanSchema)))"

section \<open>Names and identities\<close>

definition WorkerName :: "string \<Rightarrow> string \<Rightarrow> failure + string" where
  "WorkerName base instanceID =
     (if \<not> ValidName base \<or> \<not> re_match instanceRE instanceID then Inl (Failure ''name_invalid'')
      else let suffix = CHR ''-'' # instanceID in
        Inr (take (min (length base) (63 - length suffix)) base @ suffix))"

definition attempt_seed :: "string \<Rightarrow> string \<Rightarrow> string" where
  "attempt_seed requestID parentID =
     ''devbox-attempt-v2'' @ CHR 0x00 # requestID @ CHR 0x00 # parentID"

definition AttemptID :: "string \<Rightarrow> string \<Rightarrow> failure + string" where
  "AttemptID requestID parentID =
     (if \<not> ValidRequest requestID \<or> (parentID \<noteq> [] \<and> \<not> ValidRequest parentID) then Inl (Failure ''request_invalid'')
      else Inr (EncodeToString (take 16 (Sum256 (attempt_seed requestID parentID)))))"

definition AttemptTags :: "launch_plan \<Rightarrow> string \<Rightarrow> failure + string gomap" where
  "AttemptTags p attemptID =
     (if \<not> ValidRequest attemptID then Inl (Failure ''request_invalid'')
      else Inr (map_put ''AttemptId'' attemptID (elems (lp_CreationTags p))))"

definition choice_text :: "launch_choice \<Rightarrow> string" where
  "choice_text c = ch_InstanceType c @ ''/'' @ ch_SubnetID c @ ''/'' @ ch_AvailabilityZone c"

fun join :: "string \<Rightarrow> string list \<Rightarrow> string" where
  "join sep [] = []"
| "join sep [x] = x"
| "join sep (x # xs) = x @ sep @ join sep xs"

definition Preview :: "launch_plan \<Rightarrow> string" where
  "Preview p =
     ''profile='' @ lp_Profile p @ '' region='' @ lp_Region p @ '' count='' @ int_lit (lp_RequestedCount p)
     @ '' market='' @ lp_Market p @ '' base='' @ lp_BaseName p @ '' group='' @ lp_Group p
     @ '' eligible='' @ join '','' (map choice_text (elems (lp_Choices p))) @ '' '' @ ExpiryPreview p"

end
