(* ===== verification/LaunchPlanJson.thy ===== *)
theory LaunchPlanJson
  imports LaunchPlan
begin

text \<open>
  The wire form of a plan: the struct tags of \<open>LaunchPlan\<close> and of the configuration types inside it,
  \<open>Digest\<close> (SHA-256 of the canonical JSON text) and \<open>UnmarshalJSON\<close> of \<^verbatim>\<open>expiry.go\<close>.  The round trip
  \<open>plan_wire\<close> says that a validated plan is read back from its own text.
\<close>

section \<open>Encoders\<close>

definition e_disk :: "root_disk \<Rightarrow> json" where
  "e_disk d = JObj [(''size_gb'', JInt (rd_SizeGB d)), (''type'', JStr (rd_Type d)), (''encrypted'', JBool (rd_Encrypted d)),
     (''delete_on_termination'', JBool (rd_DeleteOnTermination d))]"

definition e_choice :: "launch_choice \<Rightarrow> json" where
  "e_choice c = JObj [(''instance_type'', JStr (ch_InstanceType c)), (''subnet_id'', JStr (ch_SubnetID c)),
     (''availability_zone'', JStr (ch_AvailabilityZone c))]"

definition e_image :: "image \<Rightarrow> json" where
  "e_image i = JObj ([(''ubuntu_release'', JStr (im_UbuntuRelease i)), (''owner_account'', JStr (im_OwnerAccount i)),
     (''name'', JStr (im_Name i)), (''root_device_name'', JStr (im_RootDeviceName i)), (''ami_id'', JStr (im_AMIID i)),
     (''architecture'', JStr (im_Architecture i)), (''launch_template_id'', JStr (im_LaunchTemplateID i)),
     (''launch_template_version'', JStr (im_LaunchTemplateVersion i))]
     @ (case im_RootDisk i of None \<Rightarrow> [] | Some d \<Rightarrow> [(''root_disk'', e_disk d)])
     @ omit_empty (im_MinimumRootDiskGB i = 0) ''minimum_root_disk_gb'' (JInt (im_MinimumRootDiskGB i)))"

definition e_document :: "document \<Rightarrow> json" where
  "e_document d = JObj [(''name'', JStr (do_Name d)), (''version'', JStr (do_Version d)),
     (''content_sha256'', JStr (do_ContentSHA256 d))]"

definition e_execution :: "execution \<Rightarrow> json" where
  "e_execution e = JObj [(''name'', JStr (ex_Name e)), (''version'', JStr (ex_Version e)),
     (''content_sha256'', JStr (ex_ContentSHA256 e)), (''step'', JStr (ex_Step e)), (''runner_sha256'', JStr (ex_RunnerSHA256 e)),
     (''minimum_agent_version'', JStr (ex_MinimumAgentVersion e))]"

definition e_ledger :: "launch_ledger \<Rightarrow> json" where
  "e_ledger l = JObj [(''schema_version'', JInt (ll_SchemaVersion l)), (''bucket'', JStr (ll_Bucket l)),
     (''expected_bucket_owner'', JStr (ll_ExpectedBucketOwner l)), (''region'', JStr (ll_Region l)),
     (''prefix'', JStr (ll_Prefix l)), (''policy_sha256'', JStr (ll_PolicySHA256 l))]"

definition e_plan :: "launch_plan \<Rightarrow> json" where
  "e_plan p = JObj ([(''schema_version'', JInt (lp_SchemaVersion p)), (''account'', JStr (lp_Account p)),
     (''region'', JStr (lp_Region p)), (''deployment'', JStr (lp_Deployment p)), (''owner'', JStr (lp_Owner p)),
     (''request_id'', JStr (lp_RequestID p)), (''created_at'', JStr (lp_CreatedAt p)), (''profile'', JStr (lp_Profile p)),
     (''base_name'', JStr (lp_BaseName p))]
     @ omit_empty (lp_Group p = []) ''group'' (JStr (lp_Group p))
     @ [(''market'', JStr (lp_Market p)), (''requested_count'', JInt (lp_RequestedCount p)),
        (''choices'', e_slice e_choice (lp_Choices p)), (''image'', e_image (lp_Image p)), (''root_disk'', e_disk (lp_RootDisk p)),
        (''security_group_id'', JStr (lp_SecurityGroupID p)), (''instance_profile_arn'', JStr (lp_InstanceProfileARN p)),
        (''bootstrap_sha256'', JStr (lp_BootstrapSHA256 p)), (''readiness'', e_document (lp_Readiness p)),
        (''execution'', e_execution (lp_Execution p)), (''launch_ledger'', e_ledger (lp_LaunchLedger p)),
        (''creation_tags'', e_map JStr (lp_CreationTags p))]
     @ omit_empty (lp_ExpiresAt p = []) ''expires_at'' (JStr (lp_ExpiresAt p)))"

definition Digest :: "launch_plan \<Rightarrow> string" where
  "Digest p = sha256_hex (json_print (e_plan p))"

section \<open>Decoders\<close>

definition disk_fields :: "root_disk fields" where
  "disk_fields = [field ''size_gb'' d_int rd_SizeGB rd_SizeGB_update, field ''type'' d_string rd_Type rd_Type_update,
     field ''encrypted'' d_bool rd_Encrypted rd_Encrypted_update,
     field ''delete_on_termination'' d_bool rd_DeleteOnTermination rd_DeleteOnTermination_update]"

definition zero_disk :: root_disk where
  "zero_disk = \<lparr>rd_SizeGB = 0, rd_Type = [], rd_Encrypted = False, rd_DeleteOnTermination = False\<rparr>"

definition choice_fields :: "launch_choice fields" where
  "choice_fields = [field ''instance_type'' d_string ch_InstanceType ch_InstanceType_update,
     field ''subnet_id'' d_string ch_SubnetID ch_SubnetID_update,
     field ''availability_zone'' d_string ch_AvailabilityZone ch_AvailabilityZone_update]"

definition zero_choice :: launch_choice where
  "zero_choice = \<lparr>ch_InstanceType = [], ch_SubnetID = [], ch_AvailabilityZone = []\<rparr>"

definition image_fields :: "image fields" where
  "image_fields = [field ''ubuntu_release'' d_string im_UbuntuRelease im_UbuntuRelease_update,
     field ''owner_account'' d_string im_OwnerAccount im_OwnerAccount_update, field ''name'' d_string im_Name im_Name_update,
     field ''root_device_name'' d_string im_RootDeviceName im_RootDeviceName_update,
     field ''ami_id'' d_string im_AMIID im_AMIID_update, field ''architecture'' d_string im_Architecture im_Architecture_update,
     field ''launch_template_id'' d_string im_LaunchTemplateID im_LaunchTemplateID_update,
     field ''launch_template_version'' d_string im_LaunchTemplateVersion im_LaunchTemplateVersion_update,
     field ''root_disk'' (d_pointer (decode_struct disk_fields) zero_disk) im_RootDisk im_RootDisk_update,
     field ''minimum_root_disk_gb'' d_int im_MinimumRootDiskGB im_MinimumRootDiskGB_update]"

definition document_fields :: "document fields" where
  "document_fields = [field ''name'' d_string do_Name do_Name_update, field ''version'' d_string do_Version do_Version_update,
     field ''content_sha256'' d_string do_ContentSHA256 do_ContentSHA256_update]"

definition execution_fields :: "execution fields" where
  "execution_fields = [field ''name'' d_string ex_Name ex_Name_update, field ''version'' d_string ex_Version ex_Version_update,
     field ''content_sha256'' d_string ex_ContentSHA256 ex_ContentSHA256_update, field ''step'' d_string ex_Step ex_Step_update,
     field ''runner_sha256'' d_string ex_RunnerSHA256 ex_RunnerSHA256_update,
     field ''minimum_agent_version'' d_string ex_MinimumAgentVersion ex_MinimumAgentVersion_update]"

definition ledger_fields :: "launch_ledger fields" where
  "ledger_fields = [field ''schema_version'' d_int ll_SchemaVersion ll_SchemaVersion_update,
     field ''bucket'' d_string ll_Bucket ll_Bucket_update,
     field ''expected_bucket_owner'' d_string ll_ExpectedBucketOwner ll_ExpectedBucketOwner_update,
     field ''region'' d_string ll_Region ll_Region_update, field ''prefix'' d_string ll_Prefix ll_Prefix_update,
     field ''policy_sha256'' d_string ll_PolicySHA256 ll_PolicySHA256_update]"

definition plan_fields :: "launch_plan fields" where
  "plan_fields = [field ''schema_version'' d_int lp_SchemaVersion lp_SchemaVersion_update,
     field ''account'' d_string lp_Account lp_Account_update, field ''region'' d_string lp_Region lp_Region_update,
     field ''deployment'' d_string lp_Deployment lp_Deployment_update, field ''owner'' d_string lp_Owner lp_Owner_update,
     field ''request_id'' d_string lp_RequestID lp_RequestID_update,
     field ''created_at'' d_string lp_CreatedAt lp_CreatedAt_update, field ''profile'' d_string lp_Profile lp_Profile_update,
     field ''base_name'' d_string lp_BaseName lp_BaseName_update, field ''group'' d_string lp_Group lp_Group_update,
     field ''market'' d_string lp_Market lp_Market_update,
     field ''requested_count'' d_int lp_RequestedCount lp_RequestedCount_update,
     field ''choices'' (d_slice (decode_struct choice_fields) zero_choice) lp_Choices lp_Choices_update,
     field ''image'' (decode_struct image_fields) lp_Image lp_Image_update,
     field ''root_disk'' (decode_struct disk_fields) lp_RootDisk lp_RootDisk_update,
     field ''security_group_id'' d_string lp_SecurityGroupID lp_SecurityGroupID_update,
     field ''instance_profile_arn'' d_string lp_InstanceProfileARN lp_InstanceProfileARN_update,
     field ''bootstrap_sha256'' d_string lp_BootstrapSHA256 lp_BootstrapSHA256_update,
     field ''readiness'' (decode_struct document_fields) lp_Readiness lp_Readiness_update,
     field ''execution'' (decode_struct execution_fields) lp_Execution lp_Execution_update,
     field ''launch_ledger'' (decode_struct ledger_fields) lp_LaunchLedger lp_LaunchLedger_update,
     field ''creation_tags'' (d_map d_string []) lp_CreationTags lp_CreationTags_update,
     field ''expires_at'' d_string lp_ExpiresAt lp_ExpiresAt_update]"

definition zero_plan :: launch_plan where
  "zero_plan = \<lparr>lp_SchemaVersion = 0, lp_Account = [], lp_Region = [], lp_Deployment = [], lp_Owner = [], lp_RequestID = [],
     lp_CreatedAt = [], lp_Profile = [], lp_BaseName = [], lp_Group = [], lp_Market = [], lp_RequestedCount = 0,
     lp_Choices = None, lp_Image = zero_image, lp_RootDisk = zero_disk, lp_SecurityGroupID = [], lp_InstanceProfileARN = [],
     lp_BootstrapSHA256 = [], lp_Readiness = \<lparr>do_Name = [], do_Version = [], do_ContentSHA256 = []\<rparr>,
     lp_Execution = \<lparr>ex_Name = [], ex_Version = [], ex_ContentSHA256 = [], ex_Step = [], ex_RunnerSHA256 = [], ex_MinimumAgentVersion = []\<rparr>,
     lp_LaunchLedger = \<lparr>ll_SchemaVersion = 0, ll_Bucket = [], ll_ExpectedBucketOwner = [], ll_Region = [], ll_Prefix = [], ll_PolicySHA256 = []\<rparr>,
     lp_CreationTags = None, lp_ExpiresAt = []\<rparr>"

text \<open>\<open>UnmarshalJSON\<close>: the field table, then the legacy rule on \<open>expires_at\<close> and the expiry contract
  of a versioned plan.\<close>

definition member_names :: "json \<Rightarrow> string list" where
  "member_names j = (case j of JObj ms \<Rightarrow> map fst ms | _ \<Rightarrow> [])"

definition plan_decode :: "launch_plan decoder" where
  "plan_decode j old =
     (case decode_struct plan_fields j zero_plan of
        None \<Rightarrow> None
      | Some p \<Rightarrow>
          if lp_SchemaVersion p = 1 \<and> list_ex (\<lambda>k. fold_name k = fold_name ''expires_at'') (member_names j) then None
          else if lp_SchemaVersion p \<noteq> 0 \<and> validatePlanExpiry p \<noteq> Inr () then None
          else Some p)"

section \<open>Round trips\<close>

definition int64 :: "int \<Rightarrow> bool" where
  "int64 i \<longleftrightarrow> - (2 ^ 63) \<le> i \<and> i < 2 ^ 63"

lemma disk_wire: "int64 (rd_SizeGB d) \<Longrightarrow> decode_struct disk_fields (e_disk d) z = Some d"
  using decode_table [of disk_fields "[Some (JInt (rd_SizeGB d)), Some (JStr (rd_Type d)), Some (JBool (rd_Encrypted d)),
      Some (JBool (rd_DeleteOnTermination d))]" z]
  by (simp add: e_disk_def disk_fields_def field_def int64_def)

lemma choice_wire: "decode_struct choice_fields (e_choice c) z = Some c"
  using decode_table [of choice_fields "[Some (JStr (ch_InstanceType c)), Some (JStr (ch_SubnetID c)),
      Some (JStr (ch_AvailabilityZone c))]" z]
  by (simp add: e_choice_def choice_fields_def field_def)

lemma document_wire: "decode_struct document_fields (e_document d) z = Some d"
  using decode_table [of document_fields "[Some (JStr (do_Name d)), Some (JStr (do_Version d)), Some (JStr (do_ContentSHA256 d))]" z]
  by (simp add: e_document_def document_fields_def field_def)

lemma execution_wire: "decode_struct execution_fields (e_execution e) z = Some e"
  using decode_table [of execution_fields "[Some (JStr (ex_Name e)), Some (JStr (ex_Version e)), Some (JStr (ex_ContentSHA256 e)),
      Some (JStr (ex_Step e)), Some (JStr (ex_RunnerSHA256 e)), Some (JStr (ex_MinimumAgentVersion e))]" z]
  by (simp add: e_execution_def execution_fields_def field_def)

lemma ledger_wire: "int64 (ll_SchemaVersion l) \<Longrightarrow> decode_struct ledger_fields (e_ledger l) z = Some l"
  using decode_table [of ledger_fields "[Some (JInt (ll_SchemaVersion l)), Some (JStr (ll_Bucket l)),
      Some (JStr (ll_ExpectedBucketOwner l)), Some (JStr (ll_Region l)), Some (JStr (ll_Prefix l)), Some (JStr (ll_PolicySHA256 l))]" z]
  by (simp add: e_ledger_def ledger_fields_def field_def int64_def)

lemma image_wire:
  assumes "\<And>d. im_RootDisk i = Some d \<Longrightarrow> int64 (rd_SizeGB d)" "int64 (im_MinimumRootDiskGB i)"
    "im_RootDisk z = None" "im_MinimumRootDiskGB z = 0"
  shows "decode_struct image_fields (e_image i) z = Some i"
proof -
  let ?vs = "[Some (JStr (im_UbuntuRelease i)), Some (JStr (im_OwnerAccount i)), Some (JStr (im_Name i)),
      Some (JStr (im_RootDeviceName i)), Some (JStr (im_AMIID i)), Some (JStr (im_Architecture i)),
      Some (JStr (im_LaunchTemplateID i)), Some (JStr (im_LaunchTemplateVersion i)), map_option e_disk (im_RootDisk i),
      if im_MinimumRootDiskGB i = 0 then None else Some (JInt (im_MinimumRootDiskGB i))]"
  have "d_pointer (decode_struct disk_fields) zero_disk (e_disk d) None = Some (Some d)" if "int64 (rd_SizeGB d)" for d
    using disk_wire [OF that] by (simp add: d_pointer_def e_disk_def)
  then have "store image_fields ?vs z = Some i"
    using assms by (cases i; cases z) (auto simp: image_fields_def field_def int64_def split: option.split)
  moreover have "e_image i = JObj (present image_fields ?vs)"
    by (simp add: e_image_def image_fields_def field_def omit_empty_def split: option.split)
  moreover have "distinct (map fst image_fields)" by (simp add: image_fields_def field_def)
  ultimately show ?thesis by (simp add: decode_table)
qed

definition plan_sized :: "launch_plan \<Rightarrow> bool" where
  "plan_sized p \<longleftrightarrow> int64 (lp_SchemaVersion p) \<and> int64 (lp_RequestedCount p) \<and> int64 (im_MinimumRootDiskGB (lp_Image p))
     \<and> int64 (rd_SizeGB (lp_RootDisk p)) \<and> int64 (ll_SchemaVersion (lp_LaunchLedger p))
     \<and> (case im_RootDisk (lp_Image p) of None \<Rightarrow> True | Some d \<Rightarrow> int64 (rd_SizeGB d))
     \<and> map_ok (elems (lp_CreationTags p))"

definition plan_values :: "launch_plan \<Rightarrow> json option list" where
  "plan_values p = [Some (JInt (lp_SchemaVersion p)), Some (JStr (lp_Account p)), Some (JStr (lp_Region p)),
     Some (JStr (lp_Deployment p)), Some (JStr (lp_Owner p)), Some (JStr (lp_RequestID p)), Some (JStr (lp_CreatedAt p)),
     Some (JStr (lp_Profile p)), Some (JStr (lp_BaseName p)), if lp_Group p = [] then None else Some (JStr (lp_Group p)),
     Some (JStr (lp_Market p)), Some (JInt (lp_RequestedCount p)), Some (e_slice e_choice (lp_Choices p)),
     Some (e_image (lp_Image p)), Some (e_disk (lp_RootDisk p)), Some (JStr (lp_SecurityGroupID p)),
     Some (JStr (lp_InstanceProfileARN p)), Some (JStr (lp_BootstrapSHA256 p)), Some (e_document (lp_Readiness p)),
     Some (e_execution (lp_Execution p)), Some (e_ledger (lp_LaunchLedger p)), Some (e_map JStr (lp_CreationTags p)),
     if lp_ExpiresAt p = [] then None else Some (JStr (lp_ExpiresAt p))]"

lemma e_plan_present: "e_plan p = JObj (present plan_fields (plan_values p))"
  by (simp add: e_plan_def plan_fields_def plan_values_def field_def omit_empty_def)

lemma plan_fields_distinct: "distinct (map fst plan_fields)"
  by (simp add: plan_fields_def field_def)

lemma plan_wire:
  assumes "plan_sized p"
  shows "decode_struct plan_fields (e_plan p) zero_plan = Some p"
proof -
  have img: "decode_struct image_fields (e_image (lp_Image p)) zero_image = Some (lp_Image p)"
    using assms by (intro image_wire) (auto simp: plan_sized_def zero_image_def split: option.splits)
  have tags: "d_map d_string [] (e_map JStr (lp_CreationTags p)) None = Some (lp_CreationTags p)"
    using assms by (intro map_wire) (auto simp: plan_sized_def)
  have choices: "d_slice (decode_struct choice_fields) zero_choice (e_slice e_choice (lp_Choices p)) None = Some (lp_Choices p)"
    by (rule slice_wire [of _ "elems (lp_Choices p)"]) (auto simp: choice_wire)
  have ints: "d_int (JInt (lp_SchemaVersion p)) x = Some (lp_SchemaVersion p)"
    "d_int (JInt (lp_RequestedCount p)) x = Some (lp_RequestedCount p)" for x
    using assms by (simp_all add: plan_sized_def int64_def)
  have "store plan_fields (plan_values p) zero_plan = Some p"
    using assms unfolding plan_sized_def
    by (auto simp: plan_fields_def plan_values_def field_def zero_plan_def ints img tags choices
        disk_wire document_wire execution_wire ledger_wire intro!: launch_plan.equality)
  then show ?thesis by (simp add: e_plan_present decode_table plan_fields_distinct)
qed

end
