(* ===== verification/LaunchProperties.thy ===== *)
theory LaunchProperties
  imports LaunchPlanJson
begin

text \<open>
  What a built plan guarantees and how its parts are named: the choices, tags and lifetime of a plan
  (\<open>built_plan_sound\<close>, \<open>plan_lifetime\<close>), the shape of attempt identities, and that two different
  instances never get the same worker name.
\<close>

section \<open>Grammars\<close>

definition alnum :: "char \<Rightarrow> bool" where
  "alnum c = in_class [(CHR ''A'', CHR ''Z''), (CHR ''a'', CHR ''z''), (CHR ''0'', CHR ''9'')] c"

definition label_char :: "char \<Rightarrow> bool" where
  "label_char c \<longleftrightarrow> alnum c \<or> c = CHR ''_'' \<or> c = CHR ''-''"

lemma labelRE_iff: "re_match labelRE s \<longleftrightarrow> (\<exists>c t. s = c # t \<and> alnum c \<and> list_all label_char t \<and> length t \<le> 62)"
proof -
  have "in_class [(CHR ''A'', CHR ''Z''), (CHR ''a'', CHR ''z''), (CHR ''0'', CHR ''9''),
    (CHR ''_'', CHR ''_''), (CHR ''-'', CHR ''-'')] = label_char"
    by (rule ext) (simp add: in_class_def in_range_same label_char_def alnum_def disj_assoc)
  then have "s \<in> lang labelRE \<longleftrightarrow> (\<exists>u v. s = u @ v \<and> (\<exists>c. u = [c] \<and> alnum c) \<and> list_all label_char v \<and> length v \<le> 62)"
    unfolding labelRE_def alnum_cls_def label_cls_def by (simp add: Rep_class_iff alnum_def del: lang.simps(7))
  also have "\<dots> \<longleftrightarrow> (\<exists>c v. s = [c] @ v \<and> alnum c \<and> list_all label_char v \<and> length v \<le> 62)" by blast
  finally show ?thesis unfolding re_match_iff by simp
qed

lemma lang_Lit: "lang (Lit w) = {w}"
proof (induction w rule: Lit.induct)
  case (2 c)
  show ?case by (auto simp: Chr_def in_class_def in_range_same)
next
  case (3 c d cs)
  then show ?case by (auto simp: Chr_def in_class_def in_range_same)
qed simp

lemma lang_Lit_Seq: "s \<in> lang (Seq (Lit p) r) \<longleftrightarrow> (\<exists>h. s = p @ h \<and> h \<in> lang r)"
  by (simp add: lang_Lit)

lemma instanceRE_iff: "re_match instanceRE s \<longleftrightarrow> (\<exists>h. s = ''i-'' @ h \<and> list_all lower_hex h \<and> (length h = 8 \<or> length h = 17))"
proof -
  have "h \<in> lang (Exactly hex_cls n) \<longleftrightarrow> list_all lower_hex h \<and> length h = n" for h n
    unfolding Exactly_def hex_cls_def Rep_class_iff in_class_hex by (metis le_antisym order_refl)
  then have "h \<in> lang (Alt (Exactly hex_cls 8) (Exactly hex_cls 17)) \<longleftrightarrow>
      list_all lower_hex h \<and> (length h = 8 \<or> length h = 17)" for h
    unfolding lang.simps(5) Un_iff by blast
  then show ?thesis unfolding re_match_iff instanceRE_def resource_idRE_def lang_Lit_Seq by blast
qed

lemma lower_hex_label: "lower_hex c \<Longrightarrow> label_char c"
  by (auto simp: lower_hex_def label_char_def alnum_def in_class_def in_range_def is_digit_def)

section \<open>Worker names\<close>

lemma WorkerName_shape:
  assumes "WorkerName base i = Inr n"
  obtains b h where "n = b @ ''-i-'' @ h" "i = ''i-'' @ h" "list_all lower_hex h" "length h = 8 \<or> length h = 17"
    "b \<noteq> []" "b = take (60 - length h) base" "ValidName base"
proof -
  from assms have v: "ValidName base" "re_match instanceRE i"
    by (auto simp: WorkerName_def split: if_splits)
  then obtain h where h: "i = ''i-'' @ h" "list_all lower_hex h" "length h = 8 \<or> length h = 17"
    by (auto simp: instanceRE_iff)
  obtain c t where c: "base = c # t" using v(1) by (auto simp: ValidName_def labelRE_iff)
  have "n = take (min (length base) (60 - length h)) base @ ''-i-'' @ h"
    using assms v h by (auto simp: WorkerName_def Let_def)
  moreover have "take (min (length base) (60 - length h)) base = take (60 - length h) base" by (simp add: min_def)
  moreover have "take (60 - length h) base \<noteq> []" using h(3) c by auto
  ultimately show ?thesis using that h v(1) by metis
qed

lemma suffix_hex_unique:
  assumes "b @ ''i-'' @ h = d @ ''i-'' @ k" "list_all lower_hex h" "list_all lower_hex k"
  shows "h = k"
proof -
  have i: "\<not> lower_hex (CHR ''i'')" "\<not> lower_hex (CHR ''-'')"
    by (simp_all add: lower_hex_def is_digit_def in_range_def)
  have "takeWhile lower_hex (rev (b @ ''i-'' @ h)) = rev h" if "list_all lower_hex h" for b h
    using that i by (simp add: takeWhile_append list_all_iff)
  from this [OF assms(2), of b] this [OF assms(3), of d] assms(1) show ?thesis by (metis rev_rev_ident)
qed

text \<open>A worker name is a friendly label of at most 63 characters, is not itself an instance identity,
  and belongs to one instance only, whatever the base names.\<close>

theorem worker_name_unique:
  assumes "WorkerName base i = Inr n"
  shows "ValidName n \<and> length n \<le> 63 \<and> (\<forall>other j. WorkerName other j = Inr n \<longrightarrow> i = j)"
proof -
  from assms obtain b h where n: "n = b @ ''-i-'' @ h" "i = ''i-'' @ h" "list_all lower_hex h" "length h = 8 \<or> length h = 17"
    "b \<noteq> []" "b = take (60 - length h) base" "ValidName base" by (rule WorkerName_shape)
  obtain c t where base: "base = c # t" "alnum c" "list_all label_char t" using n(7) by (auto simp: ValidName_def labelRE_iff)
  then obtain u where b: "b = c # u" "list_all label_char u"
    using n(4,6) by (cases "60 - length h") (auto simp: list_all_iff dest: in_set_takeD)
  have len: "length b \<le> 60 - length h" using n(6) by simp
  have "list_all label_char (u @ ''-i-'' @ h)"
    using b(2) n(3) by (auto simp: list_all_iff lower_hex_label) (auto simp: label_char_def alnum_def in_class_def in_range_def)
  moreover have "length (u @ ''-i-'' @ h) \<le> 62" using len b n(4) by auto
  ultimately have label: "re_match labelRE n" using b(1) base(2) n(1) by (auto simp: labelRE_iff)
  have "\<not> re_match instanceRE n"
  proof
    assume "re_match instanceRE n"
    then obtain k where "n = ''i-'' @ k" "list_all lower_hex k" by (auto simp: instanceRE_iff)
    then show False using n(1) b(1) by (auto simp: list_all_iff Cons_eq_append_conv lower_hex_def is_digit_def in_range_def
          append_eq_Cons_conv)
  qed
  with label have "ValidName n" by (simp add: ValidName_def)
  moreover have "length n \<le> 63" using n(1,4) len by auto
  moreover have "i = j" if "WorkerName other j = Inr n" for other j
  proof -
    from that obtain d k where "n = d @ ''-i-'' @ k" "j = ''i-'' @ k" "list_all lower_hex k" by (rule WorkerName_shape)
    with n(1-3) suffix_hex_unique [of "b @ ''-''" h "d @ ''-''" k] show ?thesis by simp
  qed
  ultimately show ?thesis by blast
qed

theorem worker_name_unique_witness:
  "WorkerName ''team'' ''i-01234567'' = Inr ''team-i-01234567'' \<and> ValidName ''team-i-01234567''"
proof -
  have "WorkerName ''team'' ''i-01234567'' = Inr ''team-i-01234567''"
    by (simp add: WorkerName_def ValidName_def grammar_eval)
  with worker_name_unique [OF this] show ?thesis by blast
qed

text \<open>Attempt identities are well formed: every attempt of a valid request, first or successor, has an
  identity that is itself a valid request identity, so the lineage never gets stuck.\<close>

theorem attempt_id_valid:
  "(\<exists>a. AttemptID request parent = Inr a \<and> ValidRequest a) = (ValidRequest request \<and> (parent = [] \<or> ValidRequest parent))
   \<and> ((\<exists>a. AttemptID request parent = Inr a) = (\<exists>a. AttemptID request parent = Inr a \<and> ValidRequest a))"
  by (auto simp: AttemptID_def ValidRequest_iff)

section \<open>Built plans\<close>

lemma finish_plan_ok:
  assumes "finish_plan c m p s r created exp schema market choices = Inr plan"
  obtains ledger where "market_choices market p choices \<noteq> []" "mf_LaunchLedger m = Some ledger"
    "validatePlanExpiry (plan_record c m p s r created exp schema market (sort_key choice_key (market_choices market p choices)) ledger) = Inr ()"
    "plan = with_group (sl_Group s) (plan_record c m p s r created exp schema market (sort_key choice_key (market_choices market p choices)) ledger)"
  using assms by (auto simp: finish_plan_def Let_def split: if_splits option.splits sum.splits)

lemma buildLaunchPlan_ok:
  assumes "buildLaunchPlan c m p s r created exp schema = Inr plan"
  obtains q choices market where "NormalizeProfile p = Inr q" "ValidRequest r" "parse_rfc3339nano created \<noteq> None"
    "1 \<le> sl_Count s" "sl_Count s \<le> effective_limit c" "effective_limit c \<le> HardMaxCount" "\<not> bad_selection q s"
    "cf_ExpectedAccount c = mf_Account m" "cf_Region c = mf_Region m" "cf_Deployment c = mf_Deployment m" "cf_Owner c = mf_Owner m"
    "ValidateProfileManifest q m = Inr choices" "market = (if sl_OnDemand s then ''on-demand'' else pf_Market q)"
    "sl_OnDemand s \<or> market \<noteq> ''on-demand''"
    "finish_plan c m q s r created exp schema market choices = Inr plan"
  using assms by (auto simp: buildLaunchPlan_def split: if_splits option.splits sum.splits)

lemma with_group_simps [simp]:
  "lp_SchemaVersion (with_group g p) = lp_SchemaVersion p" "lp_CreatedAt (with_group g p) = lp_CreatedAt p"
  "lp_ExpiresAt (with_group g p) = lp_ExpiresAt p" "lp_Choices (with_group g p) = lp_Choices p"
  "lp_Market (with_group g p) = lp_Market p" "lp_RequestedCount (with_group g p) = lp_RequestedCount p"
  "lp_RequestID (with_group g p) = lp_RequestID p" "lp_Account (with_group g p) = lp_Account p"
  "lp_Region (with_group g p) = lp_Region p" "lp_Deployment (with_group g p) = lp_Deployment p"
  "lp_Owner (with_group g p) = lp_Owner p" "lp_BaseName (with_group g p) = lp_BaseName p"
  "lp_Group (with_group g p) = lp_Group p" "lp_Profile (with_group g p) = lp_Profile p"
  "lp_Image (with_group g p) = lp_Image p" "lp_RootDisk (with_group g p) = lp_RootDisk p"
  "lp_LaunchLedger (with_group g p) = lp_LaunchLedger p" "plan_window (with_group g p) = plan_window p"
  by (simp_all add: with_group_def plan_window_def)

text \<open>The creation tags as a map.\<close>

definition launch_tags :: "launch_plan \<Rightarrow> string \<rightharpoonup> string" where
  "launch_tags p =
     (let base = [''ManagedBy'' \<mapsto> ''devbox'', ''Deployment'' \<mapsto> lp_Deployment p, ''Owner'' \<mapsto> lp_Owner p,
        ''Profile'' \<mapsto> lp_Profile p, ''Name'' \<mapsto> lp_BaseName p, ''BaseName'' \<mapsto> lp_BaseName p,
        ''RequestId'' \<mapsto> lp_RequestID p, ''BatchId'' \<mapsto> lp_RequestID p, ''CreatedAt'' \<mapsto> lp_CreatedAt p,
        ''NamingVersion'' \<mapsto> ''1''];
      dated = (if lp_SchemaVersion p = 2 then base(''ExpiresAt'' \<mapsto> lp_ExpiresAt p) else base)
      in if lp_Group p = [] then dated else dated(''Group'' \<mapsto> lp_Group p))"

lemma fold_put_ok: "map_ok m \<Longrightarrow> map_ok (fold (\<lambda>(k, v). map_put k v) xs m)"
  by (induction xs arbitrary: m) auto

lemma creation_tags_map_ok [simp]: "map_ok (creation_tags c p s r created)"
  unfolding creation_tags_def by (rule fold_put_ok) simp

lemma plan_record_tags:
  "plan_tags (with_group (sl_Group s) (plan_record c m p s r created exp schema market choices ledger)) =
     launch_tags (with_group (sl_Group s) (plan_record c m p s r created exp schema market choices ledger))"
  by (simp add: plan_tags_def launch_tags_def with_group_def plan_record_def creation_tags_def Let_def TagKey_def
      LaunchPlanSchema_def del: map_put.simps)

lemma plan_record_tags_ok:
  "map_ok (elems (lp_CreationTags (with_group (sl_Group s) (plan_record c m p s r created exp schema market choices ledger))))"
  by (simp add: with_group_def plan_record_def Let_def)

lemma ValidatePlanFields_cong:
  "t TagKey = u TagKey \<Longrightarrow> t ''CreatedAt'' = u ''CreatedAt'' \<Longrightarrow> ValidatePlanFields n w t = ValidatePlanFields n w u"
  unfolding ValidatePlanFields_def map_get_def by (simp only:)

lemma with_group_expiry: "validatePlanExpiry (with_group g p) = validatePlanExpiry p"
  unfolding validatePlanExpiry_def with_group_simps
  by (rule ValidatePlanFields_cong) (simp_all add: with_group_def plan_tags_def TagKey_def)

lemma approved_normal: "NormalizeProfile p = Inr q \<Longrightarrow> approved q m ch = approved p m ch"
  unfolding approved_def by (simp only: normal_placement)

text \<open>C13.  A built plan is for the requested identity and count within both limits, in the scope of the
  configuration; it is On-Demand only when that was asked for explicitly; its choices are sorted, distinct
  and exactly the approved ones (for On-Demand, those of the profile's first type); and its creation tags
  are exactly the scope, name, request and expiry tags.\<close>

theorem built_plan_sound:
  assumes "buildLaunchPlan c m p s r created exp schema = Inr plan"
  shows "ValidRequest r \<and> lp_RequestID plan = r \<and> lp_RequestedCount plan = sl_Count s
    \<and> 1 \<le> sl_Count s \<and> sl_Count s \<le> effective_limit c \<and> sl_Count s \<le> 100
    \<and> lp_Account plan = cf_ExpectedAccount c \<and> lp_Account plan = mf_Account m \<and> lp_Region plan = mf_Region m
    \<and> (lp_Market plan = ''on-demand'' \<longleftrightarrow> sl_OnDemand s)
    \<and> (\<exists>cs. lp_Choices plan = Some cs \<and> cs \<noteq> [] \<and> sorted (map choice_key cs) \<and> distinct cs
         \<and> set cs = {ch. approved p m ch \<and> (sl_OnDemand s \<longrightarrow> ch_InstanceType ch = hd (pf_InstanceTypes p))})
    \<and> plan_tags plan = launch_tags plan \<and> validatePlanExpiry plan = Inr ()"
proof -
  from assms obtain q choices market where q: "NormalizeProfile p = Inr q" "ValidRequest r" "1 \<le> sl_Count s"
      "sl_Count s \<le> effective_limit c" "effective_limit c \<le> HardMaxCount" "cf_ExpectedAccount c = mf_Account m"
      "cf_Region c = mf_Region m" "ValidateProfileManifest q m = Inr choices"
      "market = (if sl_OnDemand s then ''on-demand'' else pf_Market q)" "sl_OnDemand s \<or> market \<noteq> ''on-demand''"
      "finish_plan c m q s r created exp schema market choices = Inr plan"
    by (rule buildLaunchPlan_ok)
  let ?cs = "sort_key choice_key (market_choices market q choices)"
  from q(11) obtain ledger where f: "market_choices market q choices \<noteq> []"
      "validatePlanExpiry (plan_record c m q s r created exp schema market ?cs ledger) = Inr ()"
      "plan = with_group (sl_Group s) (plan_record c m q s r created exp schema market ?cs ledger)"
    by (rule finish_plan_ok)
  have od: "market = ''on-demand'' \<longleftrightarrow> sl_OnDemand s" using q(9,10) by auto
  have "set choices = {ch. approved p m ch}" "distinct choices"
    using choices_of [OF q(8)] approved_normal [OF q(1)] by simp_all
  then have "distinct ?cs" "set ?cs = {ch. approved p m ch \<and> (sl_OnDemand s \<longrightarrow> ch_InstanceType ch = hd (pf_InstanceTypes p))}"
    using od normal_placement(1) [OF q(1)] by (auto simp: market_choices_def)
  moreover have "lp_Choices plan = Some ?cs" by (simp add: f(3) plan_record_def)
  moreover have "?cs \<noteq> []" using f(1) by (metis length_0_conv length_sort)
  moreover have "sorted (map choice_key ?cs)" by simp
  ultimately have "\<exists>cs. lp_Choices plan = Some cs \<and> cs \<noteq> [] \<and> sorted (map choice_key cs) \<and> distinct cs
      \<and> set cs = {ch. approved p m ch \<and> (sl_OnDemand s \<longrightarrow> ch_InstanceType ch = hd (pf_InstanceTypes p))}" by blast
  moreover have "plan_tags plan = launch_tags plan" unfolding f(3) by (rule plan_record_tags)
  moreover have "validatePlanExpiry plan = Inr ()" unfolding f(3) with_group_expiry by (rule f(2))
  moreover have "lp_RequestID plan = r" "lp_RequestedCount plan = sl_Count s" "lp_Account plan = cf_ExpectedAccount c"
      "lp_Region plan = cf_Region c" "lp_Market plan = market"
    by (simp_all add: f(3) plan_record_def)
  ultimately show ?thesis using q(2-7) od by (simp add: HardMaxCount_def)
qed

lemma BuildLaunchPlan_ok:
  assumes "BuildLaunchPlan flt c m p s r createdAt = Inr plan"
  obtains ttl created w where "ResolveTTL flt (cf_DefaultTTL c) (sl_TTL s) = Inr ttl" "ParseTimestamp createdAt = Inr created"
    "NewWindow (Some created) ttl = Inr w"
    "buildLaunchPlan c m p s r (w_CreatedAt w) (w_ExpiresAt w) LaunchPlanSchema = Inr plan"
  using assms by (auto simp: BuildLaunchPlan_def split: sum.splits)

lemma built_plan_window:
  assumes "buildLaunchPlan c m p s r created exp schema = Inr plan"
  shows "lp_SchemaVersion plan = schema" "plan_window plan = \<lparr>w_CreatedAt = created, w_ExpiresAt = exp\<rparr>"
proof -
  from assms obtain q choices market where "finish_plan c m q s r created exp schema market choices = Inr plan"
    by (rule buildLaunchPlan_ok)
  then obtain ledger where "plan = with_group (sl_Group s) (plan_record c m q s r created exp schema market
      (sort_key choice_key (market_choices market q choices)) ledger)" by (rule finish_plan_ok)
  then show "lp_SchemaVersion plan = schema" "plan_window plan = \<lparr>w_CreatedAt = created, w_ExpiresAt = exp\<rparr>"
    by (simp_all add: plan_record_def plan_window_def)
qed

lemma checkAllocation_iff:
  "checkAllocation p now = Inr () \<longleftrightarrow>
     lp_SchemaVersion p = LaunchPlanSchema \<and> is_ok (Timestamp now) \<and> (\<exists>c e. window_denotes (plan_window p) c e \<and> now < e)"
proof -
  have "checkAllocation p now = Inr () \<longleftrightarrow> CheckAllocation (lp_SchemaVersion p) (plan_window p) now False = Inr ()"
    by (auto simp: checkAllocation_def split: sum.split)
  then show ?thesis by (simp add: CheckAllocation_iff)
qed

text \<open>The allocation gate of a built plan is open exactly while a representable clock is before the
  creation time plus the resolved lifetime: the flag if there is one, else the configured default, else
  two hours, and never more than 168 hours.\<close>

theorem plan_lifetime:
  assumes "BuildLaunchPlan flt c m p s r createdAt = Inr plan"
  shows "\<exists>ttl created. ResolveTTL flt (cf_DefaultTTL c) (sl_TTL s) = Inr ttl \<and> 0 < ttl \<and> ttl \<le> 168 * hour
    \<and> ParseTimestamp createdAt = Inr created
    \<and> (\<forall>now. checkAllocation plan now = Inr () \<longleftrightarrow> is_ok (Timestamp now) \<and> now < created + ttl)"
proof -
  from assms obtain ttl created w where b: "ResolveTTL flt (cf_DefaultTTL c) (sl_TTL s) = Inr ttl"
      "ParseTimestamp createdAt = Inr created" "NewWindow (Some created) ttl = Inr w"
      "buildLaunchPlan c m p s r (w_CreatedAt w) (w_ExpiresAt w) LaunchPlanSchema = Inr plan"
    by (rule BuildLaunchPlan_ok)
  have w: "window_denotes w created (created + ttl)" "0 < ttl" "ttl \<le> 168 * hour"
    using NewWindow_denotes [OF b(3)] by (simp_all add: MaxTTL_def)
  have "plan_window plan = w" using built_plan_window(2) [OF b(4)] by simp
  moreover have "(\<exists>c e. window_denotes w c e \<and> now < e) \<longleftrightarrow> now < created + ttl" for now
    using w(1) window_denotes_unique [OF w(1)] by blast
  ultimately have "checkAllocation plan now = Inr () \<longleftrightarrow> is_ok (Timestamp now) \<and> now < created + ttl" for now
    unfolding checkAllocation_iff built_plan_window(1) [OF b(4)] by simp
  with b(1,2) w(2,3) show ?thesis by blast
qed

section \<open>An example plan\<close>

definition ex_request :: string where "ex_request = replicate 32 (CHR ''a'')"

definition ex_created :: string where "ex_created = ''2024-12-06T10:22:13.12Z''"
definition ex_expires :: string where "ex_expires = ''2024-12-06T12:22:13.12Z''"

definition ex_plan :: launch_plan where
  "ex_plan = with_group ''team'' (plan_record ex_config ex_manifest ex_profile ex_selection ex_request ex_created ex_expires
     2 ''spot'' ex_choices ex_ledger)"

lemma ex_request_valid [simp]: "ValidRequest ex_request"
  by (simp add: ex_request_def ValidRequest_iff lower_hex_def is_digit_def in_range_def list_all_iff)

lemma ex_times: "Timestamp 63869077333120000000 = Inr ex_created" "Timestamp 63869084533120000000 = Inr ex_expires"
  by (simp_all add: Timestamp_def time_eval ex_created_def ex_expires_def)

lemma ex_window: "NewWindow (Some 63869077333120000000) DefaultTTL = Inr \<lparr>w_CreatedAt = ex_created, w_ExpiresAt = ex_expires\<rparr>"
  using ex_times by (simp add: NewWindow_def ts.dec_enc go_defs)

lemma ex_team: "ValidName ''team''"
  by (simp add: ValidName_def grammar_eval)

lemma ex_plan_built:
  "buildLaunchPlan ex_config ex_manifest ex_profile ex_selection ex_request ex_created ex_expires LaunchPlanSchema = Inr ex_plan"
proof -
  have "ParseTimestamp ex_created = Inr 63869077333120000000" using ex_times(1) by (rule ts.dec_enc)
  then have time: "parse_rfc3339nano ex_created \<noteq> None" by (cases "parse_rfc3339nano ex_created") (simp_all add: ParseTimestamp_def)
  have sel: "\<not> bad_selection ex_profile ex_selection"
    by (simp add: bad_selection_def ex_selection_def ex_profile_def zero_selection_def ex_team ValidGroup_def)
  have sorted: "sort_key choice_key ex_choices = ex_choices"
    by (simp add: ex_choices_def choice_key_def less_eq_prod_def less_eq_char_def less_char_def)
  have w: "window_denotes \<lparr>w_CreatedAt = ex_created, w_ExpiresAt = ex_expires\<rparr> 63869077333120000000 63869084533120000000"
    using NewWindow_denotes [OF ex_window] by (simp add: DefaultTTL_def hour_def minute_def second_def)
  have "validatePlanExpiry ex_plan = Inr ()"
    unfolding validatePlanExpiry_def using w
    by (auto simp: ex_plan_def ValidatePlanFields_2 [unfolded LaunchPlanSchema_def] plan_record_def plan_window_def
        LaunchPlanSchema_def plan_tags_def with_group_def creation_tags_def TagKey_def map_get_def simp del: map_put.simps)
  then have exp: "validatePlanExpiry (plan_record ex_config ex_manifest ex_profile ex_selection ex_request ex_created ex_expires
     2 ''spot'' ex_choices ex_ledger) = Inr ()" by (simp add: ex_plan_def with_group_expiry)
  have facts: "mf_LaunchLedger ex_manifest = Some ex_ledger" "sl_Group ex_selection = ''team''" "ex_choices \<noteq> []"
    "sl_Count ex_selection = 3" "\<not> sl_OnDemand ex_selection" "pf_Market ex_profile = ''spot''" "cf_MaxCount ex_config = 10"
    "cf_ExpectedAccount ex_config = mf_Account ex_manifest" "cf_Region ex_config = mf_Region ex_manifest"
    "cf_Deployment ex_config = mf_Deployment ex_manifest" "cf_Owner ex_config = mf_Owner ex_manifest"
    by (simp_all add: ex_manifest_def ex_selection_def zero_selection_def ex_choices_def ex_profile_def ex_config_def)
  have "finish_plan ex_config ex_manifest ex_profile ex_selection ex_request ex_created ex_expires 2 ''spot'' ex_choices = Inr ex_plan"
    using sorted exp facts(1-3) by (simp add: finish_plan_def market_choices_def ex_plan_def Let_def)
  then show ?thesis using time sel facts
    by (simp add: buildLaunchPlan_def ex_profile_normal ex_choices_ok LaunchPlanSchema_def effective_limit_def HardMaxCount_def)
qed

theorem built_plan_sound_witness:
  "buildLaunchPlan ex_config ex_manifest ex_profile ex_selection ex_request ex_created ex_expires LaunchPlanSchema = Inr ex_plan
   \<and> lp_RequestedCount ex_plan = 3 \<and> lp_Market ex_plan \<noteq> ''on-demand'' \<and> plan_tags ex_plan = launch_tags ex_plan"
proof -
  have "sl_Count ex_selection = 3" "\<not> sl_OnDemand ex_selection" by (simp_all add: ex_selection_def zero_selection_def)
  with built_plan_sound [OF ex_plan_built] ex_plan_built show ?thesis by simp
qed

lemma ex_plan_new:
  "BuildLaunchPlan flt ex_config ex_manifest ex_profile ex_selection ex_request ex_created = Inr ex_plan"
proof -
  have "ResolveTTL flt (cf_DefaultTTL ex_config) (sl_TTL ex_selection) = Inr DefaultTTL"
    by (simp add: ResolveTTL_def ex_config_def ex_selection_def zero_selection_def)
  moreover have "ParseTimestamp ex_created = Inr 63869077333120000000" using ex_times(1) by (rule ts.dec_enc)
  ultimately show ?thesis by (simp add: BuildLaunchPlan_def ex_window ex_plan_built)
qed

theorem plan_lifetime_witness:
  "BuildLaunchPlan (\<lambda>_ _ _. 0) ex_config ex_manifest ex_profile ex_selection ex_request ex_created = Inr ex_plan
   \<and> checkAllocation ex_plan 63869077333120000000 = Inr () \<and> checkAllocation ex_plan 63869084533120000000 \<noteq> Inr ()"
proof -
  have d: "ResolveTTL (\<lambda>_ _ _. 0) (cf_DefaultTTL ex_config) (sl_TTL ex_selection) = Inr DefaultTTL"
    by (simp add: ResolveTTL_def ex_config_def ex_selection_def zero_selection_def)
  have p: "ParseTimestamp ex_created = Inr 63869077333120000000" using ex_times(1) by (rule ts.dec_enc)
  have "is_ok (Timestamp 63869077333120000000)" using ex_times(1) by simp
  with plan_lifetime [OF ex_plan_new [of "\<lambda>_ _ _. 0"]] d p ex_plan_new [of "\<lambda>_ _ _. 0"]
  show ?thesis by (auto simp: DefaultTTL_def hour_def minute_def second_def)
qed

section \<open>The text of a plan\<close>

lemma validatePlanExpiry_legacy:
  "validatePlanExpiry p = Inr () \<Longrightarrow> lp_SchemaVersion p = 1 \<Longrightarrow> lp_ExpiresAt p = []"
  by (simp add: validatePlanExpiry_def ValidatePlanFields_def plan_window_def Let_def split: if_splits)

lemma plan_member_names:
  "lp_ExpiresAt p = [] \<Longrightarrow> k \<in> set (member_names (e_plan p)) \<Longrightarrow> fold_name k \<noteq> fold_name ''expires_at''"
  by (auto simp: e_plan_def member_names_def omit_empty_def in_range_def split: if_splits)

lemma plan_back:
  assumes "plan_sized p" "validatePlanExpiry p = Inr ()"
  shows "plan_decode (e_plan p) old = Some p"
proof -
  have "list_ex (\<lambda>k. fold_name k = fold_name ''expires_at'') (member_names (e_plan p)) = False" if "lp_SchemaVersion p = 1"
    using plan_member_names [OF validatePlanExpiry_legacy [OF assms(2) that]] by (auto simp: list_ex_iff)
  then show ?thesis using assms(2) by (simp add: plan_decode_def plan_wire [OF assms(1)])
qed

text \<open>C14.  What is written for a plan is read back as that plan: its text decodes, through the custom
  \<open>UnmarshalJSON\<close>, to the same record, and so to the same digest.  Side conditions: 64-bit integers,
  a canonical tag map, printable text and a valid expiry contract, all of which building a plan or reading
  it from the ledger establishes.\<close>

theorem plan_text_roundtrip:
  assumes "plan_sized p" "json_soft (e_plan p)" "validatePlanExpiry p = Inr ()"
  shows "\<exists>j. json_text (json_print (e_plan p)) = Some j \<and> plan_decode j old = Some p"
  using json_text_print [OF assms(2)] plan_back [OF assms(1,3)] by blast

lemma soft_hash: "list_all soft ex_hash" "list_all soft ex_request"
  by (simp_all add: ex_hash_def ex_request_def list_all_iff soft_def plain_def)

lemma soft_int: "\<exists>i. int_lit n = int_lit i"
  by blast

lemma ex_plan_fields:
  "lp_SchemaVersion ex_plan = 2" "lp_Account ex_plan = ''123456789012''" "lp_Region ex_plan = ''us-east-2''"
  "lp_Deployment ex_plan = ''dev''" "lp_Owner ex_plan = ''jo''" "lp_RequestID ex_plan = ex_request"
  "lp_CreatedAt ex_plan = ex_created" "lp_Profile ex_plan = ''agent''" "lp_BaseName ex_plan = ''team''"
  "lp_Group ex_plan = ''team''" "lp_Market ex_plan = ''spot''" "lp_RequestedCount ex_plan = 3"
  "lp_Choices ex_plan = Some ex_choices" "lp_Image ex_plan = ex_image"
  "lp_RootDisk ex_plan = \<lparr>rd_SizeGB = 20, rd_Type = ''gp3'', rd_Encrypted = True, rd_DeleteOnTermination = True\<rparr>"
  "lp_SecurityGroupID ex_plan = ''sg-01234567''"
  "lp_InstanceProfileARN ex_plan = ''arn:aws:iam::123456789012:instance-profile/devbox''"
  "lp_BootstrapSHA256 ex_plan = ex_hash"
  "lp_Readiness ex_plan = \<lparr>do_Name = ''ready'', do_Version = ''2'', do_ContentSHA256 = ex_hash\<rparr>"
  "lp_Execution ex_plan = ex_execution" "lp_LaunchLedger ex_plan = ex_ledger" "lp_ExpiresAt ex_plan = ex_expires"
  by (simp_all add: ex_plan_def with_group_def plan_record_def ex_config_def ex_manifest_def ex_profile_def ex_selection_def
      zero_selection_def profile_disk_def lookup_def)

lemma ex_plan_sized: "plan_sized ex_plan"
proof -
  have "map_ok (elems (lp_CreationTags ex_plan))" unfolding ex_plan_def
    using plan_record_tags_ok [of ex_selection] by (simp add: ex_selection_def zero_selection_def)
  then show ?thesis by (simp add: plan_sized_def int64_def ex_plan_fields ex_image_def ex_disk_def ex_ledger_def)
qed

definition soft_map :: "string gomap \<Rightarrow> bool" where
  "soft_map m \<longleftrightarrow> list_all (\<lambda>(k, v). list_all soft k \<and> list_all soft v) m"

lemma soft_map_put: "list_all soft k \<Longrightarrow> list_all soft v \<Longrightarrow> soft_map m \<Longrightarrow> soft_map (map_put k v m)"
  by (induction k v m rule: map_put.induct) (auto simp: soft_map_def)

lemma soft_members_map: "soft_map m \<Longrightarrow> soft_members (map (\<lambda>(k, v). (k, JStr v)) m)"
  by (induction m) (auto simp: soft_map_def)

lemma soft_map_Nil: "soft_map []"
  by (simp add: soft_map_def)

lemma ex_tags_soft: "soft_map (elems (lp_CreationTags ex_plan))"
  by (simp add: ex_plan_def with_group_def plan_record_def creation_tags_def Let_def soft_map_put soft_map_Nil soft_hash
      ex_selection_def zero_selection_def ex_config_def ex_profile_def ex_created_def ex_expires_def TagKey_def
      LaunchPlanSchema_def soft_def plain_def del: map_put.simps)

lemma ex_image_soft: "json_soft (e_image ex_image)"
  by (simp add: e_image_def ex_image_def e_disk_def ex_disk_def omit_empty_def soft_int soft_def plain_def)

lemma ex_execution_soft: "json_soft (e_execution ex_execution)"
  by (simp add: e_execution_def ex_execution_def soft_hash soft_def plain_def)

lemma ex_ledger_soft: "json_soft (e_ledger ex_ledger)"
  by (simp add: e_ledger_def ex_ledger_def soft_hash soft_int soft_def plain_def)

lemma ex_choices_soft: "soft_elements (map e_choice ex_choices)"
  by (simp add: e_choice_def ex_choices_def soft_def plain_def)

lemma ex_plan_soft: "json_soft (e_plan ex_plan)"
proof -
  obtain m where m: "lp_CreationTags ex_plan = Some m" "soft_map m"
    using ex_tags_soft by (cases "lp_CreationTags ex_plan") (auto simp: ex_plan_def with_group_def plan_record_def)
  then show ?thesis
    by (simp add: e_plan_def ex_plan_fields e_slice_def e_map_def e_disk_def e_document_def omit_empty_def soft_int soft_hash
        ex_image_soft ex_execution_soft ex_ledger_soft ex_choices_soft soft_members_map ex_created_def ex_expires_def
        soft_def plain_def)
qed

lemma ex_plan_expiry: "validatePlanExpiry ex_plan = Inr ()"
proof -
  from ex_plan_built obtain q choices market where
    f: "finish_plan ex_config ex_manifest q ex_selection ex_request ex_created ex_expires LaunchPlanSchema market choices = Inr ex_plan"
    by (rule buildLaunchPlan_ok)
  then obtain ledger where "validatePlanExpiry (plan_record ex_config ex_manifest q ex_selection ex_request ex_created ex_expires
      LaunchPlanSchema market (sort_key choice_key (market_choices market q choices)) ledger) = Inr ()"
    and p: "ex_plan = with_group (sl_Group ex_selection) (plan_record ex_config ex_manifest q ex_selection ex_request ex_created ex_expires
      LaunchPlanSchema market (sort_key choice_key (market_choices market q choices)) ledger)"
    by (rule finish_plan_ok)
  then show ?thesis by (metis with_group_expiry)
qed

theorem plan_text_roundtrip_witness:
  "\<exists>j. json_text (json_print (e_plan ex_plan)) = Some j \<and> plan_decode j zero_plan = Some ex_plan"
  by (rule plan_text_roundtrip [OF ex_plan_sized ex_plan_soft ex_plan_expiry])

end
