(* ===== verification/BatchReceipt.thy ===== *)
theory BatchReceipt
  imports LaunchProperties
begin

text \<open>
  \<^verbatim>\<open>internal/lifecycle/batch_receipt.go\<close>: the receipt of a batch, its chain of attempts, and the
  arithmetic of missing capacity.  \<open>attempts_ok\<close> is the loop of \<open>Validate\<close>; the lemmas read off the
  invariant it establishes: one determined lineage, no identity twice, and at every attempt a requested
  count that is exactly what the earlier attempts left open.
\<close>

section \<open>Data\<close>

record resource_error =
  re_ResourceID :: string
  re_InstanceType :: string
  re_SubnetID :: string
  re_Code :: string
  re_Message :: string

record attempt_receipt =
  ar_AttemptID :: string
  ar_ParentID :: string
  ar_ClientToken :: string
  ar_RequestedCount :: int
  ar_CreatedAt :: string
  ar_State :: string
  ar_FleetID :: string
  ar_InstanceIDs :: "string list option"
  ar_Errors :: "resource_error list option"

record batch_receipt =
  br_SchemaVersion :: int
  br_RequestID :: string
  br_Plan :: launch_plan
  br_PlanSHA256 :: string
  br_Attempts :: "attempt_receipt list"

record dispatch_claim =
  dc_SchemaVersion :: int
  dc_RequestID :: string
  dc_AttemptID :: string
  dc_PlanSHA256 :: string
  dc_InputSHA256 :: string
  dc_ClientToken :: string

definition fleetIDRE :: rexp where
  "fleetIDRE = Cat [Lit ''fleet-'', Exactly hex_cls 8, Chr (CHR ''-''), Exactly hex_cls 4, Chr (CHR ''-''),
     Exactly hex_cls 4, Chr (CHR ''-''), Exactly hex_cls 4, Chr (CHR ''-''), Exactly hex_cls 12]"

definition attemptToken :: "string \<Rightarrow> string \<Rightarrow> int \<Rightarrow> string" where
  "attemptToken planHash attemptID n =
     sha256_hex (json_print (JObj [(''plan_sha256'', JStr planHash), (''attempt_id'', JStr attemptID), (''count'', JInt n)]))"

section \<open>Validation\<close>

definition states :: "string list" where
  "states = [''prepared'', ''dispatched'', ''unknown'', ''complete'', ''rejected'']"

definition terminal :: "attempt_receipt \<Rightarrow> bool" where
  "terminal a \<longleftrightarrow> ar_State a = ''complete'' \<or> ar_State a = ''rejected''"

definition ids_of :: "attempt_receipt \<Rightarrow> string list" where
  "ids_of a = elems (ar_InstanceIDs a)"

text \<open>The checks of one attempt that do not concern the loop's later state.\<close>

definition attempt_pinned :: "batch_receipt \<Rightarrow> nat \<Rightarrow> string \<Rightarrow> attempt_receipt \<Rightarrow> bool" where
  "attempt_pinned r fulfilled parent a \<longleftrightarrow>
     (case AttemptID (br_RequestID r) parent of
        Inl _ \<Rightarrow> False
      | Inr want \<Rightarrow>
          parse_rfc3339nano (ar_CreatedAt a) \<noteq> None \<and> ar_AttemptID a = want \<and> ar_ParentID a = parent
          \<and> ar_RequestedCount a = lp_RequestedCount (br_Plan r) - int fulfilled \<and> \<not> ar_RequestedCount a < 1
          \<and> ar_ClientToken a = attemptToken (br_PlanSHA256 r) want (ar_RequestedCount a))"

definition attempt_state_ok :: "string list \<Rightarrow> attempt_receipt \<Rightarrow> bool" where
  "attempt_state_ok fleets a \<longleftrightarrow>
     ar_State a \<in> set states
     \<and> \<not> ((ar_State a = ''prepared'' \<or> ar_State a = ''rejected'') \<and> (ids_of a \<noteq> [] \<or> ar_FleetID a \<noteq> []))
     \<and> (ar_FleetID a \<noteq> [] \<longrightarrow> re_match fleetIDRE (ar_FleetID a) \<and> \<not> (ar_FleetID a \<in> set fleets \<and> ar_State a \<noteq> ''unknown''))
     \<and> \<not> (int (length (ids_of a)) > ar_RequestedCount a \<and> ar_State a \<noteq> ''unknown'')
     \<and> \<not> (ar_State a = ''complete'' \<and> (ar_FleetID a = [] \<or> ar_InstanceIDs a = None))"

fun attempts_ok :: "batch_receipt \<Rightarrow> string list \<Rightarrow> string list \<Rightarrow> string \<Rightarrow> attempt_receipt list \<Rightarrow> bool" where
  "attempts_ok r fulfilled fleets parent [] = True"
| "attempts_ok r fulfilled fleets parent (a # as) =
     (if \<not> attempt_pinned r (length fulfilled) parent a then False
      else if \<not> attempt_state_ok fleets a then False
      else if \<not> valid_distinct (re_match instanceRE) fulfilled (ids_of a) then False
      else if as \<noteq> [] \<and> \<not> terminal a then False
      else attempts_ok r (rev (ids_of a) @ fulfilled) (if ar_FleetID a \<noteq> [] then ar_FleetID a # fleets else fleets)
             (ar_AttemptID a) as)"

definition Receipt_Validate :: "batch_receipt \<Rightarrow> failure + unit" where
  "Receipt_Validate r =
     (if \<not> validBatchVersion (br_SchemaVersion r) (lp_SchemaVersion (br_Plan r)) \<or> \<not> ValidRequest (br_RequestID r)
         \<or> lp_RequestID (br_Plan r) \<noteq> br_RequestID r \<or> br_PlanSHA256 r \<noteq> Digest (br_Plan r)
         \<or> lp_RequestedCount (br_Plan r) < 1 \<or> lp_RequestedCount (br_Plan r) > 100 \<or> br_Attempts r = []
         \<or> \<not> ValidName (lp_BaseName (br_Plan r))
      then Inl (Failure ''receipt_invalid'')
      else if validatePlanExpiry (br_Plan r) \<noteq> Inr () then Inl (Failure ''receipt_invalid'')
      else if lp_Market (br_Plan r) \<noteq> ''spot'' \<and> lp_Market (br_Plan r) \<noteq> ''on-demand''
      then Inl (Failure ''receipt_invalid'')
      else if \<not> attempts_ok r [] [] [] (br_Attempts r) then Inl (Failure ''receipt_invalid'')
      else Inr ())"

definition FulfilledIDs :: "batch_receipt \<Rightarrow> string list" where
  "FulfilledIDs r = sort (remdups (concat (map ids_of (br_Attempts r))))"

definition MissingCapacity :: "batch_receipt \<Rightarrow> string \<Rightarrow> failure + int" where
  "MissingCapacity r after =
     (case Receipt_Validate r of
        Inl e \<Rightarrow> Inl e
      | Inr _ \<Rightarrow>
          let final = last (br_Attempts r) in
          if \<not> ValidRequest after \<or> after \<noteq> ar_AttemptID final then Inl (Failure ''retry_parent_mismatch'')
          else if ar_State final \<noteq> ''complete'' \<and> ar_State final \<noteq> ''rejected'' then Inl (Failure ''allocation_unknown'')
          else Inr (lp_RequestedCount (br_Plan r) - int (length (FulfilledIDs r))))"

section \<open>The invariant of a valid receipt\<close>

text \<open>The identities of the attempts of a request, in order.\<close>

fun lineage :: "string \<Rightarrow> string \<Rightarrow> nat \<Rightarrow> string list" where
  "lineage request parent 0 = []"
| "lineage request parent (Suc n) =
     (case AttemptID request parent of Inl _ \<Rightarrow> [] | Inr a \<Rightarrow> a # lineage request a n)"

lemma attempts_ok_lineage:
  "attempts_ok r fulfilled fleets parent as \<Longrightarrow> map ar_AttemptID as = lineage (br_RequestID r) parent (length as)"
  by (induction r fulfilled fleets parent as rule: attempts_ok.induct)
    (auto simp: attempt_pinned_def split: if_splits sum.splits)

lemma attempts_ok_ids:
  "attempts_ok r fulfilled fleets parent as \<Longrightarrow> distinct fulfilled \<Longrightarrow>
     distinct (concat (map ids_of as)) \<and> set (concat (map ids_of as)) \<inter> set fulfilled = {}"
proof (induction r fulfilled fleets parent as rule: attempts_ok.induct)
  case (2 r fulfilled fleets parent a as)
  then show ?case by (fastforce simp: valid_distinct_iff split: if_splits)
qed simp

text \<open>What an attempt asks for is what the earlier ones left open.\<close>

lemma attempts_ok_count:
  "attempts_ok r fulfilled fleets parent as \<Longrightarrow> k < length as \<Longrightarrow>
     ar_RequestedCount (as ! k) = lp_RequestedCount (br_Plan r)
       - int (length fulfilled + length (concat (map ids_of (take k as)))) \<and> 1 \<le> ar_RequestedCount (as ! k)"
proof (induction r fulfilled fleets parent as arbitrary: k rule: attempts_ok.induct)
  case (2 r fulfilled fleets parent a as)
  then have ok: "attempt_pinned r (length fulfilled) parent a"
    "attempts_ok r (rev (ids_of a) @ fulfilled) (if ar_FleetID a \<noteq> [] then ar_FleetID a # fleets else fleets) (ar_AttemptID a) as"
    by (simp_all split: if_splits)
  show ?case
  proof (cases k)
    case 0
    then show ?thesis using ok(1) by (auto simp: attempt_pinned_def split: sum.splits)
  next
    case (Suc j)
    with "2.IH" [OF _ _ _ _ , of j] "2.prems" ok show ?thesis by (auto split: if_splits)
  qed
qed simp

lemma attempts_ok_terminal:
  "attempts_ok r fulfilled fleets parent as \<Longrightarrow> k + 1 < length as \<Longrightarrow> terminal (as ! k)"
proof (induction r fulfilled fleets parent as arbitrary: k rule: attempts_ok.induct)
  case (2 r fulfilled fleets parent a as)
  then show ?case by (cases k) (auto split: if_splits)
qed simp

lemma attempts_ok_bound:
  "attempts_ok r fulfilled fleets parent as \<Longrightarrow> a \<in> set as \<Longrightarrow> ar_State a \<noteq> ''unknown'' \<Longrightarrow>
     int (length (ids_of a)) \<le> ar_RequestedCount a"
  by (induction r fulfilled fleets parent as rule: attempts_ok.induct)
    (auto simp: attempt_state_ok_def split: if_splits)

text \<open>A finished lineage may be continued by one attempt for exactly what is still open.\<close>

lemma attempts_ok_snoc:
  "attempts_ok r fulfilled fleets parent as \<Longrightarrow> list_all terminal as \<Longrightarrow>
     attempt_pinned r (length fulfilled + length (concat (map ids_of as))) (if as = [] then parent else ar_AttemptID (last as)) a \<Longrightarrow>
     ar_State a = ''prepared'' \<Longrightarrow> ids_of a = [] \<Longrightarrow> ar_FleetID a = [] \<Longrightarrow> attempts_ok r fulfilled fleets parent (as @ [a])"
proof (induction r fulfilled fleets parent as rule: attempts_ok.induct)
  case (1 r fulfilled fleets parent)
  then show ?case by (auto simp: attempt_state_ok_def states_def valid_distinct_iff attempt_pinned_def split: sum.splits)
next
  case (2 r fulfilled fleets parent b as)
  then have "attempts_ok r (rev (ids_of b) @ fulfilled) (if ar_FleetID b \<noteq> [] then ar_FleetID b # fleets else fleets) (ar_AttemptID b) (as @ [a])"
    by (intro "2.IH") (auto split: if_splits simp: add.commute add.left_commute)
  then show ?case using "2.prems"(1,2) by (auto split: if_splits)
qed

lemma Receipt_Validate_ok:
  assumes "Receipt_Validate r = Inr ()"
  shows "attempts_ok r [] [] [] (br_Attempts r)" "br_Attempts r \<noteq> []" "ValidRequest (br_RequestID r)"
    "lp_RequestID (br_Plan r) = br_RequestID r" "br_PlanSHA256 r = Digest (br_Plan r)"
    "1 \<le> lp_RequestedCount (br_Plan r)" "lp_RequestedCount (br_Plan r) \<le> 100" "validatePlanExpiry (br_Plan r) = Inr ()"
    "ValidName (lp_BaseName (br_Plan r))"
  using assms by (auto simp: Receipt_Validate_def split: if_splits)

lemma length_FulfilledIDs:
  assumes "Receipt_Validate r = Inr ()"
  shows "length (FulfilledIDs r) = length (concat (map ids_of (br_Attempts r)))"
proof -
  have "distinct (concat (map ids_of (br_Attempts r)))"
    using attempts_ok_ids [OF Receipt_Validate_ok(1) [OF assms]] by simp
  then show ?thesis by (simp add: FulfilledIDs_def distinct_remdups_id)
qed

text \<open>C15.  A valid receipt holds one determined lineage: its attempt identities are those computed from the
  request alone, no instance occurs twice in it, every attempt asks for exactly what the earlier ones left
  open and for at least one instance, and only the last attempt may still be open.\<close>

theorem receipt_lineage:
  assumes "Receipt_Validate r = Inr ()"
  shows "map ar_AttemptID (br_Attempts r) = lineage (br_RequestID r) [] (length (br_Attempts r))
    \<and> distinct (concat (map ids_of (br_Attempts r)))
    \<and> (\<forall>k < length (br_Attempts r).
         ar_RequestedCount (br_Attempts r ! k) = lp_RequestedCount (br_Plan r)
           - int (length (concat (map ids_of (take k (br_Attempts r)))))
         \<and> 1 \<le> ar_RequestedCount (br_Attempts r ! k)
         \<and> (k + 1 < length (br_Attempts r) \<longrightarrow> terminal (br_Attempts r ! k)))"
proof -
  note ok = Receipt_Validate_ok(1) [OF assms]
  have ids: "distinct (concat (map ids_of (br_Attempts r)))" using attempts_ok_ids [OF ok] by simp
  have "ar_RequestedCount (br_Attempts r ! k) = lp_RequestedCount (br_Plan r)
      - int (length (concat (map ids_of (take k (br_Attempts r))))) \<and> 1 \<le> ar_RequestedCount (br_Attempts r ! k)"
    if "k < length (br_Attempts r)" for k
    using attempts_ok_count [OF ok that] by simp
  with ids attempts_ok_lineage [OF ok] attempts_ok_terminal [OF ok] show ?thesis by blast
qed

lemma MissingCapacity_spec:
  assumes "MissingCapacity r after = Inr n"
  shows "after = ar_AttemptID (last (br_Attempts r)) \<and> list_all terminal (br_Attempts r)
    \<and> int (length (FulfilledIDs r)) + n = lp_RequestedCount (br_Plan r)
    \<and> length (FulfilledIDs r) = length (concat (map ids_of (br_Attempts r))) \<and> 0 \<le> n"
proof -
  have v: "Receipt_Validate r = Inr ()" and final: "after = ar_AttemptID (last (br_Attempts r))" "terminal (last (br_Attempts r))"
    and n: "n = lp_RequestedCount (br_Plan r) - int (length (FulfilledIDs r))"
    using assms by (auto simp: MissingCapacity_def Let_def terminal_def split: sum.splits if_splits)
  note ok = Receipt_Validate_ok(1) [OF v] and len = length_FulfilledIDs [OF v]
  obtain as a where as: "br_Attempts r = as @ [a]" using Receipt_Validate_ok(2) [OF v] by (cases "br_Attempts r" rule: rev_cases) blast+
  have "terminal b" if "b \<in> set as" for b
  proof -
    from that obtain k where "k < length as" "as ! k = b" by (auto simp: in_set_conv_nth)
    with attempts_ok_terminal [OF ok, of k] show ?thesis by (simp add: as nth_append)
  qed
  with final(2) have "list_all terminal (br_Attempts r)" by (simp add: as list_all_iff)
  moreover have "int (length (ids_of a)) \<le> lp_RequestedCount (br_Plan r) - int (length (concat (map ids_of as)))"
    using attempts_ok_count [OF ok, of "length as"] attempts_ok_bound [OF ok, of a] final(2) by (auto simp: as terminal_def)
  ultimately show ?thesis using final(1) n len by (simp add: as)
qed

text \<open>C16.  Missing capacity is exact and never negative: it is offered only after the latest attempt, when every
  attempt is terminal, and it is the requested count less every instance any attempt ever returned, so a
  retry for it can not bring the batch above the requested count.\<close>

theorem missing_capacity_exact:
  assumes "MissingCapacity r after = Inr n"
  shows "after = ar_AttemptID (last (br_Attempts r)) \<and> list_all terminal (br_Attempts r)
    \<and> int (length (FulfilledIDs r)) + n = lp_RequestedCount (br_Plan r)
    \<and> length (FulfilledIDs r) = length (concat (map ids_of (br_Attempts r))) \<and> 0 \<le> n"
  by (rule MissingCapacity_spec [OF assms])

section \<open>An example receipt\<close>

definition ex_attempt_id :: string where
  "ex_attempt_id = EncodeToString (take 16 (Sum256 (attempt_seed ex_request [])))"

definition ex_attempt :: attempt_receipt where
  "ex_attempt = \<lparr>ar_AttemptID = ex_attempt_id, ar_ParentID = [], ar_ClientToken = attemptToken (Digest ex_plan) ex_attempt_id 3,
     ar_RequestedCount = 3, ar_CreatedAt = ex_created, ar_State = ''prepared'', ar_FleetID = [], ar_InstanceIDs = Some [],
     ar_Errors = Some []\<rparr>"

definition ex_complete :: attempt_receipt where
  "ex_complete = ex_attempt\<lparr>ar_State := ''complete'', ar_FleetID := ''fleet-01234567-0123-0123-0123-0123456789ab'',
     ar_InstanceIDs := Some [''i-01234567'', ''i-89abcdef'']\<rparr>"

definition ex_receipt :: "attempt_receipt list \<Rightarrow> batch_receipt" where
  "ex_receipt as = \<lparr>br_SchemaVersion = 3, br_RequestID = ex_request, br_Plan = ex_plan, br_PlanSHA256 = Digest ex_plan,
     br_Attempts = as\<rparr>"

lemma ex_attempt_id: "AttemptID ex_request [] = Inr ex_attempt_id" "ValidRequest ex_attempt_id"
  by (simp add: AttemptID_def ex_attempt_id_def) (simp add: ex_attempt_id_def ValidRequest_iff)

lemma ex_created_parses: "parse_rfc3339nano ex_created \<noteq> None"
  using ts.dec_enc [OF ex_times(1)] by (cases "parse_rfc3339nano ex_created") (simp_all add: ParseTimestamp_def)

lemma ex_receipt_valid:
  assumes "attempts_ok (ex_receipt as) [] [] [] as" "as \<noteq> []"
  shows "Receipt_Validate (ex_receipt as) = Inr ()"
  using assms ex_plan_expiry ex_team
  by (simp add: Receipt_Validate_def ex_receipt_def validBatchVersion_def supportedPlan_def batchVersion_def
      LaunchPlanSchema_def BatchReceiptSchema_def ex_plan_fields)

lemma ex_pinned: "ar_State a \<noteq> [] \<Longrightarrow> attempt_pinned (ex_receipt as) 0 [] (ex_attempt\<lparr>ar_State := s, ar_FleetID := f, ar_InstanceIDs := i\<rparr>)"
  using ex_created_parses by (simp add: attempt_pinned_def ex_receipt_def ex_attempt_def ex_attempt_id ex_plan_fields)

lemma ex_ids_match: "re_match instanceRE ''i-01234567''" "re_match instanceRE ''i-89abcdef''"
    "re_match fleetIDRE ''fleet-01234567-0123-0123-0123-0123456789ab''"
  by (simp_all add: grammar_eval fleetIDRE_def)

lemma ex_complete_ok: "Receipt_Validate (ex_receipt [ex_complete]) = Inr ()"
proof (rule ex_receipt_valid)
  have "attempt_pinned (ex_receipt [ex_complete]) 0 [] ex_complete"
    unfolding ex_complete_def by (rule ex_pinned [of ex_attempt]) (simp add: ex_attempt_def)
  then show "attempts_ok (ex_receipt [ex_complete]) [] [] [] [ex_complete]"
    using ex_ids_match by (simp add: attempt_state_ok_def states_def ids_of_def) (simp add: ex_complete_def ex_attempt_def)
qed simp

theorem receipt_lineage_witness:
  "Receipt_Validate (ex_receipt [ex_complete]) = Inr () \<and> map ar_AttemptID [ex_complete] = lineage ex_request [] 1"
  using receipt_lineage [OF ex_complete_ok] ex_complete_ok by (simp add: ex_receipt_def)

theorem missing_capacity_exact_witness:
  "MissingCapacity (ex_receipt [ex_complete]) ex_attempt_id = Inr 1 \<and> length (FulfilledIDs (ex_receipt [ex_complete])) = 2"
proof -
  have "length (FulfilledIDs (ex_receipt [ex_complete])) = 2"
    by (simp add: length_FulfilledIDs [OF ex_complete_ok]) (simp add: ex_receipt_def ids_of_def ex_complete_def)
  then have "MissingCapacity (ex_receipt [ex_complete]) ex_attempt_id = Inr 1"
    by (simp add: MissingCapacity_def ex_complete_ok ex_attempt_id)
      (simp add: ex_receipt_def ex_complete_def ex_attempt_def ex_plan_fields)
  with missing_capacity_exact [OF this] show ?thesis by (simp add: ex_receipt_def ex_plan_fields)
qed

end
