(* ===== verification/Workers.thy ===== *)
theory Workers
  imports BatchReceipt AwsTypes
begin

text \<open>
  The worker records of \<^verbatim>\<open>internal/lifecycle/inventory.go\<close> and \<^verbatim>\<open>batch_contract.go\<close>, their expiry
  diagnostics (\<^verbatim>\<open>expiry.go\<close>) and the worker a Fleet response stands for (\<open>fleetWorker\<close>).
\<close>

record inst_volume =
  iv_ID :: string
  iv_Device :: string
  iv_Root :: bool
  iv_DeleteOnTermination :: bool
  iv_Deletion :: string

record inst =
  in_ID :: string
  in_Name :: string
  in_RequestID :: string
  in_Profile :: string
  in_CreatedAt :: string
  in_Image :: string
  in_Type :: string
  in_Market :: string
  in_TemplateID :: string
  in_TemplateVersion :: string
  in_State :: string
  in_SSM :: string
  in_Bootstrap :: string
  in_Readiness :: string
  in_RootDeletion :: string
  in_Volumes :: "inst_volume list option"
  in_ObservationCode :: string
  in_ProbeCommandID :: string
  in_Group :: string
  in_BaseName :: string
  in_AttemptID :: string
  in_SubnetID :: string
  in_AvailabilityZone :: string
  in_HostKey :: string
  in_ExpiresAt :: string
  in_ExpiryStatus :: string
  in_expiryObserved :: bool
  in_clientToken :: string

record worker_outcome =
  wo_Instance :: inst
  wo_Status :: string

abbreviation wo_ID :: "worker_outcome \<Rightarrow> string" where
  "wo_ID w \<equiv> in_ID (wo_Instance w)"

definition zero_inst :: inst where
  "zero_inst = \<lparr>in_ID = [], in_Name = [], in_RequestID = [], in_Profile = [], in_CreatedAt = [], in_Image = [], in_Type = [],
     in_Market = [], in_TemplateID = [], in_TemplateVersion = [], in_State = [], in_SSM = [], in_Bootstrap = [],
     in_Readiness = [], in_RootDeletion = [], in_Volumes = None, in_ObservationCode = [], in_ProbeCommandID = [],
     in_Group = [], in_BaseName = [], in_AttemptID = [], in_SubnetID = [], in_AvailabilityZone = [], in_HostKey = [],
     in_ExpiresAt = [], in_ExpiryStatus = [], in_expiryObserved = False, in_clientToken = []\<rparr>"

text \<open>\<open>name, _ := WorkerName(\<dots>)\<close> leaves the empty name on an error.\<close>

definition worker_name :: "string \<Rightarrow> string \<Rightarrow> string" where
  "worker_name base i = (case WorkerName base i of Inl _ \<Rightarrow> [] | Inr n \<Rightarrow> n)"

definition fleetWorker :: "launch_plan \<Rightarrow> attempt_receipt \<Rightarrow> string \<Rightarrow> launch_choice \<Rightarrow> worker_outcome" where
  "fleetWorker plan attempt i choice =
     \<lparr>wo_Instance = zero_inst\<lparr>in_ID := i, in_Name := worker_name (lp_BaseName plan) i, in_RequestID := lp_RequestID plan,
        in_Profile := lp_Profile plan, in_CreatedAt := lp_CreatedAt plan, in_ExpiresAt := lp_ExpiresAt plan,
        in_Image := im_AMIID (lp_Image plan), in_Type := ch_InstanceType choice, in_Market := lp_Market plan,
        in_TemplateID := im_LaunchTemplateID (lp_Image plan), in_TemplateVersion := im_LaunchTemplateVersion (lp_Image plan),
        in_State := ''unknown'', in_SSM := ''not_observed'', in_Bootstrap := ''not_observed'', in_Readiness := ''not_observed'',
        in_RootDeletion := ''unavailable'', in_Volumes := Some [], in_Group := lp_Group plan, in_BaseName := lp_BaseName plan,
        in_AttemptID := ar_AttemptID attempt, in_SubnetID := ch_SubnetID choice,
        in_AvailabilityZone := ch_AvailabilityZone choice\<rparr>,
      wo_Status = ''not_observed''\<rparr>"

lemma fleetWorker_ID [simp]: "wo_ID (fleetWorker plan attempt i choice) = i"
  by (simp add: fleetWorker_def)

section \<open>Expiry diagnostics\<close>

definition setExpiryStatus :: "gotime \<Rightarrow> inst \<Rightarrow> inst" where
  "setExpiryStatus now i =
     (if in_ExpiresAt i = []
      then (if in_ExpiryStatus i = [] then i\<lparr>in_ExpiryStatus := ''missing''\<rparr> else i)
      else (case ParseTimestamp (in_ExpiresAt i) of
              Inl _ \<Rightarrow> i\<lparr>in_ExpiresAt := [], in_ExpiryStatus := ''invalid''\<rparr>
            | Inr deadline \<Rightarrow>
                i\<lparr>in_ExpiryStatus := (if now < deadline then ''future'' else ''expired'')\<rparr>))"

text \<open>The remaining reasons of \<open>InspectTags\<close> come with a value.\<close>

definition inspectInstanceExpiry :: "gotime \<Rightarrow> tag list \<Rightarrow> inst \<Rightarrow> inst" where
  "inspectInstanceExpiry now tags i =
     (let i = i\<lparr>in_expiryObserved := True, in_ExpiresAt := []\<rparr>; (v, reason) = InspectTags tags in
      case reason of
        ExpiryMissing \<Rightarrow> i\<lparr>in_ExpiryStatus := ''missing''\<rparr>
      | ExpiryDuplicate \<Rightarrow> i\<lparr>in_ExpiryStatus := ''duplicate''\<rparr>
      | ExpiryInvalid \<Rightarrow> i\<lparr>in_ExpiryStatus := ''invalid''\<rparr>
      | _ \<Rightarrow> setExpiryStatus now (i\<lparr>in_ExpiresAt := aws_to_string v\<rparr>))"

definition copyObservedExpiry :: "inst \<Rightarrow> inst \<Rightarrow> inst" where
  "copyObservedExpiry dst observed =
     (if in_ID dst = in_ID observed \<and> in_expiryObserved observed
      then dst\<lparr>in_ExpiresAt := in_ExpiresAt observed, in_ExpiryStatus := in_ExpiryStatus observed, in_expiryObserved := True\<rparr>
      else dst)"

definition retainObservedExpiry :: "inst \<Rightarrow> inst \<Rightarrow> inst" where
  "retainObservedExpiry current previous =
     (if \<not> in_expiryObserved current then copyObservedExpiry current previous else current)"

record public_instance =
  pi_Instance :: inst
  pi_ExpiresAt :: "string option"
  pi_ExpiryStatus :: string

definition ProjectInstance :: "inst \<Rightarrow> public_instance" where
  "ProjectInstance i =
     \<lparr>pi_Instance = i, pi_ExpiresAt = (if in_ExpiresAt i = [] then None else Some (in_ExpiresAt i)),
      pi_ExpiryStatus = (if in_ExpiryStatus i = [] then ''missing'' else in_ExpiryStatus i)\<rparr>"

end
