(* ===== verification/Fleet.thy ===== *)
theory Fleet
  imports Workers
begin

text \<open>
  \<^verbatim>\<open>internal/lifecycle/fleet.go\<close>: the pure mapping from a plan and an attempt to the EC2 Fleet
  request, and from the reply back to a receipt.  The SDK structs are records with the fields the code
  sets or reads.
\<close>

section \<open>The request\<close>

record fleet_override =
  fo_InstanceType :: string
  fo_SubnetId :: string
  fo_AvailabilityZone :: string
  fo_ImageId :: string
  fo_HttpTokensRequired :: bool
  fo_DeviceName :: string
  fo_VolumeSize :: int
  fo_VolumeType :: string
  fo_Encrypted :: bool
  fo_DeleteOnTermination :: bool

record fleet_input =
  fi_Type :: string
  fi_ClientToken :: string
  fi_TotalTargetCapacity :: int
  fi_SpotTargetCapacity :: int
  fi_OnDemandTargetCapacity :: int
  fi_DefaultTargetCapacityType :: string
  fi_SpotStrategy :: "string option"
  fi_OnDemandStrategy :: "string option"
  fi_LaunchTemplateId :: string
  fi_Version :: string
  fi_Overrides :: "fleet_override list"
  fi_TagSpecifications :: "(string \<times> string gomap) list"

definition validFleetResourceID :: "string \<Rightarrow> string \<Rightarrow> bool" where
  "validFleetResourceID val prefix \<longleftrightarrow> has_prefix val (prefix @ ''-'')
     \<and> list_ex (\<lambda>p. re_match (resource_idRE (p @ ''-'')) val) [''ami'', ''lt'', ''subnet'']"

definition launch_invalid :: "failure + 'a" where
  "launch_invalid = Inl (Failure ''launch_invalid'')"

definition canonical_version :: "string \<Rightarrow> bool" where
  "canonical_version s \<longleftrightarrow> (case ParseUint s of None \<Rightarrow> False | Some v \<Rightarrow> v \<noteq> 0 \<and> nat_str v = s)"

definition fleet_pins_ok :: "launch_plan \<Rightarrow> bool" where
  "fleet_pins_ok p \<longleftrightarrow> canonical_version (im_LaunchTemplateVersion (lp_Image p))
     \<and> validFleetResourceID (im_LaunchTemplateID (lp_Image p)) ''lt'' \<and> validFleetResourceID (im_AMIID (lp_Image p)) ''ami''
     \<and> im_RootDeviceName (lp_Image p) = ''/dev/sda1'' \<and> elems (lp_Choices p) \<noteq> []"

definition fleet_attempt_ok :: "launch_plan \<Rightarrow> attempt_receipt \<Rightarrow> bool" where
  "fleet_attempt_ok p a \<longleftrightarrow> validatePlanExpiry p = Inr () \<and> ValidRequest (lp_RequestID p) \<and> ValidRequest (ar_AttemptID a)
     \<and> \<not> ar_RequestedCount a < 1 \<and> \<not> ar_RequestedCount a > lp_RequestedCount p \<and> \<not> lp_RequestedCount p > HardMaxCount
     \<and> ar_ClientToken a = attemptToken (Digest p) (ar_AttemptID a) (ar_RequestedCount a)"

definition fleet_disk_ok :: "launch_plan \<Rightarrow> bool" where
  "fleet_disk_ok p \<longleftrightarrow> \<not> rd_SizeGB (lp_RootDisk p) < 8 \<and> \<not> rd_SizeGB (lp_RootDisk p) > 16384
     \<and> \<not> rd_SizeGB (lp_RootDisk p) < im_MinimumRootDiskGB (lp_Image p) \<and> rd_Type (lp_RootDisk p) = ''gp3''
     \<and> rd_Encrypted (lp_RootDisk p) \<and> rd_DeleteOnTermination (lp_RootDisk p)"

definition want_tags :: "launch_plan \<Rightarrow> attempt_receipt \<Rightarrow> string gomap" where
  "want_tags p a =
     (let base = fold (\<lambda>(k, v). map_put k v)
        [(''ManagedBy'', ''devbox''), (''Deployment'', lp_Deployment p), (''Owner'', lp_Owner p), (''Profile'', lp_Profile p),
         (''Name'', lp_BaseName p), (''BaseName'', lp_BaseName p), (''RequestId'', lp_RequestID p), (''BatchId'', lp_RequestID p),
         (''CreatedAt'', lp_CreatedAt p), (''NamingVersion'', ''1''), (''AttemptId'', ar_AttemptID a)] [];
      dated = (if lp_SchemaVersion p = 2 then map_put ''ExpiresAt'' (lp_ExpiresAt p) base else base)
      in if lp_Group p \<noteq> [] then map_put ''Group'' (lp_Group p) dated else dated)"

definition fleet_labels_ok :: "launch_plan \<Rightarrow> attempt_receipt \<Rightarrow> bool" where
  "fleet_labels_ok p a \<longleftrightarrow> ValidName (lp_BaseName p) \<and> lp_Profile p = ''agent'' \<and> re_match labelRE (lp_Deployment p)
     \<and> re_match labelRE (lp_Owner p) \<and> (lp_Group p \<noteq> [] \<longrightarrow> ValidGroup (lp_Group p))
     \<and> parse_rfc3339nano (lp_CreatedAt p) \<noteq> None \<and> parse_rfc3339nano (ar_CreatedAt a) \<noteq> None"

definition fleetTypeRE :: rexp where
  "fleetTypeRE = typeRE"

definition fleet_zones :: "string list" where
  "fleet_zones = [''us-east-2a'', ''us-east-2b'', ''us-east-2c'']"

definition override :: "launch_plan \<Rightarrow> launch_choice \<Rightarrow> fleet_override" where
  "override p c =
     \<lparr>fo_InstanceType = ch_InstanceType c, fo_SubnetId = ch_SubnetID c, fo_AvailabilityZone = ch_AvailabilityZone c,
      fo_ImageId = im_AMIID (lp_Image p), fo_HttpTokensRequired = True, fo_DeviceName = im_RootDeviceName (lp_Image p),
      fo_VolumeSize = rd_SizeGB (lp_RootDisk p), fo_VolumeType = ''gp3'', fo_Encrypted = True, fo_DeleteOnTermination = True\<rparr>"

text \<open>The loop over the sorted choices: those seen, and the one subnet of each zone seen.\<close>

fun choice_loop :: "launch_plan \<Rightarrow> string \<Rightarrow> launch_choice list \<Rightarrow> string gomap \<Rightarrow> launch_choice list \<Rightarrow> fleet_override list option" where
  "choice_loop p t seen zones [] = Some []"
| "choice_loop p t seen zones (c # cs) =
     (if \<not> re_match fleetTypeRE (ch_InstanceType c) \<or> \<not> validFleetResourceID (ch_SubnetID c) ''subnet''
         \<or> ch_AvailabilityZone c \<notin> set fleet_zones \<or> c \<in> set seen
         \<or> (lookup [] zones (ch_AvailabilityZone c) \<noteq> [] \<and> lookup [] zones (ch_AvailabilityZone c) \<noteq> ch_SubnetID c)
         \<or> (lp_Market p = ''on-demand'' \<and> ch_InstanceType c \<noteq> t)
      then None
      else map_option ((#) (override p c))
             (choice_loop p t (c # seen) (map_put (ch_AvailabilityZone c) (ch_SubnetID c) zones) cs))"

text \<open>Counts are at most 100 and sizes at most 16384, so the conversions to \<open>int32\<close> keep them.\<close>

definition BuildFleetInput :: "launch_plan \<Rightarrow> attempt_receipt \<Rightarrow> failure + fleet_input" where
  "BuildFleetInput p a =
     (if \<not> fleet_pins_ok p then launch_invalid
      else if \<not> fleet_attempt_ok p a then launch_invalid
      else if AttemptID (lp_RequestID p) (ar_ParentID a) \<noteq> Inr (ar_AttemptID a) \<or> \<not> fleet_disk_ok p then launch_invalid
      else (case AttemptTags p (ar_AttemptID a) of
              Inl e \<Rightarrow> Inl e
            | Inr tags \<Rightarrow>
                if tags \<noteq> want_tags p a \<or> \<not> fleet_labels_ok p a then launch_invalid
                else if lp_Market p \<noteq> ''spot'' \<and> lp_Market p \<noteq> ''on-demand'' then launch_invalid
                else let spot = lp_Market p = ''spot''; n = ar_RequestedCount a;
                         choices = sort_key choice_key (elems (lp_Choices p)) in
                  (case choice_loop p (ch_InstanceType (hd choices)) [] [] choices of
                     None \<Rightarrow> launch_invalid
                   | Some overrides \<Rightarrow>
                       Inr \<lparr>fi_Type = ''instant'', fi_ClientToken = ar_ClientToken a, fi_TotalTargetCapacity = n,
                            fi_SpotTargetCapacity = (if spot then n else 0), fi_OnDemandTargetCapacity = (if spot then 0 else n),
                            fi_DefaultTargetCapacityType = (if spot then ''spot'' else ''on-demand''),
                            fi_SpotStrategy = (if spot then Some ''price-capacity-optimized'' else None),
                            fi_OnDemandStrategy = (if spot then None else Some ''lowest-price''),
                            fi_LaunchTemplateId = im_LaunchTemplateID (lp_Image p),
                            fi_Version = im_LaunchTemplateVersion (lp_Image p), fi_Overrides = overrides,
                            fi_TagSpecifications = map (\<lambda>r. (r, tags)) [''fleet'', ''instance'', ''volume'']\<rparr>)))"

section \<open>The reply\<close>

text \<open>\<open>or_InstanceRequirements\<close> and \<open>or_OtherWeight\<close>: the field is present; present and not 1.\<close>

record override_reply =
  or_InstanceType :: string
  or_SubnetId :: "string option"
  or_AvailabilityZone :: "string option"
  or_ImageId :: "string option"
  or_InstanceRequirements :: bool
  or_OtherWeight :: bool

record launch_reply =
  lr_Specification :: "(string option \<times> string option) option"
  lr_Overrides :: "override_reply option"

record fleet_group =
  fg_InstanceType :: string
  fg_SubnetId :: "string option"
  fg_AvailabilityZone :: "string option"
  fg_Launch :: "launch_reply option"
  fg_Lifecycle :: string
  fg_Platform :: string
  fg_InstanceIds :: "string list"

record fleet_error =
  fe_ErrorCode :: "string option"
  fe_Launch :: "launch_reply option"
  fe_Lifecycle :: string

record fleet_output =
  ft_FleetId :: "string option"
  ft_Instances :: "fleet_group list option"
  ft_Errors :: "fleet_error list"

definition plain_error :: "string \<Rightarrow> string \<Rightarrow> resource_error" where
  "plain_error code message =
     \<lparr>re_ResourceID = [], re_InstanceType = [], re_SubnetID = [], re_Code = code, re_Message = message\<rparr>"

text \<open>The allowlisted diagnostics, and whether the code alone proves that nothing was allocated.\<close>

definition fleetDiagnostic :: "string \<Rightarrow> resource_error \<times> bool" where
  "fleetDiagnostic code =
     (if code \<in> set [''UnauthorizedOperation'', ''AuthFailure'', ''AccessDenied'', ''AccessDeniedException'']
      then (plain_error ''launch_permission_denied'' ''EC2 denied allocation; check the restricted operator policy, launch tags and pinned dependencies.'', True)
      else if code \<in> set [''InsufficientInstanceCapacity'', ''InsufficientHostCapacity'', ''UnfulfillableCapacity'']
      then (plain_error ''capacity_unavailable'' ''EC2 could not supply the selected capacity; retain successful workers and retry only proven missing capacity.'', True)
      else if code \<in> set [''MaxSpotInstanceCountExceeded'', ''SpotInstanceCountLimitExceeded'', ''InstanceLimitExceeded'', ''VcpuLimitExceeded'', ''MaxFleetCountExceeded'']
      then (plain_error ''launch_quota_exceeded'' ''EC2 reported a capacity quota limit; check the account's EC2 quotas before retrying proven missing capacity.'', True)
      else if code \<in> set [''InvalidParameter'', ''InvalidParameterValue'', ''InvalidParameterCombination'', ''MissingParameter'', ''Unsupported'', ''UnsupportedOperation'']
      then (plain_error ''launch_parameters_rejected'' ''EC2 rejected the pinned launch parameters; verify and re-export the foundation before authorizing another request.'', True)
      else if code = ''PendingVerification''
      then (plain_error ''launch_pending_verification'' ''EC2 requires account verification; wait for AWS confirmation and resume this request before requesting more capacity.'', True)
      else if code \<in> set [''RequestLimitExceeded'', ''Throttling'', ''ThrottlingException'', ''RequestThrottled'']
      then (plain_error ''launch_throttled'' ''EC2 throttled the request; preserve this request identity and resume to reconcile allocation.'', False)
      else if code = ''IdempotentParameterMismatch''
      then (plain_error ''launch_identity_conflict'' ''EC2 reported conflicting parameters for this identity; reconcile the original request without allocating.'', False)
      else (plain_error ''launch_outcome_unknown'' ''EC2 did not provide a recognized allocation outcome; preserve all known identities and resume without allocating.'', False))"

definition pool_error :: resource_error where
  "pool_error = plain_error ''fleet_pool_error'' ''EC2 reported an unrecognized pool error; retain successful workers and inspect the verified allocation outcome before retrying.''"

definition incomplete_error :: resource_error where
  "incomplete_error = plain_error ''fleet_response_incomplete'' ''The Fleet response does not bound allocation; preserve all known identities and resume without allocating.''"

definition conflict_error :: "string \<Rightarrow> resource_error" where
  "conflict_error fleet = (plain_error ''fleet_response_conflict'' ''The response reports a different Fleet identity; preserve both identities and resume without allocating.'')\<lparr>re_ResourceID := fleet\<rparr>"

text \<open>\<open>merge\<close>: fill an empty field, and note a conflict.\<close>

definition merge :: "string \<Rightarrow> string \<Rightarrow> string \<times> bool" where
  "merge current reported =
     (if current = [] then reported else current, \<not> (current \<noteq> [] \<and> reported \<noteq> [] \<and> current \<noteq> reported))"

definition launch_spec_ok :: "launch_plan \<Rightarrow> launch_reply \<Rightarrow> bool" where
  "launch_spec_ok p l =
     (case lr_Specification l of None \<Rightarrow> True
      | Some (template, version) \<Rightarrow>
          aws_to_string template = im_LaunchTemplateID (lp_Image p) \<and> aws_to_string version = im_LaunchTemplateVersion (lp_Image p))"

definition override_ok :: "launch_plan \<Rightarrow> override_reply \<Rightarrow> bool" where
  "override_ok p r \<longleftrightarrow> \<not> ((or_ImageId r \<noteq> None \<and> aws_to_string (or_ImageId r) \<noteq> im_AMIID (lp_Image p))
     \<or> or_InstanceRequirements r \<or> or_OtherWeight r)"

definition reported_pool :: "launch_plan \<Rightarrow> string \<Rightarrow> string \<Rightarrow> string \<Rightarrow> launch_reply option \<Rightarrow> (string \<times> string \<times> string) \<times> bool" where
  "reported_pool p t subnet zone launch =
     (case launch of None \<Rightarrow> ((t, subnet, zone), True)
      | Some l \<Rightarrow>
          (case lr_Overrides l of None \<Rightarrow> ((t, subnet, zone), launch_spec_ok p l)
           | Some r \<Rightarrow>
               let (t', a) = merge t (or_InstanceType r); (s', b) = merge subnet (aws_to_string (or_SubnetId r));
                   (z', c) = merge zone (aws_to_string (or_AvailabilityZone r))
               in ((t', s', z'), launch_spec_ok p l \<and> a \<and> b \<and> c \<and> override_ok p r)))"

definition fleetResponsePool :: "launch_plan \<Rightarrow> string \<Rightarrow> string \<Rightarrow> string \<Rightarrow> launch_reply option \<Rightarrow> launch_choice \<times> bool" where
  "fleetResponsePool p t subnet zone launch =
     (case reported_pool p t subnet zone launch of
        ((t, s, z), valid) \<Rightarrow>
          (case find (\<lambda>c. ch_InstanceType c = t \<and> ch_SubnetID c = s \<and> (z = [] \<or> ch_AvailabilityZone c = z)) (elems (lp_Choices p)) of
             Some c \<Rightarrow> (c, valid)
           | None \<Rightarrow> (zero_choice, False)))"

text \<open>What the code records of the reply's own Fleet identity: the identity kept, whether the reply is
  consistent with it, and the diagnostic of a conflict.\<close>

definition fleet_identity :: "string \<Rightarrow> string \<Rightarrow> string \<times> bool \<times> resource_error list" where
  "fleet_identity known reported =
     (if \<not> re_match fleetIDRE reported then (known, False, [])
      else if known \<noteq> [] \<and> known \<noteq> reported then (known, False, [conflict_error reported])
      else (reported, True, []))"

text \<open>The state of the loops: still valid, the identities of the reply, newest first, and the workers by
  identity.\<close>

type_synonym reply_state = "bool \<times> string list \<times> worker_outcome gomap"

fun group_ids :: "launch_plan \<Rightarrow> attempt_receipt \<Rightarrow> launch_choice \<Rightarrow> string list \<Rightarrow> reply_state \<Rightarrow> reply_state" where
  "group_ids p a c [] st = st"
| "group_ids p a c (i # is) (valid, seen, ws) =
     (if \<not> re_match instanceRE i then group_ids p a c is (False, seen, ws)
      else if i \<in> set seen then group_ids p a c is (False, seen, ws)
      else group_ids p a c is (valid, i # seen, map_put i (fleetWorker p a i c) ws))"

fun fleet_groups :: "launch_plan \<Rightarrow> attempt_receipt \<Rightarrow> fleet_group list \<Rightarrow> reply_state \<Rightarrow> reply_state" where
  "fleet_groups p a [] st = st"
| "fleet_groups p a (g # gs) (valid, seen, ws) =
     (let (choice, poolOK) = fleetResponsePool p (fg_InstanceType g) (aws_to_string (fg_SubnetId g))
                               (aws_to_string (fg_AvailabilityZone g)) (fg_Launch g);
          ok = poolOK \<and> fg_Lifecycle g = lp_Market p \<and> fg_Platform g = [] \<and> fg_InstanceIds g \<noteq> []
      in fleet_groups p a gs (group_ids p a choice (fg_InstanceIds g) (valid \<and> ok, seen, ws)))"

definition pool_diagnostic :: "launch_plan \<Rightarrow> fleet_error \<Rightarrow> resource_error \<times> bool" where
  "pool_diagnostic p e =
     (let (choice, poolOK) = fleetResponsePool p [] [] [] (fe_Launch e);
          known = fst (fleetDiagnostic (aws_to_string (fe_ErrorCode e)));
          diagnostic = (if re_Code known = ''launch_outcome_unknown'' then pool_error else known)
      in (diagnostic\<lparr>re_InstanceType := ch_InstanceType choice, re_SubnetID := ch_SubnetID choice\<rparr>,
          poolOK \<and> fe_Lifecycle e = lp_Market p \<and> aws_to_string (fe_ErrorCode e) \<noteq> []))"

definition known_workers :: "launch_plan \<Rightarrow> attempt_receipt \<Rightarrow> worker_outcome gomap" where
  "known_workers p a = fold (\<lambda>i ws. if re_match instanceRE i then map_put i (fleetWorker p a i zero_choice) ws else ws) (ids_of a) []"

text \<open>The part of the code under \<open>out != nil\<close>: the Fleet identity, the diagnostics it adds, whether the
  reply bounds the allocation, and the workers.\<close>

definition read_output :: "launch_plan \<Rightarrow> attempt_receipt \<Rightarrow> fleet_output \<Rightarrow> string \<times> resource_error list \<times> bool \<times> worker_outcome gomap" where
  "read_output p a out =
     (let (fleet, same, conflicts) = fleet_identity (ar_FleetID a) (aws_to_string (ft_FleetId out));
          (valid, seen, ws) = fleet_groups p a (elems (ft_Instances out)) (ft_Instances out \<noteq> None, [], known_workers p a);
          pools = map (pool_diagnostic p) (ft_Errors out);
          short = int (length seen) < ar_RequestedCount a \<and> ft_Errors out = []
      in (fleet, conflicts @ map fst pools,
          same \<and> valid \<and> list_all snd pools \<and> \<not> short \<and> \<not> int (length seen) > ar_RequestedCount a
            \<and> set (ids_of a) \<subseteq> set seen, ws))"

definition error_code :: "aws_error \<Rightarrow> string" where
  "error_code err = (case err of APIError c \<Rightarrow> c | OtherError \<Rightarrow> [])"

definition reply_reading :: "launch_plan \<Rightarrow> attempt_receipt \<Rightarrow> fleet_output option \<Rightarrow> string \<times> resource_error list \<times> bool \<times> worker_outcome gomap" where
  "reply_reading p a out = (case out of None \<Rightarrow> (ar_FleetID a, [], False, known_workers p a) | Some ot \<Rightarrow> read_output p a ot)"

definition NormalizeFleetResponse :: "launch_plan \<Rightarrow> attempt_receipt \<Rightarrow> fleet_output option \<Rightarrow> aws_error option
    \<Rightarrow> attempt_receipt \<times> worker_outcome list" where
  "NormalizeFleetResponse p a out callErr =
     (let (fleet, added, bounded, ws) = reply_reading p a out;
          ids = map fst ws;
          (state, final) =
            (if bounded \<and> callErr = None then (''complete'', [])
             else case callErr of
               Some err \<Rightarrow>
                 (let (diagnostic, rejected) = fleetDiagnostic (error_code err)
                  in (if rejected \<and> out = None \<and> fleet = [] \<and> ids = [] then ''rejected'' else ''unknown'', [diagnostic]))
             | None \<Rightarrow> (''unknown'', [incomplete_error]))
      in (a\<lparr>ar_State := state, ar_FleetID := fleet, ar_InstanceIDs := Some ids,
            ar_Errors := Some (elems (ar_Errors a) @ added @ final)\<rparr>, map snd ws))"

section \<open>What the reply is turned into\<close>

text \<open>The loops keep the workers keyed by their own identity, and add exactly the valid identities.\<close>

definition worker_map_ok :: "worker_outcome gomap \<Rightarrow> bool" where
  "worker_map_ok ws \<longleftrightarrow> map_ok ws \<and> list_all (\<lambda>(i, w). wo_ID w = i \<and> re_match instanceRE i) ws"

lemma set_map_put: "set (map_put k v m) \<subseteq> insert (k, v) (set m)"
  by (induction k v m rule: map_put.induct) auto

lemma worker_map_ok_put:
  "worker_map_ok ws \<Longrightarrow> re_match instanceRE i \<Longrightarrow> wo_ID w = i \<Longrightarrow> worker_map_ok (map_put i w ws)"
  unfolding worker_map_ok_def list_all_iff using set_map_put [of i w ws] by auto

text \<open>The identities of a reply are exactly the valid ones it names; a loop never loses a worker, and a
  flag once lost stays lost.\<close>

definition worker_ids :: "worker_outcome gomap \<Rightarrow> string set" where
  "worker_ids ws = set (map fst ws)"

lemma worker_ids_put: "worker_ids (map_put i w ws) = insert i (worker_ids ws)"
  using set_fst_put [of i w ws] by (simp add: worker_ids_def)

definition reply_ok :: "reply_state \<Rightarrow> bool" where
  "reply_ok st \<longleftrightarrow> (case st of (valid, seen, ws) \<Rightarrow>
     worker_map_ok ws \<and> distinct seen \<and> set seen \<subseteq> worker_ids ws)"

definition reply_step :: "string list \<Rightarrow> reply_state \<Rightarrow> reply_state \<Rightarrow> bool" where
  "reply_step reported st st' \<longleftrightarrow> (case (st, st') of ((valid, seen, ws), (valid', seen', ws')) \<Rightarrow>
     set seen' = set seen \<union> {i \<in> set reported. re_match instanceRE i}
     \<and> worker_ids ws' = worker_ids ws \<union> {i \<in> set reported. re_match instanceRE i}
     \<and> (valid' \<longrightarrow> valid \<and> list_all (re_match instanceRE) reported))"

lemma group_ids_spec:
  "reply_ok st \<Longrightarrow> reply_ok (group_ids p a c is st) \<and> reply_step is st (group_ids p a c is st)"
proof (induction p a c "is" st rule: group_ids.induct)
  case (1 p a c st)
  then show ?case by (cases st) (simp add: reply_step_def)
next
  case (2 p a c i "is" valid seen ws)
  let ?w = "fleetWorker p a i c"
  have put: "reply_ok (valid, i # seen, map_put i ?w ws)" if "re_match instanceRE i" "i \<notin> set seen"
    using 2(4) that worker_map_ok_put [of ws i ?w] worker_ids_put [of i ?w ws] by (auto simp: reply_ok_def)
  have drop: "reply_ok (False, seen, ws)" using 2(4) by (simp add: reply_ok_def)
  have known: "i \<in> worker_ids ws" if "i \<in> set seen" using 2(4) that by (auto simp: reply_ok_def)
  show ?case
  proof (cases "re_match instanceRE i \<and> i \<notin> set seen")
    case True
    with 2(3) put show ?thesis using worker_ids_put [of i ?w ws] by (auto simp: reply_step_def split: prod.splits)
  next
    case False
    with 2(1,2) drop known show ?thesis by (auto simp: reply_step_def split: prod.splits)
  qed
qed

lemma fleet_groups_spec:
  "reply_ok st \<Longrightarrow> reply_ok (fleet_groups p a gs st) \<and> reply_step (concat (map fg_InstanceIds gs)) st (fleet_groups p a gs st)"
proof (induction p a gs st rule: fleet_groups.induct)
  case (1 p a st)
  then show ?case by (cases st) (simp add: reply_step_def)
next
  case (2 p a g gs valid seen ws)
  obtain choice poolOK where pool: "fleetResponsePool p (fg_InstanceType g) (aws_to_string (fg_SubnetId g))
      (aws_to_string (fg_AvailabilityZone g)) (fg_Launch g) = (choice, poolOK)" by fastforce
  define ok where "ok = (valid \<and> poolOK \<and> fg_Lifecycle g = lp_Market p \<and> fg_Platform g = [] \<and> fg_InstanceIds g \<noteq> [])"
  let ?st = "group_ids p a choice (fg_InstanceIds g) (ok, seen, ws)"
  have st: "reply_ok ?st" "reply_step (fg_InstanceIds g) (ok, seen, ws) ?st"
    using group_ids_spec [of "(ok, seen, ws)"] 2(2) by (auto simp: reply_ok_def)
  have eq: "fleet_groups p a (g # gs) (valid, seen, ws) = fleet_groups p a gs ?st" by (simp add: pool ok_def)
  have "reply_ok (fleet_groups p a gs ?st) \<and> reply_step (concat (map fg_InstanceIds gs)) ?st (fleet_groups p a gs ?st)"
    using 2(1) [OF pool [symmetric] refl refl] st(1) by (simp add: ok_def)
  with st(2) show ?case unfolding eq by (auto simp: reply_step_def ok_def split: prod.splits)
qed

lemma known_workers_spec:
  "worker_map_ok (known_workers p a)" "worker_ids (known_workers p a) = {i \<in> set (ids_of a). re_match instanceRE i}"
proof -
  have "worker_map_ok (fold (\<lambda>i ws. if re_match instanceRE i then map_put i (fleetWorker p a i zero_choice) ws else ws) is ws)
      \<and> worker_ids ((fold (\<lambda>i ws. if re_match instanceRE i then map_put i (fleetWorker p a i zero_choice) ws else ws) is ws))
          = worker_ids ws \<union> {i \<in> set is. re_match instanceRE i}" if "worker_map_ok ws" for "is" ws
    using that
  proof (induction "is" arbitrary: ws)
    case (Cons i "is")
    then show ?case using worker_map_ok_put [of ws i "fleetWorker p a i zero_choice"] worker_ids_put [of i _ ws] by auto
  qed simp
  from this [of "[]" "ids_of a"]
  show "worker_map_ok (known_workers p a)" "worker_ids (known_workers p a) = {i \<in> set (ids_of a). re_match instanceRE i}"
    by (simp_all add: known_workers_def worker_map_ok_def worker_ids_def)
qed

definition reported_ids :: "fleet_output \<Rightarrow> string list" where
  "reported_ids out = concat (map fg_InstanceIds (elems (ft_Instances out)))"

text \<open>What \<open>read_output\<close> gives.\<close>

lemma read_output_spec:
  assumes "read_output p a out = (fleet, added, bounded, ws)"
  shows "worker_map_ok ws"
    "worker_ids ws = {i \<in> set (ids_of a) \<union> set (reported_ids out). re_match instanceRE i}"
    "bounded \<Longrightarrow> fleet = aws_to_string (ft_FleetId out) \<and> re_match fleetIDRE fleet \<and> (ar_FleetID a \<noteq> [] \<longrightarrow> ar_FleetID a = fleet)
       \<and> ft_Instances out \<noteq> None \<and> int (length ws) \<le> ar_RequestedCount a
       \<and> (int (length ws) < ar_RequestedCount a \<longrightarrow> ft_Errors out \<noteq> [])
       \<and> worker_ids ws = set (reported_ids out) \<and> set (ids_of a) \<subseteq> set (reported_ids out)"
    "fleet = ar_FleetID a \<or> re_match fleetIDRE fleet"
proof -
  obtain same conflicts where id: "fleet_identity (ar_FleetID a) (aws_to_string (ft_FleetId out)) = (fleet, same, conflicts)"
    using assms by (auto simp: read_output_def Let_def split: prod.splits)
  obtain valid seen where st: "fleet_groups p a (elems (ft_Instances out)) (ft_Instances out \<noteq> None, [], known_workers p a) = (valid, seen, ws)"
    using assms by (auto simp: read_output_def Let_def split: prod.splits)
  have b: "bounded \<longleftrightarrow> same \<and> valid \<and> list_all snd (map (pool_diagnostic p) (ft_Errors out))
      \<and> \<not> (int (length seen) < ar_RequestedCount a \<and> ft_Errors out = []) \<and> \<not> int (length seen) > ar_RequestedCount a
      \<and> set (ids_of a) \<subseteq> set seen"
    using assms by (auto simp: read_output_def id st Let_def simp del: not_None_eq)
  have "reply_ok (ft_Instances out \<noteq> None, [], known_workers p a)" using known_workers_spec by (simp add: reply_ok_def)
  from fleet_groups_spec [OF this, of p a "elems (ft_Instances out)"]
  have ok: "reply_ok (valid, seen, ws)"
    and ids: "set seen = {i \<in> set (reported_ids out). re_match instanceRE i}"
      "worker_ids ws = {i \<in> set (ids_of a) \<union> set (reported_ids out). re_match instanceRE i}"
      "valid \<Longrightarrow> ft_Instances out \<noteq> None \<and> list_all (re_match instanceRE) (reported_ids out)"
    using known_workers_spec(2) [of p a] by (auto simp: reply_step_def st reported_ids_def simp del: not_None_eq)
  show "worker_map_ok ws" "worker_ids ws = {i \<in> set (ids_of a) \<union> set (reported_ids out). re_match instanceRE i}"
    using ok ids(2) by (simp_all add: reply_ok_def)
  show "fleet = ar_FleetID a \<or> re_match fleetIDRE fleet" using id by (auto simp: fleet_identity_def split: if_splits)
  assume bounded
  then have B: same valid "set (ids_of a) \<subseteq> set seen" "\<not> int (length seen) > ar_RequestedCount a"
    "\<not> (int (length seen) < ar_RequestedCount a \<and> ft_Errors out = [])" by (auto simp: b)
  have "set seen = set (reported_ids out)" using ids(1,3) B(2) by (auto simp: list_all_iff)
  moreover from this have "worker_ids ws = set (reported_ids out)" using ids B(3) by auto
  moreover have "length ws = length seen"
  proof -
    have "distinct (map fst ws)" "distinct seen" using ok by (auto simp: reply_ok_def worker_map_ok_def map_ok_def strict_sorted_iff)
    then have "length (map fst ws) = length seen"
      using calculation by (simp only: distinct_card [symmetric] worker_ids_def)
    then show ?thesis by simp
  qed
  moreover have "fleet = aws_to_string (ft_FleetId out) \<and> re_match fleetIDRE fleet \<and> (ar_FleetID a \<noteq> [] \<longrightarrow> ar_FleetID a = fleet)"
    using id B(1) by (auto simp: fleet_identity_def split: if_splits)
  ultimately show "fleet = aws_to_string (ft_FleetId out) \<and> re_match fleetIDRE fleet \<and> (ar_FleetID a \<noteq> [] \<longrightarrow> ar_FleetID a = fleet)
       \<and> ft_Instances out \<noteq> None \<and> int (length ws) \<le> ar_RequestedCount a
       \<and> (int (length ws) < ar_RequestedCount a \<longrightarrow> ft_Errors out \<noteq> [])
       \<and> worker_ids ws = set (reported_ids out) \<and> set (ids_of a) \<subseteq> set (reported_ids out)"
    using ids B by auto
qed

lemma reply_reading_spec:
  assumes "reply_reading p a out = (fleet, added, bounded, ws)"
  shows "worker_map_ok ws"
    "worker_ids ws = {i. re_match instanceRE i \<and> i \<in> set (ids_of a) \<union> set (concat (map reported_ids (case out of None \<Rightarrow> [] | Some ot \<Rightarrow> [ot])))}"
    "out = None \<Longrightarrow> \<not> bounded \<and> fleet = ar_FleetID a"
proof -
  have "worker_map_ok ws \<and> worker_ids ws = {i. re_match instanceRE i \<and> i \<in> set (ids_of a) \<union> set (concat (map reported_ids (case out of None \<Rightarrow> [] | Some ot \<Rightarrow> [ot])))}
    \<and> (out = None \<longrightarrow> \<not> bounded \<and> fleet = ar_FleetID a)"
  proof (cases out)
    case None
    then show ?thesis using assms known_workers_spec [of p a] by (auto simp: reply_reading_def)
  next
    case (Some ot)
    with assms have "read_output p a ot = (fleet, added, bounded, ws)" by (simp add: reply_reading_def)
    from read_output_spec(1,2) [OF this] show ?thesis by (auto simp: Some)
  qed
  then show "worker_map_ok ws"
    "worker_ids ws = {i. re_match instanceRE i \<and> i \<in> set (ids_of a) \<union> set (concat (map reported_ids (case out of None \<Rightarrow> [] | Some ot \<Rightarrow> [ot])))}"
    "out = None \<Longrightarrow> \<not> bounded \<and> fleet = ar_FleetID a" by blast+
qed

text \<open>The parts of the result, over what was read.\<close>

lemma NormalizeFleetResponse_read:
  assumes "reply_reading p a out = (fleet, added, bounded, ws)"
  shows "snd (NormalizeFleetResponse p a out err) = map snd ws"
    "ar_InstanceIDs (fst (NormalizeFleetResponse p a out err)) = Some (map fst ws)"
    "ar_FleetID (fst (NormalizeFleetResponse p a out err)) = fleet"
  by (simp_all add: NormalizeFleetResponse_def assms Let_def split: prod.splits)

lemma NormalizeFleetResponse_pins [simp]:
  "ar_AttemptID (fst (NormalizeFleetResponse p a out err)) = ar_AttemptID a"
  "ar_ParentID (fst (NormalizeFleetResponse p a out err)) = ar_ParentID a"
  "ar_ClientToken (fst (NormalizeFleetResponse p a out err)) = ar_ClientToken a"
  "ar_RequestedCount (fst (NormalizeFleetResponse p a out err)) = ar_RequestedCount a"
  "ar_CreatedAt (fst (NormalizeFleetResponse p a out err)) = ar_CreatedAt a"
  by (simp_all add: NormalizeFleetResponse_def Let_def split: prod.splits)

lemma NormalizeFleetResponse_state:
  assumes "reply_reading p a out = (fleet, added, bounded, ws)"
  shows "ar_State (fst (NormalizeFleetResponse p a out err)) =
    (if bounded \<and> err = None then ''complete''
     else if \<exists>e. err = Some e \<and> snd (fleetDiagnostic (error_code e)) \<and> out = None \<and> fleet = [] \<and> ws = [] then ''rejected''
     else ''unknown'')"
  using reply_reading_spec(3) [OF assms] by (cases err; cases bounded) (simp_all add: NormalizeFleetResponse_def assms Let_def split: prod.splits)

text \<open>C17.  No known machine is lost: whatever the reply, the identities of the new receipt are in ascending order
  without repetition, one per returned worker, and they are exactly the well-formed identities that the
  receipt or the reply names.\<close>

theorem no_identity_lost:
  shows "ids_of (fst (NormalizeFleetResponse p a out err)) = map wo_ID (snd (NormalizeFleetResponse p a out err))
    \<and> sorted_wrt (<) (ids_of (fst (NormalizeFleetResponse p a out err)))
    \<and> set (ids_of (fst (NormalizeFleetResponse p a out err)))
        = {i. re_match instanceRE i \<and> i \<in> set (ids_of a) \<union> set (concat (map reported_ids (case out of None \<Rightarrow> [] | Some ot \<Rightarrow> [ot])))}"
proof -
  obtain fleet added bounded ws where r: "reply_reading p a out = (fleet, added, bounded, ws)" by (metis prod_cases4)
  note ws = reply_reading_spec(1,2) [OF r]
  have "map fst ws = map wo_ID (map snd ws)" using ws(1) by (auto simp: worker_map_ok_def list_all_iff)
  moreover have "sorted_wrt (<) (map fst ws)" using ws(1) by (simp add: worker_map_ok_def map_ok_def)
  ultimately show ?thesis
    using ws(2) by (simp only: NormalizeFleetResponse_read [OF r] ids_of_def elems_simps worker_ids_def)
qed

text \<open>C18.  A receipt becomes \<^verbatim>\<open>complete\<close> only on a reply that bounds the allocation: no error, the Fleet identity of
  the reply well formed and not in conflict, every identity known before named again, no more machines than
  requested, and fewer only with errors that account for the rest.\<close>

theorem complete_bounds_allocation:
  assumes "ar_State (fst (NormalizeFleetResponse p a (Some out) err)) = ''complete''"
  shows "err = None \<and> re_match fleetIDRE (aws_to_string (ft_FleetId out))
    \<and> ar_FleetID (fst (NormalizeFleetResponse p a (Some out) err)) = aws_to_string (ft_FleetId out)
    \<and> set (ids_of (fst (NormalizeFleetResponse p a (Some out) err))) = set (reported_ids out)
    \<and> set (ids_of a) \<subseteq> set (reported_ids out)
    \<and> int (card (set (reported_ids out))) \<le> ar_RequestedCount a
    \<and> (int (card (set (reported_ids out))) < ar_RequestedCount a \<longrightarrow> ft_Errors out \<noteq> [])"
proof -
  obtain fleet added bounded ws where r: "reply_reading p a (Some out) = (fleet, added, bounded, ws)" by (metis prod_cases4)
  have b: bounded "err = None" using assms by (auto simp: NormalizeFleetResponse_state [OF r] split: if_splits)
  have read: "read_output p a out = (fleet, added, bounded, ws)" using r by (simp add: reply_reading_def)
  note sp = read_output_spec(1) [OF read] read_output_spec(3) [OF read b(1)]
  have "distinct (map fst ws)" using sp(1) by (simp add: worker_map_ok_def map_ok_def strict_sorted_iff)
  then have "length ws = card (set (reported_ids out))"
    using distinct_card [of "map fst ws"] sp(2) by (simp add: worker_ids_def)
  with sp(2) b show ?thesis
    unfolding NormalizeFleetResponse_read [OF r] ids_of_def elems_simps worker_ids_def by (elim conjE) (intro conjI; simp)
qed

text \<open>C19.  Zero allocation is concluded in exactly one situation: no reply, no Fleet identity and no machine known
  before, and an API error that proves EC2 refused the request.\<close>

theorem rejected_exactly:
  "ar_State (fst (NormalizeFleetResponse p a out err)) = ''rejected''
    \<longleftrightarrow> out = None \<and> ar_FleetID a = [] \<and> filter (re_match instanceRE) (ids_of a) = []
        \<and> (\<exists>c. err = Some (APIError c) \<and> snd (fleetDiagnostic c))"
proof -
  obtain fleet added bounded ws where r: "reply_reading p a out = (fleet, added, bounded, ws)" by (metis prod_cases4)
  have code: "snd (fleetDiagnostic (error_code e)) \<longleftrightarrow> (\<exists>c. e = APIError c \<and> snd (fleetDiagnostic c))" for e
    by (cases e) (simp_all add: error_code_def fleetDiagnostic_def)
  have none: "fleet = ar_FleetID a \<and> (ws = [] \<longleftrightarrow> filter (re_match instanceRE) (ids_of a) = []) \<and> \<not> bounded" if "out = None"
  proof -
    have "ws = [] \<longleftrightarrow> worker_ids ws = {}" by (simp add: worker_ids_def)
    with reply_reading_spec(2,3) [OF r] that show ?thesis by (simp add: filter_empty_conv) blast
  qed
  have "ar_State (fst (NormalizeFleetResponse p a out err)) = ''rejected'' \<longleftrightarrow>
      (\<exists>e. err = Some e \<and> snd (fleetDiagnostic (error_code e)) \<and> out = None \<and> fleet = [] \<and> ws = [])"
    using none by (auto simp: NormalizeFleetResponse_state [OF r])
  with none show ?thesis by (auto simp: code)
qed

section \<open>The request\<close>

definition choice_fits :: "launch_plan \<Rightarrow> string \<Rightarrow> launch_choice list \<Rightarrow> string gomap \<Rightarrow> launch_choice \<Rightarrow> bool" where
  "choice_fits p t seen zones c \<longleftrightarrow> ch_AvailabilityZone c \<in> set fleet_zones \<and> validFleetResourceID (ch_SubnetID c) ''subnet''
     \<and> c \<notin> set seen \<and> lookup [] zones (ch_AvailabilityZone c) \<in> {[], ch_SubnetID c}
     \<and> (lp_Market p = ''on-demand'' \<longrightarrow> ch_InstanceType c = t)"

lemma choice_loop_step:
  "choice_loop p t seen zones (c # cs) = Some os \<Longrightarrow>
     choice_fits p t seen zones c \<and> (\<exists>os'. os = override p c # os'
       \<and> choice_loop p t (c # seen) (map_put (ch_AvailabilityZone c) (ch_SubnetID c) zones) cs = Some os')"
  unfolding choice_loop.simps(2) choice_fits_def by (simp split: if_splits) blast

lemma choice_loop_overrides: "choice_loop p t seen zones cs = Some os \<Longrightarrow> os = map (override p) cs"
proof (induction cs arbitrary: seen zones os)
  case (Cons c cs)
  then show ?case using choice_loop_step by fastforce
qed simp

lemma choice_loop_distinct: "choice_loop p t seen zones cs = Some os \<Longrightarrow> distinct cs \<and> set cs \<inter> set seen = {}"
proof (induction cs arbitrary: seen zones os)
  case (Cons c cs)
  from choice_loop_step [OF Cons.prems] obtain os' where
    "choice_loop p t (c # seen) (map_put (ch_AvailabilityZone c) (ch_SubnetID c) zones) cs = Some os'" "c \<notin> set seen"
    by (auto simp: choice_fits_def)
  with Cons.IH [of "c # seen"] show ?case by fastforce
qed simp

lemma choice_loop_checked:
  "choice_loop p t seen zones cs = Some os \<Longrightarrow> c \<in> set cs \<Longrightarrow>
     ch_AvailabilityZone c \<in> set fleet_zones \<and> validFleetResourceID (ch_SubnetID c) ''subnet''
     \<and> (lp_Market p = ''on-demand'' \<longrightarrow> ch_InstanceType c = t)"
proof (induction cs arbitrary: seen zones os)
  case (Cons d cs)
  from choice_loop_step [OF Cons.prems(1)] have d: "choice_fits p t seen zones d"
    and rest: "\<exists>os'. choice_loop p t (d # seen) (map_put (ch_AvailabilityZone d) (ch_SubnetID d) zones) cs = Some os'" by blast+
  show ?case
  proof (cases "c = d")
    case True
    with d show ?thesis by (simp add: choice_fits_def)
  next
    case False
    with Cons.prems(2) rest Cons.IH show ?thesis by auto
  qed
qed simp

lemma lookup_map_put: "lookup z (map_put k v m) i = (if i = k then v else lookup z m i)"
  by (simp add: lookup_def)

lemma subnet_nonempty: "validFleetResourceID s ''subnet'' \<Longrightarrow> s \<noteq> []"
  by (auto simp: validFleetResourceID_def has_prefix_iff)

lemma choice_loop_zones:
  "choice_loop p t seen zones cs = Some os \<Longrightarrow>
     (\<forall>c \<in> set cs. lookup [] zones (ch_AvailabilityZone c) \<in> {[], ch_SubnetID c})
     \<and> (\<forall>c \<in> set cs. \<forall>d \<in> set cs. ch_AvailabilityZone c = ch_AvailabilityZone d \<longrightarrow> ch_SubnetID c = ch_SubnetID d)"
proof (induction cs arbitrary: seen zones os)
  case (Cons c cs)
  from choice_loop_step [OF Cons.prems] obtain os' where
    rest: "choice_loop p t (c # seen) (map_put (ch_AvailabilityZone c) (ch_SubnetID c) zones) cs = Some os'"
    and c: "lookup [] zones (ch_AvailabilityZone c) \<in> {[], ch_SubnetID c}" "ch_SubnetID c \<noteq> []"
    using subnet_nonempty unfolding choice_fits_def by blast
  note IH = Cons.IH [OF rest]
  have same: "ch_SubnetID d = ch_SubnetID c" if "d \<in> set cs" "ch_AvailabilityZone d = ch_AvailabilityZone c" for d
  proof -
    from IH that(1) have "lookup [] (map_put (ch_AvailabilityZone c) (ch_SubnetID c) zones) (ch_AvailabilityZone d) \<in> {[], ch_SubnetID d}" by blast
    with that(2) c(2) show ?thesis by (simp add: lookup_map_put)
  qed
  have "lookup [] zones (ch_AvailabilityZone d) \<in> {[], ch_SubnetID d}" if "d \<in> set cs" for d
  proof (cases "ch_AvailabilityZone d = ch_AvailabilityZone c")
    case True
    with same [OF that] c(1) show ?thesis by simp
  next
    case False
    from IH that have "lookup [] (map_put (ch_AvailabilityZone c) (ch_SubnetID c) zones) (ch_AvailabilityZone d) \<in> {[], ch_SubnetID d}" by blast
    with False show ?thesis by (simp add: lookup_map_put)
  qed
  moreover have "\<forall>x \<in> set cs. \<forall>y \<in> set cs. ch_AvailabilityZone x = ch_AvailabilityZone y \<longrightarrow> ch_SubnetID x = ch_SubnetID y"
    using IH by blast
  ultimately show ?case using c(1) same by (metis set_ConsD)
qed simp

lemma overrides_zones:
  assumes "choice_loop p t seen zones cs = Some os"
  shows "\<forall>x \<in> set os. fo_AvailabilityZone x \<in> set fleet_zones
    \<and> (\<forall>y \<in> set os. fo_AvailabilityZone x = fo_AvailabilityZone y \<longrightarrow> fo_SubnetId x = fo_SubnetId y)"
proof (intro ballI conjI impI)
  fix x
  assume "x \<in> set os"
  then obtain c where c: "c \<in> set cs" "x = override p c" unfolding choice_loop_overrides [OF assms] by auto
  show "fo_AvailabilityZone x \<in> set fleet_zones"
    using choice_loop_checked [OF assms c(1)] by (simp add: c(2) override_def)
  fix y
  assume "y \<in> set os" and eq: "fo_AvailabilityZone x = fo_AvailabilityZone y"
  then obtain d where d: "d \<in> set cs" "y = override p d" unfolding choice_loop_overrides [OF assms] by auto
  have "ch_AvailabilityZone c = ch_AvailabilityZone d" using eq by (simp add: c(2) d(2) override_def)
  with choice_loop_zones [OF assms] c(1) d(1) have "ch_SubnetID c = ch_SubnetID d" by blast
  then show "fo_SubnetId x = fo_SubnetId y" by (simp add: c(2) d(2) override_def)
qed

text \<open>What the request is made of.\<close>

lemma BuildFleetInput_ok:
  assumes "BuildFleetInput p a = Inr f"
  obtains t where "choice_loop p t [] [] (sort_key choice_key (elems (lp_Choices p))) = Some (fi_Overrides f)"
    "fleet_pins_ok p" "fleet_attempt_ok p a" "fleet_disk_ok p" "lp_Market p = ''spot'' \<or> lp_Market p = ''on-demand''"
    "fi_ClientToken f = ar_ClientToken a" "fi_TotalTargetCapacity f = ar_RequestedCount a"
    "fi_SpotTargetCapacity f = (if lp_Market p = ''spot'' then ar_RequestedCount a else 0)"
    "fi_OnDemandTargetCapacity f = (if lp_Market p = ''spot'' then 0 else ar_RequestedCount a)"
    "fi_LaunchTemplateId f = im_LaunchTemplateID (lp_Image p)" "fi_Version f = im_LaunchTemplateVersion (lp_Image p)"
    "fi_TagSpecifications f = map (\<lambda>r. (r, want_tags p a)) [''fleet'', ''instance'', ''volume'']"
  using assms unfolding BuildFleetInput_def launch_invalid_def Let_def
  by (simp split: if_splits sum.splits option.splits) force+

text \<open>C20.  A Fleet request asks for exactly the attempt's count, all of it in the one market of the plan, within the
  hard limit; it offers the plan's choices, each once, with the plan's image and disk, in the approved
  zones, on one subnet per zone, and it tags Fleet, instances and volumes alike with the attempt's tags.\<close>

theorem fleet_input_exact:
  assumes "BuildFleetInput p a = Inr f"
  shows "fi_TotalTargetCapacity f = ar_RequestedCount a \<and> 1 \<le> ar_RequestedCount a \<and> ar_RequestedCount a \<le> 100
    \<and> fi_SpotTargetCapacity f + fi_OnDemandTargetCapacity f = ar_RequestedCount a
    \<and> (fi_SpotTargetCapacity f = 0 \<or> fi_OnDemandTargetCapacity f = 0)
    \<and> fi_ClientToken f = attemptToken (Digest p) (ar_AttemptID a) (ar_RequestedCount a)
    \<and> fi_Overrides f = map (override p) (sort_key choice_key (elems (lp_Choices p))) \<and> distinct (elems (lp_Choices p))
    \<and> (\<forall>x \<in> set (fi_Overrides f). fo_AvailabilityZone x \<in> set fleet_zones
         \<and> (\<forall>y \<in> set (fi_Overrides f). fo_AvailabilityZone x = fo_AvailabilityZone y \<longrightarrow> fo_SubnetId x = fo_SubnetId y))
    \<and> map snd (fi_TagSpecifications f) = replicate 3 (want_tags p a)"
proof (rule BuildFleetInput_ok [OF assms])
  fix t
  assume f:
    "choice_loop p t [] [] (sort_key choice_key (elems (lp_Choices p))) = Some (fi_Overrides f)" "fleet_attempt_ok p a"
    "fi_ClientToken f = ar_ClientToken a" "fi_TotalTargetCapacity f = ar_RequestedCount a"
    "fi_SpotTargetCapacity f = (if lp_Market p = ''spot'' then ar_RequestedCount a else 0)"
    "fi_OnDemandTargetCapacity f = (if lp_Market p = ''spot'' then 0 else ar_RequestedCount a)"
    "fi_TagSpecifications f = map (\<lambda>r. (r, want_tags p a)) [''fleet'', ''instance'', ''volume'']"
  note loop = choice_loop_overrides [OF f(1)] choice_loop_distinct [OF f(1)]
  note zones = overrides_zones [OF f(1)]
  have "distinct (elems (lp_Choices p))" using loop(2) by simp
  moreover have "1 \<le> ar_RequestedCount a" "ar_RequestedCount a \<le> 100"
    "ar_ClientToken a = attemptToken (Digest p) (ar_AttemptID a) (ar_RequestedCount a)"
    using f(2) by (simp_all add: fleet_attempt_ok_def HardMaxCount_def)
  moreover have "map snd (fi_TagSpecifications f) = replicate 3 (want_tags p a)" by (simp add: f(7) numeral_3_eq_3)
  moreover have "fi_SpotTargetCapacity f + fi_OnDemandTargetCapacity f = ar_RequestedCount a
      \<and> (fi_SpotTargetCapacity f = 0 \<or> fi_OnDemandTargetCapacity f = 0)" by (simp add: f(5,6))
  ultimately show ?thesis using f(3,4) loop(1) zones by (intro conjI; simp only: f(3,4))
qed

section \<open>An example request\<close>

lemma ex_want_tags: "AttemptTags ex_plan ex_attempt_id = Inr (want_tags ex_plan ex_attempt)"
proof -
  have "map_put ''AttemptId'' ex_attempt_id (elems (lp_CreationTags ex_plan)) = want_tags ex_plan ex_attempt"
  proof (rule map_ok_unique)
    show "map_ok (map_put ''AttemptId'' ex_attempt_id (elems (lp_CreationTags ex_plan)))"
      using ex_plan_sized by (simp add: plan_sized_def)
    show "map_ok (want_tags ex_plan ex_attempt)"
      by (simp add: want_tags_def Let_def del: map_put.simps)
    show "map_of (map_put ''AttemptId'' ex_attempt_id (elems (lp_CreationTags ex_plan))) = map_of (want_tags ex_plan ex_attempt)"
      by (rule ext) (simp add: want_tags_def ex_plan_fields ex_attempt_def ex_plan_def with_group_def plan_record_def
          creation_tags_def Let_def TagKey_def LaunchPlanSchema_def ex_config_def ex_profile_def ex_selection_def zero_selection_def del: map_put.simps)
  qed
  then show ?thesis by (simp add: AttemptTags_def ex_attempt_id(2))
qed

definition ex_input :: fleet_input where
  "ex_input = \<lparr>fi_Type = ''instant'', fi_ClientToken = ar_ClientToken ex_attempt, fi_TotalTargetCapacity = 3,
     fi_SpotTargetCapacity = 3, fi_OnDemandTargetCapacity = 0, fi_DefaultTargetCapacityType = ''spot'',
     fi_SpotStrategy = Some ''price-capacity-optimized'', fi_OnDemandStrategy = None, fi_LaunchTemplateId = ''lt-01234567'',
     fi_Version = ''3'', fi_Overrides = map (override ex_plan) ex_choices,
     fi_TagSpecifications = map (\<lambda>r. (r, want_tags ex_plan ex_attempt)) [''fleet'', ''instance'', ''volume'']\<rparr>"

lemma ex_resource_ids:
  "validFleetResourceID ''lt-01234567'' ''lt''" "validFleetResourceID ''ami-01234567'' ''ami''"
  "validFleetResourceID ''subnet-01234567'' ''subnet''"
  by (simp_all add: validFleetResourceID_def grammar_eval)

lemma ex_fleet_pins_ok: "fleet_pins_ok ex_plan"
  using ex_resource_ids
  by (simp add: fleet_pins_ok_def ex_plan_fields ex_image_def canonical_version_def ParseUint_def number_eval nat_str.simps
      digit_chars in_range_def ex_choices_def)

lemma ex_attempt_fleet_ok: "fleet_attempt_ok ex_plan ex_attempt"
  using ex_plan_expiry ex_attempt_id(2)
  by (simp add: fleet_attempt_ok_def ex_attempt_def ex_plan_fields HardMaxCount_def)

lemma ex_labels_ok: "fleet_labels_ok ex_plan ex_attempt"
  using ex_team ex_created_parses
  by (simp add: fleet_labels_ok_def ex_plan_fields ex_attempt_def ValidGroup_def grammar_eval)

lemma ex_choice_loop: "choice_loop ex_plan t [] [] ex_choices = Some (map (override ex_plan) ex_choices)"
  using ex_resource_ids
  by (simp add: ex_choices_def fleetTypeRE_def fleet_zones_def lookup_def ex_plan_fields grammar_eval del: map_put.simps)

lemma ex_input_built: "BuildFleetInput ex_plan ex_attempt = Inr ex_input"
proof -
  have disk: "fleet_disk_ok ex_plan" by (simp add: fleet_disk_ok_def ex_plan_fields ex_image_def)
  have sorted: "sort_key choice_key ex_choices = ex_choices"
    by (simp add: ex_choices_def choice_key_def less_eq_prod_def less_eq_char_def less_char_def)
  have fields: "lp_Choices ex_plan = Some ex_choices" "lp_Market ex_plan = ''spot''" "ar_RequestedCount ex_attempt = 3"
    "ar_ParentID ex_attempt = []" "lp_RequestID ex_plan = ex_request" "ar_AttemptID ex_attempt = ex_attempt_id"
    "im_LaunchTemplateID (lp_Image ex_plan) = ''lt-01234567''" "im_LaunchTemplateVersion (lp_Image ex_plan) = ''3''"
    by (simp_all add: ex_plan_fields ex_attempt_def ex_image_def)
  show ?thesis
    by (simp add: BuildFleetInput_def ex_fleet_pins_ok ex_attempt_fleet_ok disk ex_labels_ok ex_want_tags sorted ex_choice_loop
        fields ex_attempt_id(1) ex_input_def Let_def del: map_put.simps)
qed

theorem fleet_input_exact_witness:
  "BuildFleetInput ex_plan ex_attempt = Inr ex_input \<and> fi_TotalTargetCapacity ex_input = 3 \<and> length (fi_Overrides ex_input) = 2"
proof -
  from fleet_input_exact [OF ex_input_built]
  have "fi_TotalTargetCapacity ex_input = ar_RequestedCount ex_attempt"
    "fi_Overrides ex_input = map (override ex_plan) (sort_key choice_key (elems (lp_Choices ex_plan)))" by blast+
  then show ?thesis using ex_input_built by (simp add: ex_attempt_def ex_plan_fields ex_choices_def)
qed

definition ex_output :: fleet_output where
  "ex_output = \<lparr>ft_FleetId = Some ''fleet-01234567-0123-0123-0123-0123456789ab'',
     ft_Instances = Some [\<lparr>fg_InstanceType = ''c5.large'', fg_SubnetId = Some ''subnet-01234567'',
        fg_AvailabilityZone = Some ''us-east-2a'', fg_Launch = None, fg_Lifecycle = ''spot'', fg_Platform = [],
        fg_InstanceIds = [''i-89abcdef'', ''i-01234567'']\<rparr>],
     ft_Errors = [\<lparr>fe_ErrorCode = Some ''InsufficientInstanceCapacity'', fe_Launch = Some
        \<lparr>lr_Specification = None, lr_Overrides = Some \<lparr>or_InstanceType = ''m5.large'', or_SubnetId = Some ''subnet-01234567'',
           or_AvailabilityZone = None, or_ImageId = None, or_InstanceRequirements = False, or_OtherWeight = False\<rparr>\<rparr>,
        fe_Lifecycle = ''spot''\<rparr>]\<rparr>"

lemma ex_output_complete: "ar_State (fst (NormalizeFleetResponse ex_plan ex_attempt (Some ex_output) None)) = ''complete''"
proof -
  have c: "fleetResponsePool ex_plan ''c5.large'' ''subnet-01234567'' ''us-east-2a'' None = (hd ex_choices, True)"
    by (simp add: fleetResponsePool_def reported_pool_def ex_plan_fields ex_choices_def)
  have e: "snd (pool_diagnostic ex_plan (hd (ft_Errors ex_output)))"
    by (simp add: pool_diagnostic_def Let_def fleetResponsePool_def reported_pool_def ex_output_def merge_def launch_spec_ok_def
        override_ok_def ex_plan_fields ex_choices_def)
  have "fst (snd (snd (read_output ex_plan ex_attempt ex_output)))"
    using c e ex_ids_match
    by (simp add: read_output_def ex_output_def fleet_identity_def known_workers_def ids_of_def ex_attempt_def ex_plan_fields)
  then show ?thesis
    using NormalizeFleetResponse_state [of ex_plan ex_attempt "Some ex_output" _ _ _ _ None]
    by (cases "read_output ex_plan ex_attempt ex_output") (simp add: reply_reading_def)
qed

theorem complete_bounds_allocation_witness:
  "ar_State (fst (NormalizeFleetResponse ex_plan ex_attempt (Some ex_output) None)) = ''complete''
   \<and> set (ids_of (fst (NormalizeFleetResponse ex_plan ex_attempt (Some ex_output) None))) = {''i-01234567'', ''i-89abcdef''}"
  using complete_bounds_allocation [OF ex_output_complete] ex_output_complete
  by (simp add: reported_ids_def ex_output_def insert_commute)

end
