(* ===== verification/LedgerRecords.thy ===== *)
theory LedgerRecords
  imports Fleet
begin

text \<open>
  The immutable records of the shared launch ledger: \<open>PreparedAttempt\<close> and \<open>AttemptResponse\<close> of
  \<^verbatim>\<open>internal/lifecycle/attempt.go\<close>, \<open>DispatchClaim\<close> and \<open>AttemptReceipt\<close> of \<^verbatim>\<open>batch_receipt.go\<close>, and the
  JSON text the struct tags of these types give them.
\<close>

record prepared_attempt =
  pr_SchemaVersion :: int
  pr_RequestID :: string
  pr_PlanSHA256 :: string
  pr_InputSHA256 :: string
  pr_Attempt :: attempt_receipt

record attempt_response =
  rsp_SchemaVersion :: int
  rsp_RequestID :: string
  rsp_PlanSHA256 :: string
  rsp_InputSHA256 :: string
  rsp_Attempt :: attempt_receipt
  rsp_Workers :: "worker_outcome list option"

section \<open>Encoders\<close>

definition e_strings :: "string list option \<Rightarrow> json" where
  "e_strings = e_slice JStr"

definition e_resource_error :: "resource_error \<Rightarrow> json" where
  "e_resource_error e = JObj (omit_empty (re_ResourceID e = []) ''resource_id'' (JStr (re_ResourceID e))
     @ omit_empty (re_InstanceType e = []) ''instance_type'' (JStr (re_InstanceType e))
     @ omit_empty (re_SubnetID e = []) ''subnet_id'' (JStr (re_SubnetID e))
     @ [(''code'', JStr (re_Code e)), (''message'', JStr (re_Message e))])"

definition e_attempt :: "attempt_receipt \<Rightarrow> json" where
  "e_attempt a = JObj ([(''attempt_id'', JStr (ar_AttemptID a))]
     @ omit_empty (ar_ParentID a = []) ''parent_attempt_id'' (JStr (ar_ParentID a))
     @ [(''client_token'', JStr (ar_ClientToken a)), (''requested_count'', JInt (ar_RequestedCount a)),
        (''created_at'', JStr (ar_CreatedAt a)), (''state'', JStr (ar_State a))]
     @ omit_empty (ar_FleetID a = []) ''fleet_id'' (JStr (ar_FleetID a))
     @ [(''instance_ids'', e_strings (ar_InstanceIDs a)), (''errors'', e_slice e_resource_error (ar_Errors a))])"

definition e_prepared :: "prepared_attempt \<Rightarrow> json" where
  "e_prepared p = JObj [(''schema_version'', JInt (pr_SchemaVersion p)), (''request_id'', JStr (pr_RequestID p)),
     (''plan_sha256'', JStr (pr_PlanSHA256 p)), (''input_sha256'', JStr (pr_InputSHA256 p)), (''attempt'', e_attempt (pr_Attempt p))]"

definition e_claim :: "dispatch_claim \<Rightarrow> json" where
  "e_claim c = JObj [(''schema_version'', JInt (dc_SchemaVersion c)), (''request_id'', JStr (dc_RequestID c)),
     (''attempt_id'', JStr (dc_AttemptID c)), (''plan_sha256'', JStr (dc_PlanSHA256 c)),
     (''input_sha256'', JStr (dc_InputSHA256 c)), (''client_token'', JStr (dc_ClientToken c))]"

definition e_volume :: "inst_volume \<Rightarrow> json" where
  "e_volume v = JObj [(''volume_id'', JStr (iv_ID v)), (''device'', JStr (iv_Device v)), (''root'', JBool (iv_Root v)),
     (''delete_on_termination'', JBool (iv_DeleteOnTermination v)), (''deletion'', JStr (iv_Deletion v))]"

text \<open>The embedded \<open>Instance\<close> contributes its members, the host key and the unexported fields none.\<close>

definition inst_members :: "inst \<Rightarrow> (string \<times> json) list" where
  "inst_members i = [(''instance_id'', JStr (in_ID i)), (''name'', JStr (in_Name i)), (''request_id'', JStr (in_RequestID i)),
     (''profile'', JStr (in_Profile i)), (''created_at'', JStr (in_CreatedAt i)), (''image_id'', JStr (in_Image i)),
     (''instance_type'', JStr (in_Type i)), (''market'', JStr (in_Market i)), (''launch_template_id'', JStr (in_TemplateID i)),
     (''launch_template_version'', JStr (in_TemplateVersion i)), (''ec2_state'', JStr (in_State i)), (''ssm'', JStr (in_SSM i)),
     (''bootstrap'', JStr (in_Bootstrap i)), (''readiness'', JStr (in_Readiness i)),
     (''root_volume_deletion'', JStr (in_RootDeletion i)), (''volumes'', e_slice e_volume (in_Volumes i))]
     @ omit_empty (in_ObservationCode i = []) ''observation_code'' (JStr (in_ObservationCode i))
     @ omit_empty (in_ProbeCommandID i = []) ''probe_command_id'' (JStr (in_ProbeCommandID i))
     @ omit_empty (in_Group i = []) ''group'' (JStr (in_Group i))
     @ [(''base_name'', JStr (in_BaseName i)), (''attempt_id'', JStr (in_AttemptID i)), (''subnet_id'', JStr (in_SubnetID i)),
        (''availability_zone'', JStr (in_AvailabilityZone i))]
     @ omit_empty (in_ExpiresAt i = []) ''expires_at'' (JStr (in_ExpiresAt i))
     @ omit_empty (in_ExpiryStatus i = []) ''expiry_status'' (JStr (in_ExpiryStatus i))"

definition e_worker :: "worker_outcome \<Rightarrow> json" where
  "e_worker w = JObj (inst_members (wo_Instance w) @ [(''status'', JStr (wo_Status w))])"

definition e_response :: "attempt_response \<Rightarrow> json" where
  "e_response r = JObj [(''schema_version'', JInt (rsp_SchemaVersion r)), (''request_id'', JStr (rsp_RequestID r)),
     (''plan_sha256'', JStr (rsp_PlanSHA256 r)), (''input_sha256'', JStr (rsp_InputSHA256 r)),
     (''attempt'', e_attempt (rsp_Attempt r)), (''instances'', e_slice e_worker (rsp_Workers r))]"

section \<open>Decoders\<close>

definition resource_error_fields :: "resource_error fields" where
  "resource_error_fields = [field ''resource_id'' d_string re_ResourceID re_ResourceID_update,
     field ''instance_type'' d_string re_InstanceType re_InstanceType_update,
     field ''subnet_id'' d_string re_SubnetID re_SubnetID_update, field ''code'' d_string re_Code re_Code_update,
     field ''message'' d_string re_Message re_Message_update]"

definition zero_resource_error :: resource_error where
  "zero_resource_error = plain_error [] []"

definition attempt_fields :: "attempt_receipt fields" where
  "attempt_fields = [field ''attempt_id'' d_string ar_AttemptID ar_AttemptID_update,
     field ''parent_attempt_id'' d_string ar_ParentID ar_ParentID_update,
     field ''client_token'' d_string ar_ClientToken ar_ClientToken_update,
     field ''requested_count'' d_int ar_RequestedCount ar_RequestedCount_update,
     field ''created_at'' d_string ar_CreatedAt ar_CreatedAt_update, field ''state'' d_string ar_State ar_State_update,
     field ''fleet_id'' d_string ar_FleetID ar_FleetID_update,
     field ''instance_ids'' (d_slice d_string []) ar_InstanceIDs ar_InstanceIDs_update,
     field ''errors'' (d_slice (decode_struct resource_error_fields) zero_resource_error) ar_Errors ar_Errors_update]"

definition zero_attempt :: attempt_receipt where
  "zero_attempt = \<lparr>ar_AttemptID = [], ar_ParentID = [], ar_ClientToken = [], ar_RequestedCount = 0, ar_CreatedAt = [],
     ar_State = [], ar_FleetID = [], ar_InstanceIDs = None, ar_Errors = None\<rparr>"

definition prepared_fields :: "prepared_attempt fields" where
  "prepared_fields = [field ''schema_version'' d_int pr_SchemaVersion pr_SchemaVersion_update,
     field ''request_id'' d_string pr_RequestID pr_RequestID_update,
     field ''plan_sha256'' d_string pr_PlanSHA256 pr_PlanSHA256_update,
     field ''input_sha256'' d_string pr_InputSHA256 pr_InputSHA256_update,
     field ''attempt'' (decode_struct attempt_fields) pr_Attempt pr_Attempt_update]"

definition zero_prepared :: prepared_attempt where
  "zero_prepared = \<lparr>pr_SchemaVersion = 0, pr_RequestID = [], pr_PlanSHA256 = [], pr_InputSHA256 = [], pr_Attempt = zero_attempt\<rparr>"

definition claim_fields :: "dispatch_claim fields" where
  "claim_fields = [field ''schema_version'' d_int dc_SchemaVersion dc_SchemaVersion_update,
     field ''request_id'' d_string dc_RequestID dc_RequestID_update,
     field ''attempt_id'' d_string dc_AttemptID dc_AttemptID_update,
     field ''plan_sha256'' d_string dc_PlanSHA256 dc_PlanSHA256_update,
     field ''input_sha256'' d_string dc_InputSHA256 dc_InputSHA256_update,
     field ''client_token'' d_string dc_ClientToken dc_ClientToken_update]"

definition zero_claim :: dispatch_claim where
  "zero_claim = \<lparr>dc_SchemaVersion = 0, dc_RequestID = [], dc_AttemptID = [], dc_PlanSHA256 = [], dc_InputSHA256 = [], dc_ClientToken = []\<rparr>"

definition volume_fields :: "inst_volume fields" where
  "volume_fields = [field ''volume_id'' d_string iv_ID iv_ID_update, field ''device'' d_string iv_Device iv_Device_update,
     field ''root'' d_bool iv_Root iv_Root_update,
     field ''delete_on_termination'' d_bool iv_DeleteOnTermination iv_DeleteOnTermination_update,
     field ''deletion'' d_string iv_Deletion iv_Deletion_update]"

definition zero_volume :: inst_volume where
  "zero_volume = \<lparr>iv_ID = [], iv_Device = [], iv_Root = False, iv_DeleteOnTermination = False, iv_Deletion = []\<rparr>"

text \<open>A promoted member of the embedded \<open>Instance\<close>.\<close>

definition promoted :: "string \<Rightarrow> (inst \<Rightarrow> string) \<Rightarrow> ((string \<Rightarrow> string) \<Rightarrow> inst \<Rightarrow> inst)
    \<Rightarrow> string \<times> (json \<Rightarrow> worker_outcome \<Rightarrow> worker_outcome option)" where
  "promoted name get upd = field name d_string (\<lambda>w. get (wo_Instance w)) (\<lambda>f. wo_Instance_update (upd f))"

definition worker_fields :: "worker_outcome fields" where
  "worker_fields = [promoted ''instance_id'' in_ID in_ID_update, promoted ''name'' in_Name in_Name_update,
     promoted ''request_id'' in_RequestID in_RequestID_update, promoted ''profile'' in_Profile in_Profile_update,
     promoted ''created_at'' in_CreatedAt in_CreatedAt_update, promoted ''image_id'' in_Image in_Image_update,
     promoted ''instance_type'' in_Type in_Type_update, promoted ''market'' in_Market in_Market_update,
     promoted ''launch_template_id'' in_TemplateID in_TemplateID_update,
     promoted ''launch_template_version'' in_TemplateVersion in_TemplateVersion_update,
     promoted ''ec2_state'' in_State in_State_update, promoted ''ssm'' in_SSM in_SSM_update,
     promoted ''bootstrap'' in_Bootstrap in_Bootstrap_update, promoted ''readiness'' in_Readiness in_Readiness_update,
     promoted ''root_volume_deletion'' in_RootDeletion in_RootDeletion_update,
     field ''volumes'' (d_slice (decode_struct volume_fields) zero_volume) (\<lambda>w. in_Volumes (wo_Instance w))
       (\<lambda>f. wo_Instance_update (in_Volumes_update f)),
     promoted ''observation_code'' in_ObservationCode in_ObservationCode_update,
     promoted ''probe_command_id'' in_ProbeCommandID in_ProbeCommandID_update, promoted ''group'' in_Group in_Group_update,
     promoted ''base_name'' in_BaseName in_BaseName_update, promoted ''attempt_id'' in_AttemptID in_AttemptID_update,
     promoted ''subnet_id'' in_SubnetID in_SubnetID_update,
     promoted ''availability_zone'' in_AvailabilityZone in_AvailabilityZone_update,
     promoted ''expires_at'' in_ExpiresAt in_ExpiresAt_update, promoted ''expiry_status'' in_ExpiryStatus in_ExpiryStatus_update,
     field ''status'' d_string wo_Status wo_Status_update]"

definition zero_worker :: worker_outcome where
  "zero_worker = \<lparr>wo_Instance = zero_inst, wo_Status = []\<rparr>"

definition response_fields :: "attempt_response fields" where
  "response_fields = [field ''schema_version'' d_int rsp_SchemaVersion rsp_SchemaVersion_update,
     field ''request_id'' d_string rsp_RequestID rsp_RequestID_update,
     field ''plan_sha256'' d_string rsp_PlanSHA256 rsp_PlanSHA256_update,
     field ''input_sha256'' d_string rsp_InputSHA256 rsp_InputSHA256_update,
     field ''attempt'' (decode_struct attempt_fields) rsp_Attempt rsp_Attempt_update,
     field ''instances'' (d_slice (decode_struct worker_fields) zero_worker) rsp_Workers rsp_Workers_update]"

definition zero_response :: attempt_response where
  "zero_response = \<lparr>rsp_SchemaVersion = 0, rsp_RequestID = [], rsp_PlanSHA256 = [], rsp_InputSHA256 = [],
     rsp_Attempt = zero_attempt, rsp_Workers = None\<rparr>"

section \<open>A prepared record reads back from its own text\<close>

lemma resource_error_wire: "decode_struct resource_error_fields (e_resource_error e) zero_resource_error = Some e"
proof -
  have "e_resource_error e = JObj (present resource_error_fields
    [if re_ResourceID e = [] then None else Some (JStr (re_ResourceID e)),
     if re_InstanceType e = [] then None else Some (JStr (re_InstanceType e)),
     if re_SubnetID e = [] then None else Some (JStr (re_SubnetID e)), Some (JStr (re_Code e)), Some (JStr (re_Message e))])"
    by (simp add: e_resource_error_def resource_error_fields_def field_def omit_empty_def)
  moreover have "distinct (map fst resource_error_fields)" by (simp add: resource_error_fields_def field_def)
  ultimately show ?thesis
    by (simp add: decode_table) (simp add: resource_error_fields_def field_def zero_resource_error_def plain_error_def)
qed

lemma attempt_wire:
  assumes "int64 (ar_RequestedCount a)"
  shows "decode_struct attempt_fields (e_attempt a) zero_attempt = Some a"
proof -
  have "e_attempt a = JObj (present attempt_fields
    [Some (JStr (ar_AttemptID a)), if ar_ParentID a = [] then None else Some (JStr (ar_ParentID a)),
     Some (JStr (ar_ClientToken a)), Some (JInt (ar_RequestedCount a)), Some (JStr (ar_CreatedAt a)), Some (JStr (ar_State a)),
     if ar_FleetID a = [] then None else Some (JStr (ar_FleetID a)), Some (e_strings (ar_InstanceIDs a)),
     Some (e_slice e_resource_error (ar_Errors a))])"
    by (simp add: e_attempt_def attempt_fields_def field_def omit_empty_def)
  moreover have "distinct (map fst attempt_fields)" by (simp add: attempt_fields_def field_def)
  moreover have "d_slice d_string [] (e_strings x) y = Some x" for x y
    unfolding e_strings_def by (rule slice_wire [where ys = "elems x"]) auto
  moreover have "d_slice (decode_struct resource_error_fields) zero_resource_error (e_slice e_resource_error x) y = Some x" for x y
    by (rule slice_wire [where ys = "elems x"]) (auto simp: resource_error_wire)
  ultimately show ?thesis
    using assms by (simp add: decode_table) (simp add: attempt_fields_def field_def zero_attempt_def int64_def)
qed

lemma prepared_wire:
  assumes "int64 (pr_SchemaVersion p)" "int64 (ar_RequestedCount (pr_Attempt p))"
  shows "decode_struct prepared_fields (e_prepared p) zero_prepared = Some p"
proof -
  have "e_prepared p = JObj (present prepared_fields
    [Some (JInt (pr_SchemaVersion p)), Some (JStr (pr_RequestID p)), Some (JStr (pr_PlanSHA256 p)), Some (JStr (pr_InputSHA256 p)),
     Some (e_attempt (pr_Attempt p))])"
    by (simp add: e_prepared_def prepared_fields_def field_def)
  moreover have "distinct (map fst prepared_fields)" by (simp add: prepared_fields_def field_def)
  ultimately show ?thesis
    using assms attempt_wire [OF assms(2)]
    by (simp add: decode_table) (simp add: prepared_fields_def field_def zero_prepared_def int64_def)
qed

end
