(* ===== verification/LaunchLedger.thy ===== *)
theory LaunchLedger
  imports LedgerRecords
begin

text \<open>
  \<^verbatim>\<open>internal/lifecycle/launch_ledger.go\<close>: the shared, append-only record of every launch, kept in S3.
  \<open>Prepare\<close>, \<open>Claim\<close> and \<open>RecordResponse\<close> write immutable records with \<open>If-None-Match: *\<close>, and \<open>Load\<close>
  reconstructs a request from them.  S3 is an environment: each call appends itself to the history of the
  process, and the reply is a function of that history, so any behaviour of the service, of other processes
  and of the network between two calls is covered.  \<open>s3_inputDigest\<close> is \<open>fleetInputDigest\<close>, the hash of the
  JSON text of an SDK struct whose layout is not part of the repository.
\<close>

section \<open>Calls and replies\<close>

datatype sentinel =
    ContextCanceled | ContextDeadline | RecordNotFound | RecordConflict | LedgerCorrupt | LedgerUnavailable
  | CredentialsExpired | CredentialsInvalid | CredentialsUnavailable

text \<open>An SDK error: the sentinel errors it wraps, and the code of the API error it wraps, if any.\<close>

record s3_error =
  se_Is :: "sentinel list"
  se_Code :: "string option"

record put_input =
  pt_Bucket :: string
  pt_Key :: string
  pt_Owner :: string
  pt_IfNoneMatch :: string
  pt_Encryption :: string
  pt_Length :: int
  pt_Body :: string
  pt_Checksum :: string

datatype ledger_call =
    GetObject string string string
  | ListObjects string string string int
  | PutObject put_input

text \<open>\<open>gr_body\<close> is nil when the output or its body is; \<open>gr_failed\<close> is an error while reading the body, and
  \<open>gr_ctx\<close> whether the context had ended then.\<close>

record get_reply =
  gr_err :: "s3_error option"
  gr_body :: "string option"
  gr_length :: "int option"
  gr_failed :: bool
  gr_ctx :: bool

record list_objects =
  lo_Name :: "string option"
  lo_Prefix :: "string option"
  lo_Contents :: "string option list"
  lo_IsTruncated :: "bool option"

record put_reply =
  pu_err :: "s3_error option"
  pu_out :: bool

record s3_env =
  s3_get :: "ledger_call list \<Rightarrow> get_reply"
  s3_list :: "ledger_call list \<Rightarrow> s3_error option \<times> list_objects option"
  s3_put :: "ledger_call list \<Rightarrow> put_reply"
  s3_inputDigest :: "fleet_input \<Rightarrow> string"

record s3_ledger =
  ld_scope :: config
  ld_descriptor :: launch_ledger

definition MaxLaunchAttempts :: nat where "MaxLaunchAttempts = 256"
definition MaxLaunchRecordBytes :: nat where "MaxLaunchRecordBytes = 1048576"

definition NotFound :: failure where "NotFound = Failure ''launch_record_missing''"
definition Conflict :: failure where "Conflict = Failure ''launch_record_conflict''"
definition Corrupt :: failure where "Corrupt = Failure ''launch_ledger_corrupt''"
definition Unavailable :: failure where "Unavailable = Failure ''launch_ledger_unavailable''"
definition Denied :: failure where "Denied = Failure ''launch_ledger_denied''"

lemma ledger_errors_distinct [simp]:
  "NotFound \<noteq> Conflict" "NotFound \<noteq> Corrupt" "NotFound \<noteq> Unavailable" "NotFound \<noteq> Denied" "NotFound \<noteq> Cancelled"
  "Conflict \<noteq> NotFound" "Corrupt \<noteq> NotFound" "Unavailable \<noteq> NotFound" "Denied \<noteq> NotFound" "Cancelled \<noteq> NotFound"
  "Corrupt \<noteq> Conflict" "Unavailable \<noteq> Conflict" "Conflict \<noteq> Corrupt" "Conflict \<noteq> Unavailable"
  "Corrupt \<noteq> Denied" "Unavailable \<noteq> Denied" "Cancelled \<noteq> Denied"
  by (simp_all add: NotFound_def Conflict_def Corrupt_def Unavailable_def Denied_def)

section \<open>Errors of the storage\<close>

definition sentinel_failure :: "sentinel \<Rightarrow> failure" where
  "sentinel_failure s =
     (case s of ContextCanceled \<Rightarrow> Cancelled | ContextDeadline \<Rightarrow> Cancelled | RecordNotFound \<Rightarrow> NotFound
      | RecordConflict \<Rightarrow> Conflict | LedgerCorrupt \<Rightarrow> Corrupt | LedgerUnavailable \<Rightarrow> Unavailable
      | CredentialsExpired \<Rightarrow> Failure ''credentials_expired'' | CredentialsInvalid \<Rightarrow> Failure ''credentials_invalid''
      | CredentialsUnavailable \<Rightarrow> Failure ''credentials_unavailable'')"

definition sentinel_order :: "sentinel list" where
  "sentinel_order = [ContextCanceled, ContextDeadline, RecordNotFound, RecordConflict, LedgerCorrupt, LedgerUnavailable,
     CredentialsExpired, CredentialsInvalid, CredentialsUnavailable]"

definition storage_code :: "string \<Rightarrow> failure" where
  "storage_code c =
     (if c \<in> set [''NoSuchKey'', ''NotFound''] then NotFound
      else if c \<in> set [''PreconditionFailed'', ''ConditionalRequestConflict''] then Conflict
      else if c \<in> set [''AccessDenied'', ''AccessDeniedException''] then Denied
      else if c \<in> set [''ExpiredToken'', ''ExpiredTokenException'', ''RequestExpired'', ''TokenRefreshRequired'']
      then Failure ''credentials_expired''
      else if c \<in> set [''InvalidClientTokenId'', ''UnrecognizedClientException'', ''SignatureDoesNotMatch'', ''InvalidAccessKeyId'',
        ''InvalidToken'', ''AuthFailure'', ''RequestTimeTooSkewed'']
      then Failure ''credentials_invalid''
      else Unavailable)"

definition launchStorageError :: "s3_error \<Rightarrow> failure" where
  "launchStorageError e =
     (case find (\<lambda>s. s \<in> set (se_Is e)) sentinel_order of
        Some s \<Rightarrow> sentinel_failure s
      | None \<Rightarrow> (case se_Code e of Some c \<Rightarrow> storage_code c | None \<Rightarrow> Unavailable))"

section \<open>The ledger and what it accepts\<close>

definition NewS3LaunchLedger :: "bool \<Rightarrow> config \<Rightarrow> launch_ledger \<Rightarrow> failure + s3_ledger" where
  "NewS3LaunchLedger api_nil scope d =
     (if api_nil \<or> \<not> re_match accountRE (cf_ExpectedAccount scope) \<or> cf_Region scope \<noteq> ''us-east-2''
         \<or> \<not> re_match labelRE (cf_Deployment scope) \<or> \<not> re_match labelRE (cf_Owner scope)
         \<or> length (cf_Deployment scope) > 23 \<or> length (cf_Owner scope) > 23 \<or> ll_SchemaVersion d \<noteq> 1
         \<or> ll_ExpectedBucketOwner d \<noteq> cf_ExpectedAccount scope \<or> ll_Region d \<noteq> cf_Region scope
         \<or> ll_Prefix d \<noteq> LaunchLedgerPrefix scope
      then Inl Corrupt
      else if ValidateResults \<lparr>rs_SchemaVersion = 1, rs_Bucket = ll_Bucket d, rs_ExpectedBucketOwner = ll_ExpectedBucketOwner d,
         rs_Region = ll_Region d, rs_Prefix = ResultsPrefix scope, rs_RetentionDays = 2, rs_PolicySHA256 = ll_PolicySHA256 d\<rparr> scope
           \<noteq> Inr ()
      then Inl Corrupt
      else Inr \<lparr>ld_scope = scope, ld_descriptor = d\<rparr>)"

definition ledger_key :: "s3_ledger \<Rightarrow> string \<Rightarrow> string \<Rightarrow> string \<Rightarrow> string" where
  "ledger_key l request attempt kind =
     (if attempt = [] then ll_Prefix (ld_descriptor l) @ request @ ''/plan.json''
      else ll_Prefix (ld_descriptor l) @ request @ ''/attempts/'' @ attempt @ ''/'' @ kind @ ''.json'')"

definition plan_image_ok :: "image \<Rightarrow> bool" where
  "plan_image_ok i \<longleftrightarrow> im_Architecture i = ''x86_64'' \<and> im_UbuntuRelease i = ''24.04'' \<and> im_OwnerAccount i = ''099720109477''
     \<and> re_match ubuntuNameRE (im_Name i) \<and> \<not> im_MinimumRootDiskGB i < 1 \<and> \<not> im_MinimumRootDiskGB i > 16384
     \<and> (case im_RootDisk i of None \<Rightarrow> False
        | Some d \<Rightarrow> \<not> rd_SizeGB d < 8 \<and> \<not> rd_SizeGB d < im_MinimumRootDiskGB i \<and> \<not> rd_SizeGB d > 16384 \<and> rd_Type d = ''gp3''
            \<and> rd_Encrypted d \<and> rd_DeleteOnTermination d)"

definition plan_documents_ok :: "launch_plan \<Rightarrow> bool" where
  "plan_documents_ok p \<longleftrightarrow> canonical_version (do_Version (lp_Readiness p)) \<and> re_match document_nameRE (do_Name (lp_Readiness p))
     \<and> re_match digestRE (do_ContentSHA256 (lp_Readiness p)) \<and> ValidateExecution (lp_Execution p) = Inr ()
     \<and> ex_Name (lp_Execution p) \<noteq> do_Name (lp_Readiness p)"

definition first_attempt :: "launch_plan \<Rightarrow> string \<Rightarrow> attempt_receipt" where
  "first_attempt p i = \<lparr>ar_AttemptID = i, ar_ParentID = [], ar_ClientToken = attemptToken (Digest p) i (lp_RequestedCount p),
     ar_RequestedCount = lp_RequestedCount p, ar_CreatedAt = lp_CreatedAt p, ar_State = ''prepared'', ar_FleetID = [],
     ar_InstanceIDs = Some [], ar_Errors = Some []\<rparr>"

definition plan_scoped :: "s3_ledger \<Rightarrow> launch_plan \<Rightarrow> bool" where
  "plan_scoped l p \<longleftrightarrow> lp_Account p = cf_ExpectedAccount (ld_scope l) \<and> lp_Region p = cf_Region (ld_scope l)
     \<and> lp_Deployment p = cf_Deployment (ld_scope l) \<and> lp_Owner p = cf_Owner (ld_scope l)
     \<and> (lp_LaunchLedger p)\<lparr>ll_PolicySHA256 := ll_PolicySHA256 (ld_descriptor l)\<rparr> = ld_descriptor l
     \<and> re_match digestRE (lp_BootstrapSHA256 p) \<and> re_match (resource_idRE ''sg-'') (lp_SecurityGroupID p)
     \<and> re_match (instance_profileRE (cf_ExpectedAccount (ld_scope l))) (lp_InstanceProfileARN p)"

definition validPlan :: "s3_ledger \<Rightarrow> launch_plan \<Rightarrow> bool" where
  "validPlan l p \<longleftrightarrow> re_match digestRE (ll_PolicySHA256 (lp_LaunchLedger p)) \<and> plan_scoped l p \<and> plan_image_ok (lp_Image p)
     \<and> plan_documents_ok p
     \<and> (case AttemptID (lp_RequestID p) [] of Inl _ \<Rightarrow> False | Inr i \<Rightarrow> is_ok (BuildFleetInput p (first_attempt p i)))"

definition prepared_shape :: "batch_receipt \<Rightarrow> prepared_attempt \<Rightarrow> bool" where
  "prepared_shape r p \<longleftrightarrow> pr_SchemaVersion p = 1 \<and> pr_RequestID p = br_RequestID r \<and> pr_PlanSHA256 p = br_PlanSHA256 r
     \<and> ar_State (pr_Attempt p) = ''prepared'' \<and> ar_FleetID (pr_Attempt p) = [] \<and> ar_InstanceIDs (pr_Attempt p) = Some []
     \<and> ar_Errors (pr_Attempt p) = Some []"

definition add_attempt :: "batch_receipt \<Rightarrow> attempt_receipt \<Rightarrow> batch_receipt" where
  "add_attempt r a = r\<lparr>br_Attempts := br_Attempts r @ [a]\<rparr>"

definition validPrepared :: "(fleet_input \<Rightarrow> string) \<Rightarrow> batch_receipt \<Rightarrow> prepared_attempt \<Rightarrow> bool" where
  "validPrepared digest r p \<longleftrightarrow> prepared_shape r p
     \<and> \<not> (ar_ParentID (pr_Attempt p) = [] \<and> ar_CreatedAt (pr_Attempt p) \<noteq> lp_CreatedAt (br_Plan r))
     \<and> (case BuildFleetInput (br_Plan r) (pr_Attempt p) of Inl _ \<Rightarrow> False | Inr input \<Rightarrow> pr_InputSHA256 p = digest input)
     \<and> Receipt_Validate (add_attempt r (pr_Attempt p)) = Inr ()"

definition expectedClaim :: "prepared_attempt \<Rightarrow> dispatch_claim" where
  "expectedClaim p = \<lparr>dc_SchemaVersion = 1, dc_RequestID = pr_RequestID p, dc_AttemptID = ar_AttemptID (pr_Attempt p),
     dc_PlanSHA256 = pr_PlanSHA256 p, dc_InputSHA256 = pr_InputSHA256 p, dc_ClientToken = ar_ClientToken (pr_Attempt p)\<rparr>"

definition canonical_codes :: "string list" where
  "canonical_codes = [''UnauthorizedOperation'', ''InsufficientInstanceCapacity'', ''MaxSpotInstanceCountExceeded'',
     ''InvalidParameter'', ''PendingVerification'', ''RequestLimitExceeded'', ''IdempotentParameterMismatch'', ''unknown'']"

definition known_diagnostic :: "string \<Rightarrow> resource_error \<Rightarrow> bool" where
  "known_diagnostic state e \<longleftrightarrow>
     (if re_Code e = ''fleet_pool_error'' then state \<noteq> ''rejected'' \<and> re_Message e = re_Message pool_error
      else if re_Code e = ''fleet_response_incomplete'' then state = ''unknown'' \<and> re_Message e = re_Message incomplete_error
      else list_ex (\<lambda>c. let (canonical, rejected) = fleetDiagnostic c in re_Code e = re_Code canonical
        \<and> re_Message e = re_Message canonical \<and> (state \<noteq> ''rejected'' \<or> rejected)) canonical_codes)"

definition validLaunchDiagnostic :: "launch_plan \<Rightarrow> string \<Rightarrow> resource_error \<Rightarrow> bool" where
  "validLaunchDiagnostic p state e =
     (if re_Code e = ''fleet_response_conflict''
      then state = ''unknown'' \<and> re_match fleetIDRE (re_ResourceID e) \<and> re_InstanceType e = [] \<and> re_SubnetID e = []
        \<and> re_Message e = re_Message (conflict_error [])
      else if \<not> known_diagnostic state e \<or> re_ResourceID e \<noteq> [] then False
      else if re_InstanceType e = [] \<and> re_SubnetID e = [] then True
      else list_ex (\<lambda>c. re_InstanceType e = ch_InstanceType c \<and> re_SubnetID e = ch_SubnetID c) (elems (lp_Choices p)))"

definition worker_choice :: "worker_outcome \<Rightarrow> launch_choice" where
  "worker_choice w = \<lparr>ch_InstanceType = in_Type (wo_Instance w), ch_SubnetID = in_SubnetID (wo_Instance w),
     ch_AvailabilityZone = in_AvailabilityZone (wo_Instance w)\<rparr>"

definition response_worker_ok :: "batch_receipt \<Rightarrow> prepared_attempt \<Rightarrow> string \<Rightarrow> worker_outcome \<Rightarrow> bool" where
  "response_worker_ok r p state w \<longleftrightarrow>
     ((worker_choice w = zero_choice \<and> state = ''unknown'') \<or> worker_choice w \<in> set (elems (lp_Choices (br_Plan r))))
     \<and> w = fleetWorker (br_Plan r) (pr_Attempt p) (wo_ID w) (worker_choice w)"

definition response_shape :: "prepared_attempt \<Rightarrow> attempt_response \<Rightarrow> bool" where
  "response_shape p x \<longleftrightarrow> rsp_SchemaVersion x = 1 \<and> rsp_RequestID x = pr_RequestID p \<and> rsp_PlanSHA256 x = pr_PlanSHA256 p
     \<and> rsp_InputSHA256 x = pr_InputSHA256 p \<and> rsp_Workers x \<noteq> None \<and> ar_InstanceIDs (rsp_Attempt x) \<noteq> None
     \<and> ar_Errors (rsp_Attempt x) \<noteq> None"

definition validResponse :: "batch_receipt \<Rightarrow> prepared_attempt \<Rightarrow> attempt_response \<Rightarrow> bool" where
  "validResponse r p x =
     (let a = rsp_Attempt x; ws = elems (rsp_Workers x) in
      if \<not> response_shape p x then False
      else if ar_State a \<noteq> ''unknown'' \<and> ar_State a \<noteq> ''complete'' \<and> ar_State a \<noteq> ''rejected'' then False
      else if ar_FleetID a \<noteq> [] \<and> \<not> re_match fleetIDRE (ar_FleetID a) then False
      else if a\<lparr>ar_State := ''prepared'', ar_FleetID := [], ar_InstanceIDs := Some [], ar_Errors := Some []\<rparr> \<noteq> pr_Attempt p then False
      else if Receipt_Validate (add_attempt r a) \<noteq> Inr () \<or> length ws \<noteq> length (ids_of a) then False
      else if \<not> (distinct (map wo_ID ws) \<and> list_all (response_worker_ok r p (ar_State a)) ws) then False
      else if \<not> list_all (\<lambda>i. i \<in> set (map wo_ID ws)) (ids_of a) then False
      else if ar_State a = ''complete'' \<and> int (length (ids_of a)) < ar_RequestedCount a \<and> elems (ar_Errors a) = [] then False
      else if ar_State a = ''rejected'' \<and> elems (ar_Errors a) = [] then False
      else list_all (validLaunchDiagnostic (br_Plan r) (ar_State a)) (elems (ar_Errors a)))"

section \<open>Reading and writing records\<close>

definition getOnce :: "s3_env \<Rightarrow> s3_ledger \<Rightarrow> string \<Rightarrow> ledger_call list \<Rightarrow> (failure + string) \<times> ledger_call list" where
  "getOnce E l key h =
     (let h = GetObject (ll_Bucket (ld_descriptor l)) key (ll_ExpectedBucketOwner (ld_descriptor l)) # h; g = s3_get E h;
          body = take (MaxLaunchRecordBytes + 1) (aws_to_string (gr_body g))
      in (case gr_err g of Some e \<Rightarrow> Inl (launchStorageError e)
          | None \<Rightarrow>
              if gr_body g = None then Inl Corrupt
              else (case gr_length g of None \<Rightarrow> Inl Corrupt
                    | Some n \<Rightarrow>
                        if n < 1 \<or> n > int MaxLaunchRecordBytes then Inl Corrupt
                        else if gr_failed g then Inl (if gr_ctx g then Cancelled else Unavailable)
                        else if int (length body) \<noteq> n then Inl Corrupt else Inr body), h))"

text \<open>What an exact one-key listing says of a key whose read was denied: absent, readable after all, or
  nothing.\<close>

datatype listed = Absent | Present | Unproved

definition list_verdict :: "s3_ledger \<Rightarrow> string \<Rightarrow> list_objects option \<Rightarrow> listed" where
  "list_verdict l key out =
     (case out of None \<Rightarrow> Unproved
      | Some ls \<Rightarrow>
          if aws_to_string (lo_Name ls) = ll_Bucket (ld_descriptor l) \<and> aws_to_string (lo_Prefix ls) = key
          then (case lo_Contents ls of
                  [] \<Rightarrow> if lo_IsTruncated ls = Some True then Unproved else Absent
                | [found] \<Rightarrow> if aws_to_string found = key then Present
                             else if has_prefix (aws_to_string found) key then Absent else Unproved
                | _ \<Rightarrow> Unproved)
          else Unproved)"

definition get :: "s3_env \<Rightarrow> s3_ledger \<Rightarrow> string \<Rightarrow> ledger_call list \<Rightarrow> (failure + string) \<times> ledger_call list" where
  "get E l key h =
     (case getOnce E l key h of (b, h) \<Rightarrow>
        if b \<noteq> Inl Denied then (b, h)
        else let h = ListObjects (ll_Bucket (ld_descriptor l)) (ll_ExpectedBucketOwner (ld_descriptor l)) key 1 # h in
          (case s3_list E h of
             (Some e, _) \<Rightarrow> (Inl (launchStorageError e), h)
           | (None, out) \<Rightarrow>
               (case list_verdict l key out of
                  Absent \<Rightarrow> (Inl NotFound, h) | Present \<Rightarrow> getOnce E l key h | Unproved \<Rightarrow> (b, h))))"

text \<open>\<open>uniqueJSON\<close> works on the token stream; over the parsed text it is the depth bound and the distinctness
  of the members of every object.  (A number beyond a double is refused by the token reader; here the field
  it would be stored in refuses it, with the same error.)\<close>

fun unique_value :: "nat \<Rightarrow> json \<Rightarrow> bool" and unique_members :: "nat \<Rightarrow> string list \<Rightarrow> (string \<times> json) list \<Rightarrow> bool"
  and unique_elements :: "nat \<Rightarrow> json list \<Rightarrow> bool" where
  "unique_value depth (JObj ms) = (depth \<le> 32 \<and> unique_members depth [] ms)"
| "unique_value depth (JArr js) = (depth \<le> 32 \<and> unique_elements depth js)"
| "unique_value depth j = (depth \<le> 32)"
| "unique_members depth keys [] = True"
| "unique_members depth keys ((k, v) # ms) = (k \<notin> set keys \<and> unique_value (Suc depth) v \<and> unique_members depth (k # keys) ms)"
| "unique_elements depth [] = True"
| "unique_elements depth (j # js) = (unique_value (Suc depth) j \<and> unique_elements depth js)"

definition uniqueJSON :: "string \<Rightarrow> bool" where
  "uniqueJSON b = (case json_text b of None \<Rightarrow> False | Some j \<Rightarrow> unique_value 0 j)"

definition decode_record :: "'a decoder \<Rightarrow> 'a \<Rightarrow> string \<Rightarrow> failure + 'a" where
  "decode_record d zero b =
     (if \<not> uniqueJSON b then Inl Corrupt
      else (case json_text b of None \<Rightarrow> Inl Corrupt
            | Some j \<Rightarrow> (case d j zero of None \<Rightarrow> Inl Corrupt | Some x \<Rightarrow> Inr x)))"

definition read_record :: "s3_env \<Rightarrow> s3_ledger \<Rightarrow> 'a decoder \<Rightarrow> 'a \<Rightarrow> string \<Rightarrow> ledger_call list \<Rightarrow> (failure + 'a) \<times> ledger_call list" where
  "read_record E l d zero key h =
     (case get E l key h of (Inl e, h) \<Rightarrow> (Inl e, h) | (Inr b, h) \<Rightarrow> (decode_record d zero b, h))"

definition put_request :: "s3_ledger \<Rightarrow> string \<Rightarrow> string \<Rightarrow> put_input" where
  "put_request l key b = \<lparr>pt_Bucket = ll_Bucket (ld_descriptor l), pt_Key = key,
     pt_Owner = ll_ExpectedBucketOwner (ld_descriptor l), pt_IfNoneMatch = ''*'', pt_Encryption = ''AES256'',
     pt_Length = int (length b), pt_Body = b, pt_Checksum = b64_encode True (Sum256 b)\<rparr>"

definition put :: "s3_env \<Rightarrow> s3_ledger \<Rightarrow> string \<Rightarrow> json \<Rightarrow> ledger_call list \<Rightarrow> (failure + unit) \<times> ledger_call list" where
  "put E l key j h =
     (let b = json_print j in
      if b = [] \<or> length b > MaxLaunchRecordBytes then (Inl Corrupt, h)
      else let h = PutObject (put_request l key b) # h; y = s3_put E h in
        (case pu_err y of Some e \<Rightarrow> Inl (launchStorageError e)
         | None \<Rightarrow> if \<not> pu_out y then Inl Unavailable else Inr (), h))"

definition putImmutable :: "s3_env \<Rightarrow> s3_ledger \<Rightarrow> string \<Rightarrow> json \<Rightarrow> ledger_call list \<Rightarrow> (failure + unit) \<times> ledger_call list" where
  "putImmutable E l key j h =
     (case put E l key j h of
        (Inr u, h) \<Rightarrow> (Inr u, h)
      | (Inl e, h) \<Rightarrow>
          (case get E l key h of
             (Inl x, h) \<Rightarrow> (Inl (if x = NotFound then e else x), h)
           | (Inr existing, h) \<Rightarrow> (if existing \<noteq> json_print j then Inl Conflict else Inr (), h)))"

section \<open>Load\<close>

record launch_snapshot =
  sn_Receipt :: batch_receipt
  sn_Prepared :: "prepared_attempt gomap"
  sn_Claims :: "dispatch_claim gomap"
  sn_Responses :: "attempt_response gomap"

definition zero_receipt :: batch_receipt where
  "zero_receipt = \<lparr>br_SchemaVersion = 0, br_RequestID = [], br_Plan = zero_plan, br_PlanSHA256 = [], br_Attempts = []\<rparr>"

definition empty_snapshot :: launch_snapshot where
  "empty_snapshot = \<lparr>sn_Receipt = zero_receipt, sn_Prepared = [], sn_Claims = [], sn_Responses = []\<rparr>"

definition set_attempt :: "nat \<Rightarrow> (attempt_receipt \<Rightarrow> attempt_receipt) \<Rightarrow> launch_snapshot \<Rightarrow> launch_snapshot" where
  "set_attempt n f s = s\<lparr>sn_Receipt := (sn_Receipt s)\<lparr>br_Attempts :=
     (br_Attempts (sn_Receipt s))[n := f (br_Attempts (sn_Receipt s) ! n)]\<rparr>\<rparr>"

text \<open>A missing preparation cannot hide an orphaned claim or response: the first error, if any.\<close>

fun orphans :: "s3_env \<Rightarrow> s3_ledger \<Rightarrow> string list \<Rightarrow> ledger_call list \<Rightarrow> failure option \<times> ledger_call list" where
  "orphans E l [] h = (None, h)"
| "orphans E l (key # keys) h =
     (case get E l key h of
        (Inr _, h) \<Rightarrow> (Some Corrupt, h)
      | (Inl e, h) \<Rightarrow> if e \<noteq> NotFound then (Some e, h) else orphans E l keys h)"

text \<open>The snapshot once a preparation was accepted, once its claim was read, and once its response was read;
  the error that ends \<open>Load\<close>, if any.\<close>

definition with_prepared :: "string \<Rightarrow> prepared_attempt \<Rightarrow> launch_snapshot \<Rightarrow> launch_snapshot" where
  "with_prepared i p s = s\<lparr>sn_Prepared := map_put i p (sn_Prepared s), sn_Receipt := add_attempt (sn_Receipt s) (pr_Attempt p)\<rparr>"

definition with_claim :: "string \<Rightarrow> nat \<Rightarrow> failure + dispatch_claim \<Rightarrow> launch_snapshot \<Rightarrow> launch_snapshot" where
  "with_claim i n rc s =
     (case rc of Inl _ \<Rightarrow> s
      | Inr c \<Rightarrow> set_attempt n (ar_State_update (\<lambda>_. ''dispatched'')) (s\<lparr>sn_Claims := map_put i c (sn_Claims s)\<rparr>))"

definition with_response :: "string \<Rightarrow> nat \<Rightarrow> batch_receipt \<Rightarrow> prepared_attempt \<Rightarrow> failure + dispatch_claim
    \<Rightarrow> failure + attempt_response \<Rightarrow> launch_snapshot \<Rightarrow> launch_snapshot \<times> failure option" where
  "with_response i n prior p rc rr s =
     (case rr of
        Inr x \<Rightarrow>
          if \<not> validResponse prior p x then (s, Some Corrupt)
          else let s = set_attempt n (\<lambda>_. rsp_Attempt x) (s\<lparr>sn_Responses := map_put i x (sn_Responses s)\<rparr>) in
            (case rc of
               Inl e \<Rightarrow> (set_attempt n (ar_State_update (\<lambda>_. ''unknown'')) s, Some (if e = NotFound then Corrupt else e))
             | Inr _ \<Rightarrow> (s, None))
      | Inl e \<Rightarrow>
          if e \<noteq> NotFound then (s, Some e)
          else (case rc of Inl e \<Rightarrow> (s, if e \<noteq> NotFound then Some e else None) | Inr _ \<Rightarrow> (s, None)))"

definition checked_claim :: "prepared_attempt \<Rightarrow> failure + dispatch_claim \<Rightarrow> failure + dispatch_claim" where
  "checked_claim p rc = (case rc of Inl e \<Rightarrow> Inl e | Inr c \<Rightarrow> if c \<noteq> expectedClaim p then Inl Corrupt else Inr c)"

definition load_attempt :: "s3_env \<Rightarrow> s3_ledger \<Rightarrow> string \<Rightarrow> string \<Rightarrow> nat \<Rightarrow> prepared_attempt \<Rightarrow> launch_snapshot \<Rightarrow> ledger_call list
    \<Rightarrow> launch_snapshot \<times> failure option \<times> ledger_call list" where
  "load_attempt E l request i n p s h =
     (let prior = sn_Receipt s;
          (rc, h) = read_record E l (decode_struct claim_fields) zero_claim (ledger_key l request i ''dispatch'') h;
          rc = checked_claim p rc;
          (rr, h) = read_record E l (decode_struct response_fields) zero_response (ledger_key l request i ''response'') h;
          (s, err) = with_response i n prior p rc rr (with_claim i n rc (with_prepared i p s))
      in (s, err, h))"

text \<open>\<open>id, _ := AttemptID(\<dots>)\<close> leaves the empty identity on an error.\<close>

definition attempt_id :: "string \<Rightarrow> string \<Rightarrow> string" where
  "attempt_id request parent = (case AttemptID request parent of Inl _ \<Rightarrow> [] | Inr i \<Rightarrow> i)"

function load_loop :: "s3_env \<Rightarrow> s3_ledger \<Rightarrow> string \<Rightarrow> nat \<Rightarrow> string \<Rightarrow> launch_snapshot \<Rightarrow> ledger_call list
    \<Rightarrow> (launch_snapshot \<times> failure option) \<times> ledger_call list" where
  "load_loop E l request n parent s h =
     (if n > MaxLaunchAttempts then ((s, Some Corrupt), h)
      else let i = attempt_id request parent in
        case read_record E l (decode_struct prepared_fields) zero_prepared (ledger_key l request i ''prepared'') h of
          (Inl e, h) \<Rightarrow>
            if e = NotFound
            then (case orphans E l [ledger_key l request i ''dispatch'', ledger_key l request i ''response''] h of
                    (err, h) \<Rightarrow> ((s, err), h))
            else ((s, Some e), h)
        | (Inr p, h) \<Rightarrow>
            if n = MaxLaunchAttempts \<or> ar_AttemptID (pr_Attempt p) \<noteq> i
               \<or> \<not> validPrepared (s3_inputDigest E) (sn_Receipt s) p
            then ((s, Some Corrupt), h)
            else (case load_attempt E l request i n p s h of
                    (s, Some e, h) \<Rightarrow> ((s, Some e), h)
                  | (s, None, h) \<Rightarrow> load_loop E l request (Suc n) i s h))"
  by pat_completeness auto

termination by (relation "measure (\<lambda>(E, l, request, n, parent, s, h). Suc MaxLaunchAttempts - n)") auto

declare load_loop.simps [simp del]

definition start_snapshot :: "string \<Rightarrow> launch_plan \<Rightarrow> launch_snapshot" where
  "start_snapshot request plan = empty_snapshot\<lparr>sn_Receipt := \<lparr>br_SchemaVersion = batchVersion (lp_SchemaVersion plan),
     br_RequestID = request, br_Plan = plan, br_PlanSHA256 = Digest plan, br_Attempts = []\<rparr>\<rparr>"

definition Load :: "s3_env \<Rightarrow> s3_ledger \<Rightarrow> string \<Rightarrow> ledger_call list \<Rightarrow> (launch_snapshot \<times> failure option) \<times> ledger_call list" where
  "Load E l request h =
     (if \<not> ValidRequest request then ((empty_snapshot, Some Corrupt), h)
      else (case read_record E l plan_decode zero_plan (ledger_key l request [] []) h of
              (Inl e, h) \<Rightarrow> ((empty_snapshot, Some e), h)
            | (Inr plan, h) \<Rightarrow>
                if lp_RequestID plan \<noteq> request \<or> \<not> validPlan l plan then ((empty_snapshot, Some Corrupt), h)
                else load_loop E l request 0 [] (start_snapshot request plan) h))"

section \<open>Prepare, Claim and RecordResponse\<close>

text \<open>What \<open>Prepare\<close> demands of the receipt before it writes anything.\<close>

definition prepare_ok :: "s3_env \<Rightarrow> s3_ledger \<Rightarrow> batch_receipt \<Rightarrow> prepared_attempt \<Rightarrow> bool" where
  "prepare_ok E l r p \<longleftrightarrow> validPlan l (br_Plan r) \<and> lp_LaunchLedger (br_Plan r) = ld_descriptor l \<and> Receipt_Validate r = Inr ()
     \<and> \<not> length (br_Attempts r) > MaxLaunchAttempts \<and> last (br_Attempts r) = pr_Attempt p
     \<and> validPrepared (s3_inputDigest E) (r\<lparr>br_Attempts := butlast (br_Attempts r)\<rparr>) p"

text \<open>The comparison of the receipt with the history that was loaded.\<close>

definition same_history :: "batch_receipt \<Rightarrow> prepared_attempt \<Rightarrow> launch_snapshot \<Rightarrow> bool" where
  "same_history r p s \<longleftrightarrow> br_PlanSHA256 (sn_Receipt s) = br_PlanSHA256 r
     \<and> (case map_of (sn_Prepared s) (ar_AttemptID (pr_Attempt p)) of
          None \<Rightarrow> br_Attempts (sn_Receipt s) = butlast (br_Attempts r)
        | Some existing \<Rightarrow> existing = p \<and> length (br_Attempts (sn_Receipt s)) = length (br_Attempts r)
            \<and> butlast (br_Attempts (sn_Receipt s)) = butlast (br_Attempts r))"

definition ledger_Prepare :: "s3_env \<Rightarrow> s3_ledger \<Rightarrow> batch_receipt \<Rightarrow> prepared_attempt \<Rightarrow> ledger_call list \<Rightarrow> (failure + unit) \<times> ledger_call list" where
  "ledger_Prepare E l r p h =
     (if \<not> prepare_ok E l r p then (Inl Corrupt, h)
      else (case putImmutable E l (ledger_key l (br_RequestID r) [] []) (e_plan (br_Plan r)) h of
              (Inl e, h) \<Rightarrow> (Inl e, h)
            | (Inr _, h) \<Rightarrow>
                (case Load E l (br_RequestID r) h of
                   ((s, Some e), h) \<Rightarrow> (Inl e, h)
                 | ((s, None), h) \<Rightarrow>
                     if \<not> same_history r p s then (Inl Conflict, h)
                     else putImmutable E l (ledger_key l (br_RequestID r) (ar_AttemptID (pr_Attempt p)) ''prepared'') (e_prepared p) h)))"

definition ledger_Claim :: "s3_env \<Rightarrow> s3_ledger \<Rightarrow> launch_ledger \<Rightarrow> dispatch_claim \<Rightarrow> ledger_call list \<Rightarrow> (failure + bool) \<times> ledger_call list" where
  "ledger_Claim E l d c h =
     (if d \<noteq> ld_descriptor l \<or> \<not> ValidRequest (dc_RequestID c) \<or> \<not> ValidRequest (dc_AttemptID c) then (Inl Corrupt, h)
      else (case Load E l (dc_RequestID c) h of
              ((s, Some e), h) \<Rightarrow> (Inl e, h)
            | ((s, None), h) \<Rightarrow>
                if lp_LaunchLedger (br_Plan (sn_Receipt s)) \<noteq> ld_descriptor l then (Inl Conflict, h)
                else (case map_of (sn_Prepared s) (dc_AttemptID c) of
                        None \<Rightarrow> (Inl Corrupt, h)
                      | Some p \<Rightarrow>
                          if c \<noteq> expectedClaim p then (Inl Corrupt, h)
                          else if map_of (sn_Claims s) (dc_AttemptID c) \<noteq> None then (Inr False, h)
                          else if br_Attempts (sn_Receipt s) = [] \<or> ar_AttemptID (last (br_Attempts (sn_Receipt s))) \<noteq> dc_AttemptID c
                          then (Inl Conflict, h)
                          else (case put E l (ledger_key l (dc_RequestID c) (dc_AttemptID c) ''dispatch'') (e_claim c) h of
                                  (Inl e, h) \<Rightarrow> (if e = Conflict then Inr False else Inl e, h)
                                | (Inr _, h) \<Rightarrow> (Inr True, h)))))"

definition ledger_RecordResponse :: "s3_env \<Rightarrow> s3_ledger \<Rightarrow> launch_ledger \<Rightarrow> attempt_response \<Rightarrow> ledger_call list \<Rightarrow> (failure + unit) \<times> ledger_call list" where
  "ledger_RecordResponse E l d x h =
     (let i = ar_AttemptID (rsp_Attempt x) in
      if d \<noteq> ld_descriptor l \<or> \<not> ValidRequest (rsp_RequestID x) \<or> \<not> ValidRequest i then (Inl Corrupt, h)
      else (case Load E l (rsp_RequestID x) h of
              ((s, Some e), h) \<Rightarrow> (Inl e, h)
            | ((s, None), h) \<Rightarrow>
                (case map_of (sn_Prepared s) i of
                   None \<Rightarrow> (Inl Corrupt, h)
                 | Some p \<Rightarrow>
                     if map_of (sn_Claims s) (ar_AttemptID (pr_Attempt p)) \<noteq> Some (expectedClaim p) then (Inl Corrupt, h)
                     else let prior = (sn_Receipt s)\<lparr>br_Attempts :=
                            takeWhile (\<lambda>a. ar_AttemptID a \<noteq> ar_AttemptID (pr_Attempt p)) (br_Attempts (sn_Receipt s))\<rparr>
                       in if \<not> validResponse prior p x then (Inl Corrupt, h)
                          else putImmutable E l (ledger_key l (rsp_RequestID x) (ar_AttemptID (pr_Attempt p)) ''response'') (e_response x) h)))"

end
