(* ===== verification/LedgerProperties.thy ===== *)
theory LedgerProperties
  imports LaunchLedger
begin

text \<open>
  What the shared launch ledger guarantees: reading never writes and always ends, \<open>Load\<close> only returns
  valid lineages, and a dispatch claim is won at most once among all processes that ever try.
\<close>

section \<open>Which calls an operation makes\<close>

text \<open>\<open>reads_to k h h'\<close>: from \<open>h\<close> to \<open>h'\<close> there are at most \<open>k\<close> calls, none of which writes.\<close>

definition writing :: "ledger_call \<Rightarrow> bool" where
  "writing c \<longleftrightarrow> (case c of PutObject _ \<Rightarrow> True | _ \<Rightarrow> False)"

definition reads_to :: "nat \<Rightarrow> ledger_call list \<Rightarrow> ledger_call list \<Rightarrow> bool" where
  "reads_to k h h' \<longleftrightarrow> (\<exists>cs. h' = cs @ h \<and> length cs \<le> k \<and> list_all (\<lambda>c. \<not> writing c) cs)"

lemma reads_to_refl [simp]: "reads_to k h h"
  by (simp add: reads_to_def)

lemma reads_to_trans: "reads_to j h h1 \<Longrightarrow> reads_to k h1 h2 \<Longrightarrow> reads_to (j + k) h h2"
  unfolding reads_to_def by force

lemma reads_to_mono: "reads_to j h h' \<Longrightarrow> j \<le> k \<Longrightarrow> reads_to k h h'"
  unfolding reads_to_def by force

lemma reads_to_Cons: "\<not> writing c \<Longrightarrow> reads_to 1 h (c # h)"
  unfolding reads_to_def by (rule exI [of _ "[c]"]) simp

lemma getOnce_reads [calls]: "reads_to 1 h (snd (getOnce E l key h))"
  by (simp add: getOnce_def Let_def reads_to_def writing_def)

lemma get_reads [calls]: "reads_to 3 h (snd (get E l key h))"
proof (cases "getOnce E l key h")
  case (Pair b h1)
  have a: "reads_to 1 h h1" using getOnce_reads [of h E l key] by (simp add: Pair)
  let ?h = "ListObjects (ll_Bucket (ld_descriptor l)) (ll_ExpectedBucketOwner (ld_descriptor l)) key 1 # h1"
  have b: "reads_to 2 h ?h" using reads_to_trans [OF a reads_to_Cons] by (simp add: writing_def numeral_2_eq_2)
  have c: "reads_to 3 h (snd (getOnce E l key ?h))" using reads_to_trans [OF b getOnce_reads] by simp
  show ?thesis
    using reads_to_mono [OF a] reads_to_mono [OF b] c
    by (auto simp: get_def Pair Let_def split: prod.split option.split listed.split)
qed

lemma read_record_reads [calls]: "reads_to 3 h (snd (read_record E l d z key h))"
  using get_reads [of h E l key] by (auto simp: read_record_def split: prod.split sum.split)

lemma orphans_reads: "reads_to (3 * length keys) h (snd (orphans E l keys h))"
proof (induction keys arbitrary: h)
  case (Cons key keys)
  obtain b h1 where g: "get E l key h = (b, h1)" by fastforce
  have a: "reads_to 3 h h1" using get_reads [of h E l key] by (simp add: g)
  have "reads_to (3 + 3 * length keys) h (snd (orphans E l keys h1))" using reads_to_trans [OF a Cons.IH] .
  then show ?case using reads_to_mono [OF a] by (auto simp: g split: sum.split)
qed simp

lemma load_attempt_reads: "reads_to 6 h (snd (snd (load_attempt E l request i n p s h)))"
proof -
  obtain rc h1 where c: "read_record E l (decode_struct claim_fields) zero_claim (ledger_key l request i ''dispatch'') h = (rc, h1)"
    by fastforce
  obtain rr h2 where r: "read_record E l (decode_struct response_fields) zero_response (ledger_key l request i ''response'') h1 = (rr, h2)"
    by fastforce
  have "reads_to 3 h h1" "reads_to 3 h1 h2"
    using read_record_reads [of h E l "decode_struct claim_fields" zero_claim] read_record_reads [of h1 E l "decode_struct response_fields" zero_response] c r
    by (metis snd_conv)+
  from reads_to_trans [OF this] show ?thesis by (simp add: load_attempt_def Let_def c r split: prod.split)
qed

lemma load_loop_reads: "reads_to (9 * (257 - n)) h (snd (load_loop E l request n parent s h))"
proof (induction E l request n parent s h rule: load_loop.induct)
  case (1 E l request n parent s h)
  show ?case
  proof (cases "n > MaxLaunchAttempts")
    case True
    then show ?thesis by (subst load_loop.simps) simp
  next
    case False
    then have n: "9 * (257 - n) = 9 + 9 * (257 - Suc n)" by (simp add: MaxLaunchAttempts_def)
    let ?i = "attempt_id request parent"
    obtain rp h1 where p: "read_record E l (decode_struct prepared_fields) zero_prepared (ledger_key l request ?i ''prepared'') h = (rp, h1)"
      by fastforce
    have r1: "reads_to 3 h h1" using read_record_reads [of h E l "decode_struct prepared_fields" zero_prepared] p by (metis snd_conv)
    have o: "reads_to 9 h (snd (orphans E l [ledger_key l request ?i ''dispatch'', ledger_key l request ?i ''response''] h1))"
      using reads_to_trans [OF r1 orphans_reads [of "[ledger_key l request ?i ''dispatch'', ledger_key l request ?i ''response'']" h1 E l]] by simp
    show ?thesis
    proof (cases rp)
      case (Inl e)
      then show ?thesis
        using reads_to_mono [OF r1, of "9 + 9 * (257 - Suc n)"] reads_to_mono [OF o, of "9 + 9 * (257 - Suc n)"] False
        by (subst load_loop.simps) (auto simp: p n Let_def split: prod.split)
    next
      case (Inr q)
      obtain s1 err h2 where a: "load_attempt E l request ?i n q s h1 = (s1, err, h2)" by (metis prod_cases3)
      have r2: "reads_to 9 h h2" using reads_to_trans [OF r1 load_attempt_reads [of h1 E l request ?i n q s]] by (simp add: a)
      have "reads_to (9 + 9 * (257 - Suc n)) h (snd (load_loop E l request (Suc n) ?i s1 h2))"
        if "\<not> (n = MaxLaunchAttempts \<or> ar_AttemptID (pr_Attempt q) \<noteq> ?i \<or> \<not> validPrepared (s3_inputDigest E) (sn_Receipt s) q)" "err = None"
        using reads_to_trans [OF r2 "1.IH" [OF False refl p [symmetric] Inr that(1) a [symmetric] refl]] that(2) by simp
      then show ?thesis
        using reads_to_mono [OF r1, of "9 + 9 * (257 - Suc n)"] reads_to_mono [OF r2, of "9 + 9 * (257 - Suc n)"] False
        by (subst load_loop.simps) (auto simp: p n Inr a Let_def split: option.split)
    qed
  qed
qed

lemma Load_calls: "reads_to 2316 h (snd (Load E l request h))"
proof (cases "ValidRequest request")
  case True
  obtain rp h1 where p: "read_record E l plan_decode zero_plan (ledger_key l request [] []) h = (rp, h1)" by fastforce
  have r1: "reads_to 3 h h1" using read_record_reads [of h E l plan_decode zero_plan] p by (metis snd_conv)
  have "reads_to 2316 h (snd (load_loop E l request 0 [] s h1))" for s
    using reads_to_trans [OF r1 load_loop_reads [of 0 h1 E l request "[]" s]] by simp
  then show ?thesis using reads_to_mono [OF r1, of 2316] True by (auto simp: Load_def p split: sum.split)
qed (simp add: Load_def)

lemma Load_reads: "Load E l request h = (x, h') \<Longrightarrow> reads_to 2316 h h'"
  using Load_calls [of h E l request] by simp

text \<open>C21.  \<open>Load\<close> always returns, whatever S3 answers, after at most 2,316 calls (three for the plan and nine for each of
  the 257 attempts it looks at), and it never writes.\<close>

theorem load_bounded:
  "\<exists>cs. snd (Load E l request h) = cs @ h \<and> length cs \<le> 2316 \<and> list_all (\<lambda>c. \<not> writing c) cs"
  using Load_calls [of h E l request] by (simp add: reads_to_def)


section \<open>Claims\<close>

definition acked :: "put_reply \<Rightarrow> bool" where
  "acked y \<longleftrightarrow> pu_err y = None \<and> pu_out y"

text \<open>The writes of a process, newest first, with the reply it saw.\<close>

fun writes :: "s3_env \<Rightarrow> ledger_call list \<Rightarrow> (put_input \<times> bool) list" where
  "writes E [] = []"
| "writes E (c # h) = (case c of PutObject i \<Rightarrow> [(i, acked (s3_put E (c # h)))] | _ \<Rightarrow> []) @ writes E h"

lemma writes_reads: "list_all (\<lambda>c. \<not> writing c) cs \<Longrightarrow> writes E (cs @ h) = writes E h"
  by (induction cs) (auto simp: writing_def split: ledger_call.splits)

lemma writes_reads_to: "reads_to k h h' \<Longrightarrow> writes E h' = writes E h"
  by (auto simp: reads_to_def writes_reads)

definition claim_write :: "s3_ledger \<Rightarrow> dispatch_claim \<Rightarrow> put_input" where
  "claim_write l c = put_request l (ledger_key l (dc_RequestID c) (dc_AttemptID c) ''dispatch'') (json_print (e_claim c))"

lemma put_spec:
  "put E l key j h = (r, h') \<Longrightarrow>
     (h' = h \<and> r = Inl Corrupt) \<or>
     (h' = PutObject (put_request l key (json_print j)) # h \<and> (r = Inr () \<longleftrightarrow> acked (s3_put E h')))"
  by (auto simp: put_def Let_def acked_def split: if_splits option.splits)

text \<open>What a claim does: it reads, and unless it was refused by what it read, writes once.  It is won exactly
  when that one write is acknowledged.\<close>

lemma claim_spec:
  assumes "ledger_Claim E l d c h = (r, h')"
  shows "(\<exists>h1. reads_to 2316 h h1 \<and> h' = h1 \<and> r \<noteq> Inr True) \<or>
    (\<exists>h1. reads_to 2316 h h1 \<and> h' = PutObject (claim_write l c) # h1 \<and> (r = Inr True \<longleftrightarrow> acked (s3_put E h')))"
proof (cases "d \<noteq> ld_descriptor l \<or> \<not> ValidRequest (dc_RequestID c) \<or> \<not> ValidRequest (dc_AttemptID c)")
  case True
  then show ?thesis using assms by (auto simp: ledger_Claim_def)
next
  case False
  obtain s err h1 where L: "Load E l (dc_RequestID c) h = ((s, err), h1)" by (metis prod_cases3 surj_pair)
  note reads = Load_reads [OF L]
  obtain x h2 where P: "put E l (ledger_key l (dc_RequestID c) (dc_AttemptID c) ''dispatch'') (e_claim c) h1 = (x, h2)" by fastforce
  have "(h' = h1 \<and> r \<noteq> Inr True) \<or> (h' = h2 \<and> (r = Inr True \<longleftrightarrow> x = Inr ()))"
    using assms False P by (auto simp: ledger_Claim_def L split: option.splits if_splits sum.splits)
  then show ?thesis using put_spec [OF P] reads by (auto simp: claim_write_def)
qed

lemma claim_won:
  assumes "ledger_Claim E l d c h = (Inr True, h')"
  obtains h1 where "h' = PutObject (claim_write l c) # h1" "acked (s3_put E h')" "reads_to 2316 h h1"
  using claim_spec [OF assms] by blast

section \<open>One winner\<close>

text \<open>
  The bucket, shared by all processes.  A write with \<open>If-None-Match: *\<close> takes effect only when the key is
  free, and whether or not its acknowledgement arrives; a write that takes no effect is not acknowledged.
  Other writers may overwrite.  Records are never deleted.  An event is the process, the request and whether
  the process got an acknowledgement, newest first.
\<close>

type_synonym store_event = "nat \<times> put_input \<times> bool"

abbreviation slot :: "put_input \<Rightarrow> string \<times> string" where
  "slot i \<equiv> (pt_Bucket i, pt_Key i)"

inductive s3_store :: "store_event list \<Rightarrow> (string \<times> string \<rightharpoonup> string) \<Rightarrow> bool" where
  initial: "s3_store [] m"
| created: "s3_store tr m \<Longrightarrow> pt_IfNoneMatch i = ''*'' \<Longrightarrow> m (slot i) = None \<Longrightarrow>
    s3_store ((q, i, ack) # tr) (m(slot i \<mapsto> pt_Body i))"
| overwritten: "s3_store tr m \<Longrightarrow> pt_IfNoneMatch i \<noteq> ''*'' \<Longrightarrow> s3_store ((q, i, ack) # tr) (m(slot i \<mapsto> pt_Body i))"
| refused: "s3_store tr m \<Longrightarrow> s3_store ((q, i, False) # tr) m"

inductive_cases s3_store_ConsE: "s3_store ((q, i, ack) # tr) m"

text \<open>The specification: every slot elects at most one process, once.\<close>

inductive one_shot :: "(nat \<times> 'k) list \<Rightarrow> ('k \<rightharpoonup> nat) \<Rightarrow> bool" where
  nobody: "one_shot [] Map.empty"
| elected: "one_shot es w \<Longrightarrow> w k = None \<Longrightarrow> one_shot ((q, k) # es) (w(k \<mapsto> q))"

definition wins :: "store_event \<Rightarrow> bool" where
  "wins e \<longleftrightarrow> snd (snd e) \<and> pt_IfNoneMatch (fst (snd e)) = ''*''"

definition elections :: "store_event list \<Rightarrow> (nat \<times> string \<times> string) list" where
  "elections tr = map (\<lambda>e. (fst e, slot (fst (snd e)))) (filter wins tr)"

definition winner :: "store_event list \<Rightarrow> (string \<times> string \<rightharpoonup> nat)" where
  "winner tr = map_of (map (\<lambda>(q, k). (k, q)) (elections tr))"

text \<open>What a history of elections promises, whatever records the winners: an interface of the store to the
  processes that dispatch.\<close>

locale one_shot_log =
  fixes run :: "'e list \<Rightarrow> bool" and won :: "'e \<Rightarrow> bool" and at :: "'e \<Rightarrow> 'k"
  assumes earlier: "run (e # tr) \<Longrightarrow> run tr"
    and fresh: "run (e # tr) \<Longrightarrow> won e \<Longrightarrow> x \<in> set tr \<Longrightarrow> won x \<Longrightarrow> at x \<noteq> at e"
begin

lemma at_most_once: "run tr \<Longrightarrow> length (filter (\<lambda>e. won e \<and> at e = k) tr) \<le> 1"
proof (induction tr)
  case (Cons e tr)
  show ?case
  proof (cases "won e \<and> at e = k")
    case True
    then have "filter (\<lambda>e. won e \<and> at e = k) tr = []"
      using fresh [OF Cons.prems] by (auto simp: filter_empty_conv)
    then show ?thesis by simp
  next
    case False
    then have "filter (\<lambda>e. won e \<and> at e = k) (e # tr) = filter (\<lambda>e. won e \<and> at e = k) tr" by simp
    then show ?thesis using Cons.IH [OF earlier [OF Cons.prems]] by simp
  qed
qed simp

lemma distinct_winners: "run tr \<Longrightarrow> distinct (map at (filter won tr))"
proof (induction tr)
  case (Cons e tr)
  have "at e \<notin> at ` set (filter won tr)" if "won e"
    using fresh [OF Cons.prems that] by force
  then show ?case using Cons.IH [OF earlier [OF Cons.prems]] by simp
qed simp

end

lemma s3_store_won:
  "s3_store tr m \<Longrightarrow> e \<in> set tr \<Longrightarrow> wins e \<Longrightarrow> m (slot (fst (snd e))) \<noteq> None"
  by (induction rule: s3_store.induct) (auto simp: wins_def)

interpretation store: one_shot_log "\<lambda>tr. \<exists>m. s3_store tr m" wins "\<lambda>e. slot (fst (snd e))"
proof
  fix e :: store_event and tr
  assume run: "\<exists>m. s3_store (e # tr) m"
  obtain q i ack where e: "e = (q, i, ack)" by (metis prod_cases3)
  from run obtain m where "s3_store ((q, i, ack) # tr) m" by (auto simp: e)
  then obtain m0 where m0: "s3_store tr m0" "wins e \<Longrightarrow> m0 (slot i) = None"
    by (cases rule: s3_store_ConsE) (auto simp: e wins_def)
  show "\<exists>m. s3_store tr m" using m0(1) by blast
  show "slot (fst (snd x)) \<noteq> slot (fst (snd e))" if "wins e" "x \<in> set tr" "wins x" for x
    using s3_store_won [OF m0(1) that(2,3)] m0(2) [OF that(1)] by (auto simp: e)
qed

lemma winner_None: "winner tr k = None \<longleftrightarrow> (\<forall>e \<in> set tr. wins e \<longrightarrow> slot (fst (snd e)) \<noteq> k)"
  by (force simp: winner_def elections_def map_of_eq_None_iff)

lemma elections_Cons: "elections (e # tr) = (if wins e then (fst e, slot (fst (snd e))) # elections tr else elections tr)"
  by (simp add: elections_def)

lemma winner_Cons: "winner (e # tr) = (if wins e then (winner tr)(slot (fst (snd e)) \<mapsto> fst e) else winner tr)"
  by (simp add: winner_def elections_Cons)


text \<open>Every process sees its own part of the run.\<close>

definition observes :: "store_event list \<Rightarrow> (nat \<Rightarrow> s3_env) \<Rightarrow> (nat \<Rightarrow> ledger_call list) \<Rightarrow> bool" where
  "observes tr E H \<longleftrightarrow> (\<forall>q. map snd (filter (\<lambda>e. fst e = q) tr) = writes (E q) (H q))"

definition winning :: "string \<times> string \<Rightarrow> put_input \<times> bool \<Rightarrow> bool" where
  "winning k w \<longleftrightarrow> snd w \<and> pt_IfNoneMatch (fst w) = ''*'' \<and> slot (fst w) = k"

lemma writes_append: "\<exists>ws. writes E (cs @ h) = ws @ writes E h"
proof (induction cs)
  case (Cons c cs)
  then show ?case by (auto split: ledger_call.split)
qed simp

lemma winning_count:
  assumes "observes tr E H"
  shows "length (filter (winning k) (writes (E q) (H q))) = length (filter (\<lambda>e. fst e = q \<and> wins e \<and> slot (fst (snd e)) = k) tr)"
proof -
  have "filter (winning k) (writes (E q) (H q)) = filter (winning k) (map snd (filter (\<lambda>e. fst e = q) tr))"
    using assms by (simp add: observes_def)
  then show ?thesis
    by (simp add: filter_map o_def winning_def wins_def conj_ac)
qed

lemma filter_two_length: "(\<And>x. P x \<Longrightarrow> Q x \<Longrightarrow> False) \<Longrightarrow> (\<And>x. P x \<Longrightarrow> R x) \<Longrightarrow> (\<And>x. Q x \<Longrightarrow> R x) \<Longrightarrow>
    length (filter P xs) + length (filter Q xs) \<le> length (filter R xs)"
proof (induction xs)
  case (Cons x xs)
  then show ?case by (cases "R x") (auto intro: le_SucI)
qed simp

lemma filter_less_length: "(\<And>x. P x \<Longrightarrow> Q x) \<Longrightarrow> length (filter P xs) \<le> length (filter Q xs)"
  using filter_two_length [of P "\<lambda>_. False" Q xs] by simp

lemma won_count:
  assumes "ledger_Claim E l d c h = (Inr True, h')" "H0 = cs @ h'"
  shows "\<exists>n. length (filter (winning (slot (claim_write l c))) (writes E (H0))) = Suc n"
proof -
  from claim_won [OF assms(1)] obtain h1 where h1: "h' = PutObject (claim_write l c) # h1" "acked (s3_put E h')" by metis
  have "winning (slot (claim_write l c)) (claim_write l c, True)" by (simp add: winning_def claim_write_def put_request_def)
  then show ?thesis using writes_append [of "E" cs h'] h1 by (auto simp: assms(2))
qed

lemma winning_writes:
  assumes "s3_store tr m" "observes tr E H"
  shows "length (filter (winning k) (writes (E q) (H q))) \<le> 1"
    and "q' \<noteq> q \<Longrightarrow> length (filter (winning k) (writes (E q) (H q))) + length (filter (winning k) (writes (E q') (H q'))) \<le> 1"
proof -
  have one: "length (filter (\<lambda>e. wins e \<and> slot (fst (snd e)) = k) tr) \<le> 1" using store.at_most_once assms(1) by blast
  then show "length (filter (winning k) (writes (E q) (H q))) \<le> 1"
    unfolding winning_count [OF assms(2)] by (rule order_trans [OF filter_less_length, rotated]) simp
  show "length (filter (winning k) (writes (E q) (H q))) + length (filter (winning k) (writes (E q') (H q'))) \<le> 1" if "q' \<noteq> q"
    unfolding winning_count [OF assms(2)] by (intro order_trans [OF filter_two_length one]) (use that in auto)
qed

lemma claim_slot: "dc_RequestID c' = dc_RequestID c \<Longrightarrow> dc_AttemptID c' = dc_AttemptID c \<Longrightarrow> slot (claim_write l c') = slot (claim_write l c)"
  by (simp add: claim_write_def put_request_def)

lemma one_process:
  assumes "s3_store tr m" "observes tr E H"
    and "ledger_Claim (E q) l d c h = (Inr True, g)" "H q = later @ g"
    and "ledger_Claim (E q') l d' c' h' = (Inr True, g')" "H q' = later' @ g'" "slot (claim_write l c') = slot (claim_write l c)"
  shows "q' = q"
proof (rule ccontr)
  assume "q' \<noteq> q"
  from winning_writes(2) [OF assms(1,2) this, of "slot (claim_write l c)"]
  show False using won_count [OF assms(3,4)] won_count [OF assms(5,6)] unfolding assms(7) by force
qed

lemma one_call:
  assumes "s3_store tr m" "observes tr E H"
    and "ledger_Claim (E q) l d c h = (Inr True, g)" "H q = later @ g"
    and "ledger_Claim (E q) l d' c' h' = (Inr True, g')" "H q = later' @ g'" "slot (claim_write l c') = slot (claim_write l c)"
  shows "g' = g"
proof -
  let ?k = "slot (claim_write l c)"
  have less1: "length (filter (winning ?k) (writes (E q) (later @ g))) \<le> 1"
    using winning_writes(1) [OF assms(1,2)] assms(4) by metis
  from claim_won [OF assms(3)] obtain h1 where g: "g = PutObject (claim_write l c) # h1" "acked (s3_put (E q) g)" by metis
  from claim_won [OF assms(5)] obtain h1' where g': "g' = PutObject (claim_write l c') # h1'" "acked (s3_put (E q) g')" by metis
  have w: "winning ?k (claim_write l c, True)" "winning ?k (claim_write l c', True)"
    using assms(7) by (simp_all add: winning_def claim_write_def put_request_def)
  have "later @ g = later' @ g'" using assms(4,6) by simp
  then consider (same) "g' = g" | (left) us where "h1 = us @ g'" | (right) us where "h1' = us @ g"
    unfolding append_eq_append_conv2 g(1) g'(1) by (auto simp: append_eq_Cons_conv Cons_eq_append_conv)
  then show "g' = g"
  proof cases
    case left
    then have "2 \<le> length (filter (winning ?k) (writes (E q) g))"
      using writes_append [of "E q" us g'] g g' w by auto
    then show ?thesis using less1 writes_append [of "E q" later g] by auto
  next
    case right
    then have "2 \<le> length (filter (winning ?k) (writes (E q) g'))"
      using writes_append [of "E q" us g] g g' w by auto
    then show ?thesis using less1 writes_append [of "E q" later' g'] assms(4,6) by auto
  qed simp
qed

text \<open>C23.  A dispatch claim has one winner.  Among all processes that share the bucket, in every interleaving of their calls,
  with lost replies, retries and other writers, two calls of \<open>Claim\<close> for the same attempt that both return
  true are the same call of the same process.\<close>

theorem claim_single_winner:
  assumes "s3_store tr m" "observes tr E H"
    and "ledger_Claim (E q) l d c h = (Inr True, g)" "H q = later @ g"
    and "ledger_Claim (E q') l d' c' h' = (Inr True, g')" "H q' = later' @ g'"
    and "dc_RequestID c' = dc_RequestID c" "dc_AttemptID c' = dc_AttemptID c"
  shows "q' = q \<and> g' = g"
proof -
  note same = claim_slot [OF assms(7,8)]
  have "q' = q" by (rule one_process [OF assms(1-6) same])
  with one_call [OF assms(1-4) _ _ same] assms(5,6) show ?thesis by simp
qed

section \<open>What Load returns\<close>

text \<open>Changing the state of the last attempt keeps a receipt valid when the new state allows what the attempt
  holds.\<close>

lemma attempts_ok_cong:
  "br_RequestID r' = br_RequestID r \<Longrightarrow> br_Plan r' = br_Plan r \<Longrightarrow> br_PlanSHA256 r' = br_PlanSHA256 r \<Longrightarrow>
     attempts_ok r' f fl par as = attempts_ok r f fl par as"
proof (induction as arbitrary: f fl par)
  case (Cons a as)
  then have "attempt_pinned r' k par a = attempt_pinned r k par a" for k by (simp add: attempt_pinned_def cong: sum.case_cong)
  with Cons show ?case by simp
qed simp

definition same_pins :: "attempt_receipt \<Rightarrow> attempt_receipt \<Rightarrow> bool" where
  "same_pins a b \<longleftrightarrow> ar_AttemptID b = ar_AttemptID a \<and> ar_ParentID b = ar_ParentID a \<and> ar_ClientToken b = ar_ClientToken a
     \<and> ar_RequestedCount b = ar_RequestedCount a \<and> ar_CreatedAt b = ar_CreatedAt a \<and> ids_of b = ids_of a"

lemma attempts_ok_replace:
  "attempts_ok r f fl par (as @ [a]) \<Longrightarrow> same_pins a b \<Longrightarrow> (\<And>fls. attempt_state_ok fls a \<Longrightarrow> attempt_state_ok fls b) \<Longrightarrow>
     attempts_ok r f fl par (as @ [b])"
proof (induction as arbitrary: f fl par)
  case Nil
  then have "attempt_pinned r k par b = attempt_pinned r k par a" for k
    by (simp add: attempt_pinned_def same_pins_def cong: sum.case_cong)
  with Nil show ?case by (simp add: same_pins_def split: if_splits)
next
  case (Cons x xs)
  from Cons.prems(1) show ?case
    using Cons.IH [OF _ Cons.prems(2,3)] by (simp split: if_splits)
qed

lemma Validate_replace:
  assumes "Receipt_Validate (add_attempt r a) = Inr ()" "same_pins a b" "\<And>fls. attempt_state_ok fls a \<Longrightarrow> attempt_state_ok fls b"
  shows "Receipt_Validate (add_attempt r b) = Inr ()"
proof -
  have "attempts_ok (add_attempt r a) [] [] [] (br_Attempts r @ [a])"
    using Receipt_Validate_ok(1) [OF assms(1)] by (simp add: add_attempt_def)
  then have "attempts_ok (add_attempt r b) [] [] [] (br_Attempts r @ [b])"
    using attempts_ok_replace [OF _ assms(2,3)] attempts_ok_cong [of "add_attempt r b" "add_attempt r a"]
    by (simp add: add_attempt_def)
  with assms(1) show ?thesis by (simp add: Receipt_Validate_def add_attempt_def split: if_splits)
qed

lemma state_ok_unknown: "attempt_state_ok fls a \<Longrightarrow> attempt_state_ok fls (a\<lparr>ar_State := ''unknown''\<rparr>)"
  by (auto simp: attempt_state_ok_def states_def ids_of_def)

lemma state_ok_dispatched:
  "ids_of a = [] \<Longrightarrow> ar_FleetID a = [] \<Longrightarrow> 0 \<le> ar_RequestedCount a \<Longrightarrow> attempt_state_ok fls (a\<lparr>ar_State := ''dispatched''\<rparr>)"
  by (auto simp: attempt_state_ok_def states_def ids_of_def)

text \<open>Every state a snapshot reports is backed by records.\<close>

definition evidence :: "launch_snapshot \<Rightarrow> attempt_receipt \<Rightarrow> bool" where
  "evidence s a \<longleftrightarrow>
     (ar_State a \<noteq> ''prepared'' \<longrightarrow> map_of (sn_Claims s) (ar_AttemptID a) \<noteq> None)
     \<and> (ar_State a \<noteq> ''prepared'' \<and> ar_State a \<noteq> ''dispatched'' \<longrightarrow> map_of (sn_Responses s) (ar_AttemptID a) \<noteq> None)"

definition claim_own :: "batch_receipt \<Rightarrow> string \<times> dispatch_claim \<Rightarrow> bool" where
  "claim_own r ic \<longleftrightarrow> dc_RequestID (snd ic) = br_RequestID r \<and> dc_AttemptID (snd ic) = fst ic
     \<and> dc_PlanSHA256 (snd ic) = br_PlanSHA256 r"

definition snapshot_ok :: "launch_snapshot \<Rightarrow> bool" where
  "snapshot_ok s \<longleftrightarrow> (br_Attempts (sn_Receipt s) = [] \<or> Receipt_Validate (sn_Receipt s) = Inr ())
     \<and> list_all (claim_own (sn_Receipt s)) (sn_Claims s)"

lemma set_attempt_last:
  assumes "sn_Receipt s = add_attempt R a" "n = length (br_Attempts R)"
  shows "sn_Receipt (set_attempt n f s) = add_attempt R (f a)"
  using assms by (simp add: set_attempt_def add_attempt_def)

lemma set_attempt_frame [simp]:
  "sn_Prepared (set_attempt n f s) = sn_Prepared s" "sn_Claims (set_attempt n f s) = sn_Claims s"
  "sn_Responses (set_attempt n f s) = sn_Responses s"
  by (simp_all add: set_attempt_def)

lemma add_attempt_simps [simp]:
  "br_Attempts (add_attempt R a) = br_Attempts R @ [a]" "br_RequestID (add_attempt R a) = br_RequestID R"
  "br_Plan (add_attempt R a) = br_Plan R" "br_PlanSHA256 (add_attempt R a) = br_PlanSHA256 R"
  "br_SchemaVersion (add_attempt R a) = br_SchemaVersion R"
  by (simp_all add: add_attempt_def)

lemma validPrepared_ok:
  assumes "validPrepared digest R p"
  shows "Receipt_Validate (add_attempt R (pr_Attempt p)) = Inr ()" "ids_of (pr_Attempt p) = []" "ar_FleetID (pr_Attempt p) = []"
    "ar_State (pr_Attempt p) = ''prepared''" "pr_RequestID p = br_RequestID R" "pr_PlanSHA256 p = br_PlanSHA256 R"
    "0 \<le> ar_RequestedCount (pr_Attempt p)"
proof -
  show v: "Receipt_Validate (add_attempt R (pr_Attempt p)) = Inr ()" using assms by (simp add: validPrepared_def)
  show "0 \<le> ar_RequestedCount (pr_Attempt p)"
    using attempts_ok_count [OF Receipt_Validate_ok(1) [OF v], of "length (br_Attempts R)"] by simp
qed (use assms in \<open>simp_all add: validPrepared_def prepared_shape_def ids_of_def\<close>)

text \<open>The three steps of one attempt, over the receipt \<open>R\<close> before it.\<close>

definition step_ok :: "batch_receipt \<Rightarrow> string \<Rightarrow> launch_snapshot \<Rightarrow> attempt_receipt \<Rightarrow> bool" where
  "step_ok R i s a \<longleftrightarrow> sn_Receipt s = add_attempt R a \<and> Receipt_Validate (add_attempt R a) = Inr () \<and> ar_AttemptID a = i
     \<and> list_all (claim_own R) (sn_Claims s)"

lemma with_prepared_ok:
  assumes "list_all (claim_own (sn_Receipt s)) (sn_Claims s)" "validPrepared digest (sn_Receipt s) p" "ar_AttemptID (pr_Attempt p) = i"
  shows "step_ok (sn_Receipt s) i (with_prepared i p s) (pr_Attempt p)"
  using assms validPrepared_ok(1) [OF assms(2)] by (simp add: step_ok_def with_prepared_def)

lemma list_all_put: "list_all P m \<Longrightarrow> P (k, v) \<Longrightarrow> list_all P (map_put k v m)"
  using set_map_put [of k v m] by (auto simp: list_all_iff)

lemma with_claim_ok:
  assumes "step_ok R i s (pr_Attempt p)" "validPrepared digest R p" "n = length (br_Attempts R)"
  shows "\<exists>a. step_ok R i (with_claim i n (checked_claim p rc) s) a
    \<and> (ar_State a = ''prepared'' \<or> (ar_State a = ''dispatched'' \<and> map_of (sn_Claims (with_claim i n (checked_claim p rc) s)) i \<noteq> None))"
proof (cases "checked_claim p rc")
  case (Inl e)
  then show ?thesis using assms(1) validPrepared_ok(4) [OF assms(2)] by (auto simp: with_claim_def)
next
  case (Inr c)
  note P = validPrepared_ok [OF assms(2)]
  let ?a = "pr_Attempt p" and ?b = "(pr_Attempt p)\<lparr>ar_State := ''dispatched''\<rparr>"
  have c: "c = expectedClaim p" using Inr by (auto simp: checked_claim_def split: sum.splits if_splits)
  have "Receipt_Validate (add_attempt R ?b) = Inr ()"
    by (rule Validate_replace [OF P(1)]) (use P state_ok_dispatched in \<open>auto simp: same_pins_def ids_of_def\<close>)
  moreover have "claim_own R (i, c)" using assms(1) P(5,6) by (simp add: claim_own_def c expectedClaim_def step_ok_def)
  ultimately have "step_ok R i (with_claim i n (Inr c) s) ?b"
    using assms(1,3) set_attempt_last [of "s\<lparr>sn_Claims := map_put i c (sn_Claims s)\<rparr>" R ?a n "ar_State_update (\<lambda>_. ''dispatched'')"]
    by (simp add: step_ok_def with_claim_def list_all_put)
  then show ?thesis unfolding Inr by (rule exI [where P = "\<lambda>a. step_ok R i (with_claim i n (Inr c) s) a \<and> _ a", OF conjI]) (simp add: with_claim_def)
qed

lemma with_claim_claims: "rc = Inr c \<Longrightarrow> map_of (sn_Claims (with_claim i n rc s)) i \<noteq> None"
  by (simp add: with_claim_def)

text \<open>Records are only added.\<close>

definition grows :: "launch_snapshot \<Rightarrow> launch_snapshot \<Rightarrow> bool" where
  "grows s s' \<longleftrightarrow> dom (map_of (sn_Claims s)) \<subseteq> dom (map_of (sn_Claims s')) \<and> dom (map_of (sn_Responses s)) \<subseteq> dom (map_of (sn_Responses s'))"

lemma evidence_grows: "grows s s' \<Longrightarrow> evidence s a \<Longrightarrow> evidence s' a"
  unfolding grows_def evidence_def by blast

lemma with_response_grows: "with_response i n R p rc rr s = (s', err) \<Longrightarrow> grows s s'"
  by (auto simp: with_response_def grows_def Let_def split: sum.splits if_splits)

lemma with_claim_grows: "grows s (with_claim i n rc (with_prepared i p s))"
  by (auto simp: with_claim_def with_prepared_def grows_def split: sum.split)

lemma validResponse_ok:
  assumes "validResponse R p x"
  shows "Receipt_Validate (add_attempt R (rsp_Attempt x)) = Inr ()" "ar_AttemptID (rsp_Attempt x) = ar_AttemptID (pr_Attempt p)"
proof -
  show "Receipt_Validate (add_attempt R (rsp_Attempt x)) = Inr ()"
    using assms by (auto simp: validResponse_def Let_def split: if_splits)
  have "pr_Attempt p = (rsp_Attempt x)\<lparr>ar_State := ''prepared'', ar_FleetID := [], ar_InstanceIDs := Some [], ar_Errors := Some []\<rparr>"
    using assms by (auto simp: validResponse_def Let_def split: if_splits)
  then show "ar_AttemptID (rsp_Attempt x) = ar_AttemptID (pr_Attempt p)" by simp
qed

lemma with_response_ok:
  assumes "step_ok R i s a" "ar_State a = ''prepared'' \<or> (ar_State a = ''dispatched'' \<and> map_of (sn_Claims s) i \<noteq> None)"
    and "\<And>c. rc = Inr c \<Longrightarrow> map_of (sn_Claims s) i \<noteq> None" and n: "n = length (br_Attempts R)"
    and "ar_AttemptID (pr_Attempt p) = i" and "with_response i n R p rc rr s = (s', err)"
  shows "\<exists>b. step_ok R i s' b \<and> (err = None \<longrightarrow> evidence s' b)"
proof (cases rr)
  case (Inl e)
  then have "s' = s" using assms(6) by (auto simp: with_response_def split: if_splits sum.splits)
  moreover have "evidence s a" using assms(1,2) by (auto simp: evidence_def step_ok_def)
  ultimately show ?thesis using assms(1) by blast
next
  case (Inr x)
  show ?thesis
  proof (cases "validResponse R p x")
    case False
    then show ?thesis using assms(1,6) by (auto simp: with_response_def Inr)
  next
    case True
    note x = validResponse_ok [OF True]
    let ?s = "set_attempt n (\<lambda>_. rsp_Attempt x) (s\<lparr>sn_Responses := map_put i x (sn_Responses s)\<rparr>)"
    have receipt: "sn_Receipt ?s = add_attempt R (rsp_Attempt x)"
      using assms(1) n by (intro set_attempt_last) (simp_all add: step_ok_def)
    then have s: "step_ok R i ?s (rsp_Attempt x)" using assms(1,5) x by (simp add: step_ok_def)
    show ?thesis
    proof (cases rc)
      case (Inl e)
      let ?b = "(rsp_Attempt x)\<lparr>ar_State := ''unknown''\<rparr>"
      have "Receipt_Validate (add_attempt R ?b) = Inr ()"
        by (rule Validate_replace [OF x(1)]) (auto simp: same_pins_def ids_of_def intro: state_ok_unknown)
      moreover have "sn_Receipt (set_attempt n (ar_State_update (\<lambda>_. ''unknown'')) ?s) = add_attempt R ?b"
        using receipt n by (rule set_attempt_last)
      ultimately have "step_ok R i (set_attempt n (ar_State_update (\<lambda>_. ''unknown'')) ?s) ?b"
        using s by (simp add: step_ok_def)
      then show ?thesis using assms(6) by (auto simp: with_response_def Inr True Inl Let_def)
    next
      case (Inr c)
      have "evidence ?s (rsp_Attempt x)" using assms(3) [OF Inr] s by (simp add: evidence_def step_ok_def)
      then show ?thesis using assms(6) s by (auto simp: with_response_def \<open>rr = Inr x\<close> True Inr)
    qed
  qed
qed

lemma load_attempt_ok:
  assumes "list_all (claim_own (sn_Receipt s)) (sn_Claims s)" "validPrepared digest (sn_Receipt s) p" "ar_AttemptID (pr_Attempt p) = i"
    and n: "n = length (br_Attempts (sn_Receipt s))" and run: "load_attempt E l request i n p s h = (s', err, h')"
  shows "(\<exists>b. step_ok (sn_Receipt s) i s' b \<and> (err = None \<longrightarrow> evidence s' b)) \<and> grows s s'"
proof -
  obtain rc h1 where c: "read_record E l (decode_struct claim_fields) zero_claim (ledger_key l request i ''dispatch'') h = (rc, h1)"
    by fastforce
  obtain rr h2 where r: "read_record E l (decode_struct response_fields) zero_response (ledger_key l request i ''response'') h1 = (rr, h2)"
    by fastforce
  let ?t = "with_claim i n (checked_claim p rc) (with_prepared i p s)"
  have w: "with_response i n (sn_Receipt s) p (checked_claim p rc) rr ?t = (s', err)"
    using run by (simp add: load_attempt_def Let_def c r split: prod.splits)
  obtain a where a: "step_ok (sn_Receipt s) i ?t a"
    "ar_State a = ''prepared'' \<or> (ar_State a = ''dispatched'' \<and> map_of (sn_Claims ?t) i \<noteq> None)"
    using with_claim_ok [OF with_prepared_ok [OF assms(1-3)] assms(2) n] by blast
  have "grows s s'"
    using with_claim_grows [of s i n "checked_claim p rc" p] with_response_grows [OF w] unfolding grows_def by blast
  moreover have "checked_claim p rc = Inr c \<Longrightarrow> map_of (sn_Claims ?t) i \<noteq> None" for c by (rule with_claim_claims)
  ultimately show ?thesis using with_response_ok [OF a _ n assms(3) w] by blast
qed

lemma load_loop_ok:
  assumes "load_loop E l request n parent s h = ((s', err), h')"
    and "snapshot_ok s" "n = length (br_Attempts (sn_Receipt s))" "list_all (evidence s) (br_Attempts (sn_Receipt s))"
  shows "snapshot_ok s' \<and> (sn_Receipt s')\<lparr>br_Attempts := []\<rparr> = (sn_Receipt s)\<lparr>br_Attempts := []\<rparr>
    \<and> (err = None \<longrightarrow> list_all (evidence s') (br_Attempts (sn_Receipt s')))"
  using assms
proof (induction E l request n parent s h rule: load_loop.induct)
  case (1 E l request n parent s h)
  show ?case
  proof (cases "n > MaxLaunchAttempts")
    case True
    then have "s' = s" "err = Some Corrupt" using "1.prems"(1) by (auto simp: load_loop.simps)
    then show ?thesis using "1.prems" by simp
  next
    case False
    let ?i = "attempt_id request parent"
    obtain rp h1 where p: "read_record E l (decode_struct prepared_fields) zero_prepared (ledger_key l request ?i ''prepared'') h = (rp, h1)"
      by fastforce
    let ?stop = "\<lambda>q. n = MaxLaunchAttempts \<or> ar_AttemptID (pr_Attempt q) \<noteq> ?i \<or> \<not> validPrepared (s3_inputDigest E) (sn_Receipt s) q"
    consider (ended) "s' = s" | (further) q where "rp = Inr q" "\<not> ?stop q"
      using "1.prems"(1) False by (subst (asm) load_loop.simps) (auto simp: p Let_def split: sum.splits if_splits prod.splits)
    then show ?thesis
    proof cases
      case ended
      then show ?thesis using "1.prems" by simp
    next
      case (further q)
      obtain s1 e1 h2 where a: "load_attempt E l request ?i n q s h1 = (s1, e1, h2)" by (metis prod_cases3)
      from load_attempt_ok [OF _ _ _ "1.prems"(3) a] "1.prems"(2) further(2) obtain b where
        b: "step_ok (sn_Receipt s) ?i s1 b" "e1 = None \<longrightarrow> evidence s1 b" "grows s s1" by (auto simp: snapshot_ok_def)
      have s1: "sn_Receipt s1 = add_attempt (sn_Receipt s) b" "snapshot_ok s1"
        using b(1) by (auto simp: step_ok_def snapshot_ok_def claim_own_def list_all_iff)
      have same: "(sn_Receipt s1)\<lparr>br_Attempts := []\<rparr> = (sn_Receipt s)\<lparr>br_Attempts := []\<rparr>" by (simp add: s1(1) add_attempt_def)
      have res: "((s', err), h') = (case e1 of Some e \<Rightarrow> ((s1, Some e), h2) | None \<Rightarrow> load_loop E l request (Suc n) ?i s1 h2)"
        using "1.prems"(1) False further by (subst (asm) load_loop.simps) (auto simp: p a Let_def split: option.splits)
      show ?thesis
      proof (cases e1)
        case (Some e)
        then show ?thesis using res s1 same by simp
      next
        case None
        have ev: "list_all (evidence s1) (br_Attempts (sn_Receipt s1))"
          using "1.prems"(4) b None evidence_grows [OF b(3)] by (auto simp: s1(1) list_all_iff)
        have len: "Suc n = length (br_Attempts (sn_Receipt s1))" using "1.prems"(3) by (simp add: s1(1))
        have run: "load_loop E l request (Suc n) ?i s1 h2 = ((s', err), h')" using res None by simp
        show ?thesis
          using "1.IH" [OF False refl p [symmetric] further(1) further(2) a [symmetric] refl None run s1(2) len ev] same by simp
      qed
    qed
  qed
qed

lemma Load_evidence:
  assumes "Load E l request h = ((s, err), h')"
  shows "(br_Attempts (sn_Receipt s) = [] \<or> Receipt_Validate (sn_Receipt s) = Inr ())
    \<and> list_all (claim_own (sn_Receipt s)) (sn_Claims s)
    \<and> (err = None \<longrightarrow> br_RequestID (sn_Receipt s) = request \<and> validPlan l (br_Plan (sn_Receipt s))
        \<and> list_all (\<lambda>a. (ar_State a \<noteq> ''prepared'' \<longrightarrow> map_of (sn_Claims s) (ar_AttemptID a) \<noteq> None)
            \<and> (ar_State a \<noteq> ''prepared'' \<and> ar_State a \<noteq> ''dispatched'' \<longrightarrow> map_of (sn_Responses s) (ar_AttemptID a) \<noteq> None))
          (br_Attempts (sn_Receipt s)))"
proof -
  have empty: "snapshot_ok empty_snapshot" by (simp add: snapshot_ok_def empty_snapshot_def zero_receipt_def)
  have "s = empty_snapshot \<and> err \<noteq> None \<or>
      (\<exists>plan h1. lp_RequestID plan = request \<and> validPlan l plan
         \<and> load_loop E l request 0 [] (start_snapshot request plan) h1 = ((s, err), h'))"
    using assms by (auto simp: Load_def split: if_splits prod.splits sum.splits)
  then show ?thesis
  proof (elim disjE conjE exE)
    assume "s = empty_snapshot" "err \<noteq> None"
    then show ?thesis using empty by (cases err) (simp_all add: snapshot_ok_def)
  next
    fix plan h1
    assume plan: "lp_RequestID plan = request" "validPlan l plan"
      and run: "load_loop E l request 0 [] (start_snapshot request plan) h1 = ((s, err), h')"
    have start: "snapshot_ok (start_snapshot request plan)" "0 = length (br_Attempts (sn_Receipt (start_snapshot request plan)))"
      "list_all (evidence (start_snapshot request plan)) (br_Attempts (sn_Receipt (start_snapshot request plan)))"
      by (simp_all add: snapshot_ok_def start_snapshot_def empty_snapshot_def)
    note ok = load_loop_ok [OF run start]
    have "br_RequestID (sn_Receipt s) = br_RequestID ((sn_Receipt s)\<lparr>br_Attempts := []\<rparr>)"
      "br_Plan (sn_Receipt s) = br_Plan ((sn_Receipt s)\<lparr>br_Attempts := []\<rparr>)" by simp_all
    with ok have "br_RequestID (sn_Receipt s) = request" "br_Plan (sn_Receipt s) = plan"
      by (simp_all add: start_snapshot_def)
    with ok plan show ?thesis by (simp add: snapshot_ok_def evidence_def [abs_def])
  qed
qed

text \<open>C24.  \<open>Load\<close> only returns sound evidence, also beside an error: the receipt is empty or a valid lineage, and every claim
  is that request's own.  Without an error the receipt is of the request and an accepted plan, and no state
  is reported that a record does not back: a claim behind every attempt that may have been sent, and a
  response behind every attempt whose outcome is told.\<close>

theorem load_sound:
  assumes "Load E l request h = ((s, err), h')"
  shows "(br_Attempts (sn_Receipt s) = [] \<or> Receipt_Validate (sn_Receipt s) = Inr ())
    \<and> list_all (claim_own (sn_Receipt s)) (sn_Claims s)
    \<and> (err = None \<longrightarrow> br_RequestID (sn_Receipt s) = request \<and> validPlan l (br_Plan (sn_Receipt s))
        \<and> list_all (\<lambda>a. (ar_State a \<noteq> ''prepared'' \<longrightarrow> map_of (sn_Claims s) (ar_AttemptID a) \<noteq> None)
            \<and> (ar_State a \<noteq> ''prepared'' \<and> ar_State a \<noteq> ''dispatched'' \<longrightarrow> map_of (sn_Responses s) (ar_AttemptID a) \<noteq> None))
          (br_Attempts (sn_Receipt s)))"
  by (rule Load_evidence [OF assms])

end
