(* ===== verification/AttemptDispatch.thy ===== *)
theory AttemptDispatch
  imports LedgerProperties
begin

text \<open>
  \<open>AttemptService.Dispatch\<close> of \<^verbatim>\<open>internal/lifecycle/attempt.go\<close>: the one place that asks EC2 for machines.
  The ledger is a record of operations on a state of its own, as \<open>BatchLedger\<close> is an interface; all other
  services are an environment over the history of the calls made to them.  A step either passes or ends the
  dispatch with its error, so the body is a list of steps.
\<close>

section \<open>Interfaces\<close>

record 'g ledger_ops =
  lg_Prepare :: "batch_receipt \<Rightarrow> prepared_attempt \<Rightarrow> 'g \<Rightarrow> (failure + unit) \<times> 'g"
  lg_Claim :: "launch_ledger \<Rightarrow> dispatch_claim \<Rightarrow> 'g \<Rightarrow> (failure + bool) \<times> 'g"
  lg_RecordResponse :: "launch_ledger \<Rightarrow> attempt_response \<Rightarrow> 'g \<Rightarrow> (failure + unit) \<times> 'g"

text \<open>\<open>Sent\<close> is the request leaving for EC2, after the last expiry check of the SDK's finalize step.\<close>

datatype dispatch_event =
    Lock string
  | Unlock
  | VerifyFoundation manifest profile
  | Clock
  | SaveBatch batch_receipt
  | Announce batch_receipt string
  | CtxErr
  | CreateFleet fleet_input
  | Sent fleet_input
  | VerifyWorkers launch_plan attempt_receipt "worker_outcome list"

type_synonym dispatch_log = "dispatch_event list"

text \<open>\<open>de_reaches\<close>: whether the SDK gets as far as sending the request; \<open>de_reply\<close>: what it returns, when
  the expiry check did not stop it; \<open>de_attempts\<close>: the SDK attempts it reports.\<close>

record dispatch_env =
  de_scope :: config
  de_nil :: bool
  de_path :: "string \<Rightarrow> string"
  de_lock :: "dispatch_log \<Rightarrow> failure option"
  de_foundation :: "dispatch_log \<Rightarrow> failure option"
  de_clock :: "dispatch_log \<Rightarrow> gotime"
  de_save :: "dispatch_log \<Rightarrow> failure option"
  de_announce :: "dispatch_log \<Rightarrow> bool"
  de_ctx :: "dispatch_log \<Rightarrow> bool"
  de_reaches :: "dispatch_log \<Rightarrow> bool"
  de_reply :: "dispatch_log \<Rightarrow> fleet_output option \<times> aws_error option"
  de_attempts :: "dispatch_log \<Rightarrow> int"
  de_verify :: "dispatch_log \<Rightarrow> worker_outcome list \<times> failure option"
  de_inputDigest :: "fleet_input \<Rightarrow> string"

record attempt_result =
  as_Receipt :: batch_receipt
  as_Workers :: "worker_outcome list"
  as_ReceiptPath :: string
  as_Dispatched :: bool
  as_ObservationError :: "failure option"

section \<open>Steps\<close>

type_synonym 'g step = "'g \<times> dispatch_log \<Rightarrow> failure option \<times> 'g \<times> dispatch_log"

fun run_steps :: "'g step list \<Rightarrow> 'g step" where
  "run_steps [] s = (None, s)"
| "run_steps (f # fs) s = (case f s of (Some e, s) \<Rightarrow> (Some e, s) | (None, s) \<Rightarrow> run_steps fs s)"

definition event_step :: "dispatch_event \<Rightarrow> (dispatch_log \<Rightarrow> failure option) \<Rightarrow> 'g step" where
  "event_step e f s = (case s of (g, h) \<Rightarrow> (f (e # h), g, e # h))"

definition gate_step :: "dispatch_env \<Rightarrow> launch_plan \<Rightarrow> 'g step" where
  "gate_step E p = event_step Clock (\<lambda>h. case checkAllocation p (de_clock E h) of Inl e \<Rightarrow> Some e | Inr _ \<Rightarrow> None)"

definition ctx_step :: "dispatch_env \<Rightarrow> 'g step" where
  "ctx_step E = event_step CtxErr (\<lambda>h. if de_ctx E h then Some Cancelled else None)"

definition announce_step :: "dispatch_env \<Rightarrow> batch_receipt \<Rightarrow> string \<Rightarrow> 'g step" where
  "announce_step E r path = event_step (Announce r path) (\<lambda>h. if de_announce E h then Some (Failure ''output_unavailable'') else None)"

definition prepare_step :: "'g ledger_ops \<Rightarrow> batch_receipt \<Rightarrow> prepared_attempt \<Rightarrow> 'g step" where
  "prepare_step L r p s = (case s of (g, h) \<Rightarrow> (case lg_Prepare L r p g of (Inl e, g) \<Rightarrow> (Some e, g, h) | (Inr _, g) \<Rightarrow> (None, g, h)))"

definition claim_step :: "'g ledger_ops \<Rightarrow> launch_ledger \<Rightarrow> dispatch_claim \<Rightarrow> 'g step" where
  "claim_step L d c s = (case s of (g, h) \<Rightarrow> (case lg_Claim L d c g of
     (r, g) \<Rightarrow> (if r = Inr True then None else Some (Failure ''allocation_unknown''), g, h)))"

section \<open>Dispatch\<close>

definition replay_selection :: "batch_receipt \<Rightarrow> launch_selection" where
  "replay_selection r = zero_selection\<lparr>sl_Profile := lp_Profile (br_Plan r), sl_Name := lp_BaseName (br_Plan r),
     sl_Group := lp_Group (br_Plan r), sl_Count := lp_RequestedCount (br_Plan r), sl_OnDemand := (lp_Market (br_Plan r) = ''on-demand'')\<rparr>"

text \<open>Everything that is checked before the first service is used, the clock apart.\<close>

definition dispatch_checks :: "dispatch_env \<Rightarrow> manifest \<Rightarrow> profile \<Rightarrow> batch_receipt \<Rightarrow> dispatch_log \<Rightarrow> (failure + fleet_input) \<times> dispatch_log" where
  "dispatch_checks E m p r h =
     (case Receipt_Validate r of
        Inl e \<Rightarrow> (Inl e, h)
      | Inr _ \<Rightarrow> let h = Clock # h; a = last (br_Attempts r) in
         (case checkAllocation (br_Plan r) (de_clock E h) of
            Inl e \<Rightarrow> Inl e
          | Inr _ \<Rightarrow> (case requireExpiryManifest m of
              Inl e \<Rightarrow> Inl e
            | Inr _ \<Rightarrow>
                if ar_State a \<noteq> ''prepared'' then Inl (Failure ''attempt_already_dispatched'')
                else (case buildLaunchPlan (de_scope E) m p (replay_selection r) (br_RequestID r) (lp_CreatedAt (br_Plan r))
                             (lp_ExpiresAt (br_Plan r)) (lp_SchemaVersion (br_Plan r)) of
                        Inl e \<Rightarrow> Inl e
                      | Inr plan \<Rightarrow>
                          if Digest plan \<noteq> br_PlanSHA256 r then Inl (Failure ''replay_parameters_changed'')
                          else (case BuildFleetInput (br_Plan r) a of
                                  Inl e \<Rightarrow> Inl e
                                | Inr input \<Rightarrow> if de_nil E then Inl (Failure ''allocator_unavailable'') else Inr input))), h))"

definition last_attempt :: "(attempt_receipt \<Rightarrow> attempt_receipt) \<Rightarrow> batch_receipt \<Rightarrow> batch_receipt" where
  "last_attempt f r = r\<lparr>br_Attempts := butlast (br_Attempts r) @ [f (last (br_Attempts r))]\<rparr>"

definition prepared_of :: "dispatch_env \<Rightarrow> batch_receipt \<Rightarrow> fleet_input \<Rightarrow> prepared_attempt" where
  "prepared_of E r input = \<lparr>pr_SchemaVersion = 1, pr_RequestID = br_RequestID r, pr_PlanSHA256 = br_PlanSHA256 r,
     pr_InputSHA256 = de_inputDigest E input, pr_Attempt = last (br_Attempts r)\<rparr>"

definition claim_of :: "dispatch_env \<Rightarrow> batch_receipt \<Rightarrow> fleet_input \<Rightarrow> dispatch_claim" where
  "claim_of E r input = \<lparr>dc_SchemaVersion = 1, dc_RequestID = br_RequestID r, dc_AttemptID = ar_AttemptID (last (br_Attempts r)),
     dc_PlanSHA256 = br_PlanSHA256 r, dc_InputSHA256 = de_inputDigest E input, dc_ClientToken = ar_ClientToken (last (br_Attempts r))\<rparr>"

abbreviation dispatched :: "batch_receipt \<Rightarrow> batch_receipt" where
  "dispatched r \<equiv> last_attempt (ar_State_update (\<lambda>_. ''dispatched'')) r"

definition prepare_steps :: "dispatch_env \<Rightarrow> 'g ledger_ops \<Rightarrow> manifest \<Rightarrow> profile \<Rightarrow> batch_receipt \<Rightarrow> fleet_input \<Rightarrow> 'g step list" where
  "prepare_steps E L m p r input =
     [event_step (VerifyFoundation m p) (de_foundation E), gate_step E (br_Plan r), event_step (SaveBatch r) (de_save E),
      announce_step E r (de_path E (br_RequestID r)), gate_step E (br_Plan r), prepare_step L r (prepared_of E r input), ctx_step E]"

definition claim_steps :: "dispatch_env \<Rightarrow> 'g ledger_ops \<Rightarrow> batch_receipt \<Rightarrow> fleet_input \<Rightarrow> 'g step list" where
  "claim_steps E L r input =
     [event_step (SaveBatch (dispatched r)) (de_save E), gate_step E (br_Plan r),
      claim_step L (lp_LaunchLedger (br_Plan r)) (claim_of E r input), ctx_step E, gate_step E (br_Plan r)]"

text \<open>The SDK call: its output, the API error it reports, and the error of the expiry check when that stopped
  it.\<close>

definition call_fleet :: "dispatch_env \<Rightarrow> launch_plan \<Rightarrow> fleet_input \<Rightarrow> dispatch_log
    \<Rightarrow> (fleet_output option \<times> aws_error option \<times> failure option) \<times> dispatch_log" where
  "call_fleet E p input h =
     (let h = CreateFleet input # h in
      if \<not> de_reaches E h then (case de_reply E h of (out, err) \<Rightarrow> ((out, err, None), h))
      else let h = Clock # h in
        case checkAllocation p (de_clock E h) of
          Inl e \<Rightarrow> ((None, Some OtherError, Some e), h)
        | Inr _ \<Rightarrow> let h = Sent input # h in (case de_reply E h of (out, err) \<Rightarrow> ((out, err, None), h)))"

definition clone_workers :: "worker_outcome list \<Rightarrow> worker_outcome list option" where
  "clone_workers ws =
     (case json_text (json_print (JArr (map e_worker ws))) of
        None \<Rightarrow> None
      | Some j \<Rightarrow>
          (case d_slice (decode_struct worker_fields) zero_worker j None of
             Some (Some cs) \<Rightarrow>
               Some (map (\<lambda>(c, w). c\<lparr>wo_Instance := (wo_Instance c)\<lparr>in_expiryObserved := in_expiryObserved (wo_Instance w)\<rparr>\<rparr>) (zip cs ws))
           | _ \<Rightarrow> None))"

text \<open>Only one observed SDK attempt permits a definitive rejection.\<close>

definition downgrade :: "int \<Rightarrow> attempt_receipt \<Rightarrow> attempt_receipt" where
  "downgrade attempts a = (if ar_State a = ''rejected'' \<and> attempts \<noteq> 1 then a\<lparr>ar_State := ''unknown''\<rparr> else a)"

definition response_of :: "dispatch_env \<Rightarrow> batch_receipt \<Rightarrow> fleet_input \<Rightarrow> attempt_receipt \<Rightarrow> worker_outcome list \<Rightarrow> attempt_response" where
  "response_of E r input a ws = \<lparr>rsp_SchemaVersion = 1, rsp_RequestID = br_RequestID r, rsp_PlanSHA256 = br_PlanSHA256 r,
     rsp_InputSHA256 = de_inputDigest E input, rsp_Attempt = a, rsp_Workers = clone_workers ws\<rparr>"

definition is_expiry :: "failure \<Rightarrow> bool" where
  "is_expiry e \<longleftrightarrow> e = Failure ''request_expired'' \<or> e = Failure ''clock_invalid''"

text \<open>The part after the claim: the call, both saves, the observation, and the error reported, in the order of
  the code.\<close>

definition send :: "dispatch_env \<Rightarrow> 'g ledger_ops \<Rightarrow> batch_receipt \<Rightarrow> fleet_input \<Rightarrow> 'g \<Rightarrow> dispatch_log
    \<Rightarrow> (attempt_result \<times> failure option) \<times> 'g \<times> dispatch_log" where
  "send E L r input g h =
     (let plan = br_Plan r; ((out, err, expired), h) = call_fleet E plan input h;
          (normal, workers) = NormalizeFleetResponse plan (last (br_Attempts r)) out err;
          observed = downgrade (de_attempts E h) normal;
          r' = last_attempt (\<lambda>_. observed) r;
          h = SaveBatch r' # h; cacheErr = de_save E h;
          (recorded, g) = lg_RecordResponse L (lp_LaunchLedger plan) (response_of E r input observed workers) g;
          (workers, observation, h) =
            (if workers \<noteq> [] then let h = VerifyWorkers plan observed workers # h in (fst (de_verify E h), snd (de_verify E h), h)
             else (workers, None, h));
          result = \<lparr>as_Receipt = r', as_Workers = workers, as_ReceiptPath = de_path E (br_RequestID r), as_Dispatched = True,
            as_ObservationError = observation\<rparr>
      in if cacheErr \<noteq> None then ((result, cacheErr), g, h)
         else case recorded of
           Inl e \<Rightarrow> ((result, Some e), g, h)
         | Inr _ \<Rightarrow>
             let h = CtxErr # h in
             if de_ctx E h then ((result, Some Cancelled), g, h)
             else if observation \<noteq> None then ((result, observation), g, h)
             else (case expired of
                     Some e \<Rightarrow> if is_expiry e then ((result, Some e), g, h)
                               else ((result, if ar_State observed = ''unknown'' then Some (Failure ''allocation_unknown'') else None), g, h)
                   | None \<Rightarrow> ((result, if ar_State observed = ''unknown'' then Some (Failure ''allocation_unknown'') else None), g, h)))"

definition plain_result :: "batch_receipt \<Rightarrow> string \<Rightarrow> attempt_result" where
  "plain_result r path = \<lparr>as_Receipt = r, as_Workers = [], as_ReceiptPath = path, as_Dispatched = False, as_ObservationError = None\<rparr>"

definition Dispatch :: "dispatch_env \<Rightarrow> 'g ledger_ops \<Rightarrow> manifest \<Rightarrow> profile \<Rightarrow> batch_receipt \<Rightarrow> 'g \<Rightarrow> dispatch_log
    \<Rightarrow> (attempt_result \<times> failure option) \<times> 'g \<times> dispatch_log" where
  "Dispatch E L m p r g h =
     (case dispatch_checks E m p r h of
        (Inl e, h) \<Rightarrow> ((plain_result r [], Some e), g, h)
      | (Inr input, h) \<Rightarrow>
          let path = de_path E (br_RequestID r); h = Lock (br_RequestID r) # h in
          (case de_lock E h of
             Some e \<Rightarrow> ((plain_result r path, Some e), g, h)
           | None \<Rightarrow>
               (case run_steps (prepare_steps E L m p r input) (g, h) of
                  (Some e, g, h) \<Rightarrow> ((plain_result r path, Some e), g, Unlock # h)
                | (None, g, h) \<Rightarrow>
                    (case run_steps (claim_steps E L r input) (g, h) of
                       (Some e, g, h) \<Rightarrow> ((plain_result (dispatched r) path, Some e), g, Unlock # h)
                     | (None, g, h) \<Rightarrow> (case send E L r input g h of (x, g, h) \<Rightarrow> (x, g, Unlock # h))))))"

end
