(* ===== verification/DispatchProperties.thy ===== *)
theory DispatchProperties
  imports AttemptDispatch
begin

text \<open>
  What \<open>Dispatch\<close> guarantees: it asks EC2 at most once, and only with a checked receipt, an acknowledged
  claim and an open allocation window; and it does ask when nothing stands in the way.
\<close>

section \<open>Events of a dispatch\<close>

definition sends :: "dispatch_event \<Rightarrow> bool" where
  "sends e \<longleftrightarrow> (case e of CreateFleet _ \<Rightarrow> True | Sent _ \<Rightarrow> True | _ \<Rightarrow> False)"

lemma sends_simps [simp]:
  "sends (CreateFleet i)" "sends (Sent i)" "\<not> sends (Lock s)" "\<not> sends Unlock" "\<not> sends (VerifyFoundation m p)" "\<not> sends Clock"
  "\<not> sends (SaveBatch r)" "\<not> sends (Announce r s)" "\<not> sends CtxErr" "\<not> sends (VerifyWorkers lp a ws)"
  by (simp_all add: sends_def)

text \<open>\<open>quiet h h'\<close>: from \<open>h\<close> to \<open>h'\<close> nothing was asked of EC2.\<close>

definition quiet :: "dispatch_log \<Rightarrow> dispatch_log \<Rightarrow> bool" where
  "quiet h h' \<longleftrightarrow> (\<exists>es. h' = es @ h \<and> list_all (\<lambda>e. \<not> sends e) es)"

lemma quiet_refl [simp]: "quiet h h"
  by (simp add: quiet_def)

lemma quiet_trans: "quiet h h1 \<Longrightarrow> quiet h1 h2 \<Longrightarrow> quiet h h2"
  unfolding quiet_def by force

lemma quiet_Cons: "quiet h h' \<Longrightarrow> \<not> sends e \<Longrightarrow> quiet h (e # h')"
  unfolding quiet_def by (metis append_Cons list.pred_inject(2))

definition quiet_step :: "'g step \<Rightarrow> bool" where
  "quiet_step f \<longleftrightarrow> (\<forall>g h. quiet h (snd (snd (f (g, h)))))"

lemma quiet_event: "\<not> sends e \<Longrightarrow> quiet_step (event_step e f)"
  by (simp add: quiet_step_def event_step_def quiet_Cons)

lemma quiet_steps [simp]:
  "quiet_step (event_step (VerifyFoundation m p) f)" "quiet_step (event_step (SaveBatch r) f)" "quiet_step (gate_step E lp)"
  "quiet_step (ctx_step E)" "quiet_step (announce_step E r s)" "quiet_step (prepare_step L r q)" "quiet_step (claim_step L d c)"
  by (simp_all add: quiet_event gate_step_def ctx_step_def announce_step_def)
    (auto simp: quiet_step_def prepare_step_def claim_step_def Let_def split: prod.split sum.split)

lemma run_steps_quiet: "list_all quiet_step fs \<Longrightarrow> run_steps fs (g, h) = (e, g', h') \<Longrightarrow> quiet h h'"
proof (induction fs arbitrary: g h)
  case (Cons f fs)
  obtain e1 g1 h1 where f: "f (g, h) = (e1, g1, h1)" by (metis prod_cases3)
  have "quiet h h1" using Cons.prems(1) by (metis f list.pred_inject(2) quiet_step_def snd_conv)
  then show ?case using Cons.IH [of g1 h1] Cons.prems by (auto simp: f split: option.splits intro: quiet_trans)
qed simp

lemma prepare_steps_quiet: "run_steps (prepare_steps E L m p r input) (g, h) = (e, g', h') \<Longrightarrow> quiet h h'"
  by (erule run_steps_quiet [rotated]) (simp add: prepare_steps_def)

lemma claim_steps_quiet: "run_steps (claim_steps E L r input) (g, h) = (e, g', h') \<Longrightarrow> quiet h h'"
  by (erule run_steps_quiet [rotated]) (simp add: claim_steps_def)

section \<open>What passing a group of steps means\<close>

lemma run_steps_pass:
  "run_steps (f # fs) s = (None, t) \<longleftrightarrow> (\<exists>u. f s = (None, u) \<and> run_steps fs u = (None, t))"
  by (auto split: prod.split option.split)

lemma step_pass:
  "event_step e f (g, h) = (None, u) \<longleftrightarrow> f (e # h) = None \<and> u = (g, e # h)"
  "prepare_step L r q (g, h) = (None, u) \<longleftrightarrow> (\<exists>g'. lg_Prepare L r q g = (Inr (), g') \<and> u = (g', h))"
  "claim_step L d c (g, h) = (None, u) \<longleftrightarrow> (\<exists>g'. lg_Claim L d c g = (Inr True, g') \<and> u = (g', h))"
  by (auto simp: event_step_def prepare_step_def claim_step_def split: prod.splits sum.splits if_splits)

lemma gate_pass: "gate_step E lp (g, h) = (None, u) \<longleftrightarrow> checkAllocation lp (de_clock E (Clock # h)) = Inr () \<and> u = (g, Clock # h)"
  by (auto simp: gate_step_def step_pass split: sum.splits)

lemma ctx_pass: "ctx_step E (g, h) = (None, u) \<longleftrightarrow> \<not> de_ctx E (CtxErr # h) \<and> u = (g, CtxErr # h)"
  by (auto simp: ctx_step_def step_pass)

lemma announce_pass: "announce_step E r s (g, h) = (None, u) \<longleftrightarrow> \<not> de_announce E (Announce r s # h) \<and> u = (g, Announce r s # h)"
  by (auto simp: announce_step_def step_pass)

lemmas pass = run_steps_pass step_pass gate_pass ctx_pass announce_pass

lemma prepare_steps_pass:
  "run_steps (prepare_steps E L m p r input) (g, h) = (None, g', h') \<Longrightarrow> lg_Prepare L r (prepared_of E r input) g = (Inr (), g')"
  by (auto simp: prepare_steps_def pass simp del: run_steps.simps(2))

lemma claim_steps_pass:
  "run_steps (claim_steps E L r input) (g, h) = (None, g', h') \<Longrightarrow>
     lg_Claim L (lp_LaunchLedger (br_Plan r)) (claim_of E r input) g = (Inr True, g')"
  by (auto simp: claim_steps_def pass simp del: run_steps.simps(2))

definition checked :: "dispatch_env \<Rightarrow> manifest \<Rightarrow> profile \<Rightarrow> batch_receipt \<Rightarrow> fleet_input \<Rightarrow> bool" where
  "checked E m p r input \<longleftrightarrow> Receipt_Validate r = Inr () \<and> requireExpiryManifest m = Inr () \<and> ar_State (last (br_Attempts r)) = ''prepared''
     \<and> (\<exists>plan. buildLaunchPlan (de_scope E) m p (replay_selection r) (br_RequestID r) (lp_CreatedAt (br_Plan r))
           (lp_ExpiresAt (br_Plan r)) (lp_SchemaVersion (br_Plan r)) = Inr plan \<and> Digest plan = br_PlanSHA256 r)
     \<and> BuildFleetInput (br_Plan r) (last (br_Attempts r)) = Inr input \<and> \<not> de_nil E"

lemma dispatch_checks_ok:
  "dispatch_checks E m p r h = (Inr input, h') \<longleftrightarrow>
     checked E m p r input \<and> checkAllocation (br_Plan r) (de_clock E (Clock # h)) = Inr () \<and> h' = Clock # h"
  by (auto simp: dispatch_checks_def checked_def Let_def split: sum.splits if_splits)

lemma dispatch_checks_quiet: "dispatch_checks E m p r h = (x, h') \<Longrightarrow> quiet h h'"
  by (auto simp: dispatch_checks_def Let_def quiet_Cons split: sum.splits)

section \<open>The call\<close>

text \<open>\<open>one_call E p input h h'\<close>: \<open>h'\<close> is \<open>h\<close> with one call of \<open>CreateFleet\<close>, whose request left, if at all,
  directly after a reading of the clock at which allocation was allowed.\<close>

definition one_call :: "dispatch_env \<Rightarrow> launch_plan \<Rightarrow> fleet_input \<Rightarrow> dispatch_log \<Rightarrow> dispatch_log \<Rightarrow> bool" where
  "one_call E p input h h' \<longleftrightarrow> h' = CreateFleet input # h \<or> h' = Clock # CreateFleet input # h
     \<or> (h' = Sent input # Clock # CreateFleet input # h \<and> checkAllocation p (de_clock E (Clock # CreateFleet input # h)) = Inr ())"

lemma call_fleet_one: "call_fleet E p input h = (x, h') \<Longrightarrow> one_call E p input h h'"
  by (auto simp: call_fleet_def one_call_def Let_def split: if_splits sum.splits prod.splits)

lemma send_calls:
  assumes "send E L r input g h = (x, g', h')"
  shows "\<exists>h1. one_call E (br_Plan r) input h h1 \<and> quiet h1 h'"
proof -
  obtain out err expired h1 where c: "call_fleet E (br_Plan r) input h = ((out, err, expired), h1)" by (metis prod.collapse)
  obtain normal ws where n: "NormalizeFleetResponse (br_Plan r) (last (br_Attempts r)) out err = (normal, ws)" by fastforce
  have "quiet h1 h'"
    using assms unfolding send_def Let_def c n
    by (auto simp: quiet_Cons Let_def split: prod.splits if_splits sum.splits option.splits)
  with call_fleet_one [OF c] show ?thesis by blast
qed

text \<open>It records one response, of the last attempt, and reports having dispatched.\<close>

lemma send_records:
  assumes "send E L r input g h = ((res, err), g', h')"
  shows "as_Dispatched res \<and> (\<exists>observed ws. ar_AttemptID observed = ar_AttemptID (last (br_Attempts r))
    \<and> g' = snd (lg_RecordResponse L (lp_LaunchLedger (br_Plan r)) (response_of E r input observed ws) g))"
proof -
  obtain out api expired h1 where c: "call_fleet E (br_Plan r) input h = ((out, api, expired), h1)" by (metis prod.collapse)
  obtain normal ws where n: "NormalizeFleetResponse (br_Plan r) (last (br_Attempts r)) out api = (normal, ws)" by fastforce
  let ?o = "downgrade (de_attempts E h1) normal"
  have i: "ar_AttemptID ?o = ar_AttemptID (last (br_Attempts r))"
    using NormalizeFleetResponse_pins(1) [of "br_Plan r" "last (br_Attempts r)" out api] by (simp add: n downgrade_def)
  obtain rec g1 where r: "lg_RecordResponse L (lp_LaunchLedger (br_Plan r)) (response_of E r input ?o ws) g = (rec, g1)" by fastforce
  have "as_Dispatched res \<and> g' = g1"
    using assms by (auto simp: send_def Let_def c n r split: if_splits sum.splits option.splits)
  then show ?thesis using i r by (intro conjI exI [of _ ?o] exI [of _ ws]) simp_all
qed

text \<open>A dispatch is either refused, without a call, or comes to the one call with every check passed.\<close>

lemma dispatch_outcomes:
  assumes "Dispatch E L m p r g h = ((res, err), g', h')"
  obtains (refused) "quiet h h'" "err \<noteq> None" "\<not> as_Dispatched res" "as_Workers res = []"
  | (dispatched) input g1 g2 h2 h3 where "checked E m p r input" "quiet h h2"
      "lg_Prepare L r (prepared_of E r input) g = (Inr (), g1)"
      "lg_Claim L (lp_LaunchLedger (br_Plan r)) (claim_of E r input) g1 = (Inr True, g2)"
      "send E L r input g2 h2 = ((res, err), g', h3)" "h' = Unlock # h3"
proof -
  obtain ck h0 where c: "dispatch_checks E m p r h = (ck, h0)" by fastforce
  note q0 = dispatch_checks_quiet [OF c]
  show thesis
  proof (cases ck)
    case (Inl e)
    then show ?thesis using assms q0 by (intro refused) (auto simp: Dispatch_def c plain_result_def)
  next
    case (Inr input)
    let ?h = "Lock (br_RequestID r) # h0"
    have ck: "checked E m p r input" using c by (simp add: Inr dispatch_checks_ok)
    have q1: "quiet h ?h" using q0 by (simp add: quiet_Cons)
    show ?thesis
    proof (cases "de_lock E ?h")
      case (Some e)
      then have "((plain_result r (de_path E (br_RequestID r)), Some e), g, ?h) = ((res, err), g', h')"
        using assms by (simp add: Dispatch_def c Inr)
      then show ?thesis using q1 by (intro refused) (auto simp: plain_result_def)
    next
      case None
      obtain e1 g1 h1 where p: "run_steps (prepare_steps E L m p r input) (g, ?h) = (e1, g1, h1)" by (metis prod_cases3)
      have q2: "quiet h h1" using quiet_trans [OF q1 prepare_steps_quiet [OF p]] .
      show ?thesis
      proof (cases e1)
        case (Some e)
        then show ?thesis using assms quiet_Cons [OF q2, of Unlock] None
          by (intro refused) (auto simp: Dispatch_def c Inr p plain_result_def)
      next
        case e1: None
        obtain e2 g2 h2 where k: "run_steps (claim_steps E L r input) (g1, h1) = (e2, g2, h2)" by (metis prod_cases3)
        have q3: "quiet h h2" using quiet_trans [OF q2 claim_steps_quiet [OF k]] .
        show ?thesis
        proof (cases e2)
          case (Some e)
          then show ?thesis using assms quiet_Cons [OF q3, of Unlock] None e1
            by (intro refused) (auto simp: Dispatch_def c Inr p k plain_result_def)
        next
          case e2: None
          obtain y g3 h3 where s: "send E L r input g2 h2 = (y, g3, h3)" by (metis prod_cases3)
          have "y = (res, err)" "g3 = g'" "h' = Unlock # h3" using assms None e1 e2 by (simp_all add: Dispatch_def c Inr p k s)
          then show ?thesis
            using dispatched [OF ck q3] prepare_steps_pass [OF p [unfolded e1]] claim_steps_pass [OF k [unfolded e2]] s by simp
        qed
      qed
    qed
  qed
qed

text \<open>C25.  \<open>Dispatch\<close> asks EC2 for machines at most once, and never without permission.  When a request leaves, the
  receipt was valid and its last attempt still prepared, the plan rebuilt from the current configuration has
  the digest of the receipt, the request is the one built from that plan, the ledger accepted the preparation
  and then granted the claim, and the last thing done before sending was to read the clock and find the
  allocation window open.  A dispatch that reports not having dispatched has not even called.\<close>

theorem dispatch_guarded:
  assumes "Dispatch E L m p r g h = ((res, err), g', h')"
  shows "\<exists>es. h' = es @ h \<and> (\<not> as_Dispatched res \<longrightarrow> filter sends es = [] \<and> err \<noteq> None)
    \<and> (filter sends es = [] \<or> (\<exists>input. (filter sends es = [CreateFleet input] \<or> filter sends es = [Sent input, CreateFleet input])
        \<and> checked E m p r input
        \<and> (\<exists>g1 g2. lg_Prepare L r (prepared_of E r input) g = (Inr (), g1)
            \<and> lg_Claim L (lp_LaunchLedger (br_Plan r)) (claim_of E r input) g1 = (Inr True, g2))
        \<and> (\<forall>late early. es = late @ Sent input # early \<longrightarrow>
             (\<exists>before. early = Clock # before \<and> checkAllocation (br_Plan r) (de_clock E (early @ h)) = Inr ()))))"
  using assms
proof (cases rule: dispatch_outcomes)
  case refused
  then obtain es where "h' = es @ h" "filter sends es = []" by (auto simp: quiet_def list_all_iff filter_empty_conv)
  with refused show ?thesis by blast
next
  case (dispatched input g1 g2 h2 h3)
  obtain h4 where c: "one_call E (br_Plan r) input h2 h4" "quiet h4 h3" using send_calls [OF dispatched(5)] by blast
  obtain as where as: "h2 = as @ h" "list_all (\<lambda>e. \<not> sends e) as" using dispatched(2) by (auto simp: quiet_def)
  obtain bs where bs: "h3 = bs @ h4" "list_all (\<lambda>e. \<not> sends e) bs" using c(2) by (auto simp: quiet_def)
  obtain cs where cs: "h4 = cs @ h2" "cs = [CreateFleet input] \<or> cs = [Clock, CreateFleet input] \<or> (cs = [Sent input, Clock, CreateFleet input]
      \<and> checkAllocation (br_Plan r) (de_clock E (Clock # CreateFleet input # h2)) = Inr ())"
    using c(1) by (auto simp: one_call_def)
  let ?es = "(Unlock # bs) @ cs @ as"
  have f: "filter sends as = []" "filter sends (Unlock # bs) = []"
    using as(2) bs(2) by (simp_all add: list_all_iff filter_empty_conv)
  have res: "as_Dispatched res" using send_records [OF dispatched(5)] by blast
  have "\<exists>before. early = Clock # before \<and> checkAllocation (br_Plan r) (de_clock E (early @ h)) = Inr ()"
    if s: "?es = late @ Sent input # early" for late early
  proof -
    have no: "Sent input \<notin> set as" "Sent input \<notin> set (Unlock # bs)" using as(2) bs(2) by (auto simp: list_all_iff)
    have "Sent input \<in> set cs"
      using arg_cong [OF s, of set] no by auto
    then have cs': "cs = [Sent input, Clock, CreateFleet input]"
      "checkAllocation (br_Plan r) (de_clock E (Clock # CreateFleet input # h2)) = Inr ()" using cs(2) by auto
    have "(Unlock # bs) @ Sent input # (Clock # CreateFleet input # as) = late @ Sent input # early" using s cs' by simp
    moreover have "Sent input \<notin> set (Clock # CreateFleet input # as)" using no by simp
    ultimately have "early = Clock # CreateFleet input # as"
      using no(2) append_Cons_eq_iff [of "Sent input" "Unlock # bs" "Clock # CreateFleet input # as" late early] by simp
    then show ?thesis using cs'(2) as(1) by simp
  qed
  moreover have "filter sends ?es = [CreateFleet input] \<or> filter sends ?es = [Sent input, CreateFleet input]"
    using f cs(2) by auto
  moreover have "h' = ?es @ h" using dispatched(6) as bs cs by simp
  ultimately show ?thesis using res dispatched(1,3,4) by blast
qed

section \<open>Progress\<close>

text \<open>Nothing stands in the way: no service fails, the window stays open and the SDK reaches EC2.\<close>

definition unhindered :: "dispatch_env \<Rightarrow> launch_plan \<Rightarrow> bool" where
  "unhindered E p \<longleftrightarrow> (\<forall>h. de_lock E h = None \<and> de_foundation E h = None \<and> checkAllocation p (de_clock E h) = Inr () \<and> de_save E h = None
     \<and> \<not> de_announce E h \<and> \<not> de_ctx E h \<and> de_reaches E h \<and> snd (de_verify E h) = None)"

lemma unhindered_steps:
  assumes "unhindered E (br_Plan r)"
  shows "lg_Prepare L r (prepared_of E r input) g = (Inr (), g1) \<Longrightarrow>
      \<exists>h'. run_steps (prepare_steps E L m p r input) (g, h) = (None, g1, h')"
    and "lg_Claim L (lp_LaunchLedger (br_Plan r)) (claim_of E r input) g1 = (Inr True, g2) \<Longrightarrow>
      \<exists>h'. run_steps (claim_steps E L r input) (g1, h) = (None, g2, h')"
  using assms
  by (auto simp: unhindered_def prepare_steps_def claim_steps_def event_step_def gate_step_def ctx_step_def announce_step_def
      prepare_step_def claim_step_def)

lemma unhindered_call:
  assumes "unhindered E p" "de_reply E (Sent input # Clock # CreateFleet input # h) = (out, err)"
  shows "call_fleet E p input h = ((out, err, None), Sent input # Clock # CreateFleet input # h)"
  using assms by (simp add: call_fleet_def unhindered_def Let_def)

lemma unhindered_send:
  assumes "checked E m p r input" "unhindered E (br_Plan r)"
    and "lg_Prepare L r (prepared_of E r input) g = (Inr (), g1)"
    and "lg_Claim L (lp_LaunchLedger (br_Plan r)) (claim_of E r input) g1 = (Inr True, g2)"
  shows "\<exists>h2. Dispatch E L m p r g h = (case send E L r input g2 h2 of (x, g', h') \<Rightarrow> (x, g', Unlock # h'))"
proof -
  let ?h0 = "Lock (br_RequestID r) # Clock # h"
  have c: "dispatch_checks E m p r h = (Inr input, Clock # h)"
    using assms(1,2) by (simp add: dispatch_checks_ok unhindered_def)
  have lock: "de_lock E ?h0 = None" using assms(2) by (simp add: unhindered_def)
  obtain h1 where p: "run_steps (prepare_steps E L m p r input) (g, ?h0) = (None, g1, h1)"
    using unhindered_steps(1) [OF assms(2,3)] by blast
  obtain h2 where k: "run_steps (claim_steps E L r input) (g1, h1) = (None, g2, h2)"
    using unhindered_steps(2) [OF assms(2,4)] by blast
  show ?thesis by (rule exI [of _ h2]) (simp add: Dispatch_def c lock p k)
qed


end
