(* ===== verification/DispatchLedger.thy ===== *)
theory DispatchLedger
  imports DispatchProperties "HOL-Library.Sublist"
begin

text \<open>
  Dispatch over the shared ledger in S3: the composition of \<^verbatim>\<open>attempt.go\<close> with \<^verbatim>\<open>launch_ledger.go\<close>, for all
  processes that share the bucket.
\<close>

section \<open>The ledger of a dispatch\<close>

text \<open>What a dispatch relies on beyond the answers: a ledger moves forward only.\<close>

locale forward_ledger =
  fixes L :: "'g ledger_ops" and before :: "'g \<Rightarrow> 'g \<Rightarrow> bool"
  assumes before_refl: "before g g"
    and before_trans: "before g g1 \<Longrightarrow> before g1 g2 \<Longrightarrow> before g g2"
    and prepare_forward: "before g (snd (lg_Prepare L r p g))"
    and claim_forward: "before g (snd (lg_Claim L d c g))"
    and record_forward: "before g (snd (lg_RecordResponse L d x g))"
begin

lemma send_forward:
  assumes "send E L r input g h = ((res, err), g', h')"
  shows "before g g'"
  using send_records [OF assms] record_forward by auto

text \<open>A dispatch that called EC2 was granted its claim, after the ledger had accepted the preparation.\<close>

lemma dispatched_claim:
  assumes "Dispatch E L m p r g h = ((res, err), g', h')" "as_Dispatched res"
  obtains input g1 g2 where "checked E m p r input" "before g g1"
    "lg_Claim L (lp_LaunchLedger (br_Plan r)) (claim_of E r input) g1 = (Inr True, g2)" "before g2 g'"
  using assms(1)
proof (cases rule: dispatch_outcomes)
  case refused
  then show ?thesis using assms(2) by simp
next
  case (dispatched input g1 g2 h2 h3)
  have "before g g1" using prepare_forward dispatched(3) by (metis snd_conv)
  then show ?thesis using that [OF dispatched(1) _ dispatched(4) send_forward [OF dispatched(5)]] by blast
qed

end

definition s3_ops :: "s3_env \<Rightarrow> s3_ledger \<Rightarrow> ledger_call list ledger_ops" where
  "s3_ops E l = \<lparr>lg_Prepare = ledger_Prepare E l, lg_Claim = ledger_Claim E l, lg_RecordResponse = ledger_RecordResponse E l\<rparr>"

lemma reads_suffix: "reads_to k h h' \<Longrightarrow> suffix h h'"
  by (auto simp: reads_to_def suffix_def)

lemma Load_suffix: "Load E l request h = (x, h') \<Longrightarrow> suffix h h'"
  by (rule reads_suffix [OF Load_reads])

lemma put_suffix: "put E l key j h = (x, h') \<Longrightarrow> suffix h h'"
  using put_spec [of E l key j h x h'] by (auto simp: suffix_def)

lemma putImmutable_suffix: "putImmutable E l key j h = (x, h') \<Longrightarrow> suffix h h'"
  using put_suffix [of E l key j h] reads_suffix [OF get_reads]
  by (auto simp: putImmutable_def split: prod.splits sum.splits) (metis snd_conv suffix_order.trans)+

lemma ledger_Prepare_suffix: "ledger_Prepare E l r p h = (x, h') \<Longrightarrow> suffix h h'"
  unfolding ledger_Prepare_def
  by (auto dest!: putImmutable_suffix Load_suffix split: prod.splits sum.splits option.splits if_splits intro: suffix_order.trans)

lemma ledger_Claim_suffix: "ledger_Claim E l d c h = (x, h') \<Longrightarrow> suffix h h'"
  unfolding ledger_Claim_def
  by (auto dest!: put_suffix Load_suffix split: prod.splits sum.splits option.splits if_splits intro: suffix_order.trans)

lemma ledger_RecordResponse_suffix: "ledger_RecordResponse E l d y h = (x, h') \<Longrightarrow> suffix h h'"
  unfolding ledger_RecordResponse_def Let_def
  by (auto dest!: putImmutable_suffix Load_suffix split: prod.splits sum.splits option.splits if_splits intro: suffix_order.trans)

interpretation s3: forward_ledger "s3_ops E l" suffix
  by unfold_locales (auto simp: s3_ops_def intro: ledger_Prepare_suffix [OF prod.collapse [symmetric]]
    ledger_Claim_suffix [OF prod.collapse [symmetric]] ledger_RecordResponse_suffix [OF prod.collapse [symmetric]])

text \<open>C26.  One dispatch per attempt, for good.  Let any number of processes dispatch over the shared ledger, in any
  interleaving, with crashes, lost replies, retries and other writers.  If two dispatches of the same attempt
  both got as far as calling EC2, they are of the same process, and neither began after the other had
  ended: they are one and the same.\<close>

theorem dispatch_exclusive:
  assumes "s3_store tr m" "observes tr E H"
    and "Dispatch D (s3_ops (E q) l) mf p r g h = ((res, err), g1, h1)" "as_Dispatched res" "suffix g1 (H q)"
    and "Dispatch D' (s3_ops (E q') l) mf' p' r' g' h' = ((res', err'), g1', h1')" "as_Dispatched res'" "suffix g1' (H q')"
    and "br_RequestID r' = br_RequestID r" "ar_AttemptID (last (br_Attempts r')) = ar_AttemptID (last (br_Attempts r))"
  shows "q' = q \<and> \<not> suffix g1 g' \<and> \<not> suffix g1' g"
proof -
  obtain i a b where d: "suffix g a" "lg_Claim (s3_ops (E q) l) (lp_LaunchLedger (br_Plan r)) (claim_of D r i) a = (Inr True, b)" "suffix b g1"
    using s3.dispatched_claim [OF assms(3,4)] by metis
  obtain i' a' b' where d': "suffix g' a'" "lg_Claim (s3_ops (E q') l) (lp_LaunchLedger (br_Plan r')) (claim_of D' r' i') a' = (Inr True, b')"
    "suffix b' g1'"
    using s3.dispatched_claim [OF assms(6,7)] by metis
  have w: "ledger_Claim (E q) l (lp_LaunchLedger (br_Plan r)) (claim_of D r i) a = (Inr True, b)"
    "ledger_Claim (E q') l (lp_LaunchLedger (br_Plan r')) (claim_of D' r' i') a' = (Inr True, b')"
    using d(2) d'(2) by (simp_all add: s3_ops_def)
  obtain late where "H q = late @ b" using suffix_order.trans [OF d(3) assms(5)] by (auto simp: suffix_def)
  moreover obtain late' where "H q' = late' @ b'" using suffix_order.trans [OF d'(3) assms(8)] by (auto simp: suffix_def)
  moreover have "slot (claim_write l (claim_of D' r' i')) = slot (claim_write l (claim_of D r i))"
    using assms(9,10) by (intro claim_slot) (simp_all add: claim_of_def)
  ultimately have "q' = q" "q' = q \<Longrightarrow> b' = b"
    using one_process [OF assms(1,2) w(1) _ w(2)] one_call [OF assms(1,2) w(1)] w(2) by blast+
  then have one: "q' = q \<and> b' = b" by simp
  have "length a < length b" "length a' < length b'"
    using w by (force elim!: claim_won simp: reads_to_def)+
  with d d' one have "length g < length b" "length g' < length b" "length b \<le> length g1" "length b \<le> length g1'"
    by (auto dest!: suffix_length_le)
  then show ?thesis using one by (auto dest!: suffix_length_le)
qed

end
