(* ===== verification/LedgerExample.thy ===== *)
theory LedgerExample
  imports LedgerProperties
begin

text \<open>
  The ledger theorems on a concrete run: one process reads the plan and the first preparation of the example
  request from the bucket, finds no claim, and its claim is acknowledged.
\<close>

section \<open>Texts that fit a record\<close>

fun json_len :: "json \<Rightarrow> nat" and members_len :: "(string \<times> json) list \<Rightarrow> nat" and elements_len :: "json list \<Rightarrow> nat" where
  "json_len JNull = 4"
| "json_len (JBool b) = 5"
| "json_len (JNum s) = length s"
| "json_len (JStr s) = length s + 2"
| "json_len (JArr xs) = Suc (elements_len xs)"
| "json_len (JObj ms) = Suc (members_len ms)"
| "members_len [] = 1"
| "members_len ((k, v) # ms) = length k + 4 + json_len v + members_len ms"
| "elements_len [] = 1"
| "elements_len (v # vs) = Suc (json_len v + elements_len vs)"

lemma print_len:
  "json_soft j \<Longrightarrow> length (json_print j) \<le> json_len j"
  "soft_members ms \<Longrightarrow> length (print_members ms) \<le> members_len ms"
  "soft_elements js \<Longrightarrow> length (print_elements js) \<le> elements_len js"
proof (induction j and ms and js rule: json_len_members_len_elements_len.induct)
  case (8 k v ms)
  then show ?case by (cases ms) (auto simp: json_string_soft)
next
  case (10 v vs)
  then show ?case by (cases vs) auto
qed (auto simp: json_string_soft)

lemma print_nonempty_length: "json_soft j \<Longrightarrow> 1 \<le> length (json_print j)"
  using print_nonempty [of "list_all soft" j] by (auto simp: soft_all)

lemma unique_members_iff:
  "unique_members d ks ms \<longleftrightarrow> distinct (map fst ms) \<and> set ks \<inter> set (map fst ms) = {} \<and> list_all (\<lambda>kv. unique_value (Suc d) (snd kv)) ms"
proof (induction ms arbitrary: ks)
  case (Cons x ms)
  define K where "K = set (map fst ms)"
  have K: "fst ` set ms = K" by (simp add: K_def)
  obtain k v where x: "x = (k, v)" by fastforce
  have "unique_members d ks (x # ms) \<longleftrightarrow> k \<notin> set ks \<and> unique_value (Suc d) v \<and> distinct (map fst ms)
      \<and> set (k # ks) \<inter> K = {} \<and> list_all (\<lambda>kv. unique_value (Suc d) (snd kv)) ms"
    by (simp add: x Cons.IH K)
  also have "\<dots> \<longleftrightarrow> distinct (map fst (x # ms)) \<and> set ks \<inter> set (map fst (x # ms)) = {}
      \<and> list_all (\<lambda>kv. unique_value (Suc d) (snd kv)) (x # ms)"
    by (simp add: x K) blast
  finally show ?case .
qed simp

lemma unique_elements_iff: "unique_elements d js \<longleftrightarrow> list_all (unique_value (Suc d)) js"
  by (induction js) auto

lemma int_lit_short: "0 \<le> i \<Longrightarrow> i < 100 \<Longrightarrow> length (int_lit i) \<le> 2"
  by (subst int_lit_def, subst nat_str.simps, subst nat_str.simps) auto

definition tag_len :: "string gomap \<Rightarrow> nat" where
  "tag_len m = sum_list (map (\<lambda>(k, v). length k + length v + 6) m)"

lemma tag_len_put: "tag_len (map_put k v m) \<le> tag_len m + (length k + length v + 6)"
  by (induction k v m rule: map_put.induct) (auto simp: tag_len_def)

lemma tag_len_step: "tag_len m \<le> n - (length k + length v + 6) \<Longrightarrow> length k + length v + 6 \<le> n \<Longrightarrow> tag_len (map_put k v m) \<le> n"
  using tag_len_put [of k v m] by linarith

lemma members_len_tags: "members_len (map (\<lambda>(k, v). (k, JStr v)) m) = Suc (tag_len m)"
  by (induction m) (auto simp: tag_len_def)

lemma ex_tags_len: "tag_len (elems (lp_CreationTags ex_plan)) \<le> 1000"
proof -
  have "tag_len [] \<le> n" for n by (simp add: tag_len_def)
  then show ?thesis
    by (simp add: ex_plan_def with_group_def plan_record_def creation_tags_def Let_def tag_len_step
      ex_selection_def zero_selection_def ex_config_def ex_profile_def ex_created_def ex_expires_def TagKey_def
      LaunchPlanSchema_def ex_request_def del: map_put.simps)
qed

lemma ex_plan_tags: "\<exists>m. lp_CreationTags ex_plan = Some m"
  by (auto simp: ex_plan_def with_group_def plan_record_def)

lemma ex_image_len: "json_len (e_image ex_image) \<le> 1000"
  using int_lit_short [of 8]
  by (simp add: e_image_def ex_image_def e_disk_def ex_disk_def omit_empty_def)

lemma ex_execution_len: "json_len (e_execution ex_execution) \<le> 1000"
  by (simp add: e_execution_def ex_execution_def ex_hash_def)

lemma ex_ledger_len: "json_len (e_ledger ex_ledger) \<le> 1000"
  using int_lit_short [of 1] by (simp add: e_ledger_def ex_ledger_def ex_hash_def)

lemma ex_choices_len: "elements_len (map e_choice ex_choices) \<le> 1000"
  by (simp add: e_choice_def ex_choices_def)

lemma ex_plan_len: "json_len (e_plan ex_plan) \<le> 20000"
proof -
  obtain m where m: "lp_CreationTags ex_plan = Some m" using ex_plan_tags by blast
  have tags: "members_len (map (\<lambda>(k, v). (k, JStr v)) m) \<le> 1001" using ex_tags_len by (simp add: m members_len_tags)
  show ?thesis
    using tags ex_image_len ex_execution_len ex_ledger_len ex_choices_len int_lit_short [of 2] int_lit_short [of 3] int_lit_short [of 20]
    by (simp add: e_plan_def ex_plan_fields m e_slice_def e_map_def e_disk_def e_document_def omit_empty_def ex_created_def
        ex_expires_def ex_hash_def ex_request_def)
qed

lemma ex_plan_unique: "unique_value 0 (e_plan ex_plan)"
proof -
  obtain m where m: "lp_CreationTags ex_plan = Some m" using ex_plan_tags by blast
  have "map_ok m" using ex_plan_sized by (simp add: plan_sized_def m)
  then have "distinct (map fst m)" by (simp add: map_ok_def strict_sorted_iff)
  then have tags: "unique_value (Suc 0) (JObj (map (\<lambda>(k, v). (k, JStr v)) m))"
    by (simp add: unique_members_iff list_all_iff o_def case_prod_unfold)
  have image: "unique_value (Suc 0) (e_image ex_image)"
    by (simp add: e_image_def ex_image_def e_disk_def ex_disk_def omit_empty_def)
  have rest: "unique_value (Suc 0) (e_execution ex_execution)" "unique_value (Suc 0) (e_ledger ex_ledger)"
    by (simp_all add: e_execution_def e_ledger_def)
  have choices: "unique_value (Suc 0) (JArr (map e_choice ex_choices))"
    by (simp add: unique_elements_iff list_all_iff e_choice_def)
  show ?thesis
    using tags image rest choices
    by (simp add: e_plan_def ex_plan_fields m e_slice_def e_map_def e_disk_def e_document_def omit_empty_def
        del: unique_value.simps(1,2)) (simp add: unique_members_iff)
qed

section \<open>The run\<close>

definition ex_store_ledger :: s3_ledger where
  "ex_store_ledger = \<lparr>ld_scope = ex_config, ld_descriptor = ex_ledger\<rparr>"

definition ex_prepared :: prepared_attempt where
  "ex_prepared = \<lparr>pr_SchemaVersion = 1, pr_RequestID = ex_request, pr_PlanSHA256 = Digest ex_plan, pr_InputSHA256 = ex_hash,
     pr_Attempt = ex_attempt\<rparr>"

definition ex_text :: "string \<Rightarrow> get_reply" where
  "ex_text b = \<lparr>gr_err = None, gr_body = Some b, gr_length = Some (int (length b)), gr_failed = False, gr_ctx = False\<rparr>"

definition ex_absent :: get_reply where
  "ex_absent = \<lparr>gr_err = Some \<lparr>se_Is = [], se_Code = Some ''NoSuchKey''\<rparr>, gr_body = None, gr_length = None, gr_failed = False, gr_ctx = False\<rparr>"

text \<open>S3 answers the reads at the positions \<open>A\<close> of the history with the plan, at \<open>B\<close> with the preparation, and
  all others with "no such key"; it accepts every write.\<close>

definition ex_bucket :: "nat list \<Rightarrow> nat list \<Rightarrow> s3_env" where
  "ex_bucket A B = \<lparr>s3_get = (\<lambda>h. if length h \<in> set A then ex_text (json_print (e_plan ex_plan))
       else if length h \<in> set B then ex_text (json_print (e_prepared ex_prepared)) else ex_absent),
     s3_list = (\<lambda>h. (None, None)), s3_put = (\<lambda>h. \<lparr>pu_err = None, pu_out = True\<rparr>), s3_inputDigest = (\<lambda>i. ex_hash)\<rparr>"

definition ex_s3 :: s3_env where
  "ex_s3 = ex_bucket [1] [2]"

definition ex_read :: "string \<Rightarrow> string \<Rightarrow> ledger_call" where
  "ex_read i kind = GetObject (ll_Bucket ex_ledger) (ledger_key ex_store_ledger ex_request i kind) (ll_ExpectedBucketOwner ex_ledger)"

abbreviation ex_missing :: "nat list \<Rightarrow> nat list \<Rightarrow> ledger_call list \<Rightarrow> bool" where
  "ex_missing A B h \<equiv> Suc (length h) \<notin> set A \<union> set B"

lemma ex_get_absent:
  assumes "ex_missing A B h"
  shows "get (ex_bucket A B) ex_store_ledger (ledger_key ex_store_ledger ex_request i kind) h = (Inl NotFound, ex_read i kind # h)"
proof -
  have "s3_get (ex_bucket A B) (ex_read i kind # h) = ex_absent" using assms by (simp add: ex_bucket_def)
  then show ?thesis
    by (simp add: get_def getOnce_def Let_def ex_read_def ex_store_ledger_def ex_absent_def launchStorageError_def
      sentinel_order_def storage_code_def)
qed

lemma ex_get_text:
  assumes "s3_get (ex_bucket A B) (ex_read i kind # h) = ex_text b" "1 \<le> length b" "length b \<le> 20000"
  shows "get (ex_bucket A B) ex_store_ledger (ledger_key ex_store_ledger ex_request i kind) h = (Inr b, ex_read i kind # h)"
  using assms by (auto simp: get_def getOnce_def Let_def ex_read_def ex_store_ledger_def ex_text_def MaxLaunchRecordBytes_def)

lemma ex_record_decoded:
  assumes "json_soft j" "unique_value 0 j" "d j zero = Some x"
  shows "decode_record d zero (json_print j) = Inr x"
  using assms by (simp add: decode_record_def uniqueJSON_def json_text_print)

lemma ex_read_plan:
  assumes "Suc (length h) \<in> set A"
  shows "read_record (ex_bucket A B) ex_store_ledger plan_decode zero_plan (ledger_key ex_store_ledger ex_request [] []) h
    = (Inr ex_plan, ex_read [] [] # h)"
proof -
  have "get (ex_bucket A B) ex_store_ledger (ledger_key ex_store_ledger ex_request [] []) h
      = (Inr (json_print (e_plan ex_plan)), ex_read [] [] # h)"
    by (rule ex_get_text)
      (use assms print_len(1) [OF ex_plan_soft] ex_plan_len print_nonempty_length [OF ex_plan_soft] in \<open>simp_all add: ex_bucket_def\<close>)
  moreover have "plan_decode (e_plan ex_plan) zero_plan = Some ex_plan"
    by (rule plan_back [OF ex_plan_sized ex_plan_expiry])
  ultimately show ?thesis by (simp add: read_record_def ex_record_decoded ex_plan_soft ex_plan_unique)
qed

lemma soft_hex: "list_all soft (EncodeToString bs)" "list_all soft (sha256_hex t)"
proof -
  have "list_all lower_hex s \<Longrightarrow> list_all soft s" for s
    by (erule list.pred_mono_strong) (auto simp: lower_hex_def is_digit_def in_range_def soft_def plain_def)
  then show "list_all soft (EncodeToString bs)" "list_all soft (sha256_hex t)"
    using EncodeToString_lower sha256_hex_lower by blast+
qed

lemma ex_prepared_soft: "json_soft (e_prepared ex_prepared)"
  by (simp add: e_prepared_def ex_prepared_def e_attempt_def ex_attempt_def e_strings_def e_slice_def omit_empty_def soft_hash soft_int
      Digest_def attemptToken_def ex_attempt_id_def soft_hex ex_created_def soft_def plain_def)

lemma ex_prepared_len: "json_len (e_prepared ex_prepared) \<le> 20000"
  using int_lit_short [of 1] int_lit_short [of 3]
  by (simp add: e_prepared_def ex_prepared_def e_attempt_def ex_attempt_def e_strings_def e_slice_def omit_empty_def
      Digest_def attemptToken_def ex_attempt_id_def ex_created_def ex_request_def ex_hash_def)

lemma ex_prepared_unique: "unique_value 0 (e_prepared ex_prepared)"
  by (simp add: e_prepared_def ex_prepared_def e_attempt_def ex_attempt_def e_strings_def e_slice_def omit_empty_def)

lemma ex_read_prepared:
  assumes "Suc (length h) \<in> set B" "Suc (length h) \<notin> set A"
  shows "read_record (ex_bucket A B) ex_store_ledger (decode_struct prepared_fields) zero_prepared (ledger_key ex_store_ledger ex_request i ''prepared'') h
    = (Inr ex_prepared, ex_read i ''prepared'' # h)"
proof -
  have "get (ex_bucket A B) ex_store_ledger (ledger_key ex_store_ledger ex_request i ''prepared'') h
      = (Inr (json_print (e_prepared ex_prepared)), ex_read i ''prepared'' # h)"
    by (rule ex_get_text)
      (use assms print_len(1) [OF ex_prepared_soft] ex_prepared_len print_nonempty_length [OF ex_prepared_soft] in \<open>simp_all add: ex_bucket_def\<close>)
  moreover have "decode_struct prepared_fields (e_prepared ex_prepared) zero_prepared = Some ex_prepared"
    by (rule prepared_wire) (simp_all add: ex_prepared_def ex_attempt_def int64_def)
  ultimately show ?thesis by (simp add: read_record_def ex_record_decoded ex_prepared_soft ex_prepared_unique)
qed

lemma ex_read_absent:
  "ex_missing A B h \<Longrightarrow> read_record (ex_bucket A B) ex_store_ledger d z (ledger_key ex_store_ledger ex_request i kind) h = (Inl NotFound, ex_read i kind # h)"
  by (simp add: read_record_def ex_get_absent)

lemma ex_valid_plan: "validPlan ex_store_ledger ex_plan"
proof -
  have "first_attempt ex_plan ex_attempt_id = ex_attempt" by (simp add: first_attempt_def ex_attempt_def ex_plan_fields)
  then have "is_ok (BuildFleetInput ex_plan (first_attempt ex_plan ex_attempt_id))" by (simp add: ex_input_built)
  moreover have "plan_image_ok ex_image" by (simp add: plan_image_ok_def ex_image_def ex_disk_def grammar_eval Let_def)
  moreover have "plan_documents_ok ex_plan"
    using ex_execution_ok
    by (simp add: plan_documents_ok_def ex_plan_fields canonical_version_def ParseUint_def number_eval nat_str.simps digit_chars
        in_range_def grammar_eval) (simp add: ex_execution_def)
  moreover have "plan_scoped ex_store_ledger ex_plan"
    by (simp add: plan_scoped_def ex_plan_fields ex_store_ledger_def ex_config_def ex_ledger_def grammar_eval)
  ultimately show ?thesis by (simp add: validPlan_def ex_plan_fields ex_attempt_id(1) ex_ledger_def)
qed

lemma ex_start: "sn_Receipt (start_snapshot ex_request ex_plan) = ex_receipt []"
  by (simp add: start_snapshot_def ex_receipt_def batchVersion_def ex_plan_fields LaunchPlanSchema_def BatchReceiptSchema_def)

lemma ex_attempt_receipt_ok: "Receipt_Validate (ex_receipt [ex_attempt]) = Inr ()"
proof (rule ex_receipt_valid)
  have "attempt_pinned (ex_receipt [ex_attempt]) 0 [] (ex_attempt\<lparr>ar_State := ''prepared'', ar_FleetID := [], ar_InstanceIDs := Some []\<rparr>)"
    by (rule ex_pinned [of ex_attempt]) (simp add: ex_attempt_def)
  then show "attempts_ok (ex_receipt [ex_attempt]) [] [] [] [ex_attempt]"
    by (simp add: attempt_state_ok_def states_def ids_of_def) (simp add: ex_attempt_def)
qed simp

lemma ex_valid_prepared: "validPrepared (\<lambda>i. ex_hash) (ex_receipt []) ex_prepared"
proof -
  from ex_attempt_receipt_ok have "Receipt_Validate (add_attempt (ex_receipt []) ex_attempt) = Inr ()"
    by (simp add: add_attempt_def ex_receipt_def)
  then show ?thesis
    by (simp add: validPrepared_def prepared_shape_def ex_prepared_def ex_receipt_def ex_input_built)
      (simp add: ex_attempt_def ex_plan_fields)
qed

definition ex_snapshot :: launch_snapshot where
  "ex_snapshot = with_prepared ex_attempt_id ex_prepared (start_snapshot ex_request ex_plan)"

definition ex_reads :: "ledger_call list" where
  "ex_reads = (let i = attempt_id ex_request ex_attempt_id in
     [ex_read i ''response'', ex_read i ''dispatch'', ex_read i ''prepared'', ex_read ex_attempt_id ''response'',
      ex_read ex_attempt_id ''dispatch'', ex_read ex_attempt_id ''prepared'', ex_read [] []])"

lemma ex_bucket_digest [simp]: "s3_inputDigest (ex_bucket A B) = (\<lambda>i. ex_hash)"
  by (simp add: ex_bucket_def)

lemma ex_first: "attempt_id ex_request [] = ex_attempt_id"
  by (simp add: attempt_id_def ex_attempt_id(1))

text \<open>The loop ends where the preparation is missing.\<close>

lemma ex_loop_end:
  assumes "n < 256" "\<forall>k \<in> {length h + 1 .. length h + 3}. k \<notin> set A \<union> set B"
  shows "load_loop (ex_bucket A B) ex_store_ledger ex_request n parent s h
      = ((s, None), map (ex_read (attempt_id ex_request parent)) [''response'', ''dispatch'', ''prepared''] @ h)"
proof -
  have "ex_missing A B h" "ex_missing A B (x # h)" "ex_missing A B (x # y # h)" for x y using assms(2) by auto
  then show ?thesis using assms(1) by (subst load_loop.simps) (simp add: Let_def MaxLaunchAttempts_def ex_read_absent ex_get_absent)
qed

lemma ex_loaded_at:
  assumes "length h + 1 \<in> set A" "length h + 2 \<in> set B - set A" "\<forall>k \<in> {length h + 3 .. length h + 7}. k \<notin> set A \<union> set B"
  shows "Load (ex_bucket A B) ex_store_ledger ex_request h = ((ex_snapshot, None), ex_reads @ h)"
proof -
  let ?E = "ex_bucket A B" and ?l = ex_store_ledger and ?s = "start_snapshot ex_request ex_plan"
  let ?h = "ex_read ex_attempt_id ''prepared'' # ex_read [] [] # h"
  have m: "ex_missing A B ?h" "ex_missing A B (x # ?h)" for x using assms(3) by auto
  have attempt: "load_attempt ?E ?l ex_request ex_attempt_id 0 ex_prepared ?s ?h
      = (ex_snapshot, None, map (ex_read ex_attempt_id) [''response'', ''dispatch''] @ ?h)"
    by (simp add: load_attempt_def Let_def ex_read_absent [OF m(1)] ex_read_absent [OF m(2)] checked_claim_def with_claim_def
        with_response_def ex_snapshot_def)
  have "load_loop ?E ?l ex_request 0 [] ?s (ex_read [] [] # h) = ((ex_snapshot, None), ex_reads @ h)"
    using ex_valid_prepared ex_read_prepared [of "ex_read [] [] # h" B A ex_attempt_id] assms
    by (subst load_loop.simps)
      (simp add: ex_first MaxLaunchAttempts_def attempt ex_loop_end ex_start ex_prepared_def [THEN arg_cong [where f = pr_Attempt]]
        ex_attempt_def [THEN arg_cong [where f = ar_AttemptID]] ex_reads_def Let_def)
  then show ?thesis using assms(1) by (simp add: Load_def ex_read_plan ex_valid_plan ex_plan_fields)
qed

lemma ex_loaded: "Load ex_s3 ex_store_ledger ex_request [] = ((ex_snapshot, None), ex_reads)"
  using ex_loaded_at [of "[]" "[1]" "[2]"] by (simp add: ex_s3_def)

definition ex_claim :: dispatch_claim where
  "ex_claim = expectedClaim ex_prepared"

definition ex_won :: "ledger_call list" where
  "ex_won = PutObject (claim_write ex_store_ledger ex_claim) # ex_reads"

lemma ex_put:
  assumes "json_soft j" "json_len j \<le> 20000"
  shows "put (ex_bucket A B) ex_store_ledger key j h = (Inr (), PutObject (put_request ex_store_ledger key (json_print j)) # h)"
proof -
  have "1 \<le> length (json_print j)" "length (json_print j) \<le> MaxLaunchRecordBytes"
    using print_len(1) [OF assms(1)] print_nonempty_length [OF assms(1)] assms(2) by (simp_all add: MaxLaunchRecordBytes_def)
  then show ?thesis by (auto simp: put_def Let_def ex_bucket_def)
qed

lemma ex_claim_text: "json_soft (e_claim ex_claim)" "json_len (e_claim ex_claim) \<le> 20000"
proof -
  show "json_soft (e_claim ex_claim)"
    by (simp add: e_claim_def ex_claim_def expectedClaim_def ex_prepared_def ex_attempt_def soft_hash soft_int
      Digest_def attemptToken_def ex_attempt_id_def soft_hex soft_def plain_def)
  show "json_len (e_claim ex_claim) \<le> 20000"
    using int_lit_short [of 1]
    by (simp add: e_claim_def ex_claim_def expectedClaim_def ex_prepared_def ex_attempt_def Digest_def attemptToken_def
        ex_attempt_id_def ex_request_def ex_hash_def)
qed

lemma ex_claim_ids: "dc_RequestID ex_claim = ex_request" "dc_AttemptID ex_claim = ex_attempt_id"
  by (simp_all add: ex_claim_def expectedClaim_def ex_prepared_def ex_attempt_def)

lemma ex_claim_won_at:
  assumes "length h + 1 \<in> set A" "length h + 2 \<in> set B - set A" "\<forall>k \<in> {length h + 3 .. length h + 7}. k \<notin> set A \<union> set B"
  shows "ledger_Claim (ex_bucket A B) ex_store_ledger ex_ledger ex_claim h = (Inr True, ex_won @ h)"
proof -
  have "put (ex_bucket A B) ex_store_ledger (ledger_key ex_store_ledger ex_request ex_attempt_id ''dispatch'') (e_claim ex_claim) (ex_reads @ h)
      = (Inr (), ex_won @ h)"
    using ex_put [OF ex_claim_text] by (simp add: ex_won_def claim_write_def ex_claim_ids)
  moreover have "lp_LaunchLedger (br_Plan (sn_Receipt ex_snapshot)) = ex_ledger" "map_of (sn_Prepared ex_snapshot) ex_attempt_id = Some ex_prepared"
    "sn_Claims ex_snapshot = []" "map ar_AttemptID (br_Attempts (sn_Receipt ex_snapshot)) = [ex_attempt_id]"
    by (simp_all add: ex_snapshot_def with_prepared_def ex_start ex_receipt_def ex_plan_fields ex_prepared_def ex_attempt_def
        start_snapshot_def empty_snapshot_def)
  ultimately show ?thesis
    using ex_attempt_id(2)
    by (auto simp: ledger_Claim_def ex_claim_ids ex_loaded_at [OF assms] ex_store_ledger_def [THEN arg_cong [where f = ld_descriptor]]
        ex_claim_def [symmetric] last_map split: if_splits)
qed

lemma ex_claim_won: "ledger_Claim ex_s3 ex_store_ledger ex_ledger ex_claim [] = (Inr True, ex_won)"
  using ex_claim_won_at [of "[]" "[1]" "[2]"] by (simp add: ex_s3_def)

section \<open>The theorems on this run\<close>

definition ex_trace :: "store_event list" where
  "ex_trace = [(0, claim_write ex_store_ledger ex_claim, True)]"

lemma ex_trace_store: "\<exists>m. s3_store ex_trace m"
proof -
  have "s3_store ex_trace (Map.empty(slot (claim_write ex_store_ledger ex_claim) \<mapsto> pt_Body (claim_write ex_store_ledger ex_claim)))"
    unfolding ex_trace_def by (rule s3_store.created [OF s3_store.initial]) (simp_all add: claim_write_def put_request_def)
  then show ?thesis by blast
qed

text \<open>Process 0 is the run above; the others do nothing.\<close>

lemma ex_observes: "observes ex_trace (\<lambda>q. ex_s3) (\<lambda>q. if q = 0 then ex_won else [])"
proof -
  have "writes ex_s3 ex_reads = []"
    using writes_reads [of ex_reads ex_s3 "[]"] by (simp add: ex_reads_def Let_def ex_read_def writing_def)
  then show ?thesis by (auto simp: observes_def ex_trace_def ex_won_def acked_def) (simp_all add: ex_s3_def ex_bucket_def)
qed

theorem claim_single_winner_witness:
  "ledger_Claim ex_s3 ex_store_ledger ex_ledger ex_claim [] = (Inr True, ex_won)
   \<and> {q. (if q = (0 :: nat) then ex_won else []) = ex_won} = {0}"
proof -
  obtain m where m: "s3_store ex_trace m" using ex_trace_store by blast
  have *: "q = 0 \<and> ex_won = ex_won" if "(if q = 0 then ex_won else []) = ex_won" for q :: nat
    by (rule claim_single_winner [OF m ex_observes, where l = ex_store_ledger and d = ex_ledger and d' = ex_ledger and h = "[]"
        and h' = "[]" and c = ex_claim and c' = ex_claim and q = 0 and q' = q and later = "[]" and later' = "[]"])
      (use that in \<open>simp_all only: ex_claim_won append_Nil if_True simp_thms\<close>)
  have **: "(if q = 0 then ex_won else []) = ex_won \<longleftrightarrow> q = 0" for q :: nat
    by (rule iffI, rule * [THEN conjunct1], assumption, simp only: if_True simp_thms)
  have "{q. (if q = (0 :: nat) then ex_won else []) = ex_won} = {0}" using ** by simp
  with ex_claim_won show ?thesis by blast
qed


theorem load_sound_witness:
  "Load ex_s3 ex_store_ledger ex_request [] = ((ex_snapshot, None), ex_reads)
   \<and> Receipt_Validate (sn_Receipt ex_snapshot) = Inr () \<and> validPlan ex_store_ledger (br_Plan (sn_Receipt ex_snapshot))"
proof -
  have "br_Attempts (sn_Receipt ex_snapshot) \<noteq> []" by (simp add: ex_snapshot_def with_prepared_def)
  with load_sound [OF ex_loaded] ex_loaded show ?thesis by simp
qed

end
