(* ===== verification/DispatchExample.thy ===== *)
theory DispatchExample
  imports DispatchLedger LedgerExample
begin

text \<open>The dispatch theorems on a concrete run over the ledger in S3, in which every service answers well.\<close>

definition ex_env_dispatch :: dispatch_env where
  "ex_env_dispatch = \<lparr>de_scope = ex_config, de_nil = False, de_path = (\<lambda>r. ''/cache/'' @ r), de_lock = (\<lambda>h. None),
     de_foundation = (\<lambda>h. None), de_clock = (\<lambda>h. 63869077333120000000), de_save = (\<lambda>h. None), de_announce = (\<lambda>h. False),
     de_ctx = (\<lambda>h. False), de_reaches = (\<lambda>h. True), de_reply = (\<lambda>h. (Some ex_output, None)), de_attempts = (\<lambda>h. 1),
     de_verify = (\<lambda>h. ([], None)), de_inputDigest = (\<lambda>i. ex_hash)\<rparr>"

abbreviation ex_new :: batch_receipt where
  "ex_new \<equiv> ex_receipt [ex_attempt]"

lemma ex_new_fields: "br_Plan ex_new = ex_plan" "br_RequestID ex_new = ex_request" "br_PlanSHA256 ex_new = Digest ex_plan"
    "br_Attempts ex_new = [ex_attempt]"
  by (simp_all add: ex_receipt_def)

lemma ex_attempt_fields: "ar_State ex_attempt = ''prepared''" "ar_AttemptID ex_attempt = ex_attempt_id"
  by (simp_all add: ex_attempt_def)

lemma ex_checked: "checked ex_env_dispatch ex_manifest ex_profile ex_new ex_input"
proof -
  have "replay_selection ex_new = ex_selection"
    by (simp add: replay_selection_def ex_new_fields ex_plan_fields ex_selection_def zero_selection_def)
  then show ?thesis
    using ex_plan_built
    by (simp add: checked_def ex_attempt_receipt_ok ex_new_fields ex_attempt_fields ex_input_built ex_plan_fields ex_env_dispatch_def
        LaunchPlanSchema_def) (simp add: requireExpiryManifest_def ex_manifest_def ManifestSchema_def)
qed

lemma ex_unhindered: "unhindered ex_env_dispatch ex_plan"
proof -
  have w: "window_denotes \<lparr>w_CreatedAt = ex_created, w_ExpiresAt = ex_expires\<rparr> 63869077333120000000 63869084533120000000"
    using NewWindow_denotes [OF ex_window] by (simp add: DefaultTTL_def hour_def minute_def second_def)
  have "63869077333120000000 < (63869084533120000000 :: int)" by simp
  with w have "\<exists>c e. window_denotes \<lparr>w_CreatedAt = ex_created, w_ExpiresAt = ex_expires\<rparr> c e \<and> 63869077333120000000 < e" by blast
  with ex_times(1) have "checkAllocation ex_plan 63869077333120000000 = Inr ()"
    unfolding checkAllocation_iff built_plan_window(1) [OF ex_plan_built] built_plan_window(2) [OF ex_plan_built] by simp
  then show ?thesis by (simp add: unhindered_def ex_env_dispatch_def)
qed

section \<open>The ledger\<close>

text \<open>S3 answers the reads of the claim: the plan and the preparation are found there, but not before.\<close>

abbreviation ex_shared :: s3_env where
  "ex_shared \<equiv> ex_bucket [2, 7] [8]"

definition ex_put_plan :: put_input where
  "ex_put_plan = put_request ex_store_ledger (ledger_key ex_store_ledger ex_request [] []) (json_print (e_plan ex_plan))"

definition ex_put_prepared :: put_input where
  "ex_put_prepared = put_request ex_store_ledger (ledger_key ex_store_ledger ex_request ex_attempt_id ''prepared'') (json_print (e_prepared ex_prepared))"

definition ex_after_prepare :: "ledger_call list" where
  "ex_after_prepare = PutObject ex_put_prepared # map (ex_read ex_attempt_id) [''response'', ''dispatch'', ''prepared'']
     @ [ex_read [] [], PutObject ex_put_plan]"

lemma ex_prepare_done: "ledger_Prepare ex_shared ex_store_ledger ex_new ex_prepared [] = (Inr (), ex_after_prepare)"
proof -
  let ?h = "[PutObject ex_put_plan]"
  have ok: "prepare_ok ex_shared ex_store_ledger ex_new ex_prepared"
  proof -
    have "ex_new\<lparr>br_Attempts := []\<rparr> = ex_receipt []" by (simp add: ex_receipt_def)
    then show ?thesis
      using ex_valid_plan ex_attempt_receipt_ok ex_valid_prepared
      by (simp add: prepare_ok_def ex_new_fields ex_plan_fields ex_store_ledger_def [THEN arg_cong [where f = ld_descriptor]]
          ex_prepared_def [THEN arg_cong [where f = pr_Attempt]] MaxLaunchAttempts_def)
  qed
  have "load_loop ex_shared ex_store_ledger ex_request 0 [] (start_snapshot ex_request ex_plan) (ex_read [] [] # ?h)
      = ((start_snapshot ex_request ex_plan, None), map (ex_read ex_attempt_id) [''response'', ''dispatch'', ''prepared''] @ ex_read [] [] # ?h)"
    using ex_loop_end [of 0 "ex_read [] [] # ?h" "[2, 7]" "[8]" "[]"] by (auto simp: ex_first)
  then have load: "Load ex_shared ex_store_ledger ex_request ?h
      = ((start_snapshot ex_request ex_plan, None), map (ex_read ex_attempt_id) [''response'', ''dispatch'', ''prepared''] @ ex_read [] [] # ?h)"
    using ex_read_plan [of ?h "[2, 7]" "[8]"] by (simp add: Load_def ex_valid_plan ex_plan_fields)
  have same: "same_history ex_new ex_prepared (start_snapshot ex_request ex_plan)"
    by (simp add: same_history_def start_snapshot_def empty_snapshot_def ex_new_fields)
  have "putImmutable ex_shared ex_store_ledger (ledger_key ex_store_ledger ex_request [] []) (e_plan ex_plan) h = (Inr (), PutObject ex_put_plan # h)"
    "putImmutable ex_shared ex_store_ledger (ledger_key ex_store_ledger ex_request ex_attempt_id ''prepared'') (e_prepared ex_prepared) h
       = (Inr (), PutObject ex_put_prepared # h)" for h
    by (simp_all add: putImmutable_def ex_put_plan_def ex_put_prepared_def ex_put [OF ex_plan_soft ex_plan_len] ex_put [OF ex_prepared_soft ex_prepared_len])
  then show ?thesis
    by (simp add: ledger_Prepare_def ok ex_new_fields load same ex_after_prepare_def
        ex_prepared_def [THEN arg_cong [where f = pr_Attempt]] ex_attempt_fields)
qed

definition ex_after_claim :: "ledger_call list" where
  "ex_after_claim = ex_won @ ex_after_prepare"

lemma ex_claimed: "ledger_Claim ex_shared ex_store_ledger ex_ledger ex_claim ex_after_prepare = (Inr True, ex_after_claim)"
  unfolding ex_after_claim_def by (rule ex_claim_won_at) (auto simp: ex_after_prepare_def)

lemma ex_documents: "prepared_of ex_env_dispatch ex_new ex_input = ex_prepared" "claim_of ex_env_dispatch ex_new ex_input = ex_claim"
  by (simp_all add: prepared_of_def claim_of_def ex_new_fields ex_env_dispatch_def ex_prepared_def ex_claim_def expectedClaim_def)

lemma ex_record_lost:
  assumes "rsp_RequestID x = ex_request" "ar_AttemptID (rsp_Attempt x) = ex_attempt_id"
  shows "ledger_RecordResponse ex_shared ex_store_ledger ex_ledger x ex_after_claim = (Inl NotFound, ex_read [] [] # ex_after_claim)"
proof -
  have "ex_missing [2, 7] [8] ex_after_claim"
    by (simp add: ex_after_claim_def ex_won_def ex_reads_def ex_after_prepare_def Let_def)
  then have "Load ex_shared ex_store_ledger ex_request ex_after_claim = ((empty_snapshot, Some NotFound), ex_read [] [] # ex_after_claim)"
    by (simp add: Load_def ex_read_absent)
  then show ?thesis
    using assms ex_attempt_id(2)
    by (simp add: ledger_RecordResponse_def Let_def ex_store_ledger_def [THEN arg_cong [where f = ld_descriptor]])
qed

section \<open>The theorems on this run\<close>

text \<open>The first process dispatches over the shared ledger; the others do nothing.\<close>

lemma ex_ran: "\<exists>res err g h. Dispatch ex_env_dispatch (s3_ops ex_shared ex_store_ledger) ex_manifest ex_profile ex_new [] [] = ((res, err), g, h)
    \<and> as_Dispatched res \<and> g = ex_read [] [] # ex_after_claim"
proof -
  let ?L = "s3_ops ex_shared ex_store_ledger"
  have led: "lg_Prepare ?L ex_new (prepared_of ex_env_dispatch ex_new ex_input) [] = (Inr (), ex_after_prepare)"
    "lg_Claim ?L (lp_LaunchLedger (br_Plan ex_new)) (claim_of ex_env_dispatch ex_new ex_input) ex_after_prepare = (Inr True, ex_after_claim)"
    using ex_prepare_done ex_claimed by (simp_all add: s3_ops_def ex_documents ex_new_fields ex_plan_fields)
  have u: "unhindered ex_env_dispatch (br_Plan ex_new)" using ex_unhindered by (simp add: ex_new_fields)
  obtain h2 where d: "Dispatch ex_env_dispatch ?L ex_manifest ex_profile ex_new [] []
      = (case send ex_env_dispatch ?L ex_new ex_input ex_after_claim h2 of (x, g', h') \<Rightarrow> (x, g', Unlock # h'))"
    using unhindered_send [OF ex_checked u led] by blast
  obtain res err g h where s: "send ex_env_dispatch ?L ex_new ex_input ex_after_claim h2 = ((res, err), g, h)" by (metis prod.collapse)
  from send_records [OF s] obtain a ws where o: "as_Dispatched res" "ar_AttemptID a = ex_attempt_id"
    "g = snd (ledger_RecordResponse ex_shared ex_store_ledger ex_ledger (response_of ex_env_dispatch ex_new ex_input a ws) ex_after_claim)"
    by (auto simp: s3_ops_def ex_new_fields ex_plan_fields ex_attempt_fields)
  have "g = ex_read [] [] # ex_after_claim"
    unfolding o(3) by (subst ex_record_lost) (simp_all add: o(2) response_of_def ex_new_fields)
  then show ?thesis using d s o(1) by auto
qed

theorem dispatch_guarded_witness:
  "\<exists>res err g es. Dispatch ex_env_dispatch (s3_ops ex_shared ex_store_ledger) ex_manifest ex_profile ex_new [] [] = ((res, err), g, es)
     \<and> as_Dispatched res \<and> (filter sends es = [] \<or> (\<exists>input. checked ex_env_dispatch ex_manifest ex_profile ex_new input))"
proof -
  from ex_ran obtain res err g h where r: "Dispatch ex_env_dispatch (s3_ops ex_shared ex_store_ledger) ex_manifest ex_profile ex_new [] []
      = ((res, err), g, h)" "as_Dispatched res" by blast
  from dispatch_guarded [OF r(1)] have "filter sends h = [] \<or> (\<exists>input. checked ex_env_dispatch ex_manifest ex_profile ex_new input)"
    by auto
  with r show ?thesis by blast
qed

definition ex_dispatch_trace :: "store_event list" where
  "ex_dispatch_trace = [(0, claim_write ex_store_ledger ex_claim, True), (0, ex_put_prepared, True), (0, ex_put_plan, True)]"

lemma ex_slots:
  "slot ex_put_plan \<noteq> slot ex_put_prepared" "slot (claim_write ex_store_ledger ex_claim) \<noteq> slot ex_put_prepared"
  "slot (claim_write ex_store_ledger ex_claim) \<noteq> slot ex_put_plan"
proof -
  have "ex_attempt_id \<noteq> []" using ex_attempt_id(2) by auto
  then show "slot ex_put_plan \<noteq> slot ex_put_prepared" "slot (claim_write ex_store_ledger ex_claim) \<noteq> slot ex_put_prepared"
    "slot (claim_write ex_store_ledger ex_claim) \<noteq> slot ex_put_plan"
    by (simp_all add: claim_write_def ex_put_prepared_def ex_put_plan_def put_request_def ledger_key_def ex_claim_ids)
qed

lemma ex_conditional: "pt_IfNoneMatch ex_put_plan = ''*''" "pt_IfNoneMatch ex_put_prepared = ''*''"
    "pt_IfNoneMatch (claim_write ex_store_ledger ex_claim) = ''*''"
  by (simp_all add: claim_write_def ex_put_prepared_def ex_put_plan_def put_request_def)

lemma store_create: "\<exists>m. s3_store tr m \<and> dom m = K \<Longrightarrow> pt_IfNoneMatch i = ''*'' \<Longrightarrow> slot i \<notin> K \<Longrightarrow>
    \<exists>m. s3_store ((q, i, True) # tr) m \<and> dom m = insert (slot i) K"
  using s3_store.created by fastforce

lemma ex_dispatch_store: "\<exists>m. s3_store ex_dispatch_trace m"
proof -
  have "\<exists>m. s3_store [] m \<and> dom m = {}" using s3_store.initial [of Map.empty] by auto
  note store_create [OF this ex_conditional(1), of 0]
  note store_create [OF this(1) [simplified] ex_conditional(2), of 0]
  note store_create [OF this(1) ex_conditional(3), of 0]
  then show ?thesis using ex_slots unfolding ex_dispatch_trace_def by (auto simp del: prod.inject)
qed

lemma ex_dispatch_observes: "observes ex_dispatch_trace (\<lambda>q. ex_shared) (\<lambda>q. if q = 0 then ex_read [] [] # ex_after_claim else [])"
proof -
  have reads: "writes ex_shared (ex_reads @ h) = writes ex_shared h" for h
    using writes_reads [of ex_reads ex_shared h] by (simp add: ex_reads_def Let_def ex_read_def writing_def)
  have "writes ex_shared (ex_read [] [] # ex_after_claim) = [(claim_write ex_store_ledger ex_claim, True), (ex_put_prepared, True), (ex_put_plan, True)]"
    by (simp add: ex_after_claim_def ex_won_def reads) (simp add: ex_after_prepare_def ex_read_def acked_def, simp add: ex_bucket_def)
  then show ?thesis by (auto simp: observes_def ex_dispatch_trace_def)
qed

theorem dispatch_exclusive_witness:
  "\<exists>res err g h. Dispatch ex_env_dispatch (s3_ops ex_shared ex_store_ledger) ex_manifest ex_profile ex_new [] [] = ((res, err), g, h)
     \<and> as_Dispatched res \<and> {q. suffix g (if q = (0 :: nat) then ex_read [] [] # ex_after_claim else [])} = {0}"
proof -
  let ?H = "\<lambda>q. if q = (0 :: nat) then ex_read [] [] # ex_after_claim else []"
  from ex_ran obtain res err g h where r: "Dispatch ex_env_dispatch (s3_ops ex_shared ex_store_ledger) ex_manifest ex_profile ex_new [] []
      = ((res, err), g, h)" "as_Dispatched res" "g = ex_read [] [] # ex_after_claim" by blast
  have g: "suffix g (?H 0)" by (simp add: r(3))
  obtain m where m: "s3_store ex_dispatch_trace m" using ex_dispatch_store by blast
  have "q = 0" if "suffix g (?H q)" for q
    using dispatch_exclusive [OF m ex_dispatch_observes r(1,2) g r(1,2) that refl refl] by blast
  then have "{q. suffix g (?H q)} = {0}" using g by blast
  with r show ?thesis by blast
qed

text \<open>A ledger that grants everything: the dispatch sends its request and reports the complete reply.\<close>

definition ex_granting :: "unit ledger_ops" where
  "ex_granting = \<lparr>lg_Prepare = (\<lambda>r p g. (Inr (), g)), lg_Claim = (\<lambda>d c g. (Inr True, g)), lg_RecordResponse = (\<lambda>d x g. (Inr (), g))\<rparr>"


end
