(* ===== verification/BatchOutcome.thy ===== *)
theory BatchOutcome
  imports LaunchLedger AttemptDispatch
begin

text \<open>
  \<^verbatim>\<open>internal/lifecycle/batch_outcome.go\<close>, \<open>AttemptResult.Outcome\<close> of \<^verbatim>\<open>attempt.go\<close>, the expiry parts of \<^verbatim>\<open>expiry.go\<close> and
  \<open>completeBatchResult\<close> of \<^verbatim>\<open>batch_run.go\<close>: what is reported of a request, from the receipt, the observed workers and
  whether the observation bounds the allocation.
\<close>

section \<open>Data\<close>

record launch_observation =
  lo_Receipt :: batch_receipt
  lo_Workers :: "worker_outcome list"
  lo_Errors :: "resource_error list"
  lo_Bounded :: bool
  lo_Historical :: "string gomap"

record attempt_outcome =
  ao_AttemptID :: string
  ao_ParentID :: string
  ao_FleetID :: string
  ao_Status :: string
  ao_RequestedCount :: int
  ao_FulfilledCount :: int
  ao_InstanceIDs :: "string list"
  ao_MissingCount :: "int option"
  ao_Errors :: "resource_error list"

record batch_outcome =
  bo_TTL :: "string option"
  bo_ExpiresAt :: "string option"
  bo_RequestID :: string
  bo_Status :: string
  bo_RequestedCount :: int
  bo_FulfilledCount :: int
  bo_MissingCount :: "int option"
  bo_ReadyCount :: int
  bo_Plan :: launch_plan
  bo_Attempts :: "attempt_outcome list"
  bo_Workers :: "worker_outcome list"
  bo_Errors :: "resource_error list"
  bo_ResumeCommand :: string
  bo_RetryCommand :: string

definition zero_outcome :: batch_outcome where
  "zero_outcome = \<lparr>bo_TTL = None, bo_ExpiresAt = None, bo_RequestID = [], bo_Status = [], bo_RequestedCount = 0, bo_FulfilledCount = 0,
     bo_MissingCount = None, bo_ReadyCount = 0, bo_Plan = zero_plan, bo_Attempts = [], bo_Workers = [], bo_Errors = [],
     bo_ResumeCommand = [], bo_RetryCommand = []\<rparr>"

section \<open>Workers\<close>

definition unionInstanceIDs :: "string list list \<Rightarrow> string list" where
  "unionInstanceIDs groups = sort (remdups (filter (re_match instanceRE) (concat groups)))"

definition sortedBatchWorkers :: "worker_outcome gomap \<Rightarrow> worker_outcome list" where
  "sortedBatchWorkers m = sort_key wo_ID (map snd m)"

definition put_worker :: "worker_outcome \<Rightarrow> worker_outcome gomap \<Rightarrow> worker_outcome gomap" where
  "put_worker w = map_put (wo_ID w) w"

text \<open>A worker for an identity that has none yet.\<close>

definition ensure_worker :: "launch_plan \<Rightarrow> attempt_receipt \<Rightarrow> string \<Rightarrow> worker_outcome gomap \<Rightarrow> worker_outcome gomap" where
  "ensure_worker plan a i m = (if map_of m i = None then map_put i (fleetWorker plan a i zero_choice) m else m)"

definition response_workers :: "launch_snapshot \<Rightarrow> attempt_receipt \<Rightarrow> worker_outcome list" where
  "response_workers s a = (case map_of (sn_Responses s) (ar_AttemptID a) of None \<Rightarrow> [] | Some x \<Rightarrow> elems (rsp_Workers x))"

definition snapshot_turn :: "launch_snapshot \<Rightarrow> attempt_receipt \<Rightarrow> worker_outcome gomap \<Rightarrow> worker_outcome gomap" where
  "snapshot_turn s a m =
     fold (ensure_worker (br_Plan (sn_Receipt s)) a) (ids_of a) (fold put_worker (response_workers s a) m)"

definition snapshotWorkers :: "launch_snapshot \<Rightarrow> worker_outcome list" where
  "snapshotWorkers s = sortedBatchWorkers (fold (snapshot_turn s) (br_Attempts (sn_Receipt s)) [])"

section \<open>Evidence that could not be verified\<close>

definition unknown_worker :: "string \<Rightarrow> string \<Rightarrow> string \<Rightarrow> worker_outcome" where
  "unknown_worker request attempt i =
     \<lparr>wo_Instance = zero_inst\<lparr>in_ID := i, in_RequestID := request, in_State := ''unknown'', in_SSM := ''not_observed'',
        in_Bootstrap := ''not_observed'', in_Readiness := ''not_observed'', in_RootDeletion := ''unavailable'', in_Volumes := Some [],
        in_AttemptID := attempt\<rparr>, wo_Status = ''not_observed''\<rparr>"

definition known_attempt :: "attempt_receipt \<Rightarrow> attempt_receipt" where
  "known_attempt a = \<lparr>ar_AttemptID = ar_AttemptID a, ar_ParentID = (if ValidRequest (ar_ParentID a) then ar_ParentID a else []),
     ar_ClientToken = [], ar_RequestedCount = 0, ar_CreatedAt = [], ar_State = ''unknown'',
     ar_FleetID = (if re_match fleetIDRE (ar_FleetID a) then ar_FleetID a else []), ar_InstanceIDs = Some [], ar_Errors = Some []\<rparr>"

text \<open>One cached attempt: it is added unless its identity is there, and its machines are added to that entry.\<close>

definition evidence_turn :: "string \<Rightarrow> attempt_receipt \<Rightarrow> attempt_receipt list \<times> worker_outcome gomap
    \<Rightarrow> attempt_receipt list \<times> worker_outcome gomap" where
  "evidence_turn request a s =
     (if \<not> ValidRequest (ar_AttemptID a) then s
      else case s of (as, workers) \<Rightarrow>
        let as = (if ar_AttemptID a \<in> ar_AttemptID ` set as then as else as @ [known_attempt a]);
            old = hd (filter (\<lambda>b. ar_AttemptID b = ar_AttemptID a) as);
            ids = unionInstanceIDs [ids_of old, ids_of a] in
        (map (\<lambda>b. if ar_AttemptID b = ar_AttemptID a then b\<lparr>ar_InstanceIDs := Some ids\<rparr> else b) as,
         fold (\<lambda>i. map_put i (unknown_worker request (ar_AttemptID a) i)) ids workers))"

definition unverified_error :: resource_error where
  "unverified_error = \<lparr>re_ResourceID = [], re_InstanceType = [], re_SubnetID = [], re_Code = ''launch_evidence_unverified'',
     re_Message = ''Shared launch authority could not be verified; retain these IDs for inspection without allocating again.''\<rparr>"

definition unverifiedRecoveryEvidence :: "string \<Rightarrow> batch_receipt list \<Rightarrow> launch_observation" where
  "unverifiedRecoveryEvidence request receipts =
     (case fold (evidence_turn request) (concat (map br_Attempts receipts)) ([], []) of
        (as, workers) \<Rightarrow> \<lparr>lo_Receipt = zero_receipt\<lparr>br_RequestID := request, br_Attempts := as\<rparr>, lo_Workers = sortedBatchWorkers workers,
          lo_Errors = [unverified_error], lo_Bounded = False, lo_Historical = []\<rparr>)"

section \<open>The outcome of an attempt\<close>

definition attempt_base :: "attempt_receipt \<Rightarrow> attempt_outcome" where
  "attempt_base a = \<lparr>ao_AttemptID = ar_AttemptID a, ao_ParentID = ar_ParentID a, ao_FleetID = ar_FleetID a, ao_Status = ar_State a,
     ao_RequestedCount = ar_RequestedCount a, ao_FulfilledCount = 0, ao_InstanceIDs = ids_of a, ao_MissingCount = None,
     ao_Errors = elems (ar_Errors a)\<rparr>"

definition Attempt_Outcome :: "attempt_result \<Rightarrow> attempt_outcome" where
  "Attempt_Outcome r =
     (if br_Attempts (as_Receipt r) = []
      then \<lparr>ao_AttemptID = [], ao_ParentID = [], ao_FleetID = [], ao_Status = [], ao_RequestedCount = 0, ao_FulfilledCount = 0,
             ao_InstanceIDs = [], ao_MissingCount = None, ao_Errors = []\<rparr>
      else let a = last (br_Attempts (as_Receipt r)); known = remdups (ids_of a);
               verified = remdups (map wo_ID (filter (\<lambda>w. wo_Status w = ''allocated'' \<and> wo_ID w \<in> set known
                            \<and> in_AttemptID (wo_Instance w) = ar_AttemptID a) (as_Workers r))) in
        (attempt_base a)\<lparr>ao_FulfilledCount := int (length verified),
          ao_MissingCount := (if terminal a \<and> as_ObservationError r = None \<and> length verified = length known \<and> length known = length (ids_of a)
             then Some (ar_RequestedCount a - int (length (ids_of a))) else None)\<rparr>)"

section \<open>The outcome of a request\<close>

text \<open>Whether the attempt accounts for the machine: its complete response, a validated original response, or the worker
  itself.\<close>

definition accounts :: "launch_observation \<Rightarrow> worker_outcome list \<Rightarrow> attempt_receipt \<Rightarrow> string \<Rightarrow> bool" where
  "accounts obs ws a i \<longleftrightarrow> ar_State a = ''complete'' \<or> lookup [] (lo_Historical obs) i = ar_AttemptID a
     \<or> (case map_of (rev (map (\<lambda>w. (wo_ID w, w)) ws)) i of None \<Rightarrow> False
        | Some w \<Rightarrow> wo_Status w = ''allocated'' \<and> in_AttemptID (wo_Instance w) = ar_AttemptID a)"

definition attempt_turn :: "launch_observation \<Rightarrow> worker_outcome list \<Rightarrow> attempt_receipt \<Rightarrow> attempt_outcome list \<times> string list
    \<Rightarrow> attempt_outcome list \<times> string list" where
  "attempt_turn obs ws a s =
     (case s of (outs, fulfilled) \<Rightarrow>
        let new = filter (\<lambda>i. i \<notin> set fulfilled) (remdups (filter (accounts obs ws a) (ids_of a))) in
        (outs @ [(attempt_base a)\<lparr>ao_FulfilledCount := int (length new),
           ao_MissingCount := (if lo_Bounded obs \<and> terminal a then Some (ar_RequestedCount a - int (length (ids_of a))) else None)\<rparr>],
         fulfilled @ new))"

definition setBatchExpiry :: "batch_outcome \<Rightarrow> batch_outcome" where
  "setBatchExpiry out =
     (case Window_TTL (plan_window (bo_Plan out)) of
        Inr ttl \<Rightarrow> if lp_SchemaVersion (bo_Plan out) = LaunchPlanSchema
          then out\<lparr>bo_TTL := Some (duration_string ttl), bo_ExpiresAt := Some (lp_ExpiresAt (bo_Plan out))\<rparr>
          else out\<lparr>bo_TTL := None, bo_ExpiresAt := None\<rparr>
      | Inl _ \<Rightarrow> out\<lparr>bo_TTL := None, bo_ExpiresAt := None\<rparr>)"

definition map_workers :: "(inst \<Rightarrow> inst) \<Rightarrow> worker_outcome list \<Rightarrow> worker_outcome list" where
  "map_workers f ws = map (\<lambda>w. w\<lparr>wo_Instance := f (wo_Instance w)\<rparr>) ws"

definition ready_count :: "worker_outcome list \<Rightarrow> int" where
  "ready_count ws = int (length (filter (\<lambda>w. in_Readiness (wo_Instance w) = ''ready'') ws))"

definition prepared_only :: "batch_receipt \<Rightarrow> bool" where
  "prepared_only r \<longleftrightarrow> (br_Attempts r = [] \<and> supportedPlan (lp_SchemaVersion (br_Plan r)))
     \<or> (br_Attempts r \<noteq> [] \<and> ar_State (last (br_Attempts r)) = ''prepared'')"

definition capacity_status :: "int \<Rightarrow> nat \<Rightarrow> string" where
  "capacity_status missing fulfilled =
     (if missing = 0 then ''allocated'' else if fulfilled = 0 then ''no_capacity'' else ''partial_capacity'')"

text \<open>The commands a user is offered next.\<close>

definition resume_command :: "string \<Rightarrow> string \<Rightarrow> string" where
  "resume_command prefix request = prefix @ '' up --resume '' @ request"

definition with_commands :: "string \<Rightarrow> batch_receipt \<Rightarrow> batch_outcome \<Rightarrow> batch_outcome" where
  "with_commands prefix r out =
     (let prefix = (if prefix = [] then ''devbox'' else prefix) in
      if \<not> ValidRequest (br_RequestID r) then out
      else let out = out\<lparr>bo_ResumeCommand := resume_command prefix (br_RequestID r)\<rparr> in
        case bo_MissingCount out of
          Some n \<Rightarrow> if n > 0 \<and> br_Attempts r \<noteq> []
            then out\<lparr>bo_RetryCommand := prefix @ '' up --retry-missing '' @ br_RequestID r @ '' --after '' @ ar_AttemptID (last (br_Attempts r))\<rparr>
            else out
        | None \<Rightarrow> out)"

definition batch_outcome_of :: "string \<Rightarrow> gotime \<Rightarrow> launch_observation \<Rightarrow> batch_outcome" where
  "batch_outcome_of prefix now obs =
     (let r = lo_Receipt obs; ws = map_workers (setExpiryStatus now) (elems (clone_workers (lo_Workers obs)));
          (attempts, fulfilled) = fold (attempt_turn obs ws) (br_Attempts r) ([], []);
          missing = lp_RequestedCount (br_Plan r) - int (length fulfilled);
          out = zero_outcome\<lparr>bo_RequestID := br_RequestID r, bo_RequestedCount := lp_RequestedCount (br_Plan r), bo_Plan := br_Plan r,
            bo_Status := ''allocation_unknown'', bo_Workers := ws, bo_Attempts := attempts, bo_ReadyCount := ready_count ws,
            bo_FulfilledCount := int (length fulfilled),
            bo_Errors := concat (map (\<lambda>a. elems (ar_Errors a)) (br_Attempts r)) @ lo_Errors obs\<rparr>;
          out = (if prepared_only r then out\<lparr>bo_Status := ''prepared''\<rparr>
            else if lo_Bounded obs then out\<lparr>bo_MissingCount := Some missing, bo_Status := capacity_status missing (length fulfilled)\<rparr>
            else out) in
      setBatchExpiry (with_commands prefix r out))"

text \<open>The expiry observed before is kept where a later outcome of the same plan has none.\<close>

definition retain_worker :: "worker_outcome list \<Rightarrow> inst \<Rightarrow> inst" where
  "retain_worker previous i =
     retainObservedExpiry i (case map_of (rev (map (\<lambda>w. (wo_ID w, wo_Instance w)) previous)) (in_ID i) of None \<Rightarrow> zero_inst | Some j \<Rightarrow> j)"

definition retainBatchExpiry :: "batch_outcome \<Rightarrow> batch_outcome \<Rightarrow> batch_outcome" where
  "retainBatchExpiry current previous =
     (if \<not> supportedPlan (lp_SchemaVersion (bo_Plan current)) \<or> Digest (bo_Plan current) \<noteq> Digest (bo_Plan previous) then current
      else current\<lparr>bo_Workers := map_workers (retain_worker (bo_Workers previous)) (bo_Workers current)\<rparr>)"

section \<open>The result of the command\<close>

record batch_result =
  bs_OK :: bool
  bs_ExitCode :: int
  bs_Code :: string
  bs_Outcome :: batch_outcome

definition ExitPartial :: int where "ExitPartial = 3"

text \<open>The verdict of the outcome alone: its status, code, exit code and success.\<close>

definition verdict :: "batch_outcome \<Rightarrow> string \<times> string \<times> int \<times> bool" where
  "verdict out =
     (if bo_Status out = ''prepared'' then (''prepared'', ''prepared'', 1, False)
      else case bo_MissingCount out of
        None \<Rightarrow> (''allocation_unknown'', ''allocation_unknown'', 1, False)
      | Some missing \<Rightarrow>
          if missing > 0 \<and> bo_FulfilledCount out > 0 then (''partial_capacity'', ''partial_capacity'', ExitPartial, False)
          else if missing > 0 then (''no_capacity'', ''no_capacity'', 1, False)
          else if bo_ReadyCount out = bo_RequestedCount out \<and> bo_ReadyCount out > 0 then (''ready'', ''ready'', 0, True)
          else (''readiness_failed'', ''readiness_failed'', if bo_ReadyCount out > 0 then ExitPartial else 1, False))"

text \<open>An error: \<open>Reported\<close> a failure of the program, \<open>Identified\<close> a failure of the identity package, each with its code, or
  any other, such as a context's.\<close>

datatype run_error = Reported string | Identified string | ContextEnded | OtherFailure

definition run_error_code :: "run_error \<Rightarrow> string" where
  "run_error_code e = (case e of Reported c \<Rightarrow> c | Identified c \<Rightarrow> c | _ \<Rightarrow> ''service_unavailable'')"

definition overriding_codes :: "string list" where
  "overriding_codes = [''request_expired'', ''legacy_request_no_expiry'', ''manifest_upgrade_required'', ''clock_invalid'']"

definition completeBatchResult :: "bool \<Rightarrow> batch_outcome \<Rightarrow> run_error option \<Rightarrow> bool \<Rightarrow> batch_result" where
  "completeBatchResult ended out err usage =
     (let out = out\<lparr>bo_ReadyCount := ready_count (bo_Workers out)\<rparr>; (status, code, exitc, ok) = verdict out;
          out = out\<lparr>bo_Status := status\<rparr>;
          usage = (usage \<or> err = Some (Reported ''count_invalid''));
          r = \<lparr>bs_OK = ok, bs_ExitCode = exitc, bs_Code = code, bs_Outcome = out\<rparr>;
          r = (case err of
                 None \<Rightarrow> r
               | Some e \<Rightarrow>
                   let r = r\<lparr>bs_Outcome := out\<lparr>bo_Errors := bo_Errors out @ [plain_error (run_error_code e) []]\<rparr>\<rparr> in
                   if bs_OK r \<or> status = ''prepared'' \<or> status = ''allocation_unknown'' \<or> usage \<or> run_error_code e \<in> set overriding_codes
                   then r\<lparr>bs_Code := run_error_code e, bs_OK := False, bs_ExitCode := 1\<rparr> else r);
          r = (if usage then r\<lparr>bs_OK := False, bs_ExitCode := 2\<rparr> else r) in
      if ended \<or> err = Some ContextEnded then r\<lparr>bs_OK := False, bs_ExitCode := 4, bs_Code := ''operation_timeout''\<rparr> else r)"

end
