(* ===== verification/GoJsonIndent.thy ===== *)
theory GoJsonIndent
  imports GoJsonCodec
begin

text \<open>
  \<open>json.MarshalIndent(v, "", "  ")\<close> of \<^verbatim>\<open>encoding/json\<close>, the form in which receipts are kept on disk, and the fact
  that such a text reads back.
\<close>

definition new_line :: "nat \<Rightarrow> string" where
  "new_line d = CHR 0x0A # replicate (2 * d) (CHR '' '')"

text \<open>\<open>indent_members\<close> and \<open>indent_elements\<close> write what follows the first line break of a collection at depth \<open>d\<close>.\<close>

fun json_indent :: "nat \<Rightarrow> json \<Rightarrow> string"
  and indent_members :: "nat \<Rightarrow> (string \<times> json) list \<Rightarrow> string"
  and indent_elements :: "nat \<Rightarrow> json list \<Rightarrow> string" where
  "json_indent d JNull = ''null''"
| "json_indent d (JBool b) = (if b then ''true'' else ''false'')"
| "json_indent d (JNum s) = s"
| "json_indent d (JStr s) = json_string s"
| "json_indent d (JArr xs) = CHR ''['' # (if xs = [] then '']'' else new_line (Suc d) @ indent_elements d xs)"
| "json_indent d (JObj ms) = CHR ''{'' # (if ms = [] then ''}'' else new_line (Suc d) @ indent_members d ms)"
| "indent_members d [] = []"
| "indent_members d ((k, v) # ms) =
     json_string k @ CHR '':'' # CHR '' '' # json_indent (Suc d) v
       @ (if ms = [] then new_line d @ ''}'' else CHR '','' # new_line (Suc d) @ indent_members d ms)"
| "indent_elements d [] = []"
| "indent_elements d (v # vs) =
     json_indent (Suc d) v @ (if vs = [] then new_line d @ '']'' else CHR '','' # new_line (Suc d) @ indent_elements d vs)"

section \<open>White space\<close>

lemma skip_spaces: "skip_space (replicate n (CHR '' '') @ s) = skip_space s"
  by (induction n) (simp_all add: skip_space_def json_space_def)

lemma skip_new_line [simp]: "skip_space (new_line d @ s) = skip_space s"
proof -
  have "skip_space (CHR 0x0A # t) = skip_space t" for t by (simp add: skip_space_def json_space_def)
  then show ?thesis by (simp add: new_line_def skip_spaces)
qed

lemma skip_one [simp]: "skip_space (CHR '' '' # s) = skip_space s"
  by (simp add: skip_space_def json_space_def)

lemma reads_skip:
  "skip_space s = skip_space t \<Longrightarrow> json_value n s = json_value n t"
  "skip_space s = skip_space t \<Longrightarrow> json_members n s = json_members n t"
  by (cases n; simp)+

lemma elements_skip: "skip_space s = skip_space t \<Longrightarrow> json_elements n s = json_elements n t"
  by (cases n) (simp_all add: reads_skip(1) [of s t])

lemma ends_new_line [simp]: "ends (new_line d @ t)"
  by (simp add: ends_def new_line_def)

section \<open>Indented texts read back\<close>

lemma indent_nonempty:
  "json_soft j \<Longrightarrow> \<exists>c s. json_indent d j = c # s \<and> \<not> json_space c \<and> c \<noteq> CHR ''}'' \<and> c \<noteq> CHR '']''"
  using print_nonempty [of "list_all soft" j] by (cases j) (auto simp: json_space_def soft_all)

lemma skip_start: "\<not> json_space c \<Longrightarrow> skip_space (c # s) = c # s"
  by (simp add: skip_space_def)

lemma members_step':
  assumes "list_all soft k" "json_value n (p @ r) = Some (v, r)"
  shows "json_members (Suc n) (json_string k @ CHR '':'' # CHR '' '' # p @ r) =
    (case skip_space r of [] \<Rightarrow> None
     | d # t \<Rightarrow> if d = CHR ''}'' then Some ([(k, v)], t)
               else if d = CHR '','' then map_option (\<lambda>(x, r). ((k, v) # x, r)) (json_members n t) else None)"
proof -
  have "json_value n (CHR '' '' # p @ r) = Some (v, r)"
    using assms(2) reads_skip(1) [of "CHR '' '' # p @ r" "p @ r"] by simp
  then show ?thesis using members_step [of k n "CHR '' '' # p" r v] soft_readable [OF assms(1)] by simp
qed

lemma indent_members_Cons: "ms \<noteq> [] \<Longrightarrow> \<exists>t. indent_members d ms = CHR 0x22 # t"
proof -
  assume "ms \<noteq> []"
  then obtain k v ms' where "ms = (k, v) # ms'" by (cases ms) auto
  then show ?thesis using json_string_Cons [of k] by auto
qed

lemma indent_elements_Cons:
  "xs \<noteq> [] \<Longrightarrow> soft_elements xs \<Longrightarrow> \<exists>c t. indent_elements d xs = c # t \<and> \<not> json_space c \<and> c \<noteq> CHR '']''"
proof -
  assume "xs \<noteq> []" "soft_elements xs"
  then obtain v vs where "xs = v # vs" "json_soft v" by (cases xs) auto
  then show ?thesis using indent_nonempty [of v "Suc d"] by auto
qed

lemma indent_reads:
  "json_soft j \<Longrightarrow> ends t \<Longrightarrow> length (json_indent d j) \<le> fuel \<Longrightarrow> json_value fuel (json_indent d j @ t) = Some (j, t)"
  "soft_members ms \<Longrightarrow> ms \<noteq> [] \<Longrightarrow> length (indent_members d ms) \<le> fuel \<Longrightarrow>
     json_members fuel (indent_members d ms @ t) = Some (ms, t)"
  "soft_elements xs \<Longrightarrow> xs \<noteq> [] \<Longrightarrow> length (indent_elements d xs) \<le> fuel \<Longrightarrow>
     json_elements fuel (indent_elements d xs @ t) = Some (xs, t)"
proof (induction j and ms and xs arbitrary: t fuel d and t fuel d and t fuel d
    rule: json_soft_soft_members_soft_elements.induct)
  case 1
  then obtain n where "fuel = Suc n" by (cases fuel) auto
  then show ?case by (simp add: json_space_def)
next
  case (2 b)
  then obtain n where "fuel = Suc n" by (cases fuel) (auto split: if_splits)
  then show ?case by (simp add: json_space_def)
next
  case (3 s)
  then obtain i where i: "s = int_lit i" by auto
  with 3 obtain n where "fuel = Suc n" using int_lit_Cons [of i] by (cases fuel) auto
  then show ?case using value_number [OF 3(2)] i by simp
next
  case (4 s)
  then obtain n where "fuel = Suc n" using json_string_Cons [of s] by (cases fuel) auto
  then show ?case using 4 value_string soft_readable by simp
next
  case (5 xs)
  then obtain n where n: "fuel = Suc n" by (cases fuel) auto
  show ?case
  proof (cases "xs = []")
    case True
    then show ?thesis by (simp add: n json_space_def)
  next
    case False
    with 5 n have e: "json_elements n (indent_elements d xs @ t) = Some (xs, t)" by simp
    obtain c u where "indent_elements d xs = c # u" "\<not> json_space c" "c \<noteq> CHR '']''"
      using indent_elements_Cons [OF False] 5(2) by fastforce
    with e False show ?thesis by (simp add: n skip_start skip_start [of "CHR ''[''"] json_space_def [of "CHR ''[''"])
  qed
next
  case (6 ms)
  then obtain n where n: "fuel = Suc n" by (cases fuel) auto
  show ?case
  proof (cases "ms = []")
    case True
    then show ?thesis by (simp add: n json_space_def)
  next
    case False
    with 6 n have e: "json_members n (indent_members d ms @ t) = Some (ms, t)" by simp
    obtain u where "indent_members d ms = CHR 0x22 # u" using indent_members_Cons [OF False] by blast
    with e False show ?thesis by (simp add: n skip_start json_space_def)
  qed
next
  case (8 k v ms)
  then obtain n where n: "fuel = Suc n" by (cases fuel) auto
  let ?r = "(if ms = [] then new_line d @ ''}'' else CHR '','' # new_line (Suc d) @ indent_members d ms) @ t"
  have len: "length (json_indent (Suc d) v) \<le> n" "ms \<noteq> [] \<Longrightarrow> length (indent_members d ms) \<le> n" using 8(5) n by auto
  have "json_value n (json_indent (Suc d) v @ ?r) = Some (v, ?r)"
    by (rule 8(1)) (use 8(3) len in \<open>auto simp: ends_def new_line_def\<close>)
  with members_step' [of k n "json_indent (Suc d) v" ?r v] 8(3)
  have "json_members (Suc n) (indent_members d ((k, v) # ms) @ t) =
    (case skip_space ?r of [] \<Rightarrow> None
     | d # t \<Rightarrow> if d = CHR ''}'' then Some ([(k, v)], t)
               else if d = CHR '','' then map_option (\<lambda>(x, r). ((k, v) # x, r)) (json_members n t) else None)"
    by simp
  moreover have "json_members n (new_line (Suc d) @ indent_members d ms @ t) = json_members n (indent_members d ms @ t)"
    by (rule reads_skip(2)) simp
  ultimately show ?case using 8(2) [of d n t] 8(3) len by (cases "ms = []") (simp_all add: n skip_start json_space_def)
next
  case (10 v vs)
  then obtain n where n: "fuel = Suc n" using indent_nonempty [of v "Suc d"] by (cases fuel) auto
  let ?r = "(if vs = [] then new_line d @ '']'' else CHR '','' # new_line (Suc d) @ indent_elements d vs) @ t"
  have len: "length (json_indent (Suc d) v) \<le> n" "vs \<noteq> [] \<Longrightarrow> length (indent_elements d vs) \<le> n"
    using 10(5) n by (cases "vs = []"; simp)+
  have "json_value n (json_indent (Suc d) v @ ?r) = Some (v, ?r)"
    by (rule 10(1)) (use 10(3) len in \<open>auto simp: ends_def new_line_def\<close>)
  moreover have "json_elements n (new_line (Suc d) @ indent_elements d vs @ t) = json_elements n (indent_elements d vs @ t)"
    by (rule elements_skip) simp
  ultimately show ?case using 10(2) [of d n t] 10(3) len by (cases "vs = []") (simp_all add: n skip_start json_space_def)
qed simp_all

text \<open>Also with the line break that ends the file.\<close>

lemma json_text_indent:
  assumes "json_soft j"
  shows "json_text (json_indent d j @ [CHR 0x0A]) = Some j"
proof -
  have "json_value (2 * length (json_indent d j @ [CHR 0x0A]) + 1) (json_indent d j @ [CHR 0x0A]) = Some (j, [CHR 0x0A])"
    by (rule indent_reads(1)) (simp_all add: assms ends_def)
  then show ?thesis by (simp add: json_text_def skip_space_def json_space_def)
qed

end
