(* ===== verification/BatchCache.thy ===== *)
theory BatchCache
  imports LaunchLedger GoJsonIndent
begin

text \<open>
  \<^verbatim>\<open>internal/lifecycle/batch_store.go\<close>: the local cache of batch receipts, one file per request.  Files are texts by
  path; which system call fails, what a failing write leaves and the random part of a temporary name are an
  environment of the history of calls.  \<open>rename\<close> replaces the target at once, as POSIX says.  The cache is
  only touched under the request lock, so its operations follow each other.
\<close>

section \<open>The text of a receipt\<close>

definition e_receipt :: "batch_receipt \<Rightarrow> json" where
  "e_receipt r = JObj [(''schema_version'', JInt (br_SchemaVersion r)), (''request_id'', JStr (br_RequestID r)),
     (''plan'', e_plan (br_Plan r)), (''plan_sha256'', JStr (br_PlanSHA256 r)), (''attempts'', JArr (map e_attempt (br_Attempts r)))]"

definition d_attempts :: "attempt_receipt list decoder" where
  "d_attempts j old = map_option elems (d_slice (decode_struct attempt_fields) zero_attempt j None)"

definition receipt_fields :: "batch_receipt fields" where
  "receipt_fields = [field ''schema_version'' d_int br_SchemaVersion br_SchemaVersion_update,
     field ''request_id'' d_string br_RequestID br_RequestID_update, field ''plan'' plan_decode br_Plan br_Plan_update,
     field ''plan_sha256'' d_string br_PlanSHA256 br_PlanSHA256_update, field ''attempts'' d_attempts br_Attempts br_Attempts_update]"

definition parse_receipt :: "string \<Rightarrow> batch_receipt option" where
  "parse_receipt b = (case json_text b of None \<Rightarrow> None | Some j \<Rightarrow> decode_struct receipt_fields j zero_receipt)"

definition decodeBatchReceipt :: "string \<Rightarrow> failure + batch_receipt" where
  "decodeBatchReceipt b =
     (case parse_receipt b of
        None \<Rightarrow> Inl (Failure ''receipt_invalid'')
      | Some r \<Rightarrow> (case Receipt_Validate r of Inl e \<Rightarrow> Inl e | Inr _ \<Rightarrow> Inr r))"

definition receipt_text :: "batch_receipt \<Rightarrow> string" where
  "receipt_text r = json_indent 0 (e_receipt r) @ [CHR 0x0A]"

section \<open>Files\<close>

datatype fs_call =
    ReadFile string
  | CreateTemp string
  | WriteTemp string string
  | SyncFile string
  | CloseFile string
  | Rename string string
  | Remove string
  | Chmod string
  | SyncDir

type_synonym fs_log = "fs_call list"

type_synonym files = "string \<rightharpoonup> string"

text \<open>\<open>fe_written\<close>: how much of a failing write reaches the file; \<open>fe_leftover\<close>: what \<^verbatim>\<open>encoding/json\<close> has stored in the
  receipt by the time it gives up on a text.\<close>

record fs_env =
  fe_fails :: "fs_log \<Rightarrow> bool"
  fe_random :: "fs_log \<Rightarrow> string"
  fe_written :: "fs_log \<Rightarrow> nat"
  fe_leftover :: "string \<Rightarrow> batch_receipt"

type_synonym 'a fs = "files \<times> fs_log \<Rightarrow> 'a \<times> files \<times> fs_log"

datatype fs_read = Content string | NotExist | Unreadable

definition read_file :: "fs_env \<Rightarrow> string \<Rightarrow> fs_read fs" where
  "read_file E p s = (case s of (m, h) \<Rightarrow> let h = ReadFile p # h in
     (if fe_fails E h then Unreadable else case m p of None \<Rightarrow> NotExist | Some b \<Rightarrow> Content b, m, h))"

text \<open>\<open>os.CreateTemp\<close> only ever creates a file that did not exist.\<close>

definition create_temp :: "fs_env \<Rightarrow> string \<Rightarrow> string option fs" where
  "create_temp E prefix s = (case s of (m, h) \<Rightarrow> let h = CreateTemp prefix # h; p = prefix @ fe_random E h in
     (if fe_fails E h \<or> m p \<noteq> None then (None, m, h) else (Some p, m(p \<mapsto> []), h)))"

text \<open>A call that either takes effect, or fails with no effect but what \<open>bad\<close> says.\<close>

definition fs_step :: "fs_env \<Rightarrow> fs_call \<Rightarrow> (files \<Rightarrow> files) \<Rightarrow> (fs_log \<Rightarrow> files \<Rightarrow> files) \<Rightarrow> bool fs" where
  "fs_step E e good bad s = (case s of (m, h) \<Rightarrow> let h = e # h in
     (if fe_fails E h then (False, bad h m, h) else (True, good m, h)))"

definition write_temp :: "fs_env \<Rightarrow> string \<Rightarrow> string \<Rightarrow> bool fs" where
  "write_temp E p b = fs_step E (WriteTemp p b) (\<lambda>m. m(p \<mapsto> b)) (\<lambda>h m. m(p \<mapsto> take (fe_written E h) b))"

definition rename_file :: "fs_env \<Rightarrow> string \<Rightarrow> string \<Rightarrow> bool fs" where
  "rename_file E p q = fs_step E (Rename p q) (\<lambda>m. (m(p := None))(q := m p)) (\<lambda>h m. m)"

definition remove_file :: "fs_env \<Rightarrow> string \<Rightarrow> bool fs" where
  "remove_file E p = fs_step E (Remove p) (\<lambda>m. m(p := None)) (\<lambda>h m. m)"

definition plain_step :: "fs_env \<Rightarrow> fs_call \<Rightarrow> bool fs" where
  "plain_step E e = fs_step E e (\<lambda>m. m) (\<lambda>h m. m)"

text \<open>Calls one after the other, up to the first that fails.\<close>

fun all_steps :: "bool fs list \<Rightarrow> bool fs" where
  "all_steps [] s = (True, s)"
| "all_steps (f # fs) s = (case f s of (ok, s) \<Rightarrow> if ok then all_steps fs s else (False, s))"

section \<open>The store\<close>

definition batch_path :: "string \<Rightarrow> string \<Rightarrow> string" where
  "batch_path dir i = dir @ ''/'' @ i @ ''.json''"

text \<open>The receipt is meaningful also beside an error: it is what decoding has stored.\<close>

definition LoadBatch :: "fs_env \<Rightarrow> string \<Rightarrow> string \<Rightarrow> (batch_receipt \<times> failure option) fs" where
  "LoadBatch E dir i s =
     (if \<not> ValidRequest i then ((zero_receipt, Some (Failure ''request_invalid'')), s)
      else case read_file E (batch_path dir i) s of
        (Content b, s) \<Rightarrow>
          ((case parse_receipt b of
              None \<Rightarrow> (fe_leftover E b, Some (Failure ''receipt_invalid''))
            | Some r \<Rightarrow> (r, case Receipt_Validate r of Inl e \<Rightarrow> Some e
                 | Inr _ \<Rightarrow> if br_RequestID r \<noteq> i then Some (Failure ''receipt_invalid'') else None)), s)
      | (_, s) \<Rightarrow> ((zero_receipt, Some (Failure ''receipt_unavailable'')), s))"

definition attempt_can_advance :: "attempt_receipt \<Rightarrow> attempt_receipt \<Rightarrow> bool" where
  "attempt_can_advance a b \<longleftrightarrow>
     \<not> (ar_AttemptID a \<noteq> ar_AttemptID b \<or> ar_State a \<noteq> ''prepared'' \<and> ar_CreatedAt a \<noteq> ar_CreatedAt b
        \<or> ar_FleetID a \<noteq> [] \<and> ar_FleetID a \<noteq> ar_FleetID b \<or> ar_State a \<noteq> ''prepared'' \<and> ar_State b = ''prepared'')
     \<and> \<not> (terminal a \<and> a \<noteq> b)
     \<and> \<not> (ar_State a = ''unknown'' \<and> ar_State b = ''dispatched'')
     \<and> list_all (\<lambda>x. x \<in> set (ids_of b)) (ids_of a)"

definition batchCacheCanAdvance :: "batch_receipt \<Rightarrow> batch_receipt \<Rightarrow> bool" where
  "batchCacheCanAdvance old new \<longleftrightarrow>
     \<not> (br_RequestID old \<noteq> br_RequestID new \<or> br_PlanSHA256 old \<noteq> br_PlanSHA256 new
        \<or> length (br_Attempts new) < length (br_Attempts old))
     \<and> list_all (\<lambda>(a, b). attempt_can_advance a b) (zip (br_Attempts old) (br_Attempts new))"

text \<open>The write of \<open>SaveBatch\<close>: a temporary file, made durable, renamed over the receipt, and the directory made
  durable.  The deferred removal runs last, also after an error; closing a file after a failed write or sync changes no
  file and is left out.\<close>

definition install_text :: "fs_env \<Rightarrow> string \<Rightarrow> string \<Rightarrow> string \<Rightarrow> failure option fs" where
  "install_text E dir path b s =
     (case create_temp E (dir @ ''/.batch-'') s of
        (None, s) \<Rightarrow> (Some (Failure ''receipt_unavailable''), s)
      | (Some p, s) \<Rightarrow>
          (case all_steps [write_temp E p b, plain_step E (SyncFile p), plain_step E (CloseFile p),
                  rename_file E p path, plain_step E SyncDir] s of
             (ok, s) \<Rightarrow> (case remove_file E p s of (_, s) \<Rightarrow> (if ok then None else Some (Failure ''receipt_unavailable''), s))))"

definition SaveBatch :: "fs_env \<Rightarrow> string \<Rightarrow> batch_receipt \<Rightarrow> failure option fs" where
  "SaveBatch E dir r s =
     (if Receipt_Validate r \<noteq> Inr () then (Some (Failure ''receipt_unavailable''), s)
      else let path = batch_path dir (br_RequestID r) in
        case read_file E path s of
          (Content b, s) \<Rightarrow>
            (case decodeBatchReceipt b of
               Inr old \<Rightarrow> if batchCacheCanAdvance old r then install_text E dir path (receipt_text r) s
                 else (Some (Failure ''receipt_conflict''), s)
             | Inl _ \<Rightarrow> (Some (Failure ''receipt_conflict''), s))
        | (NotExist, s) \<Rightarrow> install_text E dir path (receipt_text r) s
        | (Unreadable, s) \<Rightarrow> (Some (Failure ''receipt_unavailable''), s))"

text \<open>\<open>json.Unmarshal\<close> into a struct of one field: other members are ignored.\<close>

definition schema_fields :: "int fields" where
  "schema_fields = [(''schema_version'', \<lambda>j v. d_int j v)]"

definition legacy_text :: "string \<Rightarrow> bool" where
  "legacy_text b =
     (case json_text b of
        Some (JObj ms) \<Rightarrow> decode_object schema_fields (filter (\<lambda>(k, v). find_field schema_fields k \<noteq> None) ms) 0 = Some 1
      | _ \<Rightarrow> False)"

definition backup_prefix :: "string \<Rightarrow> string \<Rightarrow> string" where
  "backup_prefix dir i = dir @ ''/'' @ i @ ''.corrupt-''"

definition RestoreBatch :: "fs_env \<Rightarrow> string \<Rightarrow> batch_receipt \<Rightarrow> failure option fs" where
  "RestoreBatch E dir r s =
     (if Receipt_Validate r \<noteq> Inr () then (Some (Failure ''receipt_invalid''), s)
      else let path = batch_path dir (br_RequestID r) in
        case read_file E path s of
          (NotExist, s) \<Rightarrow> SaveBatch E dir r s
        | (Unreadable, s) \<Rightarrow> (Some (Failure ''receipt_unavailable''), s)
        | (Content b, s) \<Rightarrow>
            if is_ok (decodeBatchReceipt b) then SaveBatch E dir r s
            else if legacy_text b then (Some (Failure ''receipt_conflict''), s)
            else
              (case create_temp E (backup_prefix dir (br_RequestID r)) s of
                 (None, s) \<Rightarrow> (Some (Failure ''receipt_unavailable''), s)
               | (Some p, s) \<Rightarrow>
                   (case plain_step E (CloseFile p) s of
                      (_, s) \<Rightarrow>
                        (case rename_file E path p s of
                           (False, s) \<Rightarrow> (case remove_file E p s of (_, s) \<Rightarrow> (Some (Failure ''receipt_unavailable''), s))
                         | (True, s) \<Rightarrow>
                             (case all_steps [plain_step E (Chmod p), plain_step E SyncDir] s of
                                (False, s) \<Rightarrow> (Some (Failure ''receipt_unavailable''), s)
                              | (True, s) \<Rightarrow> SaveBatch E dir r s)))))"

end
