(* ===== verification/Recovery.thy ===== *)
theory Recovery
  imports BatchOutcome BatchCache
begin

text \<open>
  \<^verbatim>\<open>internal/lifecycle/batch_recovery.go\<close>: looking at an existing request again (\<open>Resume\<close>), and asking for what it is still
  missing (\<open>RetryMissing\<close>).  The shared ledger is an interface on a state of its own, the receipt cache is the model
  of \<open>BatchCache\<close>, the dispatcher is \<open>AttemptDispatch\<close>; the lock, the clock and the inspection of EC2 are an
  environment of the history of these calls.
\<close>

datatype recovery_call =
    LockRequest string
  | UnlockRequest
  | TickClock
  | InspectLaunch launch_snapshot

type_synonym recovery_log = "recovery_call list"

record 'g recovery_env =
  rv_scope :: config
  rv_prefix :: string
  rv_lock :: "recovery_log \<Rightarrow> failure option"
  rv_clock :: "recovery_log \<Rightarrow> gotime"
  rv_observe :: "(recovery_log \<Rightarrow> launch_observation \<times> failure option) option"
  rv_load :: "(string \<Rightarrow> 'g \<Rightarrow> (launch_snapshot \<times> failure option) \<times> 'g) option"
  rv_fs :: fs_env
  rv_dir :: string
  rv_dispatcher :: "(dispatch_env \<times> 'g ledger_ops) option"

text \<open>The state: the ledger, the cache directory, the calls so far, and what the dispatcher did.\<close>

record 'g world =
  wd_ledger :: 'g
  wd_cache :: "files \<times> fs_log"
  wd_calls :: recovery_log
  wd_dispatch :: dispatch_log

definition call :: "recovery_call \<Rightarrow> 'g world \<Rightarrow> 'g world" where
  "call e w = w\<lparr>wd_calls := e # wd_calls w\<rparr>"

definition batchScopeMatches :: "launch_plan \<Rightarrow> config \<Rightarrow> bool" where
  "batchScopeMatches p c \<longleftrightarrow> lp_Account p = cf_ExpectedAccount c \<and> lp_Region p = cf_Region c \<and> lp_Deployment p = cf_Deployment c
     \<and> lp_Owner p = cf_Owner c"

section \<open>The local cache beside the shared evidence\<close>

definition conflicting :: "attempt_receipt \<Rightarrow> attempt_receipt \<Rightarrow> bool" where
  "conflicting shared local \<longleftrightarrow> ar_AttemptID shared = ar_AttemptID local
     \<and> (ar_FleetID shared \<noteq> [] \<and> ar_FleetID local \<noteq> [] \<and> ar_FleetID shared \<noteq> ar_FleetID local
        \<or> terminal shared \<and> list_ex (\<lambda>i. i \<notin> set (ids_of shared)) (ids_of local))"

definition cachedIdentityConflict :: "launch_snapshot \<Rightarrow> batch_receipt \<Rightarrow> bool" where
  "cachedIdentityConflict s cached \<longleftrightarrow>
     list_ex (\<lambda>shared. list_ex (conflicting shared) (br_Attempts cached)) (br_Attempts (sn_Receipt s))"

text \<open>What one cached attempt adds to the entry of a shared attempt.  \<open>shared\<close> is the attempt as it was before the
  merge, as the code's loop variable is.\<close>

definition merge_local :: "launch_snapshot \<Rightarrow> attempt_receipt \<Rightarrow> attempt_receipt \<Rightarrow> attempt_receipt \<Rightarrow> attempt_receipt" where
  "merge_local s shared local a =
     (if ar_AttemptID shared \<noteq> ar_AttemptID local \<or> ar_ClientToken shared \<noteq> ar_ClientToken local
         \<or> ar_RequestedCount shared \<noteq> ar_RequestedCount local then a
      else if map_of (sn_Claims s) (ar_AttemptID shared) = None then a
      else if ids_of local \<noteq> [] \<or> ar_FleetID local \<noteq> []
      then a\<lparr>ar_State := ''unknown'', ar_InstanceIDs := Some (unionInstanceIDs [ids_of shared, ids_of local]),
             ar_FleetID := (if ar_FleetID shared = [] then ar_FleetID local else ar_FleetID a)\<rparr>
      else a)"

definition merge_attempt :: "launch_snapshot \<Rightarrow> batch_receipt \<Rightarrow> attempt_receipt \<Rightarrow> attempt_receipt" where
  "merge_attempt s cached shared = (if terminal shared then shared else fold (merge_local s shared) (br_Attempts cached) shared)"

definition mergeUnknownCache :: "launch_snapshot \<Rightarrow> batch_receipt \<Rightarrow> launch_snapshot" where
  "mergeUnknownCache s cached = s\<lparr>sn_Receipt := (sn_Receipt s)\<lparr>br_Attempts := map (merge_attempt s cached) (br_Attempts (sn_Receipt s))\<rparr>\<rparr>"

text \<open>The workers known, and one for every cached identity that is not.\<close>

definition with_cached_workers :: "batch_receipt \<Rightarrow> worker_outcome list \<Rightarrow> worker_outcome list" where
  "with_cached_workers cached ws =
     sortedBatchWorkers (fold (\<lambda>a. fold (ensure_worker (br_Plan cached) a) (ids_of a)) (br_Attempts cached) (fold put_worker ws []))"

definition plain_observation :: "batch_receipt \<Rightarrow> worker_outcome list \<Rightarrow> launch_observation" where
  "plain_observation r ws = \<lparr>lo_Receipt = r, lo_Workers = ws, lo_Errors = [], lo_Bounded = False, lo_Historical = []\<rparr>"

section \<open>Observing\<close>

text \<open>The shared snapshot with its request identity, and with the unknown part of a cache of the same plan.\<close>

definition named_snapshot :: "string \<Rightarrow> launch_snapshot \<Rightarrow> launch_snapshot" where
  "named_snapshot i s = (if br_RequestID (sn_Receipt s) = [] then s\<lparr>sn_Receipt := (sn_Receipt s)\<lparr>br_RequestID := i\<rparr>\<rparr> else s)"

definition merged_snapshot :: "launch_snapshot \<Rightarrow> batch_receipt \<Rightarrow> failure option \<Rightarrow> launch_snapshot" where
  "merged_snapshot s cached cacheErr =
     (if cacheErr = None \<and> br_PlanSHA256 (sn_Receipt s) = br_PlanSHA256 cached then mergeUnknownCache s cached else s)"

text \<open>The evidence that is left when the shared records cannot be loaded.\<close>

definition load_failed :: "string \<Rightarrow> launch_snapshot \<Rightarrow> batch_receipt \<Rightarrow> failure option \<Rightarrow> launch_observation" where
  "load_failed i s cached cacheErr =
     (let obs = plain_observation (sn_Receipt s) (snapshotWorkers s) in
      if cacheErr \<noteq> None then obs
      else let obs = (if lp_SchemaVersion (br_Plan (sn_Receipt s)) = 0 then unverifiedRecoveryEvidence i [cached] else obs) in
        obs\<lparr>lo_Workers := with_cached_workers cached (lo_Workers obs)\<rparr>)"

definition inspect :: "'g recovery_env \<Rightarrow> (recovery_log \<Rightarrow> launch_observation \<times> failure option) \<Rightarrow> launch_snapshot \<Rightarrow> 'g world
    \<Rightarrow> (launch_snapshot \<times> launch_observation \<times> failure option) \<times> 'g world" where
  "inspect R look s w =
     (let w = call (InspectLaunch s) w; (obs, observeErr) = look (wd_calls w);
          obs = (if br_RequestID (lo_Receipt obs) = [] then obs\<lparr>lo_Receipt := sn_Receipt s\<rparr> else obs);
          obs = (if observeErr \<noteq> None then obs\<lparr>lo_Bounded := False\<rparr> else obs);
          (saveErr, cache) = RestoreBatch (rv_fs R) (rv_dir R) (lo_Receipt obs) (wd_cache w); w = w\<lparr>wd_cache := cache\<rparr> in
      if observeErr \<noteq> None then ((s, obs, observeErr), w)
      else if saveErr \<noteq> None then ((s, obs\<lparr>lo_Bounded := False\<rparr>, saveErr), w)
      else ((s, obs, None), w))"

definition observe_loaded :: "'g recovery_env \<Rightarrow> (recovery_log \<Rightarrow> launch_observation \<times> failure option) \<Rightarrow> string \<Rightarrow> batch_receipt \<Rightarrow> failure option
    \<Rightarrow> launch_snapshot \<Rightarrow> failure option \<Rightarrow> 'g world \<Rightarrow> (launch_snapshot \<times> launch_observation \<times> failure option) \<times> 'g world" where
  "observe_loaded R look i cached cacheErr s loadErr w =
     (let s = named_snapshot i s in
      if lp_SchemaVersion (br_Plan (sn_Receipt s)) \<noteq> 0 \<and> \<not> batchScopeMatches (br_Plan (sn_Receipt s)) (rv_scope R)
      then ((s, unverifiedRecoveryEvidence i [cached, sn_Receipt s], Some (Failure ''scope_mismatch'')), w)
      else if cacheErr = None \<and> br_PlanSHA256 (sn_Receipt s) \<noteq> [] \<and> br_PlanSHA256 cached \<noteq> br_PlanSHA256 (sn_Receipt s)
      then ((s, unverifiedRecoveryEvidence i [cached, sn_Receipt s], Some (Failure ''receipt_conflict'')), w)
      else let s = merged_snapshot s cached cacheErr in
        if loadErr \<noteq> None then ((s, load_failed i s cached cacheErr, loadErr), w)
        else if br_Attempts (sn_Receipt s) = [] then ((s, plain_observation (sn_Receipt s) [], None), w)
        else if cacheErr = None \<and> cachedIdentityConflict s cached
        then ((s, plain_observation (sn_Receipt s) (with_cached_workers cached (snapshotWorkers s)), Some (Failure ''receipt_conflict'')), w)
        else inspect R look s w)"

definition observe_request :: "'g recovery_env \<Rightarrow> string \<Rightarrow> 'g world \<Rightarrow> (launch_snapshot \<times> launch_observation \<times> failure option) \<times> 'g world" where
  "observe_request R i w =
     (case (rv_load R, rv_observe R) of
        (Some load, Some look) \<Rightarrow>
          (case LoadBatch (rv_fs R) (rv_dir R) i (wd_cache w) of
             ((cached, cacheErr), cache) \<Rightarrow>
               let w = w\<lparr>wd_cache := cache\<rparr> in
               if cacheErr = None \<and> \<not> batchScopeMatches (br_Plan cached) (rv_scope R)
               then ((empty_snapshot, unverifiedRecoveryEvidence i [cached], Some (Failure ''scope_mismatch'')), w)
               else (case load i (wd_ledger w) of
                 ((s, loadErr), g) \<Rightarrow> observe_loaded R look i cached cacheErr s loadErr (w\<lparr>wd_ledger := g\<rparr>)))
      | _ \<Rightarrow> ((empty_snapshot, plain_observation (zero_receipt\<lparr>br_RequestID := i\<rparr>) [], Some (Failure ''recovery_unavailable'')), w))"

text \<open>\<open>s.outcome\<close> reads the clock once.\<close>

definition outcome_step :: "'g recovery_env \<Rightarrow> launch_observation \<Rightarrow> 'g world \<Rightarrow> batch_outcome \<times> 'g world" where
  "outcome_step R obs w = (let w = call TickClock w in (batch_outcome_of (rv_prefix R) (rv_clock R (wd_calls w)) obs, w))"

definition Resume :: "'g recovery_env \<Rightarrow> string \<Rightarrow> 'g world \<Rightarrow> (batch_outcome \<times> failure option) \<times> 'g world" where
  "Resume R i w =
     (if \<not> ValidRequest i then ((zero_outcome, Some (Failure ''request_invalid'')), w)
      else let w = call (LockRequest i) w in
        case rv_lock R (wd_calls w) of
          Some e \<Rightarrow> ((zero_outcome\<lparr>bo_RequestID := i\<rparr>, Some e), w)
        | None \<Rightarrow>
            (case observe_request R i w of
               ((s, obs, err), w) \<Rightarrow> (case outcome_step R obs w of (out, w) \<Rightarrow> ((out, err), call UnlockRequest w))))"

section \<open>Retrying\<close>

definition successor :: "string \<Rightarrow> batch_receipt \<Rightarrow> string \<Rightarrow> int \<Rightarrow> string \<Rightarrow> batch_receipt" where
  "successor request r after missing created =
     (let i = attempt_id request after in
      add_attempt r \<lparr>ar_AttemptID = i, ar_ParentID = after, ar_ClientToken = attemptToken (br_PlanSHA256 r) i missing,
        ar_RequestedCount = missing, ar_CreatedAt = created, ar_State = ''prepared'', ar_FleetID = [], ar_InstanceIDs = Some [],
        ar_Errors = Some []\<rparr>)"

definition retry_limit :: "config \<Rightarrow> int" where
  "retry_limit c = (if cf_MaxCount c = 0 then DefaultMaxCount else cf_MaxCount c)"

text \<open>The decision on an observed request: the reason to stop, with its error, or the receipt with the successor.\<close>

definition retry_decision :: "'g recovery_env \<Rightarrow> manifest \<Rightarrow> string \<Rightarrow> string \<Rightarrow> launch_snapshot \<Rightarrow> launch_observation \<Rightarrow> 'g world
    \<Rightarrow> (failure option + batch_receipt) \<times> 'g world" where
  "retry_decision R m i after s obs w =
     (let r = sn_Receipt s; ids = map ar_AttemptID (br_Attempts r) in
      if after \<notin> set ids then (Inl (Some (Failure ''retry_parent_mismatch'')), w)
      else if after \<in> set (butlast ids) then (Inl None, w)
      else if \<not> lo_Bounded obs then (Inl (Some (Failure ''allocation_unknown'')), w)
      else (case MissingCapacity r after of
          Inl e \<Rightarrow> (Inl (Some e), w)
        | Inr missing \<Rightarrow>
            if missing = 0 then (Inl None, w)
            else let w = call TickClock w in
              (case checkAllocation (br_Plan r) (rv_clock R (wd_calls w)) of
                 Inl e \<Rightarrow> (Inl (Some e), w)
               | Inr _ \<Rightarrow>
                   (case requireExpiryManifest m of
                      Inl e \<Rightarrow> (Inl (Some e), w)
                    | Inr _ \<Rightarrow>
                        if ValidateMaxCount (retry_limit (rv_scope R)) \<noteq> Inr () \<or> lp_RequestedCount (br_Plan r) > retry_limit (rv_scope R)
                        then (Inl (Some (Failure ''count_invalid'')), w)
                        else if rv_dispatcher R = None then (Inl (Some (Failure ''allocator_unavailable'')), w)
                        else let w = call TickClock w in
                          (case Timestamp (rv_clock R (wd_calls w)) of
                             Inl e \<Rightarrow> (Inl (Some (expiryFailure e)), w)
                           | Inr created \<Rightarrow> (Inr (successor i r after missing created), w))))))"

definition recoverablePreparationConflict :: "failure option \<Rightarrow> bool" where
  "recoverablePreparationConflict err \<longleftrightarrow>
     err = Some (Failure ''launch_record_conflict'') \<or> err = Some (Failure ''receipt_conflict'') \<or> err = Some (Failure ''allocation_unknown'')"

definition combined_observation :: "launch_observation \<Rightarrow> attempt_result \<Rightarrow> failure option \<Rightarrow> launch_observation" where
  "combined_observation obs res err =
     \<lparr>lo_Receipt = as_Receipt res, lo_Workers = elems (clone_workers (lo_Workers obs)) @ as_Workers res, lo_Errors = lo_Errors obs,
       lo_Bounded = (err = None \<and> ao_MissingCount (Attempt_Outcome res) \<noteq> None), lo_Historical = lo_Historical obs\<rparr>"

definition run_dispatch :: "(dispatch_env \<times> 'g ledger_ops) \<Rightarrow> manifest \<Rightarrow> profile \<Rightarrow> batch_receipt \<Rightarrow> 'g world
    \<Rightarrow> (attempt_result \<times> failure option) \<times> 'g world" where
  "run_dispatch d m p r w =
     (case Dispatch (fst d) (snd d) m p r (wd_ledger w) (wd_dispatch w) of (x, g, h) \<Rightarrow> (x, w\<lparr>wd_ledger := g, wd_dispatch := h\<rparr>))"

definition after_dispatch :: "'g recovery_env \<Rightarrow> string \<Rightarrow> batch_outcome \<Rightarrow> launch_observation \<Rightarrow> attempt_result \<times> failure option \<Rightarrow> 'g world
    \<Rightarrow> (batch_outcome \<times> failure option) \<times> 'g world" where
  "after_dispatch R i out obs x w =
     (case x of (res, err) \<Rightarrow>
        if \<not> as_Dispatched res \<and> recoverablePreparationConflict err
        then (case Resume R i w of ((current, e), w) \<Rightarrow> ((retainBatchExpiry current out, e), w))
        else (case outcome_step R (combined_observation obs res err) w of (result, w) \<Rightarrow> ((result, err), w)))"

definition RetryMissing :: "'g recovery_env \<Rightarrow> manifest \<Rightarrow> profile \<Rightarrow> string \<Rightarrow> string \<Rightarrow> 'g world
    \<Rightarrow> (batch_outcome \<times> failure option) \<times> 'g world" where
  "RetryMissing R m p i after w =
     (if \<not> ValidRequest i \<or> \<not> ValidRequest after then ((zero_outcome, Some (Failure ''request_invalid'')), w)
      else let w = call (LockRequest i) w in
        case rv_lock R (wd_calls w) of
          Some e \<Rightarrow> ((zero_outcome\<lparr>bo_RequestID := i\<rparr>, Some e), w)
        | None \<Rightarrow>
            (case observe_request R i w of
               ((s, obs, err), w) \<Rightarrow>
                 (case outcome_step R obs w of
                    (out, w) \<Rightarrow>
                      if err \<noteq> None then ((out, err), call UnlockRequest w)
                      else (case retry_decision R m i after s obs w of
                          (Inl e, w) \<Rightarrow> ((out, e), call UnlockRequest w)
                        | (Inr r, w) \<Rightarrow>
                            (case run_dispatch (the (rv_dispatcher R)) m p r (call UnlockRequest w) of
                               (x, w) \<Rightarrow> after_dispatch R i out obs x w)))))"

end
