(* ===== verification/BatchCacheProperties.thy ===== *)
theory BatchCacheProperties
  imports BatchCache
begin

text \<open>
  What the receipt cache guarantees, whichever system calls fail: a receipt on disk only ever advances, nothing else
  is overwritten, and what cannot be read is kept.
\<close>

section \<open>Advancing\<close>

lemma attempt_can_advance_refl [simp]: "attempt_can_advance a a"
  by (auto simp: attempt_can_advance_def list_all_iff)

text \<open>The conditions one by one; the states are those a valid receipt may have.\<close>

lemma can_advance_iff:
  "attempt_can_advance a b \<longleftrightarrow> ar_AttemptID a = ar_AttemptID b \<and> (ar_State a = ''prepared'' \<or> ar_CreatedAt a = ar_CreatedAt b)
     \<and> (ar_FleetID a = [] \<or> ar_FleetID a = ar_FleetID b) \<and> (ar_State a = ''prepared'' \<or> ar_State b \<noteq> ''prepared'')
     \<and> (terminal a \<longrightarrow> a = b) \<and> (ar_State a = ''unknown'' \<longrightarrow> ar_State b \<noteq> ''dispatched'') \<and> set (ids_of a) \<subseteq> set (ids_of b)"
  unfolding attempt_can_advance_def list_all_iff subset_iff by blast

lemma attempt_can_advance_trans:
  assumes "attempt_can_advance a b" "attempt_can_advance b c" "ar_State b \<in> set states"
  shows "attempt_can_advance a c"
proof -
  note ab = assms(1) [unfolded can_advance_iff] and bc = assms(2) [unfolded can_advance_iff]
  have b: "ar_State b = ''prepared'' \<or> ar_State b = ''dispatched'' \<or> ar_State b = ''unknown'' \<or> terminal b"
    using assms(3) by (auto simp: states_def terminal_def)
  have "ar_State c \<noteq> ''dispatched''" if u: "ar_State a = ''unknown''"
  proof -
    have "ar_State b \<noteq> ''prepared''" "ar_State b \<noteq> ''dispatched''" using u ab by auto
    with b consider "ar_State b = ''unknown''" | "terminal b" by blast
    then show ?thesis
    proof cases
      case 1
      then show ?thesis using bc by blast
    next
      case 2
      then have "b = c" using bc by blast
      then show ?thesis using \<open>ar_State b \<noteq> ''dispatched''\<close> by simp
    qed
  qed
  moreover have "ar_State a = ''prepared'' \<or> ar_CreatedAt a = ar_CreatedAt c" using ab bc by metis
  moreover have "ar_FleetID a = [] \<or> ar_FleetID a = ar_FleetID c" using ab bc by metis
  moreover have "terminal a \<longrightarrow> a = c" using ab bc by metis
  moreover have "set (ids_of a) \<subseteq> set (ids_of c)" using ab bc by blast
  moreover have "ar_AttemptID a = ar_AttemptID c" "ar_State a = ''prepared'' \<or> ar_State c \<noteq> ''prepared''" using ab bc by metis+
  ultimately show ?thesis unfolding can_advance_iff by blast
qed

lemma advance_nth:
  "batchCacheCanAdvance old new \<longleftrightarrow> br_RequestID old = br_RequestID new \<and> br_PlanSHA256 old = br_PlanSHA256 new
     \<and> length (br_Attempts old) \<le> length (br_Attempts new)
     \<and> (\<forall>n < length (br_Attempts old). attempt_can_advance (br_Attempts old ! n) (br_Attempts new ! n))"
  by (auto simp: batchCacheCanAdvance_def list_all_length)

lemma advance_refl [simp]: "batchCacheCanAdvance r r"
  by (simp add: advance_nth)

lemma attempts_states: "attempts_ok r fulfilled fleets parent as \<Longrightarrow> a \<in> set as \<Longrightarrow> ar_State a \<in> set states"
  by (induction r fulfilled fleets parent as rule: attempts_ok.induct) (auto simp: attempt_state_ok_def split: if_splits)

lemma valid_states: "Receipt_Validate r = Inr () \<Longrightarrow> a \<in> set (br_Attempts r) \<Longrightarrow> ar_State a \<in> set states"
  by (rule attempts_states [of r "[]" "[]" "[]"]) (auto simp: Receipt_Validate_def split: if_splits)

lemma advance_trans:
  assumes "batchCacheCanAdvance r1 r2" "batchCacheCanAdvance r2 r3" "Receipt_Validate r2 = Inr ()"
  shows "batchCacheCanAdvance r1 r3"
  unfolding advance_nth
proof (intro conjI allI impI)
  fix n assume n: "n < length (br_Attempts r1)"
  then have m: "n < length (br_Attempts r2)" using assms(1) by (simp add: advance_nth)
  show "attempt_can_advance (br_Attempts r1 ! n) (br_Attempts r3 ! n)"
    using assms(1,2) n m valid_states [OF assms(3) nth_mem [OF m]] attempt_can_advance_trans unfolding advance_nth by blast
qed (use assms in \<open>auto simp: advance_nth\<close>)

text \<open>What advancing means for the evidence in a receipt.\<close>

lemma advance_keeps:
  assumes "batchCacheCanAdvance old new" "a \<in> set (br_Attempts old)"
  shows "\<exists>b \<in> set (br_Attempts new). ar_AttemptID b = ar_AttemptID a \<and> set (ids_of a) \<subseteq> set (ids_of b)
    \<and> (terminal a \<longrightarrow> b = a) \<and> (ar_FleetID a \<noteq> [] \<longrightarrow> ar_FleetID b = ar_FleetID a) \<and> (ar_State a \<noteq> ''prepared'' \<longrightarrow> ar_State b \<noteq> ''prepared'')"
proof -
  obtain n where n: "n < length (br_Attempts old)" "br_Attempts old ! n = a" using assms(2) by (auto simp: in_set_conv_nth)
  then have "attempt_can_advance a (br_Attempts new ! n)" "n < length (br_Attempts new)" using assms(1) by (auto simp: advance_nth)
  then show ?thesis by (intro bexI [of _ "br_Attempts new ! n"]) (auto simp: can_advance_iff)
qed

section \<open>The text of a receipt reads back\<close>

definition plain_receipt :: "batch_receipt \<Rightarrow> bool" where
  "plain_receipt r \<longleftrightarrow> plan_sized (br_Plan r) \<and> json_soft (e_receipt r) \<and> int64 (br_SchemaVersion r)
     \<and> list_all (\<lambda>a. int64 (ar_RequestedCount a)) (br_Attempts r)"

lemma attempts_wire:
  "list_all (\<lambda>a. int64 (ar_RequestedCount a)) as \<Longrightarrow> d_attempts (JArr (map e_attempt as)) old = Some as"
proof -
  assume "list_all (\<lambda>a. int64 (ar_RequestedCount a)) as"
  then have "d_all (\<lambda>j. decode_struct attempt_fields j zero_attempt) (map e_attempt as) = Some as"
    by (intro d_all_map) (auto simp: list_all_iff attempt_wire)
  then show ?thesis by (simp add: d_attempts_def d_slice_def elems_def)
qed

lemma receipt_wire:
  assumes "plain_receipt r" "Receipt_Validate r = Inr ()"
  shows "decode_struct receipt_fields (e_receipt r) zero_receipt = Some r"
proof -
  let ?vs = "[Some (JInt (br_SchemaVersion r)), Some (JStr (br_RequestID r)), Some (e_plan (br_Plan r)), Some (JStr (br_PlanSHA256 r)),
    Some (JArr (map e_attempt (br_Attempts r)))]"
  have "validatePlanExpiry (br_Plan r) = Inr ()" using assms(2) by (auto simp: Receipt_Validate_def split: if_splits)
  then have p: "plan_decode (e_plan (br_Plan r)) old = Some (br_Plan r)" for old
    using assms(1) by (simp add: plan_back plain_receipt_def)
  have a: "d_attempts (JArr (map e_attempt (br_Attempts r))) old = Some (br_Attempts r)" for old
    using assms(1) by (simp add: attempts_wire plain_receipt_def)
  have "e_receipt r = JObj (present receipt_fields ?vs)" by (simp add: e_receipt_def receipt_fields_def field_def)
  moreover have "distinct (map fst receipt_fields)" by (simp add: receipt_fields_def field_def)
  moreover have "store receipt_fields ?vs zero_receipt = Some r"
    using assms(1) by (simp add: receipt_fields_def field_def zero_receipt_def p a plain_receipt_def int64_def)
  ultimately show ?thesis by (simp add: decode_table)
qed

lemma parse_back:
  "plain_receipt r \<Longrightarrow> Receipt_Validate r = Inr () \<Longrightarrow> parse_receipt (receipt_text r) = Some r"
  using json_text_indent [of "e_receipt r" 0] receipt_wire [of r]
  by (simp add: parse_receipt_def receipt_text_def plain_receipt_def)

lemma decode_back: "plain_receipt r \<Longrightarrow> Receipt_Validate r = Inr () \<Longrightarrow> decodeBatchReceipt (receipt_text r) = Inr r"
  by (simp add: decodeBatchReceipt_def parse_back)

lemma decode_valid: "decodeBatchReceipt b = Inr r \<Longrightarrow> Receipt_Validate r = Inr ()"
  by (auto simp: decodeBatchReceipt_def split: option.splits sum.splits)

section \<open>The write\<close>

lemma path_no_temp: "ValidRequest i \<Longrightarrow> dir @ ''/.batch-'' @ x \<noteq> batch_path dir i"
proof
  assume v: "ValidRequest i" and "dir @ ''/.batch-'' @ x = batch_path dir i"
  then have "CHR ''.'' # ''batch-'' @ x = i @ ''.json''" by (simp add: batch_path_def)
  moreover obtain c s where "i = c # s" "c \<in> set i" "length i = 32" using v by (cases i) (auto simp: ValidRequest_iff)
  moreover have "c \<noteq> CHR ''.''" using v calculation by (auto simp: ValidRequest_iff lower_hex_def is_digit_def in_range_def list_all_iff)
  ultimately show False by auto
qed

text \<open>After the write the receipt is the old or the new text; every other file that was there is untouched.\<close>

definition replaced :: "string \<Rightarrow> string \<Rightarrow> files \<Rightarrow> files \<Rightarrow> bool" where
  "replaced path b m m' \<longleftrightarrow> (m' path = m path \<or> m' path = Some b) \<and> (\<forall>q. q \<noteq> path \<longrightarrow> m q \<noteq> None \<longrightarrow> m' q = m q)"

lemma replaced_refl [simp]: "replaced path b m m"
  by (simp add: replaced_def)

lemma create_temp_spec:
  assumes "create_temp E prefix (m, h) = (r, m1, h1)"
  shows "case r of None \<Rightarrow> m1 = m | Some p \<Rightarrow> m p = None \<and> m1 = m(p \<mapsto> []) \<and> (\<exists>x. p = prefix @ x)"
  using assms by (auto simp: create_temp_def Let_def split: if_splits)

lemma remove_spec: "remove_file E p (m, h) = (ok, m1, h1) \<Longrightarrow> q \<noteq> p \<Longrightarrow> m1 q = m q"
  by (auto simp: remove_file_def fs_step_def Let_def split: if_splits)

lemma write_spec: "write_temp E p b (m, h) = (ok, m1, h1) \<Longrightarrow> (\<forall>q. q \<noteq> p \<longrightarrow> m1 q = m q) \<and> (ok \<longrightarrow> m1 p = Some b)"
  by (auto simp: write_temp_def fs_step_def Let_def split: if_splits)

lemma plain_spec: "plain_step E e (m, h) = (ok, m1, h1) \<Longrightarrow> m1 = m"
  by (auto simp: plain_step_def fs_step_def Let_def split: if_splits)

lemma rename_spec: "rename_file E p q (m, h) = (ok, m1, h1) \<Longrightarrow> m1 = (if ok then (m(p := None))(q := m p) else m)"
  by (auto simp: rename_file_def fs_step_def Let_def split: if_splits)

lemma all_steps_Cons:
  assumes "all_steps (f # fs) s = (ok, s')"
  obtains s1 where "f s = (True, s1)" "all_steps fs s1 = (ok, s')" | "f s = (False, s')" "\<not> ok"
  using assms by (auto split: prod.splits if_splits)

lemma install_steps:
  assumes "all_steps [write_temp E p b, plain_step E e1, plain_step E e2, rename_file E p path, plain_step E e3] (m, h) = (ok, m', h')"
    and "p \<noteq> path"
  shows "(m' path = m path \<or> m' path = Some b) \<and> (\<forall>q. q \<noteq> path \<longrightarrow> q \<noteq> p \<longrightarrow> m' q = m q) \<and> (ok \<longrightarrow> m' path = Some b)"
  using assms(2)
  by (rule_tac all_steps_Cons [OF assms(1)]; (elim all_steps_Cons)?)
    (auto dest!: write_spec plain_spec rename_spec split: if_splits)

lemma install_spec:
  assumes "install_text E dir path b (m, h) = (err, m', h')" "\<And>x. dir @ ''/.batch-'' @ x \<noteq> path"
  shows "replaced path b m m'" "err = None \<Longrightarrow> m' path = Some b"
proof -
  obtain r m1 h1 where t: "create_temp E (dir @ ''/.batch-'') (m, h) = (r, m1, h1)" by (cases "create_temp E (dir @ ''/.batch-'') (m, h)") auto
  note spec = create_temp_spec [OF t]
  have "replaced path b m m' \<and> (err = None \<longrightarrow> m' path = Some b)"
  proof (cases r)
    case None
    then show ?thesis using assms(1) spec by (auto simp: install_text_def t)
  next
    case (Some p)
    have p: "p \<noteq> path" "m p = None" "m1 = m(p \<mapsto> [])" using spec Some assms(2) by auto
    let ?steps = "[write_temp E p b, plain_step E (SyncFile p), plain_step E (CloseFile p), rename_file E p path, plain_step E SyncDir]"
    obtain ok m2 h2 where st: "all_steps ?steps (m1, h1) = (ok, m2, h2)" by (cases "all_steps ?steps (m1, h1)") auto
    obtain ok3 m3 h3 where rm: "remove_file E p (m2, h2) = (ok3, m3, h3)" by (cases "remove_file E p (m2, h2)") auto
    have "m3 = m'" "err = None \<longleftrightarrow> ok" using assms(1) by (auto simp: install_text_def t Some st rm simp del: all_steps.simps split: if_splits)
    moreover have "m3 q = m q" if q: "q \<noteq> path" "m q \<noteq> None" for q
    proof -
      have "q \<noteq> p" using q(2) p(2) by blast
      then have "m3 q = m2 q" "m2 q = m1 q" "m1 q = m q" using remove_spec [OF rm] install_steps [OF st p(1)] q(1) p(3) by simp_all
      then show ?thesis by simp
    qed
    moreover have "m3 path = m2 path" "m1 path = m path" using remove_spec [OF rm] p by simp_all
    moreover have "m2 path = m1 path \<or> m2 path = Some b" "ok \<longrightarrow> m2 path = Some b" using install_steps [OF st p(1)] by blast+
    ultimately show ?thesis by (auto simp: replaced_def)
  qed
  then show "replaced path b m m'" "err = None \<Longrightarrow> m' path = Some b" by blast+
qed

lemma install_run:
  assumes "install_text E dir (batch_path dir i) b s = (err, s')" "ValidRequest i"
  shows "replaced (batch_path dir i) b (fst s) (fst s')" "err = None \<Longrightarrow> fst s' (batch_path dir i) = Some b"
proof -
  have run: "install_text E dir (batch_path dir i) b (fst s, snd s) = (err, fst s', snd s')" using assms(1) by simp
  show "replaced (batch_path dir i) b (fst s) (fst s')" by (rule install_spec(1) [OF run path_no_temp [OF assms(2)]])
  show "fst s' (batch_path dir i) = Some b" if "err = None" by (rule install_spec(2) [OF run path_no_temp [OF assms(2)] that])
qed

lemma valid_request: "Receipt_Validate r = Inr () \<Longrightarrow> ValidRequest (br_RequestID r)"
  by (auto simp: Receipt_Validate_def split: if_splits)

lemma read_file_files: "read_file E p s = (x, s') \<Longrightarrow> fst s' = fst s"
  by (cases s) (auto simp: read_file_def Let_def)

lemma read_file_content: "read_file E p s = (Content b, s') \<Longrightarrow> fst s p = Some b"
  by (cases s) (auto simp: read_file_def Let_def split: if_splits option.splits)

lemma read_file_missing: "read_file E p s = (NotExist, s') \<Longrightarrow> fst s p = None"
  by (cases s) (auto simp: read_file_def Let_def split: if_splits option.splits)

text \<open>A save changes the receipt only if there is none, or one that it advances.\<close>

definition saved :: "string \<Rightarrow> batch_receipt \<Rightarrow> files \<Rightarrow> files \<Rightarrow> bool" where
  "saved dir r m m' \<longleftrightarrow> m' = m
     \<or> Receipt_Validate r = Inr () \<and> replaced (batch_path dir (br_RequestID r)) (receipt_text r) m m'
       \<and> (case m (batch_path dir (br_RequestID r)) of None \<Rightarrow> True
          | Some b \<Rightarrow> (\<exists>old. decodeBatchReceipt b = Inr old \<and> batchCacheCanAdvance old r))"

lemma SaveBatch_saved:
  assumes "SaveBatch E dir r s = (err, s')"
  shows "saved dir r (fst s) (fst s')" "err = None \<Longrightarrow> fst s' (batch_path dir (br_RequestID r)) = Some (receipt_text r)"
proof -
  let ?p = "batch_path dir (br_RequestID r)"
  obtain x s1 where rd: "read_file E ?p s = (x, s1)" by (cases "read_file E ?p s")
  note same = read_file_files [OF rd]
  have wr: "saved dir r (fst s) (fst s')" "err = None \<Longrightarrow> fst s' ?p = Some (receipt_text r)"
    if "Receipt_Validate r = Inr ()" "install_text E dir ?p (receipt_text r) s1 = (err, s')"
      "case fst s ?p of None \<Rightarrow> True | Some b \<Rightarrow> (\<exists>old. decodeBatchReceipt b = Inr old \<and> batchCacheCanAdvance old r)"
    using install_run [OF that(2) valid_request [OF that(1)]] that(1,3) same by (auto simp: saved_def)
  have "saved dir r (fst s) (fst s') \<and> (err = None \<longrightarrow> fst s' ?p = Some (receipt_text r))"
  proof (cases "Receipt_Validate r = Inr ()")
    case False
    then show ?thesis using assms by (auto simp: SaveBatch_def saved_def)
  next
    case valid: True
    show ?thesis
    proof (cases x)
      case (Content b)
      show ?thesis
      proof (cases "\<exists>old. decodeBatchReceipt b = Inr old \<and> batchCacheCanAdvance old r")
        case True
        then have "install_text E dir ?p (receipt_text r) s1 = (err, s')" using assms valid by (auto simp: SaveBatch_def rd Content)
        moreover have "fst s ?p = Some b" using read_file_content rd Content by blast
        ultimately show ?thesis using wr [OF valid] True by simp
      next
        case False
        then show ?thesis using assms valid same by (auto simp: SaveBatch_def rd Content saved_def Let_def split: sum.splits if_splits)
      qed
    next
      case NotExist
      then have "install_text E dir ?p (receipt_text r) s1 = (err, s')" using assms valid by (simp add: SaveBatch_def rd)
      moreover have "fst s ?p = None" using read_file_missing rd NotExist by blast
      ultimately show ?thesis using wr [OF valid] by simp
    next
      case Unreadable
      then show ?thesis using assms valid same by (auto simp: SaveBatch_def rd saved_def)
    qed
  qed
  then show "saved dir r (fst s) (fst s')" "err = None \<Longrightarrow> fst s' ?p = Some (receipt_text r)" by blast+
qed

section \<open>The restore\<close>

text \<open>A restore that finds an unreadable receipt first moves it aside, to a name that was free.\<close>

definition moved :: "string \<Rightarrow> files \<Rightarrow> files \<Rightarrow> bool" where
  "moved path m m' \<longleftrightarrow> (\<exists>b p. m path = Some b \<and> \<not> is_ok (decodeBatchReceipt b) \<and> m p = None \<and> m' = m(path := None, p \<mapsto> b))"

text \<open>A free name may come to exist, with nothing else changed.\<close>

definition touched :: "files \<Rightarrow> files \<Rightarrow> bool" where
  "touched m m' \<longleftrightarrow> (\<forall>q. m q \<noteq> None \<longrightarrow> m' q = m q)"

lemma touched_refl [simp]: "touched m m"
  by (simp add: touched_def)

lemma RestoreBatch_cases:
  assumes "RestoreBatch E dir r s = (err, s')"
  obtains (save) s1 where "fst s1 = fst s" "SaveBatch E dir r s1 = (err, s')"
  | (refused) "touched (fst s) (fst s')" "err \<noteq> None"
  | (aside) s1 where "moved (batch_path dir (br_RequestID r)) (fst s) (fst s1)" "err \<noteq> None \<and> s' = s1 \<or> SaveBatch E dir r s1 = (err, s')"
proof -
  let ?path = "batch_path dir (br_RequestID r)"
  obtain x s1 where rd: "read_file E ?path s = (x, s1)" by (cases "read_file E ?path s")
  note same = read_file_files [OF rd]
  show thesis
  proof (cases "Receipt_Validate r = Inr ()")
    case False
    then show thesis using assms by (intro refused) (auto simp: RestoreBatch_def)
  next
    case valid: True
    show thesis
    proof (cases x)
      case NotExist
      then show thesis using assms valid same by (intro save) (auto simp: RestoreBatch_def rd)
    next
      case Unreadable
      then show thesis using assms valid same by (intro refused) (auto simp: RestoreBatch_def rd)
    next
      case (Content b)
      have b: "fst s ?path = Some b" using read_file_content rd Content by blast
      obtain m1 h1 where s1: "s1 = (m1, h1)" by (cases s1)
      let ?prefix = "backup_prefix dir (br_RequestID r)"
      obtain t m2 h2 where t: "create_temp E ?prefix (m1, h1) = (t, m2, h2)" by (cases "create_temp E ?prefix (m1, h1)") auto
      consider "is_ok (decodeBatchReceipt b)" | "\<not> is_ok (decodeBatchReceipt b)" "legacy_text b \<or> t = None"
        | p where "\<not> is_ok (decodeBatchReceipt b)" "\<not> legacy_text b" "t = Some p" by blast
      then show thesis
      proof cases
        case 1
        then show thesis using assms valid same by (intro save) (auto simp: RestoreBatch_def rd Content)
      next
        case 2
        then have "(\<exists>h. s' = (m1, h) \<or> s' = (m2, h)) \<and> (legacy_text b \<or> m2 = m1) \<and> (legacy_text b \<longrightarrow> s' = s1) \<and> err \<noteq> None"
          using assms valid create_temp_spec [OF t] by (auto simp: RestoreBatch_def rd Content s1 t Let_def split: if_splits)
        then show thesis using same s1 by (intro refused) auto
      next
        case (3 p)
        have p: "m1 p = None" "m2 = m1(p \<mapsto> [])" "m1 = fst s" "p \<noteq> ?path" using create_temp_spec [OF t] 3(3) same s1 b by auto
        obtain k3 h3 where c: "plain_step E (CloseFile p) (m2, h2) = (k3, m2, h3)"
          using plain_spec by (cases "plain_step E (CloseFile p) (m2, h2)") (metis prod.collapse)
        obtain ok m4 h4 where rn: "rename_file E ?path p (m2, h3) = (ok, m4, h4)" by (cases "rename_file E ?path p (m2, h3)") auto
        show thesis
        proof (cases ok)
          case False
          obtain k5 m5 h5 where rm: "remove_file E p (m4, h4) = (k5, m5, h5)" by (cases "remove_file E p (m4, h4)") auto
          have "s' = (m5, h5)" "err \<noteq> None"
            using assms valid 3 False by (auto simp: RestoreBatch_def rd Content s1 t c rn rm Let_def)
          moreover have "m5 q = fst s q" if "fst s q \<noteq> None" for q
          proof -
            have "q \<noteq> p" using that p by metis
            then show ?thesis using rename_spec [OF rn] False remove_spec [OF rm, of q] p by simp
          qed
          then have "touched (fst s) m5" by (simp add: touched_def)
          ultimately show thesis by (intro refused) auto
        next
          case True
          then have m4: "moved ?path (fst s) m4"
            using rename_spec [OF rn] p b 3(1) unfolding moved_def by (intro exI [of _ b] exI [of _ p]) (auto simp: fun_upd_def)
          obtain ok6 m6 h6 where st: "all_steps [plain_step E (Chmod p), plain_step E SyncDir] (m4, h4) = (ok6, m6, h6)"
            by (cases "all_steps [plain_step E (Chmod p), plain_step E SyncDir] (m4, h4)") auto
          have m6: "m6 = m4" using st by (elim all_steps_Cons) (auto dest!: plain_spec)
          have "err \<noteq> None \<and> s' = (m6, h6) \<or> SaveBatch E dir r (m6, h6) = (err, s')"
            using assms valid 3 True by (cases ok6) (auto simp: RestoreBatch_def rd Content s1 t c rn st Let_def simp del: all_steps.simps)
          then show thesis using m4 m6 by (intro aside [of "(m6, h6)"]) auto
        qed
      qed
    qed
  qed
qed

section \<open>Runs of the cache\<close>

text \<open>What processes that hold the lock of a request in turn do to its directory.\<close>

inductive cache_run :: "string \<Rightarrow> files \<Rightarrow> files \<Rightarrow> bool" for dir where
  start: "cache_run dir m m"
| save: "cache_run dir m m1 \<Longrightarrow> SaveBatch E dir r (m1, h) = (err, m2, h') \<Longrightarrow> plain_receipt r \<Longrightarrow> cache_run dir m m2"
| restore: "cache_run dir m m1 \<Longrightarrow> RestoreBatch E dir r (m1, h) = (err, m2, h') \<Longrightarrow> plain_receipt r \<Longrightarrow> cache_run dir m m2"

text \<open>The file of a request that holds a receipt as least as advanced as \<open>old\<close>.\<close>

definition holds :: "files \<Rightarrow> string \<Rightarrow> batch_receipt \<Rightarrow> bool" where
  "holds m path old \<longleftrightarrow> (\<exists>b r. m path = Some b \<and> decodeBatchReceipt b = Inr r \<and> batchCacheCanAdvance old r)"

lemma touched_holds: "touched m m' \<Longrightarrow> holds m p old \<Longrightarrow> holds m' p old"
  unfolding touched_def holds_def by (metis option.distinct(1))

lemma saved_text:
  assumes "saved dir r m m'" "m q = Some b"
  shows "m' q = Some b \<or> q = batch_path dir (br_RequestID r) \<and> Receipt_Validate r = Inr () \<and> m' q = Some (receipt_text r)
    \<and> (\<exists>old. decodeBatchReceipt b = Inr old \<and> batchCacheCanAdvance old r)"
proof (cases "m' = m")
  case True
  then show ?thesis using assms(2) by simp
next
  case False
  let ?path = "batch_path dir (br_RequestID r)"
  have v: "Receipt_Validate r = Inr ()" and rep: "replaced ?path (receipt_text r) m m'"
    and adv: "case m ?path of None \<Rightarrow> True | Some b \<Rightarrow> (\<exists>old. decodeBatchReceipt b = Inr old \<and> batchCacheCanAdvance old r)"
    using assms(1) False by (auto simp: saved_def)
  show ?thesis
  proof (cases "q = ?path")
    case True
    then show ?thesis using v rep adv assms(2) by (auto simp: replaced_def)
  next
    case False
    then have "m' q = m q" using rep assms(2) unfolding replaced_def by blast
    then show ?thesis using assms(2) by simp
  qed
qed

lemma saved_holds:
  assumes "saved dir r m m'" "plain_receipt r" "holds m p old"
  shows "holds m' p old"
proof -
  obtain b q where b: "m p = Some b" "decodeBatchReceipt b = Inr q" "batchCacheCanAdvance old q" using assms(3) by (auto simp: holds_def)
  from saved_text [OF assms(1) b(1)] show ?thesis
  proof (elim disjE conjE exE)
    assume "m' p = Some b"
    then show ?thesis using b by (auto simp: holds_def)
  next
    fix x assume v: "Receipt_Validate r = Inr ()" and new: "m' p = Some (receipt_text r)"
      and x: "decodeBatchReceipt b = Inr x" "batchCacheCanAdvance x r"
    then have "batchCacheCanAdvance old r" using b advance_trans decode_valid by (metis sum.inject(2))
    then show ?thesis using new decode_back [OF assms(2) v] by (auto simp: holds_def)
  qed
qed

lemma moved_holds: "moved path m m' \<Longrightarrow> holds m p old \<Longrightarrow> holds m' p old"
  by (auto simp: moved_def holds_def)

lemma restore_holds:
  assumes "RestoreBatch E dir r s = (err, s')" "plain_receipt r" "holds (fst s) p old"
  shows "holds (fst s') p old"
  using assms(1)
proof (cases rule: RestoreBatch_cases)
  case (save s1)
  then show ?thesis using saved_holds [OF SaveBatch_saved(1) assms(2)] assms(3) by metis
next
  case refused
  then show ?thesis using touched_holds assms(3) by blast
next
  case (aside s1)
  then have "holds (fst s1) p old" using moved_holds assms(3) by blast
  then show ?thesis using aside saved_holds [OF SaveBatch_saved(1) assms(2)] by metis
qed

lemma cache_run_holds: "cache_run dir m m' \<Longrightarrow> holds m p old \<Longrightarrow> holds m' p old"
proof (induction rule: cache_run.induct)
  case (save m m1 E r h err m2 h')
  then show ?case using saved_holds [OF SaveBatch_saved(1) [OF save.hyps(2)]] by simp
next
  case (restore m m1 E r h err m2 h')
  then show ?case using restore_holds [OF restore.hyps(2)] by simp
qed

text \<open>C35.  The local cache never forgets.  Through any number of saves and restores, whichever system calls fail and wherever
  they stop, a receipt that could be read stays readable and only advances: the pins are the same, no attempt disappears
  or goes back to \<^verbatim>\<open>prepared\<close>, no Fleet or machine identity is lost, and a finished attempt is never changed.\<close>

theorem cache_never_regresses:
  assumes "cache_run dir m m'" "m (batch_path dir i) = Some b" "decodeBatchReceipt b = Inr old"
  shows "\<exists>b' new. m' (batch_path dir i) = Some b' \<and> decodeBatchReceipt b' = Inr new \<and> batchCacheCanAdvance old new
    \<and> (\<forall>a \<in> set (br_Attempts old). \<exists>a' \<in> set (br_Attempts new). ar_AttemptID a' = ar_AttemptID a \<and> set (ids_of a) \<subseteq> set (ids_of a')
        \<and> (terminal a \<longrightarrow> a' = a) \<and> (ar_FleetID a \<noteq> [] \<longrightarrow> ar_FleetID a' = ar_FleetID a)
        \<and> (ar_State a \<noteq> ''prepared'' \<longrightarrow> ar_State a' \<noteq> ''prepared''))"
proof -
  have "holds m (batch_path dir i) old" using assms(2,3) by (auto simp: holds_def)
  from cache_run_holds [OF assms(1) this] obtain b' new
    where "m' (batch_path dir i) = Some b'" "decodeBatchReceipt b' = Inr new" "batchCacheCanAdvance old new" by (auto simp: holds_def)
  with advance_keeps show ?thesis by blast
qed

lemma RestoreBatch_text:
  assumes "RestoreBatch E dir r (m, h) = (err, m', h')" "m q = Some b"
  shows "m' q = Some b \<or> q = batch_path dir (br_RequestID r)
      \<and> ((\<exists>backup. m backup = None \<and> m' backup = Some b)
         \<or> (\<exists>old. decodeBatchReceipt b = Inr old \<and> batchCacheCanAdvance old r \<and> m' q = Some (receipt_text r)))"
  using assms(1)
proof (cases rule: RestoreBatch_cases)
  case (save s1)
  then have "saved dir r m m'" using SaveBatch_saved(1) by fastforce
  from saved_text [OF this assms(2)] show ?thesis by blast
next
  case refused
  then show ?thesis using assms(2) by (auto simp: touched_def)
next
  case (aside s1)
  let ?path = "batch_path dir (br_RequestID r)"
  obtain b0 p where mv: "m ?path = Some b0" "m p = None" "fst s1 = m(?path := None, p \<mapsto> b0)" using aside(1) by (auto simp: moved_def)
  then have pp: "p \<noteq> ?path" by auto
  have "m' = fst s1 \<or> saved dir r (fst s1) m'" using aside(2) SaveBatch_saved(1) by fastforce
  moreover have "fst s1 x = Some b \<Longrightarrow> x \<noteq> ?path" for x using mv(3) pp by auto
  ultimately have kept: "fst s1 x = Some b \<Longrightarrow> m' x = Some b" for x using saved_text [of dir r "fst s1" m' x b] by auto
  show ?thesis
  proof (cases "q = ?path")
    case True
    then have "m' p = Some b" using kept [of p] mv assms(2) by simp
    then show ?thesis using True mv(2) by blast
  next
    case False
    then have "q \<noteq> p" using mv(2) assms(2) by auto
    then show ?thesis using kept [of q] False mv(3) assms(2) by simp
  qed
qed

text \<open>A restore destroys nothing.  Whatever fails, no file but the receipt of the request is changed, and the text
  that was there is still in some file, unless it was a readable receipt and has been replaced by one that
  advances it.\<close>

theorem restore_keeps_bytes:
  assumes "RestoreBatch E dir r (m, h) = (err, m', h')" "m q = Some b"
  shows "m' q = Some b \<or> q = batch_path dir (br_RequestID r)
      \<and> ((\<exists>backup. m backup = None \<and> m' backup = Some b)
         \<or> (\<exists>old. decodeBatchReceipt b = Inr old \<and> batchCacheCanAdvance old r \<and> m' q = Some (receipt_text r)))"
  by (rule RestoreBatch_text [OF assms])

text \<open>C36.  What a successful save reports is there: the next load returns exactly that receipt, without an error.\<close>

theorem save_then_load:
  assumes "SaveBatch E dir r s = (None, s')" "plain_receipt r"
    and "\<not> fe_fails E' (ReadFile (batch_path dir (br_RequestID r)) # snd s')"
  shows "fst (LoadBatch E' dir (br_RequestID r) s') = (r, None)"
proof -
  have f: "fst s' (batch_path dir (br_RequestID r)) = Some (receipt_text r)" using SaveBatch_saved(2) [OF assms(1)] by simp
  have v: "Receipt_Validate r = Inr ()" using assms(1) by (auto simp: SaveBatch_def split: if_splits)
  obtain m h where s': "s' = (m, h)" by (cases s')
  show ?thesis using f assms(3) valid_request [OF v] parse_back [OF assms(2) v] v
    by (simp add: LoadBatch_def read_file_def s' Let_def)
qed

end
