(* ===== verification/OutcomeProperties.thy ===== *)
theory OutcomeProperties
  imports BatchOutcome
begin

text \<open>
  What is reported of a request: the count of fulfilled machines is the number of machines an attempt accounts for, nothing is
  called missing without a bound, unverified evidence keeps every identity and claims nothing, and the command
  succeeds only when everything that was asked for is there and ready.
\<close>

section \<open>Counting\<close>

definition accounted :: "launch_observation \<Rightarrow> worker_outcome list \<Rightarrow> attempt_receipt list \<Rightarrow> string set" where
  "accounted obs ws as = {i. \<exists>a \<in> set as. i \<in> set (ids_of a) \<and> accounts obs ws a i}"

lemma attempt_turns:
  "fold (attempt_turn obs ws) as (outs, done1) = (outs', done2) \<Longrightarrow> distinct done1 \<Longrightarrow>
     distinct done2 \<and> set done2 = set done1 \<union> accounted obs ws as"
proof (induction as arbitrary: outs done1)
  case Nil
  then show ?case by (simp add: accounted_def)
next
  case (Cons a as)
  let ?new = "filter (\<lambda>i. i \<notin> set done1) (remdups (filter (accounts obs ws a) (ids_of a)))"
  obtain outs1 where "attempt_turn obs ws a (outs, done1) = (outs1, done1 @ ?new)" by (simp add: attempt_turn_def Let_def)
  then have run: "fold (attempt_turn obs ws) as (outs1, done1 @ ?new) = (outs', done2)" using Cons.prems(1) by simp
  have "distinct (done1 @ ?new)" using Cons.prems(2) by auto
  from Cons.IH [OF run this] show ?case by (auto simp: accounted_def)
qed

lemma with_commands_fields:
  "bo_MissingCount (with_commands prefix r out) = bo_MissingCount out" "bo_FulfilledCount (with_commands prefix r out) = bo_FulfilledCount out"
  "bo_Status (with_commands prefix r out) = bo_Status out" "bo_Workers (with_commands prefix r out) = bo_Workers out"
  "bo_RequestedCount (with_commands prefix r out) = bo_RequestedCount out" "bo_Plan (with_commands prefix r out) = bo_Plan out"
  by (auto simp: with_commands_def Let_def split: option.split)

lemma expiry_fields:
  "bo_MissingCount (setBatchExpiry out) = bo_MissingCount out" "bo_FulfilledCount (setBatchExpiry out) = bo_FulfilledCount out"
  "bo_Status (setBatchExpiry out) = bo_Status out" "bo_Workers (setBatchExpiry out) = bo_Workers out"
  "bo_RequestedCount (setBatchExpiry out) = bo_RequestedCount out" "bo_RetryCommand (setBatchExpiry out) = bo_RetryCommand out"
  by (auto simp: setBatchExpiry_def split: sum.split)

lemma retry_offered:
  "bo_RetryCommand (with_commands prefix r out) \<noteq> bo_RetryCommand out \<Longrightarrow> \<exists>n > 0. bo_MissingCount out = Some n"
  by (auto simp: with_commands_def Let_def split: option.splits if_splits)

lemma accounted_finite: "finite (accounted obs ws as)"
  by (rule finite_subset [of _ "set (concat (map ids_of as))"]) (auto simp: accounted_def)

lemma batch_outcome_counts:
  fixes obs now
  defines "r \<equiv> lo_Receipt obs" and "ws \<equiv> map_workers (setExpiryStatus now) (elems (clone_workers (lo_Workers obs)))"
  shows "bo_FulfilledCount (batch_outcome_of prefix now obs) = int (card (accounted obs ws (br_Attempts r)))"
    "bo_RequestedCount (batch_outcome_of prefix now obs) = lp_RequestedCount (br_Plan r)"
    "bo_Workers (batch_outcome_of prefix now obs) = ws"
    "bo_MissingCount (batch_outcome_of prefix now obs) = (if lo_Bounded obs \<and> \<not> prepared_only r
       then Some (lp_RequestedCount (br_Plan r) - int (card (accounted obs ws (br_Attempts r)))) else None)"
    "bo_Status (batch_outcome_of prefix now obs) = (if prepared_only r then ''prepared'' else if \<not> lo_Bounded obs then ''allocation_unknown''
       else capacity_status (lp_RequestedCount (br_Plan r) - int (card (accounted obs ws (br_Attempts r)))) (card (accounted obs ws (br_Attempts r))))"
proof -
  obtain outs ids where f: "fold (attempt_turn obs ws) (br_Attempts r) ([], []) = (outs, ids)" by fastforce
  from attempt_turns [OF f] have "distinct ids" "set ids = accounted obs ws (br_Attempts r)" by simp_all
  then have len: "length ids = card (accounted obs ws (br_Attempts r))" using distinct_card by metis
  note e = batch_outcome_of_def f [unfolded r_def ws_def] Let_def expiry_fields with_commands_fields
  show "bo_FulfilledCount (batch_outcome_of prefix now obs) = int (card (accounted obs ws (br_Attempts r)))"
    "bo_RequestedCount (batch_outcome_of prefix now obs) = lp_RequestedCount (br_Plan r)"
    "bo_Workers (batch_outcome_of prefix now obs) = ws"
    "bo_MissingCount (batch_outcome_of prefix now obs) = (if lo_Bounded obs \<and> \<not> prepared_only r
       then Some (lp_RequestedCount (br_Plan r) - int (card (accounted obs ws (br_Attempts r)))) else None)"
    "bo_Status (batch_outcome_of prefix now obs) = (if prepared_only r then ''prepared'' else if \<not> lo_Bounded obs then ''allocation_unknown''
       else capacity_status (lp_RequestedCount (br_Plan r) - int (card (accounted obs ws (br_Attempts r)))) (card (accounted obs ws (br_Attempts r))))"
    using len unfolding r_def ws_def by (simp_all add: e zero_outcome_def)
qed

lemma retry_command_bounded:
  "bo_RetryCommand (batch_outcome_of prefix now obs) \<noteq> [] \<Longrightarrow> \<exists>n > 0. bo_MissingCount (batch_outcome_of prefix now obs) = Some n"
proof -
  assume a: "bo_RetryCommand (batch_outcome_of prefix now obs) \<noteq> []"
  have "\<exists>out. batch_outcome_of prefix now obs = setBatchExpiry (with_commands prefix (lo_Receipt obs) out) \<and> bo_RetryCommand out = []"
    by (auto simp: batch_outcome_of_def Let_def zero_outcome_def split: prod.split)
  then obtain out where o: "batch_outcome_of prefix now obs = setBatchExpiry (with_commands prefix (lo_Receipt obs) out)" "bo_RetryCommand out = []"
    by blast
  with a retry_offered [of prefix "lo_Receipt obs" out] show ?thesis by (simp add: expiry_fields with_commands_fields)
qed

text \<open>C37.  The report of a request is exact.  The fulfilled count is the number of different machines that an attempt
  accounts for; a missing count is only given for a bounded observation of a request that was dispatched, and is what was
  asked for less the fulfilled count; a retry is only offered for a positive missing count; and when the attempts are
  finished, missing lies between zero and the requested count.\<close>

theorem outcome_counts_exact:
  fixes obs now prefix
  defines "r \<equiv> lo_Receipt obs" and "out \<equiv> batch_outcome_of prefix now obs"
  shows "bo_FulfilledCount out = int (card (accounted obs (bo_Workers out) (br_Attempts r)))
    \<and> bo_MissingCount out = (if lo_Bounded obs \<and> \<not> prepared_only r then Some (lp_RequestedCount (br_Plan r) - bo_FulfilledCount out) else None)
    \<and> (bo_RetryCommand out = [] \<or> (\<exists>n > 0. bo_MissingCount out = Some n))
    \<and> (Receipt_Validate r = Inr () \<and> list_all terminal (br_Attempts r) \<longrightarrow> 0 \<le> bo_FulfilledCount out \<and> bo_FulfilledCount out \<le> lp_RequestedCount (br_Plan r))"
proof -
  note c = batch_outcome_counts [of prefix now obs, folded r_def out_def]
  have "bo_FulfilledCount out \<le> lp_RequestedCount (br_Plan r)" if v: "Receipt_Validate r = Inr ()" "list_all terminal (br_Attempts r)"
  proof -
    note ok = Receipt_Validate_ok(1) [OF v(1)]
    obtain as a where as: "br_Attempts r = as @ [a]" using Receipt_Validate_ok(2) [OF v(1)] by (cases "br_Attempts r" rule: rev_cases) blast+
    have "int (length (ids_of a)) \<le> ar_RequestedCount a" using attempts_ok_bound [OF ok, of a] v(2) by (auto simp: as terminal_def)
    then have "int (length (concat (map ids_of (br_Attempts r)))) \<le> lp_RequestedCount (br_Plan r)"
      using attempts_ok_count [OF ok, of "length as"] by (simp add: as)
    moreover have "card (accounted obs (bo_Workers out) (br_Attempts r)) \<le> length (concat (map ids_of (br_Attempts r)))"
    proof -
      have "accounted obs (bo_Workers out) (br_Attempts r) \<subseteq> set (concat (map ids_of (br_Attempts r)))" by (auto simp: accounted_def)
      then show ?thesis by (meson List.finite_set card_mono card_length order_trans)
    qed
    ultimately show ?thesis using c(1,3) by simp
  qed
  moreover have "bo_FulfilledCount out = int (card (accounted obs (bo_Workers out) (br_Attempts r)))" using c(1) unfolding c(3) .
  moreover have "bo_MissingCount out = (if lo_Bounded obs \<and> \<not> prepared_only r then Some (lp_RequestedCount (br_Plan r) - bo_FulfilledCount out) else None)"
    using c(4) unfolding c(1) .
  moreover have "bo_RetryCommand out = [] \<or> (\<exists>n > 0. bo_MissingCount out = Some n)"
    using retry_command_bounded [of prefix now obs, folded out_def] by blast
  ultimately show ?thesis using c(1) by auto
qed

section \<open>The verdict\<close>

lemma verdict_ok:
  "verdict out = (status, code, exitc, ok) \<Longrightarrow> (ok \<longleftrightarrow> exitc = 0) \<and> exitc \<in> {0, 1, 3}
    \<and> (ok \<longleftrightarrow> bo_Status out \<noteq> ''prepared'' \<and> (\<exists>n \<le> 0. bo_MissingCount out = Some n) \<and> bo_ReadyCount out = bo_RequestedCount out \<and> bo_ReadyCount out > 0)
    \<and> (exitc = 3 \<longrightarrow> bo_Status out \<noteq> ''prepared'' \<and> (\<exists>n. bo_MissingCount out = Some n \<and> (n > 0 \<and> bo_FulfilledCount out > 0 \<or> n \<le> 0 \<and> bo_ReadyCount out > 0)))"
  by (auto simp: verdict_def ExitPartial_def split: option.splits if_splits)

text \<open>C38.  The command succeeds only when the work is done.  It reports success, and exits with zero, exactly when there was no
  error, no usage fault and no interruption, nothing is missing, and every requested worker is ready; exit 4
  means exactly an interruption, 2 exactly a usage fault without one, 3 needs machines that are there or
  ready, and no other code but 1 exists.\<close>

theorem exit_codes_exact:
  fixes ended out err usage
  defines "res \<equiv> completeBatchResult ended out err usage" and "fault \<equiv> usage \<or> err = Some (Reported ''count_invalid'')"
    and "broken \<equiv> ended \<or> err = Some ContextEnded" and "ready \<equiv> ready_count (bo_Workers out)"
  shows "(bs_OK res \<longleftrightarrow> bs_ExitCode res = 0)
    \<and> (bs_OK res \<longleftrightarrow> \<not> broken \<and> \<not> fault \<and> err = None \<and> bo_Status out \<noteq> ''prepared'' \<and> (\<exists>n \<le> 0. bo_MissingCount out = Some n)
        \<and> ready = bo_RequestedCount out \<and> 0 < ready)
    \<and> (bs_ExitCode res = 4 \<longleftrightarrow> broken) \<and> (bs_ExitCode res = 2 \<longleftrightarrow> fault \<and> \<not> broken)
    \<and> (bs_ExitCode res = 3 \<longrightarrow> \<not> broken \<and> \<not> fault \<and> (\<exists>n. bo_MissingCount out = Some n) \<and> (0 < bo_FulfilledCount out \<or> 0 < ready))
    \<and> bs_ExitCode res \<in> {0, 1, 2, 3, 4}"
proof -
  let ?out = "out\<lparr>bo_ReadyCount := ready\<rparr>"
  obtain status code exitc ok where v: "verdict ?out = (status, code, exitc, ok)" by (cases "verdict ?out")
  note facts = verdict_ok [OF v]
  have e: "res = completeBatchResult ended out err usage" by (simp add: res_def)
  have codes: "\<not> broken \<Longrightarrow> \<not> fault \<Longrightarrow> err = None \<Longrightarrow> bs_OK res = ok \<and> bs_ExitCode res = exitc"
    "\<not> broken \<Longrightarrow> \<not> fault \<Longrightarrow> err \<noteq> None \<Longrightarrow> \<not> bs_OK res \<and> (bs_ExitCode res = 1 \<or> \<not> ok \<and> bs_ExitCode res = exitc)"
    "\<not> broken \<Longrightarrow> fault \<Longrightarrow> \<not> bs_OK res \<and> bs_ExitCode res = 2" "broken \<Longrightarrow> \<not> bs_OK res \<and> bs_ExitCode res = 4"
    unfolding e broken_def fault_def by (auto simp: completeBatchResult_def v [unfolded ready_def] Let_def split: if_splits)
  consider "broken" | "\<not> broken" "fault" | "\<not> broken" "\<not> fault" "err = None" | "\<not> broken" "\<not> fault" "err \<noteq> None" by blast
  then show ?thesis
  proof cases
    case 1
    then show ?thesis using codes(4) by simp
  next
    case 2
    then show ?thesis using codes(3) by simp
  next
    case 3
    then show ?thesis using codes(1) facts by auto
  next
    case 4
    then show ?thesis using codes(2) facts by auto
  qed
qed

section \<open>Unverified evidence\<close>

lemma map_fold_put:
  "map_of (fold (\<lambda>i. map_put i (f i)) ids m) x = (if x \<in> set ids then Some (f x) else map_of m x)"
  by (induction ids arbitrary: m) auto

lemma fold_worker_ok: "map_ok m \<Longrightarrow> map_ok (fold (\<lambda>i. map_put i (f i)) ids m)"
  by (induction ids arbitrary: m) auto

text \<open>The state of the fold: the attempts listed, each once and as unknown, and one worker per identity.\<close>

definition gathered :: "attempt_receipt list \<Rightarrow> attempt_receipt list \<times> worker_outcome gomap \<Rightarrow> bool" where
  "gathered seen s \<longleftrightarrow> (case s of (as, workers) \<Rightarrow>
     distinct (map ar_AttemptID as) \<and> list_all (\<lambda>a. ar_State a = ''unknown'') as \<and> map_ok workers
     \<and> ar_AttemptID ` set as = {ar_AttemptID a | a. a \<in> set seen \<and> ValidRequest (ar_AttemptID a)}
     \<and> (\<forall>a \<in> set as. set (ids_of a) = {i. re_match instanceRE i \<and> (\<exists>b \<in> set seen. ar_AttemptID b = ar_AttemptID a \<and> i \<in> set (ids_of b))})
     \<and> (\<forall>i w. map_of workers i = Some w \<longrightarrow> wo_ID w = i \<and> wo_Status w = ''not_observed'')
     \<and> dom (map_of workers) = {i. re_match instanceRE i \<and> (\<exists>a \<in> set seen. ValidRequest (ar_AttemptID a) \<and> i \<in> set (ids_of a))})"

lemma union_set: "set (unionInstanceIDs groups) = {i. re_match instanceRE i \<and> (\<exists>g \<in> set groups. i \<in> set g)}"
  by (auto simp: unionInstanceIDs_def)

lemma unknown_fields: "wo_ID (unknown_worker request x i) = i" "wo_Status (unknown_worker request x i) = ''not_observed''"
  by (simp_all add: unknown_worker_def)

lemma gathered_turn:
  assumes "gathered seen (as, workers)"
  shows "gathered (seen @ [a]) (evidence_turn request a (as, workers))"
proof (cases "ValidRequest (ar_AttemptID a)")
  case False
  moreover have "ar_AttemptID c \<in> {ar_AttemptID b | b. b \<in> set seen \<and> ValidRequest (ar_AttemptID b)}" if "c \<in> set as" for c
    using assms that unfolding gathered_def by blast
  ultimately have "\<forall>c \<in> set as. ar_AttemptID a \<noteq> ar_AttemptID c" by fastforce
  moreover have "{ar_AttemptID b | b. b \<in> set (seen @ [a]) \<and> ValidRequest (ar_AttemptID b)} = {ar_AttemptID b | b. b \<in> set seen \<and> ValidRequest (ar_AttemptID b)}"
    using False by auto
  ultimately show ?thesis using False assms by (simp add: evidence_turn_def gathered_def)
next
  case True
  let ?x = "ar_AttemptID a"
  define bs where "bs = (if ?x \<in> ar_AttemptID ` set as then as else as @ [known_attempt a])"
  define old where "old = hd (filter (\<lambda>b. ar_AttemptID b = ?x) bs)"
  define ids where "ids = unionInstanceIDs [ids_of old, ids_of a]"
  have dist: "distinct (map ar_AttemptID bs)" using assms by (auto simp: bs_def gathered_def known_attempt_def)
  have names: "ar_AttemptID ` set bs = insert ?x (ar_AttemptID ` set as)" by (auto simp: bs_def known_attempt_def)
  then have ex: "\<exists>b \<in> set bs. ar_AttemptID b = ?x" by (metis image_iff insertI1)
  then have "filter (\<lambda>b. ar_AttemptID b = ?x) bs \<noteq> []" by (simp add: filter_empty_conv)
  then have old: "old \<in> set bs" "ar_AttemptID old = ?x" using hd_in_set unfolding old_def by fastforce+
  have ids_as: "set (ids_of c) = {i. re_match instanceRE i \<and> (\<exists>b \<in> set seen. ar_AttemptID b = ar_AttemptID c \<and> i \<in> set (ids_of b))}"
    if "c \<in> set as" for c
    using assms that by (simp add: gathered_def)
  have none: "ids_of (known_attempt a) = []" by (simp add: ids_of_def known_attempt_def elems_def)
  have ids_bs: "set (ids_of c) = {i. re_match instanceRE i \<and> (\<exists>b \<in> set seen. ar_AttemptID b = ar_AttemptID c \<and> i \<in> set (ids_of b))}"
    if c: "c \<in> set bs" for c
  proof (cases "c \<in> set as")
    case True
    then show ?thesis by (rule ids_as)
  next
    case False
    then have k: "c = known_attempt a" "?x \<notin> ar_AttemptID ` set as" using c by (auto simp: bs_def split: if_splits)
    then have "\<forall>b \<in> set seen. ar_AttemptID b \<noteq> ?x" using assms True by (auto simp: gathered_def)
    then show ?thesis using k none by (simp add: known_attempt_def)
  qed
  have ids: "set ids = {i. re_match instanceRE i \<and> (\<exists>b \<in> set (seen @ [a]). ar_AttemptID b = ?x \<and> i \<in> set (ids_of b))}"
    using ids_bs [OF old(1)] old(2) by (auto simp: ids_def union_set)
  define cs where "cs = map (\<lambda>b. if ar_AttemptID b = ?x then b\<lparr>ar_InstanceIDs := Some ids\<rparr> else b) bs"
  have run: "evidence_turn request a (as, workers) = (cs, fold (\<lambda>i. map_put i (unknown_worker request ?x i)) ids workers)"
    using True by (simp add: evidence_turn_def bs_def old_def ids_def cs_def Let_def)
  have cs_names: "map ar_AttemptID cs = map ar_AttemptID bs" by (simp add: cs_def)
  have cs_ids: "set (ids_of c) = {i. re_match instanceRE i \<and> (\<exists>b \<in> set (seen @ [a]). ar_AttemptID b = ar_AttemptID c \<and> i \<in> set (ids_of b))}"
    if c: "c \<in> set cs" for c
  proof -
    obtain b where b: "b \<in> set bs" "c = (if ar_AttemptID b = ?x then b\<lparr>ar_InstanceIDs := Some ids\<rparr> else b)" using c by (auto simp: cs_def)
    show ?thesis
    proof (cases "ar_AttemptID b = ?x")
      case True
      then have "ids_of c = ids" "ar_AttemptID c = ?x" using b(2) by (simp_all add: ids_of_def elems_def)
      then show ?thesis using ids by simp
    next
      case False
      then have "c = b" "ar_AttemptID a \<noteq> ar_AttemptID c" using b(2) by auto
      then show ?thesis using ids_bs [OF b(1)] by auto
    qed
  qed
  have "ar_AttemptID ` set cs = insert ?x (ar_AttemptID ` set as)" using names arg_cong [OF cs_names, of set] by simp
  then have cs_all: "ar_AttemptID ` set cs = {ar_AttemptID b | b. b \<in> set (seen @ [a]) \<and> ValidRequest (ar_AttemptID b)}"
    using assms True by (auto simp: gathered_def)
  have unk: "list_all (\<lambda>a. ar_State a = ''unknown'') cs"
    using assms by (auto simp: gathered_def cs_def bs_def known_attempt_def list_all_iff)
  have wk: "map_of (fold (\<lambda>i. map_put i (unknown_worker request ?x i)) ids workers) i =
      (if i \<in> set ids then Some (unknown_worker request ?x i) else map_of workers i)" for i
    by (rule map_fold_put)
  have dm: "dom (map_of (fold (\<lambda>i. map_put i (unknown_worker request ?x i)) ids workers)) = set ids \<union> dom (map_of workers)"
    by (auto simp: wk dom_def split: if_splits)
  have "map_ok (fold (\<lambda>i. map_put i (unknown_worker request ?x i)) ids workers)" using assms by (simp add: fold_worker_ok gathered_def)
  moreover have "\<forall>i w. map_of (fold (\<lambda>i. map_put i (unknown_worker request ?x i)) ids workers) i = Some w \<longrightarrow> wo_ID w = i \<and> wo_Status w = ''not_observed''"
    using assms unfolding wk gathered_def by (auto simp: unknown_fields split: if_splits)
  moreover have "set ids \<union> dom (map_of workers) = {i. re_match instanceRE i \<and> (\<exists>b \<in> set (seen @ [a]). ValidRequest (ar_AttemptID b) \<and> i \<in> set (ids_of b))}"
  proof -
    have "dom (map_of workers) = {i. re_match instanceRE i \<and> (\<exists>b \<in> set seen. ValidRequest (ar_AttemptID b) \<and> i \<in> set (ids_of b))}"
      using assms by (simp add: gathered_def)
    moreover have "ValidRequest (ar_AttemptID b)" if "ar_AttemptID b = ?x" for b :: attempt_receipt using True that by simp
    ultimately show ?thesis unfolding ids by auto
  qed
  ultimately show ?thesis
    unfolding run gathered_def prod.case dm using dist cs_names unk cs_all cs_ids by simp
qed

lemma gathered_fold: "gathered seen s \<Longrightarrow> gathered (seen @ as) (fold (evidence_turn request) as s)"
proof (induction as arbitrary: seen s)
  case (Cons a as)
  then have "gathered (seen @ [a]) (evidence_turn request a s)" using gathered_turn by (cases s) simp
  from Cons.IH [OF this] show ?case by simp
qed simp

lemma workers_by_id:
  assumes "map_ok m" "\<forall>i w. map_of m i = Some w \<longrightarrow> wo_ID w = i"
  shows "wo_ID ` set (sortedBatchWorkers m) = dom (map_of m)" "distinct (map wo_ID (sortedBatchWorkers m))"
proof -
  have d: "distinct (map fst m)" using assms(1) by (simp add: map_ok_def strict_sorted_iff)
  have "wo_ID (snd e) = fst e" if "e \<in> set m" for e using assms(2) map_of_is_SomeI [OF d, of "fst e" "snd e"] that by simp
  then have ids: "map wo_ID (map snd m) = map fst m" by simp
  have "wo_ID ` set (sortedBatchWorkers m) = set (map wo_ID (map snd m))" by (simp add: sortedBatchWorkers_def image_image)
  then show "wo_ID ` set (sortedBatchWorkers m) = dom (map_of m)" unfolding ids by (simp add: dom_map_of_conv_image_fst)
  have "mset (map wo_ID (sortedBatchWorkers m)) = mset (map wo_ID (map snd m))"
    by (simp add: sortedBatchWorkers_def multiset.map_comp)
  then show "distinct (map wo_ID (sortedBatchWorkers m))" unfolding ids using d mset_eq_imp_distinct_iff by blast
qed

text \<open>Evidence without authority.  When shared authority is not verified, every valid machine identity of every
  well-named cached or shared attempt is still reported, once, and no other; no plan, no terminal state and no bound is claimed, so
  nothing of it can permit a launch.\<close>

theorem unverified_evidence_exact:
  fixes request rs
  defines "obs \<equiv> unverifiedRecoveryEvidence request rs" and "as \<equiv> concat (map br_Attempts rs)"
  shows "wo_ID ` set (lo_Workers obs) = {i. re_match instanceRE i \<and> (\<exists>a \<in> set as. ValidRequest (ar_AttemptID a) \<and> i \<in> set (ids_of a))}
    \<and> distinct (map wo_ID (lo_Workers obs)) \<and> list_all (\<lambda>w. wo_Status w = ''not_observed'') (lo_Workers obs)
    \<and> ar_AttemptID ` set (br_Attempts (lo_Receipt obs)) = {ar_AttemptID a | a. a \<in> set as \<and> ValidRequest (ar_AttemptID a)}
    \<and> list_all (\<lambda>a. ar_State a = ''unknown'') (br_Attempts (lo_Receipt obs)) \<and> \<not> lo_Bounded obs
    \<and> bo_MissingCount (batch_outcome_of prefix now obs) = None \<and> bo_RetryCommand (batch_outcome_of prefix now obs) = []"
proof -
  have "gathered [] ([], [])" by (simp add: gathered_def)
  from gathered_fold [OF this, of as request] obtain cs m where f: "fold (evidence_turn request) as ([], []) = (cs, m)" and g: "gathered as (cs, m)"
    by (cases "fold (evidence_turn request) as ([], [])") auto
  have obs: "lo_Workers obs = sortedBatchWorkers m" "br_Attempts (lo_Receipt obs) = cs" "\<not> lo_Bounded obs"
    by (simp_all add: obs_def unverifiedRecoveryEvidence_def f [unfolded as_def])
  have ids: "map_ok m" "\<forall>i w. map_of m i = Some w \<longrightarrow> wo_ID w = i" using g by (simp_all add: gathered_def)
  have "list_all (\<lambda>w. wo_Status w = ''not_observed'') (sortedBatchWorkers m)"
  proof -
    have "distinct (map fst m)" using ids(1) by (simp add: map_ok_def strict_sorted_iff)
    then have "map_of m (fst e) = Some (snd e)" if "e \<in> set m" for e using map_of_is_SomeI [of m "fst e" "snd e"] that by simp
    moreover have "\<forall>i w. map_of m i = Some w \<longrightarrow> wo_ID w = i \<and> wo_Status w = ''not_observed''" using g unfolding gathered_def by blast
    ultimately have "wo_Status (snd e) = ''not_observed''" if "e \<in> set m" for e using that by blast
    then show ?thesis by (auto simp: list_all_iff sortedBatchWorkers_def)
  qed
  moreover have "bo_MissingCount (batch_outcome_of prefix now obs) = None" using obs(3) by (simp add: batch_outcome_counts(4))
  moreover from this have "bo_RetryCommand (batch_outcome_of prefix now obs) = []" using retry_command_bounded [of prefix now obs] by auto
  ultimately show ?thesis using workers_by_id [OF ids] g obs by (simp add: gathered_def)
qed

end
