(* ===== verification/RecoveryProperties.thy ===== *)
theory RecoveryProperties
  imports Recovery BatchCacheProperties OutcomeProperties DispatchLedger
begin

text \<open>
  What recovery guarantees: resuming only looks, and a retry asks for exactly what is missing, once everything that was sent
  before is known to have ended.
\<close>

section \<open>The ledger of a recovery\<close>

text \<open>What recovery relies on: a load without an error is of the request that was asked for, and the ledger only moves on.\<close>

locale recovery_ledger =
  fixes load :: "string \<Rightarrow> 'g \<Rightarrow> (launch_snapshot \<times> failure option) \<times> 'g" and before :: "'g \<Rightarrow> 'g \<Rightarrow> bool"
  assumes load_own: "load i g = ((s, None), g') \<Longrightarrow> br_RequestID (sn_Receipt s) = i"
    and load_before: "load i g = (x, g') \<Longrightarrow> before g g'"
    and before_refl: "before g g"

lemma merged_request: "br_RequestID (sn_Receipt (merged_snapshot s cached e)) = br_RequestID (sn_Receipt s)"
  by (simp add: merged_snapshot_def mergeUnknownCache_def)

lemma named_request: "br_RequestID (sn_Receipt s) = i \<Longrightarrow> br_RequestID (sn_Receipt (named_snapshot i s)) = i"
  by (simp add: named_snapshot_def)

text \<open>What an inspection leaves as it was.\<close>

definition restored :: "'g recovery_env \<Rightarrow> 'g world \<Rightarrow> 'g world \<Rightarrow> bool" where
  "restored R w w' \<longleftrightarrow> wd_cache w' = wd_cache w \<or> (\<exists>r e. RestoreBatch (rv_fs R) (rv_dir R) r (wd_cache w) = (e, wd_cache w'))"

lemma inspect_frame:
  assumes "inspect R look s w = ((s', obs, err), w')"
  shows "s' = s \<and> wd_dispatch w' = wd_dispatch w \<and> wd_ledger w' = wd_ledger w \<and> restored R w w'"
proof -
  let ?r = "lo_Receipt (fst (look (wd_calls (call (InspectLaunch s) w))))"
  let ?q = "if br_RequestID ?r = [] then sn_Receipt s else ?r"
  obtain e c where r: "RestoreBatch (rv_fs R) (rv_dir R) ?q (wd_cache w) = (e, c)" by (metis prod.collapse)
  then have "s' = s \<and> wd_dispatch w' = wd_dispatch w \<and> wd_ledger w' = wd_ledger w \<and> wd_cache w' = c"
    using assms by (auto simp: inspect_def call_def Let_def split: prod.splits if_splits)
  with r show ?thesis by (auto simp: restored_def)
qed

lemma observe_loaded_frame:
  assumes "observe_loaded R look i cached cacheErr s loadErr w = ((s', obs, err), w')"
  shows "wd_dispatch w' = wd_dispatch w \<and> wd_ledger w' = wd_ledger w \<and> restored R w w'
    \<and> (err = None \<longrightarrow> loadErr = None \<and> s' = merged_snapshot (named_snapshot i s) cached cacheErr)"
proof (cases "inspect R look (merged_snapshot (named_snapshot i s) cached cacheErr) w = ((s', obs, err), w') \<and> loadErr = None")
  case True
  then show ?thesis using inspect_frame by blast
next
  case False
  then have "w' = w" "err = None \<Longrightarrow> loadErr = None \<and> s' = merged_snapshot (named_snapshot i s) cached cacheErr"
    using assms unfolding observe_loaded_def Let_def by (auto split: if_splits)
  then show ?thesis by (simp add: restored_def)
qed

lemma LoadBatch_files: "LoadBatch E dir i s = (x, s') \<Longrightarrow> fst s' = fst s"
  by (auto simp: LoadBatch_def dest: read_file_files split: if_splits prod.splits fs_read.splits)

text \<open>A cache directory of which nothing is lost: every text is still there, or moved, or a receipt that has advanced.\<close>

definition kept :: "files \<Rightarrow> files \<Rightarrow> bool" where
  "kept m m' \<longleftrightarrow> (\<forall>q b. m q = Some b \<longrightarrow> m' q = Some b \<or> (\<exists>p. m p = None \<and> m' p = Some b)
     \<or> (\<exists>old r. decodeBatchReceipt b = Inr old \<and> batchCacheCanAdvance old r \<and> m' q = Some (receipt_text r)))"

lemma kept_refl [simp]: "kept m m"
  by (simp add: kept_def)

lemma RestoreBatch_kept: "RestoreBatch E dir r s = (e, s') \<Longrightarrow> kept (fst s) (fst s')"
  using RestoreBatch_text [of E dir r "fst s" "snd s" e "fst s'" "snd s'"] unfolding kept_def prod.collapse by blast

context recovery_ledger
begin

lemma request_frame:
  assumes "observe_request R i w = ((s, obs, err), w')" "rv_load R = Some load"
  shows "wd_dispatch w' = wd_dispatch w" "before (wd_ledger w) (wd_ledger w')" "kept (fst (wd_cache w)) (fst (wd_cache w'))"
    "err = None \<Longrightarrow> br_RequestID (sn_Receipt s) = i"
proof -
  have "wd_dispatch w' = wd_dispatch w \<and> before (wd_ledger w) (wd_ledger w') \<and> kept (fst (wd_cache w)) (fst (wd_cache w'))
      \<and> (err = None \<longrightarrow> br_RequestID (sn_Receipt s) = i)"
  proof (cases "rv_observe R")
    case None
    then show ?thesis using assms by (auto simp: observe_request_def before_refl)
  next
    case (Some look)
    obtain cached ce cache where c: "LoadBatch (rv_fs R) (rv_dir R) i (wd_cache w) = ((cached, ce), cache)" by (metis prod.collapse)
    obtain s1 le g where l: "load i (wd_ledger w) = ((s1, le), g)" by (metis prod.collapse)
    note files = LoadBatch_files [OF c]
    show ?thesis
    proof (cases "ce = None \<and> \<not> batchScopeMatches (br_Plan cached) (rv_scope R)")
      case True
      then show ?thesis using assms files by (auto simp: observe_request_def Some c Let_def before_refl)
    next
      case False
      let ?w = "w\<lparr>wd_cache := cache, wd_ledger := g\<rparr>"
      have run: "observe_loaded R look i cached ce s1 le ?w = ((s, obs, err), w')"
        using assms False by (auto simp: observe_request_def Some c l Let_def)
      note f = observe_loaded_frame [OF run]
      then have "kept (fst (wd_cache w)) (fst (wd_cache w'))"
        using files RestoreBatch_kept [of "rv_fs R" "rv_dir R" _ cache _ "wd_cache w'"] by (auto simp: restored_def)
      moreover have "br_RequestID (sn_Receipt s) = i" if "err = None"
        using f that load_own [of i "wd_ledger w" s1 g] l by (auto simp: merged_request named_request)
      ultimately show ?thesis using f load_before [OF l] by simp
    qed
  qed
  then show "wd_dispatch w' = wd_dispatch w" "before (wd_ledger w) (wd_ledger w')" "kept (fst (wd_cache w)) (fst (wd_cache w'))"
    "err = None \<Longrightarrow> br_RequestID (sn_Receipt s) = i" by blast+
qed

lemma Resume_frame:
  assumes "Resume R i w = (x, w')" "rv_load R = Some load"
  shows "wd_dispatch w' = wd_dispatch w \<and> before (wd_ledger w) (wd_ledger w') \<and> kept (fst (wd_cache w)) (fst (wd_cache w'))"
proof -
  obtain s obs err w1 where o: "observe_request R i (call (LockRequest i) w) = ((s, obs, err), w1)" by (metis prod.collapse)
  note f = request_frame [OF o assms(2)]
  show ?thesis using assms(1) f
    by (auto simp: Resume_def o [unfolded call_def] outcome_step_def call_def Let_def before_refl split: if_splits option.splits)
qed

end

interpretation s3_recovery: recovery_ledger "Load E l" suffix
  using Load_evidence Load_suffix by unfold_locales (fastforce, blast, simp)

text \<open>The same contract, with the stronger order of a ledger that is only read.\<close>

definition reads_only :: "ledger_call list \<Rightarrow> ledger_call list \<Rightarrow> bool" where
  "reads_only h h' \<longleftrightarrow> (\<exists>cs. h' = cs @ h \<and> list_all (\<lambda>c. \<not> writing c) cs)"

interpretation s3_reading: recovery_ledger "Load E l" reads_only
  using Load_evidence Load_reads by unfold_locales (fastforce, fastforce simp: reads_to_def reads_only_def, simp add: reads_only_def)

text \<open>C39.  Resuming only looks.  Over the ledger in S3 a resume sends no request for machines and writes nothing to S3; in the
  local cache every text survives: it stays, is moved to a new name, or was a receipt and has advanced.\<close>

theorem resume_only_looks:
  assumes "Resume R i w = (x, w')" "rv_load R = Some (Load E l)"
  shows "wd_dispatch w' = wd_dispatch w \<and> kept (fst (wd_cache w)) (fst (wd_cache w'))
    \<and> (\<exists>cs. wd_ledger w' = cs @ wd_ledger w \<and> list_all (\<lambda>c. \<not> writing c) cs)"
  using s3_reading.Resume_frame [OF assms] s3_recovery.Resume_frame [OF assms] by (auto simp: reads_only_def)

section \<open>Retrying\<close>

lemma retry_decision_frame:
  assumes "retry_decision R m i after s obs w = (x, w')"
  shows "wd_dispatch w' = wd_dispatch w \<and> wd_ledger w' = wd_ledger w \<and> wd_cache w' = wd_cache w"
  using assms unfolding retry_decision_def Let_def
  by (auto simp: call_def split: if_splits sum.splits)

text \<open>What the decision to ask for more has seen.\<close>

lemma retry_decision_go:
  assumes "retry_decision R m i after s obs w = (Inr c, w')"
  obtains missing created t where "lo_Bounded obs" "MissingCapacity (sn_Receipt s) after = Inr missing" "missing \<noteq> 0"
    "checkAllocation (br_Plan (sn_Receipt s)) (rv_clock R (TickClock # wd_calls w)) = Inr ()" "requireExpiryManifest m = Inr ()"
    "lp_RequestedCount (br_Plan (sn_Receipt s)) \<le> retry_limit (rv_scope R)" "rv_dispatcher R \<noteq> None"
    "Timestamp t = Inr created" "c = successor i (sn_Receipt s) after missing created"
  using assms unfolding retry_decision_def Let_def
  by (auto simp: call_def split: if_splits sum.splits)

lemma Timestamp_parses: "Timestamp t = Inr s \<Longrightarrow> parse_rfc3339nano s \<noteq> None"
  using ts.dec_enc [of t s] by (cases "parse_rfc3339nano s") (simp_all add: ParseTimestamp_def)

lemma AttemptID_ok: "ValidRequest i \<Longrightarrow> ValidRequest p \<Longrightarrow> AttemptID i p = Inr (attempt_id i p)"
  by (simp add: attempt_id_def AttemptID_def)

text \<open>The successor of a finished receipt is a valid receipt.\<close>

lemma successor_valid:
  assumes "MissingCapacity r after = Inr missing" "missing \<noteq> 0" "br_RequestID r = i" "Timestamp t = Inr created"
  shows "Receipt_Validate (successor i r after missing created) = Inr ()"
proof -
  have v: "Receipt_Validate r = Inr ()" "ValidRequest after" using assms(1) by (auto simp: MissingCapacity_def Let_def split: sum.splits if_splits)
  note spec = MissingCapacity_spec [OF assms(1)] and ok = Receipt_Validate_ok [OF v(1)]
  let ?a = "\<lparr>ar_AttemptID = attempt_id i after, ar_ParentID = after, ar_ClientToken = attemptToken (br_PlanSHA256 r) (attempt_id i after) missing,
        ar_RequestedCount = missing, ar_CreatedAt = created, ar_State = ''prepared'', ar_FleetID = [], ar_InstanceIDs = Some [], ar_Errors = Some []\<rparr>"
  let ?s = "successor i r after missing created"
  have s: "?s = add_attempt r ?a" by (simp add: successor_def Let_def)
  have "AttemptID i after = Inr (attempt_id i after)" using AttemptID_ok ok(3) assms(3) v(2) by simp
  then have "attempt_pinned r (length (concat (map ids_of (br_Attempts r)))) (ar_AttemptID (last (br_Attempts r))) ?a"
    using spec assms(2,3) Timestamp_parses [OF assms(4)] by (simp add: attempt_pinned_def)
  then have "attempts_ok r [] [] [] (br_Attempts r @ [?a])"
    using attempts_ok_snoc [OF ok(1), of ?a] spec ok(2) by (simp add: ids_of_def elems_def)
  then have "attempts_ok ?s [] [] [] (br_Attempts ?s)"
    using attempts_ok_cong [of ?s r] unfolding s by (simp add: add_attempt_def)
  then show ?thesis using v(1) unfolding s by (simp add: Receipt_Validate_def add_attempt_def split: if_splits)
qed

text \<open>A loader that answers with records of the request it was asked for.  It is a ledger of a recovery, whatever it
  keeps.\<close>

definition names_request :: "(string \<Rightarrow> 'g \<Rightarrow> (launch_snapshot \<times> failure option) \<times> 'g) \<Rightarrow> bool" where
  "names_request load \<longleftrightarrow> (\<forall>i g s g'. load i g = ((s, None), g') \<longrightarrow> br_RequestID (sn_Receipt s) = i)"

lemma s3_names_request: "names_request (Load E l)"
  unfolding names_request_def using s3_recovery.load_own by blast

lemma names_recovery: "names_request load \<Longrightarrow> recovery_ledger load (\<lambda>_ _. True)"
  by unfold_locales (auto simp: names_request_def)

lemmas named_observe = recovery_ledger.request_frame [OF names_recovery]
  and named_Resume = recovery_ledger.Resume_frame [OF names_recovery]

lemma after_dispatch_frame:
  assumes "after_dispatch R i out obs x w = (y, w')" "names_request load" "rv_load R = Some load"
  shows "wd_dispatch w' = wd_dispatch w"
proof (cases "\<not> as_Dispatched (fst x) \<and> recoverablePreparationConflict (snd x)")
  case True
  obtain z w1 where r: "Resume R i w = (z, w1)" by fastforce
  then show ?thesis using assms(1) True named_Resume [OF assms(2) r assms(3)]
    by (auto simp: after_dispatch_def split: prod.splits)
next
  case False
  then show ?thesis using assms(1) by (auto simp: after_dispatch_def outcome_step_def call_def Let_def split: prod.splits)
qed

text \<open>C40.  A retry asks for exactly what is missing, and only after everything before it has ended, over any loader that answers for
  the request it was asked for, such as the ledger in S3 (\<open>s3_names_request\<close>).  If a retry reaches the
  dispatcher at all, the shared records were loaded without an error and the observation was bounded and without an error; the
  named attempt is the last one and every attempt is finished; the window was still open and the count within the limit.  The
  dispatched receipt is the shared one with a single new attempt, the determined successor; it is valid, and the machines
  already obtained and those now asked for are together exactly the requested count.\<close>

theorem retry_authorized:
  assumes "RetryMissing R m p i after w = (x, w')" "rv_load R = Some load" "names_request load" "wd_dispatch w' \<noteq> wd_dispatch w"
  shows "\<exists>s obs w2 c d. rv_lock R (LockRequest i # wd_calls w) = None
    \<and> observe_request R i (call (LockRequest i) w) = ((s, obs, None), w2) \<and> lo_Bounded obs
    \<and> list_all terminal (br_Attempts (sn_Receipt s)) \<and> after = ar_AttemptID (last (br_Attempts (sn_Receipt s)))
    \<and> checkAllocation (br_Plan (sn_Receipt s)) (rv_clock R (TickClock # TickClock # wd_calls w2)) = Inr ()
    \<and> requireExpiryManifest m = Inr () \<and> lp_RequestedCount (br_Plan (sn_Receipt s)) \<le> retry_limit (rv_scope R)
    \<and> Receipt_Validate c = Inr () \<and> butlast (br_Attempts c) = br_Attempts (sn_Receipt s) \<and> br_Plan c = br_Plan (sn_Receipt s)
    \<and> AttemptID i after = Inr (ar_AttemptID (last (br_Attempts c))) \<and> ar_State (last (br_Attempts c)) = ''prepared''
    \<and> int (length (FulfilledIDs (sn_Receipt s))) + ar_RequestedCount (last (br_Attempts c)) = lp_RequestedCount (br_Plan c)
    \<and> rv_dispatcher R = Some d
    \<and> wd_dispatch w' = snd (snd (Dispatch (fst d) (snd d) m p c (wd_ledger w2) (wd_dispatch w)))"
proof -
  let ?w = "call (LockRequest i) w"
  obtain s obs err w1 where o: "observe_request R i ?w = ((s, obs, err), w1)" by (metis prod.collapse)
  note frame = named_observe [OF assms(3) o assms(2)]
  obtain out w2 where out: "outcome_step R obs w1 = (out, w2)" by fastforce
  have w2: "wd_dispatch w2 = wd_dispatch w1" "wd_calls w2 = TickClock # wd_calls w1" "wd_ledger w2 = wd_ledger w1" using out by (auto simp: outcome_step_def call_def Let_def)
  have w: "wd_dispatch w2 = wd_dispatch w" using frame(1) w2(1) by (simp add: call_def)
  obtain y w3 where dec: "retry_decision R m i after s obs w2 = (y, w3)" by fastforce
  have w3: "wd_dispatch w3 = wd_dispatch w" "wd_ledger w3 = wd_ledger w1" using retry_decision_frame [OF dec] w w2(3) by simp_all
  have valid: "ValidRequest i" "ValidRequest after" "err = None" "isl y = False"
    using assms(1,4) w w3(1) by (auto simp: RetryMissing_def o [unfolded call_def] out dec call_def Let_def split: if_splits option.splits sum.splits)
  then obtain c where c: "y = Inr c" by (cases y) auto
  obtain missing created t where go: "lo_Bounded obs" "MissingCapacity (sn_Receipt s) after = Inr missing" "missing \<noteq> 0"
    "checkAllocation (br_Plan (sn_Receipt s)) (rv_clock R (TickClock # wd_calls w2)) = Inr ()" "requireExpiryManifest m = Inr ()"
    "lp_RequestedCount (br_Plan (sn_Receipt s)) \<le> retry_limit (rv_scope R)" "rv_dispatcher R \<noteq> None"
    "Timestamp t = Inr created" "c = successor i (sn_Receipt s) after missing created"
    using retry_decision_go [OF dec [unfolded c]] by metis
  obtain d where d: "rv_dispatcher R = Some d" using go(7) by blast
  obtain z w4 where run: "run_dispatch d m p c (call UnlockRequest w3) = (z, w4)" by fastforce
  have lock: "rv_lock R (wd_calls ?w) = None" using assms(1,4) valid by (auto simp: RetryMissing_def call_def Let_def split: option.splits)
  have "after_dispatch R i out obs z w4 = (x, w')"
    using assms(1) valid lock by (simp add: RetryMissing_def o out dec c d run Let_def)
  then have "wd_dispatch w' = wd_dispatch w4" by (rule after_dispatch_frame [OF _ assms(3,2)])
  then have "wd_dispatch w' = snd (snd (Dispatch (fst d) (snd d) m p c (wd_ledger w1) (wd_dispatch w)))"
    using run w3 by (auto simp: run_dispatch_def call_def split: prod.splits)
  moreover have "br_RequestID (sn_Receipt s) = i" using frame(4) valid(3) by simp
  then have "Receipt_Validate c = Inr ()" unfolding go(9) by (rule successor_valid [OF go(2,3) _ go(8)])
  moreover have "butlast (br_Attempts c) = br_Attempts (sn_Receipt s)" "br_Plan c = br_Plan (sn_Receipt s)"
    "ar_AttemptID (last (br_Attempts c)) = attempt_id i after" "ar_State (last (br_Attempts c)) = ''prepared''"
    "ar_RequestedCount (last (br_Attempts c)) = missing"
    by (simp_all add: go(9) successor_def add_attempt_def Let_def)
  ultimately show ?thesis
    using lock [unfolded call_def, simplified] w2(2) o valid(3) go(1,4-6) MissingCapacity_spec [OF go(2)] d AttemptID_ok [OF valid(1,2)]
    by (intro exI [of _ s] exI [of _ obs] exI [of _ w1] exI [of _ c] exI [of _ d]) (auto simp: butlast_append)
qed

end
