(* ===== verification/BatchCacheExample.thy ===== *)
theory BatchCacheExample
  imports BatchCacheProperties LedgerExample
begin

text \<open>The theorems on the receipt cache, in a directory in which every system call succeeds.\<close>

definition ex_disk_env :: fs_env where
  "ex_disk_env = \<lparr>fe_fails = (\<lambda>h. False), fe_random = (\<lambda>h. ''1''), fe_written = (\<lambda>h. 0), fe_leftover = (\<lambda>b. zero_receipt)\<rparr>"

abbreviation ex_path :: string where
  "ex_path \<equiv> batch_path ''/cache'' ex_request"

abbreviation ex_old_receipt :: batch_receipt where
  "ex_old_receipt \<equiv> ex_receipt [ex_attempt]"

abbreviation ex_new_receipt :: batch_receipt where
  "ex_new_receipt \<equiv> ex_receipt [ex_complete]"

lemma ex_receipt_soft:
  assumes "soft_elements (map e_attempt as)" "list_all (\<lambda>a. int64 (ar_RequestedCount a)) as"
  shows "plain_receipt (ex_receipt as)"
  using assms
  by (simp add: plain_receipt_def e_receipt_def ex_receipt_def ex_plan_sized ex_plan_soft soft_hash soft_hex soft_int int64_def Digest_def)
    (simp add: soft_def plain_def)

lemma ex_plain: "plain_receipt ex_old_receipt" "plain_receipt ex_new_receipt"
  by (rule ex_receipt_soft; simp add: e_attempt_def ex_complete_def ex_attempt_def e_strings_def e_slice_def omit_empty_def soft_int
        ex_attempt_id_def soft_hex attemptToken_def int64_def; simp add: soft_def plain_def ex_created_def)+

lemma ex_decoded: "decodeBatchReceipt (receipt_text ex_old_receipt) = Inr ex_old_receipt"
  by (rule decode_back [OF ex_plain(1) ex_attempt_receipt_ok])

lemma ex_advances: "batchCacheCanAdvance ex_old_receipt ex_new_receipt"
  by (simp add: advance_nth ex_receipt_def can_advance_iff terminal_def) (simp add: ex_complete_def ex_attempt_def ids_of_def elems_def)

lemma ex_request_id [simp]: "br_RequestID (ex_receipt as) = ex_request"
  by (simp add: ex_receipt_def)

definition ex_dir :: files where
  "ex_dir = [ex_path \<mapsto> receipt_text ex_old_receipt]"

lemma ex_temp: "''/cache/.batch-1'' \<noteq> ex_path" "backup_prefix ''/cache'' ex_request @ ''1'' \<noteq> ex_path"
  using path_no_temp [OF ex_request_valid, of "''/cache''" "''1''"] by (simp_all add: backup_prefix_def batch_path_def)

lemmas disk_steps = create_temp_def fs_step_def write_temp_def plain_step_def rename_file_def remove_file_def read_file_def ex_disk_env_def Let_def

definition ex_stored :: files where
  "ex_stored = [ex_path \<mapsto> receipt_text ex_new_receipt]"

lemma ex_install:
  assumes "m ''/cache/.batch-1'' = None"
  shows "\<exists>h'. install_text ex_disk_env ''/cache'' ex_path b (m, h) = (None, m(ex_path \<mapsto> b), h')"
  using ex_temp(1) assms by (auto simp: install_text_def disk_steps fun_upd_twist fun_upd_idem)

lemma ex_save: "\<exists>h. SaveBatch ex_disk_env ''/cache'' ex_new_receipt (ex_dir, []) = (None, ex_stored, h)"
proof -
  have rd: "read_file ex_disk_env ex_path (ex_dir, []) = (Content (receipt_text ex_old_receipt), ex_dir, [ReadFile ex_path])"
    by (simp add: disk_steps ex_dir_def)
  have "ex_dir ''/cache/.batch-1'' = None" using ex_temp(1) by (simp add: ex_dir_def)
  from ex_install [of ex_dir "receipt_text ex_new_receipt" "[ReadFile ex_path]", OF this] show ?thesis
    by (auto simp: SaveBatch_def ex_complete_ok rd ex_decoded ex_advances Let_def) (simp add: ex_dir_def ex_stored_def)
qed

theorem cache_never_regresses_witness:
  "cache_run ''/cache'' ex_dir ex_stored
   \<and> (\<exists>b' new. ex_stored ex_path = Some b' \<and> decodeBatchReceipt b' = Inr new \<and> batchCacheCanAdvance ex_old_receipt new)"
proof -
  obtain h where "SaveBatch ex_disk_env ''/cache'' ex_new_receipt (ex_dir, []) = (None, ex_stored, h)" using ex_save by blast
  then have run: "cache_run ''/cache'' ex_dir ex_stored" by (rule cache_run.save [OF cache_run.start _ ex_plain(2)])
  have "ex_dir ex_path = Some (receipt_text ex_old_receipt)" by (simp add: ex_dir_def)
  from cache_never_regresses [OF run this ex_decoded] run show ?thesis by blast
qed

section \<open>A damaged receipt\<close>

abbreviation ex_backup :: string where
  "ex_backup \<equiv> backup_prefix ''/cache'' ex_request @ ''1''"

definition ex_damaged :: files where
  "ex_damaged = [ex_path \<mapsto> ''x'']"

lemma ex_unreadable: "parse_receipt ''x'' = None" "legacy_text ''x'' = False"
proof -
  have "json_text ''x'' = None"
    by (simp add: json_text_def eval_nat_numeral skip_space_def json_space_def number_lit_def int_part_def digits_part_def is_digit_def in_range_def)
  then show "parse_receipt ''x'' = None" "legacy_text ''x'' = False" by (simp_all add: parse_receipt_def legacy_text_def)
qed

lemma ex_restore: "\<exists>h. RestoreBatch ex_disk_env ''/cache'' ex_new_receipt (ex_damaged, []) = (None, [ex_backup \<mapsto> ''x'', ex_path \<mapsto> receipt_text ex_new_receipt], h)"
proof -
  let ?m = "[ex_backup \<mapsto> ''x'']"
  have save: "\<exists>h'. SaveBatch ex_disk_env ''/cache'' ex_new_receipt (?m, h) = (None, ?m(ex_path \<mapsto> receipt_text ex_new_receipt), h')" for h
  proof -
    have "?m ''/cache/.batch-1'' = None" "?m ex_path = None" using ex_temp(2) by (auto simp: backup_prefix_def ex_request_def)
    then show ?thesis using ex_install [of ?m "receipt_text ex_new_receipt" "ReadFile ex_path # h"]
      by (auto simp: SaveBatch_def ex_complete_ok) (auto simp: read_file_def ex_disk_env_def Let_def)
  qed
  have d: "ex_damaged ex_path = Some ''x''" "ex_damaged ex_backup = None" using ex_temp(2) by (simp_all add: ex_damaged_def)
  let ?h1 = "[ReadFile ex_path]"
  let ?h2 = "CreateTemp (backup_prefix ''/cache'' ex_request) # ?h1"
  let ?h4 = "Rename ex_path ex_backup # CloseFile ex_backup # ?h2"
  have "read_file ex_disk_env ex_path (ex_damaged, []) = (Content ''x'', ex_damaged, ?h1)" using d by (simp add: disk_steps)
  moreover have "create_temp ex_disk_env (backup_prefix ''/cache'' ex_request) (ex_damaged, ?h1) = (Some ex_backup, ex_damaged(ex_backup \<mapsto> []), ?h2)"
    using d by (simp add: disk_steps)
  moreover have "plain_step ex_disk_env e (m, h) = (True, m, e # h)" for e m h by (simp add: disk_steps)
  moreover have "rename_file ex_disk_env ex_path ex_backup (ex_damaged(ex_backup \<mapsto> []), CloseFile ex_backup # ?h2) = (True, ?m, ?h4)"
    using d ex_temp(2) by (auto simp: disk_steps ex_damaged_def)
  ultimately have "RestoreBatch ex_disk_env ''/cache'' ex_new_receipt (ex_damaged, [])
      = SaveBatch ex_disk_env ''/cache'' ex_new_receipt (?m, SyncDir # Chmod ex_backup # ?h4)"
    by (simp add: RestoreBatch_def ex_complete_ok decodeBatchReceipt_def ex_unreadable Let_def)
  with save show ?thesis by metis
qed

theorem restore_keeps_bytes_witness:
  "(\<exists>h. RestoreBatch ex_disk_env ''/cache'' ex_new_receipt (ex_damaged, []) = (None, [ex_backup \<mapsto> ''x'', ex_path \<mapsto> receipt_text ex_new_receipt], h))
   \<and> (\<exists>backup. [ex_backup \<mapsto> ''x'', ex_path \<mapsto> receipt_text ex_new_receipt] backup = Some ''x'')"
proof -
  obtain h where h: "RestoreBatch ex_disk_env ''/cache'' ex_new_receipt (ex_damaged, [])
      = (None, [ex_backup \<mapsto> ''x'', ex_path \<mapsto> receipt_text ex_new_receipt], h)" using ex_restore by blast
  have "ex_damaged ex_path = Some ''x''" by (simp add: ex_damaged_def)
  from restore_keeps_bytes [OF h this]
  have "\<exists>backup. [ex_backup \<mapsto> ''x'', ex_path \<mapsto> receipt_text ex_new_receipt] backup = Some ''x''"
    by (simp add: decodeBatchReceipt_def ex_unreadable del: fun_upd_apply) blast
  with h show ?thesis by blast
qed

theorem save_then_load_witness:
  "\<exists>s'. fst (SaveBatch ex_disk_env ''/cache'' ex_new_receipt (ex_dir, [])) = None
    \<and> fst (LoadBatch ex_disk_env ''/cache'' ex_request s') = (ex_new_receipt, None)"
proof -
  obtain h where h: "SaveBatch ex_disk_env ''/cache'' ex_new_receipt (ex_dir, []) = (None, ex_stored, h)" using ex_save by blast
  have "\<not> fe_fails ex_disk_env x" for x by (simp add: ex_disk_env_def)
  from save_then_load [OF h ex_plain(2) this] h show ?thesis by auto
qed

end
