(* ===== verification/RecoveryExample.thy ===== *)
theory RecoveryExample
  imports RecoveryProperties BatchCacheExample DispatchExample
begin

text \<open>
  The theorems on outcomes and recovery on a concrete request: three machines were asked for, two came, and the request is
  resumed and then retried with the last one missing.
\<close>

section \<open>The partial request\<close>

definition ex_partial :: launch_observation where
  "ex_partial = \<lparr>lo_Receipt = ex_new_receipt, lo_Workers = [], lo_Errors = [], lo_Bounded = True, lo_Historical = []\<rparr>"

lemma ex_new_receipt_fields: "br_Attempts ex_new_receipt = [ex_complete]" "br_Plan ex_new_receipt = ex_plan"
    "br_PlanSHA256 ex_new_receipt = Digest ex_plan"
  by (simp_all add: ex_receipt_def)

lemma ex_complete_terminal: "terminal ex_complete" "ar_AttemptID ex_complete = ex_attempt_id" "ar_State ex_complete = ''complete''"
  by (simp_all add: terminal_def ex_complete_def ex_attempt_def)

theorem outcome_counts_exact_witness:
  "Receipt_Validate (lo_Receipt ex_partial) = Inr () \<and> 0 \<le> bo_FulfilledCount (batch_outcome_of [] 0 ex_partial)
   \<and> bo_FulfilledCount (batch_outcome_of [] 0 ex_partial) \<le> 3
   \<and> bo_MissingCount (batch_outcome_of [] 0 ex_partial) = Some (3 - bo_FulfilledCount (batch_outcome_of [] 0 ex_partial))"
proof -
  have r: "lo_Receipt ex_partial = ex_new_receipt" "lo_Bounded ex_partial" by (simp_all add: ex_partial_def)
  have "\<not> prepared_only ex_new_receipt" by (simp add: prepared_only_def ex_new_receipt_fields ex_complete_terminal)
  with outcome_counts_exact [of "[]" 0 ex_partial] r ex_complete_ok ex_complete_terminal show ?thesis
    by (simp add: ex_new_receipt_fields ex_plan_fields)
qed

text \<open>Two of three machines are ready and one is missing.\<close>

definition ex_two_ready :: batch_outcome where
  "ex_two_ready = zero_outcome\<lparr>bo_Status := ''partial_capacity'', bo_RequestedCount := 3, bo_FulfilledCount := 2, bo_MissingCount := Some 1\<rparr>"

theorem exit_codes_exact_witness:
  "bs_ExitCode (completeBatchResult False ex_two_ready None False) = 3 \<and> \<not> bs_OK (completeBatchResult False ex_two_ready None False)
   \<and> 0 < bo_FulfilledCount ex_two_ready"
proof -
  have e: "bs_ExitCode (completeBatchResult False ex_two_ready None False) = 3"
    by (simp add: completeBatchResult_def verdict_def ex_two_ready_def zero_outcome_def ExitPartial_def Let_def)
  then have "\<not> bs_OK (completeBatchResult False ex_two_ready None False)"
    using exit_codes_exact [of False ex_two_ready None False] by simp
  with e show ?thesis by (simp add: ex_two_ready_def)
qed

section \<open>Resuming\<close>

abbreviation ex_now :: gotime where
  "ex_now \<equiv> 63869077333120000000"

definition ex_recovery :: "'g ledger_ops \<Rightarrow> (string \<Rightarrow> 'g \<Rightarrow> (launch_snapshot \<times> failure option) \<times> 'g) \<Rightarrow> 'g recovery_env" where
  "ex_recovery L load = \<lparr>rv_scope = ex_config, rv_prefix = [], rv_lock = (\<lambda>h. None), rv_clock = (\<lambda>h. ex_now),
     rv_observe = Some (\<lambda>h. (ex_partial, None)), rv_load = Some load, rv_fs = ex_disk_env, rv_dir = ''/cache'',
     rv_dispatcher = Some (ex_env_dispatch\<lparr>de_nil := True\<rparr>, L)\<rparr>"

definition ex_world :: "'g \<Rightarrow> 'g world" where
  "ex_world g = \<lparr>wd_ledger = g, wd_cache = (Map.empty, []), wd_calls = [], wd_dispatch = []\<rparr>"

abbreviation ex_s3_recovery :: "ledger_call list recovery_env" where
  "ex_s3_recovery \<equiv> ex_recovery (s3_ops ex_s3 ex_store_ledger) (Load ex_s3 ex_store_ledger)"

theorem resume_only_looks_witness:
  "wd_dispatch (snd (Resume ex_s3_recovery ex_request (ex_world []))) = []
   \<and> list_all (\<lambda>c. \<not> writing c) (wd_ledger (snd (Resume ex_s3_recovery ex_request (ex_world []))))"
proof -
  obtain x w' where r: "Resume ex_s3_recovery ex_request (ex_world []) = (x, w')" by fastforce
  have "rv_load ex_s3_recovery = Some (Load ex_s3 ex_store_ledger)" by (simp add: ex_recovery_def)
  from resume_only_looks [OF r this] r show ?thesis by (auto simp: ex_world_def)
qed

section \<open>Retrying\<close>

text \<open>A ledger that holds the partial request.\<close>

definition ex_holds :: "string \<Rightarrow> unit \<Rightarrow> (launch_snapshot \<times> failure option) \<times> unit" where
  "ex_holds i g = (if i = ex_request then (empty_snapshot\<lparr>sn_Receipt := ex_new_receipt\<rparr>, None) else (empty_snapshot, Some NotFound), g)"

abbreviation ex_retry_env :: "unit recovery_env" where
  "ex_retry_env \<equiv> ex_recovery ex_granting ex_holds"

lemma ex_holds_names: "names_request ex_holds"
  by (simp add: names_request_def ex_holds_def)

lemma ex_batch_scope: "batchScopeMatches ex_plan ex_config"
  by (simp add: batchScopeMatches_def ex_plan_fields) (simp add: ex_config_def)

lemma ex_restore_empty: "\<exists>c. RestoreBatch ex_disk_env ''/cache'' ex_new_receipt (Map.empty, h) = (None, c)"
proof -
  have rd: "read_file ex_disk_env ex_path (Map.empty, h) = (NotExist, Map.empty, ReadFile ex_path # h)" for h
    by (simp add: read_file_def ex_disk_env_def Let_def)
  have "\<exists>c. SaveBatch ex_disk_env ''/cache'' ex_new_receipt (Map.empty, h) = (None, c)" for h
    using ex_install [of Map.empty "receipt_text ex_new_receipt" "ReadFile ex_path # h"] by (auto simp: SaveBatch_def ex_complete_ok rd)
  then show ?thesis by (auto simp: RestoreBatch_def ex_complete_ok rd)
qed

abbreviation ex_locked :: "unit world" where
  "ex_locked \<equiv> call (LockRequest ex_request) (ex_world ())"

lemma ex_observed: "\<exists>w1. observe_request ex_retry_env ex_request ex_locked
    = ((empty_snapshot\<lparr>sn_Receipt := ex_new_receipt\<rparr>, ex_partial, None), w1)"
proof -
  have load: "LoadBatch ex_disk_env ''/cache'' ex_request (Map.empty, []) = ((zero_receipt, Some (Failure ''receipt_unavailable'')), Map.empty, [ReadFile ex_path])"
    by (simp add: LoadBatch_def read_file_def ex_disk_env_def Let_def)
  obtain c where c: "RestoreBatch ex_disk_env ''/cache'' ex_new_receipt (Map.empty, [ReadFile ex_path]) = (None, c)"
    using ex_restore_empty by blast
  have "br_RequestID (lo_Receipt ex_partial) \<noteq> []" by (simp add: ex_partial_def ex_request_def)
  then show ?thesis
    using ex_batch_scope
    by (simp add: observe_request_def ex_recovery_def ex_world_def call_def load ex_holds_def observe_loaded_def named_snapshot_def
        merged_snapshot_def inspect_def ex_new_receipt_fields Let_def ex_partial_def c)
qed

lemma ex_missing_one: "MissingCapacity ex_new_receipt ex_attempt_id = Inr 1"
proof -
  have "length (FulfilledIDs ex_new_receipt) = 2"
    by (simp add: length_FulfilledIDs [OF ex_complete_ok]) (simp add: ex_receipt_def ids_of_def ex_complete_def)
  then show ?thesis
    by (simp add: MissingCapacity_def ex_complete_ok ex_attempt_id)
      (simp add: ex_receipt_def ex_complete_def ex_attempt_def ex_plan_fields)
qed

text \<open>The window is open, the manifest and the limit allow it: the decision is the successor for one machine.\<close>

abbreviation ex_successor :: batch_receipt where
  "ex_successor \<equiv> successor ex_request ex_new_receipt ex_attempt_id 1 ex_created"

lemma ex_open: "checkAllocation ex_plan ex_now = Inr ()"
  using ex_unhindered by (simp add: unhindered_def ex_env_dispatch_def)

lemma ex_manifest_expiry: "requireExpiryManifest ex_manifest = Inr ()"
  by (simp add: requireExpiryManifest_def ex_manifest_def ManifestSchema_def)

lemma ex_decision: "\<exists>w'. retry_decision ex_retry_env ex_manifest ex_request ex_attempt_id (empty_snapshot\<lparr>sn_Receipt := ex_new_receipt\<rparr>) ex_partial w
    = (Inr ex_successor, w')"
proof -
  have "ValidateMaxCount (retry_limit ex_config) = Inr ()" "retry_limit ex_config = 10"
    by (simp_all add: retry_limit_def ex_config_def ValidateMaxCount_def HardMaxCount_def)
  moreover have "lo_Bounded ex_partial" by (simp add: ex_partial_def)
  ultimately show ?thesis
    using ex_missing_one ex_open ex_manifest_expiry ex_times(1) ex_complete_terminal(2)
    by (simp add: retry_decision_def ex_new_receipt_fields ex_plan_fields Let_def ex_recovery_def)
qed

lemma ex_successor_valid: "Receipt_Validate ex_successor = Inr ()"
  by (rule successor_valid [OF ex_missing_one _ _ ex_times(1)]) simp_all

lemma ex_dispatch_logged:
  "snd (snd (Dispatch (ex_env_dispatch\<lparr>de_nil := True\<rparr>) L m p ex_successor g [])) = [Clock]"
proof -
  have "\<exists>e. dispatch_checks (ex_env_dispatch\<lparr>de_nil := True\<rparr>) m p ex_successor [] = (Inl e, [Clock])"
    by (auto simp: dispatch_checks_def ex_successor_valid Let_def split: sum.split)
  then show ?thesis by (auto simp: Dispatch_def)
qed

theorem retry_authorized_witness:
  "wd_dispatch (snd (RetryMissing ex_retry_env ex_manifest ex_profile ex_request ex_attempt_id (ex_world ()))) = [Clock]
   \<and> (\<exists>s obs w2 c. observe_request ex_retry_env ex_request ex_locked = ((s, obs, None), w2)
        \<and> Receipt_Validate c = Inr () \<and> butlast (br_Attempts c) = br_Attempts (sn_Receipt s) \<and> ar_State (last (br_Attempts c)) = ''prepared'')"
proof -
  obtain w1 where o: "observe_request ex_retry_env ex_request ex_locked = ((empty_snapshot\<lparr>sn_Receipt := ex_new_receipt\<rparr>, ex_partial, None), w1)"
    using ex_observed by blast
  obtain out w2 where out: "outcome_step ex_retry_env ex_partial w1 = (out, w2)" by fastforce
  obtain w3 where dec: "retry_decision ex_retry_env ex_manifest ex_request ex_attempt_id (empty_snapshot\<lparr>sn_Receipt := ex_new_receipt\<rparr>) ex_partial w2
      = (Inr ex_successor, w3)" using ex_decision by blast
  have env: "rv_load ex_retry_env = Some ex_holds" "rv_lock ex_retry_env h = None"
    "the (rv_dispatcher ex_retry_env) = (ex_env_dispatch\<lparr>de_nil := True\<rparr>, ex_granting)" for h
    by (simp_all add: ex_recovery_def)
  have "wd_dispatch w1 = []" using named_observe(1) [OF ex_holds_names o env(1)] by (simp add: call_def ex_world_def)
  then have w: "wd_dispatch w3 = []" using retry_decision_frame [OF dec] out by (auto simp: outcome_step_def call_def Let_def)
  obtain z w4 where run: "run_dispatch (ex_env_dispatch\<lparr>de_nil := True\<rparr>, ex_granting) ex_manifest ex_profile ex_successor (call UnlockRequest w3) = (z, w4)"
    by fastforce
  obtain x w' where a: "after_dispatch ex_retry_env ex_request out ex_partial z w4 = (x, w')" by fastforce
  have r: "RetryMissing ex_retry_env ex_manifest ex_profile ex_request ex_attempt_id (ex_world ()) = (x, w')"
    using ex_attempt_id(2) by (simp add: RetryMissing_def env o out dec run a Let_def)
  have "wd_dispatch w' = wd_dispatch w4" by (rule after_dispatch_frame [OF a ex_holds_names env(1)])
  then have log: "wd_dispatch w' = [Clock]"
    using run w ex_dispatch_logged [of ex_granting ex_manifest ex_profile "wd_ledger w3"]
    by (auto simp: run_dispatch_def call_def split: prod.splits)
  then have "wd_dispatch w' \<noteq> wd_dispatch (ex_world ())" by (simp add: ex_world_def)
  from retry_authorized [OF r env(1) ex_holds_names this] log r show ?thesis by auto
qed

end
