(* ===== verification/Inventory.thy ===== *)
theory Inventory
  imports Fleet
begin

text \<open>
  \<^verbatim>\<open>internal/lifecycle/inventory.go\<close>: reading the managed machines of a scope from EC2.  One page is a fold
  over its instances; the pages are read until there is no token, with the bound the teardown service puts
  on their number.  EC2, the clock and the context are an environment of the history of calls.
\<close>

section \<open>Calls\<close>

text \<open>The error of a context: cancelled, or past its deadline.\<close>

datatype ctx_error = CtxCanceled | CtxDeadline

datatype op_error = OpFailure string | OpCtx ctx_error

record instance_query =
  iq_Id :: string
  iq_Filters :: "(string \<times> string) list"
  iq_Token :: "string option"

datatype ec2_call =
    ReadClock
  | ReadCtx
  | DescribeInstances instance_query
  | DescribeVolumes string
  | TerminateInstances string
  | Pause nat

type_synonym ec2_log = "ec2_call list"

text \<open>What a call returns, given the history with that call at its head.  \<open>ec_instances\<close> is the output, nil-able, and
  the error, as the SDK returns them.\<close>

record ec2_env =
  ec_clock :: "ec2_log \<Rightarrow> gotime"
  ec_ctx :: "ec2_log \<Rightarrow> ctx_error option"
  ec_instances :: "ec2_log \<Rightarrow> describe_instances option \<times> aws_error option"
  ec_volumes :: "ec2_log \<Rightarrow> describe_volumes option \<times> aws_error option"
  ec_terminate :: "ec2_log \<Rightarrow> aws_error option"
  ec_pause :: "ec2_log \<Rightarrow> ctx_error option"

definition apiCode :: "aws_error option \<Rightarrow> string \<Rightarrow> bool" where
  "apiCode err code \<longleftrightarrow> err = Some (APIError code)"

section \<open>One instance\<close>

definition volumeRE :: rexp where
  "volumeRE = resource_idRE ''vol-''"

text \<open>\<open>tagsOf\<close> keeps the last value of a key and reads nil as the empty string.\<close>

definition tagsOf :: "tag list \<Rightarrow> (string \<rightharpoonup> string)" where
  "tagsOf ts = fold (\<lambda>t m. m(aws_to_string (t_Key t) \<mapsto> aws_to_string (t_Value t))) ts Map.empty"

definition tag_value :: "(string \<rightharpoonup> string) \<Rightarrow> string \<Rightarrow> string" where
  "tag_value m k = (case m k of None \<Rightarrow> [] | Some v \<Rightarrow> v)"

text \<open>\<open>inventoryTags\<close>, with the tags read so far.\<close>

fun inventory_tags :: "(string \<rightharpoonup> string) \<Rightarrow> tag list \<Rightarrow> (string \<rightharpoonup> string) option" where
  "inventory_tags m [] = Some m"
| "inventory_tags m (t # ts) =
     (if t_Key t = Some ''ExpiresAt'' then inventory_tags m ts
      else case (t_Key t, t_Value t) of
        (Some k, Some v) \<Rightarrow> if k = [] \<or> m k \<noteq> None then None else inventory_tags (m(k \<mapsto> v)) ts
      | _ \<Rightarrow> None)"

definition inventoryTags :: "aws_instance \<Rightarrow> (string \<rightharpoonup> string) option" where
  "inventoryTags i = inventory_tags Map.empty (ai_Tags i)"

definition tags_scoped :: "config \<Rightarrow> (string \<rightharpoonup> string) \<Rightarrow> bool" where
  "tags_scoped c t \<longleftrightarrow> tag_value t ''ManagedBy'' = ''devbox'' \<and> tag_value t ''Deployment'' = cf_Deployment c
     \<and> tag_value t ''Owner'' = cf_Owner c"

definition block_mapping :: "aws_instance \<Rightarrow> block_device \<Rightarrow> inst_volume list" where
  "block_mapping i b =
     (case bd_Ebs b of
        None \<Rightarrow> []
      | Some e \<Rightarrow>
          if \<not> re_match volumeRE (aws_to_string (eb_VolumeId e)) then []
          else [\<lparr>iv_ID = aws_to_string (eb_VolumeId e), iv_Device = aws_to_string (bd_DeviceName b),
                 iv_Root = (aws_to_string (bd_DeviceName b) = aws_to_string (ai_RootDeviceName i)),
                 iv_DeleteOnTermination = (eb_DeleteOnTermination e = Some True),
                 iv_Deletion = (if eb_DeleteOnTermination e = Some True then ''not_observed'' else ''retained'')\<rparr>])"

definition last_root :: "string \<Rightarrow> inst_volume list \<Rightarrow> string" where
  "last_root d vs = fold (\<lambda>v d. if iv_Root v then iv_Deletion v else d) vs d"

text \<open>\<open>record\<close>: the instance as the program keeps it.\<close>

definition observed_inst :: "aws_instance \<Rightarrow> inst" where
  "observed_inst i =
     (let t = tag_value (tagsOf (ai_Tags i)); vs = concat (map (block_mapping i) (ai_BlockDeviceMappings i));
          instance_id = aws_to_string (ai_InstanceId i) in
      zero_inst\<lparr>in_ID := instance_id,
        in_Name := (if t ''NamingVersion'' = ''1'' then worker_name (t ''BaseName'') instance_id else t ''Name''),
        in_RequestID := t ''RequestId'', in_Profile := t ''Profile'', in_CreatedAt := t ''CreatedAt'',
        in_Image := aws_to_string (ai_ImageId i), in_Type := ai_InstanceType i,
        in_Market := (if ai_InstanceLifecycle i \<noteq> [] then ai_InstanceLifecycle i else ''on-demand''),
        in_TemplateID := t ''aws:ec2launchtemplate:id'', in_TemplateVersion := t ''aws:ec2launchtemplate:version'',
        in_State := (case ai_State i of None \<Rightarrow> ''unknown'' | Some s \<Rightarrow> is_Name s),
        in_SSM := ''not_observed'', in_Bootstrap := ''not_observed'', in_Readiness := ''not_observed'',
        in_RootDeletion := last_root ''unavailable'' vs, in_Volumes := Some vs, in_Group := t ''Group'',
        in_BaseName := t ''BaseName'', in_AttemptID := t ''AttemptId'', in_SubnetID := aws_to_string (ai_SubnetId i),
        in_AvailabilityZone := (case ai_Placement i of None \<Rightarrow> [] | Some z \<Rightarrow> aws_to_string z),
        in_clientToken := aws_to_string (ai_ClientToken i)\<rparr>)"

definition validInventoryZone :: "string \<Rightarrow> bool" where
  "validInventoryZone z \<longleftrightarrow> length z = length ''us-east-2a'' \<and> has_prefix z ''us-east-2'' \<and> in_range (CHR ''a'') (CHR ''z'') (last z)"

definition known_states :: "string list" where
  "known_states = [[], ''pending'', ''running'', ''stopping'', ''stopped'', ''shutting-down'', ''terminated'']"

definition terminal_instance :: "aws_instance \<Rightarrow> bool" where
  "terminal_instance i \<longleftrightarrow> (case ai_State i of None \<Rightarrow> False | Some s \<Rightarrow> is_Name s = ''terminated'' \<or> is_Name s = ''shutting-down'')"

definition labels_ok :: "aws_instance \<Rightarrow> (string \<rightharpoonup> string) \<Rightarrow> bool" where
  "labels_ok i m \<longleftrightarrow> (let t = tag_value m in
     re_match instanceRE (aws_to_string (ai_InstanceId i)) \<and> (t ''Name'' = [] \<or> ValidName (t ''Name''))
     \<and> (t ''Group'' = [] \<or> ValidGroup (t ''Group'')) \<and> (t ''RequestId'' = [] \<or> ValidRequest (t ''RequestId''))
     \<and> (t ''Profile'' = [] \<or> ValidName (t ''Profile''))
     \<and> (t ''CreatedAt'' = [] \<or> parse_rfc3339nano (t ''CreatedAt'') \<noteq> None))"

definition batch_labels_ok :: "aws_instance \<Rightarrow> (string \<rightharpoonup> string) \<Rightarrow> bool" where
  "batch_labels_ok i m \<longleftrightarrow> (let t = tag_value m in
     t ''NamingVersion'' = ''1'' \<and> ValidName (t ''BaseName'') \<and> t ''Name'' = t ''BaseName'' \<and> ValidRequest (t ''RequestId'')
     \<and> t ''BatchId'' = t ''RequestId'' \<and> ValidRequest (t ''AttemptId'') \<and> t ''Profile'' = ''agent'' \<and> t ''CreatedAt'' \<noteq> []
     \<and> (case ai_State i of None \<Rightarrow> True | Some s \<Rightarrow> is_Name s \<in> set known_states))"

text \<open>The observations of placement; a machine that is going away need not show them any more.\<close>

definition placement_ok :: "aws_instance \<Rightarrow> bool" where
  "placement_ok i \<longleftrightarrow> (let gone = terminal_instance i in
     (gone \<and> ai_ImageId i = None \<or> validFleetResourceID (aws_to_string (ai_ImageId i)) ''ami'')
     \<and> (gone \<and> ai_InstanceType i = [] \<or> re_match fleetTypeRE (ai_InstanceType i))
     \<and> (gone \<and> ai_SubnetId i = None \<or> validFleetResourceID (aws_to_string (ai_SubnetId i)) ''subnet'')
     \<and> (case ai_Placement i of Some (Some z) \<Rightarrow> validInventoryZone z | _ \<Rightarrow> gone))"

definition template_ok :: "aws_instance \<Rightarrow> (string \<rightharpoonup> string) \<Rightarrow> bool" where
  "template_ok i m \<longleftrightarrow> validFleetResourceID (tag_value m ''aws:ec2launchtemplate:id'') ''lt''
     \<and> (case ParseInt (tag_value m ''aws:ec2launchtemplate:version'') of
          None \<Rightarrow> False | Some v \<Rightarrow> v > 0 \<and> nat_str (nat v) = tag_value m ''aws:ec2launchtemplate:version'')
     \<and> (ai_InstanceLifecycle i = [] \<or> ai_InstanceLifecycle i = ''spot'')"

definition validInventoryIdentity :: "aws_instance \<Rightarrow> (string \<rightharpoonup> string) \<Rightarrow> bool" where
  "validInventoryIdentity i t \<longleftrightarrow> labels_ok i t
     \<and> (if t ''NamingVersion'' = None then t ''BaseName'' = None \<and> t ''AttemptId'' = None \<and> t ''BatchId'' = None
        else batch_labels_ok i t \<and> placement_ok i \<and> template_ok i t)"

definition sameInventoryIdentity :: "inst \<Rightarrow> inst \<Rightarrow> bool" where
  "sameInventoryIdentity a b \<longleftrightarrow>
     a\<lparr>in_State := [], in_RootDeletion := [], in_Volumes := None\<rparr> = b\<lparr>in_State := [], in_RootDeletion := [], in_Volumes := None\<rparr>"

section \<open>Merging volumes\<close>

definition same_volume :: "inst_volume \<Rightarrow> inst_volume \<Rightarrow> bool" where
  "same_volume v w \<longleftrightarrow> iv_ID v = iv_ID w \<and> iv_Device v = iv_Device w \<and> iv_Root v = iv_Root w"

fun put_volume :: "inst_volume \<Rightarrow> inst_volume list \<Rightarrow> inst_volume list" where
  "put_volume v [] = [v]"
| "put_volume v (w # ws) = (if same_volume w v then v # ws else w # put_volume v ws)"

definition mergeFleetVolumes :: "inst_volume list \<Rightarrow> inst_volume list \<Rightarrow> inst_volume list" where
  "mergeFleetVolumes known observed = sort_key (\<lambda>v. (iv_ID v, iv_Device v)) (fold put_volume observed known)"

definition merge_volumes :: "inst_volume list option \<Rightarrow> inst \<Rightarrow> inst" where
  "merge_volumes vs i = i\<lparr>in_Volumes := Some (mergeFleetVolumes (elems (in_Volumes i)) (elems vs))\<rparr>"

section \<open>The scan\<close>

record selector =
  sel_id :: string
  sel_name :: string
  sel_request :: string
  sel_group :: string

definition last_separator :: "string \<Rightarrow> nat option" where
  "last_separator s = find (\<lambda>n. has_prefix (drop n s) ''-i-'') (rev [0..<length s])"

definition generatedNameCandidate :: "string \<Rightarrow> bool" where
  "generatedNameCandidate s = (case last_separator s of None \<Rightarrow> False | Some n \<Rightarrow> n > 0 \<and> re_match instanceRE (drop (n + 1) s))"

text \<open>A generated name is not the tag in the cloud, so it is not filtered by.\<close>

definition cloud_name :: "selector \<Rightarrow> string" where
  "cloud_name q = (if generatedNameCandidate (sel_name q) then [] else sel_name q)"

definition first_query :: "config \<Rightarrow> selector \<Rightarrow> instance_query" where
  "first_query c q =
     (if sel_id q \<noteq> [] then \<lparr>iq_Id = sel_id q, iq_Filters = [], iq_Token = None\<rparr>
      else \<lparr>iq_Id = [], iq_Filters = [(''tag:ManagedBy'', ''devbox''), (''tag:Deployment'', cf_Deployment c), (''tag:Owner'', cf_Owner c)]
          @ (if cloud_name q \<noteq> [] then [(''tag:Name'', cloud_name q)] else [])
          @ (if sel_request q \<noteq> [] then [(''tag:RequestId'', sel_request q)] else [])
          @ (if sel_group q \<noteq> [] then [(''tag:Group'', sel_group q)] else []), iq_Token = None\<rparr>)"

record scan_progress =
  sp_found :: "inst list"
  sp_observed :: "string \<rightharpoonup> inst"
  sp_err :: "string option"

definition invalid_row :: "string \<Rightarrow> scan_progress \<Rightarrow> scan_progress" where
  "invalid_row code s = s\<lparr>sp_err := (case sp_err s of None \<Rightarrow> Some code | Some c \<Rightarrow> Some c)\<rparr>"

definition matches_query :: "selector \<Rightarrow> (string \<rightharpoonup> string) \<Rightarrow> inst \<Rightarrow> bool" where
  "matches_query q t r \<longleftrightarrow> (sel_id q = [] \<or> in_ID r = sel_id q) \<and> (cloud_name q = [] \<or> tag_value t ''Name'' = cloud_name q)
     \<and> (sel_request q = [] \<or> in_RequestID r = sel_request q) \<and> (sel_group q = [] \<or> in_Group r = sel_group q)"

definition update_found :: "string \<Rightarrow> (inst \<Rightarrow> inst) \<Rightarrow> scan_progress \<Rightarrow> scan_progress" where
  "update_found k f s = s\<lparr>sp_found := map (\<lambda>i. if in_ID i = k then f i else i) (sp_found s)\<rparr>"

definition note_observed :: "inst \<Rightarrow> scan_progress \<Rightarrow> scan_progress" where
  "note_observed r s =
     (case sp_observed s (in_ID r) of
        None \<Rightarrow> s\<lparr>sp_observed := (sp_observed s)(in_ID r \<mapsto> r)\<rparr>
      | Some prior \<Rightarrow>
          if sameInventoryIdentity prior r then s
          else invalid_row ''inventory_invalid'' (update_found (in_ID r) (in_ObservationCode_update (\<lambda>_. ''inventory_invalid'')) s))"

definition select_found :: "selector \<Rightarrow> inst \<Rightarrow> scan_progress \<Rightarrow> scan_progress" where
  "select_found q r s =
     (if sel_name q \<noteq> [] \<and> in_Name r \<noteq> sel_name q then s
      else if in_ID r \<in> in_ID ` set (sp_found s) then update_found (in_ID r) (\<lambda>i. copyObservedExpiry (merge_volumes (in_Volumes r) i) r) s
      else s\<lparr>sp_found := sp_found s @ [r]\<rparr>)"

definition inventory_row :: "config \<Rightarrow> selector \<Rightarrow> gotime \<Rightarrow> string \<Rightarrow> aws_instance \<Rightarrow> scan_progress \<Rightarrow> scan_progress" where
  "inventory_row c q now owner i s =
     (case inventoryTags i of
        None \<Rightarrow> invalid_row ''inventory_invalid'' s
      | Some t \<Rightarrow>
          if owner \<noteq> cf_ExpectedAccount c \<or> \<not> tags_scoped c t then invalid_row ''scope_mismatch'' s
          else let r = inspectInstanceExpiry now (ai_Tags i) (observed_inst i) in
            if \<not> validInventoryIdentity i t \<or> \<not> matches_query q t r then invalid_row ''inventory_invalid'' s
            else select_found q r (note_observed r s))"

definition inventory_page :: "config \<Rightarrow> selector \<Rightarrow> gotime \<Rightarrow> reservation list \<Rightarrow> scan_progress \<Rightarrow> scan_progress" where
  "inventory_page c q now rs s =
     fold (\<lambda>r. fold (inventory_row c q now (aws_to_string (rs_OwnerId r))) (rs_Instances r)) rs s"

definition by_id :: "inst list \<Rightarrow> inst list" where
  "by_id = sort_key in_ID"

abbreviation gave_up :: "scan_progress \<Rightarrow> string \<Rightarrow> inst list \<times> op_error option" where
  "gave_up s code \<equiv> (by_id (sp_found s), Some (OpFailure code))"

text \<open>The page that cannot be read: the context's error, if it has one, else the inventory is unavailable.\<close>

definition unreadable :: "ec2_env \<Rightarrow> scan_progress \<Rightarrow> ec2_log \<Rightarrow> (inst list \<times> op_error option) \<times> ec2_log" where
  "unreadable E s h = (let h = ReadCtx # h in
     (case ec_ctx E h of Some e \<Rightarrow> (by_id (sp_found s), Some (OpCtx e)) | None \<Rightarrow> gave_up s ''inventory_unavailable'', h))"

fun inventory_pages :: "ec2_env \<Rightarrow> config \<Rightarrow> selector \<Rightarrow> gotime \<Rightarrow> nat \<Rightarrow> string list \<Rightarrow> instance_query \<Rightarrow> scan_progress \<Rightarrow> ec2_log
    \<Rightarrow> (inst list \<times> op_error option) \<times> ec2_log" where
  "inventory_pages E c q now n tokens iq s h =
     (let h = ReadCtx # h in
      case ec_ctx E h of
        Some e \<Rightarrow> ((by_id (sp_found s), Some (OpCtx e)), h)
      | None \<Rightarrow>
          (case n of
             0 \<Rightarrow> unreadable E s h
           | Suc n \<Rightarrow>
               let h = DescribeInstances iq # h; (out, err) = ec_instances E h in
               if sel_id q \<noteq> [] \<and> apiCode err ''InvalidInstanceID.NotFound'' \<and> out = None \<and> sp_found s = [] \<and> sp_err s = None
                  \<and> iq_Token iq = None
               then (([], None), h)
               else let s = (case out of None \<Rightarrow> s | Some o1 \<Rightarrow> inventory_page c q now (di_Reservations o1) s) in
                 case out of
                   None \<Rightarrow> unreadable E s h
                 | Some o1 \<Rightarrow>
                     if err \<noteq> None then unreadable E s h
                     else let nxt = aws_to_string (di_NextToken o1) in
                       if nxt = [] then ((by_id (sp_found s), map_option OpFailure (sp_err s)), h)
                       else if nxt \<in> set tokens then (gave_up s ''inventory_invalid'', h)
                       else inventory_pages E c q now n (nxt # tokens) (iq\<lparr>iq_Token := di_NextToken o1\<rparr>) s h))"

declare inventory_pages.simps [simp del]

definition start_progress :: scan_progress where
  "start_progress = \<lparr>sp_found = [], sp_observed = Map.empty, sp_err = None\<rparr>"

text \<open>\<open>inventorySelection\<close> behind an API that answers at most \<open>n\<close> pages.\<close>

definition inventorySelection :: "ec2_env \<Rightarrow> config \<Rightarrow> nat \<Rightarrow> selector \<Rightarrow> ec2_log \<Rightarrow> (inst list \<times> op_error option) \<times> ec2_log" where
  "inventorySelection E c n q h =
     (let h = ReadClock # h in inventory_pages E c q (ec_clock E h) n [] (first_query c q) start_progress h)"

definition active :: "inst list \<Rightarrow> inst list" where
  "active rows = filter (\<lambda>i. in_State i \<noteq> ''terminated'') rows"

end
