(* ===== verification/Paging.thy ===== *)
theory Paging
  imports Prelude
begin

text \<open>
  The loop in which the program reads a paged answer: while the context lasts, ask with the current token, use the rows,
  and go on with the next token unless the answer was unreadable, there is none, or it has been seen.  EC2 may go
  on forever with fresh tokens, so the loop may not return; it does when the tokens are finitely many.
\<close>

datatype page_reply = Unread | NextPage string

datatype page_end = ContextOver | UnreadablePage | LastPage | RepeatedToken

partial_function (option) pages :: "('s \<Rightarrow> bool \<times> 's) \<Rightarrow> (string option \<Rightarrow> 's \<Rightarrow> page_reply \<times> 's) \<Rightarrow> string list \<Rightarrow> string option \<Rightarrow> 's
    \<Rightarrow> (page_end \<times> 's) option" where
  "pages ctx step seen token s =
     (case ctx s of (ended, s) \<Rightarrow>
        if ended then Some (ContextOver, s)
        else (case step token s of (reply, s) \<Rightarrow>
          (case reply of
             Unread \<Rightarrow> Some (UnreadablePage, s)
           | NextPage next \<Rightarrow>
               if next = [] then Some (LastPage, s)
               else if next \<in> set seen then Some (RepeatedToken, s)
               else pages ctx step (next # seen) (Some next) s)))"

text \<open>What every context read and every page keeps, the whole loop keeps.\<close>

lemma pages_keep:
  assumes "pages ctx step seen token s = Some r" "I s"
    and ctx: "\<And>s. I s \<Longrightarrow> I (snd (ctx s))" and step: "\<And>t s. I s \<Longrightarrow> I (snd (step t s))"
  shows "I (snd r)"
proof -
  let ?P = "\<lambda>c p seen token s r. c = ctx \<and> p = step \<and> I s \<longrightarrow> I (snd r)"
  have "?P ctx step seen token s r"
  proof (rule pages.raw_induct [where P = ?P, OF _ assms(1)])
    fix f c p seen token s r
    assume IH: "\<And>c p seen token s r. f c p seen token s = Some r \<Longrightarrow> c = ctx \<and> p = step \<and> I s \<longrightarrow> I (snd r)"
      and run: "(case c s of (ended, s) \<Rightarrow> if ended then Some (ContextOver, s)
        else (case p token s of (reply, s) \<Rightarrow> (case reply of Unread \<Rightarrow> Some (UnreadablePage, s)
           | NextPage next \<Rightarrow> if next = [] then Some (LastPage, s) else if next \<in> set seen then Some (RepeatedToken, s)
               else f c p (next # seen) (Some next) s))) = Some r"
    obtain b s1 where 1: "c s = (b, s1)" by (cases "c s")
    obtain q s2 where 2: "p token s1 = (q, s2)" by (cases "p token s1")
    show "c = ctx \<and> p = step \<and> I s \<longrightarrow> I (snd r)"
    proof (intro impI, elim conjE)
      assume eq: "c = ctx" "p = step" and I: "I s"
      have I1: "I s1" using ctx [OF I] 1 eq by simp
      have I2: "I s2" using step [OF I1, of token] 2 eq by simp
      show "I (snd r)"
      proof (cases "b \<or> q = Unread \<or> (\<exists>n. q = NextPage n \<and> (n = [] \<or> n \<in> set seen))")
        case True
        then have "r \<in> {(e, s') | e s'. s' = s1 \<or> s' = s2}" using run unfolding 1 2 prod.case by (auto split: if_splits page_reply.splits)
        then show ?thesis using I1 I2 by auto
      next
        case False
        then obtain n where "q = NextPage n" "\<not> b" "n \<noteq> []" "n \<notin> set seen" by (cases q) auto
        then have "f c p (n # seen) (Some n) s2 = Some r" using run unfolding 1 2 prod.case by simp
        from IH [OF this] show ?thesis using eq I2 by blast
      qed
    qed
  qed
  with assms(2) show ?thesis by simp
qed

text \<open>With finitely many tokens the loop returns.\<close>

lemma pages_return:
  assumes "finite T" "\<And>t s n s'. step t s = (NextPage n, s') \<Longrightarrow> n = [] \<or> n \<in> T"
  shows "\<exists>r. pages ctx step seen token s = Some r"
  using assms(1)
proof (induction "card (T - set seen)" arbitrary: seen token s rule: less_induct)
  case less
  obtain b s1 where c: "ctx s = (b, s1)" by (cases "ctx s")
  obtain p s2 where p: "step token s1 = (p, s2)" by (cases "step token s1")
  show ?case
  proof (cases "\<exists>n. p = NextPage n \<and> n \<noteq> [] \<and> n \<notin> set seen \<and> \<not> b")
    case True
    then obtain n where n: "p = NextPage n" "n \<noteq> []" "n \<notin> set seen" "\<not> b" by blast
    then have "n \<in> T" using assms(2) p by blast
    then have "T - set (n # seen) \<subset> T - set seen" using n(3) by auto
    then have "card (T - set (n # seen)) < card (T - set seen)" using less.prems by (simp add: psubset_card_mono)
    from less.hyps [OF this less.prems, of "Some n" s2] show ?thesis
      by (subst pages.simps) (use n in \<open>simp add: c p\<close>)
  next
    case False
    then show ?thesis by (subst pages.simps) (auto simp: c p split: page_reply.splits)
  qed
qed

end
