(* ===== verification/FleetWorkers.thy ===== *)
theory FleetWorkers
  imports Inventory Paging
begin

text \<open>
  \<^verbatim>\<open>internal/lifecycle/fleet_workers.go\<close>: looking at the machines of an attempt by their exact identities, and comparing
  each with the pins of the launch plan.  The EC2 interface is a record of operations on a state of its own, as the
  Go interface is: the caller may wrap it, and does.
\<close>

section \<open>IPv4 addresses (\<^verbatim>\<open>net/netip\<close>)\<close>

fun split_char :: "char \<Rightarrow> string \<Rightarrow> string list" where
  "split_char c [] = [[]]"
| "split_char c (x # xs) = (if x = c then [] # split_char c xs else (x # hd (split_char c xs)) # tl (split_char c xs))"

definition octet :: "string \<Rightarrow> nat option" where
  "octet s = (if s = [] \<or> \<not> list_all is_digit s \<or> (length s > 1 \<and> hd s = CHR ''0'') \<or> digits_val s > 255 then None else Some (digits_val s))"

definition parse_ipv4 :: "string \<Rightarrow> (nat \<times> nat \<times> nat \<times> nat) option" where
  "parse_ipv4 s =
     (case map octet (split_char (CHR ''.'') s) of [Some a, Some b, Some c, Some d] \<Rightarrow> Some (a, b, c, d) | _ \<Rightarrow> None)"

text \<open>\<open>Is4\<close>, \<open>IsGlobalUnicast\<close> and not \<open>IsPrivate\<close>, of an address that parses.\<close>

definition public_ipv4 :: "string \<Rightarrow> bool" where
  "public_ipv4 s =
     (case parse_ipv4 s of
        None \<Rightarrow> False
      | Some (a, b, c, d) \<Rightarrow>
          (a, b, c, d) \<noteq> (0, 0, 0, 0) \<and> (a, b, c, d) \<noteq> (255, 255, 255, 255) \<and> a \<noteq> 127 \<and> \<not> (224 \<le> a \<and> a \<le> 239) \<and> \<not> (a = 169 \<and> b = 254)
          \<and> a \<noteq> 10 \<and> \<not> (a = 172 \<and> 16 \<le> b \<and> b \<le> 31) \<and> \<not> (a = 192 \<and> b = 168))"

section \<open>What EC2 returns\<close>

text \<open>The further fields of an instance that this file reads.\<close>

record metadata_options =
  mo_HttpTokens :: string
  mo_HttpEndpoint :: string
  mo_HttpPutResponseHopLimit :: "int option"
  mo_InstanceMetadataTags :: string
  mo_State :: string

record nic_attachment =
  na_DeviceIndex :: "int option"
  na_DeleteOnTermination :: "bool option"

record network_interface =
  ni_Attachment :: "nic_attachment option"
  ni_SubnetId :: "string option"
  ni_OwnerId :: "string option"
  ni_Groups :: "string option list"
  ni_Association :: "string option option"

record fleet_instance = aws_instance +
  fx_IamInstanceProfile :: "string option option"
  fx_SecurityGroups :: "string option list"
  fx_MetadataOptions :: "metadata_options option"
  fx_NetworkInterfaces :: "network_interface list"
  fx_PublicIpAddress :: "string option"

abbreviation base_instance :: "fleet_instance \<Rightarrow> aws_instance" where
  "base_instance i \<equiv> aws_instance.truncate i"

record fleet_reservation =
  fr_OwnerId :: "string option"
  fr_Instances :: "fleet_instance list"

record instances_page =
  ip_Reservations :: "fleet_reservation list"
  ip_NextToken :: "string option"

record volume_attachment =
  va_InstanceId :: "string option"
  va_Device :: "string option"
  va_DeleteOnTermination :: "bool option"
  va_VolumeId :: "string option"
  va_State :: string

record fleet_volume =
  fv_VolumeId :: "string option"
  fv_OwnerId :: "string option"
  fv_Tags :: "tag list"
  fv_Encrypted :: "bool option"
  fv_VolumeType :: string
  fv_Size :: "int option"
  fv_AvailabilityZone :: "string option"
  fv_Attachments :: "volume_attachment list"
  fv_State :: string

record volumes_page =
  vp_Volumes :: "fleet_volume list"
  vp_NextToken :: "string option"

definition aws_to_int :: "int option \<Rightarrow> int" where
  "aws_to_int p = (case p of None \<Rightarrow> 0 | Some n \<Rightarrow> n)"

definition to_int32 :: "int \<Rightarrow> int" where
  "to_int32 n = (n + 2 ^ 31) mod 2 ^ 32 - 2 ^ 31"

section \<open>Tags and groups\<close>

text \<open>No key is empty or repeated, and every value is there.\<close>

definition tags_plain :: "tag list \<Rightarrow> bool" where
  "tags_plain ts \<longleftrightarrow> distinct (map (\<lambda>t. aws_to_string (t_Key t)) ts)
     \<and> list_all (\<lambda>t. aws_to_string (t_Key t) \<noteq> [] \<and> t_Value t \<noteq> None) ts"

definition fleetObservedTags :: "tag list \<Rightarrow> launch_plan \<Rightarrow> attempt_receipt \<Rightarrow> (string \<rightharpoonup> string) \<times> bool" where
  "fleetObservedTags ts p a =
     (let m = tagsOf ts in
      (m, case AttemptTags p (ar_AttemptID a) of
            Inl _ \<Rightarrow> False
          | Inr want \<Rightarrow> tags_plain ts \<and> list_all (\<lambda>(k, v). tag_value m k = v) want \<and> \<not> (lp_Group p = [] \<and> m ''Group'' \<noteq> None)))"

definition exactFleetGroup :: "string option list \<Rightarrow> string \<Rightarrow> bool" where
  "exactFleetGroup gs i \<longleftrightarrow> length gs = 1 \<and> aws_to_string (hd gs) = i"

section \<open>One instance\<close>

record fleet_observation =
  fo_worker :: worker_outcome
  fo_seen :: bool
  fo_mismatch :: bool
  fo_pending :: bool
  fo_rootVerified :: bool
  fo_rootID :: string

definition fresh_observation :: "worker_outcome \<Rightarrow> fleet_observation" where
  "fresh_observation w = \<lparr>fo_worker = w, fo_seen = False, fo_mismatch = False, fo_pending = False, fo_rootVerified = False, fo_rootID = []\<rparr>"

text \<open>The placement the instance reports.\<close>

definition reported_choice :: "fleet_instance \<Rightarrow> launch_choice" where
  "reported_choice i = \<lparr>ch_InstanceType = ai_InstanceType i, ch_SubnetID = aws_to_string (ai_SubnetId i),
     ch_AvailabilityZone = (case ai_Placement i of None \<Rightarrow> [] | Some z \<Rightarrow> aws_to_string z)\<rparr>"

definition template_pinned :: "launch_plan \<Rightarrow> (string \<rightharpoonup> string) \<Rightarrow> bool" where
  "template_pinned p t \<longleftrightarrow> tag_value t ''aws:ec2launchtemplate:id'' = im_LaunchTemplateID (lp_Image p)
     \<and> tag_value t ''aws:ec2launchtemplate:version'' = im_LaunchTemplateVersion (lp_Image p)"

text \<open>What no state of the machine excuses.\<close>

definition instance_pinned :: "launch_plan \<Rightarrow> attempt_receipt \<Rightarrow> string \<Rightarrow> fleet_instance \<Rightarrow> bool" where
  "instance_pinned p a owner i \<longleftrightarrow> (case fleetObservedTags (ai_Tags i) p a of (tags, tagOK) \<Rightarrow>
     owner = lp_Account p \<and> tagOK \<and> reported_choice i \<in> set (elems (lp_Choices p))
     \<and> in_Image (observed_inst (base_instance i)) = im_AMIID (lp_Image p) \<and> in_Market (observed_inst (base_instance i)) = lp_Market p
     \<and> template_pinned p tags)"

text \<open>A placement reported before binds the machine.\<close>

definition placement_kept :: "inst \<Rightarrow> launch_choice \<Rightarrow> bool" where
  "placement_kept w c \<longleftrightarrow> (in_Type w = [] \<or> in_Type w = ch_InstanceType c) \<and> (in_SubnetID w = [] \<or> in_SubnetID w = ch_SubnetID c)
     \<and> (in_AvailabilityZone w = [] \<or> in_AvailabilityZone w = ch_AvailabilityZone c)"

definition metadata_ok :: "metadata_options \<Rightarrow> bool" where
  "metadata_ok m \<longleftrightarrow> mo_HttpTokens m = ''required'' \<and> mo_HttpEndpoint m = ''enabled'' \<and> aws_to_int (mo_HttpPutResponseHopLimit m) = 1
     \<and> mo_InstanceMetadataTags m = ''disabled''"

text \<open>A check: whether it holds, and whether it leaves the observation pending.  A machine that is going away need not
  show some fields any more.\<close>

type_synonym check = "bool \<times> bool"

definition unless_gone :: "bool \<Rightarrow> bool \<Rightarrow> bool \<Rightarrow> check" where
  "unless_gone gone absent ok = (if gone \<and> absent then (True, True) else (ok, False))"

definition nic_addresses :: "fleet_instance \<Rightarrow> network_interface \<Rightarrow> string \<times> string" where
  "nic_addresses i n = (aws_to_string (fx_PublicIpAddress i), case ni_Association n of None \<Rightarrow> [] | Some ip \<Rightarrow> aws_to_string ip)"

definition nic_ok :: "launch_plan \<Rightarrow> string \<Rightarrow> network_interface \<Rightarrow> bool" where
  "nic_ok p subnet n \<longleftrightarrow>
     (case ni_Attachment n of None \<Rightarrow> False
      | Some a \<Rightarrow> na_DeviceIndex a = Some 0 \<and> na_DeleteOnTermination a = Some True)
     \<and> aws_to_string (ni_SubnetId n) = subnet \<and> exactFleetGroup (ni_Groups n) (lp_SecurityGroupID p)
     \<and> \<not> (ni_OwnerId n \<noteq> None \<and> aws_to_string (ni_OwnerId n) \<noteq> lp_Account p)"

definition network_check :: "launch_plan \<Rightarrow> fleet_instance \<Rightarrow> bool \<Rightarrow> check" where
  "network_check p i gone =
     (case fx_NetworkInterfaces i of
        [] \<Rightarrow> if gone then (True, True) else (False, False)
      | [n] \<Rightarrow>
          (case nic_addresses i n of (public, associated) \<Rightarrow>
             let ok = nic_ok p (ch_SubnetID (reported_choice i)) n \<and> list_all (\<lambda>v. v = [] \<or> public_ipv4 v) [public, associated] in
             if public = [] \<or> associated = [] then (ok, True) else (ok \<and> public = associated, False))
      | _ \<Rightarrow> (False, False))"

text \<open>A machine that is only starting need not show its root device yet.\<close>

definition starting_without_root :: "fleet_instance \<Rightarrow> bool" where
  "starting_without_root i \<longleftrightarrow> in_State (observed_inst (base_instance i)) = ''pending'' \<and> ai_BlockDeviceMappings i = []"

definition single_root :: "fleet_instance \<Rightarrow> bool" where
  "single_root i \<longleftrightarrow> length (ai_BlockDeviceMappings i) = 1
     \<and> (case elems (in_Volumes (observed_inst (base_instance i))) of [v] \<Rightarrow> iv_Root v \<and> iv_DeleteOnTermination v | _ \<Rightarrow> False)"

definition settled_states :: "string list" where
  "settled_states = [''pending'', ''running'', ''stopping'', ''stopped'', ''shutting-down'', ''terminated'']"

definition fleet_checks :: "launch_plan \<Rightarrow> attempt_receipt \<Rightarrow> inst \<Rightarrow> string \<Rightarrow> fleet_instance \<Rightarrow> check list" where
  "fleet_checks p a w owner i =
     (let gone = terminal_instance (base_instance i); starting = starting_without_root i; root = aws_to_string (ai_RootDeviceName i) in
      [(True, in_State (observed_inst (base_instance i)) \<notin> set settled_states),
       (instance_pinned p a owner i, False),
       (placement_kept w (reported_choice i), False),
       unless_gone gone (fx_IamInstanceProfile i = None)
         (case fx_IamInstanceProfile i of None \<Rightarrow> False | Some arn \<Rightarrow> aws_to_string arn = lp_InstanceProfileARN p),
       unless_gone gone (fx_SecurityGroups i = []) (exactFleetGroup (fx_SecurityGroups i) (lp_SecurityGroupID p)),
       unless_gone gone (fx_MetadataOptions i = None) (case fx_MetadataOptions i of None \<Rightarrow> False | Some m \<Rightarrow> metadata_ok m),
       (True, case fx_MetadataOptions i of None \<Rightarrow> False | Some m \<Rightarrow> mo_State m \<noteq> ''applied''),
       (root = im_RootDeviceName (lp_Image p) \<or> starting \<and> root = [], False),
       (ai_RootDeviceType i = ''ebs'' \<or> starting \<and> ai_RootDeviceType i = [], False),
       unless_gone (gone \<or> starting) (ai_BlockDeviceMappings i = []) (single_root i),
       network_check p i gone])"

text \<open>The root learned before and the root reported now are different volumes.\<close>

definition root_conflict :: "inst_volume list \<Rightarrow> inst_volume list \<Rightarrow> bool" where
  "root_conflict known observed \<longleftrightarrow> list_ex (\<lambda>v. iv_Root v \<and> list_ex (\<lambda>u. iv_Root u \<and> iv_ID v \<noteq> iv_ID u) observed) known"

definition last_root_id :: "string \<Rightarrow> inst_volume list \<Rightarrow> string" where
  "last_root_id d vs = fold (\<lambda>v d. if iv_Root v then iv_ID v else d) vs d"

text \<open>The machine as the plan has it, once everything fits.\<close>

definition pinned_inst :: "launch_plan \<Rightarrow> attempt_receipt \<Rightarrow> fleet_instance \<Rightarrow> inst \<Rightarrow> inst" where
  "pinned_inst p a i w =
     (let actual = observed_inst (base_instance i); c = reported_choice i in
      w\<lparr>in_Name := worker_name (lp_BaseName p) (in_ID w), in_RequestID := lp_RequestID p, in_Profile := lp_Profile p,
        in_CreatedAt := lp_CreatedAt p, in_Image := in_Image actual, in_Type := in_Type actual, in_Market := in_Market actual,
        in_TemplateID := im_LaunchTemplateID (lp_Image p), in_TemplateVersion := im_LaunchTemplateVersion (lp_Image p),
        in_Group := lp_Group p, in_BaseName := lp_BaseName p, in_AttemptID := ar_AttemptID a,
        in_SubnetID := ch_SubnetID c, in_AvailabilityZone := ch_AvailabilityZone c\<rparr>)"

definition observeFleetInstance :: "launch_plan \<Rightarrow> attempt_receipt \<Rightarrow> string \<Rightarrow> fleet_instance \<Rightarrow> gotime \<Rightarrow> fleet_observation \<Rightarrow> fleet_observation" where
  "observeFleetInstance p a owner i now ob =
     (let w = wo_Instance (fo_worker ob); actual = observed_inst (base_instance i); observed = elems (in_Volumes actual);
          checks = fleet_checks p a w owner i; valid = list_all fst checks;
          w' = inspectInstanceExpiry now (ai_Tags i)
                 (w\<lparr>in_Volumes := Some (mergeFleetVolumes (elems (in_Volumes w)) observed), in_RootDeletion := in_RootDeletion actual\<rparr>);
          w' = w'\<lparr>in_State := (if in_State actual \<in> set settled_states then in_State actual else ''unknown'')\<rparr>;
          w' = (if valid then pinned_inst p a i w' else w') in
      ob\<lparr>fo_worker := (fo_worker ob)\<lparr>wo_Instance := w'\<rparr>,
         fo_mismatch := fo_mismatch ob \<or> root_conflict (elems (in_Volumes w)) observed \<or> \<not> valid,
         fo_pending := fo_pending ob \<or> list_ex snd checks, fo_rootID := last_root_id (fo_rootID ob) observed\<rparr>)"

section \<open>One volume\<close>

definition volume_attached :: "launch_plan \<Rightarrow> fleet_observation \<Rightarrow> volume_attachment \<Rightarrow> bool" where
  "volume_attached p ob at \<longleftrightarrow> aws_to_string (va_InstanceId at) = wo_ID (fo_worker ob) \<and> aws_to_string (va_Device at) = im_RootDeviceName (lp_Image p)
     \<and> va_DeleteOnTermination at = Some True \<and> \<not> (va_VolumeId at \<noteq> None \<and> aws_to_string (va_VolumeId at) \<noteq> fo_rootID ob)"

definition volume_pinned :: "launch_plan \<Rightarrow> attempt_receipt \<Rightarrow> fleet_observation \<Rightarrow> fleet_volume \<Rightarrow> bool" where
  "volume_pinned p a ob v \<longleftrightarrow> snd (fleetObservedTags (fv_Tags v) p a) \<and> fv_Encrypted v = Some True \<and> fv_VolumeType v = ''gp3''
     \<and> aws_to_int (fv_Size v) = to_int32 (rd_SizeGB (lp_RootDisk p))
     \<and> aws_to_string (fv_AvailabilityZone v) = in_AvailabilityZone (wo_Instance (fo_worker ob))
     \<and> \<not> (fv_OwnerId v \<noteq> None \<and> aws_to_string (fv_OwnerId v) \<noteq> lp_Account p)"

definition observeFleetVolume :: "launch_plan \<Rightarrow> attempt_receipt \<Rightarrow> fleet_volume \<Rightarrow> fleet_observation \<Rightarrow> fleet_observation" where
  "observeFleetVolume p a v ob =
     (let valid = volume_pinned p a ob v \<and> (case fv_Attachments v of [at] \<Rightarrow> volume_attached p ob at | _ \<Rightarrow> False);
          unsettled = (case fv_Attachments v of [at] \<Rightarrow> va_State at \<noteq> ''attached'' \<or> fv_State v \<noteq> ''in-use'' | _ \<Rightarrow> False) in
      ob\<lparr>fo_pending := fo_pending ob \<or> unsettled, fo_mismatch := fo_mismatch ob \<or> \<not> valid, fo_rootVerified := valid\<rparr>)"

section \<open>All known workers\<close>

text \<open>The interface of EC2 on a state of its own: the output, nil-able, and the error, as the SDK returns them.\<close>

record 's fleet_api =
  fa_instances :: "string list \<Rightarrow> string option \<Rightarrow> 's \<Rightarrow> (instances_page option \<times> aws_error option) \<times> 's"
  fa_volumes :: "string list \<Rightarrow> string option \<Rightarrow> 's \<Rightarrow> (volumes_page option \<times> aws_error option) \<times> 's"

record 's verify_env =
  ve_now :: "'s \<Rightarrow> gotime \<times> 's"
  ve_ctx :: "'s \<Rightarrow> bool \<times> 's"
  ve_api :: "'s fleet_api option"

type_synonym observations = "fleet_observation gomap"

definition update_observation :: "string \<Rightarrow> (fleet_observation \<Rightarrow> fleet_observation) \<Rightarrow> observations \<Rightarrow> observations" where
  "update_observation i f m = map (\<lambda>(k, ob). (k, if k = i then f ob else ob)) m"

text \<open>The workers known before; a repeated one only adds its volumes.\<close>

definition on_instance :: "(inst \<Rightarrow> inst) \<Rightarrow> worker_outcome \<Rightarrow> worker_outcome" where
  "on_instance f w = w\<lparr>wo_Instance := f (wo_Instance w)\<rparr>"

definition unobserved :: "worker_outcome \<Rightarrow> worker_outcome" where
  "unobserved w = (on_instance (\<lambda>i. i\<lparr>in_Volumes := Some (elems (in_Volumes i)), in_ObservationCode := ''worker_not_observed''\<rparr>) w)
     \<lparr>wo_Status := ''not_observed''\<rparr>"

definition add_known :: "worker_outcome \<Rightarrow> observations \<Rightarrow> observations" where
  "add_known w m =
     (case map_of m (wo_ID w) of
        None \<Rightarrow> map_put (wo_ID w) (fresh_observation (unobserved w)) m
      | Some _ \<Rightarrow> update_observation (wo_ID w)
          (\<lambda>ob. ob\<lparr>fo_worker := on_instance (merge_volumes (in_Volumes (wo_Instance w))) (fo_worker ob)\<rparr>) m)"

definition add_expected :: "launch_plan \<Rightarrow> attempt_receipt \<Rightarrow> string \<Rightarrow> observations \<Rightarrow> observations" where
  "add_expected p a i m = (if map_of m i = None then map_put i (fresh_observation (fleetWorker p a i zero_choice)) m else m)"

definition start_observations :: "launch_plan \<Rightarrow> attempt_receipt \<Rightarrow> worker_outcome list \<Rightarrow> observations" where
  "start_observations p a known = fold (add_expected p a) (ids_of a) (fold add_known known [])"

text \<open>An identity that is none is never asked for.\<close>

definition refuse_identities :: "observations \<Rightarrow> observations" where
  "refuse_identities m = map (\<lambda>(k, ob). (k, if re_match instanceRE k then ob else ob\<lparr>fo_mismatch := True\<rparr>)) m"

text \<open>The state of the observation: whether anything was invalid, and the observations.\<close>

type_synonym progress = "bool \<times> observations"

definition instance_row :: "launch_plan \<Rightarrow> attempt_receipt \<Rightarrow> gotime \<Rightarrow> string \<Rightarrow> fleet_instance \<Rightarrow> progress \<Rightarrow> progress" where
  "instance_row p a now owner i s =
     (case s of (invalid, m) \<Rightarrow>
        let k = aws_to_string (ai_InstanceId i) in
        (case map_of m k of
           None \<Rightarrow> (True, m)
         | Some ob \<Rightarrow>
             if \<not> re_match instanceRE k then (True, m)
             else (invalid \<or> fo_seen ob,
               update_observation k (\<lambda>ob. observeFleetInstance p a owner i now (ob\<lparr>fo_mismatch := fo_mismatch ob \<or> fo_seen ob, fo_seen := True\<rparr>)) m)))"

definition instance_rows :: "launch_plan \<Rightarrow> attempt_receipt \<Rightarrow> gotime \<Rightarrow> fleet_reservation list \<Rightarrow> progress \<Rightarrow> progress" where
  "instance_rows p a now rs s = fold (\<lambda>r. fold (instance_row p a now (aws_to_string (fr_OwnerId r))) (fr_Instances r)) rs s"

text \<open>What a reply means for the loop.\<close>

definition page_verdict :: "'o option \<Rightarrow> aws_error option \<Rightarrow> ('o \<Rightarrow> string option) \<Rightarrow> page_reply" where
  "page_verdict out err token = (case (out, err) of (Some o1, None) \<Rightarrow> NextPage (aws_to_string (token o1)) | _ \<Rightarrow> Unread)"

definition instances_step :: "'s fleet_api \<Rightarrow> launch_plan \<Rightarrow> attempt_receipt \<Rightarrow> gotime \<Rightarrow> string list \<Rightarrow> string option \<Rightarrow> progress \<times> 's
    \<Rightarrow> page_reply \<times> progress \<times> 's" where
  "instances_step api p a now ids token s =
     (case s of (pr, g) \<Rightarrow>
        (case fa_instances api ids token g of ((out, err), g) \<Rightarrow>
           (page_verdict out err ip_NextToken,
            (case out of None \<Rightarrow> pr | Some o1 \<Rightarrow> instance_rows p a now (ip_Reservations o1) pr), g)))"

definition on_state :: "('s \<Rightarrow> 'a \<times> 's) \<Rightarrow> 'p \<times> 's \<Rightarrow> 'a \<times> 'p \<times> 's" where
  "on_state f s = (case s of (pr, g) \<Rightarrow> (case f g of (x, g) \<Rightarrow> (x, pr, g)))"

text \<open>How a loop ended: a failed read with its error, or a token that was repeated.\<close>

definition observation_unavailable :: failure where
  "observation_unavailable = Failure ''worker_observation_unavailable''"

definition end_error :: "page_end \<Rightarrow> failure option" where
  "end_error e = (case e of ContextOver \<Rightarrow> Some Cancelled | UnreadablePage \<Rightarrow> Some observation_unavailable | _ \<Rightarrow> None)"

definition note_end :: "page_end \<Rightarrow> progress \<Rightarrow> progress" where
  "note_end e s = (fst s \<or> e = RepeatedToken, snd s)"

definition read_instances :: "'s verify_env \<Rightarrow> launch_plan \<Rightarrow> attempt_receipt \<Rightarrow> gotime \<Rightarrow> string list \<Rightarrow> progress \<Rightarrow> 's
    \<Rightarrow> (failure option \<times> progress \<times> 's) option" where
  "read_instances V p a now ids pr g =
     (case ve_api V of
        None \<Rightarrow> Some (if ids = [] then None else Some observation_unavailable, pr, g)
      | Some api \<Rightarrow>
          if ids = [] then Some (None, pr, g)
          else (case pages (on_state (ve_ctx V)) (instances_step api p a now ids) [] None (pr, g) of
                  None \<Rightarrow> None
                | Some (e, pr, g) \<Rightarrow> Some (end_error e, note_end e pr, g)))"

text \<open>Only this read's root mapping can verify a machine; a root of two machines verifies neither.\<close>

definition root_ids :: "observations \<Rightarrow> string list" where
  "root_ids m = sort (remdups (filter (\<lambda>i. i \<noteq> []) (map (\<lambda>(k, ob). fo_rootID ob) m)))"

definition refuse_shared_roots :: "observations \<Rightarrow> observations" where
  "refuse_shared_roots m = map (\<lambda>(k, ob). (k, if fo_rootID ob \<noteq> [] \<and> length (filter (\<lambda>(k', o'). fo_rootID o' = fo_rootID ob) m) \<noteq> 1
     then ob\<lparr>fo_mismatch := True\<rparr> else ob)) m"

text \<open>The volumes seen are kept beside the progress.\<close>

definition volume_row :: "launch_plan \<Rightarrow> attempt_receipt \<Rightarrow> fleet_volume \<Rightarrow> string list \<times> progress \<Rightarrow> string list \<times> progress" where
  "volume_row p a v s =
     (case s of (seen, invalid, m) \<Rightarrow>
        let i = aws_to_string (fv_VolumeId v); again = i \<in> set seen in
        if i \<notin> set (root_ids m) then (seen, True, m)
        else (i # seen, invalid \<or> again,
          map (\<lambda>(k, ob). (k, if fo_rootID ob = i then observeFleetVolume p a v (ob\<lparr>fo_mismatch := fo_mismatch ob \<or> again\<rparr>) else ob)) m))"

definition volumes_step :: "'s fleet_api \<Rightarrow> launch_plan \<Rightarrow> attempt_receipt \<Rightarrow> string list \<Rightarrow> string option \<Rightarrow> (string list \<times> progress) \<times> 's
    \<Rightarrow> page_reply \<times> (string list \<times> progress) \<times> 's" where
  "volumes_step api p a ids token s =
     (case s of (pr, g) \<Rightarrow>
        (case fa_volumes api ids token g of ((out, err), g) \<Rightarrow>
           (page_verdict out err vp_NextToken, (case out of None \<Rightarrow> pr | Some o1 \<Rightarrow> fold (volume_row p a) (vp_Volumes o1) pr), g)))"

definition read_volumes :: "'s verify_env \<Rightarrow> launch_plan \<Rightarrow> attempt_receipt \<Rightarrow> progress \<Rightarrow> 's \<Rightarrow> (failure option \<times> progress \<times> 's) option" where
  "read_volumes V p a pr g =
     (case pr of (invalid, m) \<Rightarrow>
        let ids = root_ids m; m = refuse_shared_roots m in
        (case ve_api V of
           None \<Rightarrow> Some (None, (invalid, m), g)
         | Some api \<Rightarrow>
             if ids = [] then Some (None, (invalid, m), g)
             else (case pages (on_state (ve_ctx V)) (volumes_step api p a ids) [] None (([], invalid, m), g) of
                     None \<Rightarrow> None
                   | Some (e, (seen, pr), g) \<Rightarrow> Some (end_error e, note_end e pr, g))))"

definition judged :: "fleet_observation \<Rightarrow> worker_outcome" where
  "judged ob =
     (let (status, code) = (if fo_mismatch ob then (''identity_mismatch'', ''launch_identity_mismatch'')
            else if fo_seen ob \<and> \<not> fo_pending ob \<and> fo_rootVerified ob then (''allocated'', [])
            else (''not_observed'', ''worker_not_observed'')) in
      (on_instance (\<lambda>i. i\<lparr>in_ObservationCode := code\<rparr>) (fo_worker ob))\<lparr>wo_Status := status\<rparr>)"

definition judgement :: "failure option \<Rightarrow> progress \<Rightarrow> worker_outcome list \<times> failure option" where
  "judgement readErr s =
     (case s of (invalid, m) \<Rightarrow>
        let ws = map (judged \<circ> snd) m in
        (sort_key wo_ID ws,
         if list_ex (\<lambda>w. wo_Status w = ''identity_mismatch'') ws then Some (Failure ''launch_identity_mismatch'')
         else if invalid then Some (Failure ''worker_inventory_invalid'')
         else if readErr \<noteq> None then readErr
         else if list_ex (\<lambda>w. wo_Status w = ''not_observed'') ws then Some observation_unavailable
         else None))"

definition VerifyFleetWorkers :: "'s verify_env \<Rightarrow> launch_plan \<Rightarrow> attempt_receipt \<Rightarrow> worker_outcome list \<Rightarrow> 's
    \<Rightarrow> ((worker_outcome list \<times> failure option) \<times> 's) option" where
  "VerifyFleetWorkers V p a known g =
     (case ve_now V g of (now, g) \<Rightarrow>
        let m = start_observations p a known; ids = filter (re_match instanceRE) (map fst m);
            pr = (list_ex (\<lambda>k. \<not> re_match instanceRE k) (map fst m), refuse_identities m) in
        (case read_instances V p a now ids pr g of
           None \<Rightarrow> None
         | Some (e1, pr, g) \<Rightarrow>
             (case read_volumes V p a pr g of
                None \<Rightarrow> None
              | Some (e2, pr, g) \<Rightarrow> Some (judgement (if e2 \<noteq> None then e2 else e1) pr, g))))"

end
