(* ===== verification/Teardown.thy ===== *)
theory Teardown
  imports Inventory
begin

text \<open>
  \<^verbatim>\<open>internal/lifecycle/multi_down.go\<close>: removing machines.  \<open>SelectDown\<close> freezes a set of machines, and
  \<open>ExecuteDown\<close> terminates exactly those, each in its own goroutine after one more exact read, and then observes
  that they and their volumes are gone.  A goroutine has an environment of its own, so every interleaving of
  the workers is covered.  Texts of failures are not modelled, only their codes.
\<close>

section \<open>Data\<close>

record down_error =
  er_ResourceID :: string
  er_Code :: string

record teardown_worker =
  tw_Instance :: inst
  tw_Status :: string
  tw_Errors :: "down_error list"

record teardown_outcome =
  to_Status :: string
  to_Selected :: nat
  to_Terminated :: nat
  to_Cleaned :: nat
  to_Workers :: "teardown_worker list"
  to_Errors :: "down_error list"

record down_candidate =
  cd_instance :: inst
  cd_names :: "string list"
  cd_group :: string

record teardown_plan =
  tp_valid :: bool
  tp_account :: string
  tp_region :: string
  tp_deployment :: string
  tp_owner :: string
  tp_candidates :: "down_candidate list"
  tp_outcome :: teardown_outcome

abbreviation tw_ID :: "teardown_worker \<Rightarrow> string" where
  "tw_ID w \<equiv> in_ID (tw_Instance w)"

abbreviation cd_ID :: "down_candidate \<Rightarrow> string" where
  "cd_ID c \<equiv> in_ID (cd_instance c)"

definition teardownInventoryPages :: nat where "teardownInventoryPages = 128"

definition copyDownInstance :: "inst \<Rightarrow> inst" where
  "copyDownInstance i = i\<lparr>in_Volumes := Some (elems (in_Volumes i))\<rparr>"

definition selector_of :: "string \<Rightarrow> string \<Rightarrow> string \<Rightarrow> selector" where
  "selector_of i name grp = \<lparr>sel_id = i, sel_name = name, sel_request = [], sel_group = grp\<rparr>"

definition downInventory :: "ec2_env \<Rightarrow> config \<Rightarrow> string \<Rightarrow> string \<Rightarrow> string \<Rightarrow> ec2_log \<Rightarrow> (inst list \<times> op_error option) \<times> ec2_log" where
  "downInventory E c i name grp h = inventorySelection E c teardownInventoryPages (selector_of i name grp) h"

definition downResourceError :: "string \<Rightarrow> op_error \<Rightarrow> down_error" where
  "downResourceError i e = \<lparr>er_ResourceID = i, er_Code =
     (case e of OpFailure c \<Rightarrow> c | OpCtx CtxCanceled \<Rightarrow> ''interrupted'' | OpCtx CtxDeadline \<Rightarrow> ''timeout'')\<rparr>"

section \<open>Selection\<close>

definition addWorker :: "inst \<Rightarrow> string \<Rightarrow> down_error option \<Rightarrow> teardown_worker list \<Rightarrow> teardown_worker list" where
  "addWorker i status err ws =
     (let ws = (if in_ID i \<in> tw_ID ` set ws
                then map (\<lambda>w. if tw_ID w = in_ID i then w\<lparr>tw_Instance := merge_volumes (in_Volumes i) (tw_Instance w)\<rparr> else w) ws
                else ws @ [\<lparr>tw_Instance = copyDownInstance i, tw_Status = status, tw_Errors = []\<rparr>])
      in case err of
           None \<Rightarrow> ws
         | Some e \<Rightarrow> map (\<lambda>w. if tw_ID w = in_ID i then w\<lparr>tw_Errors := tw_Errors w @ [e\<lparr>er_ResourceID := in_ID i\<rparr>]\<rparr> else w) ws)"

definition add_workers :: "inst list \<Rightarrow> string \<Rightarrow> down_error option \<Rightarrow> teardown_worker list \<Rightarrow> teardown_worker list" where
  "add_workers rows status err ws = fold (\<lambda>i. addWorker i status err) rows ws"

definition put_candidate :: "inst \<Rightarrow> string \<Rightarrow> string \<Rightarrow> down_candidate list \<Rightarrow> down_candidate list" where
  "put_candidate i name grp cs =
     (let cs = (if in_ID i \<in> cd_ID ` set cs
                then map (\<lambda>c. if cd_ID c = in_ID i then c\<lparr>cd_instance := merge_volumes (in_Volumes i) (cd_instance c)\<rparr> else c) cs
                else cs @ [\<lparr>cd_instance = copyDownInstance i, cd_names = [], cd_group = grp\<rparr>])
      in if name = [] then cs else map (\<lambda>c. if cd_ID c = in_ID i then c\<lparr>cd_names := cd_names c @ [name]\<rparr> else c) cs)"

record selecting =
  se_workers :: "teardown_worker list"
  se_candidates :: "down_candidate list"
  se_errors :: "down_error list"

definition addCandidate :: "inst \<Rightarrow> string \<Rightarrow> string \<Rightarrow> selecting \<Rightarrow> selecting" where
  "addCandidate i name grp s = s\<lparr>se_workers := addWorker i ''termination_not_requested'' None (se_workers s),
     se_candidates := put_candidate i name grp (se_candidates s)\<rparr>"

definition finish_selection :: "config \<Rightarrow> selecting \<Rightarrow> teardown_plan" where
  "finish_selection c s =
     \<lparr>tp_valid = True, tp_account = cf_ExpectedAccount c, tp_region = cf_Region c, tp_deployment = cf_Deployment c, tp_owner = cf_Owner c,
       tp_candidates = sort_key cd_ID (se_candidates s),
       tp_outcome = \<lparr>to_Status = (if se_candidates s \<noteq> [] then ''selected'' else if se_errors s = [] then ''no_managed_match'' else ''teardown_failed''),
         to_Selected = length (se_candidates s), to_Terminated = 0, to_Cleaned = 0, to_Workers = sort_key tw_ID (se_workers s),
         to_Errors = se_errors s\<rparr>\<rparr>"

text \<open>What an explicit target resolves to: the live matches, or the historical ones when none is live.\<close>

definition candidate_rows :: "inst list \<Rightarrow> inst list" where
  "candidate_rows rows = (if active rows \<noteq> [] then active rows else rows)"

definition single_match :: "inst list \<Rightarrow> op_error option" where
  "single_match found = (case found of [] \<Rightarrow> Some (OpFailure ''target_unresolved'') | [i] \<Rightarrow> None | _ \<Rightarrow> Some (OpFailure ''name_ambiguous''))"

definition resolve_target :: "inst list \<times> op_error option \<Rightarrow> inst list \<times> op_error option" where
  "resolve_target r =
     (case r of
        (found, Some e) \<Rightarrow> (found, Some e)
      | (found, None) \<Rightarrow> (candidate_rows found, single_match (candidate_rows found)))"

definition unknown_inst :: "string \<Rightarrow> inst" where
  "unknown_inst i = zero_inst\<lparr>in_ID := i, in_State := ''unknown'', in_RootDeletion := ''unavailable'', in_Volumes := Some []\<rparr>"

definition add_target :: "string \<Rightarrow> inst list \<times> op_error option \<Rightarrow> selecting \<Rightarrow> selecting" where
  "add_target target r s =
     (let i = (if re_match instanceRE target then target else []); name = (if re_match instanceRE target then [] else target) in
      case resolve_target r of
        (found, None) \<Rightarrow> addCandidate (hd found) name [] s
      | (found, Some e) \<Rightarrow>
          let item = downResourceError target e; ws = add_workers found ''selection_unverified'' (Some item) (se_workers s) in
          s\<lparr>se_errors := se_errors s @ [item],
            se_workers := (if found = [] \<and> i \<noteq> [] then addWorker (unknown_inst i) ''target_unresolved'' (Some item) ws else ws)\<rparr>)"

fun select_targets :: "ec2_env \<Rightarrow> config \<Rightarrow> string list \<Rightarrow> string list \<Rightarrow> selecting \<Rightarrow> ec2_log \<Rightarrow> selecting \<times> ec2_log" where
  "select_targets E c seen [] s h = (s, h)"
| "select_targets E c seen (t # ts) s h =
     (if t \<in> set seen then select_targets E c seen ts s h
      else case (if re_match instanceRE t then downInventory E c t [] [] h else downInventory E c [] t [] h) of
             (r, h) \<Rightarrow> select_targets E c (t # seen) ts (add_target t r s) h)"

definition no_selection :: selecting where
  "no_selection = \<lparr>se_workers = [], se_candidates = [], se_errors = []\<rparr>"

definition refused_plan :: "config \<Rightarrow> teardown_plan" where
  "refused_plan c = (finish_selection c no_selection)\<lparr>tp_valid := False, tp_outcome := (tp_outcome (finish_selection c no_selection))\<lparr>to_Status := ''teardown_failed''\<rparr>\<rparr>"

definition SelectDown :: "ec2_env \<Rightarrow> config \<Rightarrow> down_selection \<Rightarrow> ec2_log \<Rightarrow> (teardown_plan \<times> op_error option) \<times> ec2_log" where
  "SelectDown E c sel h =
     (if ValidateDownSelection sel \<noteq> Inr () then ((refused_plan c, Some (OpFailure ''selection_invalid'')), h)
      else if ds_All sel \<or> ds_Group sel \<noteq> []
      then (case downInventory E c [] [] (ds_Group sel) h of
              ((found, Some e), h) \<Rightarrow>
                let item = downResourceError (ds_Group sel) e in
                ((finish_selection c (no_selection\<lparr>se_errors := [item], se_workers := add_workers found ''selection_unverified'' (Some item) []\<rparr>),
                  Some e), h)
            | ((found, None), h) \<Rightarrow>
                ((finish_selection c (fold (\<lambda>i. addCandidate i [] (ds_Group sel)) found no_selection), None), h))
      else (case select_targets E c [] (ds_Targets sel) no_selection h of
              (s, h) \<Rightarrow>
                let h = ReadCtx # h; p = finish_selection c s in
                (case ec_ctx E h of
                   Some e \<Rightarrow> (p\<lparr>tp_candidates := [], tp_outcome := (tp_outcome p)\<lparr>to_Selected := 0, to_Status := ''teardown_failed''\<rparr>\<rparr>, Some (OpCtx e))
                 | None \<Rightarrow> (p, None), h)))"

section \<open>Volumes\<close>

definition exactDownVolume :: "config \<Rightarrow> describe_volumes option \<Rightarrow> string \<Rightarrow> bool" where
  "exactDownVolume c out i =
     (case out of
        None \<Rightarrow> False
      | Some o1 \<Rightarrow>
          (case dv_Volumes o1 of
             [v] \<Rightarrow> aws_to_string (dv_NextToken o1) = [] \<and> aws_to_string (av_VolumeId v) = i
               \<and> (case av_OwnerId v of None \<Rightarrow> True | Some w \<Rightarrow> w = cf_ExpectedAccount c)
               \<and> (case av_VolumeArn v of None \<Rightarrow> True
                  | Some a \<Rightarrow> a = ''arn:aws:ec2:'' @ cf_Region c @ '':'' @ cf_ExpectedAccount c @ '':volume/'' @ i)
               \<and> (case av_AvailabilityZone v of None \<Rightarrow> True | Some z \<Rightarrow> validInventoryZone z \<and> has_prefix z (cf_Region c))
               \<and> (av_State v = ''deleted'' \<longrightarrow> list_all (\<lambda>a. at_State a = ''detached'') (av_Attachments v))
           | _ \<Rightarrow> False))"

text \<open>One volume, at most \<open>n\<close> times, from attempt \<open>k\<close> on: \<open>None\<close> when it was seen deleted, else the error.\<close>

fun down_observe_volume :: "ec2_env \<Rightarrow> config \<Rightarrow> string \<Rightarrow> nat \<Rightarrow> nat \<Rightarrow> ec2_log \<Rightarrow> op_error option \<times> ec2_log" where
  "down_observe_volume E c v 0 k h = (Some (OpFailure ''volume_unresolved''), h)"
| "down_observe_volume E c v (Suc n) k h =
     (let h = ReadCtx # h in
      case ec_ctx E h of
        Some e \<Rightarrow> (Some (OpCtx e), h)
      | None \<Rightarrow>
          let h = DescribeVolumes v # h; (out, err) = ec_volumes E h in
          if apiCode err ''InvalidVolume.NotFound'' \<and> out = None then (None, h)
          else if err \<noteq> None \<or> \<not> exactDownVolume c out v then (Some (OpFailure ''volume_unresolved''), h)
          else if av_State (hd (dv_Volumes (the out))) = ''deleted'' then (None, h)
          else let h = Pause k # h in
            (case ec_pause E h of Some e \<Rightarrow> (Some (OpCtx e), h) | None \<Rightarrow> down_observe_volume E c v n (Suc k) h))"

text \<open>All volumes in order; the errors in the order they are found.\<close>

fun down_observe_volumes :: "ec2_env \<Rightarrow> config \<Rightarrow> inst_volume list \<Rightarrow> ec2_log \<Rightarrow> (inst_volume list \<times> down_error list) \<times> ec2_log" where
  "down_observe_volumes E c [] h = (([], []), h)"
| "down_observe_volumes E c (v # vs) h =
     (if \<not> iv_DeleteOnTermination v
      then (case down_observe_volumes E c vs h of
              ((ws, es), h) \<Rightarrow> ((v\<lparr>iv_Deletion := ''retained''\<rparr> # ws,
                 (if iv_Root v then [downResourceError (iv_ID v) (OpFailure ''root_volume_retained'')] else []) @ es), h))
      else (case down_observe_volume E c (iv_ID v) 30 0 h of
              (r, h) \<Rightarrow> (case down_observe_volumes E c vs h of
                 ((ws, es), h) \<Rightarrow> (case r of
                      None \<Rightarrow> ((v\<lparr>iv_Deletion := ''deleted''\<rparr> # ws, es), h)
                    | Some e \<Rightarrow> ((v\<lparr>iv_Deletion := ''unavailable''\<rparr> # ws, downResourceError (iv_ID v) e # es), h)))))"

definition downRootsDeleted :: "inst \<Rightarrow> bool" where
  "downRootsDeleted i \<longleftrightarrow> filter iv_Root (elems (in_Volumes i)) \<noteq> []
     \<and> list_all (\<lambda>v. iv_Root v \<longrightarrow> iv_Deletion v = ''deleted'') (elems (in_Volumes i))"

definition down_root_deletion :: "inst \<Rightarrow> string" where
  "down_root_deletion i =
     (if downRootsDeleted i then ''deleted''
      else if list_ex (\<lambda>v. iv_Root v \<and> iv_Deletion v = ''retained'') (elems (in_Volumes i)) then ''retained'' else ''unavailable'')"

definition observeDownVolumes :: "ec2_env \<Rightarrow> config \<Rightarrow> inst \<Rightarrow> ec2_log \<Rightarrow> (inst \<times> down_error list) \<times> ec2_log" where
  "observeDownVolumes E c i h =
     (case down_observe_volumes E c (elems (in_Volumes i)) h of
        ((vs, es), h) \<Rightarrow>
          let i' = i\<lparr>in_Volumes := Some vs\<rparr> in
          ((i'\<lparr>in_RootDeletion := down_root_deletion i'\<rparr>,
            es @ (if list_ex iv_Root vs then [] else [downResourceError (in_ID i) (OpFailure ''root_volume_unverified'')])), h))"

section \<open>One worker\<close>

definition mergeDownObservation :: "inst \<Rightarrow> inst \<Rightarrow> inst" where
  "mergeDownObservation known fresh =
     (let vs = mergeFleetVolumes (elems (in_Volumes known)) (elems (in_Volumes fresh)) in
      fresh\<lparr>in_Volumes := Some vs, in_RootDeletion := last_root ''unavailable'' vs\<rparr>)"

definition merge_rows :: "inst list \<Rightarrow> inst \<Rightarrow> inst" where
  "merge_rows current i = fold (\<lambda>r i. if in_ID r = in_ID i then merge_volumes (in_Volumes r) i else i) current i"

text \<open>A read that shows one machine is the new observation of it.\<close>

definition merge_single :: "inst list \<Rightarrow> inst \<Rightarrow> inst" where
  "merge_single current i = (case current of [r] \<Rightarrow> mergeDownObservation i r | _ \<Rightarrow> i)"

abbreviation down_fail :: "inst \<Rightarrow> string \<Rightarrow> op_error \<Rightarrow> teardown_worker" where
  "down_fail i status e \<equiv> \<lparr>tw_Instance = i, tw_Status = status, tw_Errors = [downResourceError (in_ID i) e]\<rparr>"

definition observed_gone :: "ec2_env \<Rightarrow> config \<Rightarrow> string \<Rightarrow> inst \<Rightarrow> ec2_log \<Rightarrow> teardown_worker \<times> ec2_log" where
  "observed_gone E c status i h =
     (case observeDownVolumes E c i h of ((i, es), h) \<Rightarrow> (\<lparr>tw_Instance = i, tw_Status = status, tw_Errors = es\<rparr>, h))"

fun await_termination :: "ec2_env \<Rightarrow> config \<Rightarrow> nat \<Rightarrow> nat \<Rightarrow> string \<Rightarrow> inst \<Rightarrow> ec2_log \<Rightarrow> teardown_worker \<times> ec2_log" where
  "await_termination E c 0 k status i h = (down_fail i status (OpFailure ''termination_unresolved''), h)"
| "await_termination E c (Suc n) k status i h =
     (case downInventory E c (in_ID i) [] [] h of
        ((current, err), h) \<Rightarrow>
          let i = merge_rows current i in
          case err of
            Some e \<Rightarrow> (down_fail i status e, h)
          | None \<Rightarrow>
              let i = merge_single current i in
              if length current = 1 \<and> in_State i = ''terminated'' then observed_gone E c ''termination_observed'' i h
              else let h = Pause k # h in
                (case ec_pause E h of
                   Some e \<Rightarrow> (down_fail i status (OpCtx e), h)
                 | None \<Rightarrow> await_termination E c n (Suc k) status i h))"

definition denied_codes :: "string list" where
  "denied_codes = [''UnauthorizedOperation'', ''AuthFailure'', ''AccessDenied'', ''AccessDeniedException'']"

definition protected_codes :: "string list" where
  "protected_codes = [''OperationNotPermitted'', ''Client.OperationNotPermitted'']"

definition request_termination :: "ec2_env \<Rightarrow> config \<Rightarrow> inst \<Rightarrow> ec2_log \<Rightarrow> teardown_worker \<times> ec2_log" where
  "request_termination E c i h =
     (if in_State i = ''shutting-down'' then await_termination E c 30 0 ''termination_requested'' i h
      else let h = TerminateInstances (in_ID i) # h; err = ec_terminate E h in
        if list_ex (apiCode err) denied_codes then (down_fail i ''termination_denied'' (OpFailure ''termination_denied''), h)
        else if list_ex (apiCode err) protected_codes then (down_fail i ''termination_denied'' (OpFailure ''termination_protected''), h)
        else await_termination E c 30 0 (if err \<noteq> None then ''termination_unknown'' else ''termination_requested'') i h)"

definition removable_states :: "string list" where
  "removable_states = [''pending'', ''running'', ''stopping'', ''stopped'', ''shutting-down'']"

text \<open>The decision on the machine as the last read before the mutation shows it.\<close>

definition act_on_machine :: "ec2_env \<Rightarrow> config \<Rightarrow> down_candidate \<Rightarrow> inst \<Rightarrow> ec2_log \<Rightarrow> teardown_worker \<times> ec2_log" where
  "act_on_machine E c d i h =
     (if \<not> list_all (\<lambda>n. in_Name i = n) (cd_names d) then (down_fail i ''termination_not_requested'' (OpFailure ''scope_mismatch''), h)
      else if cd_group d \<noteq> [] \<and> in_Group i \<noteq> cd_group d then (down_fail i ''termination_not_requested'' (OpFailure ''scope_mismatch''), h)
      else if in_State i = ''terminated'' then observed_gone E c ''already_terminated'' i h
      else if in_State i \<notin> set removable_states then (down_fail i ''termination_not_requested'' (OpFailure ''state_unknown''), h)
      else let h = ReadCtx # h in
        (case ec_ctx E h of
           Some e \<Rightarrow> (down_fail i ''termination_not_requested'' (OpCtx e), h)
         | None \<Rightarrow> request_termination E c i h))"

definition executeDownWorker :: "ec2_env \<Rightarrow> config \<Rightarrow> down_candidate \<Rightarrow> ec2_log \<Rightarrow> teardown_worker \<times> ec2_log" where
  "executeDownWorker E c d h =
     (let i = copyDownInstance (cd_instance d) in
      case downInventory E c (in_ID i) [] [] h of
        ((current, err), h) \<Rightarrow>
          let i = merge_rows current i in
          (case err of
             Some e \<Rightarrow> (down_fail i ''termination_not_requested'' e, h)
           | None \<Rightarrow>
               (case current of
                  [r] \<Rightarrow> act_on_machine E c d (mergeDownObservation i r) h
                | _ \<Rightarrow> (down_fail i ''termination_not_requested'' (OpFailure ''target_unresolved''), h))))"

section \<open>Execution\<close>

text \<open>\<open>ExecuteDown\<close>: \<open>E\<close> is the environment of the caller, \<open>W i\<close> the one of the goroutine that handles machine
  \<open>i\<close>, with its own history.\<close>

definition run_worker :: "(string \<Rightarrow> ec2_env) \<Rightarrow> config \<Rightarrow> down_candidate \<Rightarrow> teardown_worker \<times> ec2_log" where
  "run_worker W c d = executeDownWorker (W (cd_ID d)) c d []"

definition place_worker :: "teardown_worker \<Rightarrow> teardown_worker list \<Rightarrow> teardown_worker list" where
  "place_worker w ws = map (\<lambda>v. if tw_ID v = tw_ID w then w\<lparr>tw_Errors := tw_Errors v @ tw_Errors w\<rparr> else v) ws"

definition down_cleaned :: "teardown_worker \<Rightarrow> bool" where
  "down_cleaned w \<longleftrightarrow> (tw_Status w = ''termination_observed'' \<or> tw_Status w = ''already_terminated'') \<and> downRootsDeleted (tw_Instance w)"

definition summarize :: "teardown_outcome \<Rightarrow> teardown_worker list \<Rightarrow> teardown_outcome" where
  "summarize o1 ws =
     (let errors = to_Errors o1 @ concat (map tw_Errors ws);
          terminated = length (filter (\<lambda>w. tw_Status w = ''termination_observed'' \<or> tw_Status w = ''already_terminated'') ws);
          clean = length (filter down_cleaned ws) in
      o1\<lparr>to_Workers := ws, to_Errors := errors, to_Terminated := to_Terminated o1 + terminated, to_Cleaned := to_Cleaned o1 + clean,
        to_Status := (if to_Selected o1 = 0 \<and> errors = [] then ''no_managed_match''
          else if to_Cleaned o1 + clean = to_Selected o1 \<and> to_Selected o1 \<noteq> 0 \<and> errors = [] then ''teardown_complete''
          else if to_Cleaned o1 + clean \<noteq> 0 then ''teardown_partial'' else ''teardown_failed'')\<rparr>)"

definition plan_fits :: "config \<Rightarrow> teardown_plan \<Rightarrow> bool" where
  "plan_fits c p \<longleftrightarrow> tp_valid p \<and> tp_account p = cf_ExpectedAccount c \<and> tp_region p = cf_Region c
     \<and> tp_deployment p = cf_Deployment c \<and> tp_owner p = cf_Owner c"

definition ExecuteDown :: "ec2_env \<Rightarrow> (string \<Rightarrow> ec2_env) \<Rightarrow> config \<Rightarrow> teardown_plan \<Rightarrow> ec2_log
    \<Rightarrow> (teardown_outcome \<times> op_error option) \<times> ec2_log list \<times> ec2_log" where
  "ExecuteDown E W c p h =
     (if \<not> plan_fits c p
      then (((tp_outcome p)\<lparr>to_Status := ''teardown_failed'',
               to_Errors := to_Errors (tp_outcome p) @ [downResourceError [] (OpFailure ''scope_mismatch'')]\<rparr>,
             Some (OpFailure ''scope_mismatch'')), [], h)
      else let runs = map (run_worker W c) (tp_candidates p);
               ws = fold place_worker (map fst runs) (to_Workers (tp_outcome p)); h = ReadCtx # h in
        ((summarize (tp_outcome p) ws, map_option OpCtx (ec_ctx E h)), map snd runs, h))"

end
