(* ===== verification/InventoryProperties.thy ===== *)
theory InventoryProperties
  imports Teardown
begin

text \<open>What a read of the inventory returns: machines of the scope that EC2 listed, each once.\<close>

section \<open>Logs\<close>

definition terminates :: "ec2_call \<Rightarrow> bool" where
  "terminates e \<longleftrightarrow> (case e of TerminateInstances _ \<Rightarrow> True | _ \<Rightarrow> False)"

lemma terminates_simps [simp]:
  "terminates (TerminateInstances i)" "\<not> terminates ReadClock" "\<not> terminates ReadCtx" "\<not> terminates (DescribeInstances q)"
  "\<not> terminates (DescribeVolumes v)" "\<not> terminates (Pause k)"
  by (simp_all add: terminates_def)

text \<open>\<open>calm h h'\<close>: from \<open>h\<close> to \<open>h'\<close> nothing was terminated.\<close>

definition calm :: "ec2_log \<Rightarrow> ec2_log \<Rightarrow> bool" where
  "calm h h' \<longleftrightarrow> (\<exists>es. h' = es @ h \<and> list_all (\<lambda>e. \<not> terminates e) es)"

lemma calm_refl [simp]: "calm h h"
  by (simp add: calm_def)

lemma calm_trans: "calm h h1 \<Longrightarrow> calm h1 h2 \<Longrightarrow> calm h h2"
  unfolding calm_def by force

lemma calm_Cons: "calm h h' \<Longrightarrow> \<not> terminates e \<Longrightarrow> calm h (e # h')"
  unfolding calm_def by (metis append_Cons list.pred_inject(2))

section \<open>Frames\<close>

definition same_machine :: "inst \<Rightarrow> inst \<Rightarrow> bool" where
  "same_machine i j \<longleftrightarrow> in_ID i = in_ID j \<and> in_State i = in_State j \<and> in_Name i = in_Name j \<and> in_Group i = in_Group j
     \<and> in_RequestID i = in_RequestID j"

lemma same_machine_refl [simp]: "same_machine i i"
  by (simp add: same_machine_def)

lemma same_machine_trans: "same_machine i j \<Longrightarrow> same_machine j k \<Longrightarrow> same_machine i k"
  by (simp add: same_machine_def)

lemma inspect_same [simp]: "same_machine (inspectInstanceExpiry now ts i) i"
  by (auto simp: same_machine_def inspectInstanceExpiry_def setExpiryStatus_def Let_def split: prod.split reason.split sum.split)

lemma inspect_ID [simp]: "in_ID (inspectInstanceExpiry now ts i) = in_ID i" "in_Name (inspectInstanceExpiry now ts i) = in_Name i"
  using inspect_same [of now ts i] by (simp_all add: same_machine_def)

lemma merge_same [simp]: "same_machine (merge_volumes vs i) i" "in_ID (merge_volumes vs i) = in_ID i"
  by (simp_all add: same_machine_def merge_volumes_def)

lemma copy_same [simp]: "same_machine (copyObservedExpiry i r) i" "in_ID (copyObservedExpiry i r) = in_ID i"
  by (simp_all add: same_machine_def copyObservedExpiry_def)

section \<open>Rows\<close>

text \<open>EC2 listed the machine \<open>a\<close>, of the account \<open>owner\<close>, in one of the replies of \<open>h\<close>.\<close>

definition listed :: "ec2_env \<Rightarrow> ec2_log \<Rightarrow> string \<Rightarrow> aws_instance \<Rightarrow> bool" where
  "listed E h owner a \<longleftrightarrow> (\<exists>iq later before reply r. h = later @ DescribeInstances iq # before
     \<and> fst (ec_instances E (DescribeInstances iq # before)) = Some reply \<and> r \<in> set (di_Reservations reply)
     \<and> aws_to_string (rs_OwnerId r) = owner \<and> a \<in> set (rs_Instances r))"

definition genuine :: "ec2_env \<Rightarrow> config \<Rightarrow> selector \<Rightarrow> ec2_log \<Rightarrow> inst \<Rightarrow> bool" where
  "genuine E c q h i \<longleftrightarrow> (\<exists>a t. listed E h (cf_ExpectedAccount c) a \<and> inventoryTags a = Some t \<and> tags_scoped c t
     \<and> validInventoryIdentity a t \<and> same_machine i (observed_inst a)
     \<and> (sel_id q = [] \<or> in_ID i = sel_id q) \<and> (sel_name q = [] \<or> in_Name i = sel_name q) \<and> (sel_group q = [] \<or> in_Group i = sel_group q))"

lemma listed_later: "listed E h w a \<Longrightarrow> listed E (es @ h) w a"
  unfolding listed_def by (metis append.assoc)

lemma genuine_later: "genuine E c q h i \<Longrightarrow> genuine E c q (es @ h) i"
  unfolding genuine_def using listed_later by blast

lemma genuine_calm: "calm h h' \<Longrightarrow> genuine E c q h i \<Longrightarrow> genuine E c q h' i"
  by (auto simp: calm_def genuine_later)

lemma genuine_same: "genuine E c q h i \<Longrightarrow> same_machine j i \<Longrightarrow> genuine E c q h j"
  unfolding genuine_def same_machine_def by auto

definition progress_ok :: "ec2_env \<Rightarrow> config \<Rightarrow> selector \<Rightarrow> ec2_log \<Rightarrow> scan_progress \<Rightarrow> bool" where
  "progress_ok E c q h s \<longleftrightarrow> distinct (map in_ID (sp_found s)) \<and> list_all (genuine E c q h) (sp_found s)"

lemma progress_calm: "calm h h' \<Longrightarrow> progress_ok E c q h s \<Longrightarrow> progress_ok E c q h' s"
  unfolding progress_ok_def list_all_iff using genuine_calm by blast

lemma copied_same: "same_machine (copyObservedExpiry (merge_volumes vs i) r) i"
  by (rule same_machine_trans [OF copy_same(1) merge_same(1)])

lemma invalid_row_ok [simp]: "progress_ok E c q h (invalid_row code s) \<longleftrightarrow> progress_ok E c q h s"
  by (simp add: progress_ok_def invalid_row_def)

lemma update_found_ok:
  assumes "progress_ok E c q h s" "\<And>i. same_machine (f i) i"
  shows "progress_ok E c q h (update_found k f s)"
proof -
  have f: "in_ID (if in_ID i = k then f i else i) = in_ID i" for i using assms(2) [of i] by (simp add: same_machine_def)
  have "map in_ID (sp_found (update_found k f s)) = map in_ID (sp_found s)" by (simp add: update_found_def f)
  moreover have "genuine E c q h j" if "j \<in> set (sp_found (update_found k f s))" for j
    using that assms genuine_same by (force simp: progress_ok_def update_found_def list_all_iff)
  ultimately show ?thesis using assms(1) by (simp add: progress_ok_def list_all_iff)
qed

lemma note_observed_ok: "progress_ok E c q h s \<Longrightarrow> progress_ok E c q h (note_observed r s)"
proof (cases "sp_observed s (in_ID r)")
  case None
  then show "progress_ok E c q h s \<Longrightarrow> ?thesis" by (simp add: note_observed_def progress_ok_def)
next
  case (Some prior)
  then show "progress_ok E c q h s \<Longrightarrow> ?thesis"
    by (auto simp: note_observed_def same_machine_def intro: update_found_ok)
qed

lemma select_found_ok:
  assumes "progress_ok E c q h s" "sel_name q = [] \<or> in_Name r = sel_name q \<Longrightarrow> genuine E c q h r"
  shows "progress_ok E c q h (select_found q r s)"
proof -
  consider (skip) "sel_name q \<noteq> []" "in_Name r \<noteq> sel_name q" | (old) "sel_name q = [] \<or> in_Name r = sel_name q" "in_ID r \<in> in_ID ` set (sp_found s)"
    | (fresh) "sel_name q = [] \<or> in_Name r = sel_name q" "in_ID r \<notin> in_ID ` set (sp_found s)" by blast
  then show ?thesis
  proof cases
    case old
    then show ?thesis
      using update_found_ok [OF assms(1), of "\<lambda>i. copyObservedExpiry (merge_volumes (in_Volumes r) i) r"] copied_same
      by (auto simp: select_found_def)
  next
    case fresh
    then show ?thesis using assms by (auto simp: select_found_def progress_ok_def)
  qed (use assms(1) in \<open>simp_all add: select_found_def\<close>)
qed

lemma inventory_row_ok:
  assumes "progress_ok E c q h s" "listed E h owner a"
  shows "progress_ok E c q h (inventory_row c q now owner a s)"
proof (cases "inventoryTags a")
  case None
  then show ?thesis using assms(1) by (simp add: inventory_row_def)
next
  case (Some t)
  let ?r = "inspectInstanceExpiry now (ai_Tags a) (observed_inst a)"
  have "genuine E c q h ?r" if "owner = cf_ExpectedAccount c" "tags_scoped c t" "validInventoryIdentity a t" "matches_query q t ?r"
    "sel_name q = [] \<or> in_Name ?r = sel_name q"
    unfolding genuine_def using that assms(2) Some inspect_same [of now "ai_Tags a" "observed_inst a"]
    by (intro exI [of _ a] exI [of _ t]) (auto simp: matches_query_def)
  then show ?thesis
    using assms(1) Some by (auto simp: inventory_row_def Let_def intro!: select_found_ok note_observed_ok)
qed

lemma fold_invariant: "P s \<Longrightarrow> (\<And>x s. x \<in> set xs \<Longrightarrow> P s \<Longrightarrow> P (f x s)) \<Longrightarrow> P (fold f xs s)"
  by (induction xs arbitrary: s) auto

lemma inventory_page_ok:
  assumes "progress_ok E c q h s" "h = DescribeInstances iq # h0" "fst (ec_instances E h) = Some reply"
  shows "progress_ok E c q h (inventory_page c q now (di_Reservations reply) s)"
proof -
  have l: "listed E h (aws_to_string (rs_OwnerId r)) a" if "r \<in> set (di_Reservations reply)" "a \<in> set (rs_Instances r)" for r a
    unfolding listed_def using that assms(2,3)
    by (intro exI [of _ iq] exI [of _ "[]"] exI [of _ h0] exI [of _ reply] exI [of _ r]) simp
  show ?thesis unfolding inventory_page_def
    by (intro fold_invariant [where P = "progress_ok E c q h"] assms(1) inventory_row_ok l)
qed

lemma by_id_ok: "progress_ok E c q h s \<Longrightarrow> distinct (map in_ID (by_id (sp_found s))) \<and> list_all (genuine E c q h) (by_id (sp_found s))"
  by (simp add: progress_ok_def by_id_def list_all_iff distinct_map)

text \<open>What a read gives back, whatever its error.\<close>

definition rows_ok :: "ec2_env \<Rightarrow> config \<Rightarrow> selector \<Rightarrow> ec2_log \<Rightarrow> inst list \<Rightarrow> bool" where
  "rows_ok E c q h rows \<longleftrightarrow> distinct (map in_ID rows) \<and> list_all (genuine E c q h) rows"

lemma unreadable_ok:
  assumes "progress_ok E c q h s" "unreadable E s h = ((rows, err), h')"
  shows "rows_ok E c q h' rows \<and> calm h h' \<and> err \<noteq> None"
proof -
  have c: "calm h (ReadCtx # h)" by (simp add: calm_Cons)
  from by_id_ok [OF progress_calm [OF this assms(1)]] c assms(2) show ?thesis
    by (auto simp: unreadable_def Let_def rows_ok_def split: option.splits)
qed

lemma inventory_pages_ok:
  "inventory_pages E c q now n tokens iq s h = ((rows, err), h') \<Longrightarrow> progress_ok E c q h s \<Longrightarrow> rows_ok E c q h' rows \<and> calm h h'"
proof (induction n arbitrary: tokens iq s h)
  case 0
  have "progress_ok E c q (ReadCtx # h) s" "calm h (ReadCtx # h)"
    using progress_calm [OF calm_Cons [OF calm_refl] "0.prems"(2)] by (simp_all add: calm_Cons)
  then show ?case
    using "0.prems"(1) unreadable_ok [of E c q "ReadCtx # h" s rows err h'] by_id_ok [of E c q "ReadCtx # h" s] calm_trans
    by (auto simp: inventory_pages.simps Let_def rows_ok_def split: option.splits)
next
  case (Suc n)
  let ?h1 = "ReadCtx # h" and ?h2 = "DescribeInstances iq # ReadCtx # h"
  obtain out e where r: "ec_instances E ?h2 = (out, e)" by fastforce
  have p1: "progress_ok E c q ?h1 s" and p2: "progress_ok E c q ?h2 s"
    using Suc.prems(2) by (auto intro!: progress_calm [of h] calm_Cons)
  have q: "calm h ?h1" "calm h ?h2" by (simp_all add: calm_Cons)
  let ?s = "case out of None \<Rightarrow> s | Some o1 \<Rightarrow> inventory_page c q now (di_Reservations o1) s"
  have s: "progress_ok E c q ?h2 ?s" using inventory_page_ok [OF p2 refl] p2 by (auto simp: r split: option.split)
  have u: "rows_ok E c q h' rows \<and> calm h h'" if "unreadable E ?s ?h2 = ((rows, err), h')"
    using unreadable_ok [OF s that] calm_trans [OF q(2)] by blast
  show ?case
  proof (cases "ec_ctx E ?h1")
    case (Some x)
    then show ?thesis using Suc.prems(1) by_id_ok [OF p1] q(1) by (auto simp: inventory_pages.simps rows_ok_def)
  next
    case None
    consider (gone) "rows = []" "h' = ?h2" | (bad) "unreadable E ?s ?h2 = ((rows, err), h')"
      | (last) "rows = by_id (sp_found ?s)" "h' = ?h2"
      | (more) tokens' iq' where "inventory_pages E c q now n tokens' iq' ?s ?h2 = ((rows, err), h')"
      using Suc.prems(1) None
      by (subst (asm) (2) inventory_pages.simps) (auto simp: Let_def r split: if_splits option.splits)
    then show ?thesis
    proof cases
      case gone
      then show ?thesis using q by (simp add: rows_ok_def)
    next
      case last
      then show ?thesis using by_id_ok [OF s] q by (simp add: rows_ok_def)
    next
      case more
      then show ?thesis using Suc.IH [OF _ s] calm_trans [OF q(2)] by blast
    qed (use u in blast)
  qed
qed

lemma inventorySelection_ok:
  assumes "inventorySelection E c n q h = ((rows, err), h')"
  shows "rows_ok E c q h' rows" "calm h h'"
proof -
  have "progress_ok E c q (ReadClock # h) start_progress" by (simp add: progress_ok_def start_progress_def)
  then have "rows_ok E c q h' rows \<and> calm (ReadClock # h) h'"
    using assms inventory_pages_ok [of E c q _ n "[]" "first_query c q" start_progress "ReadClock # h" rows err h']
    by (simp add: inventorySelection_def Let_def)
  then show "rows_ok E c q h' rows" "calm h h'" using calm_trans [of h "ReadClock # h" h'] by (auto simp: calm_Cons)
qed

end
