(* ===== verification/FleetWorkersProperties.thy ===== *)
theory FleetWorkersProperties
  imports FleetWorkers InventoryProperties
begin

text \<open>
  What \<open>VerifyFleetWorkers\<close> guarantees over any EC2 interface: a worker is called allocated only when this very inspection
  was shown the machine and its root volume with every pin of the plan; no identity is lost; and it returns when
  the interface does not invent page tokens forever.
\<close>

section \<open>The calls of one inspection\<close>

text \<open>\<open>reaches V g s\<close>: from \<open>g\<close>, calls of the interface lead to \<open>s\<close>.\<close>

inductive reaches :: "'s verify_env \<Rightarrow> 's \<Rightarrow> 's \<Rightarrow> bool" for V where
  here: "reaches V g g"
| reads_now: "reaches V g s \<Longrightarrow> reaches V g (snd (ve_now V s))"
| reads_ctx: "reaches V g s \<Longrightarrow> reaches V g (snd (ve_ctx V s))"
| reads_instances: "reaches V g s \<Longrightarrow> ve_api V = Some api \<Longrightarrow> reaches V g (snd (fa_instances api ids t s))"
| reads_volumes: "reaches V g s \<Longrightarrow> ve_api V = Some api \<Longrightarrow> reaches V g (snd (fa_volumes api ids t s))"

lemma reaches_trans:
  assumes "reaches V s s'" "reaches V g s"
  shows "reaches V g s'"
  using assms by (induction rule: reaches.induct) (blast intro: reaches.intros)+

text \<open>A row that the interface returned between \<open>g\<close> and \<open>g'\<close>.\<close>

definition shown_instance :: "'s verify_env \<Rightarrow> 's \<Rightarrow> 's \<Rightarrow> string \<Rightarrow> fleet_instance \<Rightarrow> bool" where
  "shown_instance V g g' owner i \<longleftrightarrow> (\<exists>api ids token s out err s' v. ve_api V = Some api \<and> reaches V g s
     \<and> fa_instances api ids token s = ((Some out, err), s') \<and> reaches V s' g'
     \<and> v \<in> set (ip_Reservations out) \<and> i \<in> set (fr_Instances v) \<and> owner = aws_to_string (fr_OwnerId v))"

definition shown_volume :: "'s verify_env \<Rightarrow> 's \<Rightarrow> 's \<Rightarrow> fleet_volume \<Rightarrow> bool" where
  "shown_volume V g g' v \<longleftrightarrow> (\<exists>api ids token s out err s'. ve_api V = Some api \<and> reaches V g s
     \<and> fa_volumes api ids token s = ((Some out, err), s') \<and> reaches V s' g' \<and> v \<in> set (vp_Volumes out))"

lemma shown_later:
  assumes "reaches V s s'"
  shows "shown_instance V g s owner i \<Longrightarrow> shown_instance V g s' owner i" "shown_volume V g s v \<Longrightarrow> shown_volume V g s' v"
  using reaches_trans [OF assms] unfolding shown_instance_def shown_volume_def by blast+

lemma shown_intro:
  assumes "ve_api V = Some api" "reaches V g s"
  shows "fa_instances api ids t s = ((Some out, err), s') \<Longrightarrow> v \<in> set (ip_Reservations out) \<Longrightarrow> i \<in> set (fr_Instances v)
      \<Longrightarrow> shown_instance V g s' (aws_to_string (fr_OwnerId v)) i"
    "fa_volumes api ids t s = ((Some page, err), s') \<Longrightarrow> u \<in> set (vp_Volumes page) \<Longrightarrow> shown_volume V g s' u"
  using assms reaches.here [of V s'] unfolding shown_instance_def shown_volume_def by metis+

section \<open>Volumes are kept\<close>

text \<open>Every mapping of the first list is still in the second, perhaps observed anew.\<close>

definition covers :: "inst_volume list \<Rightarrow> inst_volume list \<Rightarrow> bool" where
  "covers us vs \<longleftrightarrow> (\<forall>v \<in> set us. \<exists>v' \<in> set vs. same_volume v v')"

abbreviation volumes_of :: "worker_outcome \<Rightarrow> inst_volume list" where
  "volumes_of w \<equiv> elems (in_Volumes (wo_Instance w))"

lemma same_volume_trans: "same_volume u v \<Longrightarrow> same_volume v w \<Longrightarrow> same_volume u w"
  by (simp add: same_volume_def)

lemma covers_refl [simp]: "covers vs vs"
  by (auto simp: covers_def same_volume_def)

lemma covers_trans: "covers us vs \<Longrightarrow> covers vs ws \<Longrightarrow> covers us ws"
  unfolding covers_def using same_volume_trans by meson

lemma put_volume_covers: "covers vs (put_volume v vs) \<and> covers [v] (put_volume v vs)"
  by (induction v vs rule: put_volume.induct) (auto simp: covers_def same_volume_def)

lemma fold_put_covers: "covers vs (fold put_volume us vs) \<and> covers us (fold put_volume us vs)"
proof (induction us arbitrary: vs)
  case (Cons u us)
  have "covers vs (put_volume u vs)" "covers [u] (put_volume u vs)" using put_volume_covers by blast+
  then have "covers vs (fold put_volume us (put_volume u vs))" "covers [u] (fold put_volume us (put_volume u vs))"
    using Cons.IH [of "put_volume u vs"] covers_trans by blast+
  then show ?case using Cons.IH [of "put_volume u vs"] by (auto simp: covers_def)
qed (simp add: covers_def)

lemma merge_covers: "covers vs (mergeFleetVolumes vs us)" "covers us (mergeFleetVolumes vs us)"
  using fold_put_covers [of vs us] by (simp_all add: mergeFleetVolumes_def covers_def)

section \<open>What is known of each observation\<close>

definition seen_instance :: "'s verify_env \<Rightarrow> launch_plan \<Rightarrow> attempt_receipt \<Rightarrow> observations \<Rightarrow> 's \<Rightarrow> 's \<Rightarrow> string \<Rightarrow> string \<Rightarrow> fleet_instance
    \<Rightarrow> fleet_observation \<Rightarrow> bool" where
  "seen_instance V p a m0 g s k owner i ob \<longleftrightarrow> shown_instance V g s owner i \<and> aws_to_string (ai_InstanceId i) = k \<and> re_match instanceRE k
     \<and> (\<exists>ob0. map_of m0 k = Some ob0 \<and> list_all fst (fleet_checks p a (wo_Instance (fo_worker ob0)) owner i)
         \<and> (\<not> fo_pending ob \<longrightarrow> \<not> list_ex snd (fleet_checks p a (wo_Instance (fo_worker ob0)) owner i)))
     \<and> fo_rootID ob = last_root_id [] (elems (in_Volumes (observed_inst (base_instance i))))
     \<and> in_AvailabilityZone (wo_Instance (fo_worker ob)) = ch_AvailabilityZone (reported_choice i)
     \<and> in_AttemptID (wo_Instance (fo_worker ob)) = ar_AttemptID a"

definition seen_volume :: "'s verify_env \<Rightarrow> launch_plan \<Rightarrow> attempt_receipt \<Rightarrow> 's \<Rightarrow> 's \<Rightarrow> fleet_volume \<Rightarrow> fleet_observation \<Rightarrow> bool" where
  "seen_volume V p a g s v ob \<longleftrightarrow> shown_volume V g s v \<and> aws_to_string (fv_VolumeId v) = fo_rootID ob \<and> volume_pinned p a ob v
     \<and> (\<exists>at. fv_Attachments v = [at] \<and> volume_attached p ob at
         \<and> (\<not> fo_pending ob \<longrightarrow> va_State at = ''attached'' \<and> fv_State v = ''in-use''))"

definition ob_ok :: "'s verify_env \<Rightarrow> launch_plan \<Rightarrow> attempt_receipt \<Rightarrow> observations \<Rightarrow> 's \<Rightarrow> 's \<Rightarrow> string \<Rightarrow> fleet_observation \<Rightarrow> bool" where
  "ob_ok V p a m0 g s k ob \<longleftrightarrow> wo_ID (fo_worker ob) = k
     \<and> (\<exists>ob0. map_of m0 k = Some ob0 \<and> covers (volumes_of (fo_worker ob0)) (volumes_of (fo_worker ob)))
     \<and> (\<not> fo_seen ob \<longrightarrow> \<not> fo_rootVerified ob \<and> fo_rootID ob = [] \<and> \<not> fo_pending ob \<and> (\<exists>ob0. map_of m0 k = Some ob0 \<and> fo_worker ob0 = fo_worker ob))
     \<and> (fo_seen ob \<and> \<not> fo_mismatch ob \<longrightarrow> (\<exists>owner i. seen_instance V p a m0 g s k owner i ob))
     \<and> (fo_rootVerified ob \<and> \<not> fo_mismatch ob \<longrightarrow> (\<exists>v. seen_volume V p a g s v ob))"

definition obs_ok :: "'s verify_env \<Rightarrow> launch_plan \<Rightarrow> attempt_receipt \<Rightarrow> observations \<Rightarrow> 's \<Rightarrow> 's \<Rightarrow> observations \<Rightarrow> bool" where
  "obs_ok V p a m0 g s m \<longleftrightarrow> map fst m = map fst m0 \<and> (\<forall>(k, ob) \<in> set m. ob_ok V p a m0 g s k ob)"

lemma seen_later:
  assumes "reaches V s s'"
  shows "seen_instance V p a m0 g s k owner i ob \<Longrightarrow> seen_instance V p a m0 g s' k owner i ob"
    "seen_volume V p a g s v ob \<Longrightarrow> seen_volume V p a g s' v ob"
  using shown_later [OF assms, of g] by (simp_all add: seen_instance_def seen_volume_def)

lemma ob_ok_later: "ob_ok V p a m0 g s k ob \<Longrightarrow> reaches V s s' \<Longrightarrow> ob_ok V p a m0 g s' k ob"
  using seen_later unfolding ob_ok_def by meson

lemma obs_ok_later: "obs_ok V p a m0 g s m \<Longrightarrow> reaches V s s' \<Longrightarrow> obs_ok V p a m0 g s' m"
  by (auto simp: obs_ok_def intro: ob_ok_later)

lemma fst_update [simp]: "map fst (update_observation i f m) = map fst m"
  by (induction m) (auto simp: update_observation_def)

lemma obs_ok_update:
  assumes "obs_ok V p a m0 g s m" "\<And>ob. ob_ok V p a m0 g s i ob \<Longrightarrow> ob_ok V p a m0 g s i (f ob)"
  shows "obs_ok V p a m0 g s (update_observation i f m)"
  using assms unfolding obs_ok_def fst_update by (fastforce simp: update_observation_def)

lemma obs_ok_mismatch: "ob_ok V p a m0 g s k ob \<Longrightarrow> ob_ok V p a m0 g s k (ob\<lparr>fo_mismatch := True\<rparr>)"
  by (simp add: ob_ok_def)

text \<open>Rows of instances.\<close>

lemma observe_fields:
  "wo_ID (fo_worker (observeFleetInstance p a owner i now ob)) = wo_ID (fo_worker ob)"
  "fo_seen (observeFleetInstance p a owner i now ob) = fo_seen ob"
  "fo_rootVerified (observeFleetInstance p a owner i now ob) = fo_rootVerified ob"
  by (simp_all add: observeFleetInstance_def pinned_inst_def Let_def)

lemma inspect_Volumes [simp]: "in_Volumes (inspectInstanceExpiry now ts i) = in_Volumes i"
  by (simp add: inspectInstanceExpiry_def setExpiryStatus_def Let_def split: prod.split reason.split sum.split)

lemma observe_covers: "covers (volumes_of (fo_worker ob)) (volumes_of (fo_worker (observeFleetInstance p a owner i now ob)))"
  by (simp add: observeFleetInstance_def pinned_inst_def Let_def merge_covers)

lemma observe_seen:
  assumes "ob_ok V p a m0 g s k ob" "shown_instance V g s owner i" "aws_to_string (ai_InstanceId i) = k" "re_match instanceRE k"
  shows "ob_ok V p a m0 g s k (observeFleetInstance p a owner i now (ob\<lparr>fo_mismatch := fo_mismatch ob \<or> fo_seen ob, fo_seen := True\<rparr>))"
proof -
  let ?ob = "observeFleetInstance p a owner i now (ob\<lparr>fo_mismatch := fo_mismatch ob \<or> fo_seen ob, fo_seen := True\<rparr>)"
  have f: "wo_ID (fo_worker ?ob) = k" "fo_seen ?ob" "fo_rootVerified ?ob = fo_rootVerified ob"
    using assms(1) by (simp_all add: observe_fields ob_ok_def)
  have "\<exists>ob0. map_of m0 k = Some ob0 \<and> covers (volumes_of (fo_worker ob0)) (volumes_of (fo_worker ?ob))"
    using assms(1) observe_covers [of "ob\<lparr>fo_mismatch := fo_mismatch ob \<or> fo_seen ob, fo_seen := True\<rparr>" p a owner i now] covers_trans
    unfolding ob_ok_def by fastforce
  moreover have "\<exists>owner i. seen_instance V p a m0 g s k owner i ?ob" and "\<not> fo_rootVerified ?ob" if m: "\<not> fo_mismatch ?ob"
  proof -
    have n: "\<not> fo_seen ob" and v: "list_all fst (fleet_checks p a (wo_Instance (fo_worker ob)) owner i)"
      using m by (auto simp: observeFleetInstance_def Let_def)
    from n assms(1) obtain ob0 where ob0: "map_of m0 k = Some ob0" "fo_worker ob0 = fo_worker ob" "\<not> fo_rootVerified ob" "fo_rootID ob = []"
      by (auto simp: ob_ok_def)
    then show "\<not> fo_rootVerified ?ob" using f by simp
    have "seen_instance V p a m0 g s k owner i ?ob"
      unfolding seen_instance_def
      using assms(2-4) ob0 v by (simp add: observeFleetInstance_def Let_def pinned_inst_def)
    then show "\<exists>owner i. seen_instance V p a m0 g s k owner i ?ob" by blast
  qed
  ultimately show ?thesis using f unfolding ob_ok_def by blast
qed

lemma instance_row_ok:
  assumes "obs_ok V p a m0 g s (snd pr)" "shown_instance V g s owner i"
  shows "obs_ok V p a m0 g s (snd (instance_row p a now owner i pr))"
proof -
  obtain b m where pr: "pr = (b, m)" by fastforce
  show ?thesis
  proof (cases "map_of m (aws_to_string (ai_InstanceId i)) \<noteq> None \<and> re_match instanceRE (aws_to_string (ai_InstanceId i))")
    case True
    have "obs_ok V p a m0 g s (update_observation (aws_to_string (ai_InstanceId i))
        (\<lambda>ob. observeFleetInstance p a owner i now (ob\<lparr>fo_mismatch := fo_mismatch ob \<or> fo_seen ob, fo_seen := True\<rparr>)) m)"
      using assms pr True by (intro obs_ok_update observe_seen) auto
    then show ?thesis using True by (auto simp: pr instance_row_def Let_def)
  next
    case False
    then show ?thesis using assms(1) by (auto simp: pr instance_row_def Let_def split: option.splits)
  qed
qed

text \<open>The loop over pages of instances.\<close>

lemma instance_rows_ok:
  assumes "obs_ok V p a m0 g s (snd pr)" "\<And>v i. v \<in> set rs \<Longrightarrow> i \<in> set (fr_Instances v) \<Longrightarrow> shown_instance V g s (aws_to_string (fr_OwnerId v)) i"
  shows "obs_ok V p a m0 g s (snd (instance_rows p a now rs pr))"
  unfolding instance_rows_def
  by (rule fold_invariant [where P = "\<lambda>pr. obs_ok V p a m0 g s (snd pr)"], rule assms(1))
    (rule fold_invariant, assumption, rule instance_row_ok, assumption, rule assms(2))

definition progress_at :: "'s verify_env \<Rightarrow> launch_plan \<Rightarrow> attempt_receipt \<Rightarrow> observations \<Rightarrow> 's \<Rightarrow> progress \<times> 's \<Rightarrow> bool" where
  "progress_at V p a m0 g x \<longleftrightarrow> reaches V g (snd x) \<and> obs_ok V p a m0 g (snd x) (snd (fst x))"

lemma on_state_keeps:
  "snd (on_state f (pr, g)) = (pr, snd (f g))"
  by (simp add: on_state_def split: prod.split)

lemma instances_step_ok:
  assumes "progress_at V p a m0 g x" "ve_api V = Some api"
  shows "progress_at V p a m0 g (snd (instances_step api p a now ids t x))"
proof -
  obtain pr s where x: "x = (pr, s)" by (cases x)
  obtain out err s' where c: "fa_instances api ids t s = ((out, err), s')" by (metis prod.collapse)
  have here: "reaches V g s" "obs_ok V p a m0 g s (snd pr)" using assms(1) by (simp_all add: x progress_at_def)
  have step: "reaches V s s'" using reaches.reads_instances [OF reaches.here assms(2), of s ids t] by (simp add: c)
  have later: "reaches V g s'" "obs_ok V p a m0 g s' (snd pr)" using here reaches_trans [OF step] obs_ok_later [OF _ step] by blast+
  have "obs_ok V p a m0 g s' (snd (instance_rows p a now (ip_Reservations o1) pr))" if "out = Some o1" for o1
    by (rule instance_rows_ok [OF later(2)])
      (rule shown_intro(1) [OF assms(2) here(1) c [unfolded that]])
  with later show ?thesis by (auto simp: x instances_step_def c progress_at_def split: option.split)
qed

lemma read_instances_ok:
  assumes "read_instances V p a now ids pr s = Some (e, pr', s')" "progress_at V p a m0 g (pr, s)"
  shows "progress_at V p a m0 g (pr', s')"
proof (cases "ve_api V = None \<or> ids = []")
  case True
  then show ?thesis using assms by (auto simp: read_instances_def split: option.splits)
next
  case False
  then obtain api where api: "ve_api V = Some api" by (cases "ve_api V") auto
  from assms(1) False obtain e' q where r: "pages (on_state (ve_ctx V)) (instances_step api p a now ids) [] None (pr, s) = Some (e', q, s')"
    "pr' = note_end e' q" by (auto simp: read_instances_def api split: option.splits)
  have "progress_at V p a m0 g (snd (e', q, s'))"
  proof (rule pages_keep [where I = "progress_at V p a m0 g", OF r(1) assms(2)])
    fix x assume x: "progress_at V p a m0 g x"
    have "reaches V (snd x) (snd (ve_ctx V (snd x)))" by (rule reaches.reads_ctx [OF reaches.here])
    with x show "progress_at V p a m0 g (snd (on_state (ve_ctx V) x))"
      using reaches_trans obs_ok_later by (cases x) (auto simp: on_state_keeps progress_at_def)
  next
    fix t x assume "progress_at V p a m0 g x"
    then show "progress_at V p a m0 g (snd (instances_step api p a now ids t x))" by (rule instances_step_ok [OF _ api])
  qed
  then show ?thesis by (simp add: progress_at_def note_end_def r(2))
qed

text \<open>Rows of volumes.\<close>

lemma observe_volume_ok:
  assumes "ob_ok V p a m0 g s k ob" "shown_volume V g s v" "fo_rootID ob = aws_to_string (fv_VolumeId v)" "fo_rootID ob \<noteq> []"
  shows "ob_ok V p a m0 g s k (observeFleetVolume p a v (ob\<lparr>fo_mismatch := fo_mismatch ob \<or> again\<rparr>))"
proof -
  let ?ob = "observeFleetVolume p a v (ob\<lparr>fo_mismatch := fo_mismatch ob \<or> again\<rparr>)"
  have f: "fo_worker ?ob = fo_worker ob" "fo_seen ?ob = fo_seen ob" "fo_rootID ?ob = fo_rootID ob" "fo_pending ob \<Longrightarrow> fo_pending ?ob"
    "fo_mismatch ob \<Longrightarrow> fo_mismatch ?ob" by (simp_all add: observeFleetVolume_def Let_def)
  have seen: "fo_seen ob" using assms(1,4) by (auto simp: ob_ok_def)
  have "seen_instance V p a m0 g s k owner i ?ob" if "seen_instance V p a m0 g s k owner i ob" for owner i
    using that f unfolding seen_instance_def by metis
  moreover have "seen_volume V p a g s v ?ob" if "fo_rootVerified ?ob" "\<not> fo_mismatch ?ob"
  proof -
    from that(1) obtain at where at: "fv_Attachments v = [at]" "volume_attached p ob at" "volume_pinned p a ob v"
      by (auto simp: observeFleetVolume_def Let_def volume_attached_def volume_pinned_def split: list.splits)
    then have "\<not> fo_pending ?ob \<Longrightarrow> va_State at = ''attached'' \<and> fv_State v = ''in-use''"
      by (simp add: observeFleetVolume_def Let_def)
    then show ?thesis using assms(2,3) at f by (simp add: seen_volume_def volume_attached_def volume_pinned_def)
  qed
  ultimately show ?thesis using assms(1) f seen unfolding ob_ok_def by metis
qed

lemma obs_ok_map:
  assumes "obs_ok V p a m0 g s m" "\<And>k ob. (k, ob) \<in> set m \<Longrightarrow> ob_ok V p a m0 g s k ob \<Longrightarrow> ob_ok V p a m0 g s k (f k ob)"
  shows "obs_ok V p a m0 g s (map (\<lambda>(k, ob). (k, f k ob)) m)"
proof -
  have "map fst (map (\<lambda>(k, ob). (k, f k ob)) m) = map fst m" by (induction m) auto
  then show ?thesis using assms unfolding obs_ok_def by fastforce
qed

lemma volume_row_ok:
  assumes "obs_ok V p a m0 g s (snd (snd x))" "shown_volume V g s v"
  shows "obs_ok V p a m0 g s (snd (snd (volume_row p a v x)))"
proof -
  obtain seen b m where x: "x = (seen, b, m)" by (cases x)
  let ?i = "aws_to_string (fv_VolumeId v)"
  have "obs_ok V p a m0 g s (map (\<lambda>(k, ob). (k, if fo_rootID ob = ?i then observeFleetVolume p a v (ob\<lparr>fo_mismatch := fo_mismatch ob \<or> again\<rparr>) else ob)) m)"
    if "?i \<noteq> []" for again
    by (rule obs_ok_map) (use assms x that observe_volume_ok in auto)
  moreover have "?i \<noteq> []" if "?i \<in> set (root_ids m)" using that by (auto simp: root_ids_def)
  ultimately show ?thesis using assms(1) by (auto simp: x volume_row_def Let_def)
qed

definition volumes_at :: "'s verify_env \<Rightarrow> launch_plan \<Rightarrow> attempt_receipt \<Rightarrow> observations \<Rightarrow> 's \<Rightarrow> (string list \<times> progress) \<times> 's \<Rightarrow> bool" where
  "volumes_at V p a m0 g x \<longleftrightarrow> reaches V g (snd x) \<and> obs_ok V p a m0 g (snd x) (snd (snd (fst x)))"

lemma volumes_step_ok:
  assumes "volumes_at V p a m0 g x" "ve_api V = Some api"
  shows "volumes_at V p a m0 g (snd (volumes_step api p a ids t x))"
proof -
  obtain pr s where x: "x = (pr, s)" by (cases x)
  obtain out err s' where c: "fa_volumes api ids t s = ((out, err), s')" by (metis prod.collapse)
  have here: "reaches V g s" "obs_ok V p a m0 g s (snd (snd pr))" using assms(1) by (simp_all add: x volumes_at_def)
  have step: "reaches V s s'" using reaches.reads_volumes [OF reaches.here assms(2), of s ids t] by (simp add: c)
  have later: "reaches V g s'" "obs_ok V p a m0 g s' (snd (snd pr))" using here reaches_trans [OF step] obs_ok_later [OF _ step] by blast+
  have "obs_ok V p a m0 g s' (snd (snd (fold (volume_row p a) (vp_Volumes o1) pr)))" if "out = Some o1" for o1
  proof (rule fold_invariant [where P = "\<lambda>x. obs_ok V p a m0 g s' (snd (snd x))", OF later(2)])
    fix v and y :: "string list \<times> progress" assume "v \<in> set (vp_Volumes o1)" "obs_ok V p a m0 g s' (snd (snd y))"
    moreover from this(1) have "shown_volume V g s' v" by (rule shown_intro(2) [OF assms(2) here(1) c [unfolded that]])
    ultimately show "obs_ok V p a m0 g s' (snd (snd (volume_row p a v y)))" by (intro volume_row_ok)
  qed
  with later show ?thesis by (auto simp: x volumes_step_def c volumes_at_def split: option.split)
qed

lemma read_volumes_ok:
  assumes "read_volumes V p a pr s = Some (e, pr', s')" "progress_at V p a m0 g (pr, s)"
  shows "progress_at V p a m0 g (pr', s')"
proof -
  obtain b m where pr: "pr = (b, m)" by (cases pr)
  let ?m = "refuse_shared_roots m"
  have refuse: "obs_ok V p a m0 g s ?m"
    unfolding refuse_shared_roots_def by (rule obs_ok_map) (use assms(2) obs_ok_mismatch in \<open>auto simp: pr progress_at_def\<close>)
  show ?thesis
  proof (cases "ve_api V = None \<or> root_ids m = []")
    case True
    then show ?thesis using assms refuse by (auto simp: read_volumes_def pr progress_at_def Let_def split: option.splits)
  next
    case False
    then obtain api where api: "ve_api V = Some api" by (cases "ve_api V") auto
    from assms(1) False obtain e' q seen
      where r: "pages (on_state (ve_ctx V)) (volumes_step api p a (root_ids m)) [] None (([], b, ?m), s) = Some (e', (seen, q), s')"
        "pr' = note_end e' q" by (auto simp: read_volumes_def api pr Let_def split: option.splits)
    have start: "volumes_at V p a m0 g (([], b, ?m), s)" using assms(2) refuse by (simp add: volumes_at_def progress_at_def)
    have "volumes_at V p a m0 g (snd (e', (seen, q), s'))"
    proof (rule pages_keep [where I = "volumes_at V p a m0 g", OF r(1) start])
      fix x assume x: "volumes_at V p a m0 g x"
      have "reaches V (snd x) (snd (ve_ctx V (snd x)))" by (rule reaches.reads_ctx [OF reaches.here])
      with x show "volumes_at V p a m0 g (snd (on_state (ve_ctx V) x))"
        using reaches_trans obs_ok_later by (cases x) (auto simp: on_state_keeps volumes_at_def)
    next
      fix t x assume "volumes_at V p a m0 g x"
      then show "volumes_at V p a m0 g (snd (volumes_step api p a (root_ids m) t x))" by (rule volumes_step_ok [OF _ api])
    qed
    then show ?thesis by (simp add: progress_at_def volumes_at_def note_end_def r(2))
  qed
qed

section \<open>The start\<close>

text \<open>The worker an identity starts from: the first known one, or the one the attempt stands for.\<close>

definition known_worker :: "launch_plan \<Rightarrow> attempt_receipt \<Rightarrow> worker_outcome list \<Rightarrow> string \<Rightarrow> worker_outcome" where
  "known_worker p a known k = (case find (\<lambda>w. wo_ID w = k) known of Some w \<Rightarrow> w | None \<Rightarrow> fleetWorker p a k zero_choice)"

definition same_pins :: "inst \<Rightarrow> inst \<Rightarrow> bool" where
  "same_pins i j \<longleftrightarrow> in_Type i = in_Type j \<and> in_SubnetID i = in_SubnetID j \<and> in_AvailabilityZone i = in_AvailabilityZone j"

definition fresh_ob :: "string \<Rightarrow> worker_outcome \<Rightarrow> fleet_observation \<Rightarrow> bool" where
  "fresh_ob k w ob \<longleftrightarrow> wo_ID (fo_worker ob) = k \<and> \<not> fo_seen ob \<and> \<not> fo_rootVerified ob \<and> fo_rootID ob = [] \<and> \<not> fo_pending ob
     \<and> same_pins (wo_Instance (fo_worker ob)) (wo_Instance w)"

text \<open>The observations of the known workers \<open>ws\<close>.\<close>

definition gathers :: "worker_outcome list \<Rightarrow> observations \<Rightarrow> bool" where
  "gathers ws m \<longleftrightarrow> map_ok m \<and> fst ` set m = wo_ID ` set ws
     \<and> (\<forall>k ob. map_of m k = Some ob \<longrightarrow> (\<exists>w. find (\<lambda>w. wo_ID w = k) ws = Some w \<and> fresh_ob k w ob))
     \<and> (\<forall>w \<in> set ws. \<exists>ob. map_of m (wo_ID w) = Some ob \<and> covers (volumes_of w) (volumes_of (fo_worker ob)))"

lemma map_of_update: "map_of (update_observation i f m) k = map_option (\<lambda>ob. if k = i then f ob else ob) (map_of m k)"
  by (induction m) (auto simp: update_observation_def)

lemma map_ok_update [simp]: "map_ok (update_observation i f m) = map_ok m"
  by (simp add: map_ok_def)

lemma on_instance_simps [simp]: "wo_Instance (on_instance f w) = f (wo_Instance w)" "wo_Status (on_instance f w) = wo_Status w"
  by (simp_all add: on_instance_def)

lemma merge_volumes_simps [simp]: "in_Volumes (merge_volumes vs i) = Some (mergeFleetVolumes (elems (in_Volumes i)) (elems vs))"
  "in_Type (merge_volumes vs i) = in_Type i" "in_SubnetID (merge_volumes vs i) = in_SubnetID i"
  "in_AvailabilityZone (merge_volumes vs i) = in_AvailabilityZone i"
  by (simp_all add: merge_volumes_def)

lemma unobserved_simps [simp]: "wo_ID (unobserved w) = wo_ID w" "volumes_of (unobserved w) = volumes_of w"
  "same_pins (wo_Instance (unobserved w)) (wo_Instance w)"
  by (simp_all add: unobserved_def same_pins_def elems_def on_instance_def)

lemma find_snoc: "find P (xs @ [x]) = (case find P xs of Some y \<Rightarrow> Some y | None \<Rightarrow> if P x then Some x else None)"
  by (induction xs) auto

lemma gathersD:
  assumes "gathers ws m"
  shows "map_ok m" "fst ` set m = wo_ID ` set ws"
    "map_of m k = Some ob \<Longrightarrow> \<exists>w. find (\<lambda>w. wo_ID w = k) ws = Some w \<and> fresh_ob k w ob"
    "w \<in> set ws \<Longrightarrow> \<exists>ob. map_of m (wo_ID w) = Some ob \<and> covers (volumes_of w) (volumes_of (fo_worker ob))"
  using assms unfolding gathers_def by blast+

lemma gathers_new:
  assumes "gathers ws m" "map_of m (wo_ID w) = None"
  shows "gathers (ws @ [w]) (map_put (wo_ID w) (fresh_observation (unobserved w)) m)"
proof -
  let ?k = "wo_ID w" and ?ob = "fresh_observation (unobserved w)"
  note g = gathersD [OF assms(1)]
  have no: "?k \<notin> wo_ID ` set ws" using g(2) assms(2) by (simp add: map_of_eq_None_iff)
  have first: "find (\<lambda>v. wo_ID v = ?k) ws = None" using no unfolding find_None_iff by (metis imageI)
  have keys: "fst ` set (map_put ?k ?ob m) = wo_ID ` set (ws @ [w])" using set_fst_put [of ?k ?ob m] g(2) by simp
  have "\<exists>v. find (\<lambda>v. wo_ID v = k) (ws @ [w]) = Some v \<and> fresh_ob k v ob" if "map_of (map_put ?k ?ob m) k = Some ob" for k ob
  proof (cases "k = ?k")
    case True
    then show ?thesis using that first by (auto simp: find_snoc fresh_ob_def fresh_observation_def)
  next
    case False
    then have "map_of m k = Some ob" using that by simp
    from g(3) [OF this] show ?thesis by (auto simp: find_snoc)
  qed
  moreover have "\<exists>ob. map_of (map_put ?k ?ob m) (wo_ID v) = Some ob \<and> covers (volumes_of v) (volumes_of (fo_worker ob))"
    if "v \<in> set (ws @ [w])" for v
  proof (cases "v = w")
    case True
    then show ?thesis by (simp add: fresh_observation_def)
  next
    case False
    then have v: "v \<in> set ws" using that by simp
    then have "wo_ID v \<noteq> ?k" using no by (metis imageI)
    then show ?thesis using g(4) [OF v] by simp
  qed
  ultimately show ?thesis using g(1) keys unfolding gathers_def by simp
qed

lemma gathers_again:
  assumes "gathers ws m" "map_of m (wo_ID w) = Some ob"
  shows "gathers (ws @ [w]) (update_observation (wo_ID w)
      (\<lambda>ob. ob\<lparr>fo_worker := on_instance (merge_volumes (in_Volumes (wo_Instance w))) (fo_worker ob)\<rparr>) m)"
proof -
  let ?k = "wo_ID w" and ?f = "\<lambda>ob. ob\<lparr>fo_worker := on_instance (merge_volumes (in_Volumes (wo_Instance w))) (fo_worker ob)\<rparr>"
  note g = gathersD [OF assms(1)]
  have "?k \<in> fst ` set m" using map_of_SomeD [OF assms(2)] by (force simp: image_iff)
  then have keys: "fst ` set (update_observation ?k ?f m) = wo_ID ` set (ws @ [w])"
  proof -
    have "fst ` set (update_observation ?k ?f m) = fst ` set m" by (metis fst_update list.set_map)
    moreover have "insert ?k (wo_ID ` set ws) = wo_ID ` set ws" using \<open>?k \<in> fst ` set m\<close> g(2) by (simp add: insert_absorb)
    ultimately show ?thesis using g(2) by simp
  qed
  have "\<exists>v. find (\<lambda>v. wo_ID v = k) (ws @ [w]) = Some v \<and> fresh_ob k v o'" if "map_of (update_observation ?k ?f m) k = Some o'" for k o'
  proof -
    from that obtain o1 where o1: "map_of m k = Some o1" "o' = (if k = ?k then ?f o1 else o1)" by (auto simp: map_of_update)
    from g(3) [OF o1(1)] obtain v where v: "find (\<lambda>v. wo_ID v = k) ws = Some v" "fresh_ob k v o1" by blast
    then show ?thesis using o1(2) by (simp add: find_snoc fresh_ob_def same_pins_def)
  qed
  moreover have "\<exists>o'. map_of (update_observation ?k ?f m) (wo_ID v) = Some o' \<and> covers (volumes_of v) (volumes_of (fo_worker o'))"
    if "v \<in> set (ws @ [w])" for v
  proof (cases "v = w")
    case True
    then show ?thesis using assms(2) merge_covers(2) by (simp add: map_of_update)
  next
    case False
    then have "v \<in> set ws" using that by simp
    from g(4) [OF this] obtain o1 where o1: "map_of m (wo_ID v) = Some o1" "covers (volumes_of v) (volumes_of (fo_worker o1))" by blast
    have "covers (volumes_of v) (mergeFleetVolumes (volumes_of (fo_worker o1)) us)" for us
      using covers_trans [OF o1(2) merge_covers(1)] .
    then show ?thesis using o1 by (simp add: map_of_update)
  qed
  ultimately show ?thesis using g(1) keys unfolding gathers_def by simp
qed

lemma gathers_add: "gathers ws m \<Longrightarrow> gathers (ws @ [w]) (add_known w m)"
  using gathers_new [of ws m w] gathers_again [of ws m w] by (cases "map_of m (wo_ID w)") (simp_all add: add_known_def)

lemma gathers_known: "gathers ws (fold add_known ws [])"
proof (induction ws rule: rev_induct)
  case Nil
  then show ?case by (simp add: gathers_def)
next
  case (snoc w ws)
  from gathers_add [OF snoc, of w] show ?case by simp
qed

text \<open>All of them, with the identities of the attempt.\<close>

definition started :: "launch_plan \<Rightarrow> attempt_receipt \<Rightarrow> worker_outcome list \<Rightarrow> string list \<Rightarrow> observations \<Rightarrow> bool" where
  "started p a known ids m \<longleftrightarrow> map_ok m \<and> fst ` set m = wo_ID ` set known \<union> set ids
     \<and> (\<forall>k ob. map_of m k = Some ob \<longrightarrow> fresh_ob k (known_worker p a known k) ob)
     \<and> (\<forall>w \<in> set known. \<exists>ob. map_of m (wo_ID w) = Some ob \<and> covers (volumes_of w) (volumes_of (fo_worker ob)))"

lemma started_add: "started p a known ids m \<Longrightarrow> started p a known (ids @ [i]) (add_expected p a i m)"
proof -
  assume s: "started p a known ids m"
  have put: "fst ` set (map_put i x m) = insert i (fst ` set m)" for x using set_fst_put [of i x m] by simp
  show ?thesis
  proof (cases "map_of m i")
    case None
    then have "i \<notin> wo_ID ` set known" using s by (auto simp: started_def map_of_eq_None_iff)
    then have "known_worker p a known i = fleetWorker p a i zero_choice"
      unfolding known_worker_def by (auto simp: find_None_iff split: option.split dest: find_Some_iff [THEN iffD1])
    then show ?thesis using s None put
      by (auto simp: started_def add_expected_def fresh_ob_def fresh_observation_def same_pins_def)
  next
    case (Some ob)
    then have "i \<in> fst ` set m" by (metis fst_conv image_eqI map_of_SomeD)
    then show ?thesis using s Some by (auto simp: started_def add_expected_def)
  qed
qed

lemma started_fold: "started p a known [] m \<Longrightarrow> started p a known ids (fold (add_expected p a) ids m)"
  by (induction ids rule: rev_induct) (auto intro: started_add)

lemma started_known: "gathers known m \<Longrightarrow> started p a known [] m"
proof -
  assume g: "gathers known m"
  have "fresh_ob k (known_worker p a known k) ob" if "map_of m k = Some ob" for k ob
    using gathersD(3) [OF g that] by (auto simp: known_worker_def)
  then show ?thesis using gathersD(1,2,4) [OF g] unfolding started_def by simp
qed

lemma start_observations_ok: "started p a known (ids_of a) (start_observations p a known)"
  unfolding start_observations_def by (intro started_fold started_known gathers_known)

lemma map_of_refuse: "map_of (refuse_identities m) k = map_option (\<lambda>ob. if re_match instanceRE k then ob else ob\<lparr>fo_mismatch := True\<rparr>) (map_of m k)"
  by (induction m) (auto simp: refuse_identities_def)

lemma started_refuse:
  assumes "started p a known ids m"
  shows "started p a known ids (refuse_identities m)"
proof -
  have fst: "map fst (refuse_identities m) = map fst m" by (induction m) (auto simp: refuse_identities_def)
  have keys: "map_ok (refuse_identities m) = map_ok m" by (simp add: map_ok_def fst)
  have keys': "fst ` set (refuse_identities m) = fst ` set m" using arg_cong [OF fst, of set] unfolding list.set_map .
  have "fresh_ob k (known_worker p a known k) ob" if "map_of (refuse_identities m) k = Some ob" for k ob
  proof -
    from that obtain o1 where "map_of m k = Some o1" "ob = o1 \<or> ob = o1\<lparr>fo_mismatch := True\<rparr>"
      by (auto simp: map_of_refuse split: if_splits)
    moreover from this(1) have "fresh_ob k (known_worker p a known k) o1" using assms unfolding started_def by blast
    ultimately show ?thesis by (auto simp: fresh_ob_def)
  qed
  moreover have "\<exists>ob. map_of (refuse_identities m) (wo_ID w) = Some ob \<and> covers (volumes_of w) (volumes_of (fo_worker ob))"
    if "w \<in> set known" for w
  proof -
    from that assms obtain o1 where "map_of m (wo_ID w) = Some o1" "covers (volumes_of w) (volumes_of (fo_worker o1))"
      unfolding started_def by blast
    then show ?thesis by (simp add: map_of_refuse)
  qed
  ultimately show ?thesis using assms keys keys' unfolding started_def by simp
qed

lemma started_ok:
  assumes "started p a known ids m"
  shows "obs_ok V p a m g s m"
proof -
  have d: "distinct (map fst m)" using assms unfolding started_def map_ok_def by (simp add: strict_sorted_iff)
  have "ob_ok V p a m g s k ob" if "(k, ob) \<in> set m" for k ob
  proof -
    have m: "map_of m k = Some ob" using d that by (simp add: map_of_is_SomeI)
    then have "fresh_ob k (known_worker p a known k) ob" using assms unfolding started_def by blast
    then show ?thesis using m by (simp add: fresh_ob_def ob_ok_def)
  qed
  then show ?thesis by (auto simp: obs_ok_def)
qed

section \<open>The result\<close>

text \<open>What a live machine of the attempt shows, with nothing pending.\<close>

definition machine_fits :: "launch_plan \<Rightarrow> attempt_receipt \<Rightarrow> string \<Rightarrow> fleet_instance \<Rightarrow> bool" where
  "machine_fits p a owner i \<longleftrightarrow> instance_pinned p a owner i \<and> in_State (observed_inst (base_instance i)) \<in> set settled_states
     \<and> (\<exists>arn. fx_IamInstanceProfile i = Some arn \<and> aws_to_string arn = lp_InstanceProfileARN p)
     \<and> exactFleetGroup (fx_SecurityGroups i) (lp_SecurityGroupID p)
     \<and> (\<exists>m. fx_MetadataOptions i = Some m \<and> metadata_ok m \<and> mo_State m = ''applied'')
     \<and> aws_to_string (ai_RootDeviceName i) = im_RootDeviceName (lp_Image p) \<and> ai_RootDeviceType i = ''ebs'' \<and> single_root i
     \<and> (\<exists>n ip. fx_NetworkInterfaces i = [n] \<and> nic_ok p (ch_SubnetID (reported_choice i)) n \<and> nic_addresses i n = (ip, ip) \<and> public_ipv4 ip)"

lemma checks_fit:
  assumes "list_all fst (fleet_checks p a w owner i)" "\<not> list_ex snd (fleet_checks p a w owner i)"
  shows "machine_fits p a owner i" "placement_kept w (reported_choice i)"
proof -
  have root: "ai_BlockDeviceMappings i \<noteq> []" if "starting_without_root i \<or> terminal_instance (base_instance i)"
    using assms that by (auto simp: fleet_checks_def unless_gone_def Let_def split: if_splits)
  have "\<not> starting_without_root i" using root by (auto simp: starting_without_root_def)
  moreover have "\<exists>n ip. fx_NetworkInterfaces i = [n] \<and> nic_ok p (ch_SubnetID (reported_choice i)) n \<and> nic_addresses i n = (ip, ip) \<and> public_ipv4 ip"
    using assms by (auto simp: fleet_checks_def network_check_def Let_def split: list.splits if_splits prod.splits)
  ultimately show "machine_fits p a owner i" "placement_kept w (reported_choice i)"
    using assms by (auto simp: machine_fits_def fleet_checks_def unless_gone_def Let_def split: if_splits option.splits)
qed

text \<open>What the root volume of that machine shows.\<close>

definition root_fits :: "launch_plan \<Rightarrow> attempt_receipt \<Rightarrow> fleet_instance \<Rightarrow> fleet_volume \<Rightarrow> bool" where
  "root_fits p a i v \<longleftrightarrow> map iv_ID (elems (in_Volumes (observed_inst (base_instance i)))) = [aws_to_string (fv_VolumeId v)]
     \<and> snd (fleetObservedTags (fv_Tags v) p a) \<and> fv_Encrypted v = Some True \<and> fv_VolumeType v = ''gp3'' \<and> fv_State v = ''in-use''
     \<and> aws_to_int (fv_Size v) = to_int32 (rd_SizeGB (lp_RootDisk p))
     \<and> aws_to_string (fv_AvailabilityZone v) = ch_AvailabilityZone (reported_choice i)
     \<and> (\<exists>at. fv_Attachments v = [at] \<and> aws_to_string (va_InstanceId at) = aws_to_string (ai_InstanceId i)
         \<and> aws_to_string (va_Device at) = im_RootDeviceName (lp_Image p) \<and> va_DeleteOnTermination at = Some True \<and> va_State at = ''attached'')"

text \<open>The run, with everything known of its last state.\<close>

lemma verify_run:
  assumes "VerifyFleetWorkers V p a known g = Some (x, g')"
  obtains e pr where "x = judgement e pr" "progress_at V p a (refuse_identities (start_observations p a known)) g (pr, g')"
proof -
  let ?m0 = "refuse_identities (start_observations p a known)"
  obtain now g1 where n: "ve_now V g = (now, g1)" by (cases "ve_now V g")
  obtain b ids where run1: "(case read_instances V p a now ids (b, ?m0) g1 of None \<Rightarrow> None
      | Some (e1, pr, g) \<Rightarrow> (case read_volumes V p a pr g of None \<Rightarrow> None
          | Some (e2, pr, g) \<Rightarrow> Some (judgement (if e2 \<noteq> None then e2 else e1) pr, g))) = Some (x, g')"
    using assms unfolding VerifyFleetWorkers_def n prod.case Let_def by blast
  then obtain e1 pr1 g2 e2 pr2 where r: "read_instances V p a now ids (b, ?m0) g1 = Some (e1, pr1, g2)"
    "read_volumes V p a pr1 g2 = Some (e2, pr2, g')" "x = judgement (if e2 \<noteq> None then e2 else e1) pr2"
    by (auto split: option.splits prod.splits)
  have "reaches V g g1" using reaches.reads_now [OF reaches.here, of V g] n by simp
  moreover have "obs_ok V p a ?m0 g g1 ?m0" by (rule started_ok [OF started_refuse [OF start_observations_ok]])
  ultimately have "progress_at V p a ?m0 g ((b, ?m0), g1)" by (simp add: progress_at_def)
  from read_volumes_ok [OF r(2) read_instances_ok [OF r(1) this]] show thesis using that r(3) by blast
qed

lemma judgement_workers:
  assumes "obs_ok V p a (refuse_identities (start_observations p a known)) g g' m"
  shows "fst (judgement e (b, m)) = map (judged \<circ> snd) m" "map wo_ID (map (judged \<circ> snd) m) = map fst m"
    "sorted_wrt (<) (map fst m)" "fst ` set m = wo_ID ` set known \<union> set (ids_of a)"
proof -
  let ?m0 = "refuse_identities (start_observations p a known)"
  have st: "started p a known (ids_of a) ?m0" by (rule started_refuse [OF start_observations_ok])
  have fst: "map fst m = map fst ?m0" using assms by (simp add: obs_ok_def)
  then show srt: "sorted_wrt (<) (map fst m)" and "fst ` set m = wo_ID ` set known \<union> set (ids_of a)"
    using st unfolding started_def map_ok_def by (simp, metis list.set_map)
  have "wo_ID (judged ob) = k" if "(k, ob) \<in> set m" for k ob
    using assms that by (auto simp: obs_ok_def ob_ok_def judged_def Let_def on_instance_def)
  then show ids: "map wo_ID (map (judged \<circ> snd) m) = map fst m" by (auto simp: case_prod_unfold)
  have "sorted (map wo_ID (map (judged \<circ> snd) m))" using srt unfolding ids by (simp add: strict_sorted_iff)
  then have "sort_key wo_ID (map (judged \<circ> snd) m) = map (judged \<circ> snd) m" by (rule sort_key_id_if_sorted)
  then show "fst (judgement e (b, m)) = map (judged \<circ> snd) m" by (simp add: judgement_def Let_def)
qed

lemma judged_allocated: "wo_Status (judged ob) = ''allocated'' \<longleftrightarrow> \<not> fo_mismatch ob \<and> fo_seen ob \<and> \<not> fo_pending ob \<and> fo_rootVerified ob"
  by (auto simp: judged_def Let_def)

lemma judged_mismatch: "wo_Status (judged ob) = ''identity_mismatch'' \<longleftrightarrow> fo_mismatch ob"
  "wo_Status (judged ob) \<in> {''identity_mismatch'', ''allocated'', ''not_observed''}"
  by (auto simp: judged_def Let_def)

text \<open>A single root volume is the last one.\<close>

lemma single_root_id:
  assumes "single_root i"
  shows "map iv_ID (elems (in_Volumes (observed_inst (base_instance i)))) = [last_root_id [] (elems (in_Volumes (observed_inst (base_instance i))))]"
  using assms by (auto simp: single_root_def last_root_id_def split: list.splits)

lemma allocated_evidence:
  assumes "VerifyFleetWorkers V p a known g = Some ((ws, err), g')" "w \<in> set ws" "wo_Status w = ''allocated''"
  shows "\<exists>owner i v. shown_instance V g g' owner i \<and> aws_to_string (ai_InstanceId i) = wo_ID w \<and> machine_fits p a owner i
    \<and> placement_kept (wo_Instance (known_worker p a known (wo_ID w))) (reported_choice i)
    \<and> shown_volume V g g' v \<and> root_fits p a i v"
proof -
  let ?m0 = "refuse_identities (start_observations p a known)"
  obtain e b m where r: "(ws, err) = judgement e (b, m)" "progress_at V p a ?m0 g ((b, m), g')"
    using verify_run [OF assms(1)] by (metis prod.collapse)
  have ok: "obs_ok V p a ?m0 g g' m" using r(2) by (simp add: progress_at_def)
  have "ws = map (judged \<circ> snd) m" using judgement_workers(1) [OF ok, of e b] by (simp flip: r(1))
  then obtain k ob where ob: "(k, ob) \<in> set m" "w = judged ob" using assms(2) by auto
  have k: "ob_ok V p a ?m0 g g' k ob" using ok ob(1) by (auto simp: obs_ok_def)
  have st: "\<not> fo_mismatch ob" "fo_seen ob" "\<not> fo_pending ob" "fo_rootVerified ob" using assms(3) judged_allocated ob(2) by blast+
  obtain owner i v where iv: "seen_instance V p a ?m0 g g' k owner i ob" "seen_volume V p a g g' v ob"
    using k st unfolding ob_ok_def by blast
  obtain ob0 where ob0: "map_of ?m0 k = Some ob0" "list_all fst (fleet_checks p a (wo_Instance (fo_worker ob0)) owner i)"
    "\<not> list_ex snd (fleet_checks p a (wo_Instance (fo_worker ob0)) owner i)" using iv(1) st(3) unfolding seen_instance_def by blast
  note fit = checks_fit [OF ob0(2,3)]
  have id: "wo_ID w = k" using k by (simp add: ob(2) ob_ok_def judged_def Let_def on_instance_def)
  have "fresh_ob k (known_worker p a known k) ob0"
    using started_refuse [OF start_observations_ok [of p a known]] ob0(1) unfolding started_def by blast
  then have "placement_kept (wo_Instance (known_worker p a known k)) (reported_choice i)"
    using fit(2) by (simp add: fresh_ob_def same_pins_def placement_kept_def)
  moreover have "root_fits p a i v"
  proof -
    have "single_root i" using fit(1) by (simp add: machine_fits_def)
    note root = single_root_id [OF this]
    have "aws_to_string (fv_VolumeId v) = last_root_id [] (elems (in_Volumes (observed_inst (base_instance i))))"
      using iv by (simp add: seen_instance_def seen_volume_def)
    then show ?thesis using root iv st(3) k
      by (auto simp: root_fits_def seen_instance_def seen_volume_def volume_pinned_def volume_attached_def ob_ok_def)
  qed
  moreover have "shown_instance V g g' owner i" "aws_to_string (ai_InstanceId i) = k" "shown_volume V g g' v"
    using iv by (simp_all add: seen_instance_def seen_volume_def)
  ultimately show ?thesis using fit(1) unfolding id by blast
qed

text \<open>C30.  A worker is called allocated only on evidence of this very inspection: EC2 showed one running or stopped machine
  under its identity with every pin of the plan and of the placement known before, and its single encrypted root
  volume, attached to it, with the tags of this attempt; nothing of it was pending.\<close>

theorem allocated_is_verified:
  assumes "VerifyFleetWorkers V p a known g = Some ((ws, err), g')" "w \<in> set ws" "wo_Status w = ''allocated''"
  shows "\<exists>owner i v. shown_instance V g g' owner i \<and> aws_to_string (ai_InstanceId i) = wo_ID w \<and> machine_fits p a owner i
    \<and> placement_kept (wo_Instance (known_worker p a known (wo_ID w))) (reported_choice i)
    \<and> shown_volume V g g' v \<and> root_fits p a i v"
  by (rule allocated_evidence [OF assms])

lemma verification_keeps:
  assumes "VerifyFleetWorkers V p a known g = Some ((ws, err), g')"
  shows "map wo_ID ws = sorted_list_of_set (wo_ID ` set known \<union> set (ids_of a))
    \<and> (\<forall>w \<in> set known. \<exists>w' \<in> set ws. wo_ID w' = wo_ID w \<and> covers (volumes_of w) (volumes_of w'))
    \<and> (err = None \<longrightarrow> list_all (\<lambda>w. wo_Status w = ''allocated'') ws)"
proof -
  let ?m0 = "refuse_identities (start_observations p a known)"
  obtain e b m where r: "(ws, err) = judgement e (b, m)" "progress_at V p a ?m0 g ((b, m), g')"
    using verify_run [OF assms(1)] by (metis prod.collapse)
  have ok: "obs_ok V p a ?m0 g g' m" using r(2) by (simp add: progress_at_def)
  note j = judgement_workers [OF ok] and first = judgement_workers(1) [OF ok, of e b]
  have ws: "ws = map (judged \<circ> snd) m" using first by (simp flip: r(1))
  have ids: "map wo_ID ws = map fst m" unfolding ws by (rule j(2))
  have "map wo_ID ws = sorted_list_of_set (wo_ID ` set known \<union> set (ids_of a))"
    unfolding ids using j(3,4) by (metis list.set_map sorted_list_of_set.idem_if_sorted_distinct strict_sorted_iff)
  moreover have "\<exists>w' \<in> set ws. wo_ID w' = wo_ID w \<and> covers (volumes_of w) (volumes_of w')" if w: "w \<in> set known" for w
  proof -
    have st: "started p a known (ids_of a) ?m0" by (rule started_refuse [OF start_observations_ok])
    obtain ob0 where ob0: "map_of ?m0 (wo_ID w) = Some ob0" "covers (volumes_of w) (volumes_of (fo_worker ob0))"
      using st w unfolding started_def by blast
    have "wo_ID w \<in> fst ` set m" using j(4) w by blast
    then obtain ob where ob: "(wo_ID w, ob) \<in> set m" by auto
    then have k: "ob_ok V p a ?m0 g g' (wo_ID w) ob" using ok by (auto simp: obs_ok_def)
    then have "covers (volumes_of w) (volumes_of (fo_worker ob))" using ob0 covers_trans unfolding ob_ok_def by fastforce
    moreover have "volumes_of (judged ob) = volumes_of (fo_worker ob)" "wo_ID (judged ob) = wo_ID w"
      using k by (simp_all add: judged_def Let_def on_instance_def ob_ok_def)
    moreover have "judged ob \<in> set ws" using imageI [OF ob, of "judged \<circ> snd"] unfolding ws by simp
    ultimately show ?thesis by (intro bexI [of _ "judged ob"]) simp_all
  qed
  moreover have "list_all (\<lambda>w. wo_Status w = ''allocated'') ws" if "err = None"
  proof -
    have "\<not> list_ex (\<lambda>w. wo_Status w = ''identity_mismatch'') ws" "\<not> list_ex (\<lambda>w. wo_Status w = ''not_observed'') ws"
      using r(1) that ws by (auto simp: judgement_def Let_def observation_unavailable_def split: if_splits)
    then show ?thesis using judged_mismatch(2) unfolding ws list_all_iff list_ex_iff by fastforce
  qed
  ultimately show ?thesis by blast
qed

text \<open>C31.  No identity and no volume mapping is lost, whatever EC2 answers: the workers returned are exactly those known
  before or recorded of the attempt, each with every mapping it had, and the absence of an error means that all of
  them are allocated.\<close>

theorem verification_keeps_identities:
  assumes "VerifyFleetWorkers V p a known g = Some ((ws, err), g')"
  shows "map wo_ID ws = sorted_list_of_set (wo_ID ` set known \<union> set (ids_of a))
    \<and> (\<forall>w \<in> set known. \<exists>w' \<in> set ws. wo_ID w' = wo_ID w \<and> covers (volumes_of w) (volumes_of w'))
    \<and> (err = None \<longrightarrow> list_all (\<lambda>w. wo_Status w = ''allocated'') ws)"
  by (rule verification_keeps [OF assms])

text \<open>The inspection returns whenever the page tokens EC2 hands out are finitely many.\<close>

lemma verification_returns:
  assumes "finite T" "ve_api V = Some api"
    and "\<And>ids t s out err s'. fa_instances api ids t s = ((Some out, err), s') \<Longrightarrow> aws_to_string (ip_NextToken out) \<in> T"
    and "\<And>ids t s out err s'. fa_volumes api ids t s = ((Some out, err), s') \<Longrightarrow> aws_to_string (vp_NextToken out) \<in> T"
  shows "\<exists>r. VerifyFleetWorkers V p a known g = Some r"
proof -
  have "n = [] \<or> n \<in> T" if "instances_step api p a now ids t x = (NextPage n, s')" for now ids t x n s'
    using that assms(3) by (auto simp: instances_step_def page_verdict_def split: prod.splits option.splits)
  then have 1: "\<exists>r. pages c (instances_step api p a now ids) seen t x = Some r" for c now ids seen t x
    by (intro pages_return [OF assms(1)]) blast
  have "n = [] \<or> n \<in> T" if "volumes_step api p a ids t x = (NextPage n, s')" for ids t x n s'
    using that assms(4) by (auto simp: volumes_step_def page_verdict_def split: prod.splits option.splits)
  then have 2: "\<exists>r. pages c (volumes_step api p a ids) seen t x = Some r" for c ids seen t x
    by (intro pages_return [OF assms(1)]) blast
  have r1: "\<exists>e pr' s'. read_instances V p a now ids pr s = Some (e, pr', s')" for now ids pr s
  proof -
    obtain e q s' where "pages (on_state (ve_ctx V)) (instances_step api p a now ids) [] None (pr, s) = Some (e, q, s')"
      using 1 by (metis prod.collapse)
    then show ?thesis by (simp add: read_instances_def assms(2))
  qed
  have r2: "\<exists>e pr' s'. read_volumes V p a pr s = Some (e, pr', s')" for pr s
  proof -
    obtain b m where pr: "pr = (b, m)" by (cases pr)
    obtain e q s' where "pages (on_state (ve_ctx V)) (volumes_step api p a (root_ids m)) [] None (([], b, refuse_shared_roots m), s) = Some (e, q, s')"
      using 2 by (metis prod.collapse)
    then show ?thesis by (cases q) (simp add: read_volumes_def assms(2) pr Let_def)
  qed
  obtain now g1 where n: "ve_now V g = (now, g1)" by (cases "ve_now V g")
  obtain e1 pr1 s1 where a1: "read_instances V p a now (filter (re_match instanceRE) (map fst (start_observations p a known)))
      (list_ex (\<lambda>k. \<not> re_match instanceRE k) (map fst (start_observations p a known)), refuse_identities (start_observations p a known)) g1
      = Some (e1, pr1, s1)" using r1 by blast
  obtain e2 pr2 s2 where a2: "read_volumes V p a pr1 s1 = Some (e2, pr2, s2)" using r2 by blast
  show ?thesis unfolding VerifyFleetWorkers_def Let_def n prod.case a1 option.case a2 by blast
qed

end
