(* ===== verification/TeardownProperties.thy ===== *)
theory TeardownProperties
  imports InventoryProperties
begin

text \<open>
  What removing machines guarantees: only machines that were selected, and are still what was selected, are
  terminated, each at most once; and success is only reported on observed evidence.
\<close>

section \<open>Reads\<close>

lemma downInventory_rows:
  assumes "downInventory E c i name grp h = ((rows, err), h')"
  shows "rows_ok E c (selector_of i name grp) h' rows" "calm h h'"
  using inventorySelection_ok assms unfolding downInventory_def by blast+

text \<open>An exact read returns at most the machine asked for.\<close>

lemma exact_read:
  assumes "downInventory E c i [] [] h = ((rows, err), h')" "i \<noteq> []"
  shows "r \<in> set rows \<Longrightarrow> in_ID r = i \<and> genuine E c (selector_of i [] []) h' r" and "calm h h'"
  using downInventory_rows [OF assms(1)] assms(2) by (auto simp: rows_ok_def list_all_iff genuine_def selector_of_def)

lemma merge_rows_same [simp]: "same_machine (merge_rows rs i) i"
proof (induction rs arbitrary: i)
  case (Cons r rs)
  have "merge_rows (r # rs) i = merge_rows rs (if in_ID r = in_ID i then merge_volumes (in_Volumes r) i else i)"
    by (simp add: merge_rows_def)
  then show ?case using Cons.IH [of "merge_volumes (in_Volumes r) i"] Cons.IH [of i] same_machine_trans [OF _ merge_same(1)] by auto
qed (simp add: merge_rows_def)

lemma merge_rows_ID [simp]: "in_ID (merge_rows rs i) = in_ID i"
  using merge_rows_same [of rs i] by (simp add: same_machine_def)

lemma mergeDown_same [simp]: "same_machine (mergeDownObservation i r) r" "in_ID (mergeDownObservation i r) = in_ID r"
  by (simp_all add: mergeDownObservation_def same_machine_def Let_def)

lemma copyDown_ID [simp]: "in_ID (copyDownInstance i) = in_ID i"
  by (simp add: copyDownInstance_def)

section \<open>Volumes\<close>

text \<open>The volume was seen to be gone: EC2 does not know it, or an exact reply shows it deleted and detached.\<close>

definition seen_deleted :: "ec2_env \<Rightarrow> config \<Rightarrow> string \<Rightarrow> ec2_log \<Rightarrow> bool" where
  "seen_deleted E c v h \<longleftrightarrow> (\<exists>later before out err. h = later @ DescribeVolumes v # before
     \<and> ec_volumes E (DescribeVolumes v # before) = (out, err)
     \<and> ((apiCode err ''InvalidVolume.NotFound'' \<and> out = None)
        \<or> (err = None \<and> exactDownVolume c out v \<and> av_State (hd (dv_Volumes (the out))) = ''deleted'')))"

lemma seen_deleted_later:
  assumes "seen_deleted E c v h" "calm h h'"
  shows "seen_deleted E c v h'"
proof -
  from assms(2) obtain es where h': "h' = es @ h" by (auto simp: calm_def)
  from assms(1) obtain later before out err where d: "h = later @ DescribeVolumes v # before"
    "ec_volumes E (DescribeVolumes v # before) = (out, err)"
    "(apiCode err ''InvalidVolume.NotFound'' \<and> out = None)
     \<or> (err = None \<and> exactDownVolume c out v \<and> av_State (hd (dv_Volumes (the out))) = ''deleted'')"
    unfolding seen_deleted_def by blast
  show ?thesis unfolding seen_deleted_def using d h'
    by (intro exI [of _ "es @ later"] exI [of _ before] exI [of _ out] exI [of _ err]) simp
qed

lemma observe_volume_spec:
  "down_observe_volume E c v n k h = (r, h') \<Longrightarrow> calm h h' \<and> (r = None \<longrightarrow> seen_deleted E c v h')"
proof (induction n arbitrary: k h)
  case (Suc n)
  let ?h = "DescribeVolumes v # ReadCtx # h"
  obtain out err where q: "ec_volumes E ?h = (out, err)" by fastforce
  have calm: "calm h (ReadCtx # h)" "calm h ?h" "calm h (Pause k # ?h)" by (simp_all add: calm_Cons)
  let ?gone = "apiCode err ''InvalidVolume.NotFound'' \<and> out = None"
  let ?deleted = "err = None \<and> exactDownVolume c out v \<and> av_State (hd (dv_Volumes (the out))) = ''deleted''"
  have here: "seen_deleted E c v ?h" if "?gone \<or> ?deleted"
    unfolding seen_deleted_def using that q by (intro exI [of _ "[]"] exI [of _ "ReadCtx # h"] exI [of _ out] exI [of _ err]) simp
  show ?case
  proof (cases "ec_ctx E (ReadCtx # h)")
    case Some
    then show ?thesis using Suc.prems calm by (auto simp: Let_def)
  next
    case None
    let ?again = "case ec_pause E (Pause k # ?h) of Some e \<Rightarrow> (Some (OpCtx e), Pause k # ?h) | None \<Rightarrow> down_observe_volume E c v n (Suc k) (Pause k # ?h)"
    have run: "(if ?gone then (None, ?h) else if err \<noteq> None \<or> \<not> exactDownVolume c out v then (Some (OpFailure ''volume_unresolved''), ?h)
        else if av_State (hd (dv_Volumes (the out))) = ''deleted'' then (None, ?h) else ?again) = (r, h')"
      using Suc.prems by (simp only: down_observe_volume.simps Let_def q None option.case prod.case)
    have "calm h h' \<and> (r = None \<longrightarrow> seen_deleted E c v h')" if "?again = (r, h')"
      using that calm(3) Suc.IH calm_trans [OF calm(3)] by (cases "ec_pause E (Pause k # ?h)") auto
    moreover have "(\<exists>e. r = Some e) \<and> h' = ?h \<or> (r = None \<and> h' = ?h \<and> (?gone \<or> ?deleted)) \<or> ?again = (r, h')"
      using run by (auto split: if_splits)
    ultimately show ?thesis using calm(2) here by blast
  qed
qed auto

text \<open>A volume keeps its identity; without an error no root is left, and what is marked deleted was seen so.\<close>

lemma observe_volumes_spec:
  "down_observe_volumes E c vs h = ((ws, es), h') \<Longrightarrow> calm h h' \<and> map iv_ID ws = map iv_ID vs \<and> map iv_Root ws = map iv_Root vs
     \<and> (es = [] \<longrightarrow> list_all (\<lambda>w. iv_Deletion w = ''deleted'' \<and> seen_deleted E c (iv_ID w) h' \<or> \<not> iv_Root w) ws)"
proof (induction vs arbitrary: h ws es h')
  case (Cons v vs)
  show ?case
  proof (cases "iv_DeleteOnTermination v")
    case False
    obtain ws1 es1 h1 where o: "down_observe_volumes E c vs h = ((ws1, es1), h1)" by (metis prod.collapse)
    show ?thesis using Cons.IH [OF o] Cons.prems False by (auto simp: o split: if_splits)
  next
    case True
    obtain r h1 where v: "down_observe_volume E c (iv_ID v) 30 0 h = (r, h1)" by fastforce
    obtain ws1 es1 h2 where o: "down_observe_volumes E c vs h1 = ((ws1, es1), h2)" by (metis prod.collapse)
    note s = observe_volume_spec [OF v] and t = Cons.IH [OF o]
    have h': "h' = h2" using Cons.prems True by (auto simp: v o split: option.splits)
    have "r = None \<Longrightarrow> seen_deleted E c (iv_ID v) h2" using s t seen_deleted_later by blast
    then show ?thesis using s t calm_trans Cons.prems True unfolding h' by (auto simp: v o split: option.splits)
  qed
qed simp

lemma observeDownVolumes_spec:
  assumes "observeDownVolumes E c i h = ((j, es), h')"
  shows "calm h h'" "in_ID j = in_ID i" "in_State j = in_State i"
    and "es = [] \<Longrightarrow> downRootsDeleted j \<and> (\<forall>v \<in> set (elems (in_Volumes j)). iv_Root v \<longrightarrow> seen_deleted E c (iv_ID v) h')"
proof -
  obtain vs es1 h1 where o: "down_observe_volumes E c (elems (in_Volumes i)) h = ((vs, es1), h1)" by (metis prod.collapse)
  note s = observe_volumes_spec [OF o]
  have j: "h' = h1" "in_Volumes j = Some vs" "in_ID j = in_ID i" "in_State j = in_State i"
    "es = es1 @ (if list_ex iv_Root vs then [] else [downResourceError (in_ID i) (OpFailure ''root_volume_unverified'')])"
    using assms by (auto simp: observeDownVolumes_def o Let_def)
  show "calm h h'" "in_ID j = in_ID i" "in_State j = in_State i" using s j by simp_all
  assume "es = []"
  then have "es1 = []" "list_ex iv_Root vs" using j(5) by (simp_all split: if_splits)
  then show "downRootsDeleted j \<and> (\<forall>v \<in> set (elems (in_Volumes j)). iv_Root v \<longrightarrow> seen_deleted E c (iv_ID v) h')"
    using s j(1,2) by (auto simp: downRootsDeleted_def elems_def list_all_iff list_ex_iff filter_empty_conv)
qed

section \<open>One worker\<close>

text \<open>What a worker without an error has seen: the machine terminated, and every root volume gone.\<close>

definition proven_gone :: "ec2_env \<Rightarrow> config \<Rightarrow> string \<Rightarrow> teardown_worker \<Rightarrow> ec2_log \<Rightarrow> bool" where
  "proven_gone E c x w h \<longleftrightarrow> down_cleaned w \<and> (\<exists>r. genuine E c (selector_of x [] []) h r \<and> in_ID r = x \<and> in_State r = ''terminated'')
     \<and> (\<forall>v \<in> set (elems (in_Volumes (tw_Instance w))). iv_Root v \<longrightarrow> seen_deleted E c (iv_ID v) h)"

text \<open>The result of a stretch of a worker that terminates nothing itself.\<close>

definition worker_ok :: "ec2_env \<Rightarrow> config \<Rightarrow> string \<Rightarrow> ec2_log \<Rightarrow> teardown_worker \<Rightarrow> ec2_log \<Rightarrow> bool" where
  "worker_ok E c x h w h' \<longleftrightarrow> calm h h' \<and> tw_ID w = x \<and> (tw_Errors w = [] \<longrightarrow> proven_gone E c x w h')"

lemma down_fail_ok: "calm h h' \<Longrightarrow> in_ID i = x \<Longrightarrow> worker_ok E c x h \<lparr>tw_Instance = i, tw_Status = status, tw_Errors = [e]\<rparr> h'"
  by (simp add: worker_ok_def)

lemma worker_ok_later: "worker_ok E c x h1 w h2 \<Longrightarrow> calm h h1 \<Longrightarrow> worker_ok E c x h w h2"
  unfolding worker_ok_def using calm_trans by blast

lemma observed_gone_ok:
  assumes "observed_gone E c status i h = (w, h')" "status \<in> {''termination_observed'', ''already_terminated''}"
    and "genuine E c (selector_of x [] []) h r" "in_ID r = x" "in_State r = ''terminated''" "in_ID i = x"
  shows "worker_ok E c x h w h'"
proof -
  obtain j es h1 where o: "observeDownVolumes E c i h = ((j, es), h1)" by (metis prod.collapse)
  note s = observeDownVolumes_spec [OF o]
  have "w = \<lparr>tw_Instance = j, tw_Status = status, tw_Errors = es\<rparr>" "h' = h1" using assms(1) by (simp_all add: observed_gone_def o)
  moreover have "\<exists>r. genuine E c (selector_of x [] []) h1 r \<and> in_ID r = x \<and> in_State r = ''terminated''"
    using genuine_calm [OF s(1) assms(3)] assms(4,5) by blast
  ultimately show ?thesis using s assms(2,6) by (auto simp: worker_ok_def proven_gone_def down_cleaned_def)
qed

lemma merge_single_simps [simp]: "merge_single [] i = i" "merge_single [r] i = mergeDownObservation i r" "merge_single (r # s # rs) i = i"
  by (simp_all add: merge_single_def)

lemma merge_single_ID: "\<forall>r \<in> set rows. in_ID r = x \<Longrightarrow> in_ID i = x \<Longrightarrow> in_ID (merge_single rows i) = x"
  by (cases rows; cases "tl rows") auto

lemma await_termination_Suc:
  assumes "downInventory E c (in_ID i) [] [] h = ((rows, err), h1)"
  shows "await_termination E c (Suc n) k status i h = (case err of Some e \<Rightarrow> (down_fail (merge_rows rows i) status e, h1)
      | None \<Rightarrow> let j = merge_single rows (merge_rows rows i) in
        if length rows = 1 \<and> in_State j = ''terminated'' then observed_gone E c ''termination_observed'' j h1
        else case ec_pause E (Pause k # h1) of Some e \<Rightarrow> (down_fail j status (OpCtx e), Pause k # h1)
          | None \<Rightarrow> await_termination E c n (Suc k) status j (Pause k # h1))"
  by (simp only: await_termination.simps assms Let_def prod.case)

lemma await_termination_ok:
  "await_termination E c n k status i h = (w, h') \<Longrightarrow> in_ID i = x \<Longrightarrow> x \<noteq> [] \<Longrightarrow> worker_ok E c x h w h'"
proof (induction n arbitrary: k i h)
  case (Suc n)
  obtain rows err h1 where d: "downInventory E c (in_ID i) [] [] h = ((rows, err), h1)" by (metis prod.collapse)
  have read: "r \<in> set rows \<Longrightarrow> in_ID r = x \<and> genuine E c (selector_of x [] []) h1 r" and calm: "calm h h1" for r
    using exact_read [OF d] Suc.prems(2,3) by auto
  let ?j = "merge_rows rows i"
  let ?i = "merge_single rows ?j"
  have id: "in_ID ?i = x" using read Suc.prems(2) by (intro merge_single_ID) auto
  have c2: "calm h (Pause k # h1)" using calm by (simp add: calm_Cons)
  note run = Suc.prems(1) [unfolded await_termination_Suc [OF d] Let_def]
  show ?case
  proof (cases err)
    case (Some e)
    then show ?thesis using run down_fail_ok [OF calm, of ?j x] Suc.prems(2) by auto
  next
    case None
    show ?thesis
    proof (cases "length rows = 1 \<and> in_State ?i = ''terminated''")
      case True
      then obtain r where r: "rows = [r]" by (cases rows) auto
      have "observed_gone E c ''termination_observed'' ?i h1 = (w, h')" using run True None by simp
      moreover have "in_State r = ''terminated''" using True by (simp add: r merge_single_def mergeDownObservation_def Let_def)
      moreover have "genuine E c (selector_of x [] []) h1 r" "in_ID r = x" using read [of r] by (simp_all add: r)
      ultimately have "worker_ok E c x h1 w h'" using observed_gone_ok [OF _ _ _ _ _ id] by blast
      then show ?thesis using calm by (rule worker_ok_later)
    next
      case False
      show ?thesis
      proof (cases "ec_pause E (Pause k # h1)")
        case (Some e)
        then show ?thesis using run None False down_fail_ok [OF c2 id] by auto
      next
        case go: None
        then have "await_termination E c n (Suc k) status ?i (Pause k # h1) = (w, h')" using run None False by auto
        from worker_ok_later [OF Suc.IH [OF this id Suc.prems(3)] c2] show ?thesis .
      qed
    qed
  qed
qed (auto intro: down_fail_ok)

text \<open>The one call that changes anything, and what it stands on.\<close>

definition authorised :: "ec2_env \<Rightarrow> config \<Rightarrow> down_candidate \<Rightarrow> ec2_log \<Rightarrow> bool" where
  "authorised E c d before \<longleftrightarrow> (\<exists>r. genuine E c (selector_of (cd_ID d) [] []) before r \<and> in_ID r = cd_ID d
     \<and> (\<forall>n \<in> set (cd_names d). in_Name r = n) \<and> (cd_group d = [] \<or> in_Group r = cd_group d)
     \<and> in_State r \<in> {''pending'', ''running'', ''stopping'', ''stopped''})"

definition one_termination :: "ec2_env \<Rightarrow> config \<Rightarrow> down_candidate \<Rightarrow> ec2_log \<Rightarrow> ec2_log \<Rightarrow> bool" where
  "one_termination E c d h h' \<longleftrightarrow> calm h h' \<or> (\<exists>before. calm h before \<and> authorised E c d before
     \<and> calm (TerminateInstances (cd_ID d) # ReadCtx # before) h')"

definition ends_well :: "ec2_env \<Rightarrow> config \<Rightarrow> down_candidate \<Rightarrow> ec2_log \<Rightarrow> teardown_worker \<Rightarrow> ec2_log \<Rightarrow> bool" where
  "ends_well E c d h w h' \<longleftrightarrow> one_termination E c d h h' \<and> tw_ID w = cd_ID d
     \<and> (tw_Errors w = [] \<longrightarrow> proven_gone E c (cd_ID d) w h')"

lemma worker_ends_well: "worker_ok E c (cd_ID d) h w h' \<Longrightarrow> ends_well E c d h w h'"
  by (simp add: worker_ok_def ends_well_def one_termination_def)

lemma request_termination_ok:
  assumes "request_termination E c i (ReadCtx # h) = (w, h')" "in_ID i = cd_ID d" "cd_ID d \<noteq> []" "calm h0 h"
    and "in_State i \<noteq> ''shutting-down'' \<Longrightarrow> authorised E c d h"
  shows "ends_well E c d h0 w h'"
proof (cases "in_State i = ''shutting-down''")
  case True
  have c: "calm h0 (ReadCtx # h)" using assms(4) by (simp add: calm_Cons)
  show ?thesis
    using True assms(1) worker_ok_later [OF await_termination_ok c] assms(2,3) by (auto simp: request_termination_def intro: worker_ends_well)
next
  case False
  let ?h = "TerminateInstances (in_ID i) # ReadCtx # h"
  have "worker_ok E c (cd_ID d) ?h w h'"
    using False assms(1) assms(2,3)
    by (auto simp: request_termination_def Let_def split: if_splits intro: down_fail_ok await_termination_ok)
  then show ?thesis
    using assms(2,4) assms(5) [OF False] by (auto simp: worker_ok_def ends_well_def one_termination_def)
qed

lemma act_on_machine_ok:
  assumes "act_on_machine E c d i h = (w, h')" "calm h0 h" "cd_ID d \<noteq> []" "same_machine i r"
    and "genuine E c (selector_of (cd_ID d) [] []) h r" "in_ID r = cd_ID d"
  shows "ends_well E c d h0 w h'"
proof -
  have id: "in_ID i = cd_ID d" using assms(4,6) by (simp add: same_machine_def)
  have fail: "ends_well E c d h0 (down_fail i status e) h" for status e
    by (rule worker_ends_well [OF down_fail_ok [OF assms(2) id]])
  have fail': "ends_well E c d h0 (down_fail i status e) (ReadCtx # h)" for status e
    using assms(2) by (intro worker_ends_well down_fail_ok id calm_Cons) simp_all
  have gone: "ends_well E c d h0 w h'" if "observed_gone E c ''already_terminated'' i h = (w, h')" "in_State i = ''terminated''"
    using worker_ok_later [OF observed_gone_ok [OF that(1)] assms(2)] that(2) assms(4-6) id
    by (intro worker_ends_well) (auto simp: same_machine_def)
  have auth: "authorised E c d h" if "list_all (\<lambda>n. in_Name i = n) (cd_names d)" "cd_group d = [] \<or> in_Group i = cd_group d"
    "in_State i \<in> set removable_states" "in_State i \<noteq> ''shutting-down''"
    unfolding authorised_def using that assms(4-6)
    by (intro exI [of _ r]) (auto simp: same_machine_def list_all_iff removable_states_def)
  show ?thesis
    using assms(1) fail fail' gone request_termination_ok [OF _ id assms(3,2) auth]
    unfolding act_on_machine_def Let_def by (auto split: if_splits option.splits)
qed

lemma executeDownWorker_ok:
  assumes "executeDownWorker E c d h = (w, h')" "cd_ID d \<noteq> []"
  shows "ends_well E c d h w h'"
proof -
  let ?i = "copyDownInstance (cd_instance d)"
  obtain rows err h1 where r: "downInventory E c (cd_ID d) [] [] h = ((rows, err), h1)" by (metis prod.collapse)
  have read: "r \<in> set rows \<Longrightarrow> in_ID r = cd_ID d \<and> genuine E c (selector_of (cd_ID d) [] []) h1 r" and calm: "calm h h1" for r
    using exact_read [OF r assms(2)] by auto
  have fail: "ends_well E c d h (down_fail (merge_rows rows ?i) status e) h1" for status e
    by (rule worker_ends_well [OF down_fail_ok [OF calm]]) simp
  have act: "ends_well E c d h w h'" if "act_on_machine E c d (mergeDownObservation (merge_rows rows ?i) x) h1 = (w, h')" "rows = [x]" for x
    using act_on_machine_ok [OF that(1) calm assms(2) mergeDown_same(1)] read [of x] that(2) by simp
  show ?thesis
    using assms(1) fail act unfolding executeDownWorker_def Let_def
    by (auto simp: r split: option.splits list.splits)
qed

section \<open>Selection\<close>

text \<open>EC2 listed the machine \<open>x\<close> in the scope.\<close>

definition known_machine :: "ec2_env \<Rightarrow> config \<Rightarrow> ec2_log \<Rightarrow> string \<Rightarrow> bool" where
  "known_machine E c h x \<longleftrightarrow> (\<exists>q r. genuine E c q h r \<and> in_ID r = x)"

lemma known_machine_ID: "known_machine E c h x \<Longrightarrow> x \<noteq> []"
proof -
  have "\<not> re_match instanceRE []" by (simp add: grammar_eval)
  then show "known_machine E c h x \<Longrightarrow> x \<noteq> []"
    by (auto simp: known_machine_def genuine_def validInventoryIdentity_def labels_ok_def Let_def same_machine_def observed_inst_def)
qed

lemma known_machine_later: "known_machine E c h x \<Longrightarrow> calm h h' \<Longrightarrow> known_machine E c h' x"
  unfolding known_machine_def using genuine_calm by blast

text \<open>The read of the target \<open>t\<close> left exactly one choice, the machine \<open>x\<close>: the only live match, or the only
  match when none is live.\<close>

definition read_target :: "ec2_env \<Rightarrow> config \<Rightarrow> string \<Rightarrow> ec2_log \<Rightarrow> (inst list \<times> op_error option) \<times> ec2_log" where
  "read_target E c t h = (if re_match instanceRE t then downInventory E c t [] [] h else downInventory E c [] t [] h)"

definition picked :: "ec2_env \<Rightarrow> config \<Rightarrow> string \<Rightarrow> ec2_log \<Rightarrow> string \<Rightarrow> bool" where
  "picked E c t h x \<longleftrightarrow> (\<exists>h1 rows h2 es r. read_target E c t h1 = ((rows, None), h2) \<and> h = es @ h2
     \<and> (active rows = [r] \<or> (active rows = [] \<and> rows = [r])) \<and> in_ID r = x)"

lemma picked_later: "picked E c t h x \<Longrightarrow> calm h h' \<Longrightarrow> picked E c t h' x"
  unfolding picked_def calm_def by (metis append.assoc)

lemma read_target_rows:
  assumes "read_target E c t h = ((rows, err), h')"
  shows "calm h h'" "r \<in> set rows \<Longrightarrow> known_machine E c h' (in_ID r)"
proof -
  obtain i n where d: "downInventory E c i n [] h = ((rows, err), h')" using assms by (auto simp: read_target_def split: if_splits)
  show "calm h h'" by (rule downInventory_rows(2) [OF d])
  show "known_machine E c h' (in_ID r)" if "r \<in> set rows"
    using downInventory_rows(1) [OF d] that unfolding known_machine_def rows_ok_def list_all_iff by blast
qed

lemma resolve_target_one:
  assumes "resolve_target (rows, err) = (found, None)"
  shows "err = None" "\<exists>r. found = [r] \<and> r \<in> set rows \<and> (active rows = [r] \<or> (active rows = [] \<and> rows = [r]))"
proof -
  show err: "err = None" using assms by (auto simp: resolve_target_def split: option.splits)
  have f: "found = candidate_rows rows" "single_match found = None" using assms by (auto simp: resolve_target_def err)
  from f(2) obtain r where r: "found = [r]" unfolding single_match_def by (auto split: list.splits)
  have "set (active rows) \<subseteq> set rows" by (auto simp: active_def)
  then show "\<exists>r. found = [r] \<and> r \<in> set rows \<and> (active rows = [r] \<or> (active rows = [] \<and> rows = [r]))"
    using f(1) [symmetric] unfolding r candidate_rows_def by (intro exI [of _ r]) (auto split: if_splits)
qed

lemma addWorker_IDs: "map tw_ID (addWorker i st err ws) = (if in_ID i \<in> tw_ID ` set ws then map tw_ID ws else map tw_ID ws @ [in_ID i])"
  by (auto simp: addWorker_def Let_def o_def split: option.split)

lemma add_workers_IDs:
  "distinct (map tw_ID ws) \<Longrightarrow> distinct (map tw_ID (add_workers rows st err ws)) \<and> tw_ID ` set ws \<subseteq> tw_ID ` set (add_workers rows st err ws)"
proof (induction rows arbitrary: ws)
  case (Cons r rows)
  have d: "distinct (map tw_ID (addWorker r st err ws))" using Cons.prems by (auto simp: addWorker_IDs)
  have "set (map tw_ID ws) \<subseteq> set (map tw_ID (addWorker r st err ws))" unfolding addWorker_IDs by auto
  with Cons.IH [OF d] show ?case by (force simp: add_workers_def)
qed (simp add: add_workers_def)

lemma put_candidate_IDs: "map cd_ID (put_candidate i name grp cs) = (if in_ID i \<in> cd_ID ` set cs then map cd_ID cs else map cd_ID cs @ [in_ID i])"
  by (auto simp: put_candidate_def Let_def o_def)

text \<open>A candidate is as it was, or is the machine added, with its name.\<close>

lemma put_candidate_member:
  assumes "d \<in> set (put_candidate i name grp cs)"
  shows "\<exists>e. (e \<in> set cs \<or> (e = \<lparr>cd_instance = copyDownInstance i, cd_names = [], cd_group = grp\<rparr>)) \<and> cd_ID d = cd_ID e \<and> cd_group d = cd_group e
    \<and> (cd_names d = cd_names e \<or> (cd_ID e = in_ID i \<and> name \<noteq> [] \<and> cd_names d = cd_names e @ [name]))"
  using assms by (fastforce simp: put_candidate_def Let_def split: if_splits)

definition tracked :: "selecting \<Rightarrow> bool" where
  "tracked s \<longleftrightarrow> distinct (map cd_ID (se_candidates s)) \<and> distinct (map tw_ID (se_workers s))
     \<and> cd_ID ` set (se_candidates s) \<subseteq> tw_ID ` set (se_workers s)"

lemma addCandidate_tracked: "tracked s \<Longrightarrow> tracked (addCandidate i name grp s)"
proof -
  assume s: "tracked s"
  have w: "set (map tw_ID (addWorker i st None ws)) = insert (in_ID i) (tw_ID ` set ws)" for st ws
    unfolding addWorker_IDs by auto
  have k: "set (map cd_ID (put_candidate i name grp cs)) = insert (in_ID i) (cd_ID ` set cs)" for cs
    unfolding put_candidate_IDs by auto
  have "cd_ID ` set (put_candidate i name grp (se_candidates s)) \<subseteq> tw_ID ` set (addWorker i ''termination_not_requested'' None (se_workers s))"
    using s w [of "''termination_not_requested''" "se_workers s"] k [of "se_candidates s"] by (auto simp: tracked_def)
  with s show ?thesis by (simp add: tracked_def addCandidate_def put_candidate_IDs addWorker_IDs)
qed

lemma tracked_more:
  assumes "tracked s" "distinct (map tw_ID ws)" "tw_ID ` set (se_workers s) \<subseteq> tw_ID ` set ws"
  shows "tracked (s\<lparr>se_errors := es, se_workers := ws\<rparr>)"
  using assms(1,2) subset_trans [OF _ assms(3)] by (simp add: tracked_def)

lemma addWorker_more:
  assumes "distinct (map tw_ID ws)" "tw_ID ` V \<subseteq> tw_ID ` set ws"
  shows "distinct (map tw_ID (addWorker i st err ws)) \<and> tw_ID ` V \<subseteq> tw_ID ` set (addWorker i st err ws)"
proof -
  have "set (map tw_ID ws) \<subseteq> set (map tw_ID (addWorker i st err ws))" unfolding addWorker_IDs by auto
  then have "tw_ID ` set ws \<subseteq> tw_ID ` set (addWorker i st err ws)" by simp
  moreover have "distinct (map tw_ID (addWorker i st err ws))" using assms(1) by (simp add: addWorker_IDs)
  ultimately show ?thesis using subset_trans [OF assms(2)] by blast
qed

lemma add_target_tracked:
  assumes "tracked s"
  shows "tracked (add_target t r s)"
proof -
  obtain found err where r: "resolve_target r = (found, err)" by fastforce
  show ?thesis
  proof (cases err)
    case None
    then show ?thesis using addCandidate_tracked [OF assms] by (simp add: add_target_def r Let_def)
  next
    case (Some e)
    let ?ws = "add_workers found ''selection_unverified'' (Some (downResourceError t e)) (se_workers s)"
    have d: "distinct (map tw_ID ?ws)" "tw_ID ` set (se_workers s) \<subseteq> tw_ID ` set ?ws"
      using add_workers_IDs assms by (auto simp: tracked_def)
    note a = addWorker_more [OF d, of "unknown_inst t" "''target_unresolved''" "Some (downResourceError t e)"]
    let ?c = "found = [] \<and> (if re_match instanceRE t then t else []) \<noteq> []"
    have eq: "add_target t r s = s\<lparr>se_errors := se_errors s @ [downResourceError t e], se_workers :=
        if ?c then addWorker (unknown_inst (if re_match instanceRE t then t else [])) ''target_unresolved'' (Some (downResourceError t e)) ?ws else ?ws\<rparr>"
      by (simp only: add_target_def r Let_def prod.case Some option.case)
    show ?thesis
    proof (cases ?c)
      case True
      then show ?thesis unfolding eq if_P [OF True] using a by (intro tracked_more [OF assms]) (simp_all split: if_splits)
    next
      case False
      then show ?thesis unfolding eq if_not_P [OF False] using d by (intro tracked_more [OF assms])
    qed
  qed
qed

section \<open>What the targets authorize\<close>

definition authorises :: "ec2_env \<Rightarrow> config \<Rightarrow> string list \<Rightarrow> ec2_log \<Rightarrow> down_candidate \<Rightarrow> bool" where
  "authorises E c ts h d \<longleftrightarrow> known_machine E c h (cd_ID d) \<and> cd_group d = [] \<and> (\<exists>t \<in> set ts. picked E c t h (cd_ID d))
     \<and> (\<forall>n \<in> set (cd_names d). n \<in> set ts \<and> picked E c n h (cd_ID d))"

lemma authorises_later: "authorises E c ts h d \<Longrightarrow> calm h h' \<Longrightarrow> set ts \<subseteq> set us \<Longrightarrow> authorises E c us h' d"
  unfolding authorises_def using known_machine_later picked_later by blast

lemma add_target_authorises:
  assumes "read_target E c t h = (r, h1)" "list_all (authorises E c ts h) (se_candidates s)" "set ts \<subseteq> set us" "t \<in> set us"
  shows "list_all (authorises E c us h1) (se_candidates (add_target t r s))"
proof -
  obtain rows err where r: "r = (rows, err)" by fastforce
  note read = read_target_rows [OF assms(1) [unfolded r]]
  have old: "authorises E c us h1 d" if "d \<in> set (se_candidates s)" for d
    using authorises_later [OF _ read(1) assms(3)] assms(2) that by (simp add: list_all_iff)
  obtain found e where f: "resolve_target r = (found, e)" by fastforce
  show ?thesis
  proof (cases e)
    case (Some x)
    then show ?thesis using old by (auto simp: add_target_def f Let_def list_all_iff)
  next
    case None
    obtain m where m: "found = [m]" "m \<in> set rows" "active rows = [m] \<or> (active rows = [] \<and> rows = [m])" and err: "err = None"
      using resolve_target_one [of rows err found] f None by (auto simp: r)
    have p: "picked E c t h1 (in_ID m)" unfolding picked_def
      using assms(1) m(3) err by (intro exI [of _ h] exI [of _ rows] exI [of _ h1] exI [of _ "[]"] exI [of _ m]) (simp add: r)
    let ?name = "if re_match instanceRE t then [] else t"
    have "authorises E c us h1 d" if "d \<in> set (put_candidate m ?name [] (se_candidates s))" for d
      using put_candidate_member [OF that] old p read(2) [OF m(2)] assms(4) by (fastforce simp: authorises_def)
    then show ?thesis using None by (simp add: add_target_def f m(1) Let_def addCandidate_def list_all_iff)
  qed
qed

lemma select_targets_ok:
  assumes "select_targets E c seen ts s h = (s', h')" "tracked s" "list_all (authorises E c us h) (se_candidates s)" "set ts \<subseteq> set us"
  shows "calm h h' \<and> tracked s' \<and> list_all (authorises E c us h') (se_candidates s')"
  using assms
proof (induction ts arbitrary: seen s h)
  case (Cons t ts)
  show ?case
  proof (cases "t \<in> set seen")
    case True
    then show ?thesis using Cons by simp
  next
    case False
    obtain r h1 where r: "read_target E c t h = (r, h1)" by fastforce
    have calm: "calm h h1" using read_target_rows(1) [of E c t h "fst r" "snd r" h1] r by simp
    have "select_targets E c (t # seen) ts (add_target t r s) h1 = (s', h')"
      using Cons.prems(1) False r by (auto simp: read_target_def split: if_splits)
    from Cons.IH [OF this add_target_tracked [OF Cons.prems(2)]] add_target_authorises [OF r Cons.prems(3) subset_refl] Cons.prems(4)
    show ?thesis using calm_trans [OF calm] by simp
  qed
qed simp

section \<open>The plan\<close>

lemma finish_plan [simp]:
  "set (tp_candidates (finish_selection c s)) = set (se_candidates s)"
  "distinct (map cd_ID (tp_candidates (finish_selection c s))) \<longleftrightarrow> distinct (map cd_ID (se_candidates s))"
  "set (to_Workers (tp_outcome (finish_selection c s))) = set (se_workers s)"
  "distinct (map tw_ID (to_Workers (tp_outcome (finish_selection c s)))) \<longleftrightarrow> distinct (map tw_ID (se_workers s))"
  "to_Selected (tp_outcome (finish_selection c s)) = length (se_candidates s)"
  by (simp_all add: finish_selection_def distinct_map inj_on_def)

definition whole_candidate :: "string \<Rightarrow> inst \<Rightarrow> down_candidate" where
  "whole_candidate grp i = \<lparr>cd_instance = copyDownInstance i, cd_names = [], cd_group = grp\<rparr>"

lemma add_all_candidates:
  "distinct (map in_ID rows) \<Longrightarrow> in_ID ` set rows \<inter> cd_ID ` set (se_candidates s) = {} \<Longrightarrow>
     se_candidates (fold (\<lambda>i. addCandidate i [] grp) rows s) = se_candidates s @ map (whole_candidate grp) rows"
proof (induction rows arbitrary: s)
  case (Cons r rows)
  have "se_candidates (addCandidate r [] grp s) = se_candidates s @ [whole_candidate grp r]"
    using Cons.prems(2) by (simp add: addCandidate_def put_candidate_def whole_candidate_def Let_def)
  then show ?case using Cons.IH [of "addCandidate r [] grp s"] Cons.prems by (auto simp: whole_candidate_def)
qed simp

lemma add_all_tracked: "tracked s \<Longrightarrow> tracked (fold (\<lambda>i. addCandidate i [] grp) rows s)"
  by (rule fold_invariant [where P = tracked]) (simp_all add: addCandidate_tracked)

lemma no_selection_tracked [simp]: "tracked no_selection" "se_candidates no_selection = []"
  by (simp_all add: tracked_def no_selection_def)

text \<open>The three ways a selection ends.\<close>

lemma SelectDown_cases:
  assumes "SelectDown E c sel h = ((p, err), h')"
  obtains (refused) "tp_candidates p = []" "err \<noteq> None" "calm h h'" "to_Selected (tp_outcome p) = 0"
  | (whole) rows where "ds_All sel \<or> ds_Group sel \<noteq> []" "err = None" "downInventory E c [] [] (ds_Group sel) h = ((rows, None), h')"
      "p = finish_selection c (fold (\<lambda>i. addCandidate i [] (ds_Group sel)) rows no_selection)"
  | (targets) s h1 where "\<not> (ds_All sel \<or> ds_Group sel \<noteq> [])" "err = None"
      "select_targets E c [] (ds_Targets sel) no_selection h = (s, h1)" "h' = ReadCtx # h1" "p = finish_selection c s"
proof (cases "ValidateDownSelection sel = Inr ()")
  case False
  then show thesis using assms by (intro refused) (auto simp: SelectDown_def refused_plan_def finish_selection_def no_selection_def)
next
  case True
  show thesis
  proof (cases "ds_All sel \<or> ds_Group sel \<noteq> []")
    case all: True
    obtain rows e h1 where d: "downInventory E c [] [] (ds_Group sel) h = ((rows, e), h1)" by (metis prod.collapse)
    show thesis
    proof (cases e)
      case None
      then have "p = finish_selection c (fold (\<lambda>i. addCandidate i [] (ds_Group sel)) rows no_selection)" "err = None" "h' = h1"
        using assms True all by (simp_all add: SelectDown_def d)
      then show thesis using whole all d None by blast
    next
      case (Some x)
      then have "tp_candidates p = []" "err \<noteq> None" "h' = h1" "to_Selected (tp_outcome p) = 0"
        using assms True all by (auto simp: SelectDown_def d finish_selection_def no_selection_def Let_def)
      then show thesis using refused downInventory_rows(2) [OF d] by blast
    qed
  next
    case False
    obtain s h1 where t: "select_targets E c [] (ds_Targets sel) no_selection h = (s, h1)" by fastforce
    have calm: "calm h h1" using select_targets_ok [OF t no_selection_tracked(1), of "ds_Targets sel"] by simp
    show thesis
    proof (cases "ec_ctx E (ReadCtx # h1)")
      case None
      then have "p = finish_selection c s" "err = None" "h' = ReadCtx # h1"
        using assms True False by (simp_all add: SelectDown_def t Let_def)
      then show thesis using targets False t by blast
    next
      case (Some e)
      then have "tp_candidates p = []" "err \<noteq> None" "h' = ReadCtx # h1" "to_Selected (tp_outcome p) = 0"
        using assms True False by (auto simp: SelectDown_def t Let_def)
      then show thesis using refused calm_Cons [OF calm, of ReadCtx] by simp
    qed
  qed
qed

lemma SelectDown_whole:
  assumes "downInventory E c [] [] grp h = ((rows, None), h')"
    and "p = finish_selection c (fold (\<lambda>i. addCandidate i [] grp) rows no_selection)"
  shows "set (tp_candidates p) = whole_candidate grp ` set rows" "\<And>r. r \<in> set rows \<Longrightarrow> known_machine E c h' (in_ID r) \<and> (grp = [] \<or> in_Group r = grp)"
proof -
  note rows = downInventory_rows(1) [OF assms(1)]
  show "set (tp_candidates p) = whole_candidate grp ` set rows"
    using add_all_candidates [of rows no_selection grp] rows assms(2) by (simp add: rows_ok_def)
  show "known_machine E c h' (in_ID r) \<and> (grp = [] \<or> in_Group r = grp)" if "r \<in> set rows" for r
  proof -
    have "genuine E c (selector_of [] [] grp) h' r" using rows that by (simp add: rows_ok_def list_all_iff)
    then have "known_machine E c h' (in_ID r)" "sel_group (selector_of [] [] grp) = [] \<or> in_Group r = sel_group (selector_of [] [] grp)"
      unfolding known_machine_def by (blast, auto simp: genuine_def)
    then show ?thesis by (simp add: selector_of_def)
  qed
qed

lemma finish_empty: "tp_candidates (finish_selection c s) = [] \<Longrightarrow> to_Selected (tp_outcome (finish_selection c s)) = 0"
  by (simp add: finish_selection_def) (metis length_0_conv length_sort)

lemma SelectDown_tracked:
  assumes "SelectDown E c sel h = ((p, err), h')" "tp_candidates p \<noteq> []"
  shows "distinct (map cd_ID (tp_candidates p))" "distinct (map tw_ID (to_Workers (tp_outcome p)))"
    "cd_ID ` set (tp_candidates p) \<subseteq> tw_ID ` set (to_Workers (tp_outcome p))" "to_Selected (tp_outcome p) = length (tp_candidates p)"
    "\<And>d. d \<in> set (tp_candidates p) \<Longrightarrow> cd_ID d \<noteq> []"
proof -
  have "\<exists>s. tracked s \<and> p = finish_selection c s \<and> (\<forall>d \<in> set (se_candidates s). known_machine E c h' (cd_ID d))"
    using assms(1)
  proof (cases rule: SelectDown_cases)
    case refused
    then show ?thesis using assms(2) by simp
  next
    case (whole rows)
    show ?thesis using SelectDown_whole [OF whole(3,4)] add_all_tracked [OF no_selection_tracked(1)] unfolding whole(4)
      by (intro exI conjI) (auto simp: whole_candidate_def)
  next
    case (targets s h1)
    have "calm h1 h'" by (simp add: targets(4) calm_Cons)
    with select_targets_ok [OF targets(3) no_selection_tracked(1), of "ds_Targets sel"] targets(5) show ?thesis
      by (auto simp: list_all_iff authorises_def intro: known_machine_later)
  qed
  then obtain s where s: "tracked s" "p = finish_selection c s" "\<forall>d \<in> set (se_candidates s). known_machine E c h' (cd_ID d)" by blast
  then show "distinct (map cd_ID (tp_candidates p))" "distinct (map tw_ID (to_Workers (tp_outcome p)))"
    "cd_ID ` set (tp_candidates p) \<subseteq> tw_ID ` set (to_Workers (tp_outcome p))"
    by (simp_all add: tracked_def)
  show "to_Selected (tp_outcome p) = length (tp_candidates p)" by (simp add: s(2) finish_selection_def)
  show "cd_ID d \<noteq> []" if "d \<in> set (tp_candidates p)" for d using s(2,3) that known_machine_ID by auto
qed

text \<open>C32.  \<open>SelectDown\<close> authorizes only machines that EC2 listed in the verified scope, each once, and changes nothing.  A
  failed selection authorizes none.  For a group or the whole scope the selection is exactly the machines of one
  complete scan.  For explicit targets every machine is the unique live match of a target, or its unique match
  when none is live, and keeps the names it was selected by: an ambiguous name authorizes none of its matches.\<close>

theorem select_down_authorizes:
  assumes "SelectDown E c sel h = ((p, err), h')"
  shows "calm h h' \<and> distinct (map cd_ID (tp_candidates p)) \<and> (err \<noteq> None \<longrightarrow> tp_candidates p = [])
    \<and> (\<forall>d \<in> set (tp_candidates p). known_machine E c h' (cd_ID d))
    \<and> (if ds_All sel \<or> ds_Group sel \<noteq> []
       then err = None \<longrightarrow> (\<exists>rows. downInventory E c [] [] (ds_Group sel) h = ((rows, None), h')
          \<and> set (tp_candidates p) = whole_candidate (ds_Group sel) ` set rows)
       else \<forall>d \<in> set (tp_candidates p). authorises E c (ds_Targets sel) h' d)"
  using assms
proof (cases rule: SelectDown_cases)
  case refused
  then show ?thesis by auto
next
  case (whole rows)
  note w = SelectDown_whole [OF whole(3,4)]
  have "distinct (map cd_ID (tp_candidates p))" using SelectDown_tracked(1) [OF assms] by (cases "tp_candidates p") auto
  moreover have "\<forall>d \<in> set (tp_candidates p). known_machine E c h' (cd_ID d)" using w by (auto simp: whole_candidate_def)
  ultimately show ?thesis using whole(1-3) w(1) downInventory_rows(2) [OF whole(3)] by auto
next
  case (targets s h1)
  have calm: "calm h1 h'" by (simp add: targets(4) calm_Cons)
  note t = select_targets_ok [OF targets(3) no_selection_tracked(1), of "ds_Targets sel"]
  have a: "\<forall>d \<in> set (tp_candidates p). authorises E c (ds_Targets sel) h' d"
    using t targets(5) authorises_later [OF _ calm subset_refl] by (simp add: list_all_iff)
  then have "\<forall>d \<in> set (tp_candidates p). known_machine E c h' (cd_ID d)" by (simp add: authorises_def)
  moreover have "calm h h'" using calm_trans [OF _ calm] t by simp
  moreover have "distinct (map cd_ID (tp_candidates p))" using t targets(5) by (simp add: tracked_def)
  ultimately show ?thesis using a targets(1,2) by auto
qed

section \<open>Execution\<close>

lemma place_worker_other: "u \<in> set ws \<Longrightarrow> tw_ID u \<notin> tw_ID ` set rs \<Longrightarrow> u \<in> set (fold place_worker rs ws)"
proof (induction rs arbitrary: ws)
  case (Cons r rs)
  have "u \<in> set (place_worker r ws)" using Cons.prems by (force simp: place_worker_def)
  then show ?case using Cons.IH Cons.prems(2) by simp
qed simp

lemma place_worker_IDs [simp]: "map tw_ID (place_worker w ws) = map tw_ID ws"
  by (auto simp: place_worker_def)

lemma fold_place_worker:
  "distinct (map tw_ID rs) \<Longrightarrow> tw_ID ` set rs \<subseteq> tw_ID ` set ws \<Longrightarrow> w \<in> set rs \<Longrightarrow>
     \<exists>es. w\<lparr>tw_Errors := es @ tw_Errors w\<rparr> \<in> set (fold place_worker rs ws)"
proof (induction rs arbitrary: ws)
  case (Cons r rs)
  have ids: "tw_ID ` set (place_worker r ws) = tw_ID ` set ws" by (metis place_worker_IDs list.set_map)
  show ?case
  proof (cases "w = r")
    case True
    obtain v where v: "v \<in> set ws" "tw_ID v = tw_ID r" using Cons.prems(2) by force
    then have "r\<lparr>tw_Errors := tw_Errors v @ tw_Errors r\<rparr> \<in> set (place_worker r ws)" by (force simp: place_worker_def)
    moreover have "tw_ID (r\<lparr>tw_Errors := tw_Errors v @ tw_Errors r\<rparr>) \<notin> tw_ID ` set rs" using Cons.prems(1) by simp
    ultimately have "r\<lparr>tw_Errors := tw_Errors v @ tw_Errors r\<rparr> \<in> set (fold place_worker rs (place_worker r ws))"
      by (rule place_worker_other)
    then show ?thesis using True by auto
  next
    case False
    then show ?thesis using Cons.IH [of "place_worker r ws"] Cons.prems ids by auto
  qed
qed simp

lemma run_worker_ok: "cd_ID d \<noteq> [] \<Longrightarrow> run_worker W c d = (w, log) \<Longrightarrow> ends_well (W (cd_ID d)) c d [] w log"
  by (simp add: run_worker_def executeDownWorker_ok)

lemma one_termination_filter:
  "one_termination E c d [] log \<Longrightarrow> filter terminates log = [] \<or> filter terminates log = [TerminateInstances (cd_ID d)]"
  by (auto simp: one_termination_def calm_def list_all_iff filter_empty_conv)

lemma distinct_terminations:
  "list_all2 (\<lambda>d ys. ys = [] \<or> ys = [f d]) ds yss \<Longrightarrow> distinct (map f ds) \<Longrightarrow> distinct (concat yss) \<and> set (concat yss) \<subseteq> f ` set ds"
proof (induction rule: list_all2_induct)
  case (Cons d ds ys yss)
  then show ?case by (elim disjE) auto
qed simp


lemma summarize_complete:
  "to_Status (summarize o1 ws) = ''teardown_complete'' \<Longrightarrow> to_Selected o1 \<noteq> 0 \<and> to_Errors (summarize o1 ws) = [] \<and> (\<forall>w \<in> set ws. tw_Errors w = [])"
  by (auto simp: summarize_def Let_def split: if_splits)

text \<open>C34.  A teardown is only reported complete on evidence: at least one machine was selected, there was no error at all, and
  for every selected machine its worker saw EC2 list exactly that machine, of the scope, as terminated, and saw every root
  volume it knew of gone, at least one.\<close>

theorem teardown_complete_evidence:
  assumes "SelectDown E c sel h = ((p, err), h1)" "ExecuteDown E' W c' p h2 = ((outcome, err'), logs, h3)"
    and "to_Status outcome = ''teardown_complete''"
  shows "tp_candidates p \<noteq> [] \<and> to_Errors outcome = []
    \<and> list_all2 (\<lambda>d log. \<exists>w \<in> set (to_Workers outcome). tw_ID w = cd_ID d \<and> proven_gone (W (cd_ID d)) c' (cd_ID d) w log) (tp_candidates p) logs"
proof -
  let ?run = "run_worker W c'" and ?o = "tp_outcome p"
  let ?rs = "map (\<lambda>d. fst (?run d)) (tp_candidates p)"
  let ?ws = "fold place_worker ?rs (to_Workers ?o)"
  have fits: "plan_fits c' p" using assms(2,3) by (auto simp: ExecuteDown_def split: if_splits)
  then have o: "outcome = summarize ?o ?ws" and logs: "logs = map (\<lambda>d. snd (?run d)) (tp_candidates p)"
    using assms(2) by (auto simp: ExecuteDown_def Let_def o_def)
  have ok: "to_Selected ?o \<noteq> 0" "to_Errors outcome = []" "\<forall>w \<in> set ?ws. tw_Errors w = []"
    using summarize_complete assms(3) unfolding o by blast+
  have some: "tp_candidates p \<noteq> []"
    using ok(1) finish_empty by (cases rule: SelectDown_cases [OF assms(1)]) auto
  note t = SelectDown_tracked [OF assms(1) some]
  have good: "ends_well (W (cd_ID d)) c' d [] (fst (?run d)) (snd (?run d))" if "d \<in> set (tp_candidates p)" for d
    using run_worker_ok [of d W c' "fst (?run d)" "snd (?run d)"] t(5) [OF that] by simp
  have ids: "map tw_ID ?rs = map cd_ID (tp_candidates p)" using good by (simp add: ends_well_def)
  have "\<exists>w \<in> set (to_Workers outcome). tw_ID w = cd_ID d \<and> proven_gone (W (cd_ID d)) c' (cd_ID d) w (snd (?run d))"
    if d: "d \<in> set (tp_candidates p)" for d
  proof -
    let ?w = "fst (?run d)"
    have "tw_ID ` set ?rs = cd_ID ` set (tp_candidates p)" using ids by (metis list.set_map)
    then have "distinct (map tw_ID ?rs)" "tw_ID ` set ?rs \<subseteq> tw_ID ` set (to_Workers ?o)"
      using t(1,3) ids by metis+
    moreover have "?w \<in> set ?rs" using d by simp
    ultimately obtain es where w: "?w\<lparr>tw_Errors := es @ tw_Errors ?w\<rparr> \<in> set ?ws" using fold_place_worker by blast
    then have "tw_Errors ?w = []" "es = []" using ok(3) by force+
    have eq: "?w\<lparr>tw_Errors := []\<rparr> = ?w" using \<open>tw_Errors ?w = []\<close> by simp
    have "?w\<lparr>tw_Errors := []\<rparr> \<in> set ?ws" using w \<open>tw_Errors ?w = []\<close> \<open>es = []\<close> by simp
    then have "?w \<in> set ?ws" unfolding eq .
    then have "?w \<in> set (to_Workers outcome)" "proven_gone (W (cd_ID d)) c' (cd_ID d) ?w (snd (?run d))" "tw_ID ?w = cd_ID d"
      using \<open>tw_Errors ?w = []\<close> good [OF d] by (simp_all add: o summarize_def Let_def ends_well_def)
    then show ?thesis by blast
  qed
  then show ?thesis using some ok(2) by (simp add: logs list_all2_map2 list.rel_refl_strong)
qed

end
