(* ===== verification/TeardownExample.thy ===== *)
theory TeardownExample
  imports TeardownProperties
begin

text \<open>
  The teardown theorems on a concrete run: one machine is selected by its identity, read once more, terminated,
  and seen terminated; EC2 no longer knows its root volume.
\<close>

definition ex_machine_tags :: "tag list" where
  "ex_machine_tags = map (\<lambda>(k, v). \<lparr>t_Key = Some k, t_Value = Some v\<rparr>)
     [(''ManagedBy'', ''devbox''), (''Deployment'', ''dev''), (''Owner'', ''jo''), (''Name'', ''box'')]"

definition ex_machine :: "string \<Rightarrow> aws_instance" where
  "ex_machine st = \<lparr>ai_InstanceId = Some ''i-0000000a'', ai_State = Some \<lparr>is_Name = st, is_Code = None\<rparr>, ai_Placement = None,
     ai_Tags = ex_machine_tags, ai_RootDeviceName = Some ''/dev/sda1'', ai_RootDeviceType = ''ebs'',
     ai_BlockDeviceMappings = [\<lparr>bd_DeviceName = Some ''/dev/sda1'', bd_Ebs = Some \<lparr>eb_VolumeId = Some ''vol-0000000b'',
       eb_VolumeOwnerId = None, eb_Status = ''attached'', eb_DeleteOnTermination = Some True\<rparr>\<rparr>],
     ai_ImageId = None, ai_InstanceType = [], ai_SubnetId = None, ai_InstanceLifecycle = [], ai_ClientToken = None\<rparr>"

definition ex_state :: "ec2_log \<Rightarrow> string" where
  "ex_state h = (if list_ex terminates h then ''terminated'' else ''running'')"

definition ex_ec2 :: ec2_env where
  "ex_ec2 = \<lparr>ec_clock = (\<lambda>h. 0), ec_ctx = (\<lambda>h. None),
     ec_instances = (\<lambda>h. (Some \<lparr>di_Reservations = [\<lparr>rs_OwnerId = Some ''123456789012'', rs_Instances = [ex_machine (ex_state h)]\<rparr>],
       di_NextToken = None\<rparr>, None)),
     ec_volumes = (\<lambda>h. (None, Some (APIError ''InvalidVolume.NotFound''))), ec_terminate = (\<lambda>h. None), ec_pause = (\<lambda>h. None)\<rparr>"

definition ex_row :: "string \<Rightarrow> inst" where
  "ex_row st = inspectInstanceExpiry 0 ex_machine_tags (observed_inst (ex_machine st))"

definition ex_root :: inst_volume where
  "ex_root = \<lparr>iv_ID = ''vol-0000000b'', iv_Device = ''/dev/sda1'', iv_Root = True, iv_DeleteOnTermination = True, iv_Deletion = ''not_observed''\<rparr>"

lemma inspect_volumes [simp]: "in_Volumes (inspectInstanceExpiry now ts i) = in_Volumes i"
  by (auto simp: inspectInstanceExpiry_def setExpiryStatus_def Let_def split: prod.split reason.split sum.split)

lemma ex_ids_ok: "re_match instanceRE ''i-0000000a''" "re_match volumeRE ''vol-0000000b''" "ValidName ''box''"
  by (simp_all add: volumeRE_def ValidName_def grammar_eval)

lemma ex_tags: "inventoryTags (ex_machine st) = Some [''ManagedBy'' \<mapsto> ''devbox'', ''Deployment'' \<mapsto> ''dev'', ''Owner'' \<mapsto> ''jo'', ''Name'' \<mapsto> ''box'']"
  by (simp add: inventoryTags_def ex_machine_def ex_machine_tags_def fun_upd_def)

lemma ex_row_fields:
  "in_ID (ex_row st) = ''i-0000000a''" "in_State (ex_row st) = st" "in_Name (ex_row st) = ''box''" "in_Group (ex_row st) = []"
  "in_RequestID (ex_row st) = []" "in_Volumes (ex_row st) = Some [ex_root]"
proof -
  have "in_ID (observed_inst (ex_machine st)) = ''i-0000000a''" "in_State (observed_inst (ex_machine st)) = st"
    "in_Name (observed_inst (ex_machine st)) = ''box''" "in_Group (observed_inst (ex_machine st)) = []" "in_RequestID (observed_inst (ex_machine st)) = []"
    by (simp_all add: observed_inst_def ex_machine_def ex_machine_tags_def tagsOf_def tag_value_def Let_def)
  moreover have "in_Volumes (observed_inst (ex_machine st)) = Some [ex_root]"
    using ex_ids_ok(2) by (simp add: observed_inst_def ex_machine_def block_mapping_def ex_root_def Let_def)
  ultimately show "in_ID (ex_row st) = ''i-0000000a''" "in_State (ex_row st) = st" "in_Name (ex_row st) = ''box''" "in_Group (ex_row st) = []"
    "in_RequestID (ex_row st) = []" "in_Volumes (ex_row st) = Some [ex_root]"
    using inspect_same [of 0 ex_machine_tags "observed_inst (ex_machine st)"] by (simp_all add: same_machine_def ex_row_def)
qed

abbreviation ex_read_log :: "ec2_log \<Rightarrow> ec2_log" where
  "ex_read_log h \<equiv> DescribeInstances \<lparr>iq_Id = ''i-0000000a'', iq_Filters = [], iq_Token = None\<rparr> # ReadCtx # ReadClock # h"

lemma ex_state_more [simp]: "ex_state (ex_read_log h) = ex_state h"
  by (simp add: ex_state_def)

lemma ex_read_machine: "downInventory ex_ec2 ex_config ''i-0000000a'' [] [] h = (([ex_row (ex_state h)], None), ex_read_log h)"
proof -
  have valid: "validInventoryIdentity (ex_machine st) [''ManagedBy'' \<mapsto> ''devbox'', ''Deployment'' \<mapsto> ''dev'', ''Owner'' \<mapsto> ''jo'', ''Name'' \<mapsto> ''box'']" for st
    using ex_ids_ok by (simp add: validInventoryIdentity_def labels_ok_def tag_value_def Let_def ex_machine_def)
  have row: "inspectInstanceExpiry 0 (ai_Tags (ex_machine st)) (observed_inst (ex_machine st)) = ex_row st" for st
    by (simp add: ex_row_def ex_machine_def)
  have add: "inventory_row ex_config (selector_of ''i-0000000a'' [] []) 0 ''123456789012'' (ex_machine st) start_progress
      = \<lparr>sp_found = [ex_row st], sp_observed = [''i-0000000a'' \<mapsto> ex_row st], sp_err = None\<rparr>" for st
    using valid [of st]
    by (simp add: inventory_row_def ex_tags row Let_def ex_config_def tags_scoped_def tag_value_def matches_query_def selector_of_def
        cloud_name_def generatedNameCandidate_def last_separator_def ex_row_fields note_observed_def select_found_def start_progress_def)
  show ?thesis
    by (simp add: downInventory_def inventorySelection_def Let_def teardownInventoryPages_def inventory_pages.simps ex_ec2_def first_query_def
        selector_of_def apiCode_def inventory_page_def add [unfolded selector_of_def] by_id_def)
qed

section \<open>Selection\<close>

definition ex_down :: down_selection where
  "ex_down = \<lparr>ds_Targets = [''i-0000000a''], ds_Group = [], ds_All = False, ds_Yes = False\<rparr>"

definition ex_chosen :: down_candidate where
  "ex_chosen = \<lparr>cd_instance = copyDownInstance (ex_row ''running''), cd_names = [], cd_group = []\<rparr>"

definition ex_down_plan :: teardown_plan where
  "ex_down_plan = finish_selection ex_config \<lparr>se_workers =
     [\<lparr>tw_Instance = copyDownInstance (ex_row ''running''), tw_Status = ''termination_not_requested'', tw_Errors = []\<rparr>],
     se_candidates = [ex_chosen], se_errors = []\<rparr>"

abbreviation ex_selected :: ec2_log where
  "ex_selected \<equiv> ReadCtx # ex_read_log []"

lemma ex_ec2_env [simp]: "ec_ctx ex_ec2 h = None" "ec_terminate ex_ec2 h = None" "ec_volumes ex_ec2 h = (None, Some (APIError ''InvalidVolume.NotFound''))"
  by (simp_all add: ex_ec2_def)

lemma ex_down_fields [simp]: "ds_All ex_down = False" "ds_Group ex_down = []" "ds_Targets ex_down = [''i-0000000a'']"
  by (simp_all add: ex_down_def)

lemma ex_down_chosen: "SelectDown ex_ec2 ex_config ex_down [] = ((ex_down_plan, None), ex_selected)"
proof -
  have ok: "ValidateDownSelection ex_down = Inr ()"
    using ex_ids_ok by (simp add: ValidateDownSelection_def ex_down_def selectors_def ValidTarget_def)
  have st: "ex_state [] = ''running''" by (simp add: ex_state_def)
  have "select_targets ex_ec2 ex_config [] [''i-0000000a''] no_selection []
      = (\<lparr>se_workers = [\<lparr>tw_Instance = copyDownInstance (ex_row ''running''), tw_Status = ''termination_not_requested'', tw_Errors = []\<rparr>],
           se_candidates = [ex_chosen], se_errors = []\<rparr>, ex_read_log [])"
    using ex_ids_ok(1)
    by (simp add: ex_read_machine st add_target_def resolve_target_def candidate_rows_def single_match_def active_def ex_row_fields Let_def
        addCandidate_def addWorker_def put_candidate_def no_selection_def ex_chosen_def)
  then show ?thesis
    by (simp add: SelectDown_def ok ex_down_plan_def Let_def del: select_targets.simps)
qed

lemma ex_plan_down: "tp_candidates ex_down_plan = [ex_chosen]" "plan_fits ex_config ex_down_plan" "to_Selected (tp_outcome ex_down_plan) = 1"
    "to_Errors (tp_outcome ex_down_plan) = []" "to_Cleaned (tp_outcome ex_down_plan) = 0"
    "to_Workers (tp_outcome ex_down_plan) = [\<lparr>tw_Instance = copyDownInstance (ex_row ''running''), tw_Status = ''termination_not_requested'', tw_Errors = []\<rparr>]"
  by (simp_all add: ex_down_plan_def finish_selection_def plan_fits_def)

theorem select_down_authorizes_witness:
  "SelectDown ex_ec2 ex_config ex_down [] = ((ex_down_plan, None), ex_selected)
   \<and> tp_candidates ex_down_plan = [ex_chosen] \<and> picked ex_ec2 ex_config ''i-0000000a'' ex_selected ''i-0000000a''"
proof -
  have "\<not> (ds_All ex_down \<or> ds_Group ex_down \<noteq> [])" "ds_Targets ex_down = [''i-0000000a'']" by (simp_all add: ex_down_def)
  moreover have "cd_ID ex_chosen = ''i-0000000a''" by (simp add: ex_chosen_def ex_row_fields)
  ultimately show ?thesis
    using select_down_authorizes [OF ex_down_chosen] ex_down_chosen by (simp add: ex_plan_down(1) authorises_def)
qed

section \<open>Execution\<close>

lemma ex_merge: "mergeFleetVolumes [ex_root] [ex_root] = [ex_root]"
  by (simp add: mergeFleetVolumes_def same_volume_def)

definition ex_seen :: "string \<Rightarrow> inst" where
  "ex_seen st = (ex_row st)\<lparr>in_Volumes := Some [ex_root], in_RootDeletion := ''not_observed''\<rparr>"

lemma ex_observe_row:
  assumes "in_ID i = ''i-0000000a''" "in_Volumes i = Some [ex_root]"
  shows "mergeDownObservation (merge_rows [ex_row st] i) (ex_row st) = ex_seen st"
  using assms
  by (simp add: mergeDownObservation_def merge_rows_def merge_volumes_def ex_row_fields elems_def ex_merge Let_def ex_seen_def last_root_def)
    (simp add: ex_root_def)

abbreviation ex_sent :: ec2_log where
  "ex_sent \<equiv> TerminateInstances ''i-0000000a'' # ReadCtx # ex_read_log []"

abbreviation ex_done :: ec2_log where
  "ex_done \<equiv> DescribeVolumes ''vol-0000000b'' # ReadCtx # ex_read_log ex_sent"

definition ex_removed :: teardown_worker where
  "ex_removed = \<lparr>tw_Instance = (ex_seen ''terminated'')\<lparr>in_Volumes := Some [ex_root\<lparr>iv_Deletion := ''deleted''\<rparr>], in_RootDeletion := ''deleted''\<rparr>,
     tw_Status = ''termination_observed'', tw_Errors = []\<rparr>"

lemma ex_volume_gone_down:
  "observed_gone ex_ec2 ex_config ''termination_observed'' (ex_seen ''terminated'') h
     = (ex_removed, DescribeVolumes ''vol-0000000b'' # ReadCtx # h)"
  by (simp add: observed_gone_def observeDownVolumes_def ex_seen_def elems_def down_observe_volume.simps(2) eval_nat_numeral Let_def apiCode_def
      down_root_deletion_def downRootsDeleted_def ex_removed_def) (simp add: ex_root_def)

lemma ex_awaited: "await_termination ex_ec2 ex_config (Suc n) k status (ex_seen ''running'') ex_sent = (ex_removed, ex_done)"
proof -
  have st: "ex_state ex_sent = ''terminated''" by (simp add: ex_state_def)
  have i: "in_ID (ex_seen st) = ''i-0000000a''" "in_Volumes (ex_seen st) = Some [ex_root]" "in_State (ex_seen st) = st" for st
    by (simp_all add: ex_seen_def ex_row_fields)
  show ?thesis
    using await_termination_Suc [OF ex_read_machine [of ex_sent, folded i(1) [of "''running''"]]]
    by (simp add: i st merge_single_def ex_observe_row ex_volume_gone_down Let_def)
qed

lemma ex_worked: "run_worker (\<lambda>x. ex_ec2) ex_config ex_chosen = (ex_removed, ex_done)"
proof -
  have st: "ex_state [] = ''running''" by (simp add: ex_state_def)
  have i: "in_ID (copyDownInstance (ex_row st)) = ''i-0000000a''" "in_Volumes (copyDownInstance (ex_row st)) = Some [ex_root]" for st
    by (simp_all add: ex_row_fields copyDownInstance_def elems_def)
  have f: "in_State (ex_seen st) = st" "in_ID (ex_seen st) = ''i-0000000a''" "in_Volumes (ex_seen st) = Some [ex_root]" for st
    by (simp_all add: ex_seen_def ex_row_fields)
  have c: "copyDownInstance (copyDownInstance j) = copyDownInstance j" for j by (simp add: copyDownInstance_def elems_def)
  have "request_termination ex_ec2 ex_config (ex_seen ''running'') (ReadCtx # ex_read_log []) = (ex_removed, ex_done)"
    using ex_awaited [of 29 0] by (simp add: request_termination_def Let_def f apiCode_def denied_codes_def protected_codes_def)
  then have "act_on_machine ex_ec2 ex_config ex_chosen (ex_seen ''running'') (ex_read_log []) = (ex_removed, ex_done)"
    by (simp add: act_on_machine_def f removable_states_def Let_def) (simp add: ex_chosen_def)
  then show ?thesis
    by (simp add: run_worker_def executeDownWorker_def Let_def ex_chosen_def c i ex_row_fields(1) ex_read_machine st ex_observe_row)
qed

definition ex_down_outcome :: teardown_outcome where
  "ex_down_outcome = summarize (tp_outcome ex_down_plan) [ex_removed]"

lemma ex_executed: "ExecuteDown ex_ec2 (\<lambda>x. ex_ec2) ex_config ex_down_plan ex_selected
    = ((ex_down_outcome, None), [ex_done], ReadCtx # ex_selected)"
  by (simp add: ExecuteDown_def ex_plan_down ex_worked place_worker_def Let_def ex_row_fields ex_down_outcome_def)
    (simp add: ex_removed_def ex_seen_def ex_row_fields)


theorem teardown_complete_evidence_witness:
  "to_Status ex_down_outcome = ''teardown_complete'' \<and> proven_gone ex_ec2 ex_config ''i-0000000a'' ex_removed ex_done"
proof -
  have c: "down_cleaned ex_removed" "tw_Errors ex_removed = []"
    by (simp_all add: down_cleaned_def ex_removed_def downRootsDeleted_def elems_def) (simp_all add: ex_root_def)
  then have s: "to_Status ex_down_outcome = ''teardown_complete''" "to_Workers ex_down_outcome = [ex_removed]"
    by (simp_all add: ex_down_outcome_def summarize_def ex_plan_down Let_def)
  have "cd_ID ex_chosen = ''i-0000000a''" by (simp add: ex_chosen_def ex_row_fields)
  with teardown_complete_evidence [OF ex_down_chosen ex_executed s(1)] s show ?thesis by (simp add: ex_plan_down)
qed

end
