(* ===== verification/FleetWorkersExample.thy ===== *)
theory FleetWorkersExample
  imports FleetWorkersProperties TeardownExample
begin

text \<open>
  The theorems about \<open>VerifyFleetWorkers\<close> on a concrete inspection: one machine of the example attempt, running with every pin of
  the example plan, and its root volume.
\<close>

definition ex_fleet_tags :: "tag list" where
  "ex_fleet_tags = map (\<lambda>(k, v). \<lparr>t_Key = Some k, t_Value = Some v\<rparr>)
     (want_tags ex_plan ex_attempt @ [(''aws:ec2launchtemplate:id'', ''lt-01234567''), (''aws:ec2launchtemplate:version'', ''3'')])"

definition ex_fleet_machine :: fleet_instance where
  "ex_fleet_machine = \<lparr>ai_InstanceId = Some ''i-0000000a'', ai_State = Some \<lparr>is_Name = ''running'', is_Code = None\<rparr>,
     ai_Placement = Some (Some ''us-east-2a''), ai_Tags = ex_fleet_tags, ai_RootDeviceName = Some ''/dev/sda1'', ai_RootDeviceType = ''ebs'',
     ai_BlockDeviceMappings = [\<lparr>bd_DeviceName = Some ''/dev/sda1'', bd_Ebs = Some \<lparr>eb_VolumeId = Some ''vol-0000000b'',
       eb_VolumeOwnerId = None, eb_Status = ''attached'', eb_DeleteOnTermination = Some True\<rparr>\<rparr>],
     ai_ImageId = Some ''ami-01234567'', ai_InstanceType = ''c5.large'', ai_SubnetId = Some ''subnet-01234567'', ai_InstanceLifecycle = ''spot'',
     ai_ClientToken = None,
     fx_IamInstanceProfile = Some (Some ''arn:aws:iam::123456789012:instance-profile/devbox''), fx_SecurityGroups = [Some ''sg-01234567''],
     fx_MetadataOptions = Some \<lparr>mo_HttpTokens = ''required'', mo_HttpEndpoint = ''enabled'', mo_HttpPutResponseHopLimit = Some 1,
       mo_InstanceMetadataTags = ''disabled'', mo_State = ''applied''\<rparr>,
     fx_NetworkInterfaces = [\<lparr>ni_Attachment = Some \<lparr>na_DeviceIndex = Some 0, na_DeleteOnTermination = Some True\<rparr>,
       ni_SubnetId = Some ''subnet-01234567'', ni_OwnerId = None, ni_Groups = [Some ''sg-01234567''],
       ni_Association = Some (Some ''203.0.113.9'')\<rparr>],
     fx_PublicIpAddress = Some ''203.0.113.9''\<rparr>"

definition ex_fleet_volume :: fleet_volume where
  "ex_fleet_volume = \<lparr>fv_VolumeId = Some ''vol-0000000b'', fv_OwnerId = None, fv_Tags = ex_fleet_tags, fv_Encrypted = Some True,
     fv_VolumeType = ''gp3'', fv_Size = Some 20, fv_AvailabilityZone = Some ''us-east-2a'',
     fv_Attachments = [\<lparr>va_InstanceId = Some ''i-0000000a'', va_Device = Some ''/dev/sda1'', va_DeleteOnTermination = Some True,
       va_VolumeId = None, va_State = ''attached''\<rparr>], fv_State = ''in-use''\<rparr>"

definition ex_fleet_page :: instances_page where
  "ex_fleet_page = \<lparr>ip_Reservations = [\<lparr>fr_OwnerId = Some ''123456789012'', fr_Instances = [ex_fleet_machine]\<rparr>], ip_NextToken = None\<rparr>"

definition ex_view :: "unit verify_env" where
  "ex_view = \<lparr>ve_now = (\<lambda>s. (0, s)), ve_ctx = (\<lambda>s. (False, s)), ve_api = Some
     \<lparr>fa_instances = (\<lambda>ids t s. ((Some ex_fleet_page, None), s)),
      fa_volumes = (\<lambda>ids t s. ((Some \<lparr>vp_Volumes = [ex_fleet_volume], vp_NextToken = None\<rparr>, None), s))\<rparr>\<rparr>"

definition ex_one :: attempt_receipt where
  "ex_one = ex_attempt\<lparr>ar_InstanceIDs := Some [''i-0000000a'']\<rparr>"

definition ex_known_worker :: worker_outcome where
  "ex_known_worker = fleetWorker ex_plan ex_attempt ''i-0000000a'' zero_choice"

lemma tagsOf_map:
  "distinct (map fst kvs) \<Longrightarrow> tagsOf (map (\<lambda>(k, v). \<lparr>t_Key = Some k, t_Value = Some v\<rparr>) kvs) = map_of kvs"
proof (induction kvs rule: rev_induct)
  case (snoc x kvs)
  obtain k v where x: "x = (k, v)" by (cases x)
  have new: "map_of kvs k = None" using snoc.prems by (simp add: x map_of_eq_None_iff)
  have "tagsOf (map (\<lambda>(k, v). \<lparr>t_Key = Some k, t_Value = Some v\<rparr>) (kvs @ [x])) = (map_of kvs)(k \<mapsto> v)"
    using snoc by (simp add: x tagsOf_def)
  also have "\<dots> = map_of (kvs @ [x])" using new by (auto simp: x map_add_def fun_eq_iff split: option.split)
  finally show ?case .
qed (simp add: tagsOf_def)

lemma ex_want_ok: "map_ok (want_tags ex_plan ex_attempt)"
  by (simp add: want_tags_def Let_def del: map_put.simps)

text \<open>The keys of the tags of an attempt.\<close>

definition tag_keys :: "string list" where
  "tag_keys = [''ManagedBy'', ''Deployment'', ''Owner'', ''Profile'', ''Name'', ''BaseName'', ''RequestId'', ''BatchId'', ''CreatedAt'',
     ''NamingVersion'', ''AttemptId'', ''ExpiresAt'', ''Group'']"

lemma put_keys: "k \<in> K \<Longrightarrow> fst ` set m \<subseteq> K \<Longrightarrow> fst ` set (map_put k v m) \<subseteq> K"
  using set_fst_put [of k v m] by simp

lemma fold_put_keys: "list_all (\<lambda>kv. fst kv \<in> K) kvs \<Longrightarrow> fst ` set m \<subseteq> K \<Longrightarrow> fst ` set (fold (\<lambda>(k, v). map_put k v) kvs m) \<subseteq> K"
  by (induction kvs arbitrary: m) (simp_all add: put_keys case_prod_unfold)

lemma if_put_keys: "k \<in> K \<Longrightarrow> fst ` set m \<subseteq> K \<Longrightarrow> fst ` set (if b then map_put k v m else m) \<subseteq> K"
  by (simp add: put_keys)

lemma want_keys: "fst ` set (want_tags p a) \<subseteq> set tag_keys"
  unfolding want_tags_def Let_def
  by (rule if_put_keys, simp add: tag_keys_def, rule if_put_keys, simp add: tag_keys_def, rule fold_put_keys) (simp_all add: tag_keys_def)

lemma ex_want_at:
  "map_of (want_tags p a) ''aws:ec2launchtemplate:id'' = None" "map_of (want_tags p a) ''aws:ec2launchtemplate:version'' = None"
  using want_keys [of p a] unfolding map_of_eq_None_iff tag_keys_def by auto

lemma ex_fleet_keys: "distinct (map fst (want_tags ex_plan ex_attempt @ [(''aws:ec2launchtemplate:id'', ''lt-01234567''), (''aws:ec2launchtemplate:version'', ''3'')]))"
proof -
  have "''aws:ec2launchtemplate:id'' \<notin> fst ` set (want_tags ex_plan ex_attempt)" "''aws:ec2launchtemplate:version'' \<notin> fst ` set (want_tags ex_plan ex_attempt)"
    using ex_want_at by (simp_all add: map_of_eq_None_iff)
  then show ?thesis using ex_want_ok by (simp add: map_ok_def strict_sorted_iff)
qed

lemma ex_tags_of: "tagsOf ex_fleet_tags = map_of (want_tags ex_plan ex_attempt @ [(''aws:ec2launchtemplate:id'', ''lt-01234567''), (''aws:ec2launchtemplate:version'', ''3'')])"
  unfolding ex_fleet_tags_def by (rule tagsOf_map [OF ex_fleet_keys])

lemma ex_want_keys: "k \<in> fst ` set (want_tags ex_plan ex_attempt) \<Longrightarrow> k \<noteq> []"
  using want_keys [of ex_plan ex_attempt] unfolding tag_keys_def by auto

lemma ex_tags_observed: "fleetObservedTags ex_fleet_tags ex_plan ex_attempt = (tagsOf ex_fleet_tags, True)"
proof -
  let ?want = "want_tags ex_plan ex_attempt"
  have d: "distinct (map fst ?want)" using ex_want_ok by (simp add: map_ok_def strict_sorted_iff)
  have "tags_plain ex_fleet_tags"
    using ex_fleet_keys ex_want_keys by (auto simp: tags_plain_def ex_fleet_tags_def list_all_iff comp_def case_prod_unfold)
  moreover have "list_all (\<lambda>(k, v). tag_value (tagsOf ex_fleet_tags) k = v) ?want"
    using map_of_is_SomeI [OF d] by (auto simp: list_all_iff ex_tags_of tag_value_def map_add_Some_iff split: option.split)
  moreover have "AttemptTags ex_plan (ar_AttemptID ex_attempt) = Inr ?want" using ex_want_tags by (simp add: ex_attempt_def)
  ultimately show ?thesis by (simp add: fleetObservedTags_def Let_def ex_plan_fields)
qed

lemma ex_template: "template_pinned ex_plan (tagsOf ex_fleet_tags)"
  using ex_want_at by (simp add: template_pinned_def ex_tags_of tag_value_def map_add_def ex_plan_fields ex_image_def)

lemma ex_observed_row:
  "in_State (observed_inst (base_instance ex_fleet_machine)) = ''running''" "in_Image (observed_inst (base_instance ex_fleet_machine)) = ''ami-01234567''"
  "in_Market (observed_inst (base_instance ex_fleet_machine)) = ''spot''" "in_Volumes (observed_inst (base_instance ex_fleet_machine)) = Some [ex_root]"
  "terminal_instance (base_instance ex_fleet_machine) = False"
  using ex_ids_ok(2)
  by (simp_all add: observed_inst_def ex_fleet_machine_def aws_instance.truncate_def block_mapping_def ex_root_def Let_def terminal_instance_def)

lemma ex_public: "public_ipv4 ''203.0.113.9''"
  by (simp add: public_ipv4_def parse_ipv4_def octet_def is_digit_def in_range_def digits_val_def digit_val_def)

lemma ex_one_simps [simp]: "ar_AttemptID ex_one = ar_AttemptID ex_attempt" "ids_of ex_one = [''i-0000000a'']"
  by (simp_all add: ex_one_def ids_of_def elems_def)

lemma ex_tags_one: "fleetObservedTags ex_fleet_tags ex_plan ex_one = (tagsOf ex_fleet_tags, True)"
  using ex_tags_observed by (simp add: fleetObservedTags_def)

lemma ex_choice: "reported_choice ex_fleet_machine = hd ex_choices"
  by (simp add: reported_choice_def ex_fleet_machine_def ex_choices_def)

lemma ex_checks:
  assumes "in_Type w = []" "in_SubnetID w = []" "in_AvailabilityZone w = []"
  shows "list_all fst (fleet_checks ex_plan ex_one w ''123456789012'' ex_fleet_machine)"
    "\<not> list_ex snd (fleet_checks ex_plan ex_one w ''123456789012'' ex_fleet_machine)"
proof -
  have pinned: "instance_pinned ex_plan ex_one ''123456789012'' ex_fleet_machine"
    using ex_tags_one ex_template ex_observed_row
    by (simp add: instance_pinned_def ex_choice ex_plan_fields) (simp add: ex_fleet_machine_def ex_image_def ex_choices_def)
  have kept: "placement_kept w c" for c using assms by (simp add: placement_kept_def)
  have root: "single_root ex_fleet_machine" using ex_observed_row(4) by (simp add: single_root_def ex_root_def) (simp add: ex_fleet_machine_def)
  have net: "network_check ex_plan ex_fleet_machine False = (True, False)"
    using ex_public by (simp add: network_check_def ex_choice ex_plan_fields)
      (simp add: ex_fleet_machine_def nic_addresses_def nic_ok_def exactFleetGroup_def reported_choice_def ex_choices_def ex_plan_fields Let_def)
  have start: "\<not> starting_without_root ex_fleet_machine" using ex_observed_row(1) by (simp add: starting_without_root_def)
  have state: "in_State (observed_inst (base_instance ex_fleet_machine)) \<in> set settled_states" using ex_observed_row(1) by (simp add: settled_states_def)
  have fields: "fx_IamInstanceProfile ex_fleet_machine = Some (Some (lp_InstanceProfileARN ex_plan))"
    "exactFleetGroup (fx_SecurityGroups ex_fleet_machine) (lp_SecurityGroupID ex_plan)" "ai_BlockDeviceMappings ex_fleet_machine \<noteq> []"
    "\<exists>m. fx_MetadataOptions ex_fleet_machine = Some m \<and> metadata_ok m \<and> mo_State m = ''applied''"
    "ai_RootDeviceName ex_fleet_machine = Some (im_RootDeviceName (lp_Image ex_plan))" "ai_RootDeviceType ex_fleet_machine = ''ebs''"
    by (simp_all add: ex_fleet_machine_def exactFleetGroup_def metadata_ok_def ex_plan_fields ex_image_def aws_to_int_def)
  then have meta: "fx_MetadataOptions ex_fleet_machine \<noteq> None" by auto
  show "list_all fst (fleet_checks ex_plan ex_one w ''123456789012'' ex_fleet_machine)"
    "\<not> list_ex snd (fleet_checks ex_plan ex_one w ''123456789012'' ex_fleet_machine)"
    using pinned kept root net start state ex_observed_row(5) fields meta
    by (auto simp: fleet_checks_def Let_def unless_gone_def)
qed

text \<open>The observation of the machine, then of its volume.\<close>

definition ex_started :: fleet_observation where
  "ex_started = (fresh_observation (unobserved ex_known_worker))\<lparr>fo_seen := True\<rparr>"

lemma ex_instance_observed:
  defines "ob \<equiv> observeFleetInstance ex_plan ex_one ''123456789012'' ex_fleet_machine 0 ex_started"
  shows "fo_seen ob" "\<not> fo_mismatch ob" "\<not> fo_pending ob" "fo_rootID ob = ''vol-0000000b''" "wo_ID (fo_worker ob) = ''i-0000000a''"
    "in_AvailabilityZone (wo_Instance (fo_worker ob)) = ''us-east-2a''"
proof -
  let ?w = "wo_Instance (fo_worker ex_started)"
  have w: "in_Type ?w = []" "in_SubnetID ?w = []" "in_AvailabilityZone ?w = []" "in_Volumes ?w = Some []" "in_ID ?w = ''i-0000000a''"
    by (simp_all add: ex_started_def fresh_observation_def unobserved_def on_instance_def ex_known_worker_def fleetWorker_def zero_choice_def elems_def)
  note c = ex_checks [OF w(1-3)]
  have started: "fo_seen ex_started" "\<not> fo_mismatch ex_started" "\<not> fo_pending ex_started" "fo_rootID ex_started = []"
    by (simp_all add: ex_started_def fresh_observation_def)
  show "fo_seen ob" "\<not> fo_mismatch ob" "\<not> fo_pending ob" "fo_rootID ob = ''vol-0000000b''" "wo_ID (fo_worker ob) = ''i-0000000a''"
    using c w started ex_observed_row(4) unfolding ob_def
    by (simp_all add: observeFleetInstance_def Let_def root_conflict_def elems_def last_root_id_def ex_root_def pinned_inst_def)
  show "in_AvailabilityZone (wo_Instance (fo_worker ob)) = ''us-east-2a''"
    using c unfolding ob_def by (simp add: observeFleetInstance_def Let_def pinned_inst_def ex_choice) (simp add: ex_choices_def)
qed

lemma ex_volume_observed:
  assumes "fo_seen ob" "\<not> fo_mismatch ob" "\<not> fo_pending ob" "fo_rootID ob = ''vol-0000000b''" "wo_ID (fo_worker ob) = ''i-0000000a''"
    "in_AvailabilityZone (wo_Instance (fo_worker ob)) = ''us-east-2a''"
  shows "wo_Status (judged (observeFleetVolume ex_plan ex_one ex_fleet_volume ob)) = ''allocated''"
proof -
  have "volume_pinned ex_plan ex_one ob ex_fleet_volume"
    using ex_tags_one assms by (simp add: volume_pinned_def ex_fleet_volume_def aws_to_int_def to_int32_def ex_plan_fields)
  moreover have "fv_Attachments ex_fleet_volume = [hd (fv_Attachments ex_fleet_volume)]" "volume_attached ex_plan ob (hd (fv_Attachments ex_fleet_volume))"
    using assms by (simp_all add: volume_attached_def ex_fleet_volume_def ex_plan_fields ex_image_def)
  ultimately show ?thesis using assms
    by (simp add: judged_allocated observeFleetVolume_def Let_def split: list.split) (auto simp: ex_fleet_volume_def)
qed

text \<open>The whole inspection.\<close>

abbreviation ex_root_read :: fleet_observation where
  "ex_root_read \<equiv> observeFleetInstance ex_plan ex_one ''123456789012'' ex_fleet_machine 0 ex_started"

lemma ex_observations: "start_observations ex_plan ex_one [ex_known_worker] = [(''i-0000000a'', fresh_observation (unobserved ex_known_worker))]"
  by (simp add: start_observations_def add_known_def add_expected_def) (simp add: ex_known_worker_def)

lemma ex_instances_read:
  "read_instances ex_view ex_plan ex_one 0 [''i-0000000a''] (False, [(''i-0000000a'', fresh_observation (unobserved ex_known_worker))]) ()
    = Some (None, (False, [(''i-0000000a'', ex_root_read)]), ())"
proof -
  let ?m = "[(''i-0000000a'', fresh_observation (unobserved ex_known_worker))]"
  have row: "instance_row ex_plan ex_one 0 ''123456789012'' ex_fleet_machine (False, ?m) = (False, [(''i-0000000a'', ex_root_read)])"
    using ex_ids_ok(1) by (simp add: instance_row_def update_observation_def Let_def ex_started_def)
      (simp add: ex_fleet_machine_def fresh_observation_def update_observation_def)
  then have "instances_step (the (ve_api ex_view)) ex_plan ex_one 0 [''i-0000000a''] None ((False, ?m), ())
      = (NextPage [], (False, [(''i-0000000a'', ex_root_read)]), ())"
    by (simp add: instances_step_def ex_view_def ex_fleet_page_def instance_rows_def page_verdict_def)
  then have "pages (on_state (ve_ctx ex_view)) (instances_step (the (ve_api ex_view)) ex_plan ex_one 0 [''i-0000000a'']) [] None ((False, ?m), ())
      = Some (LastPage, (False, [(''i-0000000a'', ex_root_read)]), ())"
    by (subst pages.simps) (simp add: on_state_def ex_view_def)
  then show ?thesis by (simp add: read_instances_def ex_view_def end_error_def note_end_def)
qed

abbreviation ex_verified :: fleet_observation where
  "ex_verified \<equiv> observeFleetVolume ex_plan ex_one ex_fleet_volume ex_root_read"

lemma ex_volumes_read:
  "read_volumes ex_view ex_plan ex_one (False, [(''i-0000000a'', ex_root_read)]) () = Some (None, (False, [(''i-0000000a'', ex_verified)]), ())"
proof -
  let ?m = "[(''i-0000000a'', ex_root_read)]"
  note id = ex_instance_observed(4)
  have roots: "root_ids ?m = [''vol-0000000b'']" "refuse_shared_roots ?m = ?m" using id by (simp_all add: root_ids_def refuse_shared_roots_def)
  have "volume_row ex_plan ex_one ex_fleet_volume ([], False, ?m) = ([''vol-0000000b''], False, [(''i-0000000a'', ex_verified)])"
  proof -
    have v: "aws_to_string (fv_VolumeId ex_fleet_volume) = ''vol-0000000b''" by (simp add: ex_fleet_volume_def)
    have "ex_root_read\<lparr>fo_mismatch := fo_mismatch ex_root_read \<or> False\<rparr> = ex_root_read" by simp
    then show ?thesis using id roots(1) by (simp add: volume_row_def Let_def v)
  qed
  then have "volumes_step (the (ve_api ex_view)) ex_plan ex_one [''vol-0000000b''] None (([], False, ?m), ())
      = (NextPage [], ([''vol-0000000b''], False, [(''i-0000000a'', ex_verified)]), ())"
    by (simp add: volumes_step_def ex_view_def page_verdict_def)
  then have "pages (on_state (ve_ctx ex_view)) (volumes_step (the (ve_api ex_view)) ex_plan ex_one [''vol-0000000b'']) [] None (([], False, ?m), ())
      = Some (LastPage, ([''vol-0000000b''], False, [(''i-0000000a'', ex_verified)]), ())"
    by (subst pages.simps) (simp add: on_state_def ex_view_def)
  then show ?thesis by (simp add: read_volumes_def ex_view_def roots Let_def end_error_def note_end_def)
qed

lemma ex_verified_run: "VerifyFleetWorkers ex_view ex_plan ex_one [ex_known_worker] () = Some (([judged ex_verified], None), ())"
  and ex_verified_allocated: "wo_Status (judged ex_verified) = ''allocated''" and ex_verified_id: "wo_ID (judged ex_verified) = ''i-0000000a''"
proof -
  show st: "wo_Status (judged ex_verified) = ''allocated''" by (rule ex_volume_observed [OF ex_instance_observed])
  show "wo_ID (judged ex_verified) = ''i-0000000a''"
    using ex_instance_observed(5) by (simp add: judged_def Let_def on_instance_def observeFleetVolume_def)
  have refuse: "refuse_identities [(''i-0000000a'', ob)] = [(''i-0000000a'', ob)]" for ob using ex_ids_ok(1) by (simp add: refuse_identities_def)
  show "VerifyFleetWorkers ex_view ex_plan ex_one [ex_known_worker] () = Some (([judged ex_verified], None), ())"
  proof -
    have "judgement None (False, [(''i-0000000a'', ex_verified)]) = ([judged ex_verified], None)" using st by (simp add: judgement_def)
    moreover have "ve_now ex_view () = (0, ())" by (simp add: ex_view_def)
    ultimately show ?thesis using refuse ex_ids_ok(1) ex_instances_read ex_volumes_read
      by (simp add: VerifyFleetWorkers_def ex_observations)
  qed
qed

theorem allocated_is_verified_witness:
  "VerifyFleetWorkers ex_view ex_plan ex_one [ex_known_worker] () = Some (([judged ex_verified], None), ())
    \<and> wo_Status (judged ex_verified) = ''allocated''
    \<and> (\<exists>owner i v. shown_instance ex_view () () owner i \<and> aws_to_string (ai_InstanceId i) = ''i-0000000a'' \<and> machine_fits ex_plan ex_one owner i
        \<and> shown_volume ex_view () () v \<and> root_fits ex_plan ex_one i v)"
  using allocated_is_verified [OF ex_verified_run, of "judged ex_verified"] ex_verified_run ex_verified_allocated ex_verified_id by auto

theorem verification_keeps_identities_witness:
  "VerifyFleetWorkers ex_view ex_plan ex_one [ex_known_worker] () = Some (([judged ex_verified], None), ())
    \<and> map wo_ID [judged ex_verified] = sorted_list_of_set {''i-0000000a''} \<and> wo_Status (judged ex_verified) = ''allocated''"
  using verification_keeps_identities [OF ex_verified_run] ex_verified_run by (simp add: ex_known_worker_def)

end
