(* ===== verification/Reconcile.thy ===== *)
theory Reconcile
  imports FleetWorkers BatchOutcome
begin

text \<open>
  \<^verbatim>\<open>internal/lifecycle/batch_reconcile.go\<close>: comparing the shared records of a request with what EC2 shows of it.  The
  observation bounds the allocation only when every attempt has its complete response and nothing that EC2 shows
  contradicts it.  EC2, the clock and the context are an environment of the history of the calls of this inspection.
\<close>

section \<open>Calls\<close>

datatype look_call =
    LookContext
  | LookClock
  | LookScan "string option"
  | LookFleets string "string option"
  | LookInstances "string list" "string option"
  | LookVolumes "string list" "string option"

type_synonym look_log = "look_call list"

text \<open>The settings of a Fleet, as far as they are compared.\<close>

record fleet_ebs =
  fb_VolumeSize :: "int option"
  fb_VolumeType :: string
  fb_Encrypted :: "bool option"
  fb_DeleteOnTermination :: "bool option"

record fleet_mapping =
  fm_DeviceName :: "string option"
  fm_NoDevice :: "string option"
  fm_VirtualName :: "string option"
  fm_Ebs :: "fleet_ebs option"

record fleet_data_override = override_reply +
  fd_MaxPrice :: "string option"
  fd_BlockDeviceMappings :: "fleet_mapping list"

record fleet_template =
  fp_Specification :: "(string option \<times> string option) option"
  fp_Overrides :: "fleet_data_override list"

record fleet_capacity =
  fc_Total :: "int option"
  fc_Spot :: "int option"
  fc_OnDemand :: "int option"
  fc_DefaultType :: string
  fc_UnitType :: string

text \<open>Spot options: the strategy, and whether maintenance strategies are set.  On-demand options: the strategy.\<close>

record fleet_data =
  fl_FleetId :: "string option"
  fl_Tags :: "tag list"
  fl_ClientToken :: "string option"
  fl_Type :: string
  fl_ReplaceUnhealthy :: "bool option"
  fl_TerminateWithExpiration :: "bool option"
  fl_Templates :: "fleet_template list"
  fl_Capacity :: "fleet_capacity option"
  fl_Spot :: "(string \<times> bool) option"
  fl_OnDemand :: "string option"
  fl_Instances :: "fleet_group list"

record fleets_page =
  fq_Fleets :: "fleet_data list"
  fq_NextToken :: "string option"

record look_env =
  le_api :: bool
  le_ctx :: "look_log \<Rightarrow> bool"
  le_clock :: "look_log \<Rightarrow> gotime"
  le_instances :: "look_log \<Rightarrow> instances_page option \<times> aws_error option"
  le_volumes :: "look_log \<Rightarrow> volumes_page option \<times> aws_error option"
  le_fleets :: "look_log \<Rightarrow> fleets_page option \<times> aws_error option"
  le_inputDigest :: "fleet_input \<Rightarrow> string"

section \<open>The reconciler\<close>

record reconciler =
  rc_Receipt :: batch_receipt
  rc_Errors :: "resource_error list"
  rc_Bounded :: bool
  rc_workers :: "worker_outcome gomap"
  rc_historical :: "string list"
  rc_log :: look_log

definition start_reconciler :: "launch_snapshot \<Rightarrow> reconciler" where
  "start_reconciler sn = \<lparr>rc_Receipt = sn_Receipt sn, rc_Errors = [], rc_Bounded = True,
     rc_workers = fold put_worker (snapshotWorkers sn) [], rc_historical = [], rc_log = []\<rparr>"

definition look :: "look_call \<Rightarrow> reconciler \<Rightarrow> reconciler" where
  "look c r = r\<lparr>rc_log := c # rc_log r\<rparr>"

definition look_context :: "look_env \<Rightarrow> reconciler \<Rightarrow> bool \<times> reconciler" where
  "look_context E r = (let r = look LookContext r in (le_ctx E (rc_log r), r))"

definition look_clock :: "look_env \<Rightarrow> reconciler \<Rightarrow> gotime \<times> reconciler" where
  "look_clock E r = (let r = look LookClock r in (le_clock E (rc_log r), r))"

definition add_problem :: "string \<Rightarrow> string \<Rightarrow> string \<Rightarrow> reconciler \<Rightarrow> reconciler" where
  "add_problem i code message r =
     (let r = r\<lparr>rc_Bounded := False\<rparr>; i = (if re_match instanceRE i \<or> re_match fleetIDRE i then i else []) in
      if list_ex (\<lambda>e. re_ResourceID e = i \<and> re_Code e = code) (rc_Errors r) then r
      else r\<lparr>rc_Errors := rc_Errors r @ [(plain_error code message)\<lparr>re_ResourceID := i\<rparr>]\<rparr>)"

definition fulfilment :: "launch_snapshot \<Rightarrow> reconciler \<Rightarrow> string gomap" where
  "fulfilment sn r = fold (\<lambda>a. fold (\<lambda>i m. if i \<in> set (rc_historical r) then map_put i (ar_AttemptID a) m else m) (ids_of a))
     (br_Attempts (sn_Receipt sn)) []"

definition reconciled :: "launch_snapshot \<Rightarrow> reconciler \<Rightarrow> launch_observation" where
  "reconciled sn r = \<lparr>lo_Receipt = rc_Receipt r, lo_Workers = sortedBatchWorkers (rc_workers r), lo_Errors = rc_Errors r,
     lo_Bounded = rc_Bounded r, lo_Historical = fulfilment sn r\<rparr>"

section \<open>Validating the shared records\<close>

text \<open>Whether the records of one attempt are sound, given the attempts before it.\<close>

definition records_sound :: "look_env \<Rightarrow> launch_snapshot \<Rightarrow> batch_receipt \<Rightarrow> attempt_receipt \<Rightarrow> bool" where
  "records_sound E sn prior a =
     (let i = ar_AttemptID a; claim = map_of (sn_Claims sn) i; response = map_of (sn_Responses sn) i in
      case map_of (sn_Prepared sn) i of
        None \<Rightarrow> False
      | Some prepared \<Rightarrow>
          validPrepared (le_inputDigest E) prior prepared
          \<and> (case claim of None \<Rightarrow> True | Some c \<Rightarrow> c = expectedClaim prepared)
          \<and> (case response of None \<Rightarrow> True | Some x \<Rightarrow> claim \<noteq> None \<and> validResponse prior prepared x)
          \<and> (case response of
               Some x \<Rightarrow> if terminal (rsp_Attempt x) then a = rsp_Attempt x else \<not> terminal a
             | None \<Rightarrow> \<not> terminal a \<and> \<not> (claim = None \<and> ar_State a \<noteq> ''prepared'')))"

definition settled_response :: "launch_snapshot \<Rightarrow> attempt_receipt \<Rightarrow> bool" where
  "settled_response sn a \<longleftrightarrow> (case map_of (sn_Responses sn) (ar_AttemptID a) of None \<Rightarrow> False | Some x \<Rightarrow> terminal (rsp_Attempt x))"

fun validate_attempts :: "look_env \<Rightarrow> launch_snapshot \<Rightarrow> batch_receipt \<Rightarrow> attempt_receipt list \<Rightarrow> reconciler \<Rightarrow> bool \<times> reconciler" where
  "validate_attempts E sn prior [] r = (True, r)"
| "validate_attempts E sn prior (a # as) r =
     (if \<not> records_sound E sn prior a then (False, r)
      else validate_attempts E sn (add_attempt prior a) as
        (if settled_response sn a then r\<lparr>rc_historical := rc_historical r @ ids_of a\<rparr> else r\<lparr>rc_Bounded := False\<rparr>))"

definition validate :: "look_env \<Rightarrow> launch_snapshot \<Rightarrow> reconciler \<Rightarrow> bool \<times> reconciler" where
  "validate E sn r =
     (let receipt = sn_Receipt sn; ids = map ar_AttemptID (br_Attempts receipt) in
      if Receipt_Validate receipt \<noteq> Inr () \<or> length (sn_Prepared sn) \<noteq> length (br_Attempts receipt) then (False, r)
      else (case validate_attempts E sn (receipt\<lparr>br_Attempts := []\<rparr>) (br_Attempts receipt) r of
              (ok, r) \<Rightarrow> (ok \<and> list_all (\<lambda>(i, _). i \<in> set ids) (sn_Claims sn) \<and> list_all (\<lambda>(i, _). i \<in> set ids) (sn_Responses sn), r)))"

section \<open>Retaining what EC2 shows\<close>

text \<open>The attempt of an identity.  The code keeps the index of each identity in a map; the identities of a valid receipt are a
  chain of digests, so that this is the one attempt that has it.\<close>

definition known_attempt_of :: "reconciler \<Rightarrow> string \<Rightarrow> attempt_receipt option" where
  "known_attempt_of r i = find (\<lambda>a. ar_AttemptID a = i) (br_Attempts (rc_Receipt r))"

definition update_attempt :: "string \<Rightarrow> (attempt_receipt \<Rightarrow> attempt_receipt) \<Rightarrow> reconciler \<Rightarrow> reconciler" where
  "update_attempt i f r = r\<lparr>rc_Receipt := (rc_Receipt r)\<lparr>br_Attempts :=
     map (\<lambda>a. if ar_AttemptID a = i then f a else a) (br_Attempts (rc_Receipt r))\<rparr>\<rparr>"

definition set_worker :: "worker_outcome \<Rightarrow> reconciler \<Rightarrow> reconciler" where
  "set_worker w r = r\<lparr>rc_workers := put_worker w (rc_workers r)\<rparr>"

definition stray_worker :: "string \<Rightarrow> worker_outcome" where
  "stray_worker i = \<lparr>wo_Instance = zero_inst\<lparr>in_ID := i, in_Volumes := Some []\<rparr>, wo_Status = ''identity_mismatch''\<rparr>"

text \<open>The worker to keep, and the complaint that its attempt is another one.\<close>

definition retained_worker :: "string \<Rightarrow> string \<Rightarrow> launch_choice \<Rightarrow> reconciler \<Rightarrow> worker_outcome \<times> reconciler" where
  "retained_worker attempt i choice r =
     (case (map_of (rc_workers r) i, known_attempt_of r attempt) of
        (None, Some a) \<Rightarrow> (fleetWorker (br_Plan (rc_Receipt r)) a i choice, r)
      | (None, None) \<Rightarrow> (stray_worker i, r)
      | (Some w, Some a) \<Rightarrow> (w, if in_AttemptID (wo_Instance w) \<noteq> attempt
          then add_problem i ''launch_identity_mismatch''
            ''A worker was reported under conflicting attempt identities; inspect before requesting more capacity.'' r else r)
      | (Some w, None) \<Rightarrow> (w, r))"

definition placed :: "launch_choice \<Rightarrow> worker_outcome \<Rightarrow> worker_outcome" where
  "placed c = on_instance (\<lambda>i. i\<lparr>in_Type := ch_InstanceType c, in_SubnetID := ch_SubnetID c, in_AvailabilityZone := ch_AvailabilityZone c\<rparr>)"

definition place_retained :: "launch_choice \<Rightarrow> worker_outcome \<Rightarrow> reconciler \<Rightarrow> worker_outcome \<times> reconciler" where
  "place_retained choice w r =
     (if choice = zero_choice then (w, r)
      else if \<not> placement_kept (wo_Instance w) choice
      then (w, add_problem (wo_ID w) ''launch_identity_mismatch'' ''A worker's reported placement differs from its immutable response.'' r)
      else (placed choice w, r))"

text \<open>What is recorded of the attempt the machine belongs to.\<close>

definition retain_identity :: "launch_snapshot \<Rightarrow> attempt_receipt \<Rightarrow> string \<Rightarrow> reconciler \<Rightarrow> reconciler" where
  "retain_identity sn a i r =
     (let r = (if map_of (sn_Claims sn) (ar_AttemptID a) = None
        then add_problem i ''launch_identity_mismatch'' ''EC2 reported a worker for an attempt without shared dispatch evidence.'' r else r) in
      if i \<in> set (ids_of a) then r
      else let r = (if terminal a
        then add_problem i ''launch_response_conflict'' ''EC2 reported a worker absent from the original complete response; further allocation is blocked.'' r
        else r) in
      update_attempt (ar_AttemptID a) (\<lambda>a. a\<lparr>ar_State := ''unknown'', ar_InstanceIDs := Some (unionInstanceIDs [ids_of a, [i]])\<rparr>) r)"

definition retain :: "launch_snapshot \<Rightarrow> string \<Rightarrow> string \<Rightarrow> launch_choice \<Rightarrow> inst_volume list option \<Rightarrow> reconciler \<Rightarrow> reconciler" where
  "retain sn attempt i choice vs r =
     (if \<not> re_match instanceRE i
      then add_problem [] ''launch_inventory_invalid'' ''EC2 returned an invalid worker identity; inspect the original request.'' r
      else (case retained_worker attempt i choice r of (w, r) \<Rightarrow>
        (case place_retained choice (on_instance (merge_volumes vs) w) r of (w, r) \<Rightarrow>
          let r = set_worker w r in
          (case known_attempt_of r attempt of
             None \<Rightarrow> add_problem i ''launch_identity_mismatch'' ''EC2 returned a worker with an unknown attempt identity; preserve it for inspection.'' r
           | Some a \<Rightarrow> retain_identity sn a i r))))"

section \<open>Machines that are going away\<close>

text \<open>Such a machine may have lost settings; those it still shows must be those of the plan.\<close>

definition historical_settings :: "launch_plan \<Rightarrow> inst \<Rightarrow> fleet_instance \<Rightarrow> bool" where
  "historical_settings p known i \<longleftrightarrow> (let actual = observed_inst (base_instance i) in
     (ai_ImageId i = None \<or> in_Image actual = im_AMIID (lp_Image p)) \<and> (ai_InstanceType i = [] \<or> in_Type actual = in_Type known)
     \<and> in_Market actual = lp_Market p \<and> (ai_SubnetId i = None \<or> aws_to_string (ai_SubnetId i) = in_SubnetID known)
     \<and> (case ai_Placement i of Some (Some z) \<Rightarrow> z = in_AvailabilityZone known | _ \<Rightarrow> True)
     \<and> (case fx_IamInstanceProfile i of None \<Rightarrow> True | Some arn \<Rightarrow> aws_to_string arn = lp_InstanceProfileARN p)
     \<and> (fx_SecurityGroups i = [] \<or> exactFleetGroup (fx_SecurityGroups i) (lp_SecurityGroupID p))
     \<and> (case fx_MetadataOptions i of None \<Rightarrow> True | Some m \<Rightarrow> metadata_ok m))"

definition historical_mapping :: "launch_plan \<Rightarrow> inst \<Rightarrow> block_device \<Rightarrow> bool" where
  "historical_mapping p known b \<longleftrightarrow> aws_to_string (bd_DeviceName b) = im_RootDeviceName (lp_Image p)
     \<and> (case bd_Ebs b of None \<Rightarrow> False
        | Some e \<Rightarrow> eb_DeleteOnTermination e = Some True
            \<and> list_all (\<lambda>v. iv_Root v \<longrightarrow> iv_ID v = aws_to_string (eb_VolumeId e)) (elems (in_Volumes known)))"

definition historical_nic :: "launch_plan \<Rightarrow> inst \<Rightarrow> network_interface \<Rightarrow> bool" where
  "historical_nic p known n \<longleftrightarrow> (ni_SubnetId n = None \<or> aws_to_string (ni_SubnetId n) = in_SubnetID known)
     \<and> (ni_OwnerId n = None \<or> aws_to_string (ni_OwnerId n) = lp_Account p)
     \<and> (ni_Groups n = [] \<or> exactFleetGroup (ni_Groups n) (lp_SecurityGroupID p))
     \<and> (case ni_Attachment n of None \<Rightarrow> True | Some a \<Rightarrow> aws_to_int (na_DeviceIndex a) = 0 \<and> na_DeleteOnTermination a = Some True)"

definition historicalInstanceMatches :: "launch_plan \<Rightarrow> attempt_receipt \<Rightarrow> worker_outcome \<Rightarrow> string \<Rightarrow> fleet_instance \<Rightarrow> bool" where
  "historicalInstanceMatches p a known owner i \<longleftrightarrow> (case fleetObservedTags (ai_Tags i) p a of (tags, ok) \<Rightarrow>
     ok \<and> owner = lp_Account p \<and> template_pinned p tags \<and> historical_settings p (wo_Instance known) i
     \<and> (ai_RootDeviceName i = None \<or> aws_to_string (ai_RootDeviceName i) = im_RootDeviceName (lp_Image p))
     \<and> (ai_RootDeviceType i = [] \<or> ai_RootDeviceType i = ''ebs'')
     \<and> length (ai_BlockDeviceMappings i) \<le> 1 \<and> length (fx_NetworkInterfaces i) \<le> 1
     \<and> list_all (historical_mapping p (wo_Instance known)) (ai_BlockDeviceMappings i)
     \<and> list_all (historical_nic p (wo_Instance known)) (fx_NetworkInterfaces i))"

section \<open>The inventory of the request\<close>

definition instance_attempt :: "fleet_instance \<Rightarrow> string" where
  "instance_attempt i = tag_value (tagsOf (ai_Tags i)) ''AttemptId''"

definition instance_id :: "fleet_instance \<Rightarrow> string" where
  "instance_id i = in_ID (observed_inst (base_instance i))"

definition note_expiry :: "gotime \<Rightarrow> fleet_instance \<Rightarrow> reconciler \<Rightarrow> reconciler" where
  "note_expiry now i r =
     (case map_of (rc_workers r) (instance_id i) of
        None \<Rightarrow> r
      | Some w \<Rightarrow> r\<lparr>rc_workers := map_put (instance_id i) (on_instance (inspectInstanceExpiry now (ai_Tags i)) w) (rc_workers r)\<rparr>)"

definition scan_row_ok :: "gotime \<Rightarrow> string \<Rightarrow> fleet_instance \<Rightarrow> reconciler \<Rightarrow> bool" where
  "scan_row_ok now owner i r =
     (let p = br_Plan (rc_Receipt r); w = lookup zero_worker (rc_workers r) (instance_id i) in
      case known_attempt_of r (instance_attempt i) of
        None \<Rightarrow> False
      | Some a \<Rightarrow> snd (fleetObservedTags (ai_Tags i) p a)
          \<and> (if instance_id i \<in> set (rc_historical r) \<and> terminal_instance (base_instance i)
             then historicalInstanceMatches p a w owner i
             else \<not> fo_mismatch (observeFleetInstance p a owner i now (fresh_observation w))))"

definition scan_row :: "launch_snapshot \<Rightarrow> gotime \<Rightarrow> string \<Rightarrow> fleet_instance \<Rightarrow> string list \<times> reconciler \<Rightarrow> string list \<times> reconciler" where
  "scan_row sn now owner i s =
     (case s of (ids, r) \<Rightarrow>
        let r = note_expiry now i (retain sn (instance_attempt i) (instance_id i) zero_choice (in_Volumes (observed_inst (base_instance i))) r) in
        (instance_id i # ids,
         if \<not> scan_row_ok now owner i r \<or> owner \<noteq> lp_Account (br_Plan (rc_Receipt r)) \<or> instance_id i \<in> set ids
         then add_problem (instance_id i) ''launch_identity_mismatch'' ''Scoped EC2 inventory returned a duplicate or mismatched worker identity.'' r
         else r))"

definition scan_step :: "look_env \<Rightarrow> launch_snapshot \<Rightarrow> gotime \<Rightarrow> string option \<Rightarrow> string list \<times> reconciler \<Rightarrow> page_reply \<times> string list \<times> reconciler" where
  "scan_step E sn now token s =
     (case s of (ids, r) \<Rightarrow>
        let r = look (LookScan token) r; (out, err) = le_instances E (rc_log r);
            s = (case out of None \<Rightarrow> (ids, r)
                 | Some o1 \<Rightarrow> fold (\<lambda>v. fold (scan_row sn now (aws_to_string (fr_OwnerId v))) (fr_Instances v)) (ip_Reservations o1) (ids, r)) in
        (page_verdict out err ip_NextToken, s))"

definition inventory_end :: "page_end \<Rightarrow> reconciler \<Rightarrow> reconciler" where
  "inventory_end e r =
     (case e of
        UnreadablePage \<Rightarrow> add_problem [] ''launch_inventory_unavailable'' ''The request inventory could not be read completely; retry inspection.'' r
      | RepeatedToken \<Rightarrow> add_problem [] ''launch_inventory_invalid'' ''EC2 repeated an inventory pagination token; retry inspection.'' r
      | _ \<Rightarrow> r)"

definition reconcile_scan :: "look_env \<Rightarrow> launch_snapshot \<Rightarrow> reconciler \<Rightarrow> reconciler option" where
  "reconcile_scan E sn r =
     (case look_clock E r of (now, r) \<Rightarrow>
        (case pages (on_state (look_context E)) (scan_step E sn now) [] None ([], r) of
           None \<Rightarrow> None
         | Some (e, ids, r) \<Rightarrow> Some (inventory_end e r)))"

section \<open>The Fleets\<close>

definition capacity_pinned :: "launch_plan \<Rightarrow> attempt_receipt \<Rightarrow> fleet_data \<Rightarrow> bool" where
  "capacity_pinned p a f \<longleftrightarrow> (let n = to_int32 (ar_RequestedCount a) in
     case fl_Capacity f of
       None \<Rightarrow> False
     | Some c \<Rightarrow>
         aws_to_int (fc_Total c) = n \<and> fc_DefaultType c = lp_Market p \<and> (fc_UnitType c = [] \<or> fc_UnitType c = ''units'')
         \<and> (if lp_Market p = ''spot''
            then aws_to_int (fc_Spot c) = n \<and> aws_to_int (fc_OnDemand c) = 0 \<and> fl_Spot f = Some (''price-capacity-optimized'', False)
            else aws_to_int (fc_OnDemand c) = n \<and> aws_to_int (fc_Spot c) = 0 \<and> fl_OnDemand f = Some ''lowest-price''))"

definition root_mapping_pinned :: "launch_plan \<Rightarrow> fleet_mapping \<Rightarrow> bool" where
  "root_mapping_pinned p m \<longleftrightarrow> aws_to_string (fm_DeviceName m) = im_RootDeviceName (lp_Image p) \<and> fm_NoDevice m = None \<and> fm_VirtualName m = None
     \<and> (case fm_Ebs m of None \<Rightarrow> False
        | Some e \<Rightarrow> aws_to_int (fb_VolumeSize e) = to_int32 (rd_SizeGB (lp_RootDisk p)) \<and> fb_VolumeType e = ''gp3''
            \<and> fb_Encrypted e = Some True \<and> fb_DeleteOnTermination e = Some True)"

fun overrides_pinned :: "launch_plan \<Rightarrow> launch_choice list \<Rightarrow> fleet_data_override list \<Rightarrow> bool" where
  "overrides_pinned p seen [] = True"
| "overrides_pinned p seen (v # vs) =
     (case fleetResponsePool p [] [] [] (Some \<lparr>lr_Specification = None, lr_Overrides = Some (override_reply.truncate v)\<rparr>) of
        (choice, valid) \<Rightarrow>
          valid \<and> choice \<notin> set seen \<and> aws_to_string (or_ImageId v) = im_AMIID (lp_Image p)
          \<and> (case fd_BlockDeviceMappings v of [m] \<Rightarrow> root_mapping_pinned p m | _ \<Rightarrow> False)
          \<and> aws_to_string (fd_MaxPrice v) = [] \<and> overrides_pinned p (choice # seen) vs)"

definition reconciledFleetPins :: "launch_plan \<Rightarrow> attempt_receipt \<Rightarrow> fleet_data \<Rightarrow> bool" where
  "reconciledFleetPins p a f \<longleftrightarrow> snd (fleetObservedTags (fl_Tags f) p a) \<and> aws_to_string (fl_ClientToken f) = ar_ClientToken a
     \<and> fl_Type f = ''instant'' \<and> fl_ReplaceUnhealthy f \<noteq> Some True \<and> fl_TerminateWithExpiration f \<noteq> Some True
     \<and> capacity_pinned p a f
     \<and> (case fl_Templates f of
          [t] \<Rightarrow> (case fp_Specification t of None \<Rightarrow> False
                  | Some (template, version) \<Rightarrow> aws_to_string template = im_LaunchTemplateID (lp_Image p)
                      \<and> aws_to_string version = im_LaunchTemplateVersion (lp_Image p))
               \<and> length (fp_Overrides t) = length (elems (lp_Choices p)) \<and> overrides_pinned p [] (fp_Overrides t)
        | _ \<Rightarrow> False)"

definition group_row :: "launch_snapshot \<Rightarrow> attempt_receipt \<Rightarrow> fleet_group \<Rightarrow> string \<Rightarrow> string list \<times> reconciler \<Rightarrow> string list \<times> reconciler" where
  "group_row sn a g i s =
     (case s of (ids, r) \<Rightarrow>
        (case fleetResponsePool (br_Plan (rc_Receipt r)) (fg_InstanceType g) [] [] (fg_Launch g) of (choice, valid) \<Rightarrow>
           let r = retain sn (ar_AttemptID a) i choice None r in
           (i # ids,
            if \<not> valid \<or> fg_Lifecycle g \<noteq> lp_Market (br_Plan (rc_Receipt r)) \<or> fg_Platform g \<noteq> [] \<or> i \<in> set ids
            then add_problem i ''fleet_identity_mismatch'' ''Fleet reported conflicting worker placement or market evidence.'' r else r)))"

definition fleet_row :: "launch_snapshot \<Rightarrow> attempt_receipt \<Rightarrow> fleet_data \<Rightarrow> bool \<times> reconciler \<Rightarrow> bool \<times> reconciler" where
  "fleet_row sn a f s =
     (case s of (seen, r) \<Rightarrow>
        let r = (if seen \<or> aws_to_string (fl_FleetId f) \<noteq> ar_FleetID a \<or> \<not> reconciledFleetPins (br_Plan (rc_Receipt r)) a f
          then add_problem (ar_FleetID a) ''fleet_identity_mismatch'' ''EC2 Fleet settings differ from the original token, scope or pinned launch configuration.'' r
          else r) in
        (True, snd (fold (\<lambda>g. fold (group_row sn a g) (fg_InstanceIds g)) (fl_Instances f) ([], r))))"

text \<open>The record of an instant Fleet expires; its absence says nothing.\<close>

definition fleet_step :: "look_env \<Rightarrow> launch_snapshot \<Rightarrow> attempt_receipt \<Rightarrow> string option \<Rightarrow> bool \<times> reconciler \<Rightarrow> page_reply \<times> bool \<times> reconciler" where
  "fleet_step E sn a token s =
     (case s of (seen, r) \<Rightarrow>
        let r = look (LookFleets (ar_FleetID a) token) r; (out, err) = le_fleets E (rc_log r);
            s = (case out of None \<Rightarrow> (seen, r) | Some o1 \<Rightarrow> fold (fleet_row sn a) (fq_Fleets o1) (seen, r)) in
        (if apiCode err ''InvalidFleetId.NotFound'' \<or> apiCode err ''InvalidFleetID.NotFound'' then NextPage []
         else page_verdict out err fq_NextToken, s))"

definition fleet_end :: "attempt_receipt \<Rightarrow> page_end \<Rightarrow> reconciler \<Rightarrow> reconciler" where
  "fleet_end a e r =
     (case e of
        UnreadablePage \<Rightarrow> add_problem (ar_FleetID a) ''fleet_observation_unavailable'' ''The known Fleet could not be inspected completely; retry observation.'' r
      | RepeatedToken \<Rightarrow> add_problem (ar_FleetID a) ''fleet_inventory_invalid'' ''EC2 repeated a Fleet pagination token; retry inspection.'' r
      | _ \<Rightarrow> r)"

definition reconcile_fleet :: "look_env \<Rightarrow> launch_snapshot \<Rightarrow> attempt_receipt \<Rightarrow> reconciler \<Rightarrow> reconciler option" where
  "reconcile_fleet E sn a r =
     (if \<not> re_match fleetIDRE (ar_FleetID a)
      then Some (add_problem [] ''fleet_identity_mismatch'' ''The known Fleet identity is invalid; inspect the original request.'' r)
      else (case pages (on_state (look_context E)) (fleet_step E sn a) [] None (False, r) of
              None \<Rightarrow> None
            | Some (e, seen, r) \<Rightarrow> Some (fleet_end a e r)))"

fun reconcile_fleets :: "look_env \<Rightarrow> launch_snapshot \<Rightarrow> attempt_receipt list \<Rightarrow> reconciler \<Rightarrow> reconciler option" where
  "reconcile_fleets E sn [] r = Some r"
| "reconcile_fleets E sn (a # as) r =
     (if ar_FleetID a = [] then reconcile_fleets E sn as r
      else case reconcile_fleet E sn a r of None \<Rightarrow> None | Some r \<Rightarrow> reconcile_fleets E sn as r)"

section \<open>Inspecting one worker\<close>

text \<open>The inventory that is wrapped around EC2: it keeps what it hands on, and takes out what a removed machine shows.\<close>

record inspection =
  is_rec :: reconciler
  is_gone :: bool
  is_live :: bool
  is_failed :: bool
  is_terminal :: "inst option"
  is_latest :: "inst option"
  is_seen :: "string list"

definition start_inspection :: "reconciler \<Rightarrow> inspection" where
  "start_inspection r = \<lparr>is_rec = r, is_gone = False, is_live = False, is_failed = False, is_terminal = None, is_latest = None, is_seen = []\<rparr>"

definition lift_rec :: "(reconciler \<Rightarrow> 'a \<times> reconciler) \<Rightarrow> inspection \<Rightarrow> 'a \<times> inspection" where
  "lift_rec f s = (case f (is_rec s) of (x, r) \<Rightarrow> (x, s\<lparr>is_rec := r\<rparr>))"

abbreviation with_rec :: "(reconciler \<Rightarrow> reconciler) \<Rightarrow> inspection \<Rightarrow> inspection" where
  "with_rec f s \<equiv> s\<lparr>is_rec := f (is_rec s)\<rparr>"

text \<open>What is fixed for one worker: its attempt, the worker as known, and whether its response is history.\<close>

record inspected =
  it_attempt :: attempt_receipt
  it_known :: worker_outcome
  it_historical :: bool

definition observe_latest :: "look_env \<Rightarrow> inspected \<Rightarrow> fleet_instance \<Rightarrow> inspection \<Rightarrow> inspection" where
  "observe_latest E t i s =
     (if instance_id i \<noteq> wo_ID (it_known t) then s
      else (case lift_rec (look_clock E) s of (now, s) \<Rightarrow>
        s\<lparr>is_latest := Some (inspectInstanceExpiry now (ai_Tags i) (observed_inst (base_instance i)))\<rparr>))"

definition note_seen :: "fleet_instance \<Rightarrow> inspection \<Rightarrow> inspection" where
  "note_seen i s =
     (let s = (if instance_id i \<in> set (is_seen s)
        then with_rec (add_problem (instance_id i) ''worker_inventory_invalid'' ''Exact EC2 inspection repeated a worker identity; retry inspection.'')
          (s\<lparr>is_failed := True\<rparr>) else s) in
      s\<lparr>is_seen := instance_id i # is_seen s\<rparr>)"

text \<open>The expiry of the row, as the wrapper has read it.\<close>

definition note_terminal :: "inspected \<Rightarrow> string \<Rightarrow> fleet_instance \<Rightarrow> inspection \<Rightarrow> inspection" where
  "note_terminal t owner i s =
     (let s = s\<lparr>is_gone := True, is_terminal := is_latest s\<rparr> in
      if historicalInstanceMatches (br_Plan (rc_Receipt (is_rec s))) (it_attempt t) (it_known t) owner i then s
      else with_rec (add_problem (instance_id i) ''launch_identity_mismatch'' ''A historical worker has present settings that contradict the original launch pins.'')
        (s\<lparr>is_failed := True\<rparr>))"

definition inspect_row :: "look_env \<Rightarrow> launch_snapshot \<Rightarrow> inspected \<Rightarrow> string \<Rightarrow> fleet_instance \<Rightarrow> fleet_instance list \<times> inspection
    \<Rightarrow> fleet_instance list \<times> inspection" where
  "inspect_row E sn t owner i x =
     (case x of (kept, s) \<Rightarrow>
        let s = observe_latest E t i s;
            s = with_rec (retain sn (instance_attempt i) (instance_id i) zero_choice (in_Volumes (observed_inst (base_instance i)))) s;
            s = note_seen i s in
        if it_historical t \<and> instance_id i = wo_ID (it_known t) \<and> terminal_instance (base_instance i)
        then (kept, note_terminal t owner i s)
        else (kept @ [i], s\<lparr>is_live := True\<rparr>))"

definition inspect_reservation :: "look_env \<Rightarrow> launch_snapshot \<Rightarrow> inspected \<Rightarrow> fleet_reservation \<Rightarrow> fleet_reservation list \<times> inspection
    \<Rightarrow> fleet_reservation list \<times> inspection" where
  "inspect_reservation E sn t v x =
     (case x of (done, s) \<Rightarrow>
        (case fold (inspect_row E sn t (aws_to_string (fr_OwnerId v))) (fr_Instances v) ([], s) of
           (kept, s) \<Rightarrow> (done @ [v\<lparr>fr_Instances := kept\<rparr>], s)))"

definition wrapped_instances :: "look_env \<Rightarrow> launch_snapshot \<Rightarrow> inspected \<Rightarrow> string list \<Rightarrow> string option \<Rightarrow> inspection
    \<Rightarrow> (instances_page option \<times> aws_error option) \<times> inspection" where
  "wrapped_instances E sn t ids token s =
     (let s = with_rec (look (LookInstances ids token)) s; (out, err) = le_instances E (rc_log (is_rec s)) in
      if it_historical t \<and> apiCode err ''InvalidInstanceID.NotFound'' \<and> out = None
      then ((Some \<lparr>ip_Reservations = [], ip_NextToken = None\<rparr>, None), s\<lparr>is_gone := True\<rparr>)
      else let s = (if err \<noteq> None \<or> out = None then s\<lparr>is_failed := True\<rparr> else s) in
        (case out of
           None \<Rightarrow> ((None, err), s)
         | Some o1 \<Rightarrow>
             (case fold (inspect_reservation E sn t) (ip_Reservations o1) ([], s) of
                (kept, s) \<Rightarrow>
                  ((Some (o1\<lparr>ip_Reservations := kept\<rparr>), err),
                   if concat (map fr_Instances (ip_Reservations o1)) = [] then s\<lparr>is_gone := True\<rparr> else s))))"

definition wrapped_volumes :: "look_env \<Rightarrow> string list \<Rightarrow> string option \<Rightarrow> inspection \<Rightarrow> (volumes_page option \<times> aws_error option) \<times> inspection" where
  "wrapped_volumes E ids token s = (let s = with_rec (look (LookVolumes ids token)) s in (le_volumes E (rc_log (is_rec s)), s))"

definition inspection_env :: "look_env \<Rightarrow> launch_snapshot \<Rightarrow> inspected \<Rightarrow> inspection verify_env" where
  "inspection_env E sn t = \<lparr>ve_now = lift_rec (look_clock E), ve_ctx = lift_rec (look_context E),
     ve_api = Some \<lparr>fa_instances = wrapped_instances E sn t, fa_volumes = wrapped_volumes E\<rparr>\<rparr>"

text \<open>A machine whose complete response is history may be gone.\<close>

definition only_gone :: "inspected \<Rightarrow> inspection \<Rightarrow> failure option \<Rightarrow> bool" where
  "only_gone t s err \<longleftrightarrow> it_historical t \<and> is_gone s \<and> \<not> is_failed s \<and> \<not> is_live s \<and> (err = None \<or> err = Some observation_unavailable)"

definition verified_worker :: "inspected \<Rightarrow> inspection \<Rightarrow> failure option \<Rightarrow> worker_outcome \<Rightarrow> worker_outcome" where
  "verified_worker t s err w =
     (let w = on_instance (merge_volumes (in_Volumes (wo_Instance (lookup zero_worker (rc_workers (is_rec s)) (wo_ID (it_known t)))))) w;
          w = (case is_latest s of None \<Rightarrow> w | Some latest \<Rightarrow> on_instance (\<lambda>i. copyObservedExpiry i latest) w) in
      if only_gone t s err
      then (on_instance (\<lambda>i. i\<lparr>in_ObservationCode := [],
              in_State := (case is_terminal s of None \<Rightarrow> in_State i | Some g \<Rightarrow> in_State g)\<rparr>) w)\<lparr>wo_Status := ''historical''\<rparr>
      else w)"

definition conclude_worker :: "inspected \<Rightarrow> (worker_outcome list \<times> failure option) \<times> inspection \<Rightarrow> reconciler" where
  "conclude_worker t x =
     (case x of ((ws, err), s) \<Rightarrow>
        let i = wo_ID (it_known t) in
        (case ws of
           [w] \<Rightarrow>
             let r = (if \<not> only_gone t s err \<and> err \<noteq> None
               then add_problem i ''worker_observation_unavailable'' ''A known worker or root volume could not be verified against the original launch pins.'' (is_rec s)
               else is_rec s) in
             r\<lparr>rc_workers := map_put i (verified_worker t s err w) (rc_workers r)\<rparr>
         | _ \<Rightarrow> add_problem i ''worker_inventory_invalid'' ''Exact worker inspection returned contradictory identities.'' (is_rec s)))"

definition verify_worker :: "look_env \<Rightarrow> launch_snapshot \<Rightarrow> string \<Rightarrow> reconciler \<Rightarrow> reconciler option" where
  "verify_worker E sn i r =
     (let known = lookup zero_worker (rc_workers r) i in
      case known_attempt_of r (in_AttemptID (wo_Instance known)) of
        None \<Rightarrow> Some r
      | Some a \<Rightarrow>
          let a = a\<lparr>ar_InstanceIDs := Some [i]\<rparr>; t = \<lparr>it_attempt = a, it_known = known, it_historical = i \<in> set (rc_historical r)\<rparr> in
          map_option (conclude_worker t)
            (VerifyFleetWorkers (inspection_env E sn t) (br_Plan (rc_Receipt r)) a [known] (start_inspection r)))"

fun verify_workers :: "look_env \<Rightarrow> launch_snapshot \<Rightarrow> string list \<Rightarrow> reconciler \<Rightarrow> reconciler option" where
  "verify_workers E sn [] r = Some r"
| "verify_workers E sn (i # is) r =
     (case look_context E r of (ended, r) \<Rightarrow>
        if ended then Some r
        else case verify_worker E sn i r of None \<Rightarrow> None | Some r \<Rightarrow> verify_workers E sn is r)"

section \<open>The reconciliation\<close>

text \<open>Everything that is asked of EC2.\<close>

definition reconcile_ec2 :: "look_env \<Rightarrow> launch_snapshot \<Rightarrow> reconciler \<Rightarrow> reconciler option" where
  "reconcile_ec2 E sn r =
     (case reconcile_scan E sn r of
        None \<Rightarrow> None
      | Some r \<Rightarrow>
          (case reconcile_fleets E sn (br_Attempts (sn_Receipt sn)) r of
             None \<Rightarrow> None
           | Some r \<Rightarrow> verify_workers E sn (map fst (rc_workers r)) r))"

definition conclude_reconcile :: "look_env \<Rightarrow> launch_snapshot \<Rightarrow> reconciler \<Rightarrow> (launch_observation \<times> failure option) \<times> look_log" where
  "conclude_reconcile E sn r =
     (let out = reconciled sn r; (ended, r) = look_context E r in
      (if ended then (out\<lparr>lo_Bounded := False\<rparr>, Some Cancelled)
       else if lo_Errors out \<noteq> [] then (out, Some (Failure ''launch_reconciliation_unavailable''))
       else (out, None), rc_log r))"

text \<open>The observation and the error, with the calls that were made.\<close>

definition ReconcileLaunch :: "look_env \<Rightarrow> launch_snapshot \<Rightarrow> ((launch_observation \<times> failure option) \<times> look_log) option" where
  "ReconcileLaunch E sn =
     (case validate E sn (start_reconciler sn) of
        (ok, r) \<Rightarrow>
          if \<not> ok then Some ((reconciled sn (r\<lparr>rc_Bounded := False\<rparr>), Some Corrupt), rc_log r)
          else if \<not> le_api E
          then Some (conclude_reconcile E sn
            (add_problem [] ''launch_inventory_unavailable'' ''EC2 inspection is unavailable; preserve this request and resume without allocating.'' r))
          else map_option (conclude_reconcile E sn) (reconcile_ec2 E sn r))"

end
