(* ===== verification/ReconcileProperties.thy ===== *)
theory ReconcileProperties
  imports Reconcile FleetWorkersProperties OutcomeProperties "HOL-Library.Sublist"
begin

text \<open>
  What \<open>ReconcileLaunch\<close> guarantees: the observation bounds the allocation only when every attempt has its complete
  response, EC2 showed nothing that contradicts one, and every machine was verified or is history.  The changes of the
  reconciler are a step relation, and what holds of it is proved by rule induction.
\<close>

section \<open>The moves of a reconciler\<close>

inductive moves :: "launch_snapshot \<Rightarrow> reconciler \<Rightarrow> reconciler \<Rightarrow> bool" for sn where
  stays: "moves sn r r"
| looks: "moves sn r r' \<Longrightarrow> moves sn r (look c r')"
| complains: "moves sn r r' \<Longrightarrow> moves sn r (add_problem i code message r')"
| retains: "moves sn r r' \<Longrightarrow> moves sn r (retain sn attempt i choice vs r')"
| expires: "moves sn r r' \<Longrightarrow> moves sn r (note_expiry now i r')"

lemma moves_trans:
  assumes "moves sn r' r''" "moves sn r r'"
  shows "moves sn r r''"
  using assms by (induction rule: moves.induct) (blast intro: moves.intros)+

lemma moves_fold: "moves sn r r0 \<Longrightarrow> (\<And>x r'. moves sn r r' \<Longrightarrow> moves sn r (f x r')) \<Longrightarrow> moves sn r (fold f xs r0)"
  by (rule fold_invariant)

text \<open>The scan and the Fleets move it.\<close>

lemma scan_row_moves: "moves sn r (snd s) \<Longrightarrow> moves sn r (snd (scan_row sn now owner i s))"
  by (cases s) (simp add: scan_row_def Let_def moves.intros)

lemma scan_rows_moves:
  "moves sn r (snd s) \<Longrightarrow> moves sn r (snd (fold (\<lambda>v. fold (scan_row sn now (aws_to_string (fr_OwnerId v))) (fr_Instances v)) vs s))"
  by (rule fold_invariant, assumption, rule fold_invariant, assumption, rule scan_row_moves)

lemma scan_step_moves: "moves sn r (snd s) \<Longrightarrow> moves sn r (snd (snd (scan_step E sn now t s)))"
proof -
  assume m: "moves sn r (snd s)"
  obtain ids r1 where s: "s = (ids, r1)" by (cases s)
  obtain out err where o: "le_instances E (rc_log (look (LookScan t) r1)) = (out, err)" by fastforce
  have "moves sn r (look (LookScan t) r1)" using m s by (simp add: moves.looks)
  then show ?thesis using scan_rows_moves [of sn r "(ids, look (LookScan t) r1)" now] by (auto simp: scan_step_def s o Let_def split: option.split)
qed

lemma group_row_moves: "moves sn r (snd s) \<Longrightarrow> moves sn r (snd (group_row sn a g i s))"
  by (cases s) (simp add: group_row_def Let_def moves.intros split: prod.split)

lemma fleet_row_moves: "moves sn r (snd s) \<Longrightarrow> moves sn r (snd (fleet_row sn a f s))"
proof -
  assume m: "moves sn r (snd s)"
  obtain seen r1 where s: "s = (seen, r1)" by (cases s)
  have "moves sn r (snd (fold (\<lambda>g. fold (group_row sn a g) (fg_InstanceIds g)) gs ([], r2)))" if "moves sn r r2" for gs r2
    by (rule fold_invariant [where P = "\<lambda>s. moves sn r (snd s)"], simp add: that, rule fold_invariant [where P = "\<lambda>s. moves sn r (snd s)"],
        assumption, rule group_row_moves)
  then show ?thesis using m by (simp add: s fleet_row_def Let_def moves.intros)
qed

lemma fleet_step_moves: "moves sn r (snd s) \<Longrightarrow> moves sn r (snd (snd (fleet_step E sn a t s)))"
proof -
  assume m: "moves sn r (snd s)"
  obtain seen r1 where s: "s = (seen, r1)" by (cases s)
  let ?r = "look (LookFleets (ar_FleetID a) t) r1"
  obtain out err where o: "le_fleets E (rc_log ?r) = (out, err)" by fastforce
  have "moves sn r ?r" using m s by (simp add: moves.looks)
  then have "moves sn r (snd (fold (fleet_row sn a) fs (seen, ?r)))" for fs
    by (intro fold_invariant [where P = "\<lambda>s. moves sn r (snd s)"]) (simp_all add: fleet_row_moves)
  then show ?thesis using m by (auto simp: fleet_step_def s o Let_def moves.intros split: option.split)
qed

lemma on_context_moves: "moves sn r (snd s) \<Longrightarrow> moves sn r (snd (snd (on_state (look_context E) s)))"
  by (cases s) (simp add: on_state_def look_context_def Let_def moves.intros)

lemma reconcile_scan_moves: "reconcile_scan E sn r = Some r' \<Longrightarrow> moves sn r r'"
proof -
  assume run: "reconcile_scan E sn r = Some r'"
  obtain now r1 where c: "look_clock E r = (now, r1)" by (cases "look_clock E r")
  obtain e ids r2 where p: "pages (on_state (look_context E)) (scan_step E sn now) [] None ([], r1) = Some (e, ids, r2)" "r' = inventory_end e r2"
    using run by (auto simp: reconcile_scan_def c split: option.splits)
  have "moves sn r r1" using c moves.looks [OF moves.stays] by (auto simp: look_clock_def Let_def)
  then have "moves sn r (snd (snd (e, ids, r2)))"
    by (intro pages_keep [where I = "\<lambda>s. moves sn r (snd s)", OF p(1)]) (simp_all add: on_context_moves scan_step_moves)
  then show ?thesis by (simp add: p(2) inventory_end_def moves.intros split: page_end.split)
qed

lemma reconcile_fleet_moves: "reconcile_fleet E sn a r = Some r' \<Longrightarrow> moves sn r r'"
proof (cases "re_match fleetIDRE (ar_FleetID a)")
  case True
  assume run: "reconcile_fleet E sn a r = Some r'"
  then obtain e seen r2 where p: "pages (on_state (look_context E)) (fleet_step E sn a) [] None (False, r) = Some (e, seen, r2)" "r' = fleet_end a e r2"
    using True by (auto simp: reconcile_fleet_def split: option.splits)
  have "moves sn r (snd (snd (e, seen, r2)))"
    by (intro pages_keep [where I = "\<lambda>s. moves sn r (snd s)", OF p(1)]) (simp_all add: on_context_moves fleet_step_moves moves.stays)
  then show ?thesis by (simp add: p(2) fleet_end_def moves.intros split: page_end.split)
qed (auto simp: reconcile_fleet_def moves.intros)

lemma reconcile_fleets_moves: "reconcile_fleets E sn as r = Some r' \<Longrightarrow> moves sn r r'"
proof (induction as arbitrary: r)
  case (Cons a as)
  then show ?case using reconcile_fleet_moves moves_trans by (fastforce split: if_splits option.splits)
qed (simp add: moves.stays)

text \<open>So does every call of the wrapped inventory.\<close>

lemma observe_latest_moves: "moves sn r (is_rec s) \<Longrightarrow> moves sn r (is_rec (observe_latest E t i s))"
  by (simp add: observe_latest_def lift_rec_def look_clock_def Let_def moves.intros)

lemma note_seen_moves: "moves sn r (is_rec s) \<Longrightarrow> moves sn r (is_rec (note_seen i s))"
  by (simp add: note_seen_def Let_def moves.intros)

lemma note_terminal_moves: "moves sn r (is_rec s) \<Longrightarrow> moves sn r (is_rec (note_terminal t owner i s))"
  by (simp add: note_terminal_def Let_def moves.intros)

lemma inspect_row_moves: "moves sn r (is_rec (snd x)) \<Longrightarrow> moves sn r (is_rec (snd (inspect_row E sn t owner i x)))"
proof -
  assume m: "moves sn r (is_rec (snd x))"
  obtain kept s where x: "x = (kept, s)" by (cases x)
  let ?s = "note_seen i (with_rec (retain sn (instance_attempt i) (instance_id i) zero_choice (in_Volumes (observed_inst (base_instance i))))
      (observe_latest E t i s))"
  have "moves sn r (is_rec ?s)" using m by (intro note_seen_moves) (simp add: x moves.retains observe_latest_moves)
  then show ?thesis using note_terminal_moves [of sn r ?s t owner i] unfolding inspect_row_def x prod.case Let_def by auto
qed

lemma inspect_reservation_moves: "moves sn r (is_rec (snd x)) \<Longrightarrow> moves sn r (is_rec (snd (inspect_reservation E sn t v x)))"
proof -
  assume m: "moves sn r (is_rec (snd x))"
  obtain kept s where x: "x = (kept, s)" by (cases x)
  have "moves sn r (is_rec (snd (fold (inspect_row E sn t (aws_to_string (fr_OwnerId v))) (fr_Instances v) ([], s))))"
    by (rule fold_invariant [where P = "\<lambda>x. moves sn r (is_rec (snd x))"]) (use m x inspect_row_moves in auto)
  then show ?thesis by (auto simp: inspect_reservation_def x split: prod.splits)
qed

text \<open>After the call itself it only moves.\<close>

lemma wrapped_instances_after:
  "moves sn (look (LookInstances ids token) (is_rec s)) (is_rec (snd (wrapped_instances E sn t ids token s)))"
proof -
  let ?s = "with_rec (look (LookInstances ids token)) s"
  obtain out err where o: "le_instances E (rc_log (is_rec ?s)) = (out, err)" by (cases "le_instances E (rc_log (is_rec ?s))")
  have s: "moves sn (is_rec ?s) (is_rec ?s)" by (rule moves.stays)
  have rows: "moves sn (is_rec ?s) (is_rec (snd (fold (inspect_reservation E sn t) vs ([], s1))))" if "is_rec s1 = is_rec ?s" for vs s1
    by (rule fold_invariant [where P = "\<lambda>x. moves sn (is_rec ?s) (is_rec (snd x))"]) (use s that inspect_reservation_moves in auto)
  have "moves sn (is_rec ?s) (is_rec s2)" if "fold (inspect_reservation E sn t) vs ([], ?s) = (kept, s2)" for vs kept s2
    using rows [of ?s vs] that by simp
  moreover have "moves sn (is_rec ?s) (is_rec s2)" if "fold (inspect_reservation E sn t) vs ([], ?s\<lparr>is_failed := True\<rparr>) = (kept, s2)" for vs kept s2
    using rows [of "?s\<lparr>is_failed := True\<rparr>" vs] that by simp
  ultimately show ?thesis using s by (auto simp: wrapped_instances_def o [simplified] Let_def split: option.split prod.split)
qed

lemma wrapped_instances_moves: "moves sn r (is_rec s) \<Longrightarrow> moves sn r (is_rec (snd (wrapped_instances E sn t ids token s)))"
  using moves_trans [OF wrapped_instances_after] moves.looks by blast

lemma wrapped_volumes_moves: "moves sn r (is_rec s) \<Longrightarrow> moves sn r (is_rec (snd (wrapped_volumes E ids token s)))"
  by (simp add: wrapped_volumes_def Let_def moves.looks)

lemma inspection_moves:
  assumes "reaches (inspection_env E sn t) g s" "moves sn r (is_rec g)"
  shows "moves sn r (is_rec s)"
  using assms
proof (induction rule: reaches.induct)
  case (reads_now g s)
  then show ?case by (simp add: inspection_env_def lift_rec_def look_clock_def Let_def moves.looks)
next
  case (reads_ctx g s)
  then show ?case by (simp add: inspection_env_def lift_rec_def look_context_def Let_def moves.looks)
next
  case (reads_instances g s api ids t')
  then show ?case by (auto simp: inspection_env_def wrapped_instances_moves)
next
  case (reads_volumes g s api ids t')
  then show ?case by (auto simp: inspection_env_def wrapped_volumes_moves)
qed

section \<open>What the moves keep\<close>

text \<open>The log grows, history stays, and an observation once unbounded stays so.\<close>

lemma add_problem_simps [simp]: "rc_Bounded (add_problem i code msg r) = False" "rc_workers (add_problem i code msg r) = rc_workers r"
  "rc_log (add_problem i code msg r) = rc_log r" "rc_historical (add_problem i code msg r) = rc_historical r" "rc_Receipt (add_problem i code msg r) = rc_Receipt r"
  by (simp_all add: add_problem_def Let_def)

lemma look_simps [simp]: "rc_Bounded (look c r) = rc_Bounded r" "rc_workers (look c r) = rc_workers r" "rc_log (look c r) = c # rc_log r"
  "rc_historical (look c r) = rc_historical r" "rc_Receipt (look c r) = rc_Receipt r" "rc_Errors (look c r) = rc_Errors r"
  by (simp_all add: look_def)

lemma set_worker_simps [simp]: "rc_Bounded (set_worker w r) = rc_Bounded r" "rc_workers (set_worker w r) = map_put (wo_ID w) w (rc_workers r)"
  "rc_log (set_worker w r) = rc_log r" "rc_historical (set_worker w r) = rc_historical r" "rc_Receipt (set_worker w r) = rc_Receipt r"
  "rc_Errors (set_worker w r) = rc_Errors r"
  by (simp_all add: set_worker_def put_worker_def)

lemma update_attempt_simps [simp]: "rc_Bounded (update_attempt i f r) = rc_Bounded r" "rc_workers (update_attempt i f r) = rc_workers r"
  "rc_log (update_attempt i f r) = rc_log r" "rc_historical (update_attempt i f r) = rc_historical r"
  "rc_Errors (update_attempt i f r) = rc_Errors r" "br_Plan (rc_Receipt (update_attempt i f r)) = br_Plan (rc_Receipt r)"
  by (simp_all add: update_attempt_def)

lemma retain_identity_simps [simp]: "rc_workers (retain_identity sn a i r) = rc_workers r" "rc_log (retain_identity sn a i r) = rc_log r"
  "rc_historical (retain_identity sn a i r) = rc_historical r" "br_Plan (rc_Receipt (retain_identity sn a i r)) = br_Plan (rc_Receipt r)"
  by (simp_all add: retain_identity_def Let_def)

lemma known_attempt_known: "known_attempt_of r i = Some a \<Longrightarrow> a \<in> set (br_Attempts (rc_Receipt r)) \<and> ar_AttemptID a = i"
  by (auto simp: known_attempt_of_def find_Some_iff)

text \<open>What a worker stands for: its status and its attempt.\<close>

definition standing :: "worker_outcome \<Rightarrow> string \<times> string" where
  "standing w = (wo_Status w, in_AttemptID (wo_Instance w))"

lemma inspect_AttemptID [simp]: "in_AttemptID (inspectInstanceExpiry now ts i) = in_AttemptID i"
  by (simp add: inspectInstanceExpiry_def setExpiryStatus_def Let_def split: prod.split reason.split sum.split)

lemma standing_simps [simp]: "standing (on_instance (merge_volumes vs) w) = standing w" "standing (placed c w) = standing w"
  "standing (on_instance (inspectInstanceExpiry now ts) w) = standing w"
  by (simp_all add: standing_def on_instance_def merge_volumes_def placed_def)

text \<open>A retained worker keeps its identity and, if it was there, its status.\<close>

lemma retained_worker_spec:
  assumes "retained_worker attempt i choice r = (w, r1)" "\<forall>(k, w) \<in> set (rc_workers r). wo_ID w = k"
  shows "wo_ID w = i \<and> rc_workers r1 = rc_workers r \<and> rc_log r1 = rc_log r \<and> rc_historical r1 = rc_historical r \<and> rc_Receipt r1 = rc_Receipt r
    \<and> (rc_Bounded r1 \<longrightarrow> r1 = r) \<and> (\<forall>w0. map_of (rc_workers r) i = Some w0 \<longrightarrow> w = w0)"
  using assms by (auto simp: retained_worker_def stray_worker_def split: option.splits if_splits dest!: map_of_SomeD)

lemma place_retained_spec:
  assumes "place_retained choice w r = (w', r1)"
  shows "wo_ID w' = wo_ID w \<and> standing w' = standing w \<and> rc_workers r1 = rc_workers r \<and> rc_log r1 = rc_log r
    \<and> rc_historical r1 = rc_historical r \<and> rc_Receipt r1 = rc_Receipt r \<and> (rc_Bounded r1 \<longrightarrow> r1 = r)"
  using assms by (auto simp: place_retained_def split: if_splits) (simp add: placed_def on_instance_def)

text \<open>The shape every state has.\<close>

definition shaped :: "launch_snapshot \<Rightarrow> reconciler \<Rightarrow> bool" where
  "shaped sn r \<longleftrightarrow> map_ok (rc_workers r) \<and> (\<forall>(k, w) \<in> set (rc_workers r). wo_ID w = k) \<and> br_Plan (rc_Receipt r) = br_Plan (sn_Receipt sn)"

definition retained :: "launch_snapshot \<Rightarrow> attempt_receipt option \<Rightarrow> string \<Rightarrow> reconciler \<Rightarrow> reconciler" where
  "retained sn x i r = (case x of
      None \<Rightarrow> add_problem i ''launch_identity_mismatch'' ''EC2 returned a worker with an unknown attempt identity; preserve it for inspection.'' r
    | Some a \<Rightarrow> retain_identity sn a i r)"

text \<open>The state in which the attempt is looked at: the worker is set, and nothing else has changed but for complaints.\<close>

definition only_complains :: "reconciler \<Rightarrow> reconciler \<Rightarrow> bool" where
  "only_complains r r' \<longleftrightarrow> rc_workers r' = rc_workers r \<and> rc_log r' = rc_log r \<and> rc_historical r' = rc_historical r \<and> rc_Receipt r' = rc_Receipt r
     \<and> (rc_Bounded r' \<longrightarrow> r' = r)"

lemma retain_run:
  assumes "shaped sn r" "re_match instanceRE i"
  shows "\<exists>w r'. retain sn attempt i choice vs r = retained sn (known_attempt_of r attempt) i (set_worker w r') \<and> only_complains r r'
    \<and> wo_ID w = i \<and> (\<forall>w0. map_of (rc_workers r) i = Some w0 \<longrightarrow> standing w = standing w0)"
proof -
  obtain w1 r1 where 1: "retained_worker attempt i choice r = (w1, r1)" by (cases "retained_worker attempt i choice r")
  have c1: "only_complains r r1" and w1: "wo_ID w1 = i" "\<forall>w0. map_of (rc_workers r) i = Some w0 \<longrightarrow> w1 = w0"
    using retained_worker_spec [OF 1] assms(1) unfolding shaped_def only_complains_def by blast+
  obtain w2 r2 where 2: "place_retained choice (on_instance (merge_volumes vs) w1) r1 = (w2, r2)"
    by (cases "place_retained choice (on_instance (merge_volumes vs) w1) r1")
  note s2 = place_retained_spec [OF 2]
  have c2: "only_complains r r2" using c1 s2 unfolding only_complains_def by metis
  have w2: "wo_ID w2 = i" "standing w2 = standing w1" using s2 w1(1) by simp_all
  have "known_attempt_of (set_worker w2 r2) attempt = known_attempt_of r attempt"
    using c2 by (simp add: known_attempt_of_def only_complains_def)
  then have "retain sn attempt i choice vs r = retained sn (known_attempt_of r attempt) i (set_worker w2 r2)"
    using assms(2) by (simp add: retain_def retained_def 1 2 Let_def)
  then show ?thesis using c2 w2 w1(2) by metis
qed

lemma retained_simps [simp]: "rc_workers (retained sn x i r) = rc_workers r" "rc_log (retained sn x i r) = rc_log r"
  "rc_historical (retained sn x i r) = rc_historical r" "br_Plan (rc_Receipt (retained sn x i r)) = br_Plan (rc_Receipt r)"
  by (simp_all add: retained_def split: option.split)

lemma retained_bounded:
  assumes "rc_Bounded (retained sn (known_attempt_of r attempt) i (set_worker w r'))" "only_complains r r'" "wo_ID w = i"
  shows "\<exists>a \<in> set (br_Attempts (rc_Receipt r)). rc_Bounded r
    \<and> retained sn (known_attempt_of r attempt) i (set_worker w r') = retain_identity sn a i (set_worker w r)"
proof -
  from assms(1) obtain a where a: "known_attempt_of r attempt = Some a" "rc_Bounded (retain_identity sn a i (set_worker w r'))"
    by (auto simp: retained_def split: option.splits)
  then have b: "rc_Bounded r'" by (auto simp: retain_identity_def Let_def split: if_splits)
  then have "r' = r" using assms(2) by (simp add: only_complains_def)
  then show ?thesis using a b known_attempt_known [OF a(1)] by (auto simp: retained_def)
qed

text \<open>What every retention keeps.\<close>

lemma retain_frame:
  assumes "shaped sn r"
  shows "shaped sn (retain sn attempt i choice vs r)" "rc_log (retain sn attempt i choice vs r) = rc_log r"
    "rc_historical (retain sn attempt i choice vs r) = rc_historical r"
    "map_of (rc_workers r) k = Some w0 \<Longrightarrow> \<exists>w. map_of (rc_workers (retain sn attempt i choice vs r)) k = Some w \<and> standing w = standing w0"
proof -
  have "shaped sn (retain sn attempt i choice vs r) \<and> rc_log (retain sn attempt i choice vs r) = rc_log r
      \<and> rc_historical (retain sn attempt i choice vs r) = rc_historical r
      \<and> (map_of (rc_workers r) k = Some w0 \<longrightarrow> (\<exists>w. map_of (rc_workers (retain sn attempt i choice vs r)) k = Some w \<and> standing w = standing w0))"
  proof (cases "re_match instanceRE i")
    case True
    from retain_run [OF assms True, of attempt choice vs] obtain w r'
      where q: "retain sn attempt i choice vs r = retained sn (known_attempt_of r attempt) i (set_worker w r')" "only_complains r r'" "wo_ID w = i"
        "\<forall>w0. map_of (rc_workers r) i = Some w0 \<longrightarrow> standing w = standing w0" by blast
    have "wo_ID w1 = k1" if "(k1, w1) \<in> set (map_put i w (rc_workers r))" for k1 w1
    proof -
      have "map_ok (map_put i w (rc_workers r))" using assms by (simp add: shaped_def)
      then have "distinct (map fst (map_put i w (rc_workers r)))" by (simp add: map_ok_def strict_sorted_iff)
      from map_of_is_SomeI [OF this that] have "map_of (map_put i w (rc_workers r)) k1 = Some w1" .
      then show ?thesis using assms q(3) by (auto simp: shaped_def split: if_splits dest!: map_of_SomeD)
    qed
    then have "shaped sn (retained sn (known_attempt_of r attempt) i (set_worker w r'))"
      using assms q(2,3) by (auto simp: shaped_def only_complains_def)
    then show ?thesis using q by (auto simp: only_complains_def)
  next
    case False
    then show ?thesis using assms by (simp add: retain_def shaped_def)
  qed
  then show "shaped sn (retain sn attempt i choice vs r)" "rc_log (retain sn attempt i choice vs r) = rc_log r"
    "rc_historical (retain sn attempt i choice vs r) = rc_historical r"
    "map_of (rc_workers r) k = Some w0 \<Longrightarrow> \<exists>w. map_of (rc_workers (retain sn attempt i choice vs r)) k = Some w \<and> standing w = standing w0"
    by blast+
qed

section \<open>A bounded observation\<close>

text \<open>All attempts have their complete response on record.\<close>

definition all_settled :: "launch_snapshot \<Rightarrow> bool" where
  "all_settled sn \<longleftrightarrow> Receipt_Validate (sn_Receipt sn) = Inr () \<and> (\<forall>a \<in> set (br_Attempts (sn_Receipt sn)). terminal a
     \<and> (\<exists>x. map_of (sn_Responses sn) (ar_AttemptID a) = Some x \<and> rsp_Attempt x = a))"

definition all_ids :: "launch_snapshot \<Rightarrow> string set" where
  "all_ids sn = (\<Union>a \<in> set (br_Attempts (sn_Receipt sn)). set (ids_of a))"

text \<open>What holds as long as the observation is bounded.\<close>

definition bounded_ok :: "launch_snapshot \<Rightarrow> reconciler \<Rightarrow> bool" where
  "bounded_ok sn r \<longleftrightarrow> (rc_Bounded r \<longrightarrow> all_settled sn \<and> rc_Errors r = [] \<and> rc_Receipt r = sn_Receipt sn \<and> fst ` set (rc_workers r) = all_ids sn)"

definition sound :: "launch_snapshot \<Rightarrow> reconciler \<Rightarrow> bool" where
  "sound sn r \<longleftrightarrow> shaped sn r \<and> bounded_ok sn r"

lemma fst_put: "fst ` set (map_put k v m) = insert k (fst ` set m)"
  using set_fst_put [of k v m] by simp

lemma retain_bounded_ok:
  assumes "sound sn r" "rc_Bounded (retain sn attempt i choice vs r)"
  shows "rc_Bounded r" "bounded_ok sn (retain sn attempt i choice vs r)"
proof -
  have shp: "shaped sn r" using assms(1) by (simp add: sound_def)
  have v: "re_match instanceRE i" using assms(2) by (auto simp: retain_def split: if_splits)
  from retain_run [OF shp v, of attempt choice vs] obtain w r'
    where q: "retain sn attempt i choice vs r = retained sn (known_attempt_of r attempt) i (set_worker w r')" "only_complains r r'" "wo_ID w = i"
    by blast
  have "\<exists>a \<in> set (br_Attempts (rc_Receipt r)). rc_Bounded r
      \<and> retained sn (known_attempt_of r attempt) i (set_worker w r') = retain_identity sn a i (set_worker w r)"
    using retained_bounded [OF _ q(2,3), of sn attempt] assms(2) unfolding q(1) by blast
  then obtain a where a: "a \<in> set (br_Attempts (rc_Receipt r))" "rc_Bounded r"
    "retain sn attempt i choice vs r = retain_identity sn a i (set_worker w r)" using q(1) by metis
  then show "rc_Bounded r" by simp
  have b: "all_settled sn" "rc_Errors r = []" "rc_Receipt r = sn_Receipt sn" "fst ` set (rc_workers r) = all_ids sn"
    using assms(1) a(2) by (simp_all add: sound_def bounded_ok_def)
  have "terminal a" using a(1) b(1,3) by (auto simp: all_settled_def)
  have here: "i \<in> set (ids_of a)"
  proof (rule ccontr)
    assume "i \<notin> set (ids_of a)"
    then have "\<not> rc_Bounded (retain_identity sn a i (set_worker w r))"
      unfolding retain_identity_def Let_def using \<open>terminal a\<close> by simp
    then show False using assms(2) by (simp add: a(3))
  qed
  have "retain_identity sn a i (set_worker w r) = set_worker w r"
    using assms(2) here unfolding a(3) by (auto simp: retain_identity_def Let_def split: if_splits)
  moreover have "i \<in> all_ids sn" using here a(1) b(3) by (auto simp: all_ids_def)
  ultimately show "bounded_ok sn (retain sn attempt i choice vs r)"
    unfolding a(3) bounded_ok_def using b q(3) by (simp add: fst_put insert_absorb)
qed

lemma note_expiry_frame:
  assumes "shaped sn r"
  shows "shaped sn (note_expiry now i r)" "rc_log (note_expiry now i r) = rc_log r" "rc_historical (note_expiry now i r) = rc_historical r"
    "rc_Bounded (note_expiry now i r) = rc_Bounded r" "rc_Errors (note_expiry now i r) = rc_Errors r" "rc_Receipt (note_expiry now i r) = rc_Receipt r"
    "fst ` set (rc_workers (note_expiry now i r)) = fst ` set (rc_workers r)"
    "map_of (rc_workers r) k = Some w0 \<Longrightarrow> \<exists>w. map_of (rc_workers (note_expiry now i r)) k = Some w \<and> standing w = standing w0"
proof -
  show simps: "rc_log (note_expiry now i r) = rc_log r" "rc_historical (note_expiry now i r) = rc_historical r"
    "rc_Bounded (note_expiry now i r) = rc_Bounded r" "rc_Errors (note_expiry now i r) = rc_Errors r" "rc_Receipt (note_expiry now i r) = rc_Receipt r"
    "map_of (rc_workers r) k = Some w0 \<Longrightarrow> \<exists>w. map_of (rc_workers (note_expiry now i r)) k = Some w \<and> standing w = standing w0"
    by (auto simp: note_expiry_def split: option.split)
  show "fst ` set (rc_workers (note_expiry now i r)) = fst ` set (rc_workers r)"
    by (auto simp: note_expiry_def fst_put insert_absorb dest: map_of_SomeD split: option.split)
      (metis fst_conv image_eqI map_of_SomeD)
  have ok: "map_ok (rc_workers (note_expiry now i r))" using assms by (simp add: note_expiry_def shaped_def split: option.split)
  have "wo_ID w = k" if "map_of (rc_workers (note_expiry now i r)) k = Some w" for k w
    using that assms by (auto simp: note_expiry_def shaped_def split: option.splits if_splits dest!: map_of_SomeD)
  moreover have "map_of (rc_workers (note_expiry now i r)) k = Some w" if "(k, w) \<in> set (rc_workers (note_expiry now i r))" for k w
    using ok that by (simp add: map_ok_def strict_sorted_iff map_of_is_SomeI)
  ultimately show "shaped sn (note_expiry now i r)" using assms ok simps(5) unfolding shaped_def by auto
qed

text \<open>Everything the moves keep.\<close>

lemma moves_keep:
  assumes "moves sn r r'" "sound sn r"
  shows "sound sn r' \<and> (rc_Bounded r' \<longrightarrow> rc_Bounded r) \<and> suffix (rc_log r) (rc_log r') \<and> rc_historical r' = rc_historical r
    \<and> (\<forall>k w0. map_of (rc_workers r) k = Some w0 \<longrightarrow> (\<exists>w. map_of (rc_workers r') k = Some w \<and> standing w = standing w0))"
  using assms
proof (induction rule: moves.induct)
  case (retains r r' attempt i choice vs)
  then have s: "sound sn r'" by blast
  then have shp: "shaped sn r'" by (simp add: sound_def)
  note f = retain_frame [OF shp, where attempt = attempt and i = i and choice = choice and vs = vs]
  have "bounded_ok sn (retain sn attempt i choice vs r')" "rc_Bounded (retain sn attempt i choice vs r') \<longrightarrow> rc_Bounded r'"
    using retain_bounded_ok [OF s, of attempt i choice vs] by (auto simp: bounded_ok_def)
  then show ?case using retains f by (simp add: sound_def) metis
next
  case (expires r r' now i)
  then have s: "sound sn r'" by blast
  then have shp: "shaped sn r'" by (simp add: sound_def)
  note f = note_expiry_frame [OF shp, where now = now and i = i]
  have "bounded_ok sn (note_expiry now i r')" using s f by (simp add: sound_def bounded_ok_def)
  then show ?case using expires f by (simp add: sound_def) metis
qed (auto simp: sound_def shaped_def bounded_ok_def suffix_Cons)

end
