(* ===== verification/ReconcileSettled.thy ===== *)
theory ReconcileSettled
  imports ReconcileProperties
begin

text \<open>
  When the observation of \<open>ReconcileLaunch\<close> bounds the allocation: what the validation of the shared records establishes, the workers
  it starts from, the verification of each, and the two properties of the whole reconciliation.
\<close>

section \<open>The shared records\<close>

lemma validate_attempts_spec:
  assumes "validate_attempts E sn prior as r = (True, r')"
  shows "(\<forall>a \<in> set as. \<exists>prior. records_sound E sn prior a)
    \<and> r' = r\<lparr>rc_Bounded := rc_Bounded r \<and> list_all (settled_response sn) as,
         rc_historical := rc_historical r @ concat (map ids_of (filter (settled_response sn) as))\<rparr>"
  using assms
proof (induction as arbitrary: prior r)
  case (Cons a as)
  then have "records_sound E sn prior a" by (auto split: if_splits)
  with Cons show ?case by (fastforce split: if_splits)
qed simp

lemma validated_spec:
  assumes "validate E sn r = (True, r')"
  shows "Receipt_Validate (sn_Receipt sn) = Inr ()" "\<forall>a \<in> set (br_Attempts (sn_Receipt sn)). \<exists>prior. records_sound E sn prior a"
    "r' = r\<lparr>rc_Bounded := rc_Bounded r \<and> list_all (settled_response sn) (br_Attempts (sn_Receipt sn)),
       rc_historical := rc_historical r @ concat (map ids_of (filter (settled_response sn) (br_Attempts (sn_Receipt sn))))\<rparr>"
proof -
  have v: "Receipt_Validate (sn_Receipt sn) = Inr ()" and run: "\<exists>prior. validate_attempts E sn prior (br_Attempts (sn_Receipt sn)) r = (True, r')"
    using assms by (auto simp: validate_def Let_def split: if_splits prod.splits)
  then show "Receipt_Validate (sn_Receipt sn) = Inr ()" by blast
  from run obtain prior where "validate_attempts E sn prior (br_Attempts (sn_Receipt sn)) r = (True, r')" ..
  from validate_attempts_spec [OF this]
  show "\<forall>a \<in> set (br_Attempts (sn_Receipt sn)). \<exists>prior. records_sound E sn prior a"
    "r' = r\<lparr>rc_Bounded := rc_Bounded r \<and> list_all (settled_response sn) (br_Attempts (sn_Receipt sn)),
       rc_historical := rc_historical r @ concat (map ids_of (filter (settled_response sn) (br_Attempts (sn_Receipt sn))))\<rparr>"
    by blast+
qed

text \<open>A settled response lists exactly the machines of its attempt, and attributes them to it.\<close>

lemma settled_record:
  assumes "records_sound E sn prior a" "settled_response sn a"
  obtains x where "map_of (sn_Responses sn) (ar_AttemptID a) = Some x" "rsp_Attempt x = a" "terminal a"
    "\<exists>p prior. validResponse prior p x"
proof -
  from assms(2) obtain x where x: "map_of (sn_Responses sn) (ar_AttemptID a) = Some x" "terminal (rsp_Attempt x)"
    by (auto simp: settled_response_def split: option.splits)
  then obtain p where "validResponse prior p x" "rsp_Attempt x = a"
    using assms(1) by (simp add: records_sound_def Let_def split: option.splits) blast+
  with x show thesis using that by blast
qed

lemma fleetWorker_attempt: "in_AttemptID (wo_Instance (fleetWorker plan a i c)) = ar_AttemptID a"
  by (simp add: fleetWorker_def)

lemma response_workers_of:
  assumes "validResponse prior p x" "distinct (ids_of (rsp_Attempt x))"
  shows "wo_ID ` set (elems (rsp_Workers x)) = set (ids_of (rsp_Attempt x))"
    "\<forall>w \<in> set (elems (rsp_Workers x)). in_AttemptID (wo_Instance w) = ar_AttemptID (rsp_Attempt x)"
proof -
  let ?a = "rsp_Attempt x" and ?ws = "elems (rsp_Workers x)"
  have v: "?a\<lparr>ar_State := ''prepared'', ar_FleetID := [], ar_InstanceIDs := Some [], ar_Errors := Some []\<rparr> = pr_Attempt p"
    "length ?ws = length (ids_of ?a)" "distinct (map wo_ID ?ws)" "list_all (response_worker_ok prior p (ar_State ?a)) ?ws"
    "set (ids_of ?a) \<subseteq> set (map wo_ID ?ws)"
    using assms(1) unfolding validResponse_def Let_def by (simp_all add: list_all_iff subset_iff split: if_splits)
  have "card (set (ids_of ?a)) = card (set (map wo_ID ?ws))" using v(2,3) assms(2) by (metis distinct_card length_map)
  then show "wo_ID ` set ?ws = set (ids_of ?a)" using card_subset_eq [OF _ v(5)] by simp
  have "ar_AttemptID (pr_Attempt p) = ar_AttemptID ?a" by (simp flip: v(1))
  then have "in_AttemptID (wo_Instance w) = ar_AttemptID ?a" if "w \<in> set ?ws" for w
  proof -
    have "w = fleetWorker (br_Plan prior) (pr_Attempt p) (wo_ID w) (worker_choice w)"
      using v(4) that by (simp add: list_all_iff response_worker_ok_def)
    then have "in_AttemptID (wo_Instance w) = ar_AttemptID (pr_Attempt p)"
      using fleetWorker_attempt by metis
    then show ?thesis using \<open>ar_AttemptID (pr_Attempt p) = ar_AttemptID ?a\<close> by simp
  qed
  then show "\<forall>w \<in> set ?ws. in_AttemptID (wo_Instance w) = ar_AttemptID ?a" by blast
qed

text \<open>The workers it starts from.\<close>

definition worker_map :: "worker_outcome gomap \<Rightarrow> bool" where
  "worker_map m \<longleftrightarrow> map_ok m \<and> (\<forall>k w. map_of m k = Some w \<longrightarrow> wo_ID w = k)"

definition attributed :: "(string \<times> string) set \<Rightarrow> worker_outcome gomap \<Rightarrow> bool" where
  "attributed A m \<longleftrightarrow> (\<forall>k w. map_of m k = Some w \<longrightarrow> (k, in_AttemptID (wo_Instance w)) \<in> A)"

text \<open>The machines of the attempts.\<close>

definition machines :: "attempt_receipt list \<Rightarrow> (string \<times> string) set" where
  "machines as = {(k, ar_AttemptID a) | k a. a \<in> set as \<and> k \<in> set (ids_of a)}"

lemma put_workers:
  assumes "worker_map m"
  shows "worker_map (fold put_worker ws m) \<and> fst ` set (fold put_worker ws m) = wo_ID ` set ws \<union> fst ` set m
    \<and> (attributed A m \<longrightarrow> (\<forall>w \<in> set ws. (wo_ID w, in_AttemptID (wo_Instance w)) \<in> A) \<longrightarrow> attributed A (fold put_worker ws m))"
  using assms
proof (induction ws arbitrary: m)
  case (Cons w ws)
  have "worker_map (put_worker w m)" using Cons.prems by (auto simp: worker_map_def put_worker_def)
  moreover have "attributed A m \<Longrightarrow> (wo_ID w, in_AttemptID (wo_Instance w)) \<in> A \<Longrightarrow> attributed A (put_worker w m)"
    by (auto simp: attributed_def put_worker_def)
  moreover have "fst ` set (put_worker w m) = insert (wo_ID w) (fst ` set m)" by (simp add: put_worker_def fst_put)
  ultimately show ?case using Cons.IH [of "put_worker w m"] by simp
qed simp

lemma ensure_workers:
  assumes "worker_map m"
  shows "worker_map (fold (ensure_worker plan a) ks m) \<and> fst ` set (fold (ensure_worker plan a) ks m) = set ks \<union> fst ` set m
    \<and> (attributed A m \<longrightarrow> (\<forall>k \<in> set ks. (k, ar_AttemptID a) \<in> A) \<longrightarrow> attributed A (fold (ensure_worker plan a) ks m))"
  using assms
proof (induction ks arbitrary: m)
  case (Cons k ks)
  have "worker_map (ensure_worker plan a k m)" using Cons.prems by (auto simp: worker_map_def ensure_worker_def)
  moreover have "attributed A m \<Longrightarrow> (k, ar_AttemptID a) \<in> A \<Longrightarrow> attributed A (ensure_worker plan a k m)"
    by (auto simp: attributed_def ensure_worker_def fleetWorker_attempt)
  moreover have "fst ` set (ensure_worker plan a k m) = insert k (fst ` set m)"
    by (auto simp: ensure_worker_def fst_put map_of_eq_None_iff)
  ultimately show ?case using Cons.IH [of "ensure_worker plan a k m"] by simp
qed simp

text \<open>The response of an attempt adds no machine and no attribution of its own.\<close>

definition faithful_response :: "launch_snapshot \<Rightarrow> attempt_receipt \<Rightarrow> bool" where
  "faithful_response sn a \<longleftrightarrow> wo_ID ` set (response_workers sn a) = set (ids_of a)
     \<and> (\<forall>w \<in> set (response_workers sn a). in_AttemptID (wo_Instance w) = ar_AttemptID a)"

lemma snapshot_fold_map: "worker_map m \<Longrightarrow> worker_map (fold (snapshot_turn sn) as m)"
  by (rule fold_invariant, assumption) (simp add: snapshot_turn_def put_workers ensure_workers)

lemma snapshot_fold:
  assumes "worker_map m" "attributed A m" "\<forall>a \<in> set as. faithful_response sn a \<and> (\<forall>k \<in> set (ids_of a). (k, ar_AttemptID a) \<in> A)"
  shows "attributed A (fold (snapshot_turn sn) as m) \<and> fst ` set (fold (snapshot_turn sn) as m) = (\<Union>a \<in> set as. set (ids_of a)) \<union> fst ` set m"
  using assms
proof (induction as arbitrary: m)
  case (Cons a as)
  let ?m = "snapshot_turn sn a m"
  note p = put_workers [OF Cons.prems(1), of "response_workers sn a" A]
  have w: "worker_map (fold put_worker (response_workers sn a) m)" using p by blast
  note e = ensure_workers [OF w, of "br_Plan (sn_Receipt sn)" a "ids_of a" A]
  have "worker_map ?m" using e by (simp add: snapshot_turn_def)
  moreover have "attributed A ?m" "fst ` set ?m = set (ids_of a) \<union> fst ` set m"
    using Cons.prems(2,3) p e by (auto simp: snapshot_turn_def faithful_response_def)
  ultimately show ?case using Cons.IH [of ?m] Cons.prems(3) by auto
qed simp

lemma start_workers:
  shows "worker_map (rc_workers (start_reconciler sn))"
    "\<forall>a \<in> set (br_Attempts (sn_Receipt sn)). faithful_response sn a
      \<Longrightarrow> attributed (machines (br_Attempts (sn_Receipt sn))) (rc_workers (start_reconciler sn))
        \<and> fst ` set (rc_workers (start_reconciler sn)) = all_ids sn"
proof -
  let ?as = "br_Attempts (sn_Receipt sn)" and ?m = "fold (snapshot_turn sn) (br_Attempts (sn_Receipt sn)) []" and ?r = "start_reconciler sn"
  have start: "rc_workers ?r = fold put_worker (snapshotWorkers sn) []" by (simp add: start_reconciler_def)
  have nil: "worker_map []" "attributed A []" for A by (simp_all add: worker_map_def attributed_def)
  note p = put_workers [OF nil(1), of "snapshotWorkers sn" "machines ?as"]
  then show "worker_map (rc_workers ?r)" by (simp add: start)
  assume f: "\<forall>a \<in> set ?as. faithful_response sn a"
  have m: "worker_map ?m" using snapshot_fold_map [OF nil(1)] .
  have am: "attributed (machines ?as) ?m" "fst ` set ?m = all_ids sn"
    using snapshot_fold [OF nil, of ?as sn "machines ?as"] f by (auto simp: all_ids_def machines_def)
  have d: "distinct (map fst ?m)" using m by (simp add: worker_map_def map_ok_def strict_sorted_iff)
  have "(wo_ID w, in_AttemptID (wo_Instance w)) \<in> machines ?as" if "w \<in> set (snapshotWorkers sn)" for w
  proof -
    from that obtain k where "(k, w) \<in> set ?m" by (auto simp: snapshotWorkers_def sortedBatchWorkers_def)
    from map_of_is_SomeI [OF d this] show ?thesis using am(1) m unfolding attributed_def worker_map_def by metis
  qed
  moreover have "wo_ID ` set (snapshotWorkers sn) = all_ids sn"
    using workers_by_id(1) [of ?m] m by (simp add: snapshotWorkers_def worker_map_def am(2) dom_map_of_conv_image_fst)
  ultimately show "attributed (machines ?as) (rc_workers ?r) \<and> fst ` set (rc_workers ?r) = all_ids sn"
    using p nil(2) by (simp add: start)
qed

lemma validated_sound:
  assumes "validate E sn (start_reconciler sn) = (True, r)"
  shows "sound sn r" "rc_log r = []" "rc_Bounded r \<Longrightarrow> attributed (machines (br_Attempts (sn_Receipt sn))) (rc_workers r)"
proof -
  let ?as = "br_Attempts (sn_Receipt sn)"
  note v = validated_spec [OF assms]
  have w: "rc_workers r = rc_workers (start_reconciler sn)" by (simp add: v(3))
  have d: "distinct (concat (map ids_of ?as))" using attempts_ok_ids [OF Receipt_Validate_ok(1) [OF v(1)]] by simp
  have faithful: "faithful_response sn a \<and> terminal a \<and> (\<exists>x. map_of (sn_Responses sn) (ar_AttemptID a) = Some x \<and> rsp_Attempt x = a)"
    if "a \<in> set ?as" "settled_response sn a" for a
  proof -
    obtain prior where "records_sound E sn prior a" using v(2) \<open>a \<in> set ?as\<close> by blast
    from settled_record [OF this \<open>settled_response sn a\<close>] obtain x p prior where
      x: "map_of (sn_Responses sn) (ar_AttemptID a) = Some x" "rsp_Attempt x = a" "terminal a" "validResponse prior p x" by metis
    have "distinct (ids_of a)" using d that by (simp add: distinct_concat_iff)
    then show ?thesis using response_workers_of [OF x(4)] x by (simp add: faithful_response_def response_workers_def)
  qed
  have bounded: "list_all (settled_response sn) ?as" if "rc_Bounded r" using that by (simp add: v(3))
  show "rc_log r = []" by (simp add: v(3) start_reconciler_def)
  show "attributed (machines ?as) (rc_workers r)" if "rc_Bounded r"
    using start_workers(2) [of sn] bounded [OF that] faithful by (simp add: w list_all_iff)
  have "shaped sn r"
    using start_workers(1) [of sn] map_of_is_SomeI [of "rc_workers r"]
    by (fastforce simp: shaped_def worker_map_def map_ok_def strict_sorted_iff w v(3) start_reconciler_def)
  moreover have "bounded_ok sn r"
    using start_workers(2) [of sn] bounded faithful v(1)
    by (auto simp: bounded_ok_def all_settled_def list_all_iff w) (simp_all add: v(3) start_reconciler_def)
  ultimately show "sound sn r" by (simp add: sound_def)
qed

section \<open>What EC2 showed\<close>

text \<open>A row of a reply that is on the log, and a reply that shows a machine as gone.\<close>

definition ec2_instance :: "look_env \<Rightarrow> look_log \<Rightarrow> string \<Rightarrow> fleet_instance \<Rightarrow> bool" where
  "ec2_instance E log owner i \<longleftrightarrow> (\<exists>ids t h out err v. suffix (LookInstances ids t # h) log
     \<and> le_instances E (LookInstances ids t # h) = (Some out, err)
     \<and> v \<in> set (ip_Reservations out) \<and> i \<in> set (fr_Instances v) \<and> owner = aws_to_string (fr_OwnerId v))"

definition ec2_volume :: "look_env \<Rightarrow> look_log \<Rightarrow> fleet_volume \<Rightarrow> bool" where
  "ec2_volume E log v \<longleftrightarrow> (\<exists>ids t h out err. suffix (LookVolumes ids t # h) log
     \<and> le_volumes E (LookVolumes ids t # h) = (Some out, err) \<and> v \<in> set (vp_Volumes out))"

definition gone_reply :: "string \<Rightarrow> instances_page option \<times> aws_error option \<Rightarrow> bool" where
  "gone_reply k x \<longleftrightarrow> (case x of
      (None, err) \<Rightarrow> apiCode err ''InvalidInstanceID.NotFound''
    | (Some out, err) \<Rightarrow> (let is = concat (map fr_Instances (ip_Reservations out)) in
        is = [] \<or> (\<exists>i \<in> set is. instance_id i = k \<and> terminal_instance (base_instance i))))"

definition ec2_gone :: "look_env \<Rightarrow> look_log \<Rightarrow> string \<Rightarrow> bool" where
  "ec2_gone E log k \<longleftrightarrow> (\<exists>ids t h. suffix (LookInstances ids t # h) log \<and> gone_reply k (le_instances E (LookInstances ids t # h)))"

lemma ec2_later:
  assumes "suffix log log'"
  shows "ec2_instance E log owner i \<Longrightarrow> ec2_instance E log' owner i" "ec2_volume E log v \<Longrightarrow> ec2_volume E log' v"
    "ec2_gone E log k \<Longrightarrow> ec2_gone E log' k"
  using suffix_order.trans [OF _ assms] unfolding ec2_instance_def ec2_volume_def ec2_gone_def by metis+

text \<open>The rows that the wrapped inventory hands on, and what it notes of the rest.\<close>

lemma inspect_rows_kept:
  "set (fst (fold (inspect_row E sn t owner) is x)) \<subseteq> set (fst x) \<union> set is
    \<and> (is_gone (snd (fold (inspect_row E sn t owner) is x)) \<longrightarrow> is_gone (snd x)
        \<or> (\<exists>i \<in> set is. instance_id i = wo_ID (it_known t) \<and> terminal_instance (base_instance i)))"
proof (induction "is" arbitrary: x)
  case (Cons i "is")
  have "set (fst (inspect_row E sn t owner i x)) \<subseteq> insert i (set (fst x))"
    by (auto simp: inspect_row_def Let_def split: prod.splits)
  moreover have "is_gone (snd (inspect_row E sn t owner i x)) \<longrightarrow> is_gone (snd x)
      \<or> instance_id i = wo_ID (it_known t) \<and> terminal_instance (base_instance i)"
    by (auto simp: inspect_row_def note_terminal_def note_seen_def observe_latest_def lift_rec_def Let_def split: prod.splits)
  ultimately show ?case using Cons.IH [of "inspect_row E sn t owner i x"] by (simp only: fold_simps list.set) blast
qed simp

lemma inspect_reservations_kept:
  "(\<forall>v \<in> set (fst (fold (inspect_reservation E sn t) vs x)). v \<in> set (fst x)
      \<or> (\<exists>v0 \<in> set vs. set (fr_Instances v) \<subseteq> set (fr_Instances v0) \<and> fr_OwnerId v = fr_OwnerId v0))
    \<and> (is_gone (snd (fold (inspect_reservation E sn t) vs x)) \<longrightarrow> is_gone (snd x)
        \<or> (\<exists>v \<in> set vs. \<exists>i \<in> set (fr_Instances v). instance_id i = wo_ID (it_known t) \<and> terminal_instance (base_instance i)))"
proof (induction vs arbitrary: x)
  case (Cons v vs)
  obtain past s where x: "x = (past, s)" by (cases x)
  obtain kept s1 where k: "fold (inspect_row E sn t (aws_to_string (fr_OwnerId v))) (fr_Instances v) ([], s) = (kept, s1)" by fastforce
  have 1: "inspect_reservation E sn t v (past, s) = (past @ [v\<lparr>fr_Instances := kept\<rparr>], s1)" by (simp add: inspect_reservation_def k)
  have 2: "set kept \<subseteq> set (fr_Instances v)"
    "is_gone s1 \<longrightarrow> is_gone s \<or> (\<exists>i \<in> set (fr_Instances v). instance_id i = wo_ID (it_known t) \<and> terminal_instance (base_instance i))"
    using inspect_rows_kept [of E sn t "aws_to_string (fr_OwnerId v)" "fr_Instances v" "([], s)"] unfolding k by simp_all
  show ?case using Cons.IH [of "(past @ [v\<lparr>fr_Instances := kept\<rparr>], s1)"] 2 unfolding fold_simps x 1 by fastforce
qed simp

lemma wrapped_reply:
  assumes "le_instances E (LookInstances ids token # rc_log (is_rec s)) = (Some o1, err)"
  shows "\<exists>s1. is_gone s1 = is_gone s
    \<and> fst (wrapped_instances E sn t ids token s)
        = (Some (o1\<lparr>ip_Reservations := fst (fold (inspect_reservation E sn t) (ip_Reservations o1) ([], s1))\<rparr>), err)
    \<and> (is_gone (snd (wrapped_instances E sn t ids token s))
        \<longleftrightarrow> is_gone (snd (fold (inspect_reservation E sn t) (ip_Reservations o1) ([], s1))) \<or> concat (map fr_Instances (ip_Reservations o1)) = [])"
proof -
  let ?s1 = "if err = None then with_rec (look (LookInstances ids token)) s else with_rec (look (LookInstances ids token)) s\<lparr>is_failed := True\<rparr>"
  have "is_gone ?s1 = is_gone s" by simp
  moreover have "fst (wrapped_instances E sn t ids token s)
      = (Some (o1\<lparr>ip_Reservations := fst (fold (inspect_reservation E sn t) (ip_Reservations o1) ([], ?s1))\<rparr>), err)"
    "is_gone (snd (wrapped_instances E sn t ids token s))
      \<longleftrightarrow> is_gone (snd (fold (inspect_reservation E sn t) (ip_Reservations o1) ([], ?s1))) \<or> concat (map fr_Instances (ip_Reservations o1)) = []"
    by (simp_all add: wrapped_instances_def assms Let_def split: prod.split del: concat_eq_Nil_conv)
  ultimately show ?thesis by blast
qed

lemma wrapped_shown:
  assumes "wrapped_instances E sn t ids token s = ((Some out, err), s')" "v \<in> set (ip_Reservations out)" "i \<in> set (fr_Instances v)"
  shows "\<exists>out0 err0 v0. le_instances E (LookInstances ids token # rc_log (is_rec s)) = (Some out0, err0) \<and> v0 \<in> set (ip_Reservations out0)
    \<and> i \<in> set (fr_Instances v0) \<and> fr_OwnerId v = fr_OwnerId v0"
proof -
  obtain out0 err0 where o: "le_instances E (LookInstances ids token # rc_log (is_rec s)) = (out0, err0)" by fastforce
  have "out0 \<noteq> None" using assms by (cases out0) (auto simp: wrapped_instances_def o Let_def split: if_splits)
  then obtain o1 where 1: "out0 = Some o1" by blast
  obtain s1 where "fst (wrapped_instances E sn t ids token s)
      = (Some (o1\<lparr>ip_Reservations := fst (fold (inspect_reservation E sn t) (ip_Reservations o1) ([], s1))\<rparr>), err0)"
    using wrapped_reply [OF o [unfolded 1], of sn t] by blast
  then have "ip_Reservations out = fst (fold (inspect_reservation E sn t) (ip_Reservations o1) ([], s1))" using assms(1) by auto
  then show ?thesis
    using inspect_reservations_kept [of E sn t "ip_Reservations o1" "([], s1)"] assms(2,3) unfolding o 1 by fastforce
qed

lemma wrapped_gone:
  assumes "is_gone (snd (wrapped_instances E sn t ids token s))"
  shows "is_gone s \<or> gone_reply (wo_ID (it_known t)) (le_instances E (LookInstances ids token # rc_log (is_rec s)))"
proof -
  obtain out err where o: "le_instances E (LookInstances ids token # rc_log (is_rec s)) = (out, err)" by fastforce
  show ?thesis
  proof (cases out)
    case None
    then show ?thesis using assms by (auto simp: wrapped_instances_def o Let_def gone_reply_def split: if_splits)
  next
    case (Some o1)
    obtain s1 where s1: "is_gone s1 = is_gone s" "is_gone (snd (fold (inspect_reservation E sn t) (ip_Reservations o1) ([], s1)))
        \<or> concat (map fr_Instances (ip_Reservations o1)) = []" using wrapped_reply [OF o [unfolded Some], of sn t] assms by blast
    show ?thesis using inspect_reservations_kept [of E sn t "ip_Reservations o1" "([], s1)"] s1 unfolding o Some by (auto simp: gone_reply_def)
  qed
qed

text \<open>What the verification was shown, EC2 showed.\<close>

lemma env_simps [simp]:
  "ve_now (inspection_env E sn t) = lift_rec (look_clock E)" "ve_ctx (inspection_env E sn t) = lift_rec (look_context E)"
  "ve_api (inspection_env E sn t) = Some api \<longleftrightarrow> api = \<lparr>fa_instances = wrapped_instances E sn t, fa_volumes = wrapped_volumes E\<rparr>"
  by (auto simp: inspection_env_def)

lemma lifted_simps [simp]:
  "is_rec (snd (lift_rec (look_clock E) s)) = look LookClock (is_rec s)" "is_gone (snd (lift_rec (look_clock E) s)) = is_gone s"
  "is_rec (snd (lift_rec (look_context E) s)) = look LookContext (is_rec s)" "is_gone (snd (lift_rec (look_context E) s)) = is_gone s"
  "is_rec (snd (wrapped_volumes E ids token s)) = look (LookVolumes ids token) (is_rec s)"
  "is_gone (snd (wrapped_volumes E ids token s)) = is_gone s"
  by (simp_all add: lift_rec_def look_clock_def look_context_def wrapped_volumes_def Let_def)

lemma gone_later: "ec2_gone E h k \<Longrightarrow> ec2_gone E (c # h) k"
  using ec2_later(3) [of h "c # h"] by (simp add: suffix_ConsI)

lemma shown_by_ec2:
  assumes "sound sn (is_rec g)"
  shows "shown_instance (inspection_env E sn t) g g' owner i \<Longrightarrow> ec2_instance E (rc_log (is_rec g')) owner i"
    "shown_volume (inspection_env E sn t) g g' v \<Longrightarrow> ec2_volume E (rc_log (is_rec g')) v"
proof -
  let ?V = "inspection_env E sn t"
  have later: "suffix (c # h) (rc_log (is_rec g'))"
    if "reaches ?V g s" "moves sn (look c (is_rec s)) (is_rec s')" "reaches ?V s' g'" "h = rc_log (is_rec s)" for s s' c h
  proof -
    have 1: "sound sn (is_rec s)" using moves_keep [OF inspection_moves [OF that(1) moves.stays] assms] by blast
    have 2: "moves sn (look c (is_rec s)) (is_rec g')" using inspection_moves [OF that(3) that(2)] .
    have "sound sn (look c (is_rec s))" using moves_keep [OF moves.looks [OF moves.stays] 1] by blast
    from moves_keep [OF 2 this] show ?thesis using that(4) by simp
  qed
  show "ec2_instance E (rc_log (is_rec g')) owner i" if shown: "shown_instance ?V g g' owner i"
  proof -
    obtain ids token s out err s' v where x: "reaches ?V g s" "wrapped_instances E sn t ids token s = ((Some out, err), s')" "reaches ?V s' g'"
      "v \<in> set (ip_Reservations out)" "i \<in> set (fr_Instances v)" "owner = aws_to_string (fr_OwnerId v)"
      using shown unfolding shown_instance_def env_simps by auto
    have "moves sn (look (LookInstances ids token) (is_rec s)) (is_rec s')" using wrapped_instances_after [of sn ids token s E t] by (simp add: x(2))
    from later [OF x(1) this x(3) refl] wrapped_shown [OF x(2,4,5)] show ?thesis unfolding ec2_instance_def x(6) by metis
  qed
  show "ec2_volume E (rc_log (is_rec g')) v" if shown: "shown_volume ?V g g' v"
  proof -
    obtain ids token s out err s' where x: "reaches ?V g s" "wrapped_volumes E ids token s = ((Some out, err), s')" "reaches ?V s' g'"
      "v \<in> set (vp_Volumes out)" using shown unfolding shown_volume_def env_simps by auto
    then have "moves sn (look (LookVolumes ids token) (is_rec s)) (is_rec s')" by (auto simp: wrapped_volumes_def Let_def moves.stays)
    note log = later [OF x(1) this x(3) refl]
    have "le_volumes E (LookVolumes ids token # rc_log (is_rec s)) = (Some out, err)" using x(2) by (simp add: wrapped_volumes_def Let_def)
    with log x(4) show ?thesis unfolding ec2_volume_def by blast
  qed
qed

lemma gone_by_ec2:
  assumes "reaches (inspection_env E sn t) g s" "sound sn (is_rec g)" "\<not> is_gone g"
  shows "is_gone s \<Longrightarrow> ec2_gone E (rc_log (is_rec s)) (wo_ID (it_known t))"
  using assms
proof (induction rule: reaches.induct)
  case (reads_now g s)
  then show ?case
    by (simp add: gone_later)
next
  case (reads_ctx g s)
  then show ?case
    by (simp add: gone_later)
next
  case (reads_instances g s api ids token)
  let ?s' = "snd (wrapped_instances E sn t ids token s)" and ?c = "LookInstances ids token"
  have api: "fa_instances api = wrapped_instances E sn t" using reads_instances.hyps(2) by simp
  have "sound sn (is_rec s)" using moves_keep [OF inspection_moves [OF reads_instances.hyps(1) moves.stays] reads_instances.prems(2)] by blast
  then have "sound sn (look ?c (is_rec s))" using moves_keep [OF moves.looks [OF moves.stays]] by blast
  from moves_keep [OF wrapped_instances_after this] have log: "suffix (?c # rc_log (is_rec s)) (rc_log (is_rec ?s'))" by simp
  have "is_gone s \<or> gone_reply (wo_ID (it_known t)) (le_instances E (?c # rc_log (is_rec s)))"
    using wrapped_gone reads_instances.prems(1) unfolding api by blast
  then show ?case
  proof
    assume "is_gone s"
    then show ?thesis using reads_instances.IH [OF _ reads_instances.prems(2,3)] ec2_later(3) [OF suffix_ConsD [OF log]] unfolding api by blast
  next
    assume "gone_reply (wo_ID (it_known t)) (le_instances E (?c # rc_log (is_rec s)))"
    with log show ?thesis unfolding ec2_gone_def api by blast
  qed
next
  case (reads_volumes g s api ids token)
  then show ?case by (simp add: gone_later)
qed simp

section \<open>One worker\<close>

text \<open>A machine that was verified by this inspection, or is history.\<close>

definition settled_worker :: "look_env \<Rightarrow> launch_snapshot \<Rightarrow> look_log \<Rightarrow> string \<Rightarrow> worker_outcome \<Rightarrow> bool" where
  "settled_worker E sn log k w \<longleftrightarrow> (let p = br_Plan (sn_Receipt sn) in
     (wo_Status w = ''allocated'' \<and> (\<exists>a \<in> set (br_Attempts (sn_Receipt sn)). k \<in> set (ids_of a)
        \<and> (\<exists>owner i v. ec2_instance E log owner i \<and> aws_to_string (ai_InstanceId i) = k \<and> machine_fits p a owner i
            \<and> ec2_volume E log v \<and> root_fits p a i v)))
     \<or> (wo_Status w = ''historical'' \<and> ec2_gone E log k))"

lemma fits_ids [simp]: "machine_fits p (a\<lparr>ar_InstanceIDs := x\<rparr>) owner i = machine_fits p a owner i"
  "root_fits p (a\<lparr>ar_InstanceIDs := x\<rparr>) i v = root_fits p a i v"
  by (simp_all add: machine_fits_def root_fits_def instance_pinned_def fleetObservedTags_def Let_def)

lemma settled_later: "settled_worker E sn log k w \<Longrightarrow> suffix log log' \<Longrightarrow> wo_Status w' = wo_Status w \<Longrightarrow> settled_worker E sn log' k w'"
  using ec2_later [of log log'] unfolding settled_worker_def Let_def by metis

lemma verified_fields [simp]: "wo_ID (verified_worker t s err w) = wo_ID w"
  "wo_Status (verified_worker t s err w) = (if only_gone t s err then ''historical'' else wo_Status w)"
  by (simp_all add: verified_worker_def Let_def copyObservedExpiry_def merge_volumes_def on_instance_def split: option.split)

lemma sound_put:
  assumes "sound sn r" "k \<in> fst ` set (rc_workers r)" "wo_ID w = k"
  shows "sound sn (r\<lparr>rc_workers := map_put k w (rc_workers r)\<rparr>)"
proof -
  have ok: "map_ok (map_put k w (rc_workers r))" using assms(1) by (simp add: sound_def shaped_def)
  have "wo_ID w' = k'" if "(k', w') \<in> set (map_put k w (rc_workers r))" for k' w'
  proof -
    have "map_of (map_put k w (rc_workers r)) k' = Some w'" using ok that by (simp add: map_ok_def strict_sorted_iff map_of_is_SomeI del: map_of_put)
    then show ?thesis using assms by (auto simp: sound_def shaped_def split: if_splits dest!: map_of_SomeD)
  qed
  then show ?thesis using assms ok by (auto simp: sound_def shaped_def bounded_ok_def fst_put insert_absorb)
qed

text \<open>The run of one verification: a sound state, one worker under its identity, and the reason of its status.\<close>

lemma worker_run:
  assumes "sound sn r" "map_of (rc_workers r) i = Some known" "known_attempt_of r (in_AttemptID (wo_Instance known)) = Some a"
    and "verify_worker E sn i r = Some r'"
  obtains t w err s where "r' = conclude_worker t (([w], err), s)" "wo_ID (it_known t) = i" "wo_ID w = i" "moves sn r (is_rec s)"
    "only_gone t s err \<longrightarrow> ec2_gone E (rc_log (is_rec s)) i"
    "err = None \<longrightarrow> wo_Status w = ''allocated'' \<and> (\<exists>owner j v. ec2_instance E (rc_log (is_rec s)) owner j \<and> aws_to_string (ai_InstanceId j) = i
       \<and> machine_fits (br_Plan (sn_Receipt sn)) a owner j \<and> ec2_volume E (rc_log (is_rec s)) v \<and> root_fits (br_Plan (sn_Receipt sn)) a j v)"
proof -
  let ?a = "a\<lparr>ar_InstanceIDs := Some [i]\<rparr>" and ?p = "br_Plan (sn_Receipt sn)"
  let ?t = "\<lparr>it_attempt = ?a, it_known = known, it_historical = i \<in> set (rc_historical r)\<rparr>"
  let ?V = "inspection_env E sn ?t" and ?g = "start_inspection r"
  have id: "wo_ID known = i" using assms(1,2) by (auto simp: sound_def shaped_def dest!: map_of_SomeD)
  have p: "br_Plan (rc_Receipt r) = ?p" using assms(1) by (simp add: sound_def shaped_def)
  obtain ws err s where v: "VerifyFleetWorkers ?V ?p ?a [known] ?g = Some ((ws, err), s)" "r' = conclude_worker ?t ((ws, err), s)"
    using assms(2-4) by (auto simp: verify_worker_def lookup_def Let_def p)
  have keep: "map wo_ID ws = sorted_list_of_set {i}" "err = None \<longrightarrow> list_all (\<lambda>w. wo_Status w = ''allocated'') ws"
    using verification_keeps [OF v(1)] by (simp_all add: id ids_of_def elems_def)
  then obtain w where w: "ws = [w]" "wo_ID w = i" by auto
  obtain e pr where "progress_at ?V ?p ?a (refuse_identities (start_observations ?p ?a [known])) ?g (pr, s)" using verify_run [OF v(1)] by metis
  then have reach: "reaches ?V ?g s" by (simp add: progress_at_def)
  have g: "sound sn (is_rec ?g)" "\<not> is_gone ?g" using assms(1) by (simp_all add: start_inspection_def)
  have m: "moves sn r (is_rec s)" using inspection_moves [OF reach, of r] by (simp add: start_inspection_def moves.stays)
  have gone: "ec2_gone E (rc_log (is_rec s)) i" if "only_gone ?t s err"
    using gone_by_ec2 [OF reach g] that by (simp add: only_gone_def id)
  have ev: "wo_Status w = ''allocated'' \<and> (\<exists>owner j v. ec2_instance E (rc_log (is_rec s)) owner j \<and> aws_to_string (ai_InstanceId j) = i
       \<and> machine_fits ?p a owner j \<and> ec2_volume E (rc_log (is_rec s)) v \<and> root_fits ?p a j v)" if "err = None"
  proof -
    have st: "wo_Status w = ''allocated''" using keep(2) that by (simp add: w(1))
    have "w \<in> set ws" by (simp add: w(1))
    from allocated_evidence [OF v(1) this st] show ?thesis using st shown_by_ec2 [OF g(1)] w(2) unfolding fits_ids by metis
  qed
  show thesis by (rule that [of ?t w err s]) (use v(2) w m gone ev id in auto)
qed

lemma conclude_worker_run:
  assumes "sound sn r" "map_of (rc_workers r) i = Some known" "wo_ID (it_known t) = i" "wo_ID w = i" "moves sn r (is_rec s)"
    and "r' = conclude_worker t (([w], err), s)"
  shows "sound sn r' \<and> (rc_Bounded r' \<longrightarrow> rc_Bounded r \<and> (only_gone t s err \<or> err = None))
    \<and> suffix (rc_log r) (rc_log r') \<and> rc_log r' = rc_log (is_rec s) \<and> rc_historical r' = rc_historical r
    \<and> map_of (rc_workers r') i = Some (verified_worker t s err w)
    \<and> (\<forall>k w0. k \<noteq> i \<longrightarrow> map_of (rc_workers r) k = Some w0 \<longrightarrow> (\<exists>w. map_of (rc_workers r') k = Some w \<and> standing w = standing w0))"
proof -
  obtain r1 where r1: "r' = r1\<lparr>rc_workers := map_put i (verified_worker t s err w) (rc_workers r1)\<rparr>" "moves sn r r1" "rc_log r1 = rc_log (is_rec s)"
    "rc_Bounded r1 \<longrightarrow> only_gone t s err \<or> err = None"
  proof (cases "\<not> only_gone t s err \<and> err \<noteq> None")
    case True
    then show ?thesis using that [OF _ moves.complains [OF assms(5)]] by (simp add: assms(3,6) conclude_worker_def Let_def)
  next
    case False
    then show ?thesis using that [OF _ assms(5)] by (auto simp: assms(3,6) conclude_worker_def Let_def)
  qed
  note k = moves_keep [OF r1(2) assms(1)]
  have "i \<in> fst ` set (rc_workers r1)" using k assms(2) by (metis domI dom_map_of_conv_image_fst)
  then have "sound sn r'" using sound_put [of sn r1 i "verified_worker t s err w"] k assms(4) by (simp add: r1(1))
  then show ?thesis using k r1 by auto
qed

lemma verify_worker_ok:
  assumes "sound sn r" "map_of (rc_workers r) i = Some known" "verify_worker E sn i r = Some r'"
  shows "sound sn r' \<and> (rc_Bounded r' \<longrightarrow> rc_Bounded r) \<and> suffix (rc_log r) (rc_log r')"
    "\<forall>k w0. k \<noteq> i \<longrightarrow> map_of (rc_workers r) k = Some w0 \<longrightarrow> (\<exists>w. map_of (rc_workers r') k = Some w \<and> standing w = standing w0)"
    "rc_Bounded r' \<Longrightarrow> (i, in_AttemptID (wo_Instance known)) \<in> machines (br_Attempts (sn_Receipt sn))
      \<Longrightarrow> \<exists>w. map_of (rc_workers r') i = Some w \<and> settled_worker E sn (rc_log r') i w"
proof -
  have "(sound sn r' \<and> (rc_Bounded r' \<longrightarrow> rc_Bounded r) \<and> suffix (rc_log r) (rc_log r'))
    \<and> (\<forall>k w0. k \<noteq> i \<longrightarrow> map_of (rc_workers r) k = Some w0 \<longrightarrow> (\<exists>w. map_of (rc_workers r') k = Some w \<and> standing w = standing w0))
    \<and> (rc_Bounded r' \<longrightarrow> (i, in_AttemptID (wo_Instance known)) \<in> machines (br_Attempts (sn_Receipt sn))
      \<longrightarrow> (\<exists>w. map_of (rc_workers r') i = Some w \<and> settled_worker E sn (rc_log r') i w))"
  proof (cases "known_attempt_of r (in_AttemptID (wo_Instance known))")
    case None
    have "(i, in_AttemptID (wo_Instance known)) \<notin> machines (br_Attempts (sn_Receipt sn))" if "rc_Bounded r"
      using None assms(1) that by (auto simp: known_attempt_of_def find_None_iff machines_def sound_def bounded_ok_def)
    then show ?thesis using None assms by (auto simp: verify_worker_def lookup_def)
  next
    case (Some a)
    obtain t w err s where run: "r' = conclude_worker t (([w], err), s)" "wo_ID (it_known t) = i" "wo_ID w = i" "moves sn r (is_rec s)"
      "only_gone t s err \<longrightarrow> ec2_gone E (rc_log (is_rec s)) i"
      "err = None \<longrightarrow> wo_Status w = ''allocated'' \<and> (\<exists>owner j v. ec2_instance E (rc_log (is_rec s)) owner j \<and> aws_to_string (ai_InstanceId j) = i
       \<and> machine_fits (br_Plan (sn_Receipt sn)) a owner j \<and> ec2_volume E (rc_log (is_rec s)) v \<and> root_fits (br_Plan (sn_Receipt sn)) a j v)"
      by (rule worker_run [OF assms(1,2) Some assms(3)])
    note c = conclude_worker_run [OF assms(1,2) run(2,3,4,1)]
    have "settled_worker E sn (rc_log r') i (verified_worker t s err w)"
      if b: "rc_Bounded r'" "(i, in_AttemptID (wo_Instance known)) \<in> machines (br_Attempts (sn_Receipt sn))"
    proof -
      have "rc_Bounded r" using c b(1) by blast
      then have r: "all_settled sn" "rc_Receipt r = sn_Receipt sn" using assms(1) by (simp_all add: sound_def bounded_ok_def)
      obtain a' where a': "a' \<in> set (br_Attempts (sn_Receipt sn))" "i \<in> set (ids_of a')" "ar_AttemptID a' = in_AttemptID (wo_Instance known)"
        using b(2) by (auto simp: machines_def)
      have "a \<in> set (br_Attempts (sn_Receipt sn))" "ar_AttemptID a = ar_AttemptID a'" using known_attempt_known [OF Some] r(2) a'(3) by simp_all
      then have "a = a'" using r(1) a'(1) unfolding all_settled_def by (metis option.inject)
      then show ?thesis using c b(1) run(5,6) a'(1,2) unfolding settled_worker_def Let_def by (cases "only_gone t s err") auto
    qed
    then show ?thesis using c by blast
  qed
  then show "sound sn r' \<and> (rc_Bounded r' \<longrightarrow> rc_Bounded r) \<and> suffix (rc_log r) (rc_log r')"
    "\<forall>k w0. k \<noteq> i \<longrightarrow> map_of (rc_workers r) k = Some w0 \<longrightarrow> (\<exists>w. map_of (rc_workers r') k = Some w \<and> standing w = standing w0)"
    "rc_Bounded r' \<Longrightarrow> (i, in_AttemptID (wo_Instance known)) \<in> machines (br_Attempts (sn_Receipt sn))
      \<Longrightarrow> \<exists>w. map_of (rc_workers r') i = Some w \<and> settled_worker E sn (rc_log r') i w" by blast+
qed

text \<open>A context that has ended stays so.\<close>

definition context_stays :: "look_env \<Rightarrow> bool" where
  "context_stays E \<longleftrightarrow> (\<forall>h h'. suffix h h' \<longrightarrow> le_ctx E h \<longrightarrow> le_ctx E h')"

definition attempt_at :: "reconciler \<Rightarrow> string \<Rightarrow> string" where
  "attempt_at r k = in_AttemptID (wo_Instance (lookup zero_worker (rc_workers r) k))"

lemma verify_workers_ok:
  assumes "sound sn r" "verify_workers E sn ks r = Some r'" "distinct ks" "set ks \<subseteq> dom (map_of (rc_workers r))" "context_stays E"
  shows "sound sn r' \<and> (rc_Bounded r' \<longrightarrow> rc_Bounded r) \<and> suffix (rc_log r) (rc_log r')
    \<and> (\<forall>k w0. k \<notin> set ks \<longrightarrow> map_of (rc_workers r) k = Some w0 \<longrightarrow> (\<exists>w. map_of (rc_workers r') k = Some w \<and> standing w = standing w0))
    \<and> (rc_Bounded r' \<longrightarrow> \<not> le_ctx E (LookContext # rc_log r') \<longrightarrow> (\<forall>k \<in> set ks. (k, attempt_at r k) \<in> machines (br_Attempts (sn_Receipt sn)))
        \<longrightarrow> (\<forall>k \<in> set ks. \<exists>w. map_of (rc_workers r') k = Some w \<and> settled_worker E sn (rc_log r') k w))"
  using assms(1-4)
proof (induction ks arbitrary: r)
  case (Cons k ks)
  let ?r = "look LookContext r"
  have s: "sound sn ?r" using moves_keep [OF moves.looks [OF moves.stays] Cons.prems(1)] by blast
  show ?case
  proof (cases "le_ctx E (LookContext # rc_log r)")
    case True
    then have r': "r' = ?r" using Cons.prems(2) by (simp add: look_context_def Let_def)
    have "le_ctx E (LookContext # rc_log r')" using True assms(5) r' unfolding context_stays_def by (metis look_simps(3) suffix_ConsI suffix_order.refl)
    then show ?thesis using s r' by (simp add: suffix_ConsI)
  next
    case False
    then obtain r1 where run: "verify_worker E sn k ?r = Some r1" "verify_workers E sn ks r1 = Some r'"
      using Cons.prems(2) by (auto simp: look_context_def Let_def split: option.splits)
    obtain known where known: "map_of (rc_workers r) k = Some known" using Cons.prems(4) by auto
    then have kn: "map_of (rc_workers ?r) k = Some known" by simp
    note v = verify_worker_ok [OF s kn run(1)]
    have dom: "set ks \<subseteq> dom (map_of (rc_workers r1))"
    proof
      fix j assume "j \<in> set ks"
      moreover from this obtain w0 where "map_of (rc_workers r) j = Some w0" using Cons.prems(4) by auto
      moreover have "j \<noteq> k" using Cons.prems(3) \<open>j \<in> set ks\<close> by auto
      ultimately show "j \<in> dom (map_of (rc_workers r1))" using v(2) by (metis domI look_simps(2))
    qed
    have "distinct ks" "k \<notin> set ks" using Cons.prems(3) by simp_all
    have "sound sn r1" using v(1) by blast
    note IH = Cons.IH [OF this run(2) \<open>distinct ks\<close> dom]
    have at: "attempt_at r1 j = attempt_at r j" if jk: "j \<in> set ks" for j
    proof -
      obtain w0 where w0: "map_of (rc_workers r) j = Some w0" using jk Cons.prems(4) by auto
      moreover have "j \<noteq> k" using jk \<open>k \<notin> set ks\<close> by blast
      ultimately obtain w1 where "map_of (rc_workers r1) j = Some w1" "standing w1 = standing w0" using v(2) by (metis look_simps(2))
      then show ?thesis using w0 by (simp add: attempt_at_def lookup_def standing_def)
    qed
    have 1: "sound sn r' \<and> (rc_Bounded r' \<longrightarrow> rc_Bounded r) \<and> suffix (rc_log r) (rc_log r')"
    proof -
      have "suffix (LookContext # rc_log r) (rc_log r1)" "suffix (rc_log r1) (rc_log r')" using v(1) IH by simp_all
      then have "suffix (rc_log r) (rc_log r')" using suffix_order.trans suffix_ConsD by metis
      moreover have "sound sn r'" "rc_Bounded r' \<longrightarrow> rc_Bounded r" using v(1) IH by simp_all
      ultimately show ?thesis by blast
    qed
    have 2: "\<exists>w. map_of (rc_workers r') j = Some w \<and> standing w = standing w0" if "j \<notin> set (k # ks)" "map_of (rc_workers r) j = Some w0" for j w0
      using IH v(2) that by (metis list.set_intros(1) list.set_intros(2) look_simps(2))
    have 3: "\<exists>w. map_of (rc_workers r') j = Some w \<and> settled_worker E sn (rc_log r') j w"
      if b: "rc_Bounded r'" "\<not> le_ctx E (LookContext # rc_log r')" "\<forall>j \<in> set (k # ks). (j, attempt_at r j) \<in> machines (br_Attempts (sn_Receipt sn))"
        and j: "j \<in> set (k # ks)" for j
    proof (cases "j = k")
      case True
      have "(k, in_AttemptID (wo_Instance known)) \<in> machines (br_Attempts (sn_Receipt sn))"
        using b(3) known by (simp add: attempt_at_def lookup_def)
      then obtain w1 where w1: "map_of (rc_workers r1) k = Some w1" "settled_worker E sn (rc_log r1) k w1" using v(3) IH b(1) by blast
      then obtain w where "map_of (rc_workers r') k = Some w" "standing w = standing w1" using IH \<open>k \<notin> set ks\<close> by blast
      then show ?thesis using settled_later [OF w1(2)] IH True by (auto simp: standing_def)
    next
      case False
      then show ?thesis using IH b j at by auto
    qed
    show ?thesis using 1 2 3 by blast
  qed
qed simp

section \<open>The whole reconciliation\<close>

lemma reconcile_ec2_ok:
  assumes "reconcile_ec2 E sn r = Some r'" "sound sn r" "context_stays E" "rc_Bounded r'" "\<not> le_ctx E (LookContext # rc_log r')"
    and "rc_Bounded r \<Longrightarrow> attributed (machines (br_Attempts (sn_Receipt sn))) (rc_workers r)"
  shows "sound sn r'" "\<forall>k w. map_of (rc_workers r') k = Some w \<longrightarrow> settled_worker E sn (rc_log r') k w"
proof -
  obtain r1 r2 where run: "reconcile_scan E sn r = Some r1" "reconcile_fleets E sn (br_Attempts (sn_Receipt sn)) r1 = Some r2"
    "verify_workers E sn (map fst (rc_workers r2)) r2 = Some r'"
    using assms(1) by (auto simp: reconcile_ec2_def split: option.splits)
  have m: "moves sn r r2" using moves_trans [OF reconcile_fleets_moves [OF run(2)] reconcile_scan_moves [OF run(1)]] .
  note k = moves_keep [OF m assms(2)]
  have s2: "sound sn r2" using k by blast
  then have d: "distinct (map fst (rc_workers r2))" by (simp add: sound_def shaped_def map_ok_def strict_sorted_iff)
  have dom: "set (map fst (rc_workers r2)) = dom (map_of (rc_workers r2))" by (simp add: dom_map_of_conv_image_fst)
  note v = verify_workers_ok [OF s2 run(3) d equalityD1 [OF dom] assms(3)]
  show s': "sound sn r'" using v by blast
  have b: "rc_Bounded r2" "rc_Bounded r" using v k assms(4) by blast+
  have keys: "dom (map_of (rc_workers q)) = all_ids sn" if "sound sn q" "rc_Bounded q" for q
    using that by (simp add: sound_def bounded_ok_def dom_map_of_conv_image_fst)
  have "(i, attempt_at r2 i) \<in> machines (br_Attempts (sn_Receipt sn))" if "i \<in> dom (map_of (rc_workers r2))" for i
  proof -
    have "i \<in> dom (map_of (rc_workers r))" using that keys [OF s2 b(1)] keys [OF assms(2) b(2)] by blast
    then obtain w0 where w0: "map_of (rc_workers r) i = Some w0" by blast
    then obtain w where "map_of (rc_workers r2) i = Some w" "standing w = standing w0" using k by blast
    then show ?thesis using assms(6) [OF b(2)] w0 by (auto simp: attributed_def attempt_at_def lookup_def standing_def)
  qed
  then have settled: "\<exists>w. map_of (rc_workers r') i = Some w \<and> settled_worker E sn (rc_log r') i w" if "i \<in> dom (map_of (rc_workers r2))" for i
    using v assms(4,5) that unfolding dom by blast
  have "dom (map_of (rc_workers r')) = dom (map_of (rc_workers r2))" using keys [OF s' assms(4)] keys [OF s2 b(1)] by simp
  then show "\<forall>k w. map_of (rc_workers r') k = Some w \<longrightarrow> settled_worker E sn (rc_log r') k w" using settled by fastforce
qed

lemma shaped_workers:
  assumes "shaped sn r"
  shows "map wo_ID (sortedBatchWorkers (rc_workers r)) = sorted_list_of_set (fst ` set (rc_workers r))"
    "w \<in> set (sortedBatchWorkers (rc_workers r)) \<Longrightarrow> map_of (rc_workers r) (wo_ID w) = Some w"
proof -
  have ok: "map_ok (rc_workers r)" "\<forall>(k, w) \<in> set (rc_workers r). wo_ID w = k" using assms by (simp_all add: shaped_def)
  have ids: "map wo_ID (map snd (rc_workers r)) = map fst (rc_workers r)" using ok(2) by auto
  have srt: "sorted (map wo_ID (map snd (rc_workers r)))" using ok(1) unfolding ids by (simp add: map_ok_def strict_sorted_iff)
  have same: "sortedBatchWorkers (rc_workers r) = map snd (rc_workers r)"
    unfolding sortedBatchWorkers_def by (rule sort_key_id_if_sorted [OF srt])
  show "map wo_ID (sortedBatchWorkers (rc_workers r)) = sorted_list_of_set (fst ` set (rc_workers r))"
    unfolding same ids using ok(1) by (metis list.set_map map_ok_def sorted_list_of_set.idem_if_sorted_distinct strict_sorted_iff)
  show "map_of (rc_workers r) (wo_ID w) = Some w" if "w \<in> set (sortedBatchWorkers (rc_workers r))"
    using that ok unfolding same by (auto simp: map_ok_def strict_sorted_iff map_of_is_SomeI)
qed

lemma bounded_settled:
  assumes "ReconcileLaunch E sn = Some ((ob, err), log)" "lo_Bounded ob" "context_stays E"
  shows "err = None \<and> lo_Errors ob = [] \<and> lo_Receipt ob = sn_Receipt sn \<and> all_settled sn
    \<and> map wo_ID (lo_Workers ob) = sorted_list_of_set (all_ids sn) \<and> (\<forall>w \<in> set (lo_Workers ob). settled_worker E sn log (wo_ID w) w)"
proof -
  obtain ok r where v: "validate E sn (start_reconciler sn) = (ok, r)" by fastforce
  then have "ok" using assms(1,2) by (auto simp: ReconcileLaunch_def reconciled_def split: if_splits)
  with v have v: "validate E sn (start_reconciler sn) = (True, r)" by simp
  have "le_api E" using assms(1,2) by (auto simp: ReconcileLaunch_def v conclude_reconcile_def reconciled_def Let_def look_context_def split: if_splits)
  then obtain r' where run: "reconcile_ec2 E sn r = Some r'" "conclude_reconcile E sn r' = ((ob, err), log)"
    using assms(1) by (auto simp: ReconcileLaunch_def v split: if_splits)
  then have c: "\<not> le_ctx E (LookContext # rc_log r')" "ob = reconciled sn r'" "log = LookContext # rc_log r'"
    "err = (if rc_Errors r' \<noteq> [] then Some (Failure ''launch_reconciliation_unavailable'') else None)"
    using assms(2) by (auto simp: conclude_reconcile_def look_context_def Let_def reconciled_def split: if_splits)
  have b: "rc_Bounded r'" using assms(2) by (simp add: c(2) reconciled_def)
  note vs = validated_sound [OF v]
  note e = reconcile_ec2_ok [OF run(1) vs(1) assms(3) b c(1) vs(3)]
  have f: "all_settled sn" "rc_Errors r' = []" "rc_Receipt r' = sn_Receipt sn" "fst ` set (rc_workers r') = all_ids sn" "shaped sn r'"
    using e(1) b by (simp_all add: sound_def bounded_ok_def)
  note w = shaped_workers [OF f(5)]
  have "settled_worker E sn log (wo_ID w) w" if "w \<in> set (lo_Workers ob)" for w
    using w(2) [of w] e(2) that settled_later [of E sn "rc_log r'" "wo_ID w" w log w] by (auto simp: c(2,3) reconciled_def suffix_ConsI)
  then show ?thesis using c f w(1) by (simp add: reconciled_def)
qed

text \<open>The reconciliation returns whenever the page tokens are finitely many.\<close>

lemma reconcile_fleets_return:
  assumes "finite T" "\<And>h out err. le_fleets E h = (Some out, err) \<Longrightarrow> aws_to_string (fq_NextToken out) \<in> T"
  shows "\<exists>r'. reconcile_fleets E sn as r = Some r'"
proof (induction as arbitrary: r)
  case (Cons a as)
  have "n = [] \<or> n \<in> T" if "fleet_step E sn a t x = (NextPage n, s')" for t x n s'
    using that assms(2) by (auto simp: fleet_step_def page_verdict_def Let_def split: prod.splits option.splits if_splits)
  then obtain e q r0 where "pages (on_state (look_context E)) (fleet_step E sn a) [] None (False, r) = Some (e, q, r0)"
    by (metis pages_return [OF assms(1)] prod.collapse)
  then obtain r1 where "reconcile_fleet E sn a r = Some r1"
    by (cases "re_match fleetIDRE (ar_FleetID a)") (simp_all add: reconcile_fleet_def)
  then show ?case using Cons.IH by (auto split: option.splits)
qed simp

lemma wrapped_tokens:
  assumes "wrapped_instances E sn t ids token s = ((Some out, err), s')"
    and "\<And>h out err. le_instances E h = (Some out, err) \<Longrightarrow> aws_to_string (ip_NextToken out) \<in> T"
  shows "aws_to_string (ip_NextToken out) \<in> insert [] T"
proof -
  obtain out0 err0 where o: "le_instances E (LookInstances ids token # rc_log (is_rec s)) = (out0, err0)" by fastforce
  show ?thesis
  proof (cases out0)
    case None
    then show ?thesis using assms(1) by (auto simp: wrapped_instances_def o Let_def aws_to_string_def split: if_splits)
  next
    case (Some o1)
    then show ?thesis using wrapped_reply [OF o [unfolded Some], of sn t] assms(1) assms(2) [OF o [unfolded Some]] by auto
  qed
qed

lemma verify_workers_return:
  assumes "finite T"
    and "\<And>h out err. le_instances E h = (Some out, err) \<Longrightarrow> aws_to_string (ip_NextToken out) \<in> T"
    and "\<And>h out err. le_volumes E h = (Some out, err) \<Longrightarrow> aws_to_string (vp_NextToken out) \<in> T"
  shows "\<exists>r'. verify_workers E sn ks r = Some r'"
proof (induction ks arbitrary: r)
  case (Cons k ks)
  have "\<exists>x. VerifyFleetWorkers (inspection_env E sn t) p a known g = Some x" for t p a known g
  proof (rule verification_returns [of "insert [] T" _ "\<lparr>fa_instances = wrapped_instances E sn t, fa_volumes = wrapped_volumes E\<rparr>"])
    show "finite (insert [] T)" using assms(1) by simp
    show "aws_to_string (ip_NextToken out) \<in> insert [] T"
      if "fa_instances \<lparr>fa_instances = wrapped_instances E sn t, fa_volumes = wrapped_volumes E\<rparr> ids t' s = ((Some out, err), s')" for ids t' s out err s'
      using that wrapped_tokens assms(2) by simp
    show "aws_to_string (vp_NextToken out) \<in> insert [] T"
      if "fa_volumes \<lparr>fa_instances = wrapped_instances E sn t, fa_volumes = wrapped_volumes E\<rparr> ids t' s = ((Some out, err), s')" for ids t' s out err s'
      using that assms(3) by (auto simp: wrapped_volumes_def Let_def)
  qed simp
  then have "\<exists>r'. verify_worker E sn k r = Some r'" for r by (simp add: verify_worker_def Let_def split: option.split)
  then obtain r1 where "verify_worker E sn k (look LookContext r) = Some r1" by blast
  then show ?case using Cons.IH [of r1] by (simp add: look_context_def Let_def)
qed simp

lemma reconcile_ends:
  assumes "finite T"
    and "\<And>h out err. le_instances E h = (Some out, err) \<Longrightarrow> aws_to_string (ip_NextToken out) \<in> T"
    and "\<And>h out err. le_volumes E h = (Some out, err) \<Longrightarrow> aws_to_string (vp_NextToken out) \<in> T"
    and "\<And>h out err. le_fleets E h = (Some out, err) \<Longrightarrow> aws_to_string (fq_NextToken out) \<in> T"
  shows "\<exists>x. ReconcileLaunch E sn = Some x"
proof -
  have scan: "\<exists>r'. reconcile_scan E sn r = Some r'" for r
  proof -
    obtain now r1 where c: "look_clock E r = (now, r1)" by (cases "look_clock E r")
    have "n = [] \<or> n \<in> T" if "scan_step E sn now t x = (NextPage n, s')" for t x n s'
      using that assms(2) by (auto simp: scan_step_def page_verdict_def Let_def split: prod.splits option.splits if_splits)
    then obtain e q r0 where "pages (on_state (look_context E)) (scan_step E sn now) [] None ([], r1) = Some (e, q, r0)"
      by (metis pages_return [OF assms(1)] prod.collapse)
    then show ?thesis by (simp add: reconcile_scan_def c)
  qed
  have "\<exists>r'. reconcile_ec2 E sn r = Some r'" for r
  proof -
    obtain r1 where 1: "reconcile_scan E sn r = Some r1" using scan by blast
    obtain r2 where 2: "reconcile_fleets E sn (br_Attempts (sn_Receipt sn)) r1 = Some r2"
      using reconcile_fleets_return [OF assms(1), of E] assms(4) by blast
    show ?thesis using verify_workers_return [OF assms(1,2,3)] by (simp add: reconcile_ec2_def 1 2)
  qed
  then have ec2: "\<exists>x. map_option (conclude_reconcile E sn) (reconcile_ec2 E sn r) = Some x" for r by (metis option.map(2))
  obtain ok r where "validate E sn (start_reconciler sn) = (ok, r)" by fastforce
  then show ?thesis using ec2 [of r] unfolding ReconcileLaunch_def by (cases ok; cases "le_api E") auto
qed


text \<open>C29.  The reconciliation returns, whatever EC2 answers and in whatever order, as long as it hands out finitely many page
  tokens: every loop stops at a token it has seen.\<close>

theorem reconcile_returns:
  assumes "finite T"
    and "\<And>h out err. le_instances E h = (Some out, err) \<Longrightarrow> aws_to_string (ip_NextToken out) \<in> T"
    and "\<And>h out err. le_volumes E h = (Some out, err) \<Longrightarrow> aws_to_string (vp_NextToken out) \<in> T"
    and "\<And>h out err. le_fleets E h = (Some out, err) \<Longrightarrow> aws_to_string (fq_NextToken out) \<in> T"
  shows "\<exists>x. ReconcileLaunch E sn = Some x"
  by (rule reconcile_ends [OF assms])

end
