(* ===== verification/ReconcileExample.thy ===== *)
theory ReconcileExample
  imports ReconcileSettled LedgerExample
begin

text \<open>
  The reconciliation on a concrete request: its one attempt has its complete response with two machines, and EC2 knows neither
  them nor the Fleet any more.
\<close>

definition ex_settled :: attempt_receipt where
  "ex_settled = ex_complete\<lparr>ar_Errors := Some [pool_error]\<rparr>"

definition ex_answered :: attempt_response where
  "ex_answered = \<lparr>rsp_SchemaVersion = 1, rsp_RequestID = ex_request, rsp_PlanSHA256 = Digest ex_plan, rsp_InputSHA256 = ex_hash,
     rsp_Attempt = ex_settled, rsp_Workers = Some (map (\<lambda>i. fleetWorker ex_plan ex_attempt i (hd ex_choices)) [''i-01234567'', ''i-89abcdef''])\<rparr>"

definition ex_shared :: launch_snapshot where
  "ex_shared = \<lparr>sn_Receipt = ex_receipt [ex_settled], sn_Prepared = [(ex_attempt_id, ex_prepared)], sn_Claims = [(ex_attempt_id, ex_claim)],
     sn_Responses = [(ex_attempt_id, ex_answered)]\<rparr>"

definition ex_forgotten :: look_env where
  "ex_forgotten = \<lparr>le_api = True, le_ctx = (\<lambda>h. False), le_clock = (\<lambda>h. 0),
     le_instances = (\<lambda>h. case h of LookInstances ids t # _ \<Rightarrow> (None, Some (APIError ''InvalidInstanceID.NotFound''))
       | _ \<Rightarrow> (Some \<lparr>ip_Reservations = [], ip_NextToken = None\<rparr>, None)),
     le_volumes = (\<lambda>h. (None, None)), le_fleets = (\<lambda>h. (None, Some (APIError ''InvalidFleetId.NotFound''))), le_inputDigest = (\<lambda>i. ex_hash)\<rparr>"

lemma ex_settled_fields: "ar_AttemptID ex_settled = ex_attempt_id" "ids_of ex_settled = [''i-01234567'', ''i-89abcdef'']" "terminal ex_settled"
  "ar_FleetID ex_settled = ''fleet-01234567-0123-0123-0123-0123456789ab''"
  by (simp_all add: ex_settled_def ex_complete_def ex_attempt_def ids_of_def elems_def terminal_def)

lemma ex_requested: "ar_RequestedCount ex_settled = 3"
  by (simp add: ex_settled_def ex_complete_def ex_attempt_def)

lemma pinned_errors: "attempt_pinned r n parent (a\<lparr>ar_Errors := e\<rparr>) = attempt_pinned r n parent a"
  by (simp add: attempt_pinned_def split: sum.split)

lemma ex_settled_ok: "Receipt_Validate (ex_receipt [ex_settled]) = Inr ()"
proof (rule ex_receipt_valid)
  have "attempt_pinned (ex_receipt [ex_settled]) 0 [] (ex_attempt\<lparr>ar_State := ''complete'',
      ar_FleetID := ''fleet-01234567-0123-0123-0123-0123456789ab'', ar_InstanceIDs := Some [''i-01234567'', ''i-89abcdef'']\<rparr>)"
    by (rule ex_pinned [of ex_attempt]) (simp add: ex_attempt_def)
  then have "attempt_pinned (ex_receipt [ex_settled]) 0 [] ex_settled" unfolding ex_settled_def ex_complete_def pinned_errors .
  then show "attempts_ok (ex_receipt [ex_settled]) [] [] [] [ex_settled]"
    using ex_ids_match by (simp add: attempt_state_ok_def states_def ids_of_def) (simp add: ex_settled_def ex_complete_def ex_attempt_def)
qed simp

lemma ex_answer_valid: "validResponse (ex_receipt []) ex_prepared ex_answered"
proof -
  have 1: "response_shape ex_prepared ex_answered"
    by (simp add: response_shape_def ex_answered_def ex_prepared_def ex_settled_def ex_complete_def)
  have 2: "ex_settled\<lparr>ar_State := ''prepared'', ar_FleetID := [], ar_InstanceIDs := Some [], ar_Errors := Some []\<rparr> = pr_Attempt ex_prepared"
    by (simp add: ex_settled_def ex_complete_def ex_prepared_def ex_attempt_def)
  have 3: "Receipt_Validate (add_attempt (ex_receipt []) ex_settled) = Inr ()" using ex_settled_ok by (simp add: add_attempt_def ex_receipt_def)
  have 4: "list_all (response_worker_ok (ex_receipt []) ex_prepared s) (elems (rsp_Workers ex_answered))" for s
    by (simp add: response_worker_ok_def ex_answered_def elems_def worker_choice_def fleetWorker_def ex_choices_def ex_receipt_def
        ex_plan_fields ex_prepared_def)
  have 5: "validLaunchDiagnostic p ''complete'' pool_error" for p
    by (simp add: validLaunchDiagnostic_def known_diagnostic_def pool_error_def plain_error_def)
  have f: "rsp_Attempt ex_answered = ex_settled" "map wo_ID (elems (rsp_Workers ex_answered)) = [''i-01234567'', ''i-89abcdef'']"
    "length (elems (rsp_Workers ex_answered)) = 2" by (simp_all add: ex_answered_def elems_def)
  have "ar_State ex_settled = ''complete''" "elems (ar_Errors ex_settled) = [pool_error]" by (simp_all add: ex_settled_def ex_complete_def elems_def)
  then show ?thesis using 1 2 3 4 5 ex_ids_match(3) by (simp add: validResponse_def Let_def f ex_settled_fields ex_requested del: set_map)
qed

lemma ex_records: "records_sound ex_forgotten ex_shared (ex_receipt []) ex_settled"
  using ex_valid_prepared ex_answer_valid ex_settled_fields(3)
  by (simp add: records_sound_def ex_shared_def Let_def ex_settled_fields ex_forgotten_def ex_claim_def) (simp add: ex_answered_def ex_settled_fields)

lemma ex_settled_answer: "settled_response ex_shared ex_settled"
  by (simp add: settled_response_def ex_shared_def ex_settled_fields) (simp add: ex_answered_def ex_settled_fields)

text \<open>The reconciler after the validation.\<close>

definition ex_begun :: reconciler where
  "ex_begun = \<lparr>rc_Receipt = ex_receipt [ex_settled], rc_Errors = [], rc_Bounded = True,
     rc_workers = map (\<lambda>i. (i, fleetWorker ex_plan ex_attempt i (hd ex_choices))) [''i-01234567'', ''i-89abcdef''],
     rc_historical = [''i-01234567'', ''i-89abcdef''], rc_log = []\<rparr>"

lemma ex_workers: "rc_workers (start_reconciler ex_shared) = rc_workers ex_begun"
  by (simp add: start_reconciler_def snapshotWorkers_def ex_shared_def ex_receipt_def snapshot_turn_def response_workers_def ex_settled_fields
      ex_answered_def elems_def put_worker_def ensure_worker_def sortedBatchWorkers_def ex_begun_def)

lemma ex_validated: "validate ex_forgotten ex_shared (start_reconciler ex_shared) = (True, ex_begun)"
proof -
  have "sn_Receipt ex_shared = ex_receipt [ex_settled]" "br_Attempts (ex_receipt [ex_settled]) = [ex_settled]"
    "(ex_receipt [ex_settled])\<lparr>br_Attempts := []\<rparr> = ex_receipt []" by (simp_all add: ex_shared_def ex_receipt_def)
  moreover have "(start_reconciler ex_shared)\<lparr>rc_historical := [''i-01234567'', ''i-89abcdef'']\<rparr> = ex_begun"
    using ex_workers by (simp add: start_reconciler_def ex_begun_def) (simp add: ex_shared_def)
  moreover have "rc_historical (start_reconciler ex_shared) = []" by (simp add: start_reconciler_def)
  ultimately show ?thesis using ex_settled_ok ex_records ex_settled_answer
    by (simp add: validate_def Let_def ex_settled_fields) (simp add: ex_shared_def)
qed

section \<open>What EC2 says\<close>

lemma ex_forgotten_simps [simp]: "le_api ex_forgotten" "\<not> le_ctx ex_forgotten h" "le_clock ex_forgotten h = 0"
  "le_fleets ex_forgotten h = (None, Some (APIError ''InvalidFleetId.NotFound''))"
  "le_instances ex_forgotten (LookScan t # h) = (Some \<lparr>ip_Reservations = [], ip_NextToken = None\<rparr>, None)"
  "le_instances ex_forgotten (LookInstances ids t # h) = (None, Some (APIError ''InvalidInstanceID.NotFound''))"
  by (simp_all add: ex_forgotten_def)

text \<open>What these calls leave as it is.\<close>

definition same_but_log :: "reconciler \<Rightarrow> reconciler \<Rightarrow> bool" where
  "same_but_log r r' \<longleftrightarrow> r'\<lparr>rc_log := rc_log r\<rparr> = r"

lemma ex_context: "look_context ex_forgotten r = (False, look LookContext r)" "look_clock ex_forgotten r = (0, look LookClock r)"
  by (simp_all add: look_context_def look_clock_def Let_def)

lemma same_look [simp]: "same_but_log r (look c r') = same_but_log r r'" "same_but_log r r"
  by (simp_all add: same_but_log_def look_def)

lemma same_fields:
  assumes "same_but_log r r'"
  shows "rc_Errors r' = rc_Errors r \<and> rc_Bounded r' = rc_Bounded r \<and> rc_Receipt r' = rc_Receipt r \<and> rc_historical r' = rc_historical r
    \<and> rc_workers r' = rc_workers r"
  using assms by (cases r; cases r') (simp add: same_but_log_def)

lemma ex_scanned: "\<exists>r'. reconcile_scan ex_forgotten sn r = Some r' \<and> same_but_log r r'"
proof -
  have "pages (on_state (look_context ex_forgotten)) (scan_step ex_forgotten sn 0) [] None ([], look LookClock r)
      = Some (LastPage, [], look (LookScan None) (look LookContext (look LookClock r)))"
    by (subst pages.simps) (simp add: on_state_def ex_context scan_step_def page_verdict_def Let_def)
  then show ?thesis by (simp add: reconcile_scan_def ex_context inventory_end_def)
qed

lemma ex_fleets_read: "\<exists>r'. reconcile_fleets ex_forgotten sn [ex_settled] r = Some r' \<and> same_but_log r r'"
proof -
  have "pages (on_state (look_context ex_forgotten)) (fleet_step ex_forgotten sn ex_settled) [] None (False, r)
      = Some (LastPage, False, look (LookFleets (ar_FleetID ex_settled) None) (look LookContext r))"
    by (subst pages.simps) (simp add: on_state_def ex_context fleet_step_def apiCode_def Let_def)
  then show ?thesis using ex_ids_match(3) by (simp add: reconcile_fleet_def ex_settled_fields fleet_end_def)
qed

text \<open>A machine that EC2 does not know, verified.\<close>

lemma ex_gone_worker:
  assumes "map_of (rc_workers r) i = Some w" "wo_ID w = i" "re_match instanceRE i" "i \<in> set (rc_historical r)"
    and "known_attempt_of r (in_AttemptID (wo_Instance w)) = Some a"
  shows "\<exists>r' w'. verify_worker ex_forgotten sn i r = Some r' \<and> same_but_log r (r'\<lparr>rc_workers := rc_workers r\<rparr>)
    \<and> rc_workers r' = map_put i w' (rc_workers r) \<and> wo_Status w' = ''historical''"
proof -
  let ?a = "a\<lparr>ar_InstanceIDs := Some [i]\<rparr>" and ?p = "br_Plan (rc_Receipt r)"
  let ?t = "\<lparr>it_attempt = ?a, it_known = w, it_historical = True\<rparr>"
  let ?V = "inspection_env ex_forgotten sn ?t" and ?g = "start_inspection r" and ?m = "[(i, fresh_observation (unobserved w))]"
  let ?s = "(with_rec (\<lambda>r. look (LookInstances [i] None) (look LookContext (look LookClock r))) ?g)\<lparr>is_gone := True\<rparr>"
  have now: "lift_rec (look_clock ex_forgotten) ?g = (0, with_rec (look LookClock) ?g)" by (simp add: lift_rec_def ex_context)
  have start: "start_observations ?p ?a [w] = ?m"
    using assms(2) by (simp add: start_observations_def add_known_def add_expected_def ids_of_def elems_def)
  have refuse: "refuse_identities ?m = ?m" using assms(3) by (simp add: refuse_identities_def)
  have "pages (on_state (ve_ctx ?V)) (instances_step (the (ve_api ?V)) ?p ?a 0 [i]) [] None ((False, ?m), with_rec (look LookClock) ?g)
      = Some (LastPage, (False, ?m), ?s)"
    by (subst pages.simps) (simp add: on_state_def inspection_env_def lift_rec_def ex_context instances_step_def wrapped_instances_def
        apiCode_def Let_def instance_rows_def page_verdict_def)
  then have 1: "read_instances ?V ?p ?a 0 [i] (False, ?m) (with_rec (look LookClock) ?g) = Some (None, (False, ?m), ?s)"
    by (simp add: read_instances_def inspection_env_def end_error_def note_end_def)
  have 2: "read_volumes ?V ?p ?a (False, ?m) ?s = Some (None, (False, ?m), ?s)"
    by (simp add: read_volumes_def inspection_env_def root_ids_def refuse_shared_roots_def fresh_observation_def Let_def)
  let ?w = "judged (fresh_observation (unobserved w))"
  have st: "wo_Status ?w = ''not_observed''" by (simp add: judged_def fresh_observation_def Let_def)
  then have 3: "judgement None (False, ?m) = ([?w], Some observation_unavailable)" by (simp add: judgement_def)
  have run: "VerifyFleetWorkers ?V ?p ?a [w] ?g = Some (([?w], Some observation_unavailable), ?s)"
    using assms(3) by (simp add: VerifyFleetWorkers_def start refuse now 1 2 3)
  let ?x = "verified_worker ?t ?s (Some observation_unavailable) ?w"
  have gone: "only_gone ?t ?s (Some observation_unavailable)" by (simp add: only_gone_def start_inspection_def)
  have "verify_worker ex_forgotten sn i r = Some (conclude_worker ?t (([?w], Some observation_unavailable), ?s))"
    using assms run by (simp add: verify_worker_def lookup_def Let_def)
  moreover have "conclude_worker ?t (([?w], Some observation_unavailable), ?s) = (is_rec ?s)\<lparr>rc_workers := map_put i ?x (rc_workers (is_rec ?s))\<rparr>"
    using gone assms(2) by (simp add: conclude_worker_def Let_def)
  moreover have "rc_workers (is_rec ?s) = rc_workers r" "same_but_log r ((is_rec ?s)\<lparr>rc_workers := rc_workers r\<rparr>)"
    by (simp_all add: start_inspection_def same_but_log_def look_def)
  moreover have "wo_Status ?x = ''historical''" using gone by simp
  ultimately show ?thesis by (intro exI [of _ "(is_rec ?s)\<lparr>rc_workers := map_put i ?x (rc_workers (is_rec ?s))\<rparr>"] exI [of _ ?x]) simp
qed

section \<open>The whole reconciliation\<close>

lemma ex_reconciled: "\<exists>ob log. ReconcileLaunch ex_forgotten ex_shared = Some ((ob, None), log) \<and> lo_Bounded ob"
proof -
  let ?i = "''i-01234567''" and ?j = "''i-89abcdef''" and ?w = "\<lambda>i. fleetWorker ex_plan ex_attempt i (hd ex_choices)"
  have attempts: "br_Attempts (sn_Receipt ex_shared) = [ex_settled]" by (simp add: ex_shared_def ex_receipt_def)
  obtain r1 where 1: "reconcile_scan ex_forgotten ex_shared ex_begun = Some r1" "same_but_log ex_begun r1" using ex_scanned by blast
  obtain r2 where 2: "reconcile_fleets ex_forgotten ex_shared [ex_settled] r1 = Some r2" "same_but_log r1 r2" using ex_fleets_read by blast
  have f2: "rc_workers r2 = rc_workers ex_begun \<and> rc_historical r2 = [?i, ?j] \<and> rc_Receipt r2 = ex_receipt [ex_settled] \<and> rc_Errors r2 = [] \<and> rc_Bounded r2"
    using same_fields [OF 1(2)] same_fields [OF 2(2)] by (simp add: ex_begun_def)
  have keys: "map fst (rc_workers r2) = [?i, ?j]" using f2 by (simp add: ex_begun_def)
  have known: "known_attempt_of r (in_AttemptID (wo_Instance (?w k))) = Some ex_settled" if "rc_Receipt r = ex_receipt [ex_settled]" for r k
    using that ex_settled_fields(1) by (simp add: known_attempt_of_def ex_receipt_def fleetWorker_attempt ex_attempt_def)
  let ?r = "look LookContext r2"
  have "map_of (rc_workers ?r) ?i = Some (?w ?i)" "?i \<in> set (rc_historical ?r)" "rc_Receipt ?r = ex_receipt [ex_settled]"
    using f2 by (simp_all add: ex_begun_def)
  note g3 = ex_gone_worker [OF this(1) fleetWorker_ID ex_ids_match(1) this(2) known [OF this(3)], where sn = ex_shared]
  then obtain r3 w3 where
    3: "verify_worker ex_forgotten ex_shared ?i ?r = Some r3" "same_but_log ?r (r3\<lparr>rc_workers := rc_workers ?r\<rparr>)"
      "rc_workers r3 = map_put ?i w3 (rc_workers ?r)" by blast
  have f3: "rc_historical r3 = [?i, ?j] \<and> rc_Receipt r3 = ex_receipt [ex_settled] \<and> rc_Errors r3 = [] \<and> rc_Bounded r3"
    using same_fields [OF 3(2)] f2 by simp
  let ?r = "look LookContext r3"
  have "map_of (rc_workers ?r) ?j = Some (?w ?j)" "?j \<in> set (rc_historical ?r)" "rc_Receipt ?r = ex_receipt [ex_settled]"
    using f2 f3 3(3) by (simp_all add: ex_begun_def)
  note g4 = ex_gone_worker [OF this(1) fleetWorker_ID ex_ids_match(2) this(2) known [OF this(3)], where sn = ex_shared]
  then obtain r4 w4 where
    4: "verify_worker ex_forgotten ex_shared ?j ?r = Some r4" "same_but_log ?r (r4\<lparr>rc_workers := rc_workers ?r\<rparr>)" by blast
  have f4: "rc_Errors r4 = []" "rc_Bounded r4"
    using same_fields [OF 4(2)] f3 by simp_all
  have "reconcile_ec2 ex_forgotten ex_shared ex_begun = Some r4"
    using 1(1) 2(1) 3(1) 4(1) by (simp add: reconcile_ec2_def attempts keys ex_context)
  then have "ReconcileLaunch ex_forgotten ex_shared = Some (conclude_reconcile ex_forgotten ex_shared r4)"
    by (simp add: ReconcileLaunch_def ex_validated)
  then show ?thesis using f4 by (simp add: conclude_reconcile_def ex_context Let_def reconciled_def)
qed


theorem reconcile_returns_witness: "\<exists>x. ReconcileLaunch ex_forgotten ex_shared = Some x"
proof (rule reconcile_returns [of "{[]}"])
  show "aws_to_string (ip_NextToken out) \<in> {[]}" if "le_instances ex_forgotten h = (Some out, err)" for h out err
    using that by (auto simp: ex_forgotten_def aws_to_string_def split: list.splits look_call.splits)
qed (simp_all add: ex_forgotten_def)

end
