(* ===== verification/Spec2Isabelle.thy ===== *)
theory Spec2Isabelle
  imports CleanupProperties CleanupLambda DispatchExample RecoveryExample FleetWorkersExample ReconcileExample
begin

text \<open>
  A verification library for devbox (\<^verbatim>\<open>cmd/devbox\<close>, \<^verbatim>\<open>internal/\<close>), a Go program that launches, runs on and removes
  EC2 machines for one owner, and that must never launch twice for one authorisation, never terminate a
  machine outside the verified scope, and never claim a removal it has not seen.

  \<^bold>\<open>How the program is modelled.\<close>  Go strings are byte strings, pointers and nil-able slices are options, \<open>time.Time\<close> is
  the number of nanoseconds since year 1, \<open>int\<close> is an integer with the 64-bit range written out where text is read.
  Errors are values: \<open>failure\<close>, \<open>op_error\<close>, a reason, or \<open>Inl\<close> of a sum.  A failure keeps its code; its text for the
  user is left out.  Everything outside the program (AWS, S3, the clock, the context, the file system's
  faults) is a record of functions of the history of calls, newest first, so that each theorem holds for every behaviour of
  these services, also one that changes its answers.  A goroutine has a history of its own.

  \<^bold>\<open>The standard library.\<close>  \<open>GoTime\<close> (\<^verbatim>\<open>time\<close>: calendar, RFC 3339), \<open>GoStrconv\<close> (\<^verbatim>\<open>strconv\<close>, base64), \<open>GoRegex\<close> (\<^verbatim>\<open>regexp\<close>), \<open>GoHash\<close>
  (\<^verbatim>\<open>sha256\<close>), \<open>GoJson\<close> and \<open>GoJsonCodec\<close> (\<^verbatim>\<open>encoding/json\<close>: reading, writing, struct tags) hold what the program uses of
  it; \<open>AwsTypes\<close> holds the SDK's data; \<open>GoJsonIndent\<close> the indented text; \<open>Prelude\<close> the shared lemmas and the collections \<open>go_defs\<close>, \<open>frame\<close>
  and \<open>calls\<close>.

  \<^bold>\<open>Expiry and cleanup.\<close>  \<open>ExpiryPolicy\<close> is \<^verbatim>\<open>internal/expiry/policy.go\<close> (windows, TTLs, the allocation gate), \<open>ExpiryCleanup\<close> is
  \<^verbatim>\<open>internal/expiry/cleanup.go\<close> (\<open>Evaluate\<close>, \<open>Recheck\<close>).  \<open>CleanupDiscovery\<close>, \<open>CleanupWorker\<close> and \<open>CleanupService\<close> are
  \<^verbatim>\<open>internal/expirycleanup\<close>: the paged scan, one worker's steps (a second read, the decision, the termination,
  the volumes), and \<open>Run\<close> with its rounds and report.  \<open>CleanupLambda\<close> is \<^verbatim>\<open>internal/cleanuplambda\<close>: the input decoder and
  the invocation handler.  \<open>CleanupReport\<close> states what a report means, \<open>CleanupProperties\<close> proves that a run
  terminates each instance at most once, only after the full guard, and reports deletions only on evidence.

  \<^bold>\<open>Launching.\<close>  \<open>ConfigModel\<close> and \<open>SshKey\<close> are the validators of \<^verbatim>\<open>internal/config\<close> and \<^verbatim>\<open>internal/sshkey\<close>.  \<open>LaunchSelection\<close>,
  \<open>LaunchPlan\<close> and \<open>LaunchPlanJson\<close> are selection, names, plans, their text and digest (\<^verbatim>\<open>selection.go\<close>, \<^verbatim>\<open>batch_contract.go\<close>,
  \<^verbatim>\<open>expiry.go\<close> of \<^verbatim>\<open>internal/lifecycle\<close>).  \<open>BatchReceipt\<close> is the receipt and its lineage, \<open>Workers\<close> and \<open>Fleet\<close> are
  \<^verbatim>\<open>fleet.go\<close>: the Fleet request and the reading of its reply.  \<open>LedgerRecords\<close> and \<open>LaunchLedger\<close> are \<^verbatim>\<open>launch_ledger.go\<close>: the
  shared record in S3, whose conditional writes elect one dispatcher per attempt.  \<open>LedgerProperties\<close> refines
  the bucket to a one-shot election per key (locale \<open>one_shot_log\<close>, interpreted on the model's store).  \<open>AttemptDispatch\<close> is
  \<open>Dispatch\<close> of \<^verbatim>\<open>attempt.go\<close>, over any ledger (a record of operations, as the Go interface is); \<open>DispatchProperties\<close> holds its
  guards and its completion, \<open>DispatchLedger\<close> composes it with the ledger in S3 (locale \<open>forward_ledger\<close>, interpreted on it).

  \<^bold>\<open>Recovering.\<close>  \<open>BatchCache\<close> is \<^verbatim>\<open>batch_store.go\<close>: receipts on the local disk, each system call of a save and a restore;
  \<open>BatchCacheProperties\<close> shows that no interruption loses or regresses one.  \<open>BatchOutcome\<close> is \<^verbatim>\<open>batch_outcome.go\<close> with the
  exit codes of \<^verbatim>\<open>batch_run.go\<close>; \<open>OutcomeProperties\<close> shows what its counts, commands and codes mean.  \<open>Recovery\<close> is
  \<^verbatim>\<open>batch_recovery.go\<close> (\<open>Resume\<close>, \<open>RetryMissing\<close>) over any ledger, composed of the cache, the outcome and \<open>Dispatch\<close>;
  \<open>RecoveryProperties\<close> proves over the locale \<open>recovery_ledger\<close>, interpreted on the ledger in S3, that a resume only looks and
  that a retry is sent only for what is certainly missing.

  \<^bold>\<open>Inspecting.\<close>  \<open>FleetWorkers\<close> is \<^verbatim>\<open>fleet_workers.go\<close>: reading the machines of an attempt by identity and comparing each, and its
  root volume, with every pin of the plan.  It is written over an interface with a state of its own, because
  \<open>Reconcile\<close> (\<^verbatim>\<open>batch_reconcile.go\<close>) puts a wrapper around EC2 when it calls it.  \<open>FleetWorkersProperties\<close> follows what the
  interface showed (the step relation \<open>reaches\<close>); \<open>ReconcileProperties\<close> takes every change of the reconciler as a move of the
  relation \<open>moves\<close> and proves by rule induction what all of them keep; \<open>ReconcileSettled\<close> composes the two: an inspection
  that bounds the allocation has settled every attempt and every machine.

  \<^bold>\<open>Removing.\<close>  \<open>Inventory\<close> is \<^verbatim>\<open>inventory.go\<close>, \<open>Teardown\<close> is \<^verbatim>\<open>multi_down.go\<close>: selecting machines, then terminating
  exactly those and observing that they and their volumes are gone.  \<open>InventoryProperties\<close> and \<open>TeardownProperties\<close> prove
  it.  The \<open>Example\<close> theories run the model on concrete input, as witnesses of the theorems.

  \<^bold>\<open>Bounds and fuel.\<close>  Loops that the code bounds keep its bound: 256 attempts and at most 2,316 calls in \<open>Load\<close>, 1 MiB
  records, 128 inventory pages in a teardown, 30 observations of a machine or a volume.  The JSON reader
  has fuel of twice the text's length, enough for every text (each level consumes a character); the paged reads of an
  inspection (\<open>Paging\<close>) have no bound in the code and are a partial function, which returns when the page tokens are
  finitely many.

  \<^bold>\<open>Not modelled.\<close>  Client construction and the SDK's own work (\<open>New\<close>, \<open>AWSFactory\<close>, the hash of an SDK struct, which
  is a parameter); reading of TOML files; terminal output and flag parsing (\<^verbatim>\<open>internal/cli\<close>); OpenTofu, files and processes in
  \<^verbatim>\<open>internal/setup\<close>, \<^verbatim>\<open>internal/logs\<close>, \<^verbatim>\<open>internal/runner\<close> and \<^verbatim>\<open>internal/access\<close>, which are mostly system calls.  Real time, data
  races inside the Go runtime and the texts of messages are outside the model.
\<close>

end
